(* ===== verification/Prelude.thy ===== *)
theory Prelude
  imports Main "HOL-Library.List_Lexorder" "HOL-Library.Char_ord" "HOL-Library.Sublist"
    "HOL-Library.Word" "HOL-Library.Multiset"
begin

text \<open>
  Shared ground of the development: the collections of simplification rules the component
  theories feed, the type names of the model, and the generic list facts behind the two loop
  shapes the gateway uses everywhere: a scan that stops at the first element satisfying a test,
  and a scan that keeps a \<open>seen\<close> map and rejects a repeated key.

  Go values are modelled as follows. A Go \<open>string\<close> or \<open>[]byte\<close> is a list of bytes, Isabelle's
  \<^typ>\<open>string\<close> (a \<^typ>\<open>char\<close> is one byte). \<open>uint16\<close> and \<open>uint64\<close> are words of that width. A
  function with an \<open>error\<close> result returns a sum, \<open>Inl\<close> the error. A nil-able pointer is an
  \<open>option\<close>.
\<close>

named_theorems go_simps \<open>rewriting the Go library functions to list operations\<close>
named_theorems decide_simps \<open>what a decision procedure returns on each branch\<close>
named_theorems inv_intros \<open>operations preserve a component's invariant\<close>

type_synonym byte_string = string
type_synonym u16 = "16 word"
type_synonym u64 = "64 word"

abbreviation byte_val :: "char \<Rightarrow> nat" where
  "byte_val c \<equiv> of_char c"

lemma pred_option_code [code]: "pred_option P x = (case x of None \<Rightarrow> True | Some y \<Rightarrow> P y)"
  by (cases x) simp_all

subsection \<open>Results\<close>

definition is_ok :: "'e + 'a \<Rightarrow> bool" where
  "is_ok r \<longleftrightarrow> (case r of Inl _ \<Rightarrow> False | Inr _ \<Rightarrow> True)"

lemma is_ok_simps [simp]: "is_ok (Inr x)" "\<not> is_ok (Inl e)"
  by (simp_all add: is_ok_def)

lemma is_okE [elim?]: "is_ok r \<Longrightarrow> (\<And>x. r = Inr x \<Longrightarrow> thesis) \<Longrightarrow> thesis"
  by (cases r) simp_all

text \<open>The Go loop \<open>for _, x := range xs { y, err := f(x); if err != nil { return err } ... }\<close>.\<close>

fun map_result :: "('a \<Rightarrow> 'e + 'b) \<Rightarrow> 'a list \<Rightarrow> 'e + 'b list" where
  "map_result f [] = Inr []"
| "map_result f (x # xs) =
     (case f x of Inl e \<Rightarrow> Inl e
      | Inr y \<Rightarrow> (case map_result f xs of Inl e \<Rightarrow> Inl e | Inr ys \<Rightarrow> Inr (y # ys)))"

lemma map_result_Inr_iff:
  "map_result f xs = Inr ys \<longleftrightarrow> list_all2 (\<lambda>x y. f x = Inr y) xs ys"
proof (induction xs arbitrary: ys)
  case Nil
  then show ?case by auto
next
  case (Cons x xs)
  then show ?case
    by (cases ys) (fastforce split: sum.splits)+
qed

lemma map_result_length: "map_result f xs = Inr ys \<Longrightarrow> length ys = length xs"
  by (simp add: map_result_Inr_iff list_all2_lengthD)

lemma map_result_in:
  "map_result f xs = Inr ys \<Longrightarrow> y \<in> set ys \<Longrightarrow> \<exists>x \<in> set xs. f x = Inr y"
  by (fastforce simp: map_result_Inr_iff list_all2_conv_all_nth in_set_conv_nth)

lemma map_result_in':
  "map_result f xs = Inr ys \<Longrightarrow> x \<in> set xs \<Longrightarrow> \<exists>y \<in> set ys. f x = Inr y"
  by (fastforce simp: map_result_Inr_iff list_all2_conv_all_nth in_set_conv_nth)

subsection \<open>Scans that reject a repeated key\<close>

text \<open>
  \<open>seen := map[K]bool{}; for _, x := range xs { if !ok(x) || seen[k(x)] { fail }; seen[k(x)] = true }\<close>
\<close>

fun scan_distinct :: "('a \<Rightarrow> bool) \<Rightarrow> ('a \<Rightarrow> 'k) \<Rightarrow> 'k list \<Rightarrow> 'a list \<Rightarrow> bool" where
  "scan_distinct ok k seen [] = True"
| "scan_distinct ok k seen (x # xs) =
     (if \<not> ok x \<or> k x \<in> set seen then False else scan_distinct ok k (k x # seen) xs)"

lemma scan_distinct_iff:
  "scan_distinct ok k seen xs \<longleftrightarrow>
     (\<forall>x \<in> set xs. ok x) \<and> distinct (map k xs) \<and> set (map k xs) \<inter> set seen = {}"
  by (induction xs arbitrary: seen) auto

lemma scan_distinct_Nil [simp]:
  "scan_distinct ok k [] xs \<longleftrightarrow> (\<forall>x \<in> set xs. ok x) \<and> distinct (map k xs)"
  by (simp add: scan_distinct_iff)

subsection \<open>The first element that satisfies a test\<close>

lemma find_SomeD: "find P xs = Some x \<Longrightarrow> x \<in> set xs \<and> P x"
  by (auto simp: find_Some_iff)

lemma find_not_None: "find P xs \<noteq> None \<longleftrightarrow> (\<exists>x \<in> set xs. P x)"
  by (auto simp: find_None_iff)

subsection \<open>Sorting by a key without repetitions\<close>

lemma sort_key_cong_perm:
  assumes "distinct (map f xs)" and "mset xs = mset ys"
  shows "sort_key f xs = sort_key f ys"
proof -
  have "inj_on f (set xs)"
    using assms(1) by (simp add: distinct_map)
  then show ?thesis
    using assms(2) by (intro sort_key_inj_key_eq) simp_all
qed

lemma sort_cong_perm: "mset xs = mset ys \<Longrightarrow> sort xs = sort ys"
  by (metis mset_sort properties_for_sort sorted_sort)

subsection \<open>Invariants of step relations\<close>

text \<open>
  The contract of every state machine of the development: what holds initially and is kept by each
  step holds in every reachable state.
\<close>

locale step_invariant =
  fixes start :: "'s \<Rightarrow> bool"
    and step :: "'s \<Rightarrow> 's \<Rightarrow> bool"
    and inv :: "'s \<Rightarrow> bool"
  assumes inv_start: "start s \<Longrightarrow> inv s"
    and inv_step: "inv s \<Longrightarrow> step s t \<Longrightarrow> inv t"
begin

lemma inv_steps: "step\<^sup>*\<^sup>* s t \<Longrightarrow> inv s \<Longrightarrow> inv t"
  by (induction rule: rtranclp_induct) (auto intro: inv_step)

lemma inv_reachable: "start s \<Longrightarrow> step\<^sup>*\<^sup>* s t \<Longrightarrow> inv t"
  using inv_steps inv_start by blast

end

end
