(* ===== verification/Go_Strings.thy ===== *)
theory Go_Strings
  imports Prelude
begin

text \<open>
  The parts of Go's \<open>strings\<close>, \<open>strconv\<close>, \<open>slices\<close> and \<open>unicode/utf8\<close> packages the gateway
  calls, on byte strings: prefixes and suffixes, substring search, \<open>Split\<close>, \<open>Cut\<close> and \<open>Join\<close> at
  a one-byte separator, \<open>Trim\<close> with an ASCII cut set, decimal and hexadecimal numbers with their
  range errors, and UTF-8 validity. The lemmas turn each of them into list operations and give
  the round trips the components rely on.
\<close>

subsection \<open>Prefixes, suffixes, substrings\<close>

definition HasPrefix :: "string \<Rightarrow> string \<Rightarrow> bool" where
  "HasPrefix s p \<longleftrightarrow> take (length p) s = p"

definition HasSuffix :: "string \<Rightarrow> string \<Rightarrow> bool" where
  "HasSuffix s p \<longleftrightarrow> length p \<le> length s \<and> drop (length s - length p) s = p"

definition TrimPrefix :: "string \<Rightarrow> string \<Rightarrow> string" where
  "TrimPrefix s p = (if HasPrefix s p then drop (length p) s else s)"

definition TrimSuffix :: "string \<Rightarrow> string \<Rightarrow> string" where
  "TrimSuffix s p = (if HasSuffix s p then take (length s - length p) s else s)"

fun Contains :: "string \<Rightarrow> string \<Rightarrow> bool" where
  "Contains [] sub = (sub = [])"
| "Contains (c # cs) sub = (HasPrefix (c # cs) sub \<or> Contains cs sub)"

lemma HasPrefix_iff [go_simps]: "HasPrefix s p \<longleftrightarrow> (\<exists>r. s = p @ r)"
  by (auto simp: HasPrefix_def) (metis append_take_drop_id)

lemma HasSuffix_iff [go_simps]: "HasSuffix s p \<longleftrightarrow> (\<exists>r. s = r @ p)"
  by (auto simp: HasSuffix_def) (metis append_take_drop_id)

lemma HasPrefix_refl [simp]: "HasPrefix s s"
  by (simp add: HasPrefix_def)

lemma HasPrefix_trans: "HasPrefix s p \<Longrightarrow> HasPrefix p q \<Longrightarrow> HasPrefix s q"
  by (auto simp: go_simps)

lemma HasSuffix_trans: "HasSuffix s p \<Longrightarrow> HasSuffix p q \<Longrightarrow> HasSuffix s q"
  by (auto simp: go_simps)

lemma Contains_iff: "Contains s sub \<longleftrightarrow> (\<exists>l r. s = l @ sub @ r)"
proof (induction s)
  case Nil
  then show ?case by simp
next
  case (Cons c cs)
  have "(\<exists>l r. c # cs = l @ sub @ r) \<longleftrightarrow>
      (\<exists>r. c # cs = sub @ r) \<or> (\<exists>l r. cs = l @ sub @ r)"
    by (metis append_Cons append_Nil list.exhaust list.inject)
  with Cons show ?case
    by (simp add: go_simps)
qed

subsection \<open>Splitting at a one-byte separator\<close>

fun Split :: "char \<Rightarrow> string \<Rightarrow> string list" where
  "Split sep [] = [[]]"
| "Split sep (c # cs) =
     (if c = sep then [] # Split sep cs
      else (case Split sep cs of [] \<Rightarrow> [[c]] | w # ws \<Rightarrow> (c # w) # ws))"

fun Join :: "char \<Rightarrow> string list \<Rightarrow> string" where
  "Join sep [] = []"
| "Join sep [w] = w"
| "Join sep (w # ws) = w @ [sep] @ Join sep ws"

fun Cut :: "char \<Rightarrow> string \<Rightarrow> string \<times> string \<times> bool" where
  "Cut sep [] = ([], [], False)"
| "Cut sep (c # cs) =
     (if c = sep then ([], cs, True)
      else (case Cut sep cs of (b, a, f) \<Rightarrow> (c # b, a, f)))"

lemma Split_nonempty [simp]: "Split sep s \<noteq> []"
  by (cases s) (auto split: list.splits)

lemma Join_Split [simp]: "Join sep (Split sep s) = s"
proof (induction s)
  case Nil
  then show ?case by simp
next
  case (Cons c cs)
  obtain w ws where w: "Split sep cs = w # ws"
    by (metis Split_nonempty list.exhaust)
  then have "Join sep ([] # Split sep cs) = sep # Join sep (Split sep cs)"
    by simp
  moreover have "Join sep ((c # w) # ws) = c # Join sep (w # ws)"
    by (cases ws) simp_all
  ultimately show ?case
    using Cons w by (simp del: Join.simps)
qed

lemma Split_no_sep: "w \<in> set (Split sep s) \<Longrightarrow> sep \<notin> set w"
  by (induction s arbitrary: w) (auto split: list.splits if_splits)

lemma Split_Join:
  assumes "ws \<noteq> []" and "\<forall>w \<in> set ws. sep \<notin> set w"
  shows "Split sep (Join sep ws) = ws"
  using assms
proof (induction sep ws rule: Join.induct)
  case (2 sep w)
  then show ?case by (induction w) auto
next
  case (3 sep w v vs)
  then have "Split sep (Join sep (v # vs)) = v # vs" and "sep \<notin> set w"
    by auto
  then show ?case
    by (simp del: Join.simps(2)) (induction w; auto)
qed simp

lemma Split_set_subset: "w \<in> set (Split sep s) \<Longrightarrow> set w \<subseteq> set s"
  by (induction s arbitrary: w) (fastforce split: list.splits if_splits)+

lemma Cut_takeWhile:
  "Cut sep s =
     (takeWhile (\<lambda>c. c \<noteq> sep) s, drop 1 (dropWhile (\<lambda>c. c \<noteq> sep) s), sep \<in> set s)"
  by (induction s) auto

lemma Cut_found: "Cut sep s = (b, a, True) \<Longrightarrow> s = b @ sep # a \<and> sep \<notin> set b"
proof -
  assume "Cut sep s = (b, a, True)"
  then have b: "b = takeWhile (\<lambda>c. c \<noteq> sep) s" and a: "a = drop 1 (dropWhile (\<lambda>c. c \<noteq> sep) s)"
    and s: "sep \<in> set s"
    by (simp_all add: Cut_takeWhile)
  from s have "dropWhile (\<lambda>c. c \<noteq> sep) s = sep # a"
    unfolding a by (induction s) auto
  then show ?thesis
    by (metis b set_takeWhileD takeWhile_dropWhile_id)
qed

lemma Cut_append: "sep \<notin> set b \<Longrightarrow> Cut sep (b @ sep # a) = (b, a, True)"
  by (induction b) auto

lemma Cut_none: "sep \<notin> set s \<Longrightarrow> Cut sep s = (s, [], False)"
  by (induction s) auto

lemma Cut_not_found: "Cut sep s = (b, a, False) \<Longrightarrow> s = b \<and> a = [] \<and> sep \<notin> set s"
proof -
  assume c: "Cut sep s = (b, a, False)"
  then have "sep \<notin> set s" by (simp add: Cut_takeWhile)
  with c show ?thesis by (simp add: Cut_none)
qed

subsection \<open>Trimming\<close>

definition Trim :: "string \<Rightarrow> string \<Rightarrow> string" where
  "Trim s cutset =
     rev (dropWhile (\<lambda>c. c \<in> set cutset) (rev (dropWhile (\<lambda>c. c \<in> set cutset) s)))"

lemma Trim_empty_iff [go_simps]: "Trim s cutset = [] \<longleftrightarrow> set s \<subseteq> set cutset"
proof -
  have "(\<forall>x \<in> set (dropWhile P s). P x) \<longleftrightarrow> (\<forall>x \<in> set s. P x)" for P
    by (induction s) auto
  from this [of "\<lambda>c. c \<in> set cutset"] show ?thesis
    by (auto simp: Trim_def)
qed

definition decimal_digits :: string where
  "decimal_digits = ''0123456789''"

definition hex_digits :: string where
  "hex_digits = ''0123456789abcdef''"

subsection \<open>ASCII case\<close>

definition lower_byte :: "char \<Rightarrow> char" where
  "lower_byte c = (if CHR ''A'' \<le> c \<and> c \<le> CHR ''Z'' then char_of (byte_val c + 32) else c)"

text \<open>\<open>strings.ToLower\<close>, on the ASCII strings the gateway passes to it.\<close>

definition ToLower :: "string \<Rightarrow> string" where
  "ToLower s = map lower_byte s"

lemma lower_byte_fixed [simp]: "c < CHR ''A'' \<Longrightarrow> lower_byte c = c"
  by (auto simp: lower_byte_def)

lemma lower_byte_idem [simp]: "lower_byte (lower_byte c) = lower_byte c"
proof (cases "CHR ''A'' \<le> c \<and> c \<le> CHR ''Z''")
  case True
  then have b: "65 \<le> byte_val c" "byte_val c \<le> 90"
    by (simp_all add: less_eq_char_def)
  then have "byte_val (char_of (byte_val c + 32) :: char) = byte_val c + 32"
    by (simp add: of_char_of)
  with b have "\<not> char_of (byte_val c + 32) \<le> CHR ''Z''"
    by (simp add: less_eq_char_def)
  with True show ?thesis
    by (simp add: lower_byte_def)
next
  case False
  then have "lower_byte c = c" by (auto simp: lower_byte_def)
  then show ?thesis by simp
qed

lemma ToLower_idem [simp]: "ToLower (ToLower s) = ToLower s"
  by (simp add: ToLower_def)

lemma length_ToLower [simp]: "length (ToLower s) = length s"
  by (simp add: ToLower_def)

subsection \<open>Numbers\<close>

text \<open>
  \<open>strconv.ParseUint(s, base, bits)\<close> for an explicit base: at least one digit, every digit below
  the base, no sign, no underscore, and a value below \<open>2 ^ bits\<close>. \<open>strconv.ParseInt(s, 10, 64)\<close>
  accepts one leading sign and the range of \<open>int64\<close>.
\<close>

definition digit_value :: "char \<Rightarrow> nat" where
  "digit_value c =
     (if CHR ''0'' \<le> c \<and> c \<le> CHR ''9'' then byte_val c - 48
      else if CHR ''a'' \<le> c \<and> c \<le> CHR ''z'' then byte_val c - 87
      else if CHR ''A'' \<le> c \<and> c \<le> CHR ''Z'' then byte_val c - 55
      else 36)"

fun parse_digits :: "nat \<Rightarrow> nat \<Rightarrow> string \<Rightarrow> nat option" where
  "parse_digits base acc [] = Some acc"
| "parse_digits base acc (c # cs) =
     (if digit_value c < base then parse_digits base (acc * base + digit_value c) cs else None)"

definition ParseUint :: "nat \<Rightarrow> nat \<Rightarrow> string \<Rightarrow> nat option" where
  "ParseUint base bits s =
     (if s = [] then None
      else (case parse_digits base 0 s of
              None \<Rightarrow> None
            | Some n \<Rightarrow> (if n < 2 ^ bits then Some n else None)))"

definition ParseInt :: "string \<Rightarrow> int option" where
  "ParseInt s =
     (case s of
        [] \<Rightarrow> None
      | c # cs \<Rightarrow>
          (case ParseUint 10 64 (if c = CHR ''+'' \<or> c = CHR ''-'' then cs else s) of
             None \<Rightarrow> None
           | Some n \<Rightarrow>
               if c = CHR ''-'' then (if n \<le> 2 ^ 63 then Some (- int n) else None)
               else (if n < 2 ^ 63 then Some (int n) else None)))"

definition digit_char :: "nat \<Rightarrow> char" where
  "digit_char n = char_of (48 + n)"

fun FormatUint :: "nat \<Rightarrow> string" where
  "FormatUint n = (if n < 10 then [digit_char n] else FormatUint (n div 10) @ [digit_char (n mod 10)])"

declare FormatUint.simps [simp del]

definition FormatInt :: "int \<Rightarrow> string" where
  "FormatInt i = (if i < 0 then CHR ''-'' # FormatUint (nat (- i)) else FormatUint (nat i))"

lemma byte_val_digit_char: "n < 10 \<Longrightarrow> byte_val (digit_char n) = 48 + n"
  by (simp add: digit_char_def of_char_of)

lemma digit_value_digit_char [simp]: "n < 10 \<Longrightarrow> digit_value (digit_char n) = n"
  by (simp add: digit_value_def less_eq_char_def byte_val_digit_char)

lemma digit_char_range: "n < 10 \<Longrightarrow> CHR ''0'' \<le> digit_char n \<and> digit_char n \<le> CHR ''9''"
  by (simp add: less_eq_char_def byte_val_digit_char)

lemma parse_digits_append:
  "parse_digits b acc (xs @ ys) =
     (case parse_digits b acc xs of None \<Rightarrow> None | Some n \<Rightarrow> parse_digits b n ys)"
  by (induction xs arbitrary: acc) auto

lemma parse_digits_FormatUint: "parse_digits 10 0 (FormatUint n) = Some n"
proof (induction n rule: FormatUint.induct)
  case (1 n)
  show ?case
  proof (cases "n < 10")
    case True
    then show ?thesis by (simp add: FormatUint.simps [of n])
  next
    case False
    with 1 show ?thesis
      by (simp add: FormatUint.simps [of n] parse_digits_append)
  qed
qed

lemma FormatUint_inj [simp]: "FormatUint m = FormatUint n \<longleftrightarrow> m = n"
  by (metis option.inject parse_digits_FormatUint)

lemma FormatUint_nonempty [simp]: "FormatUint n \<noteq> []"
  by (subst FormatUint.simps) simp

lemma FormatUint_digits: "c \<in> set (FormatUint n) \<Longrightarrow> CHR ''0'' \<le> c \<and> c \<le> CHR ''9''"
proof (induction n rule: FormatUint.induct)
  case (1 n)
  then show ?case
    by (cases "n < 10") (auto simp: FormatUint.simps [of n] digit_char_range)
qed

lemma FormatUint_no_colon [simp]: "CHR '':'' \<notin> set (FormatUint n)"
  by (auto dest!: FormatUint_digits simp: less_eq_char_def)

lemma ParseUint_FormatUint [simp]: "n < 2 ^ b \<Longrightarrow> ParseUint 10 b (FormatUint n) = Some n"
  by (simp add: ParseUint_def parse_digits_FormatUint)

lemma ParseUint_bound: "ParseUint base bits s = Some n \<Longrightarrow> n < 2 ^ bits"
  by (auto simp: ParseUint_def split: option.splits if_splits)

text \<open>
  The gateway's test for a canonical positive decimal, \<open>ParseInt(s) > 0\<close> and
  \<open>FormatInt(ParseInt(s)) == s\<close>, accepts exactly the decimal spellings of \<open>1 .. 2^63 - 1\<close>.
\<close>

lemma ParseInt_FormatUint: "n < 2 ^ 63 \<Longrightarrow> ParseInt (FormatUint n) = Some (int n)"
proof -
  assume n: "n < 2 ^ 63"
  obtain c cs where c: "FormatUint n = c # cs"
    by (metis FormatUint_nonempty list.exhaust)
  then have "CHR ''0'' \<le> c"
    using FormatUint_digits [of c n] by simp
  then have "c \<noteq> CHR ''+''" "c \<noteq> CHR ''-''"
    by (auto simp: less_eq_char_def)
  with n c show ?thesis
    using ParseUint_FormatUint [of n 64] by (simp add: ParseInt_def)
qed

lemma ParseInt_range: "ParseInt s = Some i \<Longrightarrow> - (2 ^ 63) \<le> i \<and> i < 2 ^ 63"
  by (auto simp: ParseInt_def split: list.splits option.splits if_splits)

definition canonical_positive :: "string \<Rightarrow> bool" where
  "canonical_positive s =
     (case ParseInt s of None \<Rightarrow> False | Some i \<Rightarrow> i > 0 \<and> FormatInt i = s)"

lemma canonical_positive_iff:
  "canonical_positive s \<longleftrightarrow> (\<exists>n. 0 < n \<and> n < 2 ^ 63 \<and> s = FormatUint n)"
proof
  assume "canonical_positive s"
  then obtain i where i: "ParseInt s = Some i" "i > 0" "FormatInt i = s"
    by (auto simp: canonical_positive_def split: option.splits)
  then show "\<exists>n. 0 < n \<and> n < 2 ^ 63 \<and> s = FormatUint n"
    using ParseInt_range [OF i(1)] by (intro exI [of _ "nat i"]) (auto simp: FormatInt_def)
next
  assume "\<exists>n. 0 < n \<and> n < 2 ^ 63 \<and> s = FormatUint n"
  then show "canonical_positive s"
    by (auto simp: canonical_positive_def ParseInt_FormatUint FormatInt_def)
qed

subsection \<open>UTF-8\<close>

definition utf8_cont :: "nat \<Rightarrow> nat \<Rightarrow> char \<Rightarrow> bool" where
  "utf8_cont lo hi c \<longleftrightarrow> lo \<le> byte_val c \<and> byte_val c \<le> hi"

text \<open>\<open>utf8.ValidString\<close>: no overlong forms, no surrogates, nothing above U+10FFFF.\<close>

fun utf8_valid :: "string \<Rightarrow> bool" where
  "utf8_valid [] = True"
| "utf8_valid (c # cs) =
     (let b = byte_val c in
      if b < 128 then utf8_valid cs
      else if 194 \<le> b \<and> b \<le> 223 then
        (case cs of c1 # r \<Rightarrow> utf8_cont 128 191 c1 \<and> utf8_valid r | _ \<Rightarrow> False)
      else if 224 \<le> b \<and> b \<le> 239 then
        (case cs of
           c1 # c2 # r \<Rightarrow>
             utf8_cont (if b = 224 then 160 else 128) (if b = 237 then 159 else 191) c1
             \<and> utf8_cont 128 191 c2 \<and> utf8_valid r
         | _ \<Rightarrow> False)
      else if 240 \<le> b \<and> b \<le> 244 then
        (case cs of
           c1 # c2 # c3 # r \<Rightarrow>
             utf8_cont (if b = 240 then 144 else 128) (if b = 244 then 143 else 191) c1
             \<and> utf8_cont 128 191 c2 \<and> utf8_cont 128 191 c3 \<and> utf8_valid r
         | _ \<Rightarrow> False)
      else False)"

definition is_ascii :: "string \<Rightarrow> bool" where
  "is_ascii s \<longleftrightarrow> (\<forall>c \<in> set s. byte_val c < (128 :: nat))"

lemma utf8_valid_ascii: "is_ascii s \<Longrightarrow> utf8_valid s"
  by (induction s) (auto simp: is_ascii_def)

end
