(* ===== verification/Contract_Vocabulary.thy ===== *)
theory Contract_Vocabulary
  imports Go_Strings
begin

text \<open>
  The closed string vocabularies of \<open>internal/contract\<close>: every \<open>type X string\<close> with its constants
  is a datatype with the constants as constructors, \<open>X_string\<close> gives the wire spelling, and
  \<open>ParseX\<close> is the closed parser of the source, an instance of the generic \<open>parseClosed\<close>. The
  locales state what a closed parser promises (it accepts exactly the listed spellings, and
  returns the value that is spelled that way) and each vocabulary is an interpretation.
\<close>

subsection \<open>The generic closed parser\<close>

fun parseClosed :: "('a \<Rightarrow> string) \<Rightarrow> 'a list \<Rightarrow> string \<Rightarrow> 'a option" where
  "parseClosed spell [] value = None"
| "parseClosed spell (candidate # accepted) value =
     (if spell candidate = value then Some candidate else parseClosed spell accepted value)"

lemma parseClosed_SomeD: "parseClosed spell vs s = Some v \<Longrightarrow> v \<in> set vs \<and> spell v = s"
  by (induction vs) (auto split: if_splits)

lemma parseClosed_None_iff: "parseClosed spell vs s = None \<longleftrightarrow> s \<notin> spell ` set vs"
  by (induction vs) auto

locale closed_vocabulary =
  fixes spell :: "'a \<Rightarrow> string" and accepted :: "'a list"
  assumes spellings_distinct: "distinct (map spell accepted)"
begin

lemma spell_inj_on: "inj_on spell (set accepted)"
  using spellings_distinct by (simp add: distinct_map)

lemma parse_iff: "parseClosed spell accepted s = Some v \<longleftrightarrow> v \<in> set accepted \<and> spell v = s"
proof
  assume "v \<in> set accepted \<and> spell v = s"
  moreover from this obtain w where "parseClosed spell accepted s = Some w"
    using parseClosed_None_iff [of spell accepted s] by (cases "parseClosed spell accepted s") auto
  ultimately show "parseClosed spell accepted s = Some v"
    using parseClosed_SomeD [of spell accepted s w] spell_inj_on by (auto simp: inj_on_def)
qed (rule parseClosed_SomeD)

end

locale complete_vocabulary = closed_vocabulary +
  assumes all_accepted: "v \<in> set accepted"
begin

lemma spell_inj: "inj spell"
  using spell_inj_on all_accepted by (auto simp: inj_on_def)

lemma parse_spell: "parseClosed spell accepted (spell v) = Some v"
  by (simp add: parse_iff all_accepted)

lemma parse_complete_iff: "parseClosed spell accepted s = Some v \<longleftrightarrow> s = spell v"
  using parse_iff all_accepted by auto

end

subsection \<open>\<open>contract/server_states.go\<close>\<close>

datatype TransportKind =
    TransportStdio
  | TransportStreamableHTTP

fun TransportKind_string :: "TransportKind \<Rightarrow> string" where
  "TransportKind_string TransportStdio = ''stdio''"
| "TransportKind_string TransportStreamableHTTP = ''streamable_http''"

definition TransportKind_values :: "TransportKind list" where
  "TransportKind_values =
     [TransportStdio,
      TransportStreamableHTTP]"

definition ParseTransportKind :: "string \<Rightarrow> TransportKind option" where
  "ParseTransportKind = parseClosed TransportKind_string TransportKind_values"

datatype ProtocolMode =
    ProtocolAuto
  | ProtocolModern
  | ProtocolLegacy

fun ProtocolMode_string :: "ProtocolMode \<Rightarrow> string" where
  "ProtocolMode_string ProtocolAuto = ''auto''"
| "ProtocolMode_string ProtocolModern = ''modern''"
| "ProtocolMode_string ProtocolLegacy = ''legacy''"

definition ProtocolMode_values :: "ProtocolMode list" where
  "ProtocolMode_values =
     [ProtocolAuto,
      ProtocolModern,
      ProtocolLegacy]"

definition ParseProtocolMode :: "string \<Rightarrow> ProtocolMode option" where
  "ParseProtocolMode = parseClosed ProtocolMode_string ProtocolMode_values"

datatype AuthenticationMode =
    AuthenticationNone
  | AuthenticationBearer
  | AuthenticationOAuth

fun AuthenticationMode_string :: "AuthenticationMode \<Rightarrow> string" where
  "AuthenticationMode_string AuthenticationNone = ''none''"
| "AuthenticationMode_string AuthenticationBearer = ''bearer''"
| "AuthenticationMode_string AuthenticationOAuth = ''oauth''"

definition AuthenticationMode_values :: "AuthenticationMode list" where
  "AuthenticationMode_values =
     [AuthenticationNone,
      AuthenticationBearer,
      AuthenticationOAuth]"

definition ParseAuthenticationMode :: "string \<Rightarrow> AuthenticationMode option" where
  "ParseAuthenticationMode = parseClosed AuthenticationMode_string AuthenticationMode_values"

datatype RegistrationMode =
    RegistrationStatic
  | RegistrationDynamic

fun RegistrationMode_string :: "RegistrationMode \<Rightarrow> string" where
  "RegistrationMode_string RegistrationStatic = ''static''"
| "RegistrationMode_string RegistrationDynamic = ''dynamic''"

definition RegistrationMode_values :: "RegistrationMode list" where
  "RegistrationMode_values =
     [RegistrationStatic,
      RegistrationDynamic]"

definition ParseRegistrationMode :: "string \<Rightarrow> RegistrationMode option" where
  "ParseRegistrationMode = parseClosed RegistrationMode_string RegistrationMode_values"

datatype TokenEndpointAuthMethod =
    TokenEndpointAuthNone
  | TokenEndpointAuthClientSecretBasic
  | TokenEndpointAuthClientSecretPost

fun TokenEndpointAuthMethod_string :: "TokenEndpointAuthMethod \<Rightarrow> string" where
  "TokenEndpointAuthMethod_string TokenEndpointAuthNone = ''none''"
| "TokenEndpointAuthMethod_string TokenEndpointAuthClientSecretBasic = ''client_secret_basic''"
| "TokenEndpointAuthMethod_string TokenEndpointAuthClientSecretPost = ''client_secret_post''"

definition TokenEndpointAuthMethod_values :: "TokenEndpointAuthMethod list" where
  "TokenEndpointAuthMethod_values =
     [TokenEndpointAuthNone,
      TokenEndpointAuthClientSecretBasic,
      TokenEndpointAuthClientSecretPost]"

definition ParseTokenEndpointAuthMethod :: "string \<Rightarrow> TokenEndpointAuthMethod option" where
  "ParseTokenEndpointAuthMethod = parseClosed TokenEndpointAuthMethod_string TokenEndpointAuthMethod_values"

datatype DesiredServerState =
    DesiredServerEnabled
  | DesiredServerDisabled
  | DesiredServerDeleted

fun DesiredServerState_string :: "DesiredServerState \<Rightarrow> string" where
  "DesiredServerState_string DesiredServerEnabled = ''enabled''"
| "DesiredServerState_string DesiredServerDisabled = ''disabled''"
| "DesiredServerState_string DesiredServerDeleted = ''deleted''"

definition DesiredServerState_values :: "DesiredServerState list" where
  "DesiredServerState_values =
     [DesiredServerEnabled,
      DesiredServerDisabled,
      DesiredServerDeleted]"

definition ParseDesiredServerState :: "string \<Rightarrow> DesiredServerState option" where
  "ParseDesiredServerState = parseClosed DesiredServerState_string DesiredServerState_values"

datatype RuntimeState =
    RuntimeInactive
  | RuntimeActivating
  | RuntimeActive
  | RuntimeStopping
  | RuntimeRetryWait
  | RuntimeDegraded
  | RuntimeAuthenticationRequired
  | RuntimeDeleted

fun RuntimeState_string :: "RuntimeState \<Rightarrow> string" where
  "RuntimeState_string RuntimeInactive = ''inactive''"
| "RuntimeState_string RuntimeActivating = ''activating''"
| "RuntimeState_string RuntimeActive = ''active''"
| "RuntimeState_string RuntimeStopping = ''stopping''"
| "RuntimeState_string RuntimeRetryWait = ''retry_wait''"
| "RuntimeState_string RuntimeDegraded = ''degraded''"
| "RuntimeState_string RuntimeAuthenticationRequired = ''authentication_required''"
| "RuntimeState_string RuntimeDeleted = ''deleted''"

definition RuntimeState_values :: "RuntimeState list" where
  "RuntimeState_values =
     [RuntimeInactive,
      RuntimeActivating,
      RuntimeActive,
      RuntimeStopping,
      RuntimeRetryWait,
      RuntimeDegraded,
      RuntimeAuthenticationRequired,
      RuntimeDeleted]"

definition ParseRuntimeState :: "string \<Rightarrow> RuntimeState option" where
  "ParseRuntimeState = parseClosed RuntimeState_string RuntimeState_values"

datatype ServerOperationKind =
    OperationActivate
  | OperationReload
  | OperationRetry
  | OperationRefreshCatalog
  | OperationCredentialReplace
  | OperationDisable
  | OperationDelete
  | OperationDisconnectCredentials

fun ServerOperationKind_string :: "ServerOperationKind \<Rightarrow> string" where
  "ServerOperationKind_string OperationActivate = ''activate''"
| "ServerOperationKind_string OperationReload = ''reload''"
| "ServerOperationKind_string OperationRetry = ''retry''"
| "ServerOperationKind_string OperationRefreshCatalog = ''refresh_catalog''"
| "ServerOperationKind_string OperationCredentialReplace = ''credential_replace''"
| "ServerOperationKind_string OperationDisable = ''disable''"
| "ServerOperationKind_string OperationDelete = ''delete''"
| "ServerOperationKind_string OperationDisconnectCredentials = ''disconnect_credentials''"

definition ServerOperationKind_values :: "ServerOperationKind list" where
  "ServerOperationKind_values =
     [OperationActivate,
      OperationReload,
      OperationRetry,
      OperationRefreshCatalog,
      OperationCredentialReplace,
      OperationDisable,
      OperationDelete,
      OperationDisconnectCredentials]"

definition ParseServerOperationKind :: "string \<Rightarrow> ServerOperationKind option" where
  "ParseServerOperationKind = parseClosed ServerOperationKind_string ServerOperationKind_values"

definition ExplicitServerOperationKinds :: "ServerOperationKind list" where
  "ExplicitServerOperationKinds =
     [OperationReload,
      OperationRetry,
      OperationRefreshCatalog,
      OperationDisconnectCredentials]"

definition ParseExplicitServerOperationKind :: "string \<Rightarrow> ServerOperationKind option" where
  "ParseExplicitServerOperationKind = parseClosed ServerOperationKind_string ExplicitServerOperationKinds"

datatype ServerOperationState =
    OperationScheduled
  | OperationRunning
  | OperationSucceeded
  | OperationFailed
  | OperationCancelled
  | OperationSuperseded
  | OperationInterrupted

fun ServerOperationState_string :: "ServerOperationState \<Rightarrow> string" where
  "ServerOperationState_string OperationScheduled = ''scheduled''"
| "ServerOperationState_string OperationRunning = ''running''"
| "ServerOperationState_string OperationSucceeded = ''succeeded''"
| "ServerOperationState_string OperationFailed = ''failed''"
| "ServerOperationState_string OperationCancelled = ''cancelled''"
| "ServerOperationState_string OperationSuperseded = ''superseded''"
| "ServerOperationState_string OperationInterrupted = ''interrupted''"

definition ServerOperationState_values :: "ServerOperationState list" where
  "ServerOperationState_values =
     [OperationScheduled,
      OperationRunning,
      OperationSucceeded,
      OperationFailed,
      OperationCancelled,
      OperationSuperseded,
      OperationInterrupted]"

definition ParseServerOperationState :: "string \<Rightarrow> ServerOperationState option" where
  "ParseServerOperationState = parseClosed ServerOperationState_string ServerOperationState_values"

datatype ServerCredentialState =
    ServerCredentialNotRequired
  | ServerCredentialReady
  | ServerCredentialAbsent
  | ServerCredentialLocked
  | ServerCredentialInteractionRequired
  | ServerCredentialUnavailable
  | ServerCredentialUnsupported
  | ServerCredentialRefreshing
  | ServerCredentialReauthenticationRequired
  | ServerCredentialDisconnecting
  | ServerCredentialCleanupPending

fun ServerCredentialState_string :: "ServerCredentialState \<Rightarrow> string" where
  "ServerCredentialState_string ServerCredentialNotRequired = ''not_required''"
| "ServerCredentialState_string ServerCredentialReady = ''ready''"
| "ServerCredentialState_string ServerCredentialAbsent = ''absent''"
| "ServerCredentialState_string ServerCredentialLocked = ''locked''"
| "ServerCredentialState_string ServerCredentialInteractionRequired = ''interaction_required''"
| "ServerCredentialState_string ServerCredentialUnavailable = ''unavailable''"
| "ServerCredentialState_string ServerCredentialUnsupported = ''unsupported''"
| "ServerCredentialState_string ServerCredentialRefreshing = ''refreshing''"
| "ServerCredentialState_string ServerCredentialReauthenticationRequired = ''reauthentication_required''"
| "ServerCredentialState_string ServerCredentialDisconnecting = ''disconnecting''"
| "ServerCredentialState_string ServerCredentialCleanupPending = ''cleanup_pending''"

definition ServerCredentialState_values :: "ServerCredentialState list" where
  "ServerCredentialState_values =
     [ServerCredentialNotRequired,
      ServerCredentialReady,
      ServerCredentialAbsent,
      ServerCredentialLocked,
      ServerCredentialInteractionRequired,
      ServerCredentialUnavailable,
      ServerCredentialUnsupported,
      ServerCredentialRefreshing,
      ServerCredentialReauthenticationRequired,
      ServerCredentialDisconnecting,
      ServerCredentialCleanupPending]"

definition ParseServerCredentialState :: "string \<Rightarrow> ServerCredentialState option" where
  "ParseServerCredentialState = parseClosed ServerCredentialState_string ServerCredentialState_values"

datatype DescriptorRetiredFilter =
    DescriptorRetiredInclude
  | DescriptorRetiredExclude
  | DescriptorRetiredOnly

fun DescriptorRetiredFilter_string :: "DescriptorRetiredFilter \<Rightarrow> string" where
  "DescriptorRetiredFilter_string DescriptorRetiredInclude = ''include''"
| "DescriptorRetiredFilter_string DescriptorRetiredExclude = ''exclude''"
| "DescriptorRetiredFilter_string DescriptorRetiredOnly = ''only''"

definition DescriptorRetiredFilter_values :: "DescriptorRetiredFilter list" where
  "DescriptorRetiredFilter_values =
     [DescriptorRetiredInclude,
      DescriptorRetiredExclude,
      DescriptorRetiredOnly]"

definition ParseDescriptorRetiredFilter :: "string \<Rightarrow> DescriptorRetiredFilter option" where
  "ParseDescriptorRetiredFilter = parseClosed DescriptorRetiredFilter_string DescriptorRetiredFilter_values"

datatype DurableCatalogState =
    DurableCatalogEmpty
  | DurableCatalogCurrent
  | DurableCatalogStale
  | DurableCatalogUnavailable
  | DurableCatalogRetired

fun DurableCatalogState_string :: "DurableCatalogState \<Rightarrow> string" where
  "DurableCatalogState_string DurableCatalogEmpty = ''empty''"
| "DurableCatalogState_string DurableCatalogCurrent = ''current''"
| "DurableCatalogState_string DurableCatalogStale = ''stale''"
| "DurableCatalogState_string DurableCatalogUnavailable = ''unavailable''"
| "DurableCatalogState_string DurableCatalogRetired = ''retired''"

definition DurableCatalogState_values :: "DurableCatalogState list" where
  "DurableCatalogState_values =
     [DurableCatalogEmpty,
      DurableCatalogCurrent,
      DurableCatalogStale,
      DurableCatalogUnavailable,
      DurableCatalogRetired]"

definition ParseDurableCatalogState :: "string \<Rightarrow> DurableCatalogState option" where
  "ParseDurableCatalogState = parseClosed DurableCatalogState_string DurableCatalogState_values"

datatype ActiveCatalogState =
    ActiveCatalogAbsent
  | ActiveCatalogRefreshing
  | ActiveCatalogCurrent
  | ActiveCatalogStale
  | ActiveCatalogUnavailable

fun ActiveCatalogState_string :: "ActiveCatalogState \<Rightarrow> string" where
  "ActiveCatalogState_string ActiveCatalogAbsent = ''absent''"
| "ActiveCatalogState_string ActiveCatalogRefreshing = ''refreshing''"
| "ActiveCatalogState_string ActiveCatalogCurrent = ''current''"
| "ActiveCatalogState_string ActiveCatalogStale = ''stale''"
| "ActiveCatalogState_string ActiveCatalogUnavailable = ''unavailable''"

definition ActiveCatalogState_values :: "ActiveCatalogState list" where
  "ActiveCatalogState_values =
     [ActiveCatalogAbsent,
      ActiveCatalogRefreshing,
      ActiveCatalogCurrent,
      ActiveCatalogStale,
      ActiveCatalogUnavailable]"

definition ParseActiveCatalogState :: "string \<Rightarrow> ActiveCatalogState option" where
  "ParseActiveCatalogState = parseClosed ActiveCatalogState_string ActiveCatalogState_values"

datatype AggregateCatalogState =
    AggregateCatalogEmpty
  | AggregateCatalogCurrent
  | AggregateCatalogDegraded

fun AggregateCatalogState_string :: "AggregateCatalogState \<Rightarrow> string" where
  "AggregateCatalogState_string AggregateCatalogEmpty = ''empty''"
| "AggregateCatalogState_string AggregateCatalogCurrent = ''current''"
| "AggregateCatalogState_string AggregateCatalogDegraded = ''degraded''"

definition AggregateCatalogState_values :: "AggregateCatalogState list" where
  "AggregateCatalogState_values =
     [AggregateCatalogEmpty,
      AggregateCatalogCurrent,
      AggregateCatalogDegraded]"

definition ParseAggregateCatalogState :: "string \<Rightarrow> AggregateCatalogState option" where
  "ParseAggregateCatalogState = parseClosed AggregateCatalogState_string AggregateCatalogState_values"

datatype AuthFlowState =
    AuthFlowPreparing
  | AuthFlowAwaitingCallback
  | AuthFlowExchanging
  | AuthFlowSucceeded
  | AuthFlowFailed
  | AuthFlowExpired
  | AuthFlowCancelled
  | AuthFlowSuperseded
  | AuthFlowInterrupted

fun AuthFlowState_string :: "AuthFlowState \<Rightarrow> string" where
  "AuthFlowState_string AuthFlowPreparing = ''preparing''"
| "AuthFlowState_string AuthFlowAwaitingCallback = ''awaiting_callback''"
| "AuthFlowState_string AuthFlowExchanging = ''exchanging''"
| "AuthFlowState_string AuthFlowSucceeded = ''succeeded''"
| "AuthFlowState_string AuthFlowFailed = ''failed''"
| "AuthFlowState_string AuthFlowExpired = ''expired''"
| "AuthFlowState_string AuthFlowCancelled = ''cancelled''"
| "AuthFlowState_string AuthFlowSuperseded = ''superseded''"
| "AuthFlowState_string AuthFlowInterrupted = ''interrupted''"

definition AuthFlowState_values :: "AuthFlowState list" where
  "AuthFlowState_values =
     [AuthFlowPreparing,
      AuthFlowAwaitingCallback,
      AuthFlowExchanging,
      AuthFlowSucceeded,
      AuthFlowFailed,
      AuthFlowExpired,
      AuthFlowCancelled,
      AuthFlowSuperseded,
      AuthFlowInterrupted]"

definition ParseAuthFlowState :: "string \<Rightarrow> AuthFlowState option" where
  "ParseAuthFlowState = parseClosed AuthFlowState_string AuthFlowState_values"

datatype OAuthDiagnosticStage =
    OAuthDiagnosticMetadataDiscovery
  | OAuthDiagnosticClientRegistration
  | OAuthDiagnosticAuthorizationRequest
  | OAuthDiagnosticCallbackValidation
  | OAuthDiagnosticTokenExchange
  | OAuthDiagnosticCredentialInstallation

fun OAuthDiagnosticStage_string :: "OAuthDiagnosticStage \<Rightarrow> string" where
  "OAuthDiagnosticStage_string OAuthDiagnosticMetadataDiscovery = ''metadata_discovery''"
| "OAuthDiagnosticStage_string OAuthDiagnosticClientRegistration = ''client_registration''"
| "OAuthDiagnosticStage_string OAuthDiagnosticAuthorizationRequest = ''authorization_request''"
| "OAuthDiagnosticStage_string OAuthDiagnosticCallbackValidation = ''callback_validation''"
| "OAuthDiagnosticStage_string OAuthDiagnosticTokenExchange = ''token_exchange''"
| "OAuthDiagnosticStage_string OAuthDiagnosticCredentialInstallation = ''credential_installation''"

definition OAuthDiagnosticStage_values :: "OAuthDiagnosticStage list" where
  "OAuthDiagnosticStage_values =
     [OAuthDiagnosticMetadataDiscovery,
      OAuthDiagnosticClientRegistration,
      OAuthDiagnosticAuthorizationRequest,
      OAuthDiagnosticCallbackValidation,
      OAuthDiagnosticTokenExchange,
      OAuthDiagnosticCredentialInstallation]"

definition ParseOAuthDiagnosticStage :: "string \<Rightarrow> OAuthDiagnosticStage option" where
  "ParseOAuthDiagnosticStage = parseClosed OAuthDiagnosticStage_string OAuthDiagnosticStage_values"

datatype ServerCredentialKind =
    ServerCredentialStatic
  | ServerCredentialOAuthClient
  | ServerCredentialOAuthTokens

fun ServerCredentialKind_string :: "ServerCredentialKind \<Rightarrow> string" where
  "ServerCredentialKind_string ServerCredentialStatic = ''static_credential''"
| "ServerCredentialKind_string ServerCredentialOAuthClient = ''oauth_client''"
| "ServerCredentialKind_string ServerCredentialOAuthTokens = ''oauth_tokens''"

definition ServerCredentialKind_values :: "ServerCredentialKind list" where
  "ServerCredentialKind_values =
     [ServerCredentialStatic,
      ServerCredentialOAuthClient,
      ServerCredentialOAuthTokens]"

definition ParseServerCredentialKind :: "string \<Rightarrow> ServerCredentialKind option" where
  "ParseServerCredentialKind = parseClosed ServerCredentialKind_string ServerCredentialKind_values"

definition CredentialReplacementKinds :: "ServerCredentialKind list" where
  "CredentialReplacementKinds =
     [ServerCredentialStatic,
      ServerCredentialOAuthClient]"

definition ParseCredentialReplacementKind :: "string \<Rightarrow> ServerCredentialKind option" where
  "ParseCredentialReplacementKind = parseClosed ServerCredentialKind_string CredentialReplacementKinds"

datatype PublicReason =
    ReasonConfigurationInvalid
  | ReasonResourceLimit
  | ReasonConnectivity
  | ReasonTLSFailed
  | ReasonProtocolUnsupported
  | ReasonProtocolInvalid
  | ReasonAuthenticationRejected
  | ReasonCredentialAbsent
  | ReasonKeyringAbsent
  | ReasonKeyringLocked
  | ReasonKeyringInteractionRequired
  | ReasonKeyringUnavailable
  | ReasonKeyringUnsupported
  | ReasonOAuthRejected
  | ReasonOAuthExpired
  | ReasonRegistrationExpired
  | ReasonProcessExited
  | ReasonOutputLimit
  | ReasonStopUnconfirmed
  | ReasonCatalogInvalid
  | ReasonCatalogLimit
  | ReasonCatalogStale
  | ReasonSuperseded
  | ReasonCancelled
  | ReasonInterrupted
  | ReasonRevocationFailed
  | ReasonRevocationUnsupported
  | ReasonCleanupPending

fun PublicReason_string :: "PublicReason \<Rightarrow> string" where
  "PublicReason_string ReasonConfigurationInvalid = ''configuration_invalid''"
| "PublicReason_string ReasonResourceLimit = ''resource_limit''"
| "PublicReason_string ReasonConnectivity = ''connectivity''"
| "PublicReason_string ReasonTLSFailed = ''tls_failed''"
| "PublicReason_string ReasonProtocolUnsupported = ''protocol_unsupported''"
| "PublicReason_string ReasonProtocolInvalid = ''protocol_invalid''"
| "PublicReason_string ReasonAuthenticationRejected = ''authentication_rejected''"
| "PublicReason_string ReasonCredentialAbsent = ''credential_absent''"
| "PublicReason_string ReasonKeyringAbsent = ''keyring_absent''"
| "PublicReason_string ReasonKeyringLocked = ''keyring_locked''"
| "PublicReason_string ReasonKeyringInteractionRequired = ''keyring_interaction_required''"
| "PublicReason_string ReasonKeyringUnavailable = ''keyring_unavailable''"
| "PublicReason_string ReasonKeyringUnsupported = ''keyring_unsupported''"
| "PublicReason_string ReasonOAuthRejected = ''oauth_rejected''"
| "PublicReason_string ReasonOAuthExpired = ''oauth_expired''"
| "PublicReason_string ReasonRegistrationExpired = ''registration_expired''"
| "PublicReason_string ReasonProcessExited = ''process_exited''"
| "PublicReason_string ReasonOutputLimit = ''output_limit''"
| "PublicReason_string ReasonStopUnconfirmed = ''stop_unconfirmed''"
| "PublicReason_string ReasonCatalogInvalid = ''catalog_invalid''"
| "PublicReason_string ReasonCatalogLimit = ''catalog_limit''"
| "PublicReason_string ReasonCatalogStale = ''catalog_stale''"
| "PublicReason_string ReasonSuperseded = ''superseded''"
| "PublicReason_string ReasonCancelled = ''cancelled''"
| "PublicReason_string ReasonInterrupted = ''interrupted''"
| "PublicReason_string ReasonRevocationFailed = ''revocation_failed''"
| "PublicReason_string ReasonRevocationUnsupported = ''revocation_unsupported''"
| "PublicReason_string ReasonCleanupPending = ''cleanup_pending''"

definition PublicReason_values :: "PublicReason list" where
  "PublicReason_values =
     [ReasonConfigurationInvalid,
      ReasonResourceLimit,
      ReasonConnectivity,
      ReasonTLSFailed,
      ReasonProtocolUnsupported,
      ReasonProtocolInvalid,
      ReasonAuthenticationRejected,
      ReasonCredentialAbsent,
      ReasonKeyringAbsent,
      ReasonKeyringLocked,
      ReasonKeyringInteractionRequired,
      ReasonKeyringUnavailable,
      ReasonKeyringUnsupported,
      ReasonOAuthRejected,
      ReasonOAuthExpired,
      ReasonRegistrationExpired,
      ReasonProcessExited,
      ReasonOutputLimit,
      ReasonStopUnconfirmed,
      ReasonCatalogInvalid,
      ReasonCatalogLimit,
      ReasonCatalogStale,
      ReasonSuperseded,
      ReasonCancelled,
      ReasonInterrupted,
      ReasonRevocationFailed,
      ReasonRevocationUnsupported,
      ReasonCleanupPending]"

definition ParsePublicReason :: "string \<Rightarrow> PublicReason option" where
  "ParsePublicReason = parseClosed PublicReason_string PublicReason_values"

subsection \<open>\<open>contract/grant_request_states.go\<close>\<close>

datatype PolicyScope =
    PolicyTool
  | PolicyServer

fun PolicyScope_string :: "PolicyScope \<Rightarrow> string" where
  "PolicyScope_string PolicyTool = ''tool''"
| "PolicyScope_string PolicyServer = ''server''"

definition PolicyScopes :: "PolicyScope list" where
  "PolicyScopes =
     [PolicyTool,
      PolicyServer]"

definition ParsePolicyScope :: "string \<Rightarrow> PolicyScope option" where
  "ParsePolicyScope = parseClosed PolicyScope_string PolicyScopes"

datatype GrantRequestState =
    RequestPending
  | RequestApproved
  | RequestRejected
  | RequestCancelled

fun GrantRequestState_string :: "GrantRequestState \<Rightarrow> string" where
  "GrantRequestState_string RequestPending = ''pending''"
| "GrantRequestState_string RequestApproved = ''approved''"
| "GrantRequestState_string RequestRejected = ''rejected''"
| "GrantRequestState_string RequestCancelled = ''cancelled''"

definition GrantRequestStates :: "GrantRequestState list" where
  "GrantRequestStates =
     [RequestPending,
      RequestApproved,
      RequestRejected,
      RequestCancelled]"

definition ParseGrantRequestState :: "string \<Rightarrow> GrantRequestState option" where
  "ParseGrantRequestState = parseClosed GrantRequestState_string GrantRequestStates"

datatype GrantRequestRejectionReason =
    RejectionNotApproved
  | RejectionExistingAccess
  | RejectionScopeTooBroad
  | RejectionPolicyConflict

fun GrantRequestRejectionReason_string :: "GrantRequestRejectionReason \<Rightarrow> string" where
  "GrantRequestRejectionReason_string RejectionNotApproved = ''not_approved''"
| "GrantRequestRejectionReason_string RejectionExistingAccess = ''existing_access''"
| "GrantRequestRejectionReason_string RejectionScopeTooBroad = ''scope_too_broad''"
| "GrantRequestRejectionReason_string RejectionPolicyConflict = ''policy_conflict''"

definition GrantRequestRejectionReasons :: "GrantRequestRejectionReason list" where
  "GrantRequestRejectionReasons =
     [RejectionNotApproved,
      RejectionExistingAccess,
      RejectionScopeTooBroad,
      RejectionPolicyConflict]"

definition ParseGrantRequestRejectionReason :: "string \<Rightarrow> GrantRequestRejectionReason option" where
  "ParseGrantRequestRejectionReason = parseClosed GrantRequestRejectionReason_string GrantRequestRejectionReasons"

datatype DescriptorEvidenceState =
    EvidenceCurrent
  | EvidenceRetired

fun DescriptorEvidenceState_string :: "DescriptorEvidenceState \<Rightarrow> string" where
  "DescriptorEvidenceState_string EvidenceCurrent = ''current''"
| "DescriptorEvidenceState_string EvidenceRetired = ''retired''"

definition DescriptorEvidenceStates :: "DescriptorEvidenceState list" where
  "DescriptorEvidenceStates =
     [EvidenceCurrent,
      EvidenceRetired]"

definition ParseDescriptorEvidenceState :: "string \<Rightarrow> DescriptorEvidenceState option" where
  "ParseDescriptorEvidenceState = parseClosed DescriptorEvidenceState_string DescriptorEvidenceStates"

datatype TargetState =
    TargetExtant
  | TargetDeleted

fun TargetState_string :: "TargetState \<Rightarrow> string" where
  "TargetState_string TargetExtant = ''extant''"
| "TargetState_string TargetDeleted = ''deleted''"

definition TargetStates :: "TargetState list" where
  "TargetStates =
     [TargetExtant,
      TargetDeleted]"

definition ParseTargetState :: "string \<Rightarrow> TargetState option" where
  "ParseTargetState = parseClosed TargetState_string TargetStates"

datatype TargetActiveState =
    TargetActiveCurrent
  | TargetActiveStale
  | TargetActiveAbsent
  | TargetActiveUnavailable

fun TargetActiveState_string :: "TargetActiveState \<Rightarrow> string" where
  "TargetActiveState_string TargetActiveCurrent = ''current''"
| "TargetActiveState_string TargetActiveStale = ''stale''"
| "TargetActiveState_string TargetActiveAbsent = ''absent''"
| "TargetActiveState_string TargetActiveUnavailable = ''unavailable''"

definition TargetActiveStates :: "TargetActiveState list" where
  "TargetActiveStates =
     [TargetActiveCurrent,
      TargetActiveStale,
      TargetActiveAbsent,
      TargetActiveUnavailable]"

definition ParseTargetActiveState :: "string \<Rightarrow> TargetActiveState option" where
  "ParseTargetActiveState = parseClosed TargetActiveState_string TargetActiveStates"

datatype TargetDurableState =
    TargetDurableCurrent
  | TargetDurableRetired
  | TargetDurableAbsent

fun TargetDurableState_string :: "TargetDurableState \<Rightarrow> string" where
  "TargetDurableState_string TargetDurableCurrent = ''current''"
| "TargetDurableState_string TargetDurableRetired = ''retired''"
| "TargetDurableState_string TargetDurableAbsent = ''absent''"

definition TargetDurableStates :: "TargetDurableState list" where
  "TargetDurableStates =
     [TargetDurableCurrent,
      TargetDurableRetired,
      TargetDurableAbsent]"

definition ParseTargetDurableState :: "string \<Rightarrow> TargetDurableState option" where
  "ParseTargetDurableState = parseClosed TargetDurableState_string TargetDurableStates"

datatype CursorOutcome =
    CursorOK
  | CursorInvalid
  | CursorStale

fun CursorOutcome_string :: "CursorOutcome \<Rightarrow> string" where
  "CursorOutcome_string CursorOK = ''ok''"
| "CursorOutcome_string CursorInvalid = ''invalid_cursor''"
| "CursorOutcome_string CursorStale = ''stale_cursor''"

definition CursorOutcomes :: "CursorOutcome list" where
  "CursorOutcomes =
     [CursorOK,
      CursorInvalid,
      CursorStale]"

definition ParseCursorOutcome :: "string \<Rightarrow> CursorOutcome option" where
  "ParseCursorOutcome = parseClosed CursorOutcome_string CursorOutcomes"

datatype CreateGrantRequestOutcome =
    RequestCreated
  | RequestExisting
  | RequestDenyConflict
  | RequestTargetUnavailable
  | RequestLimitReached

fun CreateGrantRequestOutcome_string :: "CreateGrantRequestOutcome \<Rightarrow> string" where
  "CreateGrantRequestOutcome_string RequestCreated = ''created''"
| "CreateGrantRequestOutcome_string RequestExisting = ''existing''"
| "CreateGrantRequestOutcome_string RequestDenyConflict = ''deny_conflict''"
| "CreateGrantRequestOutcome_string RequestTargetUnavailable = ''target_unavailable''"
| "CreateGrantRequestOutcome_string RequestLimitReached = ''limit_reached''"

definition CreateGrantRequestOutcomes :: "CreateGrantRequestOutcome list" where
  "CreateGrantRequestOutcomes =
     [RequestCreated,
      RequestExisting,
      RequestDenyConflict,
      RequestTargetUnavailable,
      RequestLimitReached]"

definition ParseCreateGrantRequestOutcome :: "string \<Rightarrow> CreateGrantRequestOutcome option" where
  "ParseCreateGrantRequestOutcome = parseClosed CreateGrantRequestOutcome_string CreateGrantRequestOutcomes"

datatype GetGrantRequestOutcome =
    RequestFound
  | RequestNotFound

fun GetGrantRequestOutcome_string :: "GetGrantRequestOutcome \<Rightarrow> string" where
  "GetGrantRequestOutcome_string RequestFound = ''found''"
| "GetGrantRequestOutcome_string RequestNotFound = ''not_found''"

definition GetGrantRequestOutcomes :: "GetGrantRequestOutcome list" where
  "GetGrantRequestOutcomes =
     [RequestFound,
      RequestNotFound]"

definition ParseGetGrantRequestOutcome :: "string \<Rightarrow> GetGrantRequestOutcome option" where
  "ParseGetGrantRequestOutcome = parseClosed GetGrantRequestOutcome_string GetGrantRequestOutcomes"

datatype CancelGrantRequestOutcome =
    RequestCancellationCancelled
  | RequestCancellationAlreadyCancelled
  | RequestCancellationNotPending
  | RequestCancellationNotFound

fun CancelGrantRequestOutcome_string :: "CancelGrantRequestOutcome \<Rightarrow> string" where
  "CancelGrantRequestOutcome_string RequestCancellationCancelled = ''cancelled''"
| "CancelGrantRequestOutcome_string RequestCancellationAlreadyCancelled = ''already_cancelled''"
| "CancelGrantRequestOutcome_string RequestCancellationNotPending = ''not_pending''"
| "CancelGrantRequestOutcome_string RequestCancellationNotFound = ''not_found''"

definition CancelGrantRequestOutcomes :: "CancelGrantRequestOutcome list" where
  "CancelGrantRequestOutcomes =
     [RequestCancellationCancelled,
      RequestCancellationAlreadyCancelled,
      RequestCancellationNotPending,
      RequestCancellationNotFound]"

definition ParseCancelGrantRequestOutcome :: "string \<Rightarrow> CancelGrantRequestOutcome option" where
  "ParseCancelGrantRequestOutcome = parseClosed CancelGrantRequestOutcome_string CancelGrantRequestOutcomes"

subsection \<open>\<open>contract/invocation_states.go\<close>\<close>

datatype InvocationAdmissionClass =
    AdmissionInvalidParams
  | AdmissionUnknownTool
  | AdmissionInvalidArguments
  | AdmissionAuthorizationUnavailable
  | AdmissionEvaluated

fun InvocationAdmissionClass_string :: "InvocationAdmissionClass \<Rightarrow> string" where
  "InvocationAdmissionClass_string AdmissionInvalidParams = ''invalid_params''"
| "InvocationAdmissionClass_string AdmissionUnknownTool = ''unknown_tool''"
| "InvocationAdmissionClass_string AdmissionInvalidArguments = ''invalid_arguments''"
| "InvocationAdmissionClass_string AdmissionAuthorizationUnavailable = ''authorization_unavailable''"
| "InvocationAdmissionClass_string AdmissionEvaluated = ''evaluated''"

definition InvocationAdmissionClasses :: "InvocationAdmissionClass list" where
  "InvocationAdmissionClasses =
     [AdmissionInvalidParams,
      AdmissionUnknownTool,
      AdmissionInvalidArguments,
      AdmissionAuthorizationUnavailable,
      AdmissionEvaluated]"

definition ParseInvocationAdmissionClass :: "string \<Rightarrow> InvocationAdmissionClass option" where
  "ParseInvocationAdmissionClass = parseClosed InvocationAdmissionClass_string InvocationAdmissionClasses"

datatype InvocationTerminalClass =
    TerminalPrestartFailure
  | TerminalSucceeded
  | TerminalDownstreamFailure
  | TerminalOutcomeUnknown

fun InvocationTerminalClass_string :: "InvocationTerminalClass \<Rightarrow> string" where
  "InvocationTerminalClass_string TerminalPrestartFailure = ''prestart_failure''"
| "InvocationTerminalClass_string TerminalSucceeded = ''succeeded''"
| "InvocationTerminalClass_string TerminalDownstreamFailure = ''downstream_failure''"
| "InvocationTerminalClass_string TerminalOutcomeUnknown = ''outcome_unknown''"

definition InvocationTerminalClasses :: "InvocationTerminalClass list" where
  "InvocationTerminalClasses =
     [TerminalPrestartFailure,
      TerminalSucceeded,
      TerminalDownstreamFailure,
      TerminalOutcomeUnknown]"

definition ParseInvocationTerminalClass :: "string \<Rightarrow> InvocationTerminalClass option" where
  "ParseInvocationTerminalClass = parseClosed InvocationTerminalClass_string InvocationTerminalClasses"

datatype AgentCallErrorCode =
    CallRejected
  | AuditUnavailable
  | ToolUnavailable
  | DownstreamFailure
  | OutcomeUnknown

fun AgentCallErrorCode_string :: "AgentCallErrorCode \<Rightarrow> string" where
  "AgentCallErrorCode_string CallRejected = ''call_rejected''"
| "AgentCallErrorCode_string AuditUnavailable = ''audit_unavailable''"
| "AgentCallErrorCode_string ToolUnavailable = ''tool_unavailable''"
| "AgentCallErrorCode_string DownstreamFailure = ''downstream_failure''"
| "AgentCallErrorCode_string OutcomeUnknown = ''outcome_unknown''"

definition AgentCallErrorCodes :: "AgentCallErrorCode list" where
  "AgentCallErrorCodes =
     [CallRejected,
      AuditUnavailable,
      ToolUnavailable,
      DownstreamFailure,
      OutcomeUnknown]"

definition ParseAgentCallErrorCode :: "string \<Rightarrow> AgentCallErrorCode option" where
  "ParseAgentCallErrorCode = parseClosed AgentCallErrorCode_string AgentCallErrorCodes"

datatype CallRejectionReason =
    RejectionInvalidParams
  | RejectionUnknownTool
  | RejectionInvalidArguments
  | RejectionDeny
  | RejectionBlock
  | RejectionAuthorizationUnavailable

fun CallRejectionReason_string :: "CallRejectionReason \<Rightarrow> string" where
  "CallRejectionReason_string RejectionInvalidParams = ''invalid_params''"
| "CallRejectionReason_string RejectionUnknownTool = ''unknown_tool''"
| "CallRejectionReason_string RejectionInvalidArguments = ''invalid_arguments''"
| "CallRejectionReason_string RejectionDeny = ''deny''"
| "CallRejectionReason_string RejectionBlock = ''block''"
| "CallRejectionReason_string RejectionAuthorizationUnavailable = ''authorization_unavailable''"

definition CallRejectionReasons :: "CallRejectionReason list" where
  "CallRejectionReasons =
     [RejectionInvalidParams,
      RejectionUnknownTool,
      RejectionInvalidArguments,
      RejectionDeny,
      RejectionBlock,
      RejectionAuthorizationUnavailable]"

definition ParseCallRejectionReason :: "string \<Rightarrow> CallRejectionReason option" where
  "ParseCallRejectionReason = parseClosed CallRejectionReason_string CallRejectionReasons"

subsection \<open>\<open>contract/authorization_states.go\<close>\<close>

datatype PrincipalState =
    PrincipalActive
  | PrincipalDisabled

fun PrincipalState_string :: "PrincipalState \<Rightarrow> string" where
  "PrincipalState_string PrincipalActive = ''active''"
| "PrincipalState_string PrincipalDisabled = ''disabled''"

definition PrincipalStates :: "PrincipalState list" where
  "PrincipalStates =
     [PrincipalActive,
      PrincipalDisabled]"

definition ParsePrincipalState :: "string \<Rightarrow> PrincipalState option" where
  "ParsePrincipalState = parseClosed PrincipalState_string PrincipalStates"

datatype PrincipalVisibility =
    VisibilityRequestable
  | VisibilityAllowedOnly
  | VisibilityAll

fun PrincipalVisibility_string :: "PrincipalVisibility \<Rightarrow> string" where
  "PrincipalVisibility_string VisibilityRequestable = ''requestable''"
| "PrincipalVisibility_string VisibilityAllowedOnly = ''allowed-only''"
| "PrincipalVisibility_string VisibilityAll = ''all''"

definition PrincipalVisibilities :: "PrincipalVisibility list" where
  "PrincipalVisibilities =
     [VisibilityRequestable,
      VisibilityAllowedOnly,
      VisibilityAll]"

definition ParsePrincipalVisibility :: "string \<Rightarrow> PrincipalVisibility option" where
  "ParsePrincipalVisibility = parseClosed PrincipalVisibility_string PrincipalVisibilities"

datatype GrantEffect =
    GrantAllow
  | GrantDeny

fun GrantEffect_string :: "GrantEffect \<Rightarrow> string" where
  "GrantEffect_string GrantAllow = ''allow''"
| "GrantEffect_string GrantDeny = ''deny''"

definition GrantEffects :: "GrantEffect list" where
  "GrantEffects =
     [GrantAllow,
      GrantDeny]"

definition ParseGrantEffect :: "string \<Rightarrow> GrantEffect option" where
  "ParseGrantEffect = parseClosed GrantEffect_string GrantEffects"

datatype GrantState =
    GrantActive
  | GrantExpired

fun GrantState_string :: "GrantState \<Rightarrow> string" where
  "GrantState_string GrantActive = ''active''"
| "GrantState_string GrantExpired = ''expired''"

definition GrantStates :: "GrantState list" where
  "GrantStates =
     [GrantActive,
      GrantExpired]"

definition ParseGrantState :: "string \<Rightarrow> GrantState option" where
  "ParseGrantState = parseClosed GrantState_string GrantStates"

datatype AuthorizationDecision =
    DecisionAllow
  | DecisionDeny
  | DecisionBlock

fun AuthorizationDecision_string :: "AuthorizationDecision \<Rightarrow> string" where
  "AuthorizationDecision_string DecisionAllow = ''allow''"
| "AuthorizationDecision_string DecisionDeny = ''deny''"
| "AuthorizationDecision_string DecisionBlock = ''block''"

definition AuthorizationDecisions :: "AuthorizationDecision list" where
  "AuthorizationDecisions =
     [DecisionAllow,
      DecisionDeny,
      DecisionBlock]"

definition ParseAuthorizationDecision :: "string \<Rightarrow> AuthorizationDecision option" where
  "ParseAuthorizationDecision = parseClosed AuthorizationDecision_string AuthorizationDecisions"

subsection \<open>Every vocabulary is closed and its spellings are unambiguous\<close>

interpretation transport_kind: complete_vocabulary TransportKind_string TransportKind_values
  by unfold_locales (use TransportKind.nchotomy in \<open>auto simp: TransportKind_values_def\<close>)

interpretation protocol_mode: complete_vocabulary ProtocolMode_string ProtocolMode_values
  by unfold_locales (use ProtocolMode.nchotomy in \<open>auto simp: ProtocolMode_values_def\<close>)

interpretation authentication_mode: complete_vocabulary AuthenticationMode_string AuthenticationMode_values
  by unfold_locales (use AuthenticationMode.nchotomy in \<open>auto simp: AuthenticationMode_values_def\<close>)

interpretation registration_mode: complete_vocabulary RegistrationMode_string RegistrationMode_values
  by unfold_locales (use RegistrationMode.nchotomy in \<open>auto simp: RegistrationMode_values_def\<close>)

interpretation token_endpoint_auth_method: complete_vocabulary TokenEndpointAuthMethod_string TokenEndpointAuthMethod_values
  by unfold_locales (use TokenEndpointAuthMethod.nchotomy in \<open>auto simp: TokenEndpointAuthMethod_values_def\<close>)

interpretation desired_server_state: complete_vocabulary DesiredServerState_string DesiredServerState_values
  by unfold_locales (use DesiredServerState.nchotomy in \<open>auto simp: DesiredServerState_values_def\<close>)

interpretation runtime_state: complete_vocabulary RuntimeState_string RuntimeState_values
  by unfold_locales (use RuntimeState.nchotomy in \<open>auto simp: RuntimeState_values_def\<close>)

interpretation server_operation_kind: complete_vocabulary ServerOperationKind_string ServerOperationKind_values
  by unfold_locales (use ServerOperationKind.nchotomy in \<open>auto simp: ServerOperationKind_values_def\<close>)

interpretation explicit_server_operation_kind: closed_vocabulary ServerOperationKind_string ExplicitServerOperationKinds
  by unfold_locales (simp add: ExplicitServerOperationKinds_def)

interpretation server_operation_state: complete_vocabulary ServerOperationState_string ServerOperationState_values
  by unfold_locales (use ServerOperationState.nchotomy in \<open>auto simp: ServerOperationState_values_def\<close>)

interpretation server_credential_state: complete_vocabulary ServerCredentialState_string ServerCredentialState_values
  by unfold_locales (use ServerCredentialState.nchotomy in \<open>auto simp: ServerCredentialState_values_def\<close>)

interpretation descriptor_retired_filter: complete_vocabulary DescriptorRetiredFilter_string DescriptorRetiredFilter_values
  by unfold_locales (use DescriptorRetiredFilter.nchotomy in \<open>auto simp: DescriptorRetiredFilter_values_def\<close>)

interpretation durable_catalog_state: complete_vocabulary DurableCatalogState_string DurableCatalogState_values
  by unfold_locales (use DurableCatalogState.nchotomy in \<open>auto simp: DurableCatalogState_values_def\<close>)

interpretation active_catalog_state: complete_vocabulary ActiveCatalogState_string ActiveCatalogState_values
  by unfold_locales (use ActiveCatalogState.nchotomy in \<open>auto simp: ActiveCatalogState_values_def\<close>)

interpretation aggregate_catalog_state: complete_vocabulary AggregateCatalogState_string AggregateCatalogState_values
  by unfold_locales (use AggregateCatalogState.nchotomy in \<open>auto simp: AggregateCatalogState_values_def\<close>)

interpretation auth_flow_state: complete_vocabulary AuthFlowState_string AuthFlowState_values
  by unfold_locales (use AuthFlowState.nchotomy in \<open>auto simp: AuthFlowState_values_def\<close>)

interpretation oauth_diagnostic_stage: complete_vocabulary OAuthDiagnosticStage_string OAuthDiagnosticStage_values
  by unfold_locales (use OAuthDiagnosticStage.nchotomy in \<open>auto simp: OAuthDiagnosticStage_values_def\<close>)

interpretation server_credential_kind: complete_vocabulary ServerCredentialKind_string ServerCredentialKind_values
  by unfold_locales (use ServerCredentialKind.nchotomy in \<open>auto simp: ServerCredentialKind_values_def\<close>)

interpretation credential_replacement_kind: closed_vocabulary ServerCredentialKind_string CredentialReplacementKinds
  by unfold_locales (simp add: CredentialReplacementKinds_def)

interpretation public_reason: complete_vocabulary PublicReason_string PublicReason_values
  by unfold_locales (use PublicReason.nchotomy in \<open>auto simp: PublicReason_values_def\<close>)

interpretation policy_scope: complete_vocabulary PolicyScope_string PolicyScopes
  by unfold_locales (use PolicyScope.nchotomy in \<open>auto simp: PolicyScopes_def\<close>)

interpretation grant_request_state: complete_vocabulary GrantRequestState_string GrantRequestStates
  by unfold_locales (use GrantRequestState.nchotomy in \<open>auto simp: GrantRequestStates_def\<close>)

interpretation grant_request_rejection_reason: complete_vocabulary GrantRequestRejectionReason_string GrantRequestRejectionReasons
  by unfold_locales (use GrantRequestRejectionReason.nchotomy in \<open>auto simp: GrantRequestRejectionReasons_def\<close>)

interpretation descriptor_evidence_state: complete_vocabulary DescriptorEvidenceState_string DescriptorEvidenceStates
  by unfold_locales (use DescriptorEvidenceState.nchotomy in \<open>auto simp: DescriptorEvidenceStates_def\<close>)

interpretation target_state: complete_vocabulary TargetState_string TargetStates
  by unfold_locales (use TargetState.nchotomy in \<open>auto simp: TargetStates_def\<close>)

interpretation target_active_state: complete_vocabulary TargetActiveState_string TargetActiveStates
  by unfold_locales (use TargetActiveState.nchotomy in \<open>auto simp: TargetActiveStates_def\<close>)

interpretation target_durable_state: complete_vocabulary TargetDurableState_string TargetDurableStates
  by unfold_locales (use TargetDurableState.nchotomy in \<open>auto simp: TargetDurableStates_def\<close>)

interpretation cursor_outcome: complete_vocabulary CursorOutcome_string CursorOutcomes
  by unfold_locales (use CursorOutcome.nchotomy in \<open>auto simp: CursorOutcomes_def\<close>)

interpretation create_grant_request_outcome: complete_vocabulary CreateGrantRequestOutcome_string CreateGrantRequestOutcomes
  by unfold_locales (use CreateGrantRequestOutcome.nchotomy in \<open>auto simp: CreateGrantRequestOutcomes_def\<close>)

interpretation get_grant_request_outcome: complete_vocabulary GetGrantRequestOutcome_string GetGrantRequestOutcomes
  by unfold_locales (use GetGrantRequestOutcome.nchotomy in \<open>auto simp: GetGrantRequestOutcomes_def\<close>)

interpretation cancel_grant_request_outcome: complete_vocabulary CancelGrantRequestOutcome_string CancelGrantRequestOutcomes
  by unfold_locales (use CancelGrantRequestOutcome.nchotomy in \<open>auto simp: CancelGrantRequestOutcomes_def\<close>)

interpretation invocation_admission_class: complete_vocabulary InvocationAdmissionClass_string InvocationAdmissionClasses
  by unfold_locales (use InvocationAdmissionClass.nchotomy in \<open>auto simp: InvocationAdmissionClasses_def\<close>)

interpretation invocation_terminal_class: complete_vocabulary InvocationTerminalClass_string InvocationTerminalClasses
  by unfold_locales (use InvocationTerminalClass.nchotomy in \<open>auto simp: InvocationTerminalClasses_def\<close>)

interpretation agent_call_error_code: complete_vocabulary AgentCallErrorCode_string AgentCallErrorCodes
  by unfold_locales (use AgentCallErrorCode.nchotomy in \<open>auto simp: AgentCallErrorCodes_def\<close>)

interpretation call_rejection_reason: complete_vocabulary CallRejectionReason_string CallRejectionReasons
  by unfold_locales (use CallRejectionReason.nchotomy in \<open>auto simp: CallRejectionReasons_def\<close>)

interpretation principal_state: complete_vocabulary PrincipalState_string PrincipalStates
  by unfold_locales (use PrincipalState.nchotomy in \<open>auto simp: PrincipalStates_def\<close>)

interpretation principal_visibility: complete_vocabulary PrincipalVisibility_string PrincipalVisibilities
  by unfold_locales (use PrincipalVisibility.nchotomy in \<open>auto simp: PrincipalVisibilities_def\<close>)

interpretation grant_effect: complete_vocabulary GrantEffect_string GrantEffects
  by unfold_locales (use GrantEffect.nchotomy in \<open>auto simp: GrantEffects_def\<close>)

interpretation grant_state: complete_vocabulary GrantState_string GrantStates
  by unfold_locales (use GrantState.nchotomy in \<open>auto simp: GrantStates_def\<close>)

interpretation authorization_decision: complete_vocabulary AuthorizationDecision_string AuthorizationDecisions
  by unfold_locales (use AuthorizationDecision.nchotomy in \<open>auto simp: AuthorizationDecisions_def\<close>)

subsection \<open>Messages of rejected and failed calls\<close>

fun CallRejectionMessage :: "CallRejectionReason \<Rightarrow> bool \<Rightarrow> string option" where
  "CallRejectionMessage reason blockedSelfService =
     (if blockedSelfService \<and> reason \<noteq> RejectionBlock then None
      else
        (case reason of
           RejectionInvalidParams \<Rightarrow>
             Some ''Request rejected: invalid tools/call parameters. Check the request shape.''
         | RejectionUnknownTool \<Rightarrow>
             Some ''Request rejected: unknown tool. Refresh tools/list and check the tool name.''
         | RejectionInvalidArguments \<Rightarrow>
             Some (''Request rejected: invalid tool arguments. Check the tool'' @
                   [CHR 0xE2, CHR 0x80, CHR 0x99] @ ''s input schema.'')
         | RejectionDeny \<Rightarrow>
             Some ''DENIED: a matching DENY grant forbids this call. Additional ALLOW grants and self-service requests cannot override it.''
         | RejectionBlock \<Rightarrow>
             (if blockedSelfService
              then Some ''BLOCKED: no matching ALLOW grant authorizes this call. You may ask an administrator to review your access.''
              else Some ''BLOCKED: no matching ALLOW grant authorizes this call. If available, you may use mcp_gateway.list_grants to inspect your access or mcp_gateway.create_grant_request to request access. Requesting access does not authorize the call; approval is required.'')
         | RejectionAuthorizationUnavailable \<Rightarrow>
             Some ''Call rejected: authorization could not be established. This is not a DENY or BLOCK decision.''))"

definition agentCallErrors :: "(AgentCallErrorCode \<times> string) list" where
  "agentCallErrors =
     [(CallRejected, ''Call rejected''),
      (AuditUnavailable, ''Call unavailable''),
      (ToolUnavailable, ''Tool unavailable''),
      (DownstreamFailure, ''Tool failed''),
      (OutcomeUnknown, ''Tool outcome unknown'')]"

definition AgentCallErrorForCode :: "AgentCallErrorCode \<Rightarrow> (AgentCallErrorCode \<times> string) option" where
  "AgentCallErrorForCode code = find (\<lambda>e. fst e = code) agentCallErrors"

lemma AgentCallErrorForCode_total: "\<exists>message. AgentCallErrorForCode code = Some (code, message)"
  by (cases code) (simp_all add: AgentCallErrorForCode_def agentCallErrors_def)

lemma CallRejectionMessage_None_iff:
  "CallRejectionMessage reason selfService = None \<longleftrightarrow> selfService \<and> reason \<noteq> RejectionBlock"
  by (cases reason) simp_all

end
