(* ===== verification/Contract_Values.thy ===== *)
theory Contract_Values
  imports Go_Strings
begin

text \<open>
  The validators and limits of \<open>internal/contract\<close> the policy components share: opaque resource
  identifiers (\<open>audit.go\<close>), host names (\<open>hostname.go\<close>), Git reference names
  (\<open>git_traffic_validation.go\<close>), and the table of fixed limits (\<open>limits.go\<close>) with its lookup.
\<close>

subsection \<open>Opaque identifiers\<close>

text \<open>The pattern \<open>^[0-7][0-9A-HJKMNP-TV-Z]{25}$\<close> (Crockford base 32, at most 128 bits).\<close>

definition crockford :: string where
  "crockford = ''0123456789ABCDEFGHJKMNPQRSTVWXYZ''"

definition ValidAuditID :: "string \<Rightarrow> bool" where
  "ValidAuditID value =
     (case value of
        [] \<Rightarrow> False
      | c # cs \<Rightarrow> c \<in> set ''01234567'' \<and> length cs = 25 \<and> list_all (\<lambda>x. x \<in> set crockford) cs)"

lemma ValidAuditID_length: "ValidAuditID s \<Longrightarrow> length s = 26"
  by (cases s) (simp_all add: ValidAuditID_def)

lemma ValidAuditID_nonempty [simp]: "\<not> ValidAuditID []"
  by (simp add: ValidAuditID_def)

subsection \<open>Host names\<close>

definition hostname_byte :: "char \<Rightarrow> bool" where
  "hostname_byte v \<longleftrightarrow>
     CHR ''a'' \<le> v \<and> v \<le> CHR ''z'' \<or> CHR ''A'' \<le> v \<and> v \<le> CHR ''Z'' \<or>
     CHR ''0'' \<le> v \<and> v \<le> CHR ''9'' \<or> v = CHR ''-''"

definition hostname_label :: "string \<Rightarrow> bool" where
  "hostname_label label \<longleftrightarrow>
     label \<noteq> [] \<and> length label \<le> 63 \<and> hd label \<noteq> CHR ''-'' \<and> last label \<noteq> CHR ''-'' \<and>
     list_all hostname_byte label"

definition NormalizeHostname :: "string \<Rightarrow> string option" where
  "NormalizeHostname host =
     (if host = [] \<or> length host > 253 then None
      else let labels = Split CHR ''.'' host in
        if \<not> list_all hostname_label labels then None
        else if Trim (last labels) decimal_digits = [] then None
        else Some (ToLower host))"

lemma NormalizeHostname_SomeD:
  assumes "NormalizeHostname h = Some h'"
  shows "h' = ToLower h" and "h' \<noteq> []" and "length h' \<le> 253"
    and "list_all hostname_label (Split CHR ''.'' h)"
  using assms by (auto simp: NormalizeHostname_def Let_def ToLower_def split: if_splits)

subsection \<open>Git reference names\<close>

definition GitRefBytes :: nat where
  "GitRefBytes = 1024"

definition git_ref_byte :: "char \<Rightarrow> bool" where
  "git_ref_byte b \<longleftrightarrow> 33 \<le> byte_val b \<and> byte_val b \<le> 126 \<and> b \<notin> set (''~^:?*['' @ [CHR 0x5C])"

definition git_ref_segment :: "string \<Rightarrow> bool" where
  "git_ref_segment segment \<longleftrightarrow>
     segment \<noteq> [] \<and> \<not> HasPrefix segment ''.'' \<and> \<not> HasSuffix segment ''.lock''"

definition ValidGitRefName :: "string \<Rightarrow> bool" where
  "ValidGitRefName value \<longleftrightarrow>
     length value \<le> GitRefBytes \<and> HasPrefix value ''refs/'' \<and>
     2 \<le> count_list value CHR ''/'' \<and> \<not> Contains value ''..'' \<and> \<not> Contains value [CHR ''@'', CHR ''{''] \<and>
     \<not> HasSuffix value ''.'' \<and> list_all git_ref_byte value \<and>
     list_all git_ref_segment (Split CHR ''/'' value)"

subsection \<open>Fixed limits\<close>

definition fixedLimits :: "(string \<times> int) list" where
  "fixedLimits =
    [(''request_target_bytes'', 8 * 1024),
     (''request_header_bytes'', 32 * 1024),
     (''request_header_count'', 100),
     (''request_header_value_bytes'', 8 * 1024),
     (''api_json_body_bytes'', 1 * 1024 * 1024),
     (''mcp_body_bytes'', 4 * 1024 * 1024),
     (''json_depth'', 64),
     (''http_regular'', 128),
     (''http_control_auth'', 32),
     (''http_admin'', 16),
     (''http_health'', 8),
     (''mcp_work'', 32),
     (''mcp_streams'', 32),
     (''admin_sessions'', 128),
     (''legacy_sessions'', 128),
     (''event_streams'', 16),
     (''event_buffered_invalidations'', 16),
     (''admin_credentials'', 128),
     (''admin_list_page'', 100),
     (''database_bytes'', 1 * 1024 * 1024 * 1024),
     (''idempotency_key_bytes'', 128),
     (''opaque_id_bytes'', 26),
     (''cursor_bytes'', 512),
     (''sse_frame_bytes'', 512),
     (''keyring_secret_bytes'', 256 * 1024),
     (''keyring_chunk_bytes'', 3000),
     (''keyring_candidates'', 64),
     (''keyring_work'', 1),
     (''namespace_bytes'', 32),
     (''display_name_bytes'', 256),
     (''stdio_arguments'', 64),
     (''stdio_environment_entries'', 32),
     (''stdio_secret_environment_entries'', 16),
     (''stdio_path_bytes'', 4 * 1024),
     (''stdio_argument_bytes'', 4 * 1024),
     (''stdio_arguments_bytes'', 32 * 1024),
     (''stdio_environment_name_bytes'', 4 * 1024),
     (''stdio_environment_value_bytes'', 4 * 1024),
     (''secret_slot_name_bytes'', 64),
     (''resource_url_bytes'', 8 * 1024),
     (''server_identities'', 1024),
     (''servers'', 64),
     (''enabled_servers'', 32),
     (''downstream_runtimes'', 32),
     (''server_reconciliations'', 4),
     (''per_server_reconciliation'', 1),
     (''catalog_traversals'', 4),
     (''oauth_flows'', 16),
     (''per_server_oauth_flows'', 1),
     (''oauth_callback_work'', 8),
     (''terminal_operations'', 64),
     (''terminal_auth_flows'', 16),
     (''s2_list_page'', 100),
     (''active_tools_per_server'', 256),
     (''active_tools'', 2048),
     (''durable_tool_identities_per_server'', 512),
     (''durable_tool_identities'', 4096),
     (''tools_list_pages'', 32),
     (''tools_list_page_bytes'', 4 * 1024 * 1024),
     (''tool_descriptor_bytes'', 128 * 1024),
     (''tool_schema_bytes'', 96 * 1024),
     (''tool_name_bytes'', 128),
     (''external_tool_name_bytes'', 128),
     (''tool_title_bytes'', 1024),
     (''tool_description_bytes'', 16 * 1024),
     (''downstream_mcp_body_bytes'', 4 * 1024 * 1024),
     (''downstream_sse_event_bytes'', 4 * 1024 * 1024),
     (''downstream_legacy_session_id_bytes'', 512),
     (''oauth_metadata_body_bytes'', 1024 * 1024),
     (''oauth_json_depth'', 64),
     (''oauth_response_body_bytes'', 256 * 1024),
     (''oauth_url_bytes'', 8 * 1024),
     (''oauth_query_bytes'', 8 * 1024),
     (''oauth_client_id_bytes'', 8 * 1024),
     (''oauth_client_secret_bytes'', 8 * 1024),
     (''oauth_scope_count'', 64),
     (''oauth_scope_token_bytes'', 256),
     (''oauth_scope_bytes'', 8 * 1024),
     (''stdio_protocol_frame_bytes'', 4 * 1024 * 1024),
     (''stdio_stderr_bytes'', 64 * 1024),
     (''stdio_output_rate_bytes_per_second'', 8 * 1024 * 1024),
     (''stdio_output_burst_bytes'', 8 * 1024 * 1024),
     (''downstream_dispatch'', 32),
     (''per_server_downstream_dispatch'', 4),
     (''server_idempotency_records'', 1024),
     (''principals'', 128),
     (''grants'', 4096),
     (''grant_description_bytes'', 256),
     (''constraint_atoms'', 16),
     (''constraint_bytes'', 8192),
     (''constraint_pointer_bytes'', 256),
     (''constraint_regex_pattern_bytes'', 1024),
     (''constraint_regex_program_instructions'', 4096),
     (''constraint_regex_total_program_instructions'', 256),
     (''constraint_regex_work_bytes'', 1024 * 1024),
     (''invocation_audit_rows'', 65536),
     (''invocation_argument_capture_bytes'', 8192),
     (''invocation_failure_diagnostic_bytes'', 512),
     (''discoverable_tools'', 2054),
     (''grant_requests'', 4096),
     (''pending_grant_requests_per_principal'', 128),
     (''grant_request_evidence_bytes'', 256 * 1024 * 1024),
     (''grant_request_descriptor_bytes'', 128 * 1024),
     (''grant_request_evidence_snapshot_bytes'', 132 * 1024),
     (''grant_request_duration_seconds'', 2592000),
     (''grant_request_target_bytes'', 128),
     (''agent_self_service_list_page'', 100),
     (''control_audit_events'', 65536),
     (''control_audit_page'', 100),
     (''control_audit_event_bytes'', 2048),
     (''control_audit_cursor_bytes'', 2048),
     (''upstream_header_count'', 16),
     (''upstream_header_name_bytes'', 128),
     (''upstream_header_value_bytes'', 4096),
     (''upstream_header_bytes'', 8192),
     (''authority_work'', 32)]"

definition FixedLimitByName :: "string \<Rightarrow> (string \<times> int) option" where
  "FixedLimitByName name = find (\<lambda>l. fst l = name) fixedLimits"

definition FixedLimit_Allows :: "string \<times> int \<Rightarrow> int \<Rightarrow> bool" where
  "FixedLimit_Allows limit value \<longleftrightarrow> 0 \<le> value \<and> value \<le> snd limit"

text \<open>
  \<open>mustLimit\<close> panics on an unknown name; the model returns \<open>None\<close> there. Every name the source
  passes is a literal of the table, which \<open>limit_simps\<close> records.
\<close>

definition limitByName :: "string \<Rightarrow> int option" where
  "limitByName name = map_option snd (FixedLimitByName name)"

definition mustLimit :: "string \<Rightarrow> int" where
  "mustLimit name = (case limitByName name of Some m \<Rightarrow> m | None \<Rightarrow> 0)"

text \<open>Looking a name up must not simplify the rest of the table at every step.\<close>

lemma find_weak_cong: "P = Q \<Longrightarrow> find P xs = find Q xs"
  by simp

lemma limit_simps [simp]:
  "mustLimit ''grants'' = 4096"
  "mustLimit ''principals'' = 128"
  "mustLimit ''mcp_body_bytes'' = 4194304"
  "mustLimit ''json_depth'' = 64"
  "mustLimit ''tool_name_bytes'' = 128"
  "mustLimit ''display_name_bytes'' = 256"
  "mustLimit ''grant_description_bytes'' = 256"
  "mustLimit ''constraint_atoms'' = 16"
  "mustLimit ''constraint_bytes'' = 8192"
  "mustLimit ''constraint_pointer_bytes'' = 256"
  "mustLimit ''constraint_regex_pattern_bytes'' = 1024"
  "mustLimit ''constraint_regex_program_instructions'' = 4096"
  "mustLimit ''constraint_regex_total_program_instructions'' = 256"
  "mustLimit ''constraint_regex_work_bytes'' = 1048576"
  "mustLimit ''grant_requests'' = 4096"
  "mustLimit ''pending_grant_requests_per_principal'' = 128"
  "mustLimit ''grant_request_evidence_bytes'' = 268435456"
  "mustLimit ''grant_request_evidence_snapshot_bytes'' = 135168"
  "mustLimit ''grant_request_target_bytes'' = 128"
  "mustLimit ''authority_work'' = 32"
  "mustLimit ''event_streams'' = 16"
  "mustLimit ''event_buffered_invalidations'' = 16"
  unfolding mustLimit_def limitByName_def FixedLimitByName_def fixedLimits_def
  by (simp_all cong: find_weak_cong)

end
