(* ===== verification/Http_Path.thy ===== *)
theory Http_Path
  imports Contract_Values
begin

text \<open>
  Paths and methods of \<open>internal/httppolicy\<close>: the selector path compiler \<open>canonicalPath\<close>
  (\<open>target.go\<close>), the request path normaliser \<open>requestPath\<close>, the query and Unicode helpers
  (\<open>request_path.go\<close>) and the method grammar. Both normalisers are idempotent, a normalised path
  denotes the same bytes segment by segment as its input, so an encoded separator never becomes a
  segment boundary, and a selector path is compared under the spelling the request parser uses.
\<close>

datatype http_error = ErrInvalid | TargetError string

definition HTTPPathBytes :: nat where
  "HTTPPathBytes = 4096"

definition HTTPMethodBytes :: nat where
  "HTTPMethodBytes = 32"

definition RejectionReason :: "http_error \<Rightarrow> string" where
  "RejectionReason e =
     (case e of
        TargetError reason \<Rightarrow>
          (if reason \<in> {''invalid_target_syntax'', ''target_too_long'', ''forbidden_path'',
                        ''authority_mismatch''}
           then reason else ''invalid_request_target'')
      | ErrInvalid \<Rightarrow> ''invalid_request_target'')"

subsection \<open>Bytes\<close>

definition unreserved :: "char \<Rightarrow> bool" where
  "unreserved b \<longleftrightarrow>
     CHR ''a'' \<le> b \<and> b \<le> CHR ''z'' \<or> CHR ''A'' \<le> b \<and> b \<le> CHR ''Z'' \<or>
     CHR ''0'' \<le> b \<and> b \<le> CHR ''9'' \<or> b \<in> set ''-._~''"

definition method_byte :: "char \<Rightarrow> bool" where
  "method_byte b \<longleftrightarrow>
     CHR ''A'' \<le> b \<and> b \<le> CHR ''Z'' \<or> CHR ''0'' \<le> b \<and> b \<le> CHR ''9'' \<or>
     b \<in> set (''!#$%&'' @ [CHR 0x27] @ ''*+-.^_'' @ [CHR 0x60] @ ''|~'')"

definition validMethod :: "string \<Rightarrow> bool" where
  "validMethod s \<longleftrightarrow> s \<noteq> [] \<and> length s \<le> HTTPMethodBytes \<and> list_all method_byte s"

definition path_delims :: string where
  "path_delims = ''!$&'' @ [CHR 0x27] @ ''()*+,;=:@''"

definition upperHex :: string where
  "upperHex = ''0123456789ABCDEF''"

definition hex_escape :: "char \<Rightarrow> string" where
  "hex_escape b = [CHR ''%'', upperHex ! (byte_val b div 16), upperHex ! (byte_val b mod 16)]"

definition encodeUnicode :: "string \<Rightarrow> string" where
  "encodeUnicode raw =
     concat (map (\<lambda>b. if 128 \<le> byte_val b then hex_escape b else [b]) raw)"

definition uriComponent :: "string \<Rightarrow> bool \<Rightarrow> bool" where
  "uriComponent raw query \<longleftrightarrow>
     list_all (\<lambda>b. 128 \<le> byte_val b \<or> unreserved b \<or> b \<in> set (''/%'' @ path_delims)
                   \<or> query \<and> b = CHR ''?'') raw"

subsection \<open>The selector path compiler\<close>

fun canonical_bytes :: "string \<Rightarrow> http_error + string" where
  "canonical_bytes [] = Inr []"
| "canonical_bytes (c # cs) =
     (if c = CHR ''%'' then
        (case cs of
           h # l # rest \<Rightarrow>
             (case ParseUint 16 8 [h, l] of
                None \<Rightarrow> Inl ErrInvalid
              | Some n \<Rightarrow>
                  if unreserved (char_of n) then
                    (case canonical_bytes rest of Inl e \<Rightarrow> Inl e | Inr p \<Rightarrow> Inr (char_of n # p))
                  else Inl ErrInvalid)
         | _ \<Rightarrow> Inl ErrInvalid)
      else if \<not> unreserved c \<and> c \<noteq> CHR ''/'' \<and> c \<noteq> CHR ''@'' then Inl ErrInvalid
      else (case canonical_bytes cs of Inl e \<Rightarrow> Inl e | Inr p \<Rightarrow> Inr (c # p)))"

definition dot_segment :: "string \<Rightarrow> bool" where
  "dot_segment s \<longleftrightarrow> s = ''.'' \<or> s = ''..''"

definition canonicalPath :: "string \<Rightarrow> http_error + string" where
  "canonicalPath raw =
     (if raw = [] then Inr ''/''
      else if length raw > HTTPPathBytes \<or> hd raw \<noteq> CHR ''/'' then Inl ErrInvalid
      else (case canonical_bytes raw of
              Inl e \<Rightarrow> Inl e
            | Inr p \<Rightarrow>
                if Contains p ''//'' then Inl ErrInvalid
                else if list_ex dot_segment (Split CHR ''/'' p) then Inl ErrInvalid
                else Inr p))"

subsection \<open>The request path normaliser\<close>

definition forbidden_byte :: "char \<Rightarrow> bool" where
  "forbidden_byte b \<longleftrightarrow> byte_val b < 32 \<or> byte_val b = 127 \<or> b = CHR 0x5C"

fun request_bytes :: "string \<Rightarrow> http_error + string" where
  "request_bytes [] = Inr []"
| "request_bytes (c # cs) =
     (if c = CHR ''%'' then
        (case cs of
           h # l # rest \<Rightarrow>
             (case ParseUint 16 8 [h, l] of
                None \<Rightarrow> Inl (TargetError ''invalid_target_syntax'')
              | Some n \<Rightarrow>
                  if forbidden_byte (char_of n) then Inl (TargetError ''forbidden_path'')
                  else
                    (case request_bytes rest of
                       Inl e \<Rightarrow> Inl e
                     | Inr p \<Rightarrow>
                         Inr (if unreserved (char_of n) then char_of n # p
                              else hex_escape (char_of n) @ p)))
         | _ \<Rightarrow> Inl (TargetError ''invalid_target_syntax''))
      else if \<not> unreserved c \<and> c \<notin> set (CHR ''/'' # path_delims)
        then Inl (TargetError ''invalid_target_syntax'')
      else (case request_bytes cs of Inl e \<Rightarrow> Inl e | Inr p \<Rightarrow> Inr (c # p)))"

definition requestPath :: "string \<Rightarrow> http_error + string" where
  "requestPath raw =
     (if length raw > HTTPPathBytes then Inl (TargetError ''target_too_long'')
      else if raw = [] \<or> hd raw \<noteq> CHR ''/'' then Inl (TargetError ''invalid_target_syntax'')
      else (case request_bytes raw of
              Inl e \<Rightarrow> Inl e
            | Inr p \<Rightarrow>
                if list_ex dot_segment (Split CHR ''/'' p) then Inl (TargetError ''forbidden_path'')
                else Inr p))"

text \<open>The bytes a path segment denotes once its escapes are decoded.\<close>

fun pct_decode :: "string \<Rightarrow> string" where
  "pct_decode [] = []"
| "pct_decode (c # cs) =
     (case (c = CHR ''%'', cs) of
        (True, h # l # rest) \<Rightarrow>
          (case ParseUint 16 8 [h, l] of
             None \<Rightarrow> c # pct_decode cs
           | Some n \<Rightarrow> char_of n # pct_decode rest)
      | _ \<Rightarrow> c # pct_decode cs)"

subsection \<open>Hexadecimal escapes\<close>

lemma digit_value_upperHex: "i < 16 \<Longrightarrow> digit_value (upperHex ! i) = i"
proof -
  assume "i < 16"
  then have "i \<in> set [0..<16]" by simp
  moreover have "list_all (\<lambda>i. digit_value (upperHex ! i) = i) [0..<16]"
    by code_simp
  ultimately show ?thesis
    by (simp add: list_all_iff)
qed

lemma ParseUint_hex_pair:
  "ParseUint 16 8 [h, l] = Some n \<longleftrightarrow>
     digit_value h < 16 \<and> digit_value l < 16 \<and> n = digit_value h * 16 + digit_value l"
  by (auto simp: ParseUint_def split: if_splits)

lemma ParseUint_hex_escape [simp]:
  "ParseUint 16 8 [upperHex ! (byte_val b div 16), upperHex ! (byte_val b mod 16)] = Some (byte_val b)"
proof -
  have "byte_val b < 256"
    using of_char_mod_256 [of b, where ?'a = nat] by (metis mod_less_divisor zero_less_numeral)
  then have "byte_val b div 16 < 16" and "byte_val b mod 16 < 16"
    by (simp_all add: div_less_iff_less_mult)
  then show ?thesis
    by (simp only: ParseUint_hex_pair digit_value_upperHex) simp
qed

lemma hex_digit_not_slash: "digit_value c < 16 \<Longrightarrow> c \<noteq> CHR ''/'' \<and> c \<noteq> CHR ''%''"
  by (auto simp: digit_value_def less_eq_char_def)

lemma unreserved_not_delim [simp]:
  "\<not> unreserved CHR ''%''" "\<not> unreserved CHR ''/''" "\<not> unreserved CHR ''@''"
  by (simp_all add: unreserved_def less_eq_char_def)

lemma unreserved_not_forbidden: "unreserved c \<Longrightarrow> \<not> forbidden_byte c"
  by (auto simp: unreserved_def forbidden_byte_def less_eq_char_def)

lemma path_delims_not_slash [simp]: "CHR ''/'' \<notin> set path_delims" "CHR ''%'' \<notin> set path_delims"
  "CHR ''@'' \<in> set path_delims"
  by (simp_all add: path_delims_def)

lemma ParseUint_hex_char [simp]:
  "ParseUint 16 8 [h, l] = Some n \<Longrightarrow> byte_val (char_of n) = n"
  using ParseUint_bound [of 16 8 "[h, l]" n] by (simp add: of_char_of)

lemma request_bytes_escape:
  "\<not> forbidden_byte b \<Longrightarrow> request_bytes (hex_escape b @ p) =
     (case request_bytes p of Inl e \<Rightarrow> Inl e
      | Inr q \<Rightarrow> Inr (if unreserved b then b # q else hex_escape b @ q))"
  by (simp add: hex_escape_def split: sum.splits)

subsection \<open>Normal forms\<close>

lemma request_bytes_induct_ok [consumes 1, case_names Nil Escape Plain]:
  assumes "request_bytes raw = Inr p"
    and "P [] []"
    and "\<And>h l rest n q. \<lbrakk>ParseUint 16 8 [h, l] = Some n; \<not> forbidden_byte (char_of n);
        request_bytes rest = Inr q; P rest q\<rbrakk>
      \<Longrightarrow> P (CHR ''%'' # h # l # rest)
            (if unreserved (char_of n) then char_of n # q else hex_escape (char_of n) @ q)"
    and "\<And>c cs q. \<lbrakk>c \<noteq> CHR ''%''; unreserved c \<or> c \<in> set (CHR ''/'' # path_delims);
        request_bytes cs = Inr q; P cs q\<rbrakk> \<Longrightarrow> P (c # cs) (c # q)"
  shows "P raw p"
  using assms(1)
proof (induction raw arbitrary: p rule: request_bytes.induct)
  case 1
  then show ?case using assms(2) by simp
next
  case (2 c cs)
  show ?case
  proof (cases "c = CHR ''%''")
    case True
    with 2(3) obtain h l rest n q where
        cs: "cs = h # l # rest" and n: "ParseUint 16 8 [h, l] = Some n"
      and f: "\<not> forbidden_byte (char_of n)" and q: "request_bytes rest = Inr q"
      and p: "p = (if unreserved (char_of n) then char_of n # q else hex_escape (char_of n) @ q)"
      by (auto split: list.splits option.splits if_splits sum.splits)
    from 2(1) [OF True cs refl n f q] have "P rest q" .
    with n f q show ?thesis
      unfolding True cs p by (rule assms(3))
  next
    case False
    with 2(3) obtain q where q: "request_bytes cs = Inr q" and p: "p = c # q"
      and ok: "unreserved c \<or> c \<in> set (CHR ''/'' # path_delims)"
      by (auto split: if_splits sum.splits)
    from ok have "\<not> (\<not> unreserved c \<and> c \<notin> set (CHR ''/'' # path_delims))" by blast
    from 2(2) [OF False this q] have "P cs q" .
    with False ok q show ?thesis
      unfolding p by (rule assms(4))
  qed
qed

lemma request_bytes_idem: "request_bytes raw = Inr p \<Longrightarrow> request_bytes p = Inr p"
proof (induction rule: request_bytes_induct_ok)
  case (Escape h l rest n q)
  then show ?case by (auto simp: request_bytes_escape)
qed auto

lemma request_bytes_length: "request_bytes raw = Inr p \<Longrightarrow> length p \<le> length raw"
  by (induction rule: request_bytes_induct_ok) (simp_all add: hex_escape_def)

lemma request_bytes_slash: "request_bytes (CHR ''/'' # cs) = Inr p \<Longrightarrow> hd p = CHR ''/'' \<and> p \<noteq> []"
  by (auto split: if_splits sum.splits)

text \<open>A normalised request path is a fixed point of the normaliser.\<close>

lemma requestPath_idem: "requestPath raw = Inr p \<Longrightarrow> requestPath p = Inr p"
proof -
  assume a: "requestPath raw = Inr p"
  then have b: "request_bytes raw = Inr p" and d: "\<not> list_ex dot_segment (Split CHR ''/'' p)"
    and l: "length raw \<le> HTTPPathBytes" and ne: "raw \<noteq> []" and h: "hd raw = CHR ''/''"
    by (auto simp: requestPath_def split: if_splits sum.splits)
  obtain cs where "raw = CHR ''/'' # cs"
    using ne h by (cases raw) auto
  then have "hd p = CHR ''/'' \<and> p \<noteq> []"
    using b request_bytes_slash by blast
  then show ?thesis
    using request_bytes_length [OF b] request_bytes_idem [OF b] d l by (simp add: requestPath_def)
qed

lemma Split_Cons_ne:
  "c \<noteq> sep \<Longrightarrow> Split sep (c # cs) = (c # hd (Split sep cs)) # tl (Split sep cs)"
  by (cases "Split sep cs") auto

lemma map_Split_eq:
  "map f (Split sep s) = f (hd (Split sep s)) # map f (tl (Split sep s))"
  by (cases "Split sep s") simp_all

lemma map_Split_cong:
  assumes "map f (Split sep s) = map f (Split sep t)" and "\<And>w. f (u @ w) = g (f w)"
    and "\<And>w. f (v @ w) = g (f w)" and "sep \<notin> set u" and "sep \<notin> set v"
  shows "map f (Split sep (u @ s)) = map f (Split sep (v @ t))"
proof -
  have sp: "Split sep (x @ y) = (x @ hd (Split sep y)) # tl (Split sep y)" if "sep \<notin> set x" for x y
    using that by (induction x) (auto simp: Split_Cons_ne simp del: Split.simps(2))
  have "f (hd (Split sep s)) = f (hd (Split sep t))" "map f (tl (Split sep s)) = map f (tl (Split sep t))"
    using assms(1) by (simp_all add: map_Split_eq [of f])
  then show ?thesis
    using assms(2-5) by (simp add: sp)
qed

lemma pct_decode_plain: "c \<noteq> CHR ''%'' \<Longrightarrow> pct_decode (c # w) = c # pct_decode w"
  by simp

lemma pct_decode_escape: "pct_decode (hex_escape b @ w) = b # pct_decode w"
  by (simp add: hex_escape_def)

lemma hex_escape_no_slash: "CHR ''/'' \<notin> set (hex_escape b)"
proof -
  have "digit_value (upperHex ! (byte_val b div 16)) < 16"
    and "digit_value (upperHex ! (byte_val b mod 16)) < 16"
    using ParseUint_hex_escape [of b] unfolding ParseUint_hex_pair by blast+
  from this [THEN hex_digit_not_slash] show ?thesis
    by (auto simp: hex_escape_def)
qed

text \<open>Normalisation preserves the bytes each segment denotes.\<close>

lemma request_bytes_segments:
  "request_bytes raw = Inr p \<Longrightarrow>
     map pct_decode (Split CHR ''/'' p) = map pct_decode (Split CHR ''/'' raw)"
proof (induction rule: request_bytes_induct_ok)
  case (Escape h l rest n q)
  let ?b = "char_of n :: char"
  have hl: "CHR ''/'' \<notin> set [CHR ''%'', h, l]"
    using Escape(1) by (auto simp: ParseUint_hex_pair dest: hex_digit_not_slash)
  have raw: "pct_decode ([CHR ''%'', h, l] @ w) = ?b # pct_decode w" for w
    using Escape(1) by simp
  show ?case
  proof (cases "unreserved ?b")
    case True
    then have "?b \<noteq> CHR ''%''" "?b \<noteq> CHR ''/''"
      using unreserved_not_delim by metis+
    then show ?thesis
      using True map_Split_cong [OF Escape(4), of "[?b]" "(#) ?b" "[CHR ''%'', h, l]"] raw hl
      by (simp del: Split.simps pct_decode.simps add: pct_decode_plain)
  next
    case False
    then show ?thesis
      using map_Split_cong [OF Escape(4), of "hex_escape ?b" "(#) ?b" "[CHR ''%'', h, l]"] raw hl
      by (simp del: Split.simps pct_decode.simps add: pct_decode_escape hex_escape_no_slash)
  qed
next
  case (Plain c cs q)
  show ?case
  proof (cases "c = CHR ''/''")
    case True
    with Plain show ?thesis by simp
  next
    case False
    then show ?thesis
      using Plain(1) map_Split_cong [OF Plain(4), of "[c]" "(#) c" "[c]"]
      by (simp del: Split.simps pct_decode.simps add: pct_decode_plain)
  qed
qed simp

lemma requestPath_segments:
  assumes "requestPath raw = Inr p"
  shows "map pct_decode (Split CHR ''/'' p) = map pct_decode (Split CHR ''/'' raw)"
    and "\<not> list_ex dot_segment (Split CHR ''/'' p)"
  using assms
  by (auto simp: requestPath_def intro: request_bytes_segments split: if_splits sum.splits)

lemma requestPath_shape: "requestPath raw = Inr p \<Longrightarrow> p \<noteq> [] \<and> hd p = CHR ''/''"
  using requestPath_idem [of raw p] by (auto simp: requestPath_def split: if_splits)

text \<open>The selector compiler accepts a subset of the request paths, under the same normal form.\<close>

lemma canonical_bytes_request: "canonical_bytes raw = Inr p \<Longrightarrow> request_bytes raw = Inr p"
proof (induction raw arbitrary: p rule: canonical_bytes.induct)
  case (2 c cs)
  show ?case
  proof (cases "c = CHR ''%''")
    case True
    with 2(3) obtain h l rest n q where
        cs: "cs = h # l # rest" and n: "ParseUint 16 8 [h, l] = Some n"
      and u: "unreserved (char_of n)" and q: "canonical_bytes rest = Inr q" and p: "p = char_of n # q"
      by (auto split: list.splits option.splits if_splits sum.splits)
    from 2(1) [OF True cs refl n u q] have "request_bytes rest = Inr q" .
    then show ?thesis
      using n u unreserved_not_forbidden by (simp add: True cs p)
  next
    case False
    with 2 show ?thesis by (auto split: if_splits sum.splits)
  qed
qed simp

lemma canonical_bytes_chars:
  "canonical_bytes raw = Inr p \<Longrightarrow> c \<in> set p \<Longrightarrow> unreserved c \<or> c = CHR ''/'' \<or> c = CHR ''@''"
proof (induction raw arbitrary: p rule: canonical_bytes.induct)
  case (2 d cs)
  then show ?case
    by (cases "d = CHR ''%''") (fastforce split: list.splits option.splits if_splits sum.splits)+
qed simp

lemma canonical_bytes_fixed:
  "\<forall>c \<in> set p. unreserved c \<or> c = CHR ''/'' \<or> c = CHR ''@'' \<Longrightarrow> canonical_bytes p = Inr p"
  by (induction p) (auto split: sum.splits)

lemma canonicalPath_request:
  "canonicalPath raw = Inr p \<Longrightarrow> raw \<noteq> [] \<Longrightarrow> requestPath raw = Inr p"
  by (auto simp: canonicalPath_def requestPath_def dest: canonical_bytes_request
      split: if_splits sum.splits)

lemma canonicalPath_Inr:
  assumes "canonicalPath raw = Inr p"
  shows "p \<noteq> []" and "hd p = CHR ''/''" and "length p \<le> HTTPPathBytes"
    and "\<not> Contains p ''//''" and "\<not> list_ex dot_segment (Split CHR ''/'' p)"
    and "\<forall>c \<in> set p. unreserved c \<or> c = CHR ''/'' \<or> c = CHR ''@''"
proof -
  have r: "p = ''/'' \<or> requestPath raw = Inr p \<and> raw \<noteq> []"
    using assms canonicalPath_request by (auto simp: canonicalPath_def split: if_splits)
  then show "p \<noteq> []" and "hd p = CHR ''/''"
    using requestPath_shape by auto
  show "length p \<le> HTTPPathBytes"
    using r request_bytes_length
    by (fastforce simp: requestPath_def HTTPPathBytes_def split: if_splits sum.splits)
  show "\<not> Contains p ''//''" "\<not> list_ex dot_segment (Split CHR ''/'' p)"
    using assms by (auto simp: canonicalPath_def HasPrefix_def dot_segment_def split: if_splits sum.splits)
  show "\<forall>c \<in> set p. unreserved c \<or> c = CHR ''/'' \<or> c = CHR ''@''"
    using assms canonical_bytes_chars by (auto simp: canonicalPath_def split: if_splits sum.splits)
qed

lemma canonicalPath_idem: "canonicalPath raw = Inr p \<Longrightarrow> canonicalPath p = Inr p"
  using canonicalPath_Inr [of raw p] canonical_bytes_fixed [of p] by (simp add: canonicalPath_def)

end
