(* ===== verification/Net_Addr.thy ===== *)
theory Net_Addr
  imports Go_Strings
begin

text \<open>
  Go's \<open>net/netip\<close> as \<open>internal/httppolicy\<close> uses it: an address is invalid, a 32-bit IPv4 value,
  or a 128-bit IPv6 value with a zone. \<open>ParseAddr\<close>, \<open>String\<close>, \<open>Unmap\<close>, the class predicates and
  \<open>Prefix.Contains\<close> follow the library; \<open>SplitHostPort\<close> is that of package \<open>net\<close>.
\<close>

unbundle bit_operations_syntax

datatype addr = NoAddr | IPv4 "32 word" | IPv6 "128 word" string

definition addr_IsValid :: "addr \<Rightarrow> bool" where
  "addr_IsValid ip \<longleftrightarrow> ip \<noteq> NoAddr"

fun Is6 :: "addr \<Rightarrow> bool" where
  "Is6 (IPv6 w z) = True"
| "Is6 _ = False"

fun Zone :: "addr \<Rightarrow> string" where
  "Zone (IPv6 w z) = z"
| "Zone _ = []"

fun Unmap :: "addr \<Rightarrow> addr" where
  "Unmap (IPv6 w z) = (if drop_bit 32 w = 0xFFFF then IPv4 (ucast w) else IPv6 w z)"
| "Unmap ip = ip"

text \<open>The class predicates. Go evaluates them on the embedded IPv4 address of a mapped one.\<close>

fun addr_IsUnspecified :: "addr \<Rightarrow> bool" where
  "addr_IsUnspecified NoAddr = False"
| "addr_IsUnspecified (IPv4 w) = (w = 0)"
| "addr_IsUnspecified (IPv6 w z) = (w = 0 \<and> z = [])"

fun v4_IsLoopback :: "32 word \<Rightarrow> bool" where
  "v4_IsLoopback w = (drop_bit 24 w = 127)"

fun v4_IsMulticast :: "32 word \<Rightarrow> bool" where
  "v4_IsMulticast w = (drop_bit 28 w = 14)"

fun v4_IsLinkLocalUnicast :: "32 word \<Rightarrow> bool" where
  "v4_IsLinkLocalUnicast w = (drop_bit 16 w = 0xA9FE)"

fun v4_IsPrivate :: "32 word \<Rightarrow> bool" where
  "v4_IsPrivate w = (drop_bit 24 w = 10 \<or> drop_bit 20 w = 0xAC1 \<or> drop_bit 16 w = 0xC0A8)"

definition on_addr :: "(32 word \<Rightarrow> bool) \<Rightarrow> (128 word \<Rightarrow> bool) \<Rightarrow> addr \<Rightarrow> bool" where
  "on_addr p4 p6 ip =
     (case Unmap ip of NoAddr \<Rightarrow> False | IPv4 w \<Rightarrow> p4 w | IPv6 w z \<Rightarrow> p6 w)"

definition addr_IsLoopback :: "addr \<Rightarrow> bool" where
  "addr_IsLoopback = on_addr v4_IsLoopback (\<lambda>w. w = 1)"

definition addr_IsMulticast :: "addr \<Rightarrow> bool" where
  "addr_IsMulticast = on_addr v4_IsMulticast (\<lambda>w. drop_bit 120 w = 0xFF)"

definition addr_IsLinkLocalUnicast :: "addr \<Rightarrow> bool" where
  "addr_IsLinkLocalUnicast = on_addr v4_IsLinkLocalUnicast (\<lambda>w. drop_bit 118 w = 0x3FA)"

definition addr_IsPrivate :: "addr \<Rightarrow> bool" where
  "addr_IsPrivate = on_addr v4_IsPrivate (\<lambda>w. drop_bit 121 w = 0x7E)"

definition addr_IsGlobalUnicast :: "addr \<Rightarrow> bool" where
  "addr_IsGlobalUnicast ip \<longleftrightarrow>
     (case Unmap ip of
        NoAddr \<Rightarrow> False
      | IPv4 w \<Rightarrow> w \<noteq> 0 \<and> w \<noteq> 0xFFFFFFFF
      | IPv6 w z \<Rightarrow> \<not> (w = 0 \<and> z = [])) \<and>
     \<not> addr_IsLoopback ip \<and> \<not> addr_IsMulticast ip \<and> \<not> addr_IsLinkLocalUnicast ip"

datatype addr_prefix = Prefix4 "32 word" nat | Prefix6 "128 word" nat

fun prefix_Contains :: "addr_prefix \<Rightarrow> addr \<Rightarrow> bool" where
  "prefix_Contains (Prefix4 p n) (IPv4 w) = (drop_bit (32 - n) w = drop_bit (32 - n) p)"
| "prefix_Contains (Prefix6 p n) (IPv6 w z) =
     (z = [] \<and> drop_bit (128 - n) w = drop_bit (128 - n) p)"
| "prefix_Contains _ _ = False"

definition ip4 :: "nat \<Rightarrow> nat \<Rightarrow> nat \<Rightarrow> nat \<Rightarrow> 32 word" where
  "ip4 a b c d = ((of_nat a * 256 + of_nat b) * 256 + of_nat c) * 256 + of_nat d"

subsection \<open>Textual form\<close>

definition is_digit :: "char \<Rightarrow> bool" where
  "is_digit c \<longleftrightarrow> CHR ''0'' \<le> c \<and> c \<le> CHR ''9''"

text \<open>\<open>parseIPv4Fields\<close>: the octets read so far, the value and digit count of the current one.\<close>

fun ipv4_fields :: "nat list \<Rightarrow> nat \<Rightarrow> nat \<Rightarrow> string \<Rightarrow> nat list option" where
  "ipv4_fields fs val digLen [] = (if length fs < 3 then None else Some (fs @ [val]))"
| "ipv4_fields fs val digLen (c # cs) =
     (if is_digit c then
        (if digLen = 1 \<and> val = 0 then None
         else let v = val * 10 + digit_value c in
           if v > 255 then None else ipv4_fields fs v (Suc digLen) cs)
      else if c = CHR ''.'' then
        (if digLen = 0 \<or> cs = [] then None
         else if length fs = 3 then None
         else ipv4_fields (fs @ [val]) 0 0 cs)
      else None)"

definition octets_word :: "nat list \<Rightarrow> 32 word" where
  "octets_word fs = foldl (\<lambda>a b. a * 256 + of_nat b) 0 fs"

definition parseIPv4 :: "string \<Rightarrow> addr option" where
  "parseIPv4 s = map_option (\<lambda>fs. IPv4 (octets_word fs)) (ipv4_fields [] 0 0 s)"

definition is_hex :: "char \<Rightarrow> bool" where
  "is_hex c \<longleftrightarrow> digit_value c < 16"

text \<open>
  The group loop of \<open>parseIPv6\<close>. The first argument counts the 16-bit groups still free
  (\<open>(16 - i) / 2\<close>), \<open>gs\<close> holds the groups read, \<open>e\<close> the position of the ellipsis.
\<close>

fun ipv6_groups :: "nat \<Rightarrow> nat list \<Rightarrow> nat option \<Rightarrow> string \<Rightarrow> (nat list \<times> nat option \<times> string) option"
  where
  "ipv6_groups 0 gs e s = Some (gs, e, s)"
| "ipv6_groups (Suc n) gs e s =
     (let hex = takeWhile is_hex s; rest = dropWhile is_hex s in
      if length hex > 4 \<or> hex = [] then None
      else if rest \<noteq> [] \<and> hd rest = CHR ''.'' then
        (if e = None \<and> length gs \<noteq> 6 then None
         else if length gs > 6 then None
         else (case ipv4_fields [] 0 0 s of
                 Some [a, b, c, d] \<Rightarrow> Some (gs @ [a * 256 + b, c * 256 + d], e, [])
               | _ \<Rightarrow> None))
      else
        (case parse_digits 16 0 hex of
           None \<Rightarrow> None
         | Some acc \<Rightarrow>
             let gs' = gs @ [acc] in
             (case rest of
                [] \<Rightarrow> Some (gs', e, [])
              | c # more \<Rightarrow>
                  if c \<noteq> CHR '':'' \<or> more = [] then None
                  else if hd more = CHR '':'' then
                    (if e \<noteq> None then None
                     else if tl more = [] then Some (gs', Some (length gs'), [])
                     else ipv6_groups n gs' (Some (length gs')) (tl more))
                  else ipv6_groups n gs' e more)))"

definition groups_word :: "nat list \<Rightarrow> 128 word" where
  "groups_word gs = foldl (\<lambda>a g. a * 65536 + of_nat g) 0 gs"

definition parseIPv6_body :: "string \<Rightarrow> 128 word option" where
  "parseIPv6_body s =
     (let leading = HasPrefix s ''::''; s' = (if leading then drop 2 s else s) in
      if leading \<and> s' = [] then Some 0
      else
        (case ipv6_groups 8 [] (if leading then Some 0 else None) s' of
           None \<Rightarrow> None
         | Some (gs, e, rest) \<Rightarrow>
             if rest \<noteq> [] then None
             else if length gs < 8 then
               (case e of
                  None \<Rightarrow> None
                | Some k \<Rightarrow> Some (groups_word (take k gs @ replicate (8 - length gs) 0 @ drop k gs)))
             else if e \<noteq> None then None
             else Some (groups_word gs)))"

definition parseIPv6 :: "string \<Rightarrow> addr option" where
  "parseIPv6 s =
     (case Cut CHR ''%'' s of
        (body, zone, found) \<Rightarrow>
          if found \<and> zone = [] then None
          else map_option (\<lambda>w. IPv6 w zone) (parseIPv6_body body))"

definition ParseAddr :: "string \<Rightarrow> addr option" where
  "ParseAddr s =
     (case find (\<lambda>c. c \<in> {CHR ''.'', CHR '':'', CHR ''%''}) s of
        None \<Rightarrow> None
      | Some c \<Rightarrow>
          if c = CHR ''.'' then parseIPv4 s
          else if c = CHR '':'' then parseIPv6 s
          else None)"

definition word_octets :: "32 word \<Rightarrow> nat list" where
  "word_octets w = map (\<lambda>k. unat (drop_bit (8 * k) w AND 255)) [3, 2, 1, 0]"

definition word_groups :: "128 word \<Rightarrow> nat list" where
  "word_groups w = map (\<lambda>k. unat (drop_bit (16 * k) w AND 65535)) [7, 6, 5, 4, 3, 2, 1, 0]"

fun FormatHex :: "nat \<Rightarrow> string" where
  "FormatHex n =
     (if n < 16 then [hex_digits ! n] else FormatHex (n div 16) @ [hex_digits ! (n mod 16)])"

declare FormatHex.simps [simp del]

text \<open>The first longest run of at least two zero groups: \<open>zeroStart\<close> and \<open>zeroEnd\<close>.\<close>

definition zero_run :: "nat list \<Rightarrow> (nat \<times> nat) option" where
  "zero_run gs =
     foldl (\<lambda>best i.
        let l = length (takeWhile (\<lambda>g. g = 0) (drop i gs)) in
        if 2 \<le> l \<and> (case best of None \<Rightarrow> True | Some (a, b) \<Rightarrow> b - a < l)
        then Some (i, i + l) else best) None [0..<8]"

fun addr_String :: "addr \<Rightarrow> string" where
  "addr_String NoAddr = ''invalid IP''"
| "addr_String (IPv4 w) = Join CHR ''.'' (map FormatUint (word_octets w))"
| "addr_String (IPv6 w z) =
     (let gs = word_groups w in
      (if drop_bit 32 w = 0xFFFF
       then ''::ffff:'' @ Join CHR ''.'' (map FormatUint (word_octets (ucast w)))
       else
         (case zero_run gs of
            None \<Rightarrow> Join CHR '':'' (map FormatHex gs)
          | Some (a, b) \<Rightarrow>
              Join CHR '':'' (map FormatHex (take a gs)) @ ''::'' @
              Join CHR '':'' (map FormatHex (drop b gs)))) @
      (if z = [] then [] else CHR ''%'' # z))"

subsection \<open>Host and port\<close>

definition SplitHostPort :: "string \<Rightarrow> (string \<times> string) option" where
  "SplitHostPort hostport =
     (if CHR '':'' \<notin> set hostport then None
      else
        let port = rev (takeWhile (\<lambda>c. c \<noteq> CHR '':'') (rev hostport));
            i = length hostport - length port - 1
        in
        if hd hostport = CHR ''['' then
          (if CHR '']'' \<notin> set hostport then None
           else
             let end = length (takeWhile (\<lambda>c. c \<noteq> CHR '']'') hostport) in
             if Suc end \<noteq> i then None
             else if CHR ''['' \<in> set (drop 1 hostport) \<or> CHR '']'' \<in> set (drop (Suc end) hostport)
             then None
             else Some (take (end - 1) (drop 1 hostport), port))
        else if CHR '':'' \<in> set (take i hostport) then None
        else if CHR ''['' \<in> set hostport \<or> CHR '']'' \<in> set hostport then None
        else Some (take i hostport, port))"

end
