(* ===== verification/Http_Target.thy ===== *)
theory Http_Target
  imports Http_Path Net_Addr
begin

text \<open>
  Destinations of \<open>internal/httppolicy/target.go\<close>: canonical hosts, authorities and \<open>CONNECT\<close>
  targets; and the address classification of \<open>address.go\<close>, which is applied to every resolved
  address before a connection is made.

  \<open>golang.org/x/net/idna\<close> is not part of the repository: the function \<open>idna.Lookup.ToASCII\<close> is the
  parameter \<open>idna\<close> of every definition that reaches it, \<open>None\<close> its error. Its documented contract is
  that a result is an ASCII name.
\<close>

type_synonym idna = "string \<Rightarrow> string option"

record Destination =
  dest_host :: string
  dest_port :: u16

definition HTTPHostBytes :: nat where
  "HTTPHostBytes = 253"

definition host_delims :: string where
  "host_delims = [CHR 0x5C] @ ''/%@[]?# '' @ [CHR 0x09, CHR 0x0D, CHR 0x0A]"

definition canonicalHost :: "idna \<Rightarrow> string \<Rightarrow> http_error + string" where
  "canonicalHost idna raw =
     (if raw = [] \<or> length raw > HTTPHostBytes \<or> \<not> utf8_valid raw
         \<or> list_ex (\<lambda>c. c \<in> set host_delims) raw \<or> HasSuffix raw ''.'' then Inl ErrInvalid
      else
        (case ParseAddr raw of
           Some ip \<Rightarrow> if Zone ip \<noteq> [] then Inl ErrInvalid else Inr (addr_String (Unmap ip))
         | None \<Rightarrow>
             (case idna raw of
                None \<Rightarrow> Inl ErrInvalid
              | Some h \<Rightarrow>
                  if length h > HTTPHostBytes then Inl ErrInvalid
                  else
                    (case NormalizeHostname (ToLower h) of
                       None \<Rightarrow> Inl ErrInvalid
                     | Some n \<Rightarrow>
                         let label = last (Split CHR ''.'' n) in
                         if HasPrefix label ''0x'' \<and> Trim (drop 2 label) hex_digits = []
                         then Inl ErrInvalid else Inr n))))"

definition NewDestination :: "idna \<Rightarrow> string \<Rightarrow> u16 \<Rightarrow> http_error + Destination" where
  "NewDestination idna host port =
     (case canonicalHost idna host of
        Inl e \<Rightarrow> Inl ErrInvalid
      | Inr h \<Rightarrow> if port = 0 then Inl ErrInvalid else Inr \<lparr>dest_host = h, dest_port = port\<rparr>)"

definition parse_port :: "string \<Rightarrow> u16 option" where
  "parse_port p =
     (case ParseUint 10 16 p of
        None \<Rightarrow> None
      | Some n \<Rightarrow> if n = 0 \<or> FormatUint n \<noteq> p then None else Some (of_nat n))"

definition parseAuthority :: "idna \<Rightarrow> string \<Rightarrow> u16 \<Rightarrow> http_error + Destination" where
  "parseAuthority idna raw defaultPort =
     (if raw = [] \<or> length raw > HTTPHostBytes + 8 then Inl ErrInvalid
      else if HasPrefix raw ''['' \<or> CHR '':'' \<in> set raw then
        (case SplitHostPort raw of
           None \<Rightarrow>
             if defaultPort = 0 \<or> \<not> HasPrefix raw ''['' \<or> \<not> HasSuffix raw '']'' then Inl ErrInvalid
             else
               let h = take (length raw - 2) (drop 1 raw) in
               (case ParseAddr h of
                  None \<Rightarrow> Inl ErrInvalid
                | Some ip \<Rightarrow> if \<not> Is6 ip then Inl ErrInvalid
                             else NewDestination idna h defaultPort)
         | Some (h, p) \<Rightarrow>
             (case parse_port p of
                None \<Rightarrow> Inl ErrInvalid
              | Some port \<Rightarrow> NewDestination idna h port))
      else NewDestination idna raw defaultPort)"

definition ParseConnect :: "idna \<Rightarrow> string \<Rightarrow> string \<Rightarrow> http_error + Destination" where
  "ParseConnect idna authority hostHeader =
     (case (parseAuthority idna authority 0, parseAuthority idna hostHeader 0) of
        (Inr d, Inr h) \<Rightarrow> if d = h then Inr d else Inl ErrInvalid
      | _ \<Rightarrow> Inl ErrInvalid)"

subsection \<open>Well-formed destinations\<close>

definition valid_destination :: "Destination \<Rightarrow> bool" where
  "valid_destination d \<longleftrightarrow> dest_host d \<noteq> [] \<and> dest_port d \<noteq> 0"

lemma Join_nonempty: "w \<noteq> [] \<Longrightarrow> Join sep (w # ws) \<noteq> []"
  by (cases ws) simp_all

lemma FormatHex_nonempty [simp]: "FormatHex n \<noteq> []"
  by (subst FormatHex.simps) simp

lemma addr_String_nonempty: "addr_String ip \<noteq> []"
proof (cases ip)
  case (IPv6 w z)
  have "Join CHR '':'' (map FormatHex (word_groups w)) \<noteq> []"
    by (simp add: word_groups_def Join_nonempty)
  with IPv6 show ?thesis
    by (auto simp: Let_def split: option.splits)
qed (simp_all add: word_octets_def Join_nonempty)

lemma canonicalHost_nonempty: "canonicalHost idna raw = Inr h \<Longrightarrow> h \<noteq> []"
  using addr_String_nonempty NormalizeHostname_SomeD(2)
  by (auto simp: canonicalHost_def Let_def split: if_splits option.splits)

lemma NewDestination_iff:
  "NewDestination idna host port = Inr d \<longleftrightarrow>
     canonicalHost idna host = Inr (dest_host d) \<and> port = dest_port d \<and> dest_port d \<noteq> 0"
  by (cases d) (auto simp: NewDestination_def split: sum.splits)

lemma NewDestination_valid: "NewDestination idna host port = Inr d \<Longrightarrow> valid_destination d"
  using canonicalHost_nonempty by (auto simp: NewDestination_iff valid_destination_def)

lemma parseAuthority_valid: "parseAuthority idna raw p = Inr d \<Longrightarrow> valid_destination d"
  by (auto simp: parseAuthority_def Let_def intro: NewDestination_valid
      split: if_splits option.splits prod.splits)

lemma parse_port_SomeD:
  assumes "parse_port p = Some w"
  shows "w \<noteq> 0" and "p = FormatUint (unat w)"
proof -
  from assms obtain n where n: "ParseUint 10 16 p = Some n" "n \<noteq> 0" "p = FormatUint n" "w = of_nat n"
    by (auto simp: parse_port_def split: option.splits if_splits)
  have "n < 2 ^ 16"
    using ParseUint_bound [OF n(1)] .
  then have u: "unat w = n"
    unfolding n(4) by (simp add: unat_of_nat)
  with n show "w \<noteq> 0" and "p = FormatUint (unat w)"
    by auto
qed

end
