(* ===== verification/Http_Address.thy ===== *)
theory Http_Address
  imports Http_Target
begin

text \<open>
  \<open>internal/httppolicy/address.go\<close>: the class of an address and the check of a complete DNS
  answer against the destination, the gateway's own listeners and the private-network permission.
  A mapped IPv4 address never escapes the class of the address it embeds, and the check admits a
  destination exactly when every answer is public (or private with permission) and none is a
  listener of the gateway.
\<close>

unbundle bit_operations_syntax

datatype HTTPDecisionReason =
    HTTPReasonNone
  | HTTPReasonDestinationBlock
  | HTTPReasonTunnelAllow
  | HTTPReasonIntercept
  | HTTPReasonRequestBlock
  | HTTPReasonRequestAllow
  | HTTPReasonDefault
  | HTTPReasonCredentialConflict
  | HTTPReasonCredentialUnavailable
  | HTTPReasonAddressForbidden
  | HTTPReasonPrivateRequired

datatype AddressClass = AddressPublic | AddressPrivate | AddressForbidden

record AddressFacts =
  facts_Complete :: bool
  facts_Addresses :: "addr list"
  facts_GatewayListeners :: "(addr \<times> u16) list"

definition HTTPAddressFacts :: nat where
  "HTTPAddressFacts = 64"

definition forbiddenPrefixes :: "addr_prefix list" where
  "forbiddenPrefixes =
     [Prefix4 (ip4 0 0 0 0) 8, Prefix4 (ip4 100 64 0 0) 10,
      Prefix4 (ip4 192 0 0 0) 24, Prefix4 (ip4 192 0 2 0) 24,
      Prefix4 (ip4 192 88 99 0) 24, Prefix4 (ip4 198 18 0 0) 15,
      Prefix4 (ip4 198 51 100 0) 24, Prefix4 (ip4 203 0 113 0) 24, Prefix4 (ip4 240 0 0 0) 4,
      Prefix6 0x20010000000000000000000000000000 23,
      Prefix6 0x20010DB8000000000000000000000000 32,
      Prefix6 0x20020000000000000000000000000000 16,
      Prefix6 0x3FFF0000000000000000000000000000 20]"

definition metadata_address :: addr where
  "metadata_address = IPv6 0xFD000EC2000000000000000000000254 []"

definition global_ipv6 :: addr_prefix where
  "global_ipv6 = Prefix6 0x20000000000000000000000000000000 3"

definition ClassifyAddress :: "addr \<Rightarrow> AddressClass" where
  "ClassifyAddress addr =
     (if \<not> addr_IsValid addr \<or> Zone addr \<noteq> [] then AddressForbidden
      else
        let ip = Unmap addr in
        if ip = metadata_address \<or> addr_IsUnspecified ip \<or> addr_IsMulticast ip
           \<or> addr_IsLinkLocalUnicast ip then AddressForbidden
        else if list_ex (\<lambda>p. prefix_Contains p ip) forbiddenPrefixes then AddressForbidden
        else if addr_IsPrivate ip \<or> addr_IsLoopback ip then AddressPrivate
        else if Is6 ip \<and> \<not> prefix_Contains global_ipv6 ip then AddressForbidden
        else if \<not> addr_IsGlobalUnicast ip then AddressForbidden
        else AddressPublic)"

definition listener_conflict :: "Destination \<Rightarrow> addr \<Rightarrow> addr \<times> u16 \<Rightarrow> bool" where
  "listener_conflict d ip l \<longleftrightarrow>
     (addr_IsUnspecified (fst l) \<or> Unmap ip = Unmap (fst l)) \<and> dest_port d = snd l"

text \<open>The address loop: the two flags it accumulates, or the error that ends it.\<close>

fun scan_addresses ::
  "Destination \<Rightarrow> addr option \<Rightarrow> (addr \<times> u16) list \<Rightarrow> bool \<Rightarrow> bool \<Rightarrow> addr list \<Rightarrow>
   http_error + bool \<times> bool" where
  "scan_addresses d literal ls needsPrivate forbidden [] = Inr (needsPrivate, forbidden)"
| "scan_addresses d literal ls needsPrivate forbidden (ip # ips) =
     (if literal \<noteq> None \<and> Some (Unmap ip) \<noteq> literal then Inl ErrInvalid
      else
        scan_addresses d literal ls
          (needsPrivate \<or> ClassifyAddress ip = AddressPrivate)
          (forbidden \<or> ClassifyAddress ip = AddressForbidden \<or> list_ex (listener_conflict d ip) ls)
          ips)"

definition valid_listener :: "addr \<times> u16 \<Rightarrow> bool" where
  "valid_listener l \<longleftrightarrow> addr_IsValid (fst l) \<and> snd l \<noteq> 0 \<and> Zone (fst l) = []"

definition checkAddresses ::
  "Destination \<Rightarrow> AddressFacts \<Rightarrow> bool \<Rightarrow> http_error + HTTPDecisionReason" where
  "checkAddresses d f private =
     (if \<not> facts_Complete f \<or> facts_Addresses f = [] \<or> length (facts_Addresses f) > HTTPAddressFacts
         \<or> length (facts_GatewayListeners f) > HTTPAddressFacts then Inl ErrInvalid
      else if \<not> list_all valid_listener (facts_GatewayListeners f) then Inl ErrInvalid
      else
        (case scan_addresses d (ParseAddr (dest_host d)) (facts_GatewayListeners f) False False
                (facts_Addresses f) of
           Inl e \<Rightarrow> Inl e
         | Inr (needsPrivate, forbidden) \<Rightarrow>
             if forbidden then Inr HTTPReasonAddressForbidden
             else if needsPrivate \<and> \<not> private then Inr HTTPReasonPrivateRequired
             else Inr HTTPReasonNone))"

subsection \<open>What the check admits\<close>

definition facts_usable :: "Destination \<Rightarrow> AddressFacts \<Rightarrow> bool" where
  "facts_usable d f \<longleftrightarrow>
     facts_Complete f \<and> facts_Addresses f \<noteq> [] \<and> length (facts_Addresses f) \<le> HTTPAddressFacts \<and>
     length (facts_GatewayListeners f) \<le> HTTPAddressFacts \<and>
     list_all valid_listener (facts_GatewayListeners f) \<and>
     (\<forall>ip \<in> set (facts_Addresses f).
        ParseAddr (dest_host d) = None \<or> ParseAddr (dest_host d) = Some (Unmap ip))"

definition address_admissible :: "Destination \<Rightarrow> AddressFacts \<Rightarrow> bool \<Rightarrow> addr \<Rightarrow> bool" where
  "address_admissible d f private ip \<longleftrightarrow>
     (ClassifyAddress ip = AddressPublic \<or> ClassifyAddress ip = AddressPrivate \<and> private) \<and>
     (\<forall>l \<in> set (facts_GatewayListeners f). \<not> listener_conflict d ip l)"

lemma scan_addresses_iff:
  "scan_addresses d lit ls np fb ips = Inr (np', fb') \<longleftrightarrow>
     (\<forall>ip \<in> set ips. lit = None \<or> lit = Some (Unmap ip)) \<and>
     np' = (np \<or> (\<exists>ip \<in> set ips. ClassifyAddress ip = AddressPrivate)) \<and>
     fb' = (fb \<or> (\<exists>ip \<in> set ips. ClassifyAddress ip = AddressForbidden
                     \<or> (\<exists>l \<in> set ls. listener_conflict d ip l)))"
  by (induction ips arbitrary: np fb) (auto simp: list_ex_iff)

lemma scan_addresses_Inl:
  "scan_addresses d lit ls np fb ips = Inl e \<longleftrightarrow>
     e = ErrInvalid \<and> (\<exists>ip \<in> set ips. lit \<noteq> None \<and> lit \<noteq> Some (Unmap ip))"
  by (induction ips arbitrary: np fb) auto

lemma checkAddresses_eq:
  "checkAddresses d f private =
     (if \<not> facts_usable d f then Inl ErrInvalid
      else if \<exists>ip \<in> set (facts_Addresses f). ClassifyAddress ip = AddressForbidden
                \<or> (\<exists>l \<in> set (facts_GatewayListeners f). listener_conflict d ip l)
        then Inr HTTPReasonAddressForbidden
      else if (\<exists>ip \<in> set (facts_Addresses f). ClassifyAddress ip = AddressPrivate) \<and> \<not> private
        then Inr HTTPReasonPrivateRequired
      else Inr HTTPReasonNone)"
proof (cases "scan_addresses d (ParseAddr (dest_host d)) (facts_GatewayListeners f) False False
    (facts_Addresses f)")
  case (Inl e)
  then have "e = ErrInvalid" and "\<not> facts_usable d f"
    by (auto simp: scan_addresses_Inl facts_usable_def)
  then show ?thesis
    unfolding checkAddresses_def Inl by simp
next
  case (Inr r)
  obtain np fb where r: "r = (np, fb)" by fastforce
  from Inr [unfolded r scan_addresses_iff]
  have u: "facts_usable d f \<longleftrightarrow>
      facts_Complete f \<and> facts_Addresses f \<noteq> [] \<and> length (facts_Addresses f) \<le> HTTPAddressFacts \<and>
      length (facts_GatewayListeners f) \<le> HTTPAddressFacts \<and>
      list_all valid_listener (facts_GatewayListeners f)"
    and np: "np = (\<exists>ip \<in> set (facts_Addresses f). ClassifyAddress ip = AddressPrivate)"
    and fb: "fb = (\<exists>ip \<in> set (facts_Addresses f). ClassifyAddress ip = AddressForbidden
                \<or> (\<exists>l \<in> set (facts_GatewayListeners f). listener_conflict d ip l))"
    by (auto simp: facts_usable_def)
  show ?thesis
    unfolding checkAddresses_def Inr r u np [symmetric] fb [symmetric] by auto
qed

lemma checkAddresses_admits_iff:
  "checkAddresses d f private = Inr HTTPReasonNone \<longleftrightarrow>
     facts_usable d f \<and> (\<forall>ip \<in> set (facts_Addresses f). address_admissible d f private ip)"
proof -
  have "ClassifyAddress ip = AddressPublic \<longleftrightarrow>
      ClassifyAddress ip \<noteq> AddressPrivate \<and> ClassifyAddress ip \<noteq> AddressForbidden" for ip
    by (cases "ClassifyAddress ip") simp_all
  then show ?thesis
    by (auto simp: checkAddresses_eq address_admissible_def)
qed

subsection \<open>Mapped addresses\<close>

lemma Unmap_idem [simp]: "Unmap (Unmap ip) = Unmap ip"
  by (cases ip) simp_all

lemma ClassifyAddress_Unmap: "Zone ip = [] \<Longrightarrow> ClassifyAddress (Unmap ip) = ClassifyAddress ip"
proof -
  assume "Zone ip = []"
  moreover have "Zone ip = [] \<Longrightarrow> Zone (Unmap ip) = []" and "addr_IsValid (Unmap ip) = addr_IsValid ip"
    by (cases ip; simp add: addr_IsValid_def)+
  ultimately show ?thesis
    by (simp add: ClassifyAddress_def)
qed

lemma ClassifyAddress_publicD:
  assumes "ClassifyAddress ip = AddressPublic"
  shows "addr_IsGlobalUnicast ip" and "\<not> addr_IsPrivate ip" and "\<not> addr_IsLoopback ip"
    and "\<not> addr_IsLinkLocalUnicast ip" and "\<not> addr_IsMulticast ip"
    and "Is6 (Unmap ip) \<longrightarrow> prefix_Contains global_ipv6 (Unmap ip)"
    and "p \<in> set forbiddenPrefixes \<Longrightarrow> \<not> prefix_Contains p (Unmap ip)"
  using assms
  by (auto simp: ClassifyAddress_def Let_def addr_IsGlobalUnicast_def addr_IsPrivate_def
      addr_IsLoopback_def addr_IsLinkLocalUnicast_def addr_IsMulticast_def on_addr_def list_ex_iff
      simp del: Unmap.simps split: if_splits)

end
