(* ===== verification/Http_Policy.thy ===== *)
theory Http_Policy
  imports Http_Address
begin

text \<open>
  \<open>internal/httppolicy/policy.go\<close> over the wire types of \<open>internal/contract/http_policy.go\<close>: host
  and origin scopes, the compiler of a grant policy, its matching of destinations and requests, the
  credential boundaries and their containment, and the projection of a compiled policy back to its
  wire form (\<open>projection.go\<close>). Grant types and path kinds are open strings in the source, and stay
  strings here so that the rejecting default branches are modelled.
\<close>

subsection \<open>Wire types\<close>

abbreviation "HTTPBlockDestination \<equiv> ''block_destination''"
abbreviation "HTTPAllowTunnel \<equiv> ''allow_tunnel''"
abbreviation "HTTPBlockRequests \<equiv> ''block_requests''"
abbreviation "HTTPAllowRequests \<equiv> ''allow_requests''"
abbreviation "HTTPPathAny \<equiv> ''any''"
abbreviation "HTTPPathExact \<equiv> ''exact''"
abbreviation "HTTPPathPrefix \<equiv> ''segment_prefix''"

definition HTTPPolicyVersion :: int where
  "HTTPPolicyVersion = 1"

definition HTTPPolicyMethods :: nat where
  "HTTPPolicyMethods = 32"

definition HTTPPolicyOrigins :: nat where
  "HTTPPolicyOrigins = 64"

record HTTPDestinationSelector =
  ds_Host :: string
  ds_Port :: u16

record HTTPOriginSelector =
  os_Scheme :: string
  os_Host :: string
  os_Port :: u16

record HTTPMethods =
  hm_Any :: bool
  hm_Values :: "string list option"

record HTTPPathSelector =
  ps_Kind :: string
  ps_Value :: string

record HTTPRequestSelector =
  rs_Origin :: HTTPOriginSelector
  rs_Methods :: HTTPMethods
  rs_Path :: HTTPPathSelector

record HTTPPolicy =
  hp_Version :: int
  hp_Type :: string
  hp_Destination :: "HTTPDestinationSelector option"
  hp_Request :: "HTTPRequestSelector option"
  hp_AllowPrivate :: "bool option"
  hp_CredentialID :: "string option"

record HTTPRevisionRef =
  ref_ID :: string
  ref_Revision :: u64

definition validRef :: "HTTPRevisionRef \<Rightarrow> bool" where
  "validRef r \<longleftrightarrow> ValidAuditID (ref_ID r) \<and> 0 < ref_Revision r"

record Request =
  rq_destination :: Destination
  rq_scheme :: string
  rq_method :: string
  rq_path :: string
  rq_query :: string
  rq_escapedPath :: string
  rq_forceQuery :: bool

subsection \<open>Host and origin scopes\<close>

record hostScope =
  hs_host :: string
  hs_wildcard :: bool

definition parseHostScope :: "idna \<Rightarrow> string \<Rightarrow> http_error + hostScope" where
  "parseHostScope idna raw =
     (let wildcard = HasPrefix raw ''*.''; raw' = (if wildcard then drop 2 raw else raw) in
      case canonicalHost idna raw' of
        Inl e \<Rightarrow> Inl ErrInvalid
      | Inr host \<Rightarrow>
          if wildcard \<and> (CHR '':'' \<in> set host \<or> CHR ''.'' \<notin> set host
                          \<or> Trim host (decimal_digits @ ''.'') = [])
          then Inl ErrInvalid
          else Inr \<lparr>hs_host = host, hs_wildcard = wildcard\<rparr>)"

definition hostScope_matches :: "hostScope \<Rightarrow> string \<Rightarrow> bool" where
  "hostScope_matches s host \<longleftrightarrow>
     \<not> hs_wildcard s \<and> host = hs_host s \<or> hs_wildcard s \<and> HasSuffix host (''.'' @ hs_host s)"

definition hostScope_covers :: "hostScope \<Rightarrow> hostScope \<Rightarrow> bool" where
  "hostScope_covers s other =
     (if \<not> hs_wildcard other then hostScope_matches s (hs_host other)
      else hs_wildcard s \<and> (hs_host s = hs_host other \<or> HasSuffix (hs_host other) (''.'' @ hs_host s)))"

record originScope =
  sc_host :: hostScope
  sc_scheme :: string
  sc_port :: u16

definition parseOrigin :: "idna \<Rightarrow> HTTPOriginSelector \<Rightarrow> http_error + originScope" where
  "parseOrigin idna s =
     (case parseHostScope idna (os_Host s) of
        Inl e \<Rightarrow> Inl ErrInvalid
      | Inr h \<Rightarrow>
          if os_Port s = 0 \<or> os_Scheme s \<noteq> ''http'' \<and> os_Scheme s \<noteq> ''https'' then Inl ErrInvalid
          else Inr \<lparr>sc_host = h, sc_scheme = os_Scheme s, sc_port = os_Port s\<rparr>)"

definition originScope_covers :: "originScope \<Rightarrow> originScope \<Rightarrow> bool" where
  "originScope_covers s other \<longleftrightarrow>
     sc_scheme s = sc_scheme other \<and> sc_port s = sc_port other \<and>
     hostScope_covers (sc_host s) (sc_host other)"

subsection \<open>Compiled policies\<close>

record Policy =
  p_valid :: bool
  p_kind :: string
  p_host :: hostScope
  p_port :: u16
  p_scheme :: string
  p_methods :: "string list"
  p_pathKind :: string
  p_path :: string
  p_private :: bool
  p_credential :: string

definition zero_Policy :: Policy where
  "zero_Policy =
     \<lparr>p_valid = False, p_kind = [], p_host = \<lparr>hs_host = [], hs_wildcard = False\<rparr>, p_port = 0,
      p_scheme = [], p_methods = [], p_pathKind = [], p_path = [], p_private = False,
      p_credential = []\<rparr>"

text \<open>\<open>for i, m := range methods { ... i > 0 && m == methods[i-1] ... }\<close>\<close>

fun adjacent_distinct :: "'a list \<Rightarrow> bool" where
  "adjacent_distinct (x # y # ys) = (x \<noteq> y \<and> adjacent_distinct (y # ys))"
| "adjacent_distinct _ = True"

definition compileMethods :: "HTTPMethods \<Rightarrow> http_error + string list" where
  "compileMethods m =
     (if hm_Any m then (if hm_Values m \<noteq> None then Inl ErrInvalid else Inr [])
      else
        let vs = (case hm_Values m of None \<Rightarrow> [] | Some v \<Rightarrow> v) in
        if vs = [] \<or> length vs > HTTPPolicyMethods then Inl ErrInvalid
        else
          let ms = sort vs in
          if list_all (\<lambda>m. validMethod m \<and> m \<noteq> ''CONNECT'') ms \<and> adjacent_distinct ms
          then Inr ms else Inl ErrInvalid)"

definition compilePath :: "HTTPPathSelector \<Rightarrow> http_error + string" where
  "compilePath p =
     (if ps_Kind p = HTTPPathAny then (if ps_Value p \<noteq> [] then Inl ErrInvalid else Inr [])
      else if ps_Kind p = HTTPPathExact \<or> ps_Kind p = HTTPPathPrefix then
        (if ps_Value p = [] then Inl ErrInvalid
         else
           (case canonicalPath (ps_Value p) of
              Inl e \<Rightarrow> Inl e
            | Inr path \<Rightarrow>
                Inr (if ps_Kind p = HTTPPathPrefix \<and> path \<noteq> ''/'' then TrimSuffix path ''/'' else path)))
      else Inl ErrInvalid)"

definition Compile :: "idna \<Rightarrow> HTTPPolicy \<Rightarrow> http_error + Policy" where
  "Compile idna p =
     (if hp_Version p \<noteq> HTTPPolicyVersion then Inl ErrInvalid
      else
        let allow = (hp_Type p = HTTPAllowTunnel \<or> hp_Type p = HTTPAllowRequests) in
        if \<not> allow \<and> hp_AllowPrivate p \<noteq> None \<or> hp_Type p \<noteq> HTTPAllowRequests \<and> hp_CredentialID p \<noteq> None
        then Inl ErrInvalid
        else if (case hp_CredentialID p of None \<Rightarrow> False | Some c \<Rightarrow> \<not> ValidAuditID c)
        then Inl ErrInvalid
        else
          let c = zero_Policy
                \<lparr>p_valid := True, p_kind := hp_Type p,
                 p_private := (case hp_AllowPrivate p of None \<Rightarrow> False | Some b \<Rightarrow> b),
                 p_credential := (case hp_CredentialID p of None \<Rightarrow> [] | Some i \<Rightarrow> i)\<rparr> in
          if hp_Type p = HTTPBlockDestination \<or> hp_Type p = HTTPAllowTunnel then
            (case hp_Destination p of
               None \<Rightarrow> Inl ErrInvalid
             | Some d \<Rightarrow>
                 if hp_Request p \<noteq> None \<or> ds_Port d = 0 then Inl ErrInvalid
                 else
                   (case parseHostScope idna (ds_Host d) of
                      Inl e \<Rightarrow> Inl e
                    | Inr h \<Rightarrow> Inr (c\<lparr>p_host := h, p_port := ds_Port d\<rparr>)))
          else if hp_Type p = HTTPBlockRequests \<or> hp_Type p = HTTPAllowRequests then
            (case hp_Request p of
               None \<Rightarrow> Inl ErrInvalid
             | Some r \<Rightarrow>
                 if hp_Destination p \<noteq> None then Inl ErrInvalid
                 else
                   (case parseOrigin idna (rs_Origin r) of
                      Inl e \<Rightarrow> Inl e
                    | Inr origin \<Rightarrow>
                        if p_credential c \<noteq> [] \<and> sc_scheme origin \<noteq> ''https'' then Inl ErrInvalid
                        else
                          (case compileMethods (rs_Methods r) of
                             Inl e \<Rightarrow> Inl e
                           | Inr ms \<Rightarrow>
                               (case compilePath (rs_Path r) of
                                  Inl e \<Rightarrow> Inl e
                                | Inr path \<Rightarrow>
                                    Inr (c\<lparr>p_host := sc_host origin, p_port := sc_port origin,
                                           p_scheme := sc_scheme origin, p_methods := ms,
                                           p_pathKind := ps_Kind (rs_Path r), p_path := path\<rparr>)))))
          else Inl ErrInvalid)"

definition matchesDestination :: "Policy \<Rightarrow> Destination \<Rightarrow> bool" where
  "matchesDestination p d \<longleftrightarrow> dest_port d = p_port p \<and> hostScope_matches (p_host p) (dest_host d)"

definition matchesRequest :: "Policy \<Rightarrow> Request \<Rightarrow> bool" where
  "matchesRequest p r =
     (if \<not> matchesDestination p (rq_destination r) \<or> p_scheme p \<noteq> rq_scheme r
         \<or> length (p_methods p) > 0 \<and> rq_method r \<notin> set (p_methods p) then False
      else if p_pathKind p = HTTPPathAny then True
      else if p_pathKind p = HTTPPathExact then p_path p = rq_path r
      else if p_pathKind p = HTTPPathPrefix then
        p_path p = ''/'' \<or> p_path p = rq_path r \<or> HasPrefix (rq_path r) (p_path p @ ''/'')
      else False)"

subsection \<open>Credential boundaries\<close>

record Credential =
  cr_Ref :: HTTPRevisionRef
  cr_Available :: bool
  cr_Origins :: "HTTPOriginSelector list"

record compiledCredential =
  cc_ref :: HTTPRevisionRef
  cc_available :: bool
  cc_origins :: "originScope list"

definition compileCredential :: "idna \<Rightarrow> Credential \<Rightarrow> http_error + compiledCredential" where
  "compileCredential idna c =
     (if \<not> validRef (cr_Ref c) \<or> cr_Origins c = [] \<or> length (cr_Origins c) > HTTPPolicyOrigins
      then Inl ErrInvalid
      else
        (case map_result (\<lambda>sel. case parseOrigin idna sel of
                                 Inl e \<Rightarrow> Inl ErrInvalid
                               | Inr origin \<Rightarrow>
                                   if sc_scheme origin \<noteq> ''https'' then Inl ErrInvalid else Inr origin)
                (cr_Origins c) of
           Inl e \<Rightarrow> Inl e
         | Inr os \<Rightarrow> Inr \<lparr>cc_ref = cr_Ref c, cc_available = cr_Available c, cc_origins = os\<rparr>))"

definition policy_origin :: "Policy \<Rightarrow> originScope" where
  "policy_origin p = \<lparr>sc_host = p_host p, sc_scheme = p_scheme p, sc_port = p_port p\<rparr>"

definition compiledCredential_covers :: "compiledCredential \<Rightarrow> Policy \<Rightarrow> bool" where
  "compiledCredential_covers c p \<longleftrightarrow>
     list_ex (\<lambda>boundary. originScope_covers boundary (policy_origin p)) (cc_origins c)"

definition CredentialContains :: "idna \<Rightarrow> Credential \<Rightarrow> Policy \<Rightarrow> http_error + bool" where
  "CredentialContains idna c p =
     (case compileCredential idna c of
        Inl e \<Rightarrow> Inl ErrInvalid
      | Inr boundary \<Rightarrow>
          if \<not> p_valid p \<or> p_kind p \<noteq> HTTPAllowRequests \<or> p_scheme p \<noteq> ''https'' then Inl ErrInvalid
          else Inr (compiledCredential_covers boundary p))"

definition request_origin :: "Request \<Rightarrow> originScope" where
  "request_origin r =
     \<lparr>sc_host = \<lparr>hs_host = dest_host (rq_destination r), hs_wildcard = False\<rparr>,
      sc_scheme = rq_scheme r, sc_port = dest_port (rq_destination r)\<rparr>"

definition CredentialAllowsRequest :: "idna \<Rightarrow> Credential \<Rightarrow> Request \<Rightarrow> http_error + bool" where
  "CredentialAllowsRequest idna c r =
     (case compileCredential idna c of
        Inl e \<Rightarrow> Inl ErrInvalid
      | Inr boundary \<Rightarrow>
          if rq_scheme r \<noteq> ''https'' \<or> rq_path r = [] then Inl ErrInvalid
          else Inr (list_ex (\<lambda>scope. originScope_covers scope (request_origin r)) (cc_origins boundary)))"

subsection \<open>Scopes as sets of hosts\<close>

lemma hostScope_matches_wild: "hs_wildcard s \<Longrightarrow> hostScope_matches s h = HasSuffix h (''.'' @ hs_host s)"
  and hostScope_matches_exact: "\<not> hs_wildcard s \<Longrightarrow> hostScope_matches s h = (h = hs_host s)"
  by (auto simp: hostScope_matches_def)

lemma hostScope_covers_sound:
  assumes "hostScope_covers s other" and "hostScope_matches other h"
  shows "hostScope_matches s h"
proof (cases "hs_wildcard other")
  case True
  with assms have s: "hs_wildcard s" and h: "HasSuffix h (''.'' @ hs_host other)"
    and c: "hs_host s = hs_host other \<or> HasSuffix (hs_host other) (''.'' @ hs_host s)"
    by (auto simp: hostScope_covers_def hostScope_matches_def)
  have "HasSuffix h (''.'' @ hs_host s)"
    using c
  proof
    assume "HasSuffix (hs_host other) (''.'' @ hs_host s)"
    then have "HasSuffix (''.'' @ hs_host other) (''.'' @ hs_host s)"
      unfolding HasSuffix_iff by (metis append.assoc)
    with h show ?thesis by (rule HasSuffix_trans)
  qed (use h in simp)
  with s show ?thesis by (simp add: hostScope_matches_def)
next
  case False
  with assms show ?thesis
    by (simp add: hostScope_covers_def hostScope_matches_def split: if_splits)
qed

text \<open>A fresh label below a wildcard host is matched by a wildcard scope only if it is covered.\<close>

lemma wildcard_subtree_suffix:
  assumes "HasSuffix (x @ ''.'' @ oh) (''.'' @ sh)" and "CHR ''.'' \<notin> set x" and "x \<noteq> []"
  shows "sh = oh \<or> HasSuffix oh (''.'' @ sh)"
proof -
  from assms(1) obtain r where r: "x @ ''.'' @ oh = r @ ''.'' @ sh"
    by (auto simp: HasSuffix_iff)
  then consider u where "r = x @ u" "''.'' @ oh = u @ ''.'' @ sh"
    | u where "x = r @ u" "u @ ''.'' @ oh = ''.'' @ sh"
    by (auto simp: append_eq_append_conv2)
  then show ?thesis
  proof cases
    case 1
    then show ?thesis
      by (cases u) (auto simp: HasSuffix_iff)
  next
    case 2
    with assms(2) show ?thesis
      by (cases u) auto
  qed
qed

lemma host_union_exact:
  assumes "\<And>h. hostScope_matches other h \<Longrightarrow> \<exists>s \<in> set ss. hostScope_matches s h"
  shows "\<exists>s \<in> set ss. hostScope_covers s other"
proof (cases "hs_wildcard other")
  case False
  with assms [of "hs_host other"] show ?thesis
    by (auto simp: hostScope_covers_def hostScope_matches_def)
next
  case True
  define n where "n = Suc (sum_list (map (\<lambda>s. length (hs_host s)) ss))"
  define x where "x = replicate n CHR ''a''"
  have x: "CHR ''.'' \<notin> set x" "x \<noteq> []"
    by (simp_all add: x_def n_def)
  have long: "length (hs_host s) < length x" if "s \<in> set ss" for s
    using that member_le_sum_list [of "length (hs_host s)" "map (\<lambda>s. length (hs_host s)) ss"]
    by (simp add: x_def n_def)
  have "hostScope_matches other (x @ ''.'' @ hs_host other)"
    using True by (auto simp: hostScope_matches_def HasSuffix_iff)
  from assms [OF this] obtain s where s: "s \<in> set ss" "hostScope_matches s (x @ ''.'' @ hs_host other)"
    by blast
  have w: "hs_wildcard s"
  proof (rule ccontr)
    assume "\<not> hs_wildcard s"
    with s(2) have "hs_host s = x @ ''.'' @ hs_host other"
      by (simp add: hostScope_matches_def)
    with long [OF s(1)] show False by simp
  qed
  with s(2) have "HasSuffix (x @ ''.'' @ hs_host other) (''.'' @ hs_host s)"
    by (simp add: hostScope_matches_def)
  from wildcard_subtree_suffix [OF this x] w True have "hostScope_covers s other"
    by (auto simp: hostScope_covers_def)
  with s(1) show ?thesis by blast
qed

definition origin_admits :: "originScope \<Rightarrow> string \<Rightarrow> string \<Rightarrow> u16 \<Rightarrow> bool" where
  "origin_admits b scheme h port \<longleftrightarrow>
     sc_scheme b = scheme \<and> sc_port b = port \<and> hostScope_matches (sc_host b) h"

lemma originScope_covers_request:
  "originScope_covers b (request_origin r) \<longleftrightarrow>
     origin_admits b (rq_scheme r) (dest_host (rq_destination r)) (dest_port (rq_destination r))"
  by (simp add: originScope_covers_def request_origin_def origin_admits_def hostScope_covers_def)

lemma compiledCredential_covers_iff:
  "compiledCredential_covers c p \<longleftrightarrow>
     (\<forall>h. hostScope_matches (p_host p) h \<longrightarrow>
          (\<exists>b \<in> set (cc_origins c). origin_admits b (p_scheme p) h (p_port p)))"
proof
  assume "compiledCredential_covers c p"
  then show "\<forall>h. hostScope_matches (p_host p) h \<longrightarrow>
      (\<exists>b \<in> set (cc_origins c). origin_admits b (p_scheme p) h (p_port p))"
    using hostScope_covers_sound
    by (fastforce simp: compiledCredential_covers_def list_ex_iff originScope_covers_def
        policy_origin_def origin_admits_def)
next
  let ?ss = "map sc_host (filter (\<lambda>b. sc_scheme b = p_scheme p \<and> sc_port b = p_port p) (cc_origins c))"
  assume "\<forall>h. hostScope_matches (p_host p) h \<longrightarrow>
      (\<exists>b \<in> set (cc_origins c). origin_admits b (p_scheme p) h (p_port p))"
  then have "\<exists>s \<in> set ?ss. hostScope_covers s (p_host p)"
    by (intro host_union_exact) (auto simp: origin_admits_def)
  then show "compiledCredential_covers c p"
    by (auto simp: compiledCredential_covers_def list_ex_iff originScope_covers_def policy_origin_def)
qed

subsection \<open>Path prefixes are prefixes of segments\<close>

lemma Split_append_sep: "Split sep (p @ sep # x) = Split sep p @ Split sep x"
  by (induction p) (auto split: list.splits)

lemma prefix_Split_iff:
  "prefix (Split sep p) (Split sep r) \<longleftrightarrow> r = p \<or> HasPrefix r (p @ [sep])"
proof
  assume "prefix (Split sep p) (Split sep r)"
  then obtain ws where ws: "Split sep r = Split sep p @ ws"
    by (auto simp: prefix_def)
  show "r = p \<or> HasPrefix r (p @ [sep])"
  proof (cases ws)
    case Nil
    then show ?thesis
      using ws by (metis Join_Split append_Nil2)
  next
    case (Cons w vs)
    have "\<forall>v \<in> set ws. sep \<notin> set v"
      using ws Split_no_sep by (metis Un_iff set_append)
    then have "Split sep (Join sep ws) = ws"
      using Cons by (simp add: Split_Join)
    then have "Split sep (p @ sep # Join sep ws) = Split sep r"
      using ws by (simp add: Split_append_sep)
    then have "p @ sep # Join sep ws = r"
      by (metis Join_Split)
    then show ?thesis
      by (auto simp: HasPrefix_iff)
  qed
next
  assume "r = p \<or> HasPrefix r (p @ [sep])"
  then show "prefix (Split sep p) (Split sep r)"
    by (auto simp: HasPrefix_iff Split_append_sep)
qed

subsection \<open>Well-formed compiled policies\<close>

lemma adjacent_distinct_sorted: "sorted xs \<Longrightarrow> adjacent_distinct xs \<longleftrightarrow> distinct xs"
  by (induction xs rule: adjacent_distinct.induct) auto

lemma compileMethods_Inr:
  assumes "compileMethods m = Inr ms"
  shows "sorted ms" and "distinct ms" and "length ms \<le> HTTPPolicyMethods"
    and "\<forall>x \<in> set ms. validMethod x \<and> x \<noteq> ''CONNECT''"
    and "hm_Any m \<longleftrightarrow> ms = []"
    and "\<not> hm_Any m \<Longrightarrow> \<exists>vs. hm_Values m = Some vs \<and> set ms = set vs"
proof -
  show sorted: "sorted ms" and "length ms \<le> HTTPPolicyMethods"
    using assms by (auto simp: compileMethods_def Let_def split: if_splits option.splits)
  show "\<forall>x \<in> set ms. validMethod x \<and> x \<noteq> ''CONNECT''"
    using assms by (auto simp: compileMethods_def Let_def list_all_iff split: if_splits option.splits)
  have "adjacent_distinct ms"
    using assms by (auto simp: compileMethods_def Let_def split: if_splits option.splits)
  with sorted show "distinct ms"
    by (simp add: adjacent_distinct_sorted)
  show "hm_Any m \<longleftrightarrow> ms = []"
    using assms by (auto simp: compileMethods_def Let_def split: if_splits option.splits)
      (metis length_0_conv length_sort)+
  show "\<not> hm_Any m \<Longrightarrow> \<exists>vs. hm_Values m = Some vs \<and> set ms = set vs"
    using assms by (auto simp: compileMethods_def Let_def split: if_splits option.splits)
qed

lemma compilePath_Inr:
  assumes "compilePath ps = Inr p"
  shows "ps_Kind ps \<in> {HTTPPathAny, HTTPPathExact, HTTPPathPrefix}"
    and "ps_Kind ps \<noteq> HTTPPathAny \<Longrightarrow> p \<noteq> []"
    and "ps_Kind ps = HTTPPathPrefix \<Longrightarrow> p = ''/'' \<or> \<not> HasSuffix p ''/''"
proof -
  show "ps_Kind ps \<in> {HTTPPathAny, HTTPPathExact, HTTPPathPrefix}"
    using assms by (auto simp: compilePath_def split: if_splits)
  have trim: "TrimSuffix q ''/'' \<noteq> [] \<and> \<not> HasSuffix (TrimSuffix q ''/'') ''/''"
    if q: "canonicalPath raw = Inr q" "q \<noteq> ''/''" for raw q
  proof (cases "HasSuffix q ''/''")
    case True
    then obtain r where r: "q = r @ ''/''"
      by (auto simp: HasSuffix_iff)
    have "Contains q ''//''" if "HasSuffix r ''/''"
      using that r by (force simp: HasSuffix_iff Contains_iff)
    then have "\<not> HasSuffix r ''/''"
      using canonicalPath_Inr(4) [OF q(1)] by blast
    with r q(2) show ?thesis
      by (auto simp: TrimSuffix_def HasSuffix_iff)
  next
    case False
    then show ?thesis
      using canonicalPath_Inr(1) [OF q(1)] by (simp add: TrimSuffix_def)
  qed
  show "p \<noteq> []" if "ps_Kind ps \<noteq> HTTPPathAny"
    using assms that trim canonicalPath_Inr(1)
    by (auto simp: compilePath_def split: if_splits sum.splits)
  show "p = ''/'' \<or> \<not> HasSuffix p ''/''" if "ps_Kind ps = HTTPPathPrefix"
    using assms that trim by (auto simp: compilePath_def split: if_splits sum.splits)
qed

lemma parseHostScope_nonempty: "parseHostScope idna raw = Inr h \<Longrightarrow> hs_host h \<noteq> []"
  using canonicalHost_nonempty by (auto simp: parseHostScope_def Let_def split: sum.splits if_splits)

lemma parseOrigin_Inr:
  assumes "parseOrigin idna s = Inr o'"
  shows "sc_port o' \<noteq> 0" and "sc_scheme o' \<in> {''http'', ''https''}" and "hs_host (sc_host o') \<noteq> []"
  using assms parseHostScope_nonempty by (auto simp: parseOrigin_def split: sum.splits if_splits)

definition destination_kind :: "string \<Rightarrow> bool" where
  "destination_kind k \<longleftrightarrow> k = HTTPBlockDestination \<or> k = HTTPAllowTunnel"

definition request_kind :: "string \<Rightarrow> bool" where
  "request_kind k \<longleftrightarrow> k = HTTPBlockRequests \<or> k = HTTPAllowRequests"

definition wf_Policy :: "Policy \<Rightarrow> bool" where
  "wf_Policy c \<longleftrightarrow>
     p_valid c \<and> p_port c \<noteq> 0 \<and> hs_host (p_host c) \<noteq> [] \<and>
     (destination_kind (p_kind c) \<or> request_kind (p_kind c)) \<and>
     (destination_kind (p_kind c) \<longrightarrow> p_credential c = [] \<and> p_scheme c = []) \<and>
     (request_kind (p_kind c) \<longrightarrow>
        p_scheme c \<in> {''http'', ''https''} \<and> sorted (p_methods c) \<and> distinct (p_methods c) \<and>
        (\<forall>m \<in> set (p_methods c). validMethod m \<and> m \<noteq> ''CONNECT'') \<and>
        p_pathKind c \<in> {HTTPPathAny, HTTPPathExact, HTTPPathPrefix} \<and>
        (p_pathKind c = HTTPPathPrefix \<longrightarrow> p_path c = ''/'' \<or> \<not> HasSuffix (p_path c) ''/'')) \<and>
     (p_private c \<longrightarrow> p_kind c = HTTPAllowTunnel \<or> p_kind c = HTTPAllowRequests) \<and>
     (p_credential c \<noteq> [] \<longrightarrow>
        p_kind c = HTTPAllowRequests \<and> p_scheme c = ''https'' \<and> ValidAuditID (p_credential c))"

lemma Compile_destinationE:
  assumes "Compile idna p = Inr c" and "destination_kind (hp_Type p)"
  obtains d h where "hp_Destination p = Some d" and "ds_Port d \<noteq> 0"
    and "parseHostScope idna (ds_Host d) = Inr h"
    and "c = zero_Policy\<lparr>p_valid := True, p_kind := hp_Type p,
               p_private := hp_AllowPrivate p = Some True, p_host := h, p_port := ds_Port d\<rparr>"
    and "hp_Type p = HTTPBlockDestination \<longrightarrow> hp_AllowPrivate p = None"
  using assms unfolding Compile_def destination_kind_def
  by (auto simp: Let_def zero_Policy_def split: if_splits option.splits sum.splits)

lemma Compile_requestE:
  assumes "Compile idna p = Inr c" and "\<not> destination_kind (hp_Type p)"
  obtains r og ms path where "hp_Request p = Some r" and "parseOrigin idna (rs_Origin r) = Inr og"
    and "compileMethods (rs_Methods r) = Inr ms" and "compilePath (rs_Path r) = Inr path"
    and "request_kind (hp_Type p)"
    and "c = zero_Policy\<lparr>p_valid := True, p_kind := hp_Type p,
               p_private := hp_AllowPrivate p = Some True,
               p_credential := (case hp_CredentialID p of None \<Rightarrow> [] | Some i \<Rightarrow> i),
               p_host := sc_host og, p_port := sc_port og, p_scheme := sc_scheme og,
               p_methods := ms, p_pathKind := ps_Kind (rs_Path r), p_path := path\<rparr>"
    and "hp_Type p = HTTPBlockRequests \<longrightarrow> hp_AllowPrivate p = None \<and> hp_CredentialID p = None"
    and "hp_CredentialID p \<noteq> None \<longrightarrow> sc_scheme og = ''https'' \<and> ValidAuditID (the (hp_CredentialID p))"
  using assms unfolding Compile_def destination_kind_def request_kind_def
  by (auto simp: Let_def zero_Policy_def split: if_splits option.splits sum.splits)

lemma Compile_wf:
  assumes "Compile idna p = Inr c"
  shows "wf_Policy c"
proof (cases "destination_kind (hp_Type p)")
  case True
  from assms True show ?thesis
    by (rule Compile_destinationE)
      (use True parseHostScope_nonempty in
        \<open>auto simp: wf_Policy_def zero_Policy_def destination_kind_def request_kind_def\<close>)
next
  case False
  from assms False show ?thesis
  proof (rule Compile_requestE)
    fix r og ms path
    assume r: "parseOrigin idna (rs_Origin r) = Inr og" "compileMethods (rs_Methods r) = Inr ms"
      "compilePath (rs_Path r) = Inr path" "request_kind (hp_Type p)"
      "hp_Type p = HTTPBlockRequests \<longrightarrow> hp_AllowPrivate p = None \<and> hp_CredentialID p = None"
      "hp_CredentialID p \<noteq> None \<longrightarrow> sc_scheme og = ''https'' \<and> ValidAuditID (the (hp_CredentialID p))"
      and c: "c = zero_Policy\<lparr>p_valid := True, p_kind := hp_Type p,
               p_private := hp_AllowPrivate p = Some True,
               p_credential := (case hp_CredentialID p of None \<Rightarrow> [] | Some i \<Rightarrow> i),
               p_host := sc_host og, p_port := sc_port og, p_scheme := sc_scheme og,
               p_methods := ms, p_pathKind := ps_Kind (rs_Path r), p_path := path\<rparr>"
    note facts = parseOrigin_Inr [OF r(1)] compileMethods_Inr(1,2,4) [OF r(2)]
      compilePath_Inr(1,3) [OF r(3)]
    from r(4) consider "hp_Type p = HTTPBlockRequests" | "hp_Type p = HTTPAllowRequests"
      unfolding request_kind_def by blast
    then show ?thesis
    proof cases
      case 1
      with r(5) facts show ?thesis
        by (simp add: c wf_Policy_def zero_Policy_def request_kind_def destination_kind_def)
    next
      case 2
      with r(6) facts show ?thesis
        by (cases "hp_CredentialID p")
          (simp_all add: c wf_Policy_def zero_Policy_def request_kind_def destination_kind_def)
    qed
  qed
qed

end
