(* ===== verification/Http_Evaluate.thy ===== *)
theory Http_Evaluate
  imports Http_Policy
begin

text \<open>
  \<open>internal/httppolicy/evaluate.go\<close> and \<open>git_destination.go\<close>: the immutable evaluator built from a
  coherent snapshot, and its decisions on \<open>CONNECT\<close>, on decrypted or plain requests, and on Git
  destinations. The lemmas characterise each decision by the snapshot's grants alone: blocks win,
  credentials must agree and be available, and the order of grants and credentials is irrelevant.
\<close>

abbreviation "HTTPDefaultBlock \<equiv> ''block''"
abbreviation "HTTPDefaultAllow \<equiv> ''allow''"

datatype HTTPTransport =
    HTTPTransportNone | HTTPTransportTunnel | HTTPTransportIntercept | HTTPTransportRequest

definition HTTPPolicyGrants :: nat where
  "HTTPPolicyGrants = 4096"

definition HTTPPolicyCredentials :: nat where
  "HTTPPolicyCredentials = 256"

record HTTPDecision =
  hd_Version :: int
  hd_Principal :: HTTPRevisionRef
  hd_PolicyRevision :: u64
  hd_DefaultRevision :: u64
  hd_Transport :: HTTPTransport
  hd_Allowed :: bool
  hd_Reason :: HTTPDecisionReason
  hd_Grant :: "HTTPRevisionRef option"
  hd_PrivateGrant :: "HTTPRevisionRef option"
  hd_Credential :: "HTTPRevisionRef option"
  hd_CredentialGrant :: "HTTPRevisionRef option"
  hd_ConflictCredential :: "HTTPRevisionRef option"
  hd_ConflictGrant :: "HTTPRevisionRef option"

record Grant =
  g_Ref :: HTTPRevisionRef
  g_PrincipalID :: string
  g_Policy :: Policy

record Snapshot =
  sn_Principal :: HTTPRevisionRef
  sn_PolicyRevision :: u64
  sn_DefaultRevision :: u64
  sn_Default :: string
  sn_Grants :: "Grant list"
  sn_Credentials :: "Credential list"

record Evaluator =
  ev_principal :: HTTPRevisionRef
  ev_revision :: u64
  ev_defaultRevision :: u64
  ev_defaultPolicy :: string
  ev_grants :: "Grant list"
  ev_credentials :: "string \<rightharpoonup> compiledCredential"

subsection \<open>Building an evaluator\<close>

fun load_credentials ::
  "idna \<Rightarrow> (string \<rightharpoonup> compiledCredential) \<Rightarrow> Credential list \<Rightarrow>
   http_error + (string \<rightharpoonup> compiledCredential)" where
  "load_credentials idna m [] = Inr m"
| "load_credentials idna m (c # cs) =
     (case compileCredential idna c of
        Inl e \<Rightarrow> Inl e
      | Inr cc \<Rightarrow>
          if m (ref_ID (cr_Ref c)) \<noteq> None then Inl ErrInvalid
          else load_credentials idna (m(ref_ID (cr_Ref c) \<mapsto> cc)) cs)"

definition grant_loadable :: "(string \<rightharpoonup> compiledCredential) \<Rightarrow> Grant \<Rightarrow> bool" where
  "grant_loadable creds g \<longleftrightarrow>
     validRef (g_Ref g) \<and> ValidAuditID (g_PrincipalID g) \<and> p_valid (g_Policy g) \<and>
     (p_credential (g_Policy g) \<noteq> [] \<longrightarrow>
        (case creds (p_credential (g_Policy g)) of
           None \<Rightarrow> False
         | Some c \<Rightarrow> compiledCredential_covers c (g_Policy g)))"

fun load_grants ::
  "(string \<rightharpoonup> compiledCredential) \<Rightarrow> string \<Rightarrow> string list \<Rightarrow> Grant list \<Rightarrow> http_error + Grant list" where
  "load_grants creds principalID seen [] = Inr []"
| "load_grants creds principalID seen (g # gs) =
     (if \<not> validRef (g_Ref g) \<or> \<not> ValidAuditID (g_PrincipalID g) \<or> \<not> p_valid (g_Policy g)
         \<or> ref_ID (g_Ref g) \<in> set seen then Inl ErrInvalid
      else if p_credential (g_Policy g) \<noteq> [] \<and>
              (case creds (p_credential (g_Policy g)) of
                 None \<Rightarrow> True
               | Some c \<Rightarrow> \<not> compiledCredential_covers c (g_Policy g)) then Inl ErrInvalid
      else
        (case load_grants creds principalID (ref_ID (g_Ref g) # seen) gs of
           Inl e \<Rightarrow> Inl e
         | Inr rest \<Rightarrow> Inr (if g_PrincipalID g = principalID then g # rest else rest)))"

definition New :: "idna \<Rightarrow> Snapshot \<Rightarrow> http_error + Evaluator" where
  "New idna s =
     (if \<not> validRef (sn_Principal s) \<or> sn_PolicyRevision s = 0 \<or> sn_DefaultRevision s = 0
         \<or> sn_Default s \<noteq> HTTPDefaultAllow \<and> sn_Default s \<noteq> HTTPDefaultBlock
         \<or> length (sn_Grants s) > HTTPPolicyGrants \<or> length (sn_Credentials s) > HTTPPolicyCredentials
      then Inl ErrInvalid
      else
        (case load_credentials idna Map.empty (sn_Credentials s) of
           Inl e \<Rightarrow> Inl e
         | Inr creds \<Rightarrow>
             (case load_grants creds (ref_ID (sn_Principal s)) [] (sn_Grants s) of
                Inl e \<Rightarrow> Inl e
              | Inr gs \<Rightarrow>
                  Inr \<lparr>ev_principal = sn_Principal s, ev_revision = sn_PolicyRevision s,
                       ev_defaultRevision = sn_DefaultRevision s, ev_defaultPolicy = sn_Default s,
                       ev_grants = sort_key (\<lambda>g. ref_ID (g_Ref g)) gs, ev_credentials = creds\<rparr>)))"

subsection \<open>Decisions\<close>

definition decision :: "Evaluator \<Rightarrow> HTTPTransport \<Rightarrow> HTTPDecision" where
  "decision e t =
     \<lparr>hd_Version = HTTPPolicyVersion, hd_Principal = ev_principal e,
      hd_PolicyRevision = ev_revision e, hd_DefaultRevision = ev_defaultRevision e,
      hd_Transport = t, hd_Allowed = False, hd_Reason = HTTPReasonNone, hd_Grant = None,
      hd_PrivateGrant = None, hd_Credential = None, hd_CredentialGrant = None,
      hd_ConflictCredential = None, hd_ConflictGrant = None\<rparr>"

definition destinationBlock :: "Evaluator \<Rightarrow> Destination \<Rightarrow> HTTPRevisionRef option" where
  "destinationBlock e d =
     map_option g_Ref
       (find (\<lambda>g. p_kind (g_Policy g) = HTTPBlockDestination \<and> matchesDestination (g_Policy g) d)
          (ev_grants e))"

text \<open>The body both allow loops share: the first matching grant and the first private one.\<close>

definition note_grant :: "Grant \<Rightarrow> HTTPDecision \<Rightarrow> HTTPDecision" where
  "note_grant g result =
     (let r1 = (if hd_Grant result = None then result\<lparr>hd_Grant := Some (g_Ref g)\<rparr> else result) in
      if p_private (g_Policy g) \<and> hd_PrivateGrant r1 = None
      then r1\<lparr>hd_PrivateGrant := Some (g_Ref g)\<rparr> else r1)"

definition tunnel_step :: "Destination \<Rightarrow> Grant \<Rightarrow> HTTPDecision \<Rightarrow> HTTPDecision" where
  "tunnel_step d g result =
     (if p_kind (g_Policy g) \<noteq> HTTPAllowTunnel \<or> \<not> matchesDestination (g_Policy g) d then result
      else note_grant g result)"

definition ConnectPolicy :: "Evaluator option \<Rightarrow> Destination \<Rightarrow> http_error + HTTPDecision" where
  "ConnectPolicy eo d =
     (case eo of
        None \<Rightarrow> Inl ErrInvalid
      | Some e \<Rightarrow>
          if dest_host d = [] \<or> dest_port d = 0 then Inl ErrInvalid
          else
            let result = decision e HTTPTransportNone in
            (case destinationBlock e d of
               Some ref \<Rightarrow>
                 Inr (result\<lparr>hd_Grant := Some ref, hd_Reason := HTTPReasonDestinationBlock\<rparr>)
             | None \<Rightarrow>
                 let result = fold (tunnel_step d) (ev_grants e) result in
                 if hd_Grant result = None then
                   Inr (result\<lparr>hd_Transport := HTTPTransportIntercept, hd_Reason := HTTPReasonIntercept\<rparr>)
                 else
                   Inr (result\<lparr>hd_Transport := HTTPTransportTunnel, hd_Reason := HTTPReasonTunnelAllow,
                               hd_Allowed := True\<rparr>)))"

definition zero_ref :: HTTPRevisionRef where
  "zero_ref = \<lparr>ref_ID = [], ref_Revision = 0\<rparr>"

definition credential_ref :: "Evaluator \<Rightarrow> string \<Rightarrow> HTTPRevisionRef" where
  "credential_ref e c = (case ev_credentials e c of None \<Rightarrow> zero_ref | Some cc \<Rightarrow> cc_ref cc)"

definition credential_available :: "Evaluator \<Rightarrow> string \<Rightarrow> bool" where
  "credential_available e c = (case ev_credentials e c of None \<Rightarrow> False | Some cc \<Rightarrow> cc_available cc)"

definition selectCredential :: "Evaluator \<Rightarrow> Grant \<Rightarrow> HTTPDecision \<Rightarrow> HTTPDecision" where
  "selectCredential e g result =
     (let ref = credential_ref e (p_credential (g_Policy g)) in
      case hd_Credential result of
        None \<Rightarrow> result\<lparr>hd_Credential := Some ref, hd_CredentialGrant := Some (g_Ref g)\<rparr>
      | Some c \<Rightarrow>
          if ref_ID c \<noteq> ref_ID ref \<and> hd_ConflictCredential result = None
          then result\<lparr>hd_ConflictCredential := Some ref, hd_ConflictGrant := Some (g_Ref g)\<rparr>
          else result)"

definition request_step :: "Evaluator \<Rightarrow> Request \<Rightarrow> Grant \<Rightarrow> HTTPDecision \<Rightarrow> HTTPDecision" where
  "request_step e r g result =
     (if p_kind (g_Policy g) \<noteq> HTTPAllowRequests \<or> \<not> matchesRequest (g_Policy g) r then result
      else
        let result = note_grant g result in
        if p_credential (g_Policy g) \<noteq> [] then selectCredential e g result else result)"

definition RequestPolicy :: "Evaluator option \<Rightarrow> Request \<Rightarrow> http_error + HTTPDecision" where
  "RequestPolicy eo r =
     (case eo of
        None \<Rightarrow> Inl ErrInvalid
      | Some e \<Rightarrow>
          if dest_host (rq_destination r) = [] \<or> rq_path r = [] then Inl ErrInvalid
          else
            let result = decision e HTTPTransportRequest in
            (case destinationBlock e (rq_destination r) of
               Some ref \<Rightarrow>
                 Inr (result\<lparr>hd_Grant := Some ref, hd_Reason := HTTPReasonDestinationBlock\<rparr>)
             | None \<Rightarrow>
                 (case find (\<lambda>g. p_kind (g_Policy g) = HTTPBlockRequests \<and> matchesRequest (g_Policy g) r)
                         (ev_grants e) of
                    Some g \<Rightarrow>
                      Inr (result\<lparr>hd_Grant := Some (g_Ref g), hd_Reason := HTTPReasonRequestBlock\<rparr>)
                  | None \<Rightarrow>
                      let result = fold (request_step e r) (ev_grants e) result in
                      if hd_ConflictCredential result \<noteq> None then
                        Inr (result\<lparr>hd_Reason := HTTPReasonCredentialConflict\<rparr>)
                      else if (case hd_Credential result of
                                 None \<Rightarrow> False
                               | Some c \<Rightarrow> \<not> credential_available e (ref_ID c)) then
                        Inr (result\<lparr>hd_Reason := HTTPReasonCredentialUnavailable\<rparr>)
                      else if hd_Grant result = None then
                        (if ev_defaultPolicy e \<noteq> HTTPDefaultAllow
                         then Inr (result\<lparr>hd_Reason := HTTPReasonDefault\<rparr>)
                         else Inr (result\<lparr>hd_Reason := HTTPReasonDefault, hd_Allowed := True\<rparr>))
                      else Inr (result\<lparr>hd_Reason := HTTPReasonRequestAllow, hd_Allowed := True\<rparr>))))"

definition finishAddress ::
  "HTTPDecision \<Rightarrow> Destination \<Rightarrow> AddressFacts \<Rightarrow> http_error + HTTPDecision" where
  "finishAddress result d facts =
     (case checkAddresses d facts (hd_PrivateGrant result \<noteq> None) of
        Inl e \<Rightarrow> Inl e
      | Inr reason \<Rightarrow>
          if reason \<noteq> HTTPReasonNone then Inr (result\<lparr>hd_Reason := reason\<rparr>)
          else Inr (result\<lparr>hd_Allowed := True\<rparr>))"

definition Connect ::
  "Evaluator option \<Rightarrow> Destination \<Rightarrow> AddressFacts \<Rightarrow> http_error + HTTPDecision" where
  "Connect eo d facts =
     (case ConnectPolicy eo d of
        Inl e \<Rightarrow> Inl e
      | Inr result \<Rightarrow>
          if \<not> hd_Allowed result then Inr result
          else finishAddress (result\<lparr>hd_Allowed := False\<rparr>) d facts)"

definition Request_eval ::
  "Evaluator option \<Rightarrow> Request \<Rightarrow> AddressFacts \<Rightarrow> http_error + HTTPDecision" where
  "Request_eval eo r facts =
     (case RequestPolicy eo r of
        Inl e \<Rightarrow> Inl e
      | Inr result \<Rightarrow>
          if \<not> hd_Allowed result then Inr result
          else finishAddress (result\<lparr>hd_Allowed := False\<rparr>) (rq_destination r) facts)"

definition GitDestination ::
  "Evaluator option \<Rightarrow> Request \<Rightarrow> AddressFacts \<Rightarrow> http_error + bool \<times> HTTPRevisionRef option" where
  "GitDestination eo r facts =
     (case eo of
        None \<Rightarrow> Inl ErrInvalid
      | Some e \<Rightarrow>
          if dest_host (rq_destination r) = [] then Inl ErrInvalid
          else if destinationBlock e (rq_destination r) \<noteq> None then Inr (False, None)
          else
            let private = map_option g_Ref
                  (find (\<lambda>g. p_kind (g_Policy g) = HTTPAllowRequests \<and> p_private (g_Policy g)
                            \<and> matchesRequest (g_Policy g) r) (ev_grants e)) in
            (case checkAddresses (rq_destination r) facts (private \<noteq> None) of
               Inl err \<Rightarrow> Inl err
             | Inr reason \<Rightarrow> Inr (reason = HTTPReasonNone, private)))"

subsection \<open>What a snapshot loads\<close>

lemma load_grants_Inr_iff:
  "load_grants creds pid seen gs = Inr rs \<longleftrightarrow>
     list_all (grant_loadable creds) gs \<and> distinct (map (ref_ID \<circ> g_Ref) gs) \<and>
     set (map (ref_ID \<circ> g_Ref) gs) \<inter> set seen = {} \<and>
     rs = filter (\<lambda>g. g_PrincipalID g = pid) gs"
proof (induction gs arbitrary: seen rs)
  case (Cons g gs)
  have "load_grants creds pid seen (g # gs) = Inr rs \<longleftrightarrow>
      grant_loadable creds g \<and> ref_ID (g_Ref g) \<notin> set seen \<and>
      (\<exists>r. load_grants creds pid (ref_ID (g_Ref g) # seen) gs = Inr r \<and>
           rs = (if g_PrincipalID g = pid then g # r else r))"
    by (auto simp: grant_loadable_def split: sum.splits option.splits if_splits)
  then show ?case
    by (auto simp: Cons)
qed auto

lemma load_grants_Inl: "load_grants creds pid seen gs = Inl e \<Longrightarrow> e = ErrInvalid"
  by (induction gs arbitrary: seen) (auto split: if_splits sum.splits)

lemma compileCredential_Inl: "compileCredential idna c = Inl e \<Longrightarrow> e = ErrInvalid"
proof -
  have "map_result (\<lambda>sel. case parseOrigin idna sel of Inl e \<Rightarrow> Inl ErrInvalid
      | Inr origin \<Rightarrow> if sc_scheme origin \<noteq> ''https'' then Inl ErrInvalid else Inr origin) os = Inl e
      \<Longrightarrow> e = ErrInvalid" for os
    by (induction os) (auto split: sum.splits if_splits)
  then show "compileCredential idna c = Inl e \<Longrightarrow> e = ErrInvalid"
    by (auto simp: compileCredential_def split: if_splits sum.splits)
qed

lemma load_credentials_Inl: "load_credentials idna m cs = Inl e \<Longrightarrow> e = ErrInvalid"
  by (induction cs arbitrary: m) (auto split: if_splits sum.splits dest: compileCredential_Inl)

lemma load_credentials_ok_iff:
  "is_ok (load_credentials idna m cs) \<longleftrightarrow>
     (\<forall>c \<in> set cs. is_ok (compileCredential idna c)) \<and> distinct (map (ref_ID \<circ> cr_Ref) cs) \<and>
     set (map (ref_ID \<circ> cr_Ref) cs) \<inter> dom m = {}"
  by (induction cs arbitrary: m) (auto split: sum.splits)

lemma load_credentials_lookup:
  "load_credentials idna m cs = Inr m' \<Longrightarrow>
     m' k = Some cc \<longleftrightarrow>
     m k = Some cc \<or> (\<exists>c \<in> set cs. ref_ID (cr_Ref c) = k \<and> compileCredential idna c = Inr cc)"
proof (induction cs arbitrary: m)
  case (Cons c cs)
  then obtain cc' where c: "compileCredential idna c = Inr cc'" "m (ref_ID (cr_Ref c)) = None"
      and rest: "load_credentials idna (m(ref_ID (cr_Ref c) \<mapsto> cc')) cs = Inr m'"
    by (auto split: sum.splits if_splits)
  have "set (map (ref_ID \<circ> cr_Ref) cs) \<inter> dom (m(ref_ID (cr_Ref c) \<mapsto> cc')) = {}"
    using load_credentials_ok_iff [of idna "m(ref_ID (cr_Ref c) \<mapsto> cc')" cs] rest by simp
  then have "\<forall>d \<in> set cs. ref_ID (cr_Ref d) \<noteq> ref_ID (cr_Ref c)"
    by (auto simp: image_iff)
  then show ?case
    using Cons.IH [OF rest] c by auto
qed simp

lemma mset_eq_facts:
  assumes "mset xs = mset ys"
  shows "set xs = set ys" and "distinct (map f xs) = distinct (map f ys)" and "length xs = length ys"
  using assms mset_eq_setD mset_eq_imp_distinct_iff [of "map f xs" "map f ys"] mset_eq_length
  by auto

lemma load_credentials_perm:
  assumes "mset cs = mset cs'"
  shows "load_credentials idna Map.empty cs = load_credentials idna Map.empty cs'"
proof -
  have ok: "is_ok (load_credentials idna Map.empty cs) \<longleftrightarrow> is_ok (load_credentials idna Map.empty cs')"
    using mset_eq_facts(2) [OF assms, of "ref_ID \<circ> cr_Ref"]
    by (simp only: load_credentials_ok_iff mset_eq_facts(1) [OF assms] set_map)
  show ?thesis
  proof (cases "load_credentials idna Map.empty cs")
    case (Inl e)
    with ok obtain e' where "load_credentials idna Map.empty cs' = Inl e'"
      by (cases "load_credentials idna Map.empty cs'") auto
    with Inl show ?thesis
      by (auto dest: load_credentials_Inl)
  next
    case (Inr m)
    with ok obtain m' where m': "load_credentials idna Map.empty cs' = Inr m'"
      by (cases "load_credentials idna Map.empty cs'") auto
    have "m k = Some cc \<longleftrightarrow> m' k = Some cc" for k cc
      using load_credentials_lookup [OF Inr] load_credentials_lookup [OF m']
      by (simp add: mset_eq_facts(1) [OF assms])
    then have "m = m'"
      by (metis ext not_Some_eq)
    with Inr m' show ?thesis by simp
  qed
qed

lemma load_grants_perm:
  assumes "mset gs = mset gs'"
  shows "map_sum id (sort_key (\<lambda>g. ref_ID (g_Ref g))) (load_grants creds pid [] gs) =
         map_sum id (sort_key (\<lambda>g. ref_ID (g_Ref g))) (load_grants creds pid [] gs')"
proof (cases "load_grants creds pid [] gs")
  case (Inl e)
  then have "\<nexists>rs. load_grants creds pid [] gs' = Inr rs"
    using mset_eq_facts [OF assms] load_grants_Inr_iff [of creds pid "[]" gs]
    by (auto simp: load_grants_Inr_iff list_all_iff)
  with Inl show ?thesis
    by (cases "load_grants creds pid [] gs'") (auto dest: load_grants_Inl)
next
  case (Inr rs)
  then have rs: "list_all (grant_loadable creds) gs" "distinct (map (ref_ID \<circ> g_Ref) gs)"
      "rs = filter (\<lambda>g. g_PrincipalID g = pid) gs"
    by (auto simp: load_grants_Inr_iff)
  then have "load_grants creds pid [] gs' = Inr (filter (\<lambda>g. g_PrincipalID g = pid) gs')"
    using mset_eq_facts [OF assms] by (auto simp: load_grants_Inr_iff list_all_iff)
  moreover have "sort_key (\<lambda>g. ref_ID (g_Ref g)) rs =
      sort_key (\<lambda>g. ref_ID (g_Ref g)) (filter (\<lambda>g. g_PrincipalID g = pid) gs')"
    using rs assms by (intro sort_key_cong_perm)
      (auto simp: comp_def distinct_map inj_on_def distinct_filter)
  ultimately show ?thesis
    using Inr by simp
qed

lemma New_perm:
  assumes "mset (sn_Grants s) = mset gs" and "mset (sn_Credentials s) = mset cs"
  shows "New idna (s\<lparr>sn_Grants := gs, sn_Credentials := cs\<rparr>) = New idna s"
proof -
  have l: "length (sn_Grants s) = length gs" "length (sn_Credentials s) = length cs"
    using assms by (blast dest: mset_eq_length)+
  have c: "load_credentials idna Map.empty (sn_Credentials s) = load_credentials idna Map.empty cs"
    by (rule load_credentials_perm [OF assms(2)])
  have g: "map_sum id (sort_key (\<lambda>g. ref_ID (g_Ref g))) (load_grants creds pid [] (sn_Grants s)) =
      map_sum id (sort_key (\<lambda>g. ref_ID (g_Ref g))) (load_grants creds pid [] gs)" for creds pid
    by (rule load_grants_perm [OF assms(1)])
  show ?thesis
  proof (cases "load_credentials idna Map.empty cs")
    case (Inl e)
    with c show ?thesis
      unfolding New_def by (simp add: l)
  next
    case (Inr creds)
    with c have creds: "load_credentials idna Map.empty (sn_Credentials s) = Inr creds"
      by simp
    show ?thesis
      using g [of creds "ref_ID (sn_Principal s)"]
      by (cases "load_grants creds (ref_ID (sn_Principal s)) [] gs";
          cases "load_grants creds (ref_ID (sn_Principal s)) [] (sn_Grants s)")
         (simp_all add: New_def l Inr creds)
  qed
qed

subsection \<open>What the allow loops collect\<close>

definition allow_grant :: "Request \<Rightarrow> Grant \<Rightarrow> bool" where
  "allow_grant r g \<longleftrightarrow> p_kind (g_Policy g) = HTTPAllowRequests \<and> matchesRequest (g_Policy g) r"

definition tunnel_grant :: "Destination \<Rightarrow> Grant \<Rightarrow> bool" where
  "tunnel_grant d g \<longleftrightarrow> p_kind (g_Policy g) = HTTPAllowTunnel \<and> matchesDestination (g_Policy g) d"

definition credential_grant :: "Request \<Rightarrow> Grant \<Rightarrow> bool" where
  "credential_grant r g \<longleftrightarrow> allow_grant r g \<and> p_credential (g_Policy g) \<noteq> []"

definition first_of :: "'b option \<Rightarrow> ('a \<Rightarrow> 'b) \<Rightarrow> ('a \<Rightarrow> bool) \<Rightarrow> 'a list \<Rightarrow> 'b option" where
  "first_of old f P xs = (if old = None then map_option f (find P xs) else old)"

lemma first_of_simps [simp]:
  "first_of old f P [] = old"
  "first_of (Some y) f P xs = Some y"
  "first_of None f P xs = map_option f (find P xs)"
  by (simp_all add: first_of_def)

abbreviation grant_credential :: "Evaluator \<Rightarrow> Grant \<Rightarrow> HTTPRevisionRef" where
  "grant_credential e g \<equiv> credential_ref e (p_credential (g_Policy g))"

text \<open>A loop that fills a field at the first element satisfying a test, and never again.\<close>

lemma fold_first:
  assumes "\<And>x st. fld (step x st) = (if fld st = None \<and> P x then Some (f x) else fld st)"
  shows "fld (fold step xs st) = first_of (fld st) f P xs"
  by (induction xs arbitrary: st) (auto simp: assms first_of_def)

lemma note_grant_fields [simp]:
  "hd_Grant (note_grant g res) = (if hd_Grant res = None then Some (g_Ref g) else hd_Grant res)"
  "hd_PrivateGrant (note_grant g res) =
     (if hd_PrivateGrant res = None \<and> p_private (g_Policy g) then Some (g_Ref g) else hd_PrivateGrant res)"
  "hd_Credential (note_grant g res) = hd_Credential res"
  "hd_ConflictCredential (note_grant g res) = hd_ConflictCredential res"
  by (simp_all add: note_grant_def Let_def)

lemma selectCredential_fields [simp]:
  "hd_Grant (selectCredential e g res) = hd_Grant res"
  "hd_PrivateGrant (selectCredential e g res) = hd_PrivateGrant res"
  "hd_Credential (selectCredential e g res) =
     (if hd_Credential res = None then Some (grant_credential e g) else hd_Credential res)"
  "hd_ConflictCredential (selectCredential e g res) =
     (if hd_ConflictCredential res = None \<and>
         (\<exists>c. hd_Credential res = Some c \<and> ref_ID c \<noteq> ref_ID (grant_credential e g))
      then Some (grant_credential e g) else hd_ConflictCredential res)"
  by (simp_all add: selectCredential_def Let_def split: option.splits)

lemma request_step_fields:
  "hd_Grant (request_step e r g res) =
     (if hd_Grant res = None \<and> allow_grant r g then Some (g_Ref g) else hd_Grant res)"
  "hd_PrivateGrant (request_step e r g res) =
     (if hd_PrivateGrant res = None \<and> (allow_grant r g \<and> p_private (g_Policy g))
      then Some (g_Ref g) else hd_PrivateGrant res)"
  "hd_Credential (request_step e r g res) =
     (if hd_Credential res = None \<and> credential_grant r g
      then Some (grant_credential e g) else hd_Credential res)"
  "hd_ConflictCredential (request_step e r g res) =
     (if hd_ConflictCredential res = None \<and> credential_grant r g \<and>
         (\<exists>c. hd_Credential res = Some c \<and> ref_ID c \<noteq> ref_ID (grant_credential e g))
      then Some (grant_credential e g) else hd_ConflictCredential res)"
  by (simp_all add: request_step_def Let_def allow_grant_def credential_grant_def)

lemma tunnel_step_fields:
  "hd_Grant (tunnel_step d g res) =
     (if hd_Grant res = None \<and> tunnel_grant d g then Some (g_Ref g) else hd_Grant res)"
  "hd_PrivateGrant (tunnel_step d g res) =
     (if hd_PrivateGrant res = None \<and> (tunnel_grant d g \<and> p_private (g_Policy g))
      then Some (g_Ref g) else hd_PrivateGrant res)"
  by (simp_all add: tunnel_step_def tunnel_grant_def)

lemma fold_tunnel:
  "hd_Grant (fold (tunnel_step d) gs res) = first_of (hd_Grant res) g_Ref (tunnel_grant d) gs"
  "hd_PrivateGrant (fold (tunnel_step d) gs res) =
     first_of (hd_PrivateGrant res) g_Ref (\<lambda>g. tunnel_grant d g \<and> p_private (g_Policy g)) gs"
  by (rule fold_first, rule tunnel_step_fields)+

lemma fold_request:
  "hd_Grant (fold (request_step e r) gs res) = first_of (hd_Grant res) g_Ref (allow_grant r) gs"
  "hd_PrivateGrant (fold (request_step e r) gs res) =
     first_of (hd_PrivateGrant res) g_Ref (\<lambda>g. allow_grant r g \<and> p_private (g_Policy g)) gs"
  "hd_Credential (fold (request_step e r) gs res) =
     first_of (hd_Credential res) (grant_credential e) (credential_grant r) gs"
  by (rule fold_first, rule request_step_fields)+

lemma fold_request_conflict_some:
  "hd_Credential res = Some c \<Longrightarrow>
   hd_ConflictCredential (fold (request_step e r) gs res) =
     first_of (hd_ConflictCredential res) (grant_credential e)
       (\<lambda>g. credential_grant r g \<and> ref_ID (grant_credential e g) \<noteq> ref_ID c) gs"
proof (induction gs arbitrary: res)
  case (Cons g gs)
  have "hd_Credential (request_step e r g res) = Some c"
    using Cons.prems by (simp add: request_step_fields)
  from Cons.IH [OF this] Cons.prems show ?case
    by (auto simp: request_step_fields first_of_def)
qed simp

lemma fold_request_conflict:
  assumes "hd_Credential res = None" and "hd_ConflictCredential res = None"
  shows "hd_ConflictCredential (fold (request_step e r) gs res) = None \<longleftrightarrow>
     (\<forall>g \<in> set gs. \<forall>g' \<in> set gs. credential_grant r g \<longrightarrow> credential_grant r g' \<longrightarrow>
        ref_ID (grant_credential e g) = ref_ID (grant_credential e g'))"
  using assms
proof (induction gs arbitrary: res)
  case (Cons g gs)
  show ?case
  proof (cases "credential_grant r g")
    case True
    then have "hd_Credential (request_step e r g res) = Some (grant_credential e g)"
        "hd_ConflictCredential (request_step e r g res) = None"
      using Cons.prems by (simp_all add: request_step_fields)
    then have "hd_ConflictCredential (fold (request_step e r) (g # gs) res) = None \<longleftrightarrow>
        (\<forall>g' \<in> set gs. credential_grant r g' \<longrightarrow>
           ref_ID (grant_credential e g') = ref_ID (grant_credential e g))"
      by (auto simp: fold_request_conflict_some find_None_iff)
    with True show ?thesis
      by (simp only: set_simps ball_simps insert_iff) (metis (no_types))
  next
    case False
    then have "hd_Credential (request_step e r g res) = None"
        "hd_ConflictCredential (request_step e r g res) = None"
      using Cons.prems by (simp_all add: request_step_fields)
    from Cons.IH [OF this] False show ?thesis
      by auto
  qed
qed simp

subsection \<open>Evaluators built by New\<close>

definition wf_Evaluator :: "Evaluator \<Rightarrow> bool" where
  "wf_Evaluator e \<longleftrightarrow>
     (\<forall>g \<in> set (ev_grants e). g_PrincipalID g = ref_ID (ev_principal e) \<and>
        grant_loadable (ev_credentials e) g) \<and>
     sorted (map (ref_ID \<circ> g_Ref) (ev_grants e)) \<and> distinct (map (ref_ID \<circ> g_Ref) (ev_grants e)) \<and>
     (\<forall>k cc. ev_credentials e k = Some cc \<longrightarrow> ref_ID (cc_ref cc) = k) \<and>
     ev_defaultPolicy e \<in> {HTTPDefaultAllow, HTTPDefaultBlock}"

lemma compileCredential_ref:
  "compileCredential idna c = Inr cc \<Longrightarrow> cc_ref cc = cr_Ref c \<and> cc_available cc = cr_Available c"
  by (auto simp: compileCredential_def split: if_splits sum.splits)

lemma NewE:
  assumes "New idna s = Inr e"
  obtains creds where "load_credentials idna Map.empty (sn_Credentials s) = Inr creds"
    and "list_all (grant_loadable creds) (sn_Grants s)"
    and "distinct (map (ref_ID \<circ> g_Ref) (sn_Grants s))"
    and "sn_Default s \<in> {HTTPDefaultAllow, HTTPDefaultBlock}"
    and "e = \<lparr>ev_principal = sn_Principal s, ev_revision = sn_PolicyRevision s,
              ev_defaultRevision = sn_DefaultRevision s, ev_defaultPolicy = sn_Default s,
              ev_grants = sort_key (\<lambda>g. ref_ID (g_Ref g))
                 (filter (\<lambda>g. g_PrincipalID g = ref_ID (sn_Principal s)) (sn_Grants s)),
              ev_credentials = creds\<rparr>"
  using assms unfolding New_def
  by (auto simp: load_grants_Inr_iff split: if_splits sum.splits)

lemma New_wf:
  assumes "New idna s = Inr e"
  shows "wf_Evaluator e"
proof -
  from NewE [OF assms] obtain creds where
    creds: "load_credentials idna Map.empty (sn_Credentials s) = Inr creds"
    and ok: "list_all (grant_loadable creds) (sn_Grants s)"
    and dist: "distinct (map (ref_ID \<circ> g_Ref) (sn_Grants s))"
    and dflt: "sn_Default s \<in> {HTTPDefaultAllow, HTTPDefaultBlock}"
    and e: "e = \<lparr>ev_principal = sn_Principal s, ev_revision = sn_PolicyRevision s,
              ev_defaultRevision = sn_DefaultRevision s, ev_defaultPolicy = sn_Default s,
              ev_grants = sort_key (\<lambda>g. ref_ID (g_Ref g))
                 (filter (\<lambda>g. g_PrincipalID g = ref_ID (sn_Principal s)) (sn_Grants s)),
              ev_credentials = creds\<rparr>" .
  have "ref_ID (cc_ref cc) = k" if "creds k = Some cc" for k cc
    using that load_credentials_lookup [OF creds] by (auto dest: compileCredential_ref)
  moreover have "distinct (map (ref_ID \<circ> g_Ref) (ev_grants e))"
    using dist by (auto simp: e distinct_map inj_on_def)
  moreover have "sorted (map (ref_ID \<circ> g_Ref) (ev_grants e))"
    by (simp add: e comp_def)
  ultimately show ?thesis
    using ok dflt by (simp add: wf_Evaluator_def e list_all_iff)
qed

lemma wf_credential:
  assumes "wf_Evaluator e" and "g \<in> set (ev_grants e)" and "p_credential (g_Policy g) \<noteq> []"
  shows "\<exists>cc. ev_credentials e (p_credential (g_Policy g)) = Some cc \<and>
            ref_ID (cc_ref cc) = p_credential (g_Policy g) \<and> compiledCredential_covers cc (g_Policy g)"
  using assms by (fastforce simp: wf_Evaluator_def grant_loadable_def split: option.splits)

lemma wf_grant_credential:
  assumes "wf_Evaluator e" and "g \<in> set (ev_grants e)" and "credential_grant r g"
  shows "ref_ID (grant_credential e g) = p_credential (g_Policy g)"
  using wf_credential [OF assms(1,2)] assms(3)
  by (auto simp: credential_ref_def credential_grant_def)

subsection \<open>Decisions, characterised\<close>

definition request_block :: "Request \<Rightarrow> Grant \<Rightarrow> bool" where
  "request_block r g \<longleftrightarrow> p_kind (g_Policy g) = HTTPBlockRequests \<and> matchesRequest (g_Policy g) r"

definition destination_block :: "Destination \<Rightarrow> Grant \<Rightarrow> bool" where
  "destination_block d g \<longleftrightarrow>
     p_kind (g_Policy g) = HTTPBlockDestination \<and> matchesDestination (g_Policy g) d"

lemma destinationBlock_None_iff:
  "destinationBlock e d = None \<longleftrightarrow> (\<forall>g \<in> set (ev_grants e). \<not> destination_block d g)"
  by (auto simp: destinationBlock_def destination_block_def find_None_iff)

lemma decision_fields [simp]:
  "hd_Allowed (decision e t) = False" "hd_Grant (decision e t) = None"
  "hd_PrivateGrant (decision e t) = None" "hd_Credential (decision e t) = None"
  "hd_ConflictCredential (decision e t) = None"
  by (simp_all add: decision_def)

lemma note_grant_Allowed [simp]: "hd_Allowed (note_grant g res) = hd_Allowed res"
  by (simp add: note_grant_def Let_def)

lemma selectCredential_Allowed [simp]: "hd_Allowed (selectCredential e g res) = hd_Allowed res"
  by (simp add: selectCredential_def Let_def split: option.splits)

lemma fold_request_Allowed [simp]: "hd_Allowed (fold (request_step e r) gs res) = hd_Allowed res"
  by (induction gs arbitrary: res) (simp_all add: request_step_def Let_def)

definition credentials_agree :: "Evaluator \<Rightarrow> Request \<Rightarrow> bool" where
  "credentials_agree e r \<longleftrightarrow>
     (\<forall>g \<in> set (ev_grants e). \<forall>g' \<in> set (ev_grants e).
        credential_grant r g \<longrightarrow> credential_grant r g' \<longrightarrow>
        p_credential (g_Policy g) = p_credential (g_Policy g'))"

definition credentials_available :: "Evaluator \<Rightarrow> Request \<Rightarrow> bool" where
  "credentials_available e r \<longleftrightarrow>
     (\<forall>g \<in> set (ev_grants e). credential_grant r g \<longrightarrow> credential_available e (p_credential (g_Policy g)))"

lemma no_conflict_iff:
  assumes "wf_Evaluator e"
  shows "hd_ConflictCredential (fold (request_step e r) (ev_grants e) (decision e t)) = None \<longleftrightarrow>
           credentials_agree e r"
  using wf_grant_credential [OF assms] by (auto simp: fold_request_conflict credentials_agree_def)

lemma credential_usable_iff:
  assumes "wf_Evaluator e" and "credentials_agree e r"
  shows "(case map_option (grant_credential e) (find (credential_grant r) (ev_grants e)) of
            None \<Rightarrow> True | Some c \<Rightarrow> credential_available e (ref_ID c)) \<longleftrightarrow> credentials_available e r"
proof (cases "find (credential_grant r) (ev_grants e)")
  case None
  then have "\<forall>g \<in> set (ev_grants e). \<not> credential_grant r g"
    by (simp add: find_None_iff)
  with None show ?thesis
    by (simp add: credentials_available_def)
next
  case (Some g)
  then have g: "g \<in> set (ev_grants e)" "credential_grant r g"
    by (auto dest: find_SomeD)
  have "credentials_available e r \<longleftrightarrow> credential_available e (p_credential (g_Policy g))"
    using assms(2) g unfolding credentials_agree_def credentials_available_def by metis
  with wf_grant_credential [OF assms(1) g] show ?thesis
    by (simp add: Some)
qed

lemma RequestPolicy_allowed_iff:
  assumes wf: "wf_Evaluator e" and r: "dest_host (rq_destination r) \<noteq> []" "rq_path r \<noteq> []"
  shows "\<exists>d. RequestPolicy (Some e) r = Inr d \<and>
     (hd_Allowed d \<longleftrightarrow>
        (\<forall>g \<in> set (ev_grants e). \<not> destination_block (rq_destination r) g \<and> \<not> request_block r g) \<and>
        credentials_agree e r \<and> credentials_available e r \<and>
        ((\<exists>g \<in> set (ev_grants e). allow_grant r g) \<or> ev_defaultPolicy e = HTTPDefaultAllow))"
proof (cases "destinationBlock e (rq_destination r) = None \<and>
    find (\<lambda>g. p_kind (g_Policy g) = HTTPBlockRequests \<and> matchesRequest (g_Policy g) r) (ev_grants e) = None")
  case False
  then have "\<exists>g \<in> set (ev_grants e). destination_block (rq_destination r) g \<or> request_block r g"
    by (auto simp: destinationBlock_None_iff find_None_iff request_block_def)
  moreover have "\<exists>d. RequestPolicy (Some e) r = Inr d \<and> \<not> hd_Allowed d"
    using False r by (auto simp: RequestPolicy_def Let_def split: option.splits)
  ultimately show ?thesis by blast
next
  case True
  then have clear: "\<forall>g \<in> set (ev_grants e).
      \<not> destination_block (rq_destination r) g \<and> \<not> request_block r g"
    by (auto simp: destinationBlock_None_iff find_None_iff request_block_def)
  let ?res = "fold (request_step e r) (ev_grants e) (decision e HTTPTransportRequest)"
  have policy: "RequestPolicy (Some e) r =
      (if hd_ConflictCredential ?res \<noteq> None then Inr (?res\<lparr>hd_Reason := HTTPReasonCredentialConflict\<rparr>)
       else if \<not> (case hd_Credential ?res of None \<Rightarrow> True | Some c \<Rightarrow> credential_available e (ref_ID c))
         then Inr (?res\<lparr>hd_Reason := HTTPReasonCredentialUnavailable\<rparr>)
       else if hd_Grant ?res = None then
         (if ev_defaultPolicy e \<noteq> HTTPDefaultAllow then Inr (?res\<lparr>hd_Reason := HTTPReasonDefault\<rparr>)
          else Inr (?res\<lparr>hd_Reason := HTTPReasonDefault, hd_Allowed := True\<rparr>))
       else Inr (?res\<lparr>hd_Reason := HTTPReasonRequestAllow, hd_Allowed := True\<rparr>))"
    using True r by (simp add: RequestPolicy_def Let_def split: option.splits)
  have "hd_Grant ?res = None \<longleftrightarrow> \<not> (\<exists>g \<in> set (ev_grants e). allow_grant r g)"
    by (auto simp: fold_request find_None_iff)
  then show ?thesis
    using clear credential_usable_iff [OF wf, of r] no_conflict_iff [OF wf, of r HTTPTransportRequest]
    unfolding policy by (simp add: fold_request)
qed

end
