(* ===== verification/Http_Properties.thy ===== *)
theory Http_Properties
  imports Http_Evaluate
begin

text \<open>
  The properties of the HTTP policy component, stated of the snapshot an evaluator is built from and
  of the wire forms it is compiled from. The sample snapshot of the last section is the concrete
  input of the witnesses: one principal, an intercepted origin with a path prefix and a credential,
  a blocked destination and a tunnel.
\<close>

definition principal_grants :: "Snapshot \<Rightarrow> Grant list" where
  "principal_grants s = filter (\<lambda>g. g_PrincipalID g = ref_ID (sn_Principal s)) (sn_Grants s)"

lemma New_grants: "New idna s = Inr e \<Longrightarrow> set (ev_grants e) = set (principal_grants s)"
  and New_default: "New idna s = Inr e \<Longrightarrow> ev_defaultPolicy e = sn_Default s"
  by (auto elim: NewE simp: principal_grants_def)

lemma New_credentials:
  assumes "New idna s = Inr e"
  shows "ev_credentials e k = Some cc \<longleftrightarrow>
    (\<exists>c \<in> set (sn_Credentials s). ref_ID (cr_Ref c) = k \<and> compileCredential idna c = Inr cc)"
  using assms by (elim NewE) (simp add: load_credentials_lookup)

lemma New_available:
  assumes "New idna s = Inr e"
  shows "credential_available e k \<longleftrightarrow>
    (\<exists>c \<in> set (sn_Credentials s). ref_ID (cr_Ref c) = k \<and> cr_Available c)"
proof
  assume "credential_available e k"
  then show "\<exists>c \<in> set (sn_Credentials s). ref_ID (cr_Ref c) = k \<and> cr_Available c"
    using New_credentials [OF assms]
    by (auto simp: credential_available_def dest: compileCredential_ref split: option.splits)
next
  assume "\<exists>c \<in> set (sn_Credentials s). ref_ID (cr_Ref c) = k \<and> cr_Available c"
  then obtain c where c: "c \<in> set (sn_Credentials s)" "ref_ID (cr_Ref c) = k" "cr_Available c"
    by blast
  from assms obtain m where "load_credentials idna Map.empty (sn_Credentials s) = Inr m"
    by (rule NewE)
  with c(1) load_credentials_ok_iff [of idna Map.empty "sn_Credentials s"]
  have "is_ok (compileCredential idna c)"
    by simp
  then obtain cc where "compileCredential idna c = Inr cc"
    by (cases "compileCredential idna c") simp_all
  with c New_credentials [OF assms, of k cc] show "credential_available e k"
    by (auto simp: credential_available_def dest: compileCredential_ref)
qed

lemma compileCredential_https:
  assumes "compileCredential idna c = Inr cc" and "b \<in> set (cc_origins cc)"
  shows "sc_scheme b = ''https''"
proof -
  have "map_result (\<lambda>sel. case parseOrigin idna sel of Inl e \<Rightarrow> Inl ErrInvalid
      | Inr origin \<Rightarrow> if sc_scheme origin \<noteq> ''https'' then Inl ErrInvalid else Inr origin) ss = Inr os
      \<Longrightarrow> b \<in> set os \<Longrightarrow> sc_scheme b = ''https''" for ss os
    by (induction ss arbitrary: os) (auto split: sum.splits if_splits)
  then show ?thesis
    using assms by (auto simp: compileCredential_def split: if_splits sum.splits)
qed

subsection \<open>Decisions, field by field\<close>

lemma RequestPolicy_allowedD:
  assumes "RequestPolicy (Some e) r = Inr d" and "hd_Allowed d"
  shows "dest_host (rq_destination r) \<noteq> []" and "rq_path r \<noteq> []"
    and "hd_PrivateGrant d =
           map_option g_Ref (find (\<lambda>g. allow_grant r g \<and> p_private (g_Policy g)) (ev_grants e))"
    and "hd_Credential d = map_option (grant_credential e) (find (credential_grant r) (ev_grants e))"
    and "hd_Credential d = Some c \<Longrightarrow> credential_available e (ref_ID c)"
  using assms unfolding RequestPolicy_def
  by (auto simp: Let_def fold_request split: if_splits option.splits)

lemma ConnectPolicy_allowed_iff:
  "(\<exists>r. ConnectPolicy (Some e) d = Inr r \<and> hd_Allowed r) \<longleftrightarrow>
     dest_host d \<noteq> [] \<and> dest_port d \<noteq> 0 \<and>
     (\<forall>g \<in> set (ev_grants e). \<not> destination_block d g) \<and>
     (\<exists>g \<in> set (ev_grants e). tunnel_grant d g)"
proof -
  have "hd_Allowed (fold (tunnel_step d) gs res) = hd_Allowed res" for gs res
    by (induction gs arbitrary: res) (simp_all add: tunnel_step_def)
  then show ?thesis
    unfolding destinationBlock_None_iff [symmetric]
    by (auto simp: ConnectPolicy_def Let_def fold_tunnel find_None_iff split: option.splits)
qed

lemma ConnectPolicy_private:
  assumes "ConnectPolicy (Some e) d = Inr r" and "destinationBlock e d = None"
  shows "hd_PrivateGrant r =
    map_option g_Ref (find (\<lambda>g. tunnel_grant d g \<and> p_private (g_Policy g)) (ev_grants e))"
  using assms unfolding ConnectPolicy_def
  by (auto simp: Let_def fold_tunnel split: if_splits)

lemma finishAddress_allowed_iff:
  "(\<exists>r. finishAddress (res\<lparr>hd_Allowed := False\<rparr>) d f = Inr r \<and> hd_Allowed r) \<longleftrightarrow>
     checkAddresses d f (hd_PrivateGrant res \<noteq> None) = Inr HTTPReasonNone"
  by (auto simp: finishAddress_def split: sum.splits)

subsection \<open>The sample snapshot\<close>

definition sample_ref :: "char \<Rightarrow> HTTPRevisionRef" where
  "sample_ref c = \<lparr>ref_ID = replicate 25 CHR ''0'' @ [c], ref_Revision = 1\<rparr>"

definition sample_idna :: idna where
  "sample_idna h = Some h"

definition sample_grant :: "char \<Rightarrow> Policy \<Rightarrow> Grant" where
  "sample_grant c p = \<lparr>g_Ref = sample_ref c, g_PrincipalID = ref_ID (sample_ref CHR ''1''), g_Policy = p\<rparr>"

definition sample_api :: hostScope where
  "sample_api = \<lparr>hs_host = ''example.com'', hs_wildcard = True\<rparr>"

definition sample_allow :: Policy where
  "sample_allow =
     \<lparr>p_valid = True, p_kind = HTTPAllowRequests, p_host = sample_api, p_port = 443,
      p_scheme = ''https'', p_methods = [''GET''], p_pathKind = HTTPPathPrefix, p_path = ''/v1'',
      p_private = False, p_credential = ref_ID (sample_ref CHR ''9'')\<rparr>"

definition sample_tunnel :: Policy where
  "sample_tunnel = zero_Policy\<lparr>p_valid := True, p_kind := HTTPAllowTunnel,
     p_host := \<lparr>hs_host = ''git.example.net'', hs_wildcard = False\<rparr>, p_port := 443\<rparr>"

definition sample_block :: Policy where
  "sample_block = zero_Policy\<lparr>p_valid := True, p_kind := HTTPBlockDestination,
     p_host := \<lparr>hs_host = ''bad.example.com'', hs_wildcard = False\<rparr>, p_port := 443\<rparr>"

definition sample_credential :: Credential where
  "sample_credential =
     \<lparr>cr_Ref = sample_ref CHR ''9'', cr_Available = True,
      cr_Origins = [\<lparr>os_Scheme = ''https'', os_Host = ''*.example.com'', os_Port = 443\<rparr>]\<rparr>"

definition sample_snapshot :: Snapshot where
  "sample_snapshot =
     \<lparr>sn_Principal = sample_ref CHR ''1'', sn_PolicyRevision = 4, sn_DefaultRevision = 2,
      sn_Default = HTTPDefaultBlock,
      sn_Grants = [sample_grant CHR ''3'' sample_allow, sample_grant CHR ''2'' sample_block,
                   sample_grant CHR ''4'' sample_tunnel],
      sn_Credentials = [sample_credential]\<rparr>"

definition sample_evaluator :: Evaluator where
  "sample_evaluator =
     \<lparr>ev_principal = sample_ref CHR ''1'', ev_revision = 4, ev_defaultRevision = 2,
      ev_defaultPolicy = HTTPDefaultBlock,
      ev_grants = [sample_grant CHR ''2'' sample_block, sample_grant CHR ''3'' sample_allow,
                   sample_grant CHR ''4'' sample_tunnel],
      ev_credentials = [ref_ID (sample_ref CHR ''9'') \<mapsto>
         \<lparr>cc_ref = sample_ref CHR ''9'', cc_available = True,
          cc_origins = [\<lparr>sc_host = sample_api, sc_scheme = ''https'', sc_port = 443\<rparr>]\<rparr>]\<rparr>"

definition sample_request :: Request where
  "sample_request =
     \<lparr>rq_destination = \<lparr>dest_host = ''api.example.com'', dest_port = 443\<rparr>, rq_scheme = ''https'',
      rq_method = ''GET'', rq_path = ''/v1/items'', rq_query = [], rq_escapedPath = [],
      rq_forceQuery = False\<rparr>"

lemmas sample_defs = sample_ref_def sample_idna_def sample_grant_def sample_api_def sample_allow_def
  sample_tunnel_def sample_block_def sample_credential_def sample_snapshot_def sample_evaluator_def
  sample_request_def

lemma sample_compiled:
  "compileCredential sample_idna sample_credential =
     Inr \<lparr>cc_ref = sample_ref CHR ''9'', cc_available = True,
          cc_origins = [\<lparr>sc_host = sample_api, sc_scheme = ''https'', sc_port = 443\<rparr>]\<rparr>"
  by code_simp

lemma sample_loadable:
  "list_all (grant_loadable (ev_credentials sample_evaluator)) (sn_Grants sample_snapshot)"
  by code_simp

lemma sample_New: "New sample_idna sample_snapshot = Inr sample_evaluator"
proof -
  have "load_credentials sample_idna Map.empty (sn_Credentials sample_snapshot) =
      Inr (ev_credentials sample_evaluator)"
    by (simp add: sample_snapshot_def sample_evaluator_def sample_compiled)
      (simp add: sample_credential_def)
  moreover have "load_grants (ev_credentials sample_evaluator) (ref_ID (sn_Principal sample_snapshot)) []
      (sn_Grants sample_snapshot) = Inr (sn_Grants sample_snapshot)"
    unfolding load_grants_Inr_iff using sample_loadable
    by (simp add: sample_snapshot_def sample_grant_def sample_ref_def)
  moreover have "validRef (sn_Principal sample_snapshot)"
    by code_simp
  moreover have "sort_key (\<lambda>g. ref_ID (g_Ref g)) (sn_Grants sample_snapshot) = ev_grants sample_evaluator"
    by (simp add: sample_snapshot_def sample_evaluator_def sample_grant_def sample_ref_def
        less_eq_list_code eval_nat_numeral insort_key.simps)
  ultimately show ?thesis
    by (simp add: New_def HTTPPolicyGrants_def HTTPPolicyCredentials_def)
      (simp add: sample_snapshot_def sample_evaluator_def)
qed

definition sample_facts :: AddressFacts where
  "sample_facts = \<lparr>facts_Complete = True, facts_Addresses = [IPv4 (ip4 93 184 216 34)],
     facts_GatewayListeners = [(IPv4 (ip4 127 0 0 1), 8080)]\<rparr>"

definition sample_wire :: HTTPPolicy where
  "sample_wire =
     \<lparr>hp_Version = 1, hp_Type = HTTPAllowRequests, hp_Destination = None,
      hp_Request = Some \<lparr>rs_Origin = \<lparr>os_Scheme = ''https'', os_Host = ''*.example.com'', os_Port = 443\<rparr>,
        rs_Methods = \<lparr>hm_Any = False, hm_Values = Some [''GET'']\<rparr>,
        rs_Path = \<lparr>ps_Kind = HTTPPathPrefix, ps_Value = ''/v1/''\<rparr>\<rparr>,
      hp_AllowPrivate = Some True, hp_CredentialID = Some (ref_ID (sample_ref CHR ''9''))\<rparr>"

lemma sample_wire_parts:
  "parseOrigin sample_idna \<lparr>os_Scheme = ''https'', os_Host = ''*.example.com'', os_Port = 443\<rparr> =
     Inr \<lparr>sc_host = sample_api, sc_scheme = ''https'', sc_port = 443\<rparr>"
  "compileMethods \<lparr>hm_Any = False, hm_Values = Some [''GET'']\<rparr> = Inr [''GET'']"
  "compilePath \<lparr>ps_Kind = HTTPPathPrefix, ps_Value = ''/v1/''\<rparr> = Inr ''/v1''"
  "ValidAuditID (ref_ID (sample_ref CHR ''9''))"
  by code_simp+

lemma sample_decision:
  "\<exists>d. RequestPolicy (Some sample_evaluator) sample_request = Inr d \<and> hd_Allowed d \<and>
       hd_Credential d = Some (sample_ref CHR ''9'')"
proof -
  have "(case RequestPolicy (Some sample_evaluator) sample_request of Inl _ \<Rightarrow> False
      | Inr d \<Rightarrow> hd_Allowed d \<and> hd_Credential d = Some (sample_ref CHR ''9''))"
    by code_simp
  then show ?thesis
    by (cases "RequestPolicy (Some sample_evaluator) sample_request") simp_all
qed

lemma sample_addresses:
  "checkAddresses (rq_destination sample_request) sample_facts False = Inr HTTPReasonNone"
  "checkAddresses \<lparr>dest_host = ''git.example.net'', dest_port = 443\<rparr> sample_facts False = Inr HTTPReasonNone"
  by code_simp+

subsection \<open>Decisions\<close>

text \<open>
  C1: An evaluator built from a snapshot answers every well-formed request, and allows it exactly when no
  grant of the principal blocks its destination or the request, the matching allow grants that name
  a credential all name the same one and that credential is available, and some allow grant matches
  or the default is to allow.
\<close>

theorem request_policy_exact:
  assumes "New idna s = Inr e" and "dest_host (rq_destination r) \<noteq> []" and "rq_path r \<noteq> []"
  shows "\<exists>d. RequestPolicy (Some e) r = Inr d \<and>
     (hd_Allowed d \<longleftrightarrow>
        (\<forall>g \<in> set (principal_grants s).
           \<not> destination_block (rq_destination r) g \<and> \<not> request_block r g) \<and>
        (\<forall>g \<in> set (principal_grants s). \<forall>g' \<in> set (principal_grants s).
           credential_grant r g \<longrightarrow> credential_grant r g' \<longrightarrow>
           p_credential (g_Policy g) = p_credential (g_Policy g')) \<and>
        (\<forall>g \<in> set (principal_grants s). credential_grant r g \<longrightarrow>
           (\<exists>c \<in> set (sn_Credentials s).
              ref_ID (cr_Ref c) = p_credential (g_Policy g) \<and> cr_Available c)) \<and>
        ((\<exists>g \<in> set (principal_grants s). allow_grant r g) \<or> sn_Default s = HTTPDefaultAllow))"
  using RequestPolicy_allowed_iff [OF New_wf [OF assms(1)] assms(2,3)]
  unfolding credentials_agree_def credentials_available_def New_grants [OF assms(1)]
    New_default [OF assms(1)] New_available [OF assms(1)] .

lemma sample_principal_grants: "principal_grants sample_snapshot = sn_Grants sample_snapshot"
  by (simp add: principal_grants_def sample_defs)

lemma sample_matches:
  "\<not> destination_block (rq_destination sample_request) (sample_grant c sample_allow)"
  "\<not> destination_block (rq_destination sample_request) (sample_grant c sample_block)"
  "\<not> destination_block (rq_destination sample_request) (sample_grant c sample_tunnel)"
  "\<not> request_block sample_request (sample_grant c sample_allow)"
  "\<not> request_block sample_request (sample_grant c sample_block)"
  "\<not> request_block sample_request (sample_grant c sample_tunnel)"
  "allow_grant sample_request (sample_grant c sample_allow)"
  "credential_grant sample_request (sample_grant c sample_allow)"
  "\<not> credential_grant sample_request (sample_grant c sample_block)"
  "\<not> credential_grant sample_request (sample_grant c sample_tunnel)"
  by (simp_all add: destination_block_def request_block_def allow_grant_def credential_grant_def
      matchesDestination_def matchesRequest_def hostScope_matches_def HasSuffix_iff HasPrefix_iff
      sample_defs zero_Policy_def eval_nat_numeral)

lemma sample_no_private:
  "(\<exists>g \<in> set (principal_grants sample_snapshot). P g \<and> p_private (g_Policy g)) = False"
  unfolding sample_principal_grants by (simp add: sample_defs zero_Policy_def)

lemma sample_tunnel_matches:
  "(\<forall>g \<in> set (principal_grants sample_snapshot).
     \<not> destination_block \<lparr>dest_host = ''git.example.net'', dest_port = 443\<rparr> g)"
  "(\<exists>g \<in> set (principal_grants sample_snapshot).
     tunnel_grant \<lparr>dest_host = ''git.example.net'', dest_port = 443\<rparr> g)"
  unfolding sample_principal_grants
  by (simp_all add: destination_block_def tunnel_grant_def
      matchesDestination_def hostScope_matches_def HasSuffix_iff sample_defs zero_Policy_def)

theorem request_policy_exact_witness:
  "\<exists>d. RequestPolicy (Some sample_evaluator) sample_request = Inr d \<and> hd_Allowed d"
proof -
  have "dest_host (rq_destination sample_request) \<noteq> []" and "rq_path sample_request \<noteq> []"
    by (simp_all add: sample_request_def)
  note exact = request_policy_exact [OF sample_New this]
  have "p_credential (g_Policy (sample_grant CHR ''3'' sample_allow)) = ref_ID (cr_Ref sample_credential)"
      "cr_Available sample_credential"
    by (simp_all add: sample_grant_def sample_allow_def sample_credential_def)
  then show ?thesis
    using exact unfolding sample_principal_grants
    by (simp add: sample_snapshot_def sample_matches)
qed

text \<open>
  The decision procedure depends on the grants and credentials of a snapshot as multisets only: reordering
  either leaves the evaluator, and so every decision and every reported reference, unchanged.
\<close>

theorem evaluator_order_independent:
  assumes "mset gs = mset (sn_Grants s)" and "mset cs = mset (sn_Credentials s)"
  shows "New idna (s\<lparr>sn_Grants := gs, sn_Credentials := cs\<rparr>) = New idna s"
  using assms by (intro New_perm) simp_all

theorem evaluator_order_independent_witness:
  "New sample_idna (sample_snapshot\<lparr>sn_Grants := rev (sn_Grants sample_snapshot),
     sn_Credentials := sn_Credentials sample_snapshot\<rparr>) = Inr sample_evaluator"
  using evaluator_order_independent [of "rev (sn_Grants sample_snapshot)" sample_snapshot
      "sn_Credentials sample_snapshot" sample_idna] sample_New by simp

text \<open>
  C2: When a request is allowed and a credential is selected for it, that credential is one of the
  snapshot's, at its current revision, available, and its own boundary admits the request: the
  secret is never attached to an origin outside the credential's boundary, and never to plain HTTP.
\<close>

theorem selected_credential_admits:
  assumes "New idna s = Inr e" and "RequestPolicy (Some e) r = Inr d" and "hd_Allowed d"
    and "hd_Credential d = Some ref"
  shows "\<exists>c \<in> set (sn_Credentials s). cr_Ref c = ref \<and> cr_Available c \<and>
           CredentialAllowsRequest idna c r = Inr True \<and> rq_scheme r = ''https''"
proof -
  note d = RequestPolicy_allowedD [OF assms(2,3)]
  from d(4) assms(4) obtain g where g: "g \<in> set (ev_grants e)" "credential_grant r g"
      "ref = grant_credential e g"
    by (cases "find (credential_grant r) (ev_grants e)") (auto dest: find_SomeD)
  with wf_credential [OF New_wf [OF assms(1)], of g] obtain cc where
      cc: "ev_credentials e (p_credential (g_Policy g)) = Some cc" "compiledCredential_covers cc (g_Policy g)"
    by (auto simp: credential_grant_def)
  then obtain c where c: "c \<in> set (sn_Credentials s)" "compileCredential idna c = Inr cc"
    using New_credentials [OF assms(1)] by blast
  have ref: "ref = cc_ref cc" "ref_ID ref = p_credential (g_Policy g)"
    using g(3) cc(1) wf_grant_credential [OF New_wf [OF assms(1)] g(1,2)]
    by (simp_all add: credential_ref_def)
  moreover have "cr_Available c"
    using d(5) [OF assms(4)] cc(1) c(2) ref by (auto simp: credential_available_def dest: compileCredential_ref)
  moreover obtain b where b: "b \<in> set (cc_origins cc)" "originScope_covers b (request_origin r)"
    using cc(2) g(2) by (auto simp: compiledCredential_covers_iff originScope_covers_request
        credential_grant_def allow_grant_def matchesRequest_def matchesDestination_def split: if_splits)
  moreover from b have "rq_scheme r = ''https''"
    using compileCredential_https [OF c(2)] by (auto simp: originScope_covers_request origin_admits_def)
  moreover from b this have "CredentialAllowsRequest idna c r = Inr True"
    using c(2) d(2) by (auto simp: CredentialAllowsRequest_def list_ex_iff)
  ultimately show ?thesis
    using c(1) compileCredential_ref [OF c(2)] by auto
qed

theorem selected_credential_admits_witness:
  "\<exists>c \<in> set (sn_Credentials sample_snapshot). cr_Ref c = sample_ref CHR ''9'' \<and> cr_Available c \<and>
     CredentialAllowsRequest sample_idna c sample_request = Inr True \<and> rq_scheme sample_request = ''https''"
  using sample_decision selected_credential_admits [OF sample_New] by blast

text \<open>
  C9: A request passes the complete check exactly when the policy allows it and the address facts are
  complete, bounded and consistent with a literal host, every resolved address is public or private
  with a matching allow grant that permits private networks, and none is a listener of the gateway.
\<close>

theorem request_address_exact:
  assumes "New idna s = Inr e"
  shows "(\<exists>d. Request_eval (Some e) r f = Inr d \<and> hd_Allowed d) \<longleftrightarrow>
     (\<exists>d. RequestPolicy (Some e) r = Inr d \<and> hd_Allowed d) \<and>
     facts_usable (rq_destination r) f \<and>
     (\<forall>ip \<in> set (facts_Addresses f). address_admissible (rq_destination r) f
        (\<exists>g \<in> set (principal_grants s). allow_grant r g \<and> p_private (g_Policy g)) ip)"
proof (cases "\<exists>d. RequestPolicy (Some e) r = Inr d \<and> hd_Allowed d")
  case True
  then obtain d where d: "RequestPolicy (Some e) r = Inr d" "hd_Allowed d"
    by blast
  have "(hd_PrivateGrant d \<noteq> None) =
      (\<exists>g \<in> set (principal_grants s). allow_grant r g \<and> p_private (g_Policy g))"
    unfolding RequestPolicy_allowedD(3) [OF d] New_grants [OF assms, symmetric]
    by (auto simp: find_None_iff)
  then show ?thesis
    using True d finishAddress_allowed_iff [of d "rq_destination r" f]
    by (simp add: Request_eval_def checkAddresses_admits_iff)
next
  case False
  then show ?thesis
    by (auto simp: Request_eval_def split: sum.splits if_splits)
qed

theorem request_address_exact_witness:
  "\<exists>d. Request_eval (Some sample_evaluator) sample_request sample_facts = Inr d \<and> hd_Allowed d"
  unfolding request_address_exact [OF sample_New] sample_no_private
  using sample_decision sample_addresses(1) unfolding checkAddresses_admits_iff by blast

text \<open>
  C13: \<open>CONNECT\<close> opens a raw tunnel exactly when the destination is named, no grant of the principal
  blocks it, some tunnel grant matches it, and the addresses are admissible; without a tunnel grant
  the connection is never allowed as a tunnel.
\<close>

theorem connect_tunnel_exact:
  assumes "New idna s = Inr e"
  shows "(\<exists>r. Connect (Some e) d f = Inr r \<and> hd_Allowed r) \<longleftrightarrow>
     dest_host d \<noteq> [] \<and> dest_port d \<noteq> 0 \<and>
     (\<forall>g \<in> set (principal_grants s). \<not> destination_block d g) \<and>
     (\<exists>g \<in> set (principal_grants s). tunnel_grant d g) \<and>
     facts_usable d f \<and>
     (\<forall>ip \<in> set (facts_Addresses f). address_admissible d f
        (\<exists>g \<in> set (principal_grants s). tunnel_grant d g \<and> p_private (g_Policy g)) ip)"
proof (cases "\<exists>r. ConnectPolicy (Some e) d = Inr r \<and> hd_Allowed r")
  case True
  then obtain r where r: "ConnectPolicy (Some e) d = Inr r" "hd_Allowed r"
    by blast
  from True have allowed: "dest_host d \<noteq> []" "dest_port d \<noteq> 0"
      "\<forall>g \<in> set (principal_grants s). \<not> destination_block d g"
      "\<exists>g \<in> set (principal_grants s). tunnel_grant d g"
    unfolding ConnectPolicy_allowed_iff New_grants [OF assms] by blast+
  have "(hd_PrivateGrant r \<noteq> None) =
      (\<exists>g \<in> set (principal_grants s). tunnel_grant d g \<and> p_private (g_Policy g))"
    using ConnectPolicy_private [OF r(1)] allowed(3)
    by (auto simp: destinationBlock_None_iff New_grants [OF assms] find_None_iff)
  then show ?thesis
    using allowed r finishAddress_allowed_iff [of r d f]
    by (simp add: Connect_def checkAddresses_admits_iff)
next
  case False
  then show ?thesis
    unfolding ConnectPolicy_allowed_iff New_grants [OF assms]
    using False by (auto simp: Connect_def split: sum.splits if_splits)
qed

theorem connect_tunnel_exact_witness:
  "\<exists>r. Connect (Some sample_evaluator) \<lparr>dest_host = ''git.example.net'', dest_port = 443\<rparr> sample_facts =
         Inr r \<and> hd_Allowed r"
  unfolding connect_tunnel_exact [OF sample_New] sample_no_private
  using sample_addresses(2) sample_tunnel_matches unfolding checkAddresses_admits_iff by simp

text \<open>
  C23: The syntactic containment check of a credential boundary is exact: it accepts an HTTPS allow policy if
  and only if every host the policy's scope can match is admitted, on the policy's scheme and port, by
  one of the boundary's origins (wildcards match whole labels below their suffix, never the suffix).
\<close>

theorem credential_containment_exact:
  assumes "compileCredential idna c = Inr b" and "p_valid p" and "p_kind p = HTTPAllowRequests"
    and "p_scheme p = ''https''"
  shows "CredentialContains idna c p =
     Inr (\<forall>h. hostScope_matches (p_host p) h \<longrightarrow>
            (\<exists>o' \<in> set (cc_origins b). origin_admits o' (p_scheme p) h (p_port p)))"
  using assms by (simp add: CredentialContains_def compiledCredential_covers_iff)

theorem credential_containment_exact_witness:
  "CredentialContains sample_idna sample_credential sample_allow =
     Inr (\<forall>h. hostScope_matches sample_api h \<longrightarrow>
       (\<exists>o' \<in> {\<lparr>sc_host = sample_api, sc_scheme = ''https'', sc_port = 443\<rparr>}.
          origin_admits o' ''https'' h 443))"
  using credential_containment_exact [OF sample_compiled, of sample_allow]
  by (simp add: sample_allow_def)

text \<open>
  A compiled policy with a path prefix matches a request on the policy's host, port, scheme and methods
  exactly when the segments of the prefix are an initial part of the segments of the request's
  path: \<open>/v1\<close> matches \<open>/v1/items\<close> and never \<open>/v10\<close>.
\<close>

theorem path_prefix_by_segment:
  assumes "p_pathKind p = HTTPPathPrefix" and "p_path p \<noteq> ''/''"
    and "matchesDestination p (rq_destination r)" and "p_scheme p = rq_scheme r"
    and "p_methods p = [] \<or> rq_method r \<in> set (p_methods p)"
  shows "matchesRequest p r \<longleftrightarrow> prefix (Split CHR ''/'' (p_path p)) (Split CHR ''/'' (rq_path r))"
  using assms by (auto simp: matchesRequest_def prefix_Split_iff)

theorem path_prefix_by_segment_witness:
  "matchesRequest sample_allow sample_request \<longleftrightarrow>
     prefix (Split CHR ''/'' (p_path sample_allow)) (Split CHR ''/'' (rq_path sample_request))"
  by (rule path_prefix_by_segment)
    (simp_all add: sample_defs matchesDestination_def hostScope_matches_def HasSuffix_iff eval_nat_numeral)

text \<open>
  C25: Normalising a request path never changes what it addresses and leaves nothing to normalise: the
  result starts with a slash, is a fixed point of the normaliser, decodes segment by segment to the
  same bytes as the input, and has no \<open>.\<close> or \<open>..\<close> segment in plain or escaped form.
\<close>

theorem request_path_normal_form:
  assumes "requestPath raw = Inr p"
  shows "p \<noteq> [] \<and> hd p = CHR ''/'' \<and> requestPath p = Inr p \<and>
     map pct_decode (Split CHR ''/'' p) = map pct_decode (Split CHR ''/'' raw) \<and>
     \<not> list_ex dot_segment (Split CHR ''/'' p)"
  using requestPath_shape [OF assms] requestPath_idem [OF assms] requestPath_segments [OF assms] by simp

theorem request_path_normal_form_witness:
  "requestPath ''/a%2fb/%7Euser'' = Inr ''/a%2Fb/~user'' \<and> requestPath ''/a%2Fb/~user'' = Inr ''/a%2Fb/~user''"
proof -
  have "requestPath ''/a%2fb/%7Euser'' = Inr ''/a%2Fb/~user''"
    by code_simp
  with request_path_normal_form [OF this] show ?thesis by blast
qed

text \<open>
  C37: Whatever wire policy compiles, the compiled policy is well formed: a known kind, a non-empty host, a
  port, a known scheme, sorted distinct methods without \<open>CONNECT\<close>, a known path kind whose prefix has
  no trailing slash, a credential only on an HTTPS allow policy, and no private permission on a block.
\<close>

theorem compile_well_formed:
  assumes "Compile idna p = Inr c"
  shows "wf_Policy c"
  using assms by (rule Compile_wf)

theorem compile_well_formed_witness:
  "\<exists>c. wf_Policy c \<and> Compile sample_idna sample_wire = Inr c"
proof -
  have "is_ok (Compile sample_idna sample_wire)"
    by (simp add: Compile_def sample_wire_def HTTPPolicyVersion_def sample_wire_parts)
  then obtain c where "Compile sample_idna sample_wire = Inr c"
    by (cases "Compile sample_idna sample_wire") simp_all
  with compile_well_formed [OF this] show ?thesis by blast
qed

text \<open>
  The network part of the Git decision: a Git destination is admitted exactly when no grant of the
  principal blocks it and the resolved addresses are admissible, private ones only under a matching
  allow grant that permits private networks.
\<close>

theorem git_destination_exact:
  assumes "New idna s = Inr e"
  shows "(\<exists>ref. GitDestination (Some e) r f = Inr (True, ref)) \<longleftrightarrow>
     dest_host (rq_destination r) \<noteq> [] \<and>
     (\<forall>g \<in> set (principal_grants s). \<not> destination_block (rq_destination r) g) \<and>
     facts_usable (rq_destination r) f \<and>
     (\<forall>ip \<in> set (facts_Addresses f). address_admissible (rq_destination r) f
        (\<exists>g \<in> set (principal_grants s). allow_grant r g \<and> p_private (g_Policy g)) ip)"
proof -
  let ?private = "\<exists>g \<in> set (principal_grants s). allow_grant r g \<and> p_private (g_Policy g)"
  have private_iff: "(find (\<lambda>g. p_kind (g_Policy g) = HTTPAllowRequests \<and> p_private (g_Policy g)
      \<and> matchesRequest (g_Policy g) r) (ev_grants e) \<noteq> None) = ?private"
    unfolding find_not_None New_grants [OF assms] by (auto simp: allow_grant_def)
  have "(\<exists>ref. GitDestination (Some e) r f = Inr (True, ref)) \<longleftrightarrow>
      dest_host (rq_destination r) \<noteq> [] \<and> destinationBlock e (rq_destination r) = None \<and>
      checkAddresses (rq_destination r) f ?private = Inr HTTPReasonNone"
    unfolding private_iff [symmetric] by (auto simp: GitDestination_def Let_def split: sum.splits)
  then show ?thesis
    unfolding destinationBlock_None_iff New_grants [OF assms] checkAddresses_admits_iff by blast
qed

lemma sample_unblocked:
  "\<forall>g \<in> set (principal_grants sample_snapshot). \<not> destination_block (rq_destination sample_request) g"
  unfolding sample_principal_grants by (simp add: sample_snapshot_def sample_matches)

theorem git_destination_exact_witness:
  "\<exists>ref. GitDestination (Some sample_evaluator) sample_request sample_facts = Inr (True, ref)"
  unfolding git_destination_exact [OF sample_New] sample_no_private
  using sample_addresses(1) sample_unblocked unfolding checkAddresses_admits_iff
  by (simp add: sample_request_def)

end
