(* ===== verification/Git_Policy.thy ===== *)
theory Git_Policy
  imports Http_Policy
begin

text \<open>
  \<open>internal/gitpolicy/policy.go\<close> over the types of \<open>internal/contract/git.go\<close>: canonical revisions,
  overlap of repository locators, the normal form of a Git policy and the evaluation of a push or a
  read against an unordered union of allows. The normal form is shown to be canonical (idempotent,
  independent of the order of rules and actions, meaning preserved), and the evaluation to be the
  pointwise union over the policies as they were written.
\<close>

definition GitGrants :: nat where "GitGrants = 4096"
definition GitRules :: nat where "GitRules = 128"
definition GitRequestedRefs :: nat where "GitRequestedRefs = 128"

record GitRefSelector =
  sel_Kind :: string
  sel_Value :: string

record GitRefRule =
  rule_Ref :: GitRefSelector
  rule_Actions :: "string list"

record GitPolicy =
  gp_Version :: int
  gp_Read :: bool
  gp_Refs :: "GitRefRule list option"

record RefAction =
  ra_Ref :: string
  ra_Action :: string

record git_Grant =
  gg_Policy :: GitPolicy

datatype git_error = ErrInvalidGit

definition ValidRevision :: "string \<Rightarrow> bool" where
  "ValidRevision value \<longleftrightarrow> canonical_positive value"

definition git_Overlaps :: "string \<Rightarrow> string \<Rightarrow> bool" where
  "git_Overlaps a b \<longleftrightarrow> a = b \<or> HasPrefix a (b @ ''/'') \<or> HasPrefix b (a @ ''/'')"

definition ValidRef :: "string \<Rightarrow> bool" where
  "ValidRef value = ValidGitRefName value"

definition git_actions :: "string list" where
  "git_actions = [''create'', ''update'', ''delete'']"

subsection \<open>The normal form\<close>

definition valid_selector :: "GitRefSelector \<Rightarrow> bool" where
  "valid_selector s \<longleftrightarrow>
     sel_Kind s = ''exact'' \<and> ValidRef (sel_Value s) \<or>
     sel_Kind s = ''prefix'' \<and> HasSuffix (sel_Value s) ''/'' \<and> ValidRef (sel_Value s @ ''x'') \<and>
       length (sel_Value s) \<le> GitRefBytes"

fun normalize_rules :: "GitRefSelector list \<Rightarrow> GitRefRule list \<Rightarrow> git_error + GitRefRule list" where
  "normalize_rules seen [] = Inr []"
| "normalize_rules seen (rule # rules) =
     (if \<not> valid_selector (rule_Ref rule) \<or> rule_Ref rule \<in> set seen \<or> length (rule_Actions rule) = 0
         \<or> length (rule_Actions rule) > 3 then Inl ErrInvalidGit
      else
        let actions = sort (rule_Actions rule) in
        if \<not> (list_all (\<lambda>a. a \<in> set git_actions) actions \<and> adjacent_distinct actions)
        then Inl ErrInvalidGit
        else
          (case normalize_rules (rule_Ref rule # seen) rules of
             Inl e \<Rightarrow> Inl e
           | Inr out \<Rightarrow> Inr (\<lparr>rule_Ref = rule_Ref rule, rule_Actions = actions\<rparr> # out)))"

definition rule_key :: "GitRefRule \<Rightarrow> string" where
  "rule_key r = sel_Kind (rule_Ref r) @ '':'' @ sel_Value (rule_Ref r)"

definition Normalize :: "GitPolicy \<Rightarrow> git_error + GitPolicy" where
  "Normalize policy =
     (case gp_Refs policy of
        None \<Rightarrow> Inl ErrInvalidGit
      | Some refs \<Rightarrow>
          if gp_Version policy \<noteq> 1 \<or> length refs > GitRules \<or> length refs \<noteq> 0 \<and> \<not> gp_Read policy
          then Inl ErrInvalidGit
          else
            (case normalize_rules [] refs of
               Inl e \<Rightarrow> Inl e
             | Inr out \<Rightarrow>
                 Inr \<lparr>gp_Version = 1, gp_Read = gp_Read policy, gp_Refs = Some (sort_key rule_key out)\<rparr>))"

subsection \<open>Evaluation\<close>

definition rule_allows :: "RefAction \<Rightarrow> GitRefRule \<Rightarrow> bool" where
  "rule_allows action rule \<longleftrightarrow>
     (sel_Kind (rule_Ref rule) = ''exact'' \<and> sel_Value (rule_Ref rule) = ra_Ref action \<or>
      sel_Kind (rule_Ref rule) = ''prefix'' \<and> HasPrefix (ra_Ref action) (sel_Value (rule_Ref rule))) \<and>
     ra_Action action \<in> set (rule_Actions rule)"

definition policy_refs :: "GitPolicy \<Rightarrow> GitRefRule list" where
  "policy_refs p = (case gp_Refs p of None \<Rightarrow> [] | Some rs \<Rightarrow> rs)"

definition valid_action :: "RefAction \<Rightarrow> bool" where
  "valid_action action \<longleftrightarrow> ValidRef (ra_Ref action) \<and> ra_Action action \<in> set git_actions"

definition git_Evaluate :: "git_Grant list \<Rightarrow> RefAction list \<Rightarrow> git_error + bool" where
  "git_Evaluate grants actions =
     (if length grants > GitGrants \<or> length actions > GitRequestedRefs then Inl ErrInvalidGit
      else
        (case map_result (\<lambda>g. Normalize (gg_Policy g)) grants of
           Inl e \<Rightarrow> Inl e
         | Inr policies \<Rightarrow>
             if length actions = 0 then Inr (list_ex gp_Read policies)
             else if \<not> scan_distinct valid_action ra_Ref [] actions then Inl ErrInvalidGit
             else
               Inr (list_all (\<lambda>action.
                      list_ex (\<lambda>p. list_ex (rule_allows action) (policy_refs p)) policies) actions)))"

subsection \<open>Normal forms are canonical\<close>

definition normal_rule :: "GitRefRule \<Rightarrow> GitRefRule" where
  "normal_rule r = r\<lparr>rule_Actions := sort (rule_Actions r)\<rparr>"

definition valid_rule :: "GitRefRule \<Rightarrow> bool" where
  "valid_rule r \<longleftrightarrow>
     valid_selector (rule_Ref r) \<and> rule_Actions r \<noteq> [] \<and> length (rule_Actions r) \<le> 3 \<and>
     set (rule_Actions r) \<subseteq> set git_actions \<and> distinct (rule_Actions r)"

lemma sort_key_Nil_iff [simp]: "sort_key f xs = [] \<longleftrightarrow> xs = []"
  by (simp flip: length_0_conv)

lemma distinct_map_sort_key: "distinct (map f (sort_key k xs)) \<longleftrightarrow> distinct (map f xs)"
  by (simp add: distinct_map)

lemma normal_rule_simps [simp]:
  "rule_Ref (normal_rule r) = rule_Ref r" "rule_key (normal_rule r) = rule_key r"
  "set (rule_Actions (normal_rule r)) = set (rule_Actions r)"
  "normal_rule (normal_rule r) = normal_rule r" "valid_rule (normal_rule r) = valid_rule r"
  by (simp_all add: normal_rule_def rule_key_def valid_rule_def sorted_sort_id)

lemma rule_allows_normal [simp]: "rule_allows a (normal_rule r) = rule_allows a r"
  by (simp add: rule_allows_def)

lemma normalize_rules_Inr_iff:
  "normalize_rules seen rs = Inr out \<longleftrightarrow>
     list_all valid_rule rs \<and> distinct (map rule_Ref rs) \<and> set (map rule_Ref rs) \<inter> set seen = {} \<and>
     out = map normal_rule rs"
proof (induction rs arbitrary: seen out)
  case (Cons r rs)
  have ok: "list_all (\<lambda>a. a \<in> set git_actions) (sort (rule_Actions r)) \<and>
      adjacent_distinct (sort (rule_Actions r)) \<longleftrightarrow>
      set (rule_Actions r) \<subseteq> set git_actions \<and> distinct (rule_Actions r)"
    by (auto simp: adjacent_distinct_sorted list_all_iff)
  have "normalize_rules seen (r # rs) = Inr out \<longleftrightarrow>
      valid_rule r \<and> rule_Ref r \<notin> set seen \<and>
      (\<exists>o'. normalize_rules (rule_Ref r # seen) rs = Inr o' \<and> out = normal_rule r # o')"
    unfolding normalize_rules.simps ok Let_def
    by (auto simp: valid_rule_def normal_rule_def split: sum.splits if_splits)
  then show ?case
    by (auto simp: Cons)
qed auto

lemma normalize_rules_Inl: "normalize_rules seen rs = Inl e \<Longrightarrow> e = ErrInvalidGit"
  by (cases e) simp

definition valid_policy :: "GitPolicy \<Rightarrow> bool" where
  "valid_policy p \<longleftrightarrow>
     gp_Version p = 1 \<and> gp_Refs p \<noteq> None \<and> length (policy_refs p) \<le> GitRules \<and>
     (policy_refs p \<noteq> [] \<longrightarrow> gp_Read p) \<and> list_all valid_rule (policy_refs p) \<and>
     distinct (map rule_Ref (policy_refs p))"

lemma Normalize_Inr_iff:
  "Normalize p = Inr q \<longleftrightarrow>
     valid_policy p \<and> q = p\<lparr>gp_Refs := Some (sort_key rule_key (map normal_rule (policy_refs p)))\<rparr>"
proof (cases "gp_Refs p")
  case None
  then show ?thesis by (simp add: Normalize_def valid_policy_def)
next
  case (Some rs)
  define ok where "ok \<longleftrightarrow> list_all valid_rule rs \<and> distinct (map rule_Ref rs)"
  have rules: "normalize_rules [] rs = (if ok then Inr (map normal_rule rs) else Inl ErrInvalidGit)"
    using normalize_rules_Inr_iff [of "[]" rs] normalize_rules_Inl [of "[]" rs] unfolding ok_def
    by (cases "normalize_rules [] rs") auto
  have "valid_policy p \<longleftrightarrow> gp_Version p = 1 \<and> length rs \<le> GitRules \<and> (rs \<noteq> [] \<longrightarrow> gp_Read p) \<and> ok"
    by (simp add: valid_policy_def policy_refs_def Some ok_def)
  then show ?thesis
    by (auto simp: Normalize_def policy_refs_def Some rules)
qed

lemma Normalize_ok_iff: "is_ok (Normalize p) \<longleftrightarrow> valid_policy p"
  using Normalize_Inr_iff [of p] by (cases "Normalize p") (auto simp: is_ok_def)

lemma rule_key_inj:
  assumes "valid_selector (rule_Ref r)" and "valid_selector (rule_Ref r')" and "rule_key r = rule_key r'"
  shows "rule_Ref r = rule_Ref r'"
  using assms by (auto simp: valid_selector_def rule_key_def intro!: GitRefSelector.equality)

lemma valid_policy_keys:
  assumes "valid_policy p"
  shows "distinct (map rule_key (policy_refs p))"
proof -
  have "inj_on rule_key (set (policy_refs p))"
  proof (rule inj_onI)
    fix r r' assume r: "r \<in> set (policy_refs p)" "r' \<in> set (policy_refs p)" "rule_key r = rule_key r'"
    with assms have "rule_Ref r = rule_Ref r'"
      by (intro rule_key_inj) (auto simp: valid_policy_def list_all_iff valid_rule_def)
    with r assms show "r = r'"
      by (auto simp: valid_policy_def distinct_map dest: inj_onD)
  qed
  then show ?thesis
    using assms by (simp add: valid_policy_def distinct_map)
qed

lemma policy_refs_Normalize:
  "Normalize p = Inr q \<Longrightarrow> policy_refs q = sort_key rule_key (map normal_rule (policy_refs p))"
  by (simp add: Normalize_Inr_iff policy_refs_def)

lemma Normalize_allows:
  assumes "Normalize p = Inr q"
  shows "list_ex (rule_allows a) (policy_refs q) = list_ex (rule_allows a) (policy_refs p)"
  by (simp add: policy_refs_Normalize [OF assms] list_ex_iff)

lemma Normalize_idem:
  assumes "Normalize p = Inr q"
  shows "Normalize q = Inr q"
proof -
  from assms have p: "valid_policy p"
      and q: "q = p\<lparr>gp_Refs := Some (sort_key rule_key (map normal_rule (policy_refs p)))\<rparr>"
    by (simp_all add: Normalize_Inr_iff)
  note refs = policy_refs_Normalize [OF assms]
  have "distinct (map rule_Ref (policy_refs q))"
    using p unfolding refs valid_policy_def by (simp add: distinct_map_sort_key comp_def)
  then have "valid_policy q"
    using p unfolding valid_policy_def refs by (simp add: q list_all_iff)
  moreover have "map normal_rule (policy_refs q) = policy_refs q"
    unfolding refs by (rule map_idI) auto
  moreover have "sort_key rule_key (policy_refs q) = policy_refs q"
    unfolding refs by (rule sort_key_id_if_sorted) simp
  ultimately show ?thesis
    by (simp add: Normalize_Inr_iff) (simp add: q policy_refs_def)
qed

lemma Normalize_perm:
  assumes "gp_Refs p = Some rs" and "mset (map normal_rule rs) = mset (map normal_rule rs')"
    and "valid_policy p" and "valid_policy (p\<lparr>gp_Refs := Some rs'\<rparr>)"
  shows "Normalize (p\<lparr>gp_Refs := Some rs'\<rparr>) = Normalize p"
proof -
  have "distinct (map rule_key (map normal_rule rs))"
    using valid_policy_keys [OF assms(3)] assms(1) by (simp add: policy_refs_def comp_def)
  from sort_key_cong_perm [OF this assms(2)]
  have eq: "sort_key rule_key (map normal_rule rs) = sort_key rule_key (map normal_rule rs')" .
  have "Normalize p = Inr (p\<lparr>gp_Refs := Some (sort_key rule_key (map normal_rule rs'))\<rparr>)"
    unfolding Normalize_Inr_iff using assms(1,3) eq by (simp add: policy_refs_def)
  moreover have "Normalize (p\<lparr>gp_Refs := Some rs'\<rparr>) =
      Inr (p\<lparr>gp_Refs := Some (sort_key rule_key (map normal_rule rs'))\<rparr>)"
    unfolding Normalize_Inr_iff using assms(4) by (simp add: policy_refs_def)
  ultimately show ?thesis by simp
qed

subsection \<open>Evaluation is the union of the allows\<close>

definition grant_permits :: "RefAction \<Rightarrow> git_Grant \<Rightarrow> bool" where
  "grant_permits a g \<longleftrightarrow> list_ex (rule_allows a) (policy_refs (gg_Policy g))"

lemma normalized_grants:
  assumes "\<forall>g \<in> set gs. valid_policy (gg_Policy g)"
  obtains ps where "map_result (\<lambda>g. Normalize (gg_Policy g)) gs = Inr ps"
    and "list_all2 (\<lambda>g p. Normalize (gg_Policy g) = Inr p) gs ps"
proof -
  have "\<exists>ps. map_result (\<lambda>g. Normalize (gg_Policy g)) gs = Inr ps"
    using assms
  proof (induction gs)
    case (Cons g gs)
    then have "is_ok (Normalize (gg_Policy g))"
      by (simp add: Normalize_ok_iff)
    with Cons show ?case
      by (cases "Normalize (gg_Policy g)") auto
  qed simp
  with that show thesis
    by (auto simp: map_result_Inr_iff)
qed

lemma normalized_read:
  assumes "list_all2 (\<lambda>g p. Normalize (gg_Policy g) = Inr p) gs ps"
  shows "list_ex gp_Read ps \<longleftrightarrow> (\<exists>g \<in> set gs. gp_Read (gg_Policy g))"
  using assms by (induction rule: list_all2_induct) (auto simp: Normalize_Inr_iff)

lemma normalized_allows:
  assumes "list_all2 (\<lambda>g p. Normalize (gg_Policy g) = Inr p) gs ps"
  shows "list_ex (\<lambda>p. list_ex (rule_allows a) (policy_refs p)) ps \<longleftrightarrow> (\<exists>g \<in> set gs. grant_permits a g)"
  using assms
  by (induction rule: list_all2_induct) (auto simp: Normalize_allows grant_permits_def)

lemma map_result_fails:
  assumes "g \<in> set gs" and "\<not> valid_policy (gg_Policy g)"
  shows "map_result (\<lambda>g. Normalize (gg_Policy g)) gs = Inl ErrInvalidGit"
proof (cases "map_result (\<lambda>g. Normalize (gg_Policy g)) gs")
  case (Inl e)
  then show ?thesis by (cases e) simp
next
  case (Inr ps)
  from map_result_in' [OF this assms(1)] assms(2) show ?thesis
    by (auto simp: Normalize_Inr_iff)
qed

lemma git_Evaluate_eq:
  "git_Evaluate gs as =
     (if length gs > GitGrants \<or> length as > GitRequestedRefs \<or> (\<exists>g \<in> set gs. \<not> valid_policy (gg_Policy g))
      then Inl ErrInvalidGit
      else if as = [] then Inr (\<exists>g \<in> set gs. gp_Read (gg_Policy g))
      else if \<not> (\<forall>a \<in> set as. valid_action a) \<or> \<not> distinct (map ra_Ref as) then Inl ErrInvalidGit
      else Inr (\<forall>a \<in> set as. \<exists>g \<in> set gs. grant_permits a g))"
proof (cases "\<exists>g \<in> set gs. \<not> valid_policy (gg_Policy g)")
  case True
  then have "map_result (\<lambda>g. Normalize (gg_Policy g)) gs = Inl ErrInvalidGit"
    using map_result_fails by blast
  with True show ?thesis
    by (simp add: git_Evaluate_def)
next
  case False
  then obtain ps where "map_result (\<lambda>g. Normalize (gg_Policy g)) gs = Inr ps"
      and ps: "list_all2 (\<lambda>g p. Normalize (gg_Policy g) = Inr p) gs ps"
    using normalized_grants by blast
  then show ?thesis
    using False unfolding git_Evaluate_def
    by (simp add: normalized_read [OF ps] normalized_allows [OF ps] list_all_iff)
qed

lemma git_Overlaps_segments:
  "git_Overlaps a b \<longleftrightarrow>
     prefix (Split CHR ''/'' a) (Split CHR ''/'' b) \<or> prefix (Split CHR ''/'' b) (Split CHR ''/'' a)"
  by (auto simp: git_Overlaps_def prefix_Split_iff)

subsection \<open>Properties\<close>

text \<open>
  C5: Evaluation of a push is exact: it fails exactly on an oversized input, on an invalid loaded grant (also
  one that would not match) or on an invalid or repeated requested ref, and otherwise allows the
  push exactly when every requested action is permitted by some grant as written; a read needs one
  grant with read permission.
\<close>

theorem git_evaluate_exact:
  "git_Evaluate grants actions =
     (if length grants > GitGrants \<or> length actions > GitRequestedRefs \<or>
         (\<exists>g \<in> set grants. \<not> valid_policy (gg_Policy g)) then Inl ErrInvalidGit
      else if actions = [] then Inr (\<exists>g \<in> set grants. gp_Read (gg_Policy g))
      else if (\<exists>a \<in> set actions. \<not> valid_action a) \<or> \<not> distinct (map ra_Ref actions) then Inl ErrInvalidGit
      else Inr (\<forall>a \<in> set actions. \<exists>g \<in> set grants. grant_permits a g))"
  unfolding git_Evaluate_eq by simp

definition sample_rule :: "string list \<Rightarrow> GitRefRule" where
  "sample_rule as = \<lparr>rule_Ref = \<lparr>sel_Kind = ''prefix'', sel_Value = ''refs/heads/agent/''\<rparr>, rule_Actions = as\<rparr>"

definition sample_git_policy :: "string list \<Rightarrow> GitPolicy" where
  "sample_git_policy as = \<lparr>gp_Version = 1, gp_Read = True, gp_Refs = Some [sample_rule as]\<rparr>"

lemma sample_git_valid: "valid_policy (sample_git_policy [''update'', ''create''])"
  by code_simp

definition sample_action :: "string \<Rightarrow> RefAction" where
  "sample_action a = \<lparr>ra_Ref = ''refs/heads/agent/x'', ra_Action = a\<rparr>"

lemma sample_git_actions:
  "valid_action (sample_action ''create'')" "valid_action (sample_action ''delete'')"
  "grant_permits (sample_action ''create'') \<lparr>gg_Policy = sample_git_policy [''update'', ''create'']\<rparr>"
  "\<not> grant_permits (sample_action ''delete'') \<lparr>gg_Policy = sample_git_policy [''update'', ''create'']\<rparr>"
  by code_simp+

theorem git_evaluate_exact_witness:
  "git_Evaluate [\<lparr>gg_Policy = sample_git_policy [''update'', ''create'']\<rparr>] [sample_action ''create''] = Inr True \<and>
   git_Evaluate [\<lparr>gg_Policy = sample_git_policy [''update'', ''create'']\<rparr>] [sample_action ''delete''] = Inr False"
  by (simp add: git_evaluate_exact sample_git_valid sample_git_actions GitGrants_def GitRequestedRefs_def)

text \<open>
  C28: The normal form of a policy is canonical and keeps its meaning. Normalising it again changes nothing. It permits reading
  exactly when the written policy does, its rules are the written rules, none lost and none added, with their actions sorted, and so it permits
  exactly the actions the written policy permits. Another spelling of the same rules (in another order, with
  their actions in another order) has the same normal form.
\<close>

theorem git_normal_form_canonical:
  assumes "Normalize p = Inr q"
  shows "Normalize q = Inr q \<and> gp_Version q = gp_Version p \<and> gp_Read q = gp_Read p \<and>
    mset (policy_refs q) = mset (map normal_rule (policy_refs p)) \<and>
    (\<forall>a. list_ex (rule_allows a) (policy_refs q) = list_ex (rule_allows a) (policy_refs p)) \<and>
    (\<forall>rs. valid_policy (p\<lparr>gp_Refs := Some rs\<rparr>) \<longrightarrow>
       mset (map normal_rule rs) = mset (map normal_rule (policy_refs p)) \<longrightarrow>
       Normalize (p\<lparr>gp_Refs := Some rs\<rparr>) = Inr q)"
proof (intro conjI allI impI)
  show "Normalize q = Inr q"
    by (rule Normalize_idem [OF assms])
  show "gp_Version q = gp_Version p" "gp_Read q = gp_Read p" "mset (policy_refs q) = mset (map normal_rule (policy_refs p))"
    using assms by (auto simp: Normalize_Inr_iff valid_policy_def policy_refs_def)
  show "list_ex (rule_allows a) (policy_refs q) = list_ex (rule_allows a) (policy_refs p)" for a
    by (rule Normalize_allows [OF assms])
  fix rs assume "valid_policy (p\<lparr>gp_Refs := Some rs\<rparr>)"
    and "mset (map normal_rule rs) = mset (map normal_rule (policy_refs p))"
  moreover from assms have "valid_policy p" "gp_Refs p = Some (policy_refs p)"
    by (auto simp: Normalize_Inr_iff valid_policy_def policy_refs_def)
  ultimately show "Normalize (p\<lparr>gp_Refs := Some rs\<rparr>) = Inr q"
    using Normalize_perm [of p "policy_refs p" rs] assms by simp
qed

theorem git_normal_form_canonical_witness:
  "\<exists>q. Normalize (sample_git_policy [''update'', ''create'']) = Inr q \<and> Normalize q = Inr q"
proof -
  obtain q where q: "Normalize (sample_git_policy [''update'', ''create'']) = Inr q"
    using sample_git_valid Normalize_ok_iff by (metis is_okE)
  with git_normal_form_canonical [OF q] show ?thesis by blast
qed

end
