(* ===== verification/Go_Json.thy ===== *)
theory Go_Json
  imports Go_Strings
begin

text \<open>
  The part of Go's \<open>encoding/json\<close> the gateway relies on: how \<open>json.Marshal\<close> writes a string (with
  its HTML escapes), and the token decoder of \<open>json.NewDecoder\<close> with \<open>UseNumber\<close>: white space,
  delimiters and their state machine, literals, numbers and strings with their escapes. An
  encoded UTF-8 string decodes to itself, and every token read consumes input.
\<close>

subsection \<open>UTF-8, one rune at a time\<close>

definition utf8_size :: "string \<Rightarrow> nat" where
  "utf8_size s =
     (case s of
        [] \<Rightarrow> 0
      | c # cs \<Rightarrow>
          let b = byte_val c in
          if b < 128 then 1
          else if 194 \<le> b \<and> b \<le> 223 then
            (case cs of c1 # _ \<Rightarrow> if utf8_cont 128 191 c1 then 2 else 0 | _ \<Rightarrow> 0)
          else if 224 \<le> b \<and> b \<le> 239 then
            (case cs of
               c1 # c2 # _ \<Rightarrow>
                 if utf8_cont (if b = 224 then 160 else 128) (if b = 237 then 159 else 191) c1
                    \<and> utf8_cont 128 191 c2 then 3 else 0
             | _ \<Rightarrow> 0)
          else if 240 \<le> b \<and> b \<le> 244 then
            (case cs of
               c1 # c2 # c3 # _ \<Rightarrow>
                 if utf8_cont (if b = 240 then 144 else 128) (if b = 244 then 143 else 191) c1
                    \<and> utf8_cont 128 191 c2 \<and> utf8_cont 128 191 c3 then 4 else 0
             | _ \<Rightarrow> 0)
          else 0)"

lemma lead_byte_cases:
  obtains (ascii) "byte_val c < (128 :: nat)"
  | (two) "(194 :: nat) \<le> byte_val c" "byte_val c \<le> (223 :: nat)"
  | (three) "(224 :: nat) \<le> byte_val c" "byte_val c \<le> (239 :: nat)"
  | (four) "(240 :: nat) \<le> byte_val c" "byte_val c \<le> (244 :: nat)"
  | (low) "(128 :: nat) \<le> byte_val c" "byte_val c < (194 :: nat)"
  | (high) "(244 :: nat) < byte_val c"
  by linarith

lemma utf8_valid_step:
  "utf8_valid (c # cs) \<longleftrightarrow> utf8_size (c # cs) \<noteq> 0 \<and> utf8_valid (drop (utf8_size (c # cs)) (c # cs))"
proof (cases c rule: lead_byte_cases)
  case two
  then show ?thesis by (cases cs) (simp_all add: utf8_size_def Let_def)
next
  case three
  then show ?thesis
    by (cases cs; cases "tl cs") (simp_all add: utf8_size_def Let_def, blast)
next
  case four
  then show ?thesis
    by (cases cs; cases "tl cs"; cases "tl (tl cs)") (simp_all add: utf8_size_def Let_def, blast)
qed (simp_all add: utf8_size_def Let_def)

lemma utf8_size_bytes:
  assumes "128 \<le> byte_val c"
  shows "\<forall>x \<in> set (take (utf8_size (c # cs)) (c # cs)). 128 \<le> byte_val x"
proof (cases c rule: lead_byte_cases)
  case two
  then show ?thesis
    by (cases cs) (auto simp: utf8_size_def Let_def utf8_cont_def)
next
  case three
  then show ?thesis
    by (cases cs; cases "tl cs") (auto simp: utf8_size_def Let_def utf8_cont_def)
next
  case four
  then show ?thesis
    by (cases cs; cases "tl cs"; cases "tl (tl cs)") (auto simp: utf8_size_def Let_def utf8_cont_def)
qed (use assms in \<open>simp_all add: utf8_size_def Let_def\<close>)

text \<open>\<open>utf8.EncodeRune\<close> on a valid code point.\<close>

definition EncodeRune :: "nat \<Rightarrow> string" where
  "EncodeRune n =
     (if n < 128 then [char_of n]
      else if n < 2048 then [char_of (192 + n div 64), char_of (128 + n mod 64)]
      else if n < 65536 then
        [char_of (224 + n div 4096), char_of (128 + n div 64 mod 64), char_of (128 + n mod 64)]
      else
        [char_of (240 + n div 262144), char_of (128 + n div 4096 mod 64),
         char_of (128 + n div 64 mod 64), char_of (128 + n mod 64)])"

subsection \<open>Writing a string\<close>

definition backslash :: char where
  "backslash = CHR 0x5C"

definition lower_hex :: "nat \<Rightarrow> char" where
  "lower_hex n = hex_digits ! (n mod 16)"

definition escape_byte :: "char \<Rightarrow> string" where
  "escape_byte c =
     (if c = backslash \<or> c = CHR 0x22 then [backslash, c]
      else if c = CHR 0x08 then [backslash, CHR ''b'']
      else if c = CHR 0x0C then [backslash, CHR ''f'']
      else if c = CHR 0x0A then [backslash, CHR ''n'']
      else if c = CHR 0x0D then [backslash, CHR ''r'']
      else if c = CHR 0x09 then [backslash, CHR ''t'']
      else if byte_val c < (32 :: nat) \<or> c = CHR ''<'' \<or> c = CHR ''>'' \<or> c = CHR ''&''
      then [backslash, CHR ''u'', CHR ''0'', CHR ''0'', lower_hex (byte_val c div 16), lower_hex (byte_val c)]
      else [c])"

function json_escape :: "string \<Rightarrow> string" where
  "json_escape [] = []"
| "json_escape (c # cs) =
     (if byte_val c < (128 :: nat) then escape_byte c @ json_escape cs
      else
        let n = utf8_size (c # cs) in
        if n = 0 then backslash # ''ufffd'' @ json_escape cs
        else if take 3 (c # cs) = [CHR 0xE2, CHR 0x80, CHR 0xA8] then
          backslash # ''u2028'' @ json_escape (drop n (c # cs))
        else if take 3 (c # cs) = [CHR 0xE2, CHR 0x80, CHR 0xA9] then
          backslash # ''u2029'' @ json_escape (drop n (c # cs))
        else take n (c # cs) @ json_escape (drop n (c # cs)))"
  by pat_completeness auto
termination
  by (relation "measure length") auto

definition json_string :: "string \<Rightarrow> string" where
  "json_string s = CHR 0x22 # json_escape s @ [CHR 0x22]"

subsection \<open>Reading a string\<close>

definition hex4 :: "string \<Rightarrow> nat option" where
  "hex4 s = (if length s = 4 \<and> list_all (\<lambda>c. c \<in> set (''ABCDEF'' @ hex_digits)) s
             then ParseUint 16 16 s else None)"

text \<open>
  \<open>getu4\<close> on the bytes after a first surrogate, then \<open>utf16.DecodeRune\<close>: the combined code point
  when a matching low surrogate follows.
\<close>

definition low_surrogate :: "nat \<Rightarrow> string \<Rightarrow> nat option" where
  "low_surrogate hi s =
     (case s of
        b # u # a1 # a2 # a3 # a4 # _ \<Rightarrow>
          if b = backslash \<and> u = CHR ''u'' then
            (case hex4 [a1, a2, a3, a4] of
               None \<Rightarrow> None
             | Some lo \<Rightarrow>
                 if 0xD800 \<le> hi \<and> hi < 0xDC00 \<and> 0xDC00 \<le> lo \<and> lo < 0xE000
                 then Some (0x10000 + (hi - 0xD800) * 0x400 + (lo - 0xDC00)) else None)
          else None
      | _ \<Rightarrow> None)"

definition simple_escape :: "char \<Rightarrow> char option" where
  "simple_escape c = map_of
     [(CHR 0x22, CHR 0x22), (backslash, backslash), (CHR ''/'', CHR ''/''), (CHR ''b'', CHR 0x08),
      (CHR ''f'', CHR 0x0C), (CHR ''n'', CHR 0x0A), (CHR ''r'', CHR 0x0D), (CHR ''t'', CHR 0x09)] c"

text \<open>The string after its opening quote: its value and the bytes after the closing quote.\<close>

definition cons_part :: "string \<Rightarrow> (string \<times> string) option \<Rightarrow> (string \<times> string) option" where
  "cons_part p r = map_option (\<lambda>(v, rest). (p @ v, rest)) r"

function string_body :: "string \<Rightarrow> (string \<times> string) option" where
  "string_body [] = None"
| "string_body (c # cs) =
     (if c = CHR 0x22 then Some ([], cs)
      else if c = backslash then
        (case cs of
           [] \<Rightarrow> None
         | e # es \<Rightarrow>
             if e = CHR ''u'' then
               (case hex4 (take 4 es) of
                  None \<Rightarrow> None
                | Some n \<Rightarrow>
                    if 0xD800 \<le> n \<and> n < 0xE000 then
                      (case low_surrogate n (drop 4 es) of
                         Some r \<Rightarrow> cons_part (EncodeRune r) (string_body (drop 10 es))
                       | None \<Rightarrow> cons_part (EncodeRune 0xFFFD) (string_body (drop 4 es)))
                    else cons_part (EncodeRune n) (string_body (drop 4 es)))
             else
               (case simple_escape e of
                  None \<Rightarrow> None
                | Some v \<Rightarrow> cons_part [v] (string_body es)))
      else if byte_val c < (32 :: nat) then None
      else cons_part [c] (string_body cs))"
  by pat_completeness auto
termination
  by (relation "measure length") auto

lemma string_body_length: "string_body s = Some (v, rest) \<Longrightarrow> length rest < length s"
proof (induction s arbitrary: v rest rule: string_body.induct)
  case (2 c cs)
  then show ?case
    by (fastforce simp: cons_part_def split: if_splits list.splits option.splits)
qed simp

subsection \<open>A written string reads back\<close>

lemma string_body_plain:
  "32 \<le> byte_val c \<Longrightarrow> c \<noteq> CHR 0x22 \<Longrightarrow> c \<noteq> backslash \<Longrightarrow>
   string_body (c # cs) = cons_part [c] (string_body cs)"
  by simp

lemma string_body_u4:
  "hex4 [a, b, c, d] = Some n \<Longrightarrow> n < 0xD800 \<Longrightarrow>
   string_body (backslash # CHR ''u'' # a # b # c # d # r) = cons_part (EncodeRune n) (string_body r)"
  by (simp add: backslash_def)

lemma string_body_high:
  "\<forall>x \<in> set p. 128 \<le> byte_val x \<Longrightarrow> string_body (p @ r) = cons_part p (string_body r)"
  by (induction p) (auto simp: cons_part_def backslash_def option.map_comp comp_def split_def
      option.map_ident)

lemma lower_hex_facts:
  "digit_value (lower_hex n) = n mod 16" "lower_hex n \<in> set hex_digits"
proof -
  have "list_all (\<lambda>k. digit_value (hex_digits ! k) = k) [0..<16]" "length hex_digits = 16"
    by code_simp+
  then show "digit_value (lower_hex n) = n mod 16" "lower_hex n \<in> set hex_digits"
    by (simp_all add: list_all_iff lower_hex_def)
qed

lemma hex4_low:
  assumes "n < 128"
  shows "hex4 [CHR ''0'', CHR ''0'', lower_hex (n div 16), lower_hex n] = Some n"
proof -
  have "CHR ''0'' \<in> set hex_digits" "digit_value CHR ''0'' = 0"
    by code_simp+
  moreover have "n div 16 mod 16 = n div 16"
    using assms by simp
  ultimately show ?thesis
    using assms by (simp add: hex4_def ParseUint_def lower_hex_facts)
qed

lemma string_body_escape:
  assumes "byte_val c < (128 :: nat)"
  shows "string_body (escape_byte c @ r) = cons_part [c] (string_body r)"
proof (cases "byte_val c < (32 :: nat) \<or> c = CHR ''<'' \<or> c = CHR ''>'' \<or> c = CHR ''&''")
  case True
  have "EncodeRune (byte_val c) = [c]"
    using assms by (simp add: EncodeRune_def)
  with True show ?thesis
    using string_body_u4 [OF hex4_low [OF assms]] assms
    by (auto simp: escape_byte_def simple_escape_def backslash_def)
next
  case False
  then show ?thesis
    by (auto simp: escape_byte_def simple_escape_def backslash_def)
qed

lemma separators:
  "utf8_size ([CHR 0xE2, CHR 0x80, CHR 0xA8] @ r) = 3" "utf8_size ([CHR 0xE2, CHR 0x80, CHR 0xA9] @ r) = 3"
  "EncodeRune 0x2028 = [CHR 0xE2, CHR 0x80, CHR 0xA8]" "EncodeRune 0x2029 = [CHR 0xE2, CHR 0x80, CHR 0xA9]"
  "hex4 ''2028'' = Some 0x2028" "hex4 ''2029'' = Some 0x2029"
proof -
  show "utf8_size ([CHR 0xE2, CHR 0x80, CHR 0xA8] @ r) = 3" "utf8_size ([CHR 0xE2, CHR 0x80, CHR 0xA9] @ r) = 3"
    by (simp_all add: utf8_size_def utf8_cont_def)
  have "char_of (226 :: nat) = CHR 0xE2" "char_of (128 :: nat) = CHR 0x80" "char_of (168 :: nat) = CHR 0xA8"
      "char_of (169 :: nat) = CHR 0xA9"
    by code_simp+
  then show "EncodeRune 0x2028 = [CHR 0xE2, CHR 0x80, CHR 0xA8]" "EncodeRune 0x2029 = [CHR 0xE2, CHR 0x80, CHR 0xA9]"
    by (simp_all add: EncodeRune_def)
  have "digit_value CHR ''0'' = 0" "digit_value CHR ''2'' = 2" "digit_value CHR ''8'' = 8" "digit_value CHR ''9'' = 9"
      "set ''0289'' \<subseteq> set hex_digits"
    by code_simp+
  then show "hex4 ''2028'' = Some 0x2028" "hex4 ''2029'' = Some 0x2029"
    by (simp_all add: hex4_def ParseUint_def)
qed

lemma string_body_json_escape:
  "utf8_valid s \<Longrightarrow> string_body (json_escape s @ CHR 0x22 # r) = Some (s, r)"
proof (induction s rule: json_escape.induct)
  case 1
  then show ?case by simp
next
  case (2 c cs)
  show ?case
  proof (cases "byte_val c < (128 :: nat)")
    case True
    with 2 show ?thesis
      by (simp add: string_body_escape cons_part_def del: string_body.simps)
  next
    case False
    let ?n = "utf8_size (c # cs)"
    have v: "?n \<noteq> 0" "utf8_valid (drop ?n (c # cs))"
      using 2(6) utf8_valid_step [of c cs] by blast+
    have other: "take 3 (c # cs) = l \<Longrightarrow> length l = 3 \<Longrightarrow> \<exists>cs'. c # cs = l @ cs'" for l
      by (metis append_take_drop_id)
    consider (ls) "take 3 (c # cs) = [CHR 0xE2, CHR 0x80, CHR 0xA8]"
      | (ps) "take 3 (c # cs) = [CHR 0xE2, CHR 0x80, CHR 0xA9]"
      | (plain) "take 3 (c # cs) \<noteq> [CHR 0xE2, CHR 0x80, CHR 0xA8]"
          "take 3 (c # cs) \<noteq> [CHR 0xE2, CHR 0x80, CHR 0xA9]"
      by blast
    then show ?thesis
    proof cases
      case ls
      with other obtain cs' where cs': "c # cs = [CHR 0xE2, CHR 0x80, CHR 0xA8] @ cs'"
        by fastforce
      have "string_body (json_escape (c # cs) @ CHR 0x22 # r) =
          cons_part (EncodeRune 0x2028) (string_body (json_escape (drop ?n (c # cs)) @ CHR 0x22 # r))"
        using False v(1) ls by (simp add: Let_def string_body_u4 [OF separators(5)] del: string_body.simps)
      then show ?thesis
        using 2(3) [OF False refl v(1) ls v(2)]
        by (simp only: separators cs') (simp add: cons_part_def separators)
    next
      case ps
      with other obtain cs' where cs': "c # cs = [CHR 0xE2, CHR 0x80, CHR 0xA9] @ cs'"
        by fastforce
      have nls: "take 3 (c # cs) \<noteq> [CHR 0xE2, CHR 0x80, CHR 0xA8]"
        using ps by simp
      have "string_body (json_escape (c # cs) @ CHR 0x22 # r) =
          cons_part (EncodeRune 0x2029) (string_body (json_escape (drop ?n (c # cs)) @ CHR 0x22 # r))"
        using False v(1) ps by (simp add: Let_def string_body_u4 [OF separators(6)] del: string_body.simps)
      then show ?thesis
        using 2(4) [OF False refl v(1) nls ps v(2)]
        by (simp only: separators cs') (simp add: cons_part_def separators)
    next
      case plain
      have "string_body (json_escape (c # cs) @ CHR 0x22 # r) =
          string_body (take ?n (c # cs) @ json_escape (drop ?n (c # cs)) @ CHR 0x22 # r)"
        using False v(1) plain by (simp only: json_escape.simps Let_def if_False append_assoc)
      also have "\<dots> = cons_part (take ?n (c # cs)) (Some (drop ?n (c # cs), r))"
        using 2(5) [OF False refl v(1) plain v(2)] utf8_size_bytes [of c cs] False
        by (simp add: string_body_high del: string_body.simps)
      finally show ?thesis
        by (simp add: cons_part_def del: take_Cons' drop_Cons')
    qed
  qed
qed

subsection \<open>Numbers and literals\<close>

definition json_digit :: "char \<Rightarrow> bool" where
  "json_digit c \<longleftrightarrow> c \<in> set decimal_digits"

text \<open>One or more digits.\<close>

definition scan_digits :: "string \<Rightarrow> (string \<times> string) option" where
  "scan_digits s =
     (let ds = takeWhile json_digit s in if ds = [] then None else Some (ds, dropWhile json_digit s))"

definition scan_integer :: "string \<Rightarrow> (string \<times> string) option" where
  "scan_integer s =
     (case s of
        [] \<Rightarrow> None
      | c # cs \<Rightarrow> if c = CHR ''0'' then Some (''0'', cs) else scan_digits s)"

definition scan_fraction :: "string \<Rightarrow> (string \<times> string) option" where
  "scan_fraction s =
     (case s of
        c # cs \<Rightarrow> if c = CHR ''.'' then cons_part ''.'' (scan_digits cs) else Some ([], s)
      | [] \<Rightarrow> Some ([], s))"

definition scan_exponent :: "string \<Rightarrow> (string \<times> string) option" where
  "scan_exponent s =
     (case s of
        c # cs \<Rightarrow>
          if c = CHR ''e'' \<or> c = CHR ''E'' then
            (case cs of
               d # ds \<Rightarrow>
                 if d = CHR ''+'' \<or> d = CHR ''-'' then cons_part [c, d] (scan_digits ds)
                 else cons_part [c] (scan_digits cs)
             | [] \<Rightarrow> None)
          else Some ([], s)
      | [] \<Rightarrow> Some ([], s))"

definition then_scan ::
  "(string \<times> string) option \<Rightarrow> (string \<Rightarrow> (string \<times> string) option) \<Rightarrow> (string \<times> string) option" where
  "then_scan r f = (case r of None \<Rightarrow> None | Some (p, s) \<Rightarrow> cons_part p (f s))"

definition scan_unsigned :: "string \<Rightarrow> (string \<times> string) option" where
  "scan_unsigned s = then_scan (then_scan (scan_integer s) scan_fraction) scan_exponent"

definition scan_number :: "string \<Rightarrow> (string \<times> string) option" where
  "scan_number s =
     (case s of
        c # cs \<Rightarrow> if c = CHR ''-'' then cons_part ''-'' (scan_unsigned cs) else scan_unsigned s
      | [] \<Rightarrow> None)"

datatype json_token =
    Delim char
  | TNull
  | TBool bool
  | TString string
  | TNumber string

definition scan_scalar :: "string \<Rightarrow> (json_token \<times> string) option" where
  "scan_scalar s =
     (case s of
        [] \<Rightarrow> None
      | c # cs \<Rightarrow>
          if c = CHR 0x22 then map_option (\<lambda>(v, r). (TString v, r)) (string_body cs)
          else if c = CHR ''-'' \<or> json_digit c then map_option (\<lambda>(v, r). (TNumber v, r)) (scan_number s)
          else if HasPrefix s ''null'' then Some (TNull, drop 4 s)
          else if HasPrefix s ''true'' then Some (TBool True, drop 4 s)
          else if HasPrefix s ''false'' then Some (TBool False, drop 5 s)
          else None)"

subsection \<open>The token decoder\<close>

datatype token_state =
    tokenTopValue | tokenArrayStart | tokenArrayValue | tokenArrayComma
  | tokenObjectStart | tokenObjectKey | tokenObjectColon | tokenObjectValue | tokenObjectComma

record decoder =
  dec_rest :: string
  dec_state :: token_state
  dec_stack :: "token_state list"

datatype token_error = TokenEOF | TokenError

definition tokenValueAllowed :: "token_state \<Rightarrow> bool" where
  "tokenValueAllowed st \<longleftrightarrow> st \<in> {tokenTopValue, tokenArrayStart, tokenArrayValue, tokenObjectValue}"

fun tokenValueEnd :: "token_state \<Rightarrow> token_state" where
  "tokenValueEnd tokenArrayStart = tokenArrayComma"
| "tokenValueEnd tokenArrayValue = tokenArrayComma"
| "tokenValueEnd tokenObjectValue = tokenObjectComma"
| "tokenValueEnd st = st"

definition skip_space :: "string \<Rightarrow> string" where
  "skip_space = dropWhile (\<lambda>c. c \<in> {CHR '' '', CHR 0x09, CHR 0x0A, CHR 0x0D})"

definition More :: "decoder \<Rightarrow> bool" where
  "More d =
     (case skip_space (dec_rest d) of [] \<Rightarrow> False | c # _ \<Rightarrow> c \<noteq> CHR '']'' \<and> c \<noteq> CHR ''}'')"

definition open_delim :: "char \<Rightarrow> token_state \<Rightarrow> string \<Rightarrow> decoder \<Rightarrow> token_error + json_token \<times> decoder" where
  "open_delim c st cs d =
     (if \<not> tokenValueAllowed (dec_state d) then Inl TokenError
      else Inr (Delim c, \<lparr>dec_rest = cs, dec_state = st, dec_stack = dec_state d # dec_stack d\<rparr>))"

definition close_delim ::
  "char \<Rightarrow> token_state \<Rightarrow> token_state \<Rightarrow> string \<Rightarrow> decoder \<Rightarrow> token_error + json_token \<times> decoder" where
  "close_delim c st st' cs d =
     (if dec_state d \<noteq> st \<and> dec_state d \<noteq> st' then Inl TokenError
      else
        (case dec_stack d of
           [] \<Rightarrow> Inl TokenError
         | outer # stack \<Rightarrow>
             Inr (Delim c, \<lparr>dec_rest = cs, dec_state = tokenValueEnd outer, dec_stack = stack\<rparr>)))"

function Token :: "decoder \<Rightarrow> token_error + json_token \<times> decoder" where
  "Token d =
     (case skip_space (dec_rest d) of
        [] \<Rightarrow> Inl TokenEOF
      | c # cs \<Rightarrow>
          if c = CHR ''['' then open_delim c tokenArrayStart cs d
          else if c = CHR '']'' then close_delim c tokenArrayStart tokenArrayComma cs d
          else if c = CHR ''{'' then open_delim c tokenObjectStart cs d
          else if c = CHR ''}'' then close_delim c tokenObjectStart tokenObjectComma cs d
          else if c = CHR '':'' then
            (if dec_state d \<noteq> tokenObjectColon then Inl TokenError
             else Token (d\<lparr>dec_rest := cs, dec_state := tokenObjectValue\<rparr>))
          else if c = CHR '','' then
            (if dec_state d = tokenArrayComma then Token (d\<lparr>dec_rest := cs, dec_state := tokenArrayValue\<rparr>)
             else if dec_state d = tokenObjectComma then
               Token (d\<lparr>dec_rest := cs, dec_state := tokenObjectKey\<rparr>)
             else Inl TokenError)
          else if c = CHR 0x22 \<and> (dec_state d = tokenObjectStart \<or> dec_state d = tokenObjectKey) then
            (case string_body cs of
               None \<Rightarrow> Inl TokenError
             | Some (v, r) \<Rightarrow> Inr (TString v, d\<lparr>dec_rest := r, dec_state := tokenObjectColon\<rparr>))
          else if \<not> tokenValueAllowed (dec_state d) then Inl TokenError
          else
            (case scan_scalar (c # cs) of
               None \<Rightarrow> Inl TokenError
             | Some (t, r) \<Rightarrow>
                 Inr (t, d\<lparr>dec_rest := r, dec_state := tokenValueEnd (dec_state d)\<rparr>)))"
  by pat_completeness auto

lemma skip_space_length: "skip_space s = c # cs \<Longrightarrow> length cs < length s"
  unfolding skip_space_def by (metis Suc_le_lessD length_Cons length_dropWhile_le)

termination Token
  by (relation "measure (length \<circ> dec_rest)") (auto dest: skip_space_length)

declare Token.simps [simp del]

subsection \<open>Every token consumes input\<close>

lemma cons_part_Some: "cons_part p r = Some (v, s) \<longleftrightarrow> (\<exists>w. r = Some (w, s) \<and> v = p @ w)"
  by (auto simp: cons_part_def)

lemma scan_digits_Some:
  "scan_digits s = Some (v, r) \<longleftrightarrow>
     v \<noteq> [] \<and> list_all json_digit v \<and> s = v @ r \<and> (r = [] \<or> \<not> json_digit (hd r))"
proof
  assume "scan_digits s = Some (v, r)"
  then show "v \<noteq> [] \<and> list_all json_digit v \<and> s = v @ r \<and> (r = [] \<or> \<not> json_digit (hd r))"
    by (auto simp: scan_digits_def Let_def list_all_iff hd_dropWhile dest: set_takeWhileD split: if_splits)
next
  assume r: "v \<noteq> [] \<and> list_all json_digit v \<and> s = v @ r \<and> (r = [] \<or> \<not> json_digit (hd r))"
  then have "takeWhile json_digit s = v \<and> dropWhile json_digit s = r"
    by (cases r) (auto simp: list_all_iff takeWhile_eq_all_conv)
  with r show "scan_digits s = Some (v, r)"
    by (simp add: scan_digits_def)
qed

lemma scan_split:
  "scan_integer s = Some (v, r) \<Longrightarrow> s = v @ r \<and> v \<noteq> []"
  "scan_fraction s = Some (v, r) \<Longrightarrow> s = v @ r"
  "scan_exponent s = Some (v, r) \<Longrightarrow> s = v @ r"
  by (auto simp: scan_integer_def scan_fraction_def scan_exponent_def scan_digits_Some cons_part_Some
      split: list.splits if_splits)

lemma scan_unsigned_split: "scan_unsigned s = Some (v, r) \<Longrightarrow> s = v @ r \<and> v \<noteq> []"
  by (auto simp: scan_unsigned_def then_scan_def cons_part_Some dest!: scan_split split: option.splits)

lemma scan_number_split: "scan_number s = Some (v, r) \<Longrightarrow> s = v @ r \<and> v \<noteq> []"
  by (auto simp: scan_number_def cons_part_Some dest!: scan_unsigned_split split: list.splits if_splits)

lemma scan_number_length: "scan_number s = Some (v, r) \<Longrightarrow> length r < length s"
  by (drule scan_number_split) auto

lemma scan_scalar_length: "scan_scalar s = Some (t, r) \<Longrightarrow> length r < length s"
  by (auto simp: scan_scalar_def dest: string_body_length scan_number_length
      split: list.splits if_splits)

lemma delim_length:
  "open_delim c st cs d = Inr (t, d') \<Longrightarrow> dec_rest d' = cs"
  "close_delim c st st' cs d = Inr (t, d') \<Longrightarrow> dec_rest d' = cs"
  by (auto simp: open_delim_def close_delim_def split: if_splits list.splits)

lemma Token_length: "Token d = Inr (t, d') \<Longrightarrow> length (dec_rest d') < length (dec_rest d)"
proof (induction d rule: Token.induct)
  case (1 d)
  show ?case
  proof (cases "skip_space (dec_rest d)")
    case Nil
    with 1(4) show ?thesis by (simp add: Token.simps [of d])
  next
    case (Cons c cs)
    note tok = 1(4) [unfolded Token.simps [of d] Cons list.case]
    have "length (dec_rest d') < length (c # cs)"
    proof (cases "c = CHR '':''")
      case True
      with tok 1(1) [OF Cons] show ?thesis by (simp split: if_splits)
    next
      case colon: False
      show ?thesis
      proof (cases "c = CHR '',''")
        case True
        with tok 1(2,3) [OF Cons] show ?thesis by (simp split: if_splits)
      next
        case False
        with tok colon show ?thesis
          by (auto dest: delim_length string_body_length scan_scalar_length split: if_splits option.splits)
      qed
    qed
    also have "\<dots> \<le> length (dec_rest d)"
      unfolding Cons [symmetric] skip_space_def by (rule length_dropWhile_le)
    finally show ?thesis .
  qed
qed

subsection \<open>Number tokens are self-delimiting\<close>

definition num_stop :: "string \<Rightarrow> bool" where
  "num_stop r \<longleftrightarrow> r = [] \<or> \<not> json_digit (hd r) \<and> hd r \<noteq> CHR ''.'' \<and> hd r \<noteq> CHR ''e'' \<and> hd r \<noteq> CHR ''E''"

lemma json_digit_sep [simp]:
  "\<not> json_digit CHR ''.''" "\<not> json_digit CHR ''e''" "\<not> json_digit CHR ''E''" "\<not> json_digit CHR ''-''"
  "\<not> json_digit CHR '','' " "\<not> json_digit CHR '']'' " "\<not> json_digit CHR ''}'' " "\<not> json_digit CHR 0x22"
  "json_digit CHR ''0''" "\<not> json_digit CHR ''+''"
  by (simp_all add: json_digit_def decimal_digits_def)

lemma scan_integer_trunc:
  assumes "scan_integer s = Some (a, x)" and "y = [] \<or> \<not> json_digit (hd y)"
  shows "scan_integer (a @ y) = Some (a, y)"
proof (cases "\<exists>cs. s = CHR ''0'' # cs")
  case True
  with assms show ?thesis by (auto simp: scan_integer_def)
next
  case False
  with assms(1) have d: "scan_digits s = Some (a, x)"
    by (auto simp: scan_integer_def split: list.splits if_splits)
  then obtain c as where a: "a = c # as" "s = (c # as) @ x"
    by (cases a) (auto simp: scan_digits_Some)
  with False have "c \<noteq> CHR ''0''"
    by auto
  with a d assms(2) show ?thesis
    by (auto simp: scan_integer_def scan_digits_Some)
qed

lemma scan_fraction_trunc:
  "scan_fraction s = Some (b, x) \<Longrightarrow> y = [] \<or> \<not> json_digit (hd y) \<and> hd y \<noteq> CHR ''.'' \<Longrightarrow>
   scan_fraction (b @ y) = Some (b, y)"
  by (auto simp: scan_fraction_def scan_digits_Some cons_part_Some split: list.splits if_splits)

lemma scan_exponent_cases:
  assumes "scan_exponent s = Some (c, x)"
  obtains (none) "c = []"
  | (plain) e d ds where "c = e # d # ds" "e = CHR ''e'' \<or> e = CHR ''E''" "list_all json_digit (d # ds)"
  | (signed) e g d ds where "c = e # g # d # ds" "e = CHR ''e'' \<or> e = CHR ''E''" "g = CHR ''+'' \<or> g = CHR ''-''"
      "list_all json_digit (d # ds)"
  using assms
  by (fastforce simp: scan_exponent_def scan_digits_Some cons_part_Some neq_Nil_conv
      split: list.splits if_splits)

lemma scan_exponent_trunc:
  assumes "scan_exponent s = Some (c, x)" and "num_stop y"
  shows "scan_exponent (c @ y) = Some (c, y)"
  using assms(1)
proof (cases rule: scan_exponent_cases)
  case none
  with assms(2) show ?thesis
    by (auto simp: scan_exponent_def num_stop_def split: list.splits)
next
  case (plain e d ds)
  then have "scan_digits (d # ds @ y) = Some (d # ds, y)"
    using assms(2) by (auto simp: scan_digits_Some num_stop_def)
  moreover have "d \<noteq> CHR ''+''" "d \<noteq> CHR ''-''"
    using plain(3) by auto
  ultimately show ?thesis
    using plain by (auto simp: scan_exponent_def cons_part_Some)
next
  case (signed e g d ds)
  then have "scan_digits (d # ds @ y) = Some (d # ds, y)"
    using assms(2) by (auto simp: scan_digits_Some num_stop_def)
  with signed show ?thesis
    by (auto simp: scan_exponent_def cons_part_Some)
qed

lemma scan_heads:
  "scan_fraction s = Some (b, x) \<Longrightarrow> b \<noteq> [] \<Longrightarrow> hd b = CHR ''.''"
  "scan_exponent s = Some (c, x) \<Longrightarrow> c \<noteq> [] \<Longrightarrow> hd c = CHR ''e'' \<or> hd c = CHR ''E''"
  "scan_integer s = Some (a, x) \<Longrightarrow> a \<noteq> [] \<and> json_digit (hd a)"
  by (auto simp: scan_fraction_def scan_exponent_def scan_integer_def scan_digits_Some cons_part_Some
      list_all_iff split: list.splits if_splits)

lemma scan_unsigned_trunc:
  assumes "scan_unsigned s = Some (v, r)" and "num_stop y"
  shows "scan_unsigned (v @ y) = Some (v, y)"
proof -
  from assms(1) obtain a x b x' c where i: "scan_integer s = Some (a, x)"
      and f: "scan_fraction x = Some (b, x')" and e: "scan_exponent x' = Some (c, r)" and v: "v = a @ b @ c"
    by (auto simp: scan_unsigned_def then_scan_def cons_part_Some split: option.splits)
  have "scan_exponent (c @ y) = Some (c, y)"
    by (rule scan_exponent_trunc [OF e assms(2)])
  moreover have "scan_fraction (b @ c @ y) = Some (b, c @ y)"
    using scan_heads(2) [OF e] assms(2)
    by (intro scan_fraction_trunc [OF f]) (cases c; auto simp: num_stop_def)
  moreover have "scan_integer (a @ b @ c @ y) = Some (a, b @ c @ y)"
    using scan_heads(1) [OF f] scan_heads(2) [OF e] assms(2)
    by (intro scan_integer_trunc [OF i]) (cases b; cases c; auto simp: num_stop_def)
  ultimately show ?thesis
    by (simp add: v scan_unsigned_def then_scan_def cons_part_def)
qed

lemma scan_number_trunc:
  assumes "scan_number s = Some (v, r)" and "num_stop y"
  shows "scan_number (v @ y) = Some (v, y)"
proof (cases "\<exists>cs. s = CHR ''-'' # cs")
  case True
  with assms(1) obtain cs w where "scan_unsigned cs = Some (w, r)" "v = CHR ''-'' # w"
    by (auto simp: scan_number_def cons_part_Some)
  then show ?thesis
    using scan_unsigned_trunc [OF _ assms(2)] by (simp add: scan_number_def cons_part_Some)
next
  case False
  with assms(1) have u: "scan_unsigned s = Some (v, r)"
    by (auto simp: scan_number_def split: list.splits if_splits)
  moreover from this have "v \<noteq> []" "hd v \<noteq> CHR ''-''"
    using False scan_unsigned_split [OF u] by (auto simp: neq_Nil_conv)
  ultimately show ?thesis
    using scan_unsigned_trunc [OF u assms(2)] by (cases v) (simp_all add: scan_number_def)
qed

lemma json_digit_ascii: "json_digit c \<Longrightarrow> byte_val c < (128 :: nat)"
  by (auto simp: json_digit_def decimal_digits_def)

lemma scan_number_ascii:
  assumes "scan_number s = Some (v, r)"
  shows "is_ascii v"
proof -
  have d: "scan_digits x = Some (w, y) \<Longrightarrow> is_ascii w" for x w y
    by (auto simp: scan_digits_Some is_ascii_def list_all_iff json_digit_ascii)
  have "scan_integer x = Some (w, y) \<Longrightarrow> is_ascii w" "scan_fraction x = Some (w, y) \<Longrightarrow> is_ascii w"
      "scan_exponent x = Some (w, y) \<Longrightarrow> is_ascii w" for x w y
    by (auto simp: scan_integer_def scan_fraction_def scan_exponent_def cons_part_Some is_ascii_def
        split: list.splits if_splits dest!: d)
  then have "scan_unsigned x = Some (w, y) \<Longrightarrow> is_ascii w" for x w y
    unfolding scan_unsigned_def then_scan_def
    by (fastforce simp: cons_part_Some is_ascii_def split: option.splits)
  then show ?thesis
    using assms by (auto simp: scan_number_def cons_part_Some is_ascii_def split: list.splits if_splits)
qed

subsection \<open>Decoded text is UTF-8\<close>

lemma utf8_size_facts:
  assumes "utf8_size s \<noteq> 0"
  shows "utf8_size (s @ b) = utf8_size s \<and> utf8_size (take (utf8_size s) s) = utf8_size s \<and>
    utf8_size s \<le> length s"
proof -
  obtain c cs where s: "s = c # cs"
    using assms by (cases s) (simp_all add: utf8_size_def)
  show ?thesis
  proof (cases c rule: lead_byte_cases)
    case two
    then show ?thesis
      using assms by (cases cs) (simp_all add: s utf8_size_def Let_def split: if_splits)
  next
    case three
    then show ?thesis
      using assms by (cases cs; cases "tl cs") (simp_all add: s utf8_size_def Let_def split: if_splits)
  next
    case four
    then show ?thesis
      using assms by (cases cs; cases "tl cs"; cases "tl (tl cs)")
        (simp_all add: s utf8_size_def Let_def split: if_splits)
  qed (use assms in \<open>simp_all add: s utf8_size_def Let_def\<close>)
qed

lemma utf8_valid_append: "utf8_valid a \<Longrightarrow> utf8_valid (a @ b) = utf8_valid b"
proof (induction a rule: length_induct)
  case (1 a)
  show ?case
  proof (cases a)
    case (Cons c cs)
    let ?n = "utf8_size a"
    have n: "?n \<noteq> 0" "utf8_valid (drop ?n a)"
      using 1(2) utf8_valid_step [of c cs] unfolding Cons by blast+
    have "utf8_valid (a @ b) = utf8_valid (drop ?n (a @ b))"
      using utf8_valid_step [of c "cs @ b"] utf8_size_facts [OF n(1)] n(1) unfolding Cons append_Cons by simp
    also have "drop ?n (a @ b) = drop ?n a @ b"
      using utf8_size_facts [OF n(1)] by simp
    also have "utf8_valid \<dots> = utf8_valid b"
      using 1(1) n Cons by simp
    finally show ?thesis .
  qed simp
qed

lemma utf8_valid_rune: "utf8_size s \<noteq> 0 \<Longrightarrow> utf8_valid (take (utf8_size s) s)"
proof -
  assume n: "utf8_size s \<noteq> 0"
  then have "length (take (utf8_size s) s) \<noteq> 0"
    using utf8_size_facts [OF n, of "[]"] by (simp only: length_take) linarith
  then obtain c cs where t: "take (utf8_size s) s = c # cs"
    by (cases "take (utf8_size s) s") (simp_all only: list.size)
  show ?thesis
    using utf8_valid_step [of c cs] utf8_size_facts [OF n, of "[]"] n unfolding t [symmetric] by simp
qed

lemma utf8_single: "utf8_size (c # cs) = Suc (length cs) \<Longrightarrow> utf8_valid (c # cs)"
  unfolding utf8_valid_step [of c cs] by simp

lemma utf8_runes:
  fixes a b c d :: nat
  shows "2 \<le> a \<Longrightarrow> a < 32 \<Longrightarrow> b < 64 \<Longrightarrow> utf8_valid [char_of (192 + a), char_of (128 + b)]"
    and "a < 16 \<Longrightarrow> b < 64 \<Longrightarrow> c < 64 \<Longrightarrow> (a = 0 \<longrightarrow> 32 \<le> b) \<Longrightarrow> (a = 13 \<longrightarrow> b \<le> 31) \<Longrightarrow>
      utf8_valid [char_of (224 + a), char_of (128 + b), char_of (128 + c)]"
    and "a < 5 \<Longrightarrow> b < 64 \<Longrightarrow> c < 64 \<Longrightarrow> d < 64 \<Longrightarrow> (a = 0 \<longrightarrow> 16 \<le> b) \<Longrightarrow> (a = 4 \<longrightarrow> b \<le> 15) \<Longrightarrow>
      utf8_valid [char_of (240 + a), char_of (128 + b), char_of (128 + c), char_of (128 + d)]"
  by (rule utf8_single, simp add: utf8_size_def Let_def utf8_cont_def)+

lemma EncodeRune_valid:
  assumes "n < 0x110000" and "n < 0xD800 \<or> 0xE000 \<le> n"
  shows "utf8_valid (EncodeRune n)"
proof -
  have m: "n mod 64 < 64" "n div 64 mod 64 < 64" "n div 4096 mod 64 < 64" by simp_all
  have q: "n div 64 = 64 * (n div 4096) + n div 64 mod 64" "n div 4096 = 64 * (n div 262144) + n div 4096 mod 64"
    using mult_div_mod_eq [of 64 "n div 64"] mult_div_mod_eq [of 64 "n div 4096"]
    by (simp_all add: div_mult2_eq [symmetric])
  consider "n < 128" | "128 \<le> n" "n < 2048" | "2048 \<le> n" "n < 65536" | "65536 \<le> n"
    by linarith
  then show ?thesis
  proof cases
    case 1
    then show ?thesis by (simp add: EncodeRune_def)
  next
    case 2
    then have "2 \<le> n div 64" "n div 64 < 32" by linarith+
    from utf8_runes(1) [OF this m(1)] show ?thesis
      using 2 by (simp only: EncodeRune_def) (simp only: not_less [symmetric] if_False if_True)
  next
    case 3
    have "n div 4096 < 16" "n div 4096 = 0 \<longrightarrow> 32 \<le> n div 64 mod 64"
        "n div 4096 = 13 \<longrightarrow> n div 64 mod 64 \<le> 31"
      using 3 assms q(1) by linarith+
    note v = utf8_runes(2) [OF this(1) m(2,1) this(2,3)]
    have "EncodeRune n = [char_of (224 + n div 4096), char_of (128 + n div 64 mod 64), char_of (128 + n mod 64)]"
      using 3 by (simp add: EncodeRune_def)
    with v show ?thesis by (simp only:)
  next
    case 4
    have "n div 262144 < 5" "n div 262144 = 0 \<longrightarrow> 16 \<le> n div 4096 mod 64"
        "n div 262144 = 4 \<longrightarrow> n div 4096 mod 64 \<le> 15"
      using 4 assms q(2) by linarith+
    note v = utf8_runes(3) [OF this(1) m(3,2,1) this(2,3)]
    have "EncodeRune n = [char_of (240 + n div 262144), char_of (128 + n div 4096 mod 64),
         char_of (128 + n div 64 mod 64), char_of (128 + n mod 64)]"
      using 4 by (simp add: EncodeRune_def)
    with v show ?thesis by (simp only:)
  qed
qed

lemma hex4_facts:
  assumes "hex4 s = Some n"
  shows "length s = 4" and "is_ascii s" and "n < 65536"
proof -
  from assms have s: "length s = 4" "list_all (\<lambda>c. c \<in> set (''ABCDEF'' @ hex_digits)) s"
      "ParseUint 16 16 s = Some n"
    unfolding hex4_def by (simp_all split: if_splits)
  have "list_all (\<lambda>c. byte_val c < (128 :: nat)) (''ABCDEF'' @ hex_digits)"
    by (simp add: hex_digits_def)
  with s(2) show "is_ascii s"
    unfolding is_ascii_def list_all_iff by blast
  from ParseUint_bound [OF s(3)] show "n < 65536" by simp
  from s(1) show "length s = 4" .
qed

lemma utf8_valid_skip: "is_ascii (take k s) \<Longrightarrow> utf8_valid (drop k s) = utf8_valid s"
  using utf8_valid_append [OF utf8_valid_ascii, of "take k s" "drop k s"] by simp

lemma low_surrogate_facts:
  assumes "low_surrogate hi s = Some r"
  shows "is_ascii (take 6 s)" and "0x10000 \<le> r" and "r < 0x110000"
proof -
  from assms obtain a1 a2 a3 a4 rest lo where s: "s = backslash # CHR ''u'' # a1 # a2 # a3 # a4 # rest"
      and lo: "hex4 [a1, a2, a3, a4] = Some lo" "0xD800 \<le> hi" "hi < 0xDC00" "0xDC00 \<le> lo" "lo < 0xE000"
      and r: "r = 0x10000 + (hi - 0xD800) * 0x400 + (lo - 0xDC00)"
    by (auto simp: low_surrogate_def split: list.splits if_splits option.splits)
  show "is_ascii (take 6 s)"
    using hex4_facts(2) [OF lo(1)] by (simp add: s is_ascii_def backslash_def)
  show "0x10000 \<le> r" "r < 0x110000"
    using lo r by linarith+
qed

lemma cons_part_utf8:
  "cons_part p x = Some (v, r) \<Longrightarrow> utf8_valid p \<Longrightarrow>
   (\<And>w. x = Some (w, r) \<Longrightarrow> utf8_valid w \<and> utf8_valid r) \<Longrightarrow> utf8_valid v \<and> utf8_valid r"
  by (auto simp: cons_part_Some utf8_valid_append)

lemma string_body_u:
  assumes "hex4 (take 4 es) = Some n"
  shows "string_body (backslash # CHR ''u'' # es) =
    (if 0xD800 \<le> n \<and> n < 0xE000 then
       (case low_surrogate n (drop 4 es) of
          Some r \<Rightarrow> cons_part (EncodeRune r) (string_body (drop 10 es))
        | None \<Rightarrow> cons_part (EncodeRune 0xFFFD) (string_body (drop 4 es)))
     else cons_part (EncodeRune n) (string_body (drop 4 es)))"
  using assms by (simp add: backslash_def)

text \<open>Every way a string body goes on: one valid piece of text, then a shorter valid body.\<close>

lemma string_body_next:
  assumes "utf8_valid s" and "string_body s = Some (v, r)"
  obtains (finished) "v = []" "utf8_valid r"
  | (more) p x where "utf8_valid p" "utf8_valid x" "length x < length s"
      "cons_part p (string_body x) = Some (v, r)"
proof -
  obtain c cs where s: "s = c # cs"
    using assms(2) by (cases s) simp_all
  show thesis
  proof (cases "byte_val c < (128 :: nat)")
    case False
    let ?n = "utf8_size s"
    have n: "?n \<noteq> 0" "utf8_valid (drop ?n s)"
      using assms(1) utf8_valid_step [of c cs] unfolding s by blast+
    have "string_body s = cons_part (take ?n s) (string_body (drop ?n s))"
      using string_body_high [OF utf8_size_bytes [of c cs], of "drop ?n s"] False unfolding s by simp
    moreover have "length (drop ?n s) < length s"
      using n(1) diff_less [of ?n "length s"] s by (simp only: length_drop length_greater_0_conv neq0_conv) simp
    ultimately show thesis
      using more [OF utf8_valid_rune [OF n(1)] n(2)] assms(2) by (simp only:)
  next
    case ascii: True
    then have cs: "utf8_valid cs"
      using assms(1) by (simp add: s)
    show thesis
    proof (cases "c = CHR 0x22 \<or> c = backslash")
      case False
      with assms(2) have "cons_part [c] (string_body cs) = Some (v, r)"
        by (simp add: s split: if_splits)
      with cs ascii show thesis
        by (intro more [of "[c]" cs]) (simp_all add: s)
    next
      case True
      show thesis
      proof (cases "c = CHR 0x22")
        case True
        with assms(2) cs show thesis by (intro finished) (simp_all add: s)
      next
        case False
        with \<open>c = CHR 0x22 \<or> c = backslash\<close> have c: "c = backslash" by simp
        with assms(2) obtain e es where e: "cs = e # es"
          by (cases cs) (simp_all add: s backslash_def)
        show thesis
        proof (cases "e = CHR ''u''")
          case u: True
          with assms(2) c e obtain n where n: "hex4 (take 4 es) = Some n"
            by (cases "hex4 (take 4 es)") (simp_all add: s backslash_def)
          have d4: "utf8_valid (drop 4 es)"
            using utf8_valid_skip [OF hex4_facts(2) [OF n]] cs u e by simp
          note body = assms(2) [unfolded s c e u string_body_u [OF n]]
          show thesis
          proof (cases "0xD800 \<le> n \<and> n < 0xE000")
            case False
            have "utf8_valid (EncodeRune n)"
              using hex4_facts(3) [OF n] False by (intro EncodeRune_valid) auto
            from more [OF this d4] show thesis
              using body False by (simp add: s e split: if_splits)
          next
            case sur: True
            show thesis
            proof (cases "low_surrogate n (drop 4 es)")
              case None
              have "utf8_valid (EncodeRune 0xFFFD)"
                by (rule EncodeRune_valid) simp_all
              from more [OF this d4] show thesis
                using body sur None by (simp add: s e)
            next
              case (Some x)
              have "utf8_valid (drop 10 es)"
                using utf8_valid_skip [OF low_surrogate_facts(1) [OF Some]] d4 by simp
              moreover have "utf8_valid (EncodeRune x)"
                using low_surrogate_facts(2,3) [OF Some] by (intro EncodeRune_valid) simp_all
              ultimately show thesis
                using more [of "EncodeRune x" "drop 10 es"] body sur Some by (simp add: s e)
            qed
          qed
        next
          case False
          with assms(2) c e obtain x where x: "simple_escape e = Some x"
              "cons_part [x] (string_body es) = Some (v, r)"
            by (cases "simple_escape e") (simp_all add: s backslash_def)
          then have "utf8_valid [x]" "byte_val e < (128 :: nat)"
            by (auto simp: simple_escape_def backslash_def split: if_splits)
          with x cs e show thesis
            by (intro more [of "[x]" es]) (simp_all add: s)
        qed
      qed
    qed
  qed
qed

lemma string_body_utf8:
  "utf8_valid s \<Longrightarrow> string_body s = Some (v, r) \<Longrightarrow> utf8_valid v \<and> utf8_valid r"
proof (induction s arbitrary: v rule: length_induct)
  case (1 s)
  from 1(2,3) show ?case
  proof (cases rule: string_body_next)
    case (more p x)
    from more(4,1) show ?thesis
      by (rule cons_part_utf8) (use 1(1) more(2,3) in blast)
  qed simp
qed

definition token_text :: "json_token \<Rightarrow> bool" where
  "token_text t = (case t of TString s \<Rightarrow> utf8_valid s | TNumber s \<Rightarrow> scan_number s = Some (s, []) | _ \<Rightarrow> True)"

lemma scan_scalar_utf8:
  assumes "utf8_valid s" and "scan_scalar s = Some (t, r)"
  shows "token_text t \<and> utf8_valid r"
proof -
  have lit: "utf8_valid (drop k s)" if "HasPrefix s p" "is_ascii p" "k = length p" for p k
    using that assms(1) utf8_valid_skip [of k s] by (simp add: HasPrefix_def)
  have num: "token_text (TNumber v) \<and> utf8_valid r'" if "scan_number s = Some (v, r')" for v r'
    using scan_number_trunc [OF that, of "[]"] scan_number_split [OF that] assms(1)
      utf8_valid_append [OF utf8_valid_ascii [OF scan_number_ascii [OF that]], of r']
    by (simp add: token_text_def num_stop_def)
  obtain c cs where s: "s = c # cs"
    using assms(2) by (cases s) (simp_all add: scan_scalar_def)
  have str: "token_text (TString v) \<and> utf8_valid r'" if "string_body cs = Some (v, r')" "c = CHR 0x22" for v r'
    using string_body_utf8 [OF _ that(1)] assms(1) that(2) by (simp add: s token_text_def)
  have ascii: "is_ascii ''null''" "is_ascii ''true''" "is_ascii ''false''"
    by (simp_all add: is_ascii_def)
  have lits: "HasPrefix s ''null'' \<Longrightarrow> utf8_valid (drop 4 s)" "HasPrefix s ''true'' \<Longrightarrow> utf8_valid (drop 4 s)"
      "HasPrefix s ''false'' \<Longrightarrow> utf8_valid (drop 5 s)"
    using lit [OF _ ascii(1), of 4] lit [OF _ ascii(2), of 4] lit [OF _ ascii(3), of 5] by simp_all
  show ?thesis
    using assms(2) str num lits unfolding scan_scalar_def s list.case
    by (auto simp: token_text_def split: if_splits)
qed

lemma skip_space_utf8: "utf8_valid s \<Longrightarrow> utf8_valid (skip_space s)"
  unfolding skip_space_def by (induction s) (auto simp del: utf8_valid.simps, auto)

lemma delim_utf8:
  "open_delim c st cs d = Inr (t, d') \<Longrightarrow> utf8_valid cs \<Longrightarrow> token_text t \<and> utf8_valid (dec_rest d')"
  "close_delim c st st' cs d = Inr (t, d') \<Longrightarrow> utf8_valid cs \<Longrightarrow> token_text t \<and> utf8_valid (dec_rest d')"
  by (auto simp: open_delim_def close_delim_def token_text_def split: if_splits list.splits)

lemma Token_utf8:
  "Token d = Inr (t, d') \<Longrightarrow> utf8_valid (dec_rest d) \<Longrightarrow> token_text t \<and> utf8_valid (dec_rest d')"
proof (induction d rule: Token.induct)
  case (1 d)
  have "skip_space (dec_rest d) \<noteq> []"
  proof
    assume "skip_space (dec_rest d) = []"
    then have "Token d = Inl TokenEOF"
      by (simp add: Token.simps [of d])
    with 1(4) show False by simp
  qed
  then obtain c cs where c: "skip_space (dec_rest d) = c # cs"
    unfolding neq_Nil_conv by blast
  have v: "utf8_valid (c # cs)"
    using skip_space_utf8 [OF 1(5)] unfolding c .
  note tok = 1(4) [unfolded Token.simps [of d] c list.case]
  show ?case
  proof (cases "c \<in> set ''[]{}:,'' \<or> c = CHR 0x22")
    case False
    then have "c \<noteq> CHR ''[''" "c \<noteq> CHR '']''" "c \<noteq> CHR ''{''" "c \<noteq> CHR ''}''" "c \<noteq> CHR '':''" "c \<noteq> CHR '',''"
        "c \<noteq> CHR 0x22"
      by simp_all
    with tok obtain r where "scan_scalar (c # cs) = Some (t, r)" "dec_rest d' = r"
      by (auto split: if_splits option.splits)
    with scan_scalar_utf8 [OF v] show ?thesis by simp
  next
    case True
    then have "byte_val c < (128 :: nat)"
      by auto
    then have cs: "utf8_valid cs"
      using v by simp
    consider "c = CHR ''[''" | "c = CHR '']''" | "c = CHR ''{''" | "c = CHR ''}''" | "c = CHR '':''" | "c = CHR '',''"
      | "c = CHR 0x22"
      using True by auto
    then show ?thesis
    proof cases
      case 5
      with tok have st: "dec_state d = tokenObjectColon"
          "Token (d\<lparr>dec_rest := cs, dec_state := tokenObjectValue\<rparr>) = Inr (t, d')"
        by (simp_all split: if_splits)
      from 1(1) [OF c _ _ _ _ 5 _ st(2)] 5 st(1) cs show ?thesis by simp
    next
      case 6
      show ?thesis
      proof (cases "dec_state d = tokenArrayComma")
        case True
        with 6 tok have st: "Token (d\<lparr>dec_rest := cs, dec_state := tokenArrayValue\<rparr>) = Inr (t, d')"
          by simp
        from 1(2) [OF c _ _ _ _ _ 6 True st] 6 cs show ?thesis by simp
      next
        case False
        with 6 tok have st: "dec_state d = tokenObjectComma"
            "Token (d\<lparr>dec_rest := cs, dec_state := tokenObjectKey\<rparr>) = Inr (t, d')"
          by (simp_all split: if_splits)
        from 1(3) [OF c _ _ _ _ _ 6 False st] 6 cs show ?thesis by simp
      qed
    next
      case 7
      show ?thesis
      proof (cases "dec_state d = tokenObjectStart \<or> dec_state d = tokenObjectKey")
        case True
        with 7 tok obtain w where "string_body cs = Some (w, dec_rest d')" "t = TString w"
          by (auto split: option.splits)
        with string_body_utf8 [OF cs] show ?thesis by (simp add: token_text_def)
      next
        case False
        with 7 tok obtain r where "scan_scalar (c # cs) = Some (t, r)" "dec_rest d' = r"
          by (auto split: if_splits option.splits)
        with scan_scalar_utf8 [OF v] show ?thesis by simp
      qed
    qed (use tok cs delim_utf8 in simp_all)
  qed
qed

end
