(* ===== verification/Git_Wire.thy ===== *)
theory Git_Wire
  imports Git_Policy Go_Json
begin

text \<open>
  \<open>internal/gitwire/request.go\<close> and \<open>status.go\<close>: the bounded reader of a \<open>git-receive-pack\<close> command
  list and the observer of the upstream's status report. The body of a request is the bytes it will
  still deliver and how it ends; the answers of the context and the deadline are a parameter
  \<open>live\<close>, indexed by the order in which the code asks. Routing (\<open>Route\<close>, \<open>New\<close>) works on parsed
  URLs and is not modelled.

  The control prefix the parser keeps, followed by what it left unread, is exactly the body that
  arrived; the parser accepts every well-formed command list a client can send; and the observer
  reports a result only for a report that names every requested ref once.
\<close>

definition ControlBytes :: nat where
  "ControlBytes = 256 * 1024"

definition CapabilityBytes :: nat where
  "CapabilityBytes = 4096"

datatype wire_error = ErrUnsupported

record body_source =
  src_bytes :: string
  src_clean :: bool

record wire_Request =
  wr_operation :: string
  wr_reportStatus :: bool
  wr_sideband :: bool
  wr_actions :: "RefAction list"
  wr_prefix :: string
  wr_source :: body_source
  wr_used :: bool

definition oid :: "string \<Rightarrow> bool" where
  "oid value \<longleftrightarrow> length value = 40 \<and> Trim value hex_digits = []"

subsection \<open>Capabilities\<close>

definition known_capabilities :: "string list" where
  "known_capabilities =
     [''report-status'', ''report-status-v2'', ''delete-refs'', ''side-band-64k'', ''quiet'', ''atomic'',
      ''ofs-delta'', ''object-format=sha1'']"

definition capability_token :: "string \<Rightarrow> bool" where
  "capability_token token \<longleftrightarrow>
     token \<in> set known_capabilities \<or>
     HasPrefix token ''agent='' \<and> 6 < length token \<and> length token \<le> 256 \<and>
     list_all (\<lambda>b. 33 \<le> byte_val b \<and> byte_val b \<le> (126 :: nat)) token"

definition capability_key :: "string \<Rightarrow> string" where
  "capability_key token = fst (Cut CHR ''='' token)"

definition validCapabilities :: "string \<Rightarrow> bool" where
  "validCapabilities value =
     (if length value = 0 \<or> length value > CapabilityBytes then False
      else
        let tokens = Split CHR '' '' (TrimPrefix value '' '') in
        if length tokens > 32 then False
        else scan_distinct (\<lambda>token. token \<noteq> [] \<and> capability_token token) capability_key [] tokens)"

text \<open>\<open>strings.Fields\<close> on ASCII input: the maximal runs without white space.\<close>

definition is_field_space :: "char \<Rightarrow> bool" where
  "is_field_space c \<longleftrightarrow> c \<in> {CHR 0x09, CHR 0x0A, CHR 0x0B, CHR 0x0C, CHR 0x0D, CHR '' ''}"

function Fields :: "string \<Rightarrow> string list" where
  "Fields s =
     (case dropWhile is_field_space s of
        [] \<Rightarrow> []
      | c # cs \<Rightarrow>
          takeWhile (\<lambda>x. \<not> is_field_space x) (c # cs) # Fields (dropWhile (\<lambda>x. \<not> is_field_space x) (c # cs)))"
  by pat_completeness auto

lemma Fields_shrinks:
  assumes "dropWhile is_field_space s = c # cs"
  shows "length (dropWhile (\<lambda>x. \<not> is_field_space x) (c # cs)) < length s"
proof -
  have "\<not> is_field_space c"
    using assms hd_dropWhile [of is_field_space s] by simp
  then have "length (dropWhile (\<lambda>x. \<not> is_field_space x) (c # cs)) \<le> length cs"
    using length_dropWhile_le [of "\<lambda>x. \<not> is_field_space x" cs] by simp
  also have "length cs < length s"
    using length_dropWhile_le [of is_field_space s] assms by simp
  finally show ?thesis .
qed

termination Fields
  by (relation "measure length") (simp_all only: wf_measure in_measure Fields_shrinks)

declare Fields.simps [simp del]

subsection \<open>Reading the command list\<close>

definition zero_oid :: string where
  "zero_oid = replicate 40 CHR ''0''"

text \<open>One command: the action it requests, or \<open>None\<close> for the error.\<close>

definition parse_command :: "string list \<Rightarrow> string \<Rightarrow> RefAction option" where
  "parse_command seen control =
     (case Split CHR '' '' control of
        [old, new, ref] \<Rightarrow>
          if \<not> oid old \<or> \<not> oid new \<or> \<not> ValidRef ref
             \<or> \<not> HasPrefix ref ''refs/heads/'' \<and> \<not> HasPrefix ref ''refs/tags/'' \<or> ref \<in> set seen
          then None
          else if old = zero_oid \<and> new = zero_oid then None
          else Some \<lparr>ra_Ref = ref,
                     ra_Action = (if new = zero_oid then ''delete'' else if old = zero_oid then ''create'' else ''update'')\<rparr>
      | _ \<Rightarrow> None)"

text \<open>The capabilities after the first command's NUL byte, when there are any.\<close>

definition read_capabilities :: "wire_Request \<Rightarrow> string \<Rightarrow> (string \<times> wire_Request) option" where
  "read_capabilities r line =
     (if wr_actions r \<noteq> [] then Some (line, r)
      else
        (case Cut CHR 0x00 line of
           (command, capabilities, found) \<Rightarrow>
             if \<not> found then Some (line, r)
             else if \<not> validCapabilities capabilities then None
             else
               let tokens = Fields capabilities in
               Some (command,
                 r\<lparr>wr_reportStatus := ''report-status'' \<in> set tokens \<or> ''report-status-v2'' \<in> set tokens,
                   wr_sideband := ''side-band-64k'' \<in> set tokens\<rparr>)))"

definition unread :: "wire_Request \<Rightarrow> string" where
  "unread r = src_bytes (wr_source r)"

definition take_source :: "nat \<Rightarrow> wire_Request \<Rightarrow> wire_Request" where
  "take_source n r =
     r\<lparr>wr_source := (wr_source r)\<lparr>src_bytes := drop n (unread r)\<rparr>,
       wr_prefix := wr_prefix r @ take n (unread r)\<rparr>"

function parse_loop ::
  "(nat \<Rightarrow> bool) \<Rightarrow> nat \<Rightarrow> string list \<Rightarrow> bool \<Rightarrow> wire_Request \<Rightarrow> wire_error + bool \<times> nat \<times> wire_Request" where
  "parse_loop live i seen needsPack r =
     (if \<not> live i \<or> length (unread r) < 4 then Inl ErrUnsupported
      else
        let framing = take 4 (unread r) in
        (case ParseUint 16 16 framing of
           None \<Rightarrow> Inl ErrUnsupported
         | Some psize \<Rightarrow>
             if Trim framing hex_digits \<noteq> [] \<or> length (wr_prefix r) + 4 > ControlBytes
             then Inl ErrUnsupported
             else
               let r1 = take_source 4 r in
               if psize = 0 then Inr (needsPack, Suc i, r1)
               else if psize < 5 \<or> psize > 65520 \<or> length (wr_prefix r1) + psize - 4 > ControlBytes
                       \<or> length (wr_actions r1) \<ge> GitRequestedRefs \<or> length (unread r1) < psize - 4
               then Inl ErrUnsupported
               else
                 (case read_capabilities (take_source (psize - 4) r1) (take (psize - 4) (unread r1)) of
                    None \<Rightarrow> Inl ErrUnsupported
                  | Some (control, r2) \<Rightarrow>
                      (case parse_command seen control of
                         None \<Rightarrow> Inl ErrUnsupported
                       | Some a \<Rightarrow>
                           parse_loop live (Suc i) (ra_Ref a # seen) (needsPack \<or> ra_Action a \<noteq> ''delete'')
                             (r2\<lparr>wr_actions := wr_actions r2 @ [a]\<rparr>)))))"
  by pat_completeness auto

lemma take_source_simps [simp]:
  "unread (take_source n r) = drop n (unread r)" "wr_actions (take_source n r) = wr_actions r"
  "wr_prefix (take_source n r) = wr_prefix r @ take n (unread r)"
  "src_clean (wr_source (take_source n r)) = src_clean (wr_source r)"
  "wr_operation (take_source n r) = wr_operation r" "wr_used (take_source n r) = wr_used r"
  by (simp_all add: take_source_def unread_def)

lemma unread_update [simp]: "unread (r\<lparr>wr_actions := as\<rparr>) = unread r" "unread (r\<lparr>wr_operation := x\<rparr>) = unread r"
  by (simp_all add: unread_def)

lemma read_capabilities_Some:
  assumes "read_capabilities r line = Some (control, r')"
  shows "unread r' = unread r" "wr_prefix r' = wr_prefix r" "wr_actions r' = wr_actions r"
    "wr_source r' = wr_source r" "wr_operation r' = wr_operation r" "wr_used r' = wr_used r"
  using assms
  by (auto simp: read_capabilities_def unread_def Let_def split: if_splits prod.splits)

termination parse_loop
proof (relation "measure (\<lambda>(live, i, seen, p, r). length (unread r))", goal_cases)
  case 1
  show ?case by simp
next
  case (2 live i seen needsPack r framing psize r1 x control r2 a)
  then show ?case
    using read_capabilities_Some(1) [of "take_source (psize - 4) (take_source 4 r)" _ control r2]
    by auto
qed

declare parse_loop.simps [simp del]

definition exactEnd :: "(nat \<Rightarrow> bool) \<Rightarrow> nat \<Rightarrow> body_source \<Rightarrow> bool" where
  "exactEnd live i s \<longleftrightarrow> live i \<and> src_bytes s = [] \<and> src_clean s \<and> live (Suc i)"

definition parse :: "(nat \<Rightarrow> bool) \<Rightarrow> wire_Request \<Rightarrow> wire_error + wire_Request" where
  "parse live r =
     (case parse_loop live 0 [] False r of
        Inl e \<Rightarrow> Inl e
      | Inr (needsPack, i, r1) \<Rightarrow>
          if \<not> live i then Inl ErrUnsupported
          else
            let r2 = (if wr_actions r1 = [] then r1\<lparr>wr_operation := ''probe''\<rparr> else r1) in
            if \<not> needsPack then
              (if exactEnd live (Suc i) (wr_source r2) then Inr r2 else Inl ErrUnsupported)
            else if length (unread r2) < 4 \<or> take 4 (unread r2) \<noteq> ''PACK'' \<or> \<not> live (Suc i)
            then Inl ErrUnsupported
            else Inr (take_source 4 r2))"

definition Dispatch :: "wire_Request \<Rightarrow> wire_error + string \<times> wire_Request" where
  "Dispatch r =
     (if wr_used r then Inl ErrUnsupported
      else Inr (wr_prefix r @ unread r, r\<lparr>wr_used := True\<rparr>))"

definition PushCapable :: "wire_Request \<Rightarrow> bool" where
  "PushCapable r \<longleftrightarrow> wr_operation r = ''push_discovery'' \<or> wr_operation r = ''probe''"

subsection \<open>What an accepted request is\<close>

definition push_action :: "RefAction \<Rightarrow> bool" where
  "push_action a \<longleftrightarrow>
     valid_action a \<and> (HasPrefix (ra_Ref a) ''refs/heads/'' \<or> HasPrefix (ra_Ref a) ''refs/tags/'')"

definition wire_inv :: "string \<Rightarrow> string list \<Rightarrow> wire_Request \<Rightarrow> bool" where
  "wire_inv body seen r \<longleftrightarrow>
     wr_prefix r @ unread r = body \<and> length (wr_prefix r) \<le> ControlBytes \<and>
     length (wr_actions r) \<le> GitRequestedRefs \<and> list_all push_action (wr_actions r) \<and>
     distinct (map ra_Ref (wr_actions r)) \<and> set (map ra_Ref (wr_actions r)) = set seen"

lemma parse_command_Some:
  assumes "parse_command seen control = Some a"
  shows "push_action a" and "ra_Ref a \<notin> set seen"
  using assms
  by (auto simp: parse_command_def push_action_def valid_action_def git_actions_def
      split: list.splits if_splits)

lemma wire_inv_take [inv_intros]:
  "wire_inv body seen r \<Longrightarrow> length (wr_prefix r) + n \<le> ControlBytes \<Longrightarrow> wire_inv body seen (take_source n r)"
  by (auto simp: wire_inv_def)

lemma wire_inv_capabilities [inv_intros]:
  "wire_inv body seen r \<Longrightarrow> read_capabilities r line = Some (control, r') \<Longrightarrow> wire_inv body seen r'"
  using read_capabilities_Some [of r line control r'] by (simp add: wire_inv_def)

lemma wire_inv_action [inv_intros]:
  assumes "wire_inv body seen r" and "parse_command seen control = Some a"
    and "length (wr_actions r) < GitRequestedRefs"
  shows "wire_inv body (ra_Ref a # seen) (r\<lparr>wr_actions := wr_actions r @ [a]\<rparr>)"
  using assms parse_command_Some [OF assms(2)] by (auto simp: wire_inv_def)

lemma parse_loop_inv:
  "parse_loop live i seen needsPack r = Inr (p, j, r') \<Longrightarrow> wire_inv body seen r \<Longrightarrow>
     (\<exists>seen'. wire_inv body seen' r') \<and> src_clean (wr_source r') = src_clean (wr_source r) \<and>
     (p \<longleftrightarrow> needsPack \<or> (\<exists>a \<in> set (drop (length (wr_actions r)) (wr_actions r')). ra_Action a \<noteq> ''delete''))
     \<and> take (length (wr_actions r)) (wr_actions r') = wr_actions r"
proof (induction live i seen needsPack r rule: parse_loop.induct)
  case (1 live i seen needsPack r)
  from 1(2) obtain n where n: "live i" "\<not> length (unread r) < 4" "ParseUint 16 16 (take 4 (unread r)) = Some n"
      "Trim (take 4 (unread r)) hex_digits = []" "length (wr_prefix r) + 4 \<le> ControlBytes"
    by (subst (asm) parse_loop.simps) (auto simp: Let_def split: if_splits option.splits)
  let ?r1 = "take_source 4 r"
  have inv1: "wire_inv body seen ?r1"
    using 1(3) n(5) by (rule wire_inv_take)
  show ?case
  proof (cases "n = 0")
    case True
    with 1(2) n inv1 show ?thesis
      by (subst (asm) parse_loop.simps) (auto simp: Let_def)
  next
    case False
    with 1(2) n obtain control r2 a where
        c: "\<not> (n < 5 \<or> n > 65520 \<or> length (wr_prefix ?r1) + n - 4 > ControlBytes \<or>
             length (wr_actions ?r1) \<ge> GitRequestedRefs \<or> length (unread ?r1) < n - 4)"
        "read_capabilities (take_source (n - 4) ?r1) (take (n - 4) (unread ?r1)) = Some (control, r2)"
        "parse_command seen control = Some a"
        and rec: "parse_loop live (Suc i) (ra_Ref a # seen) (needsPack \<or> ra_Action a \<noteq> ''delete'')
             (r2\<lparr>wr_actions := wr_actions r2 @ [a]\<rparr>) = Inr (p, j, r')"
      by (subst (asm) parse_loop.simps) (auto simp: Let_def split: if_splits option.splits)
    note acts = read_capabilities_Some(3,4) [OF c(2)]
    have "wire_inv body seen (take_source (n - 4) ?r1)"
      by (rule wire_inv_take [OF inv1]) (use c(1) in auto)
    then have "wire_inv body seen r2"
      using c(2) by (rule wire_inv_capabilities)
    then have inv2: "wire_inv body (ra_Ref a # seen) (r2\<lparr>wr_actions := wr_actions r2 @ [a]\<rparr>)"
      using c(1,3) acts(1) by (intro wire_inv_action) auto
    have IH: "(\<exists>seen'. wire_inv body seen' r') \<and> src_clean (wr_source r') = src_clean (wr_source r2) \<and>
        (p \<longleftrightarrow> (needsPack \<or> ra_Action a \<noteq> ''delete'') \<or>
           (\<exists>b \<in> set (drop (Suc (length (wr_actions r))) (wr_actions r')). ra_Action b \<noteq> ''delete''))
        \<and> take (Suc (length (wr_actions r))) (wr_actions r') = wr_actions r @ [a]"
      using 1(1) [OF _ refl n(3) _ refl False c(1,2) refl c(3) rec inv2] n acts(1) by simp
    then have split: "drop (length (wr_actions r)) (wr_actions r') =
        a # drop (Suc (length (wr_actions r))) (wr_actions r')"
      by (metis append_eq_conv_conj append_take_drop_id append.assoc append_Cons append_Nil)
    have "take (length (wr_actions r)) (wr_actions r') = wr_actions r"
      using IH by (metis append_eq_conv_conj append_take_drop_id append.assoc)
    with IH split acts(2) show ?thesis by auto
  qed
qed

lemma parse_cases:
  assumes "parse live r = Inr r'"
  obtains p i r1 r2 where "parse_loop live 0 [] False r = Inr (p, i, r1)"
    and "r2 = (if wr_actions r1 = [] then r1\<lparr>wr_operation := ''probe''\<rparr> else r1)"
    and "if p then r' = take_source 4 r2 \<and> take 4 (unread r2) = ''PACK'' else r' = r2 \<and> unread r2 = []"
proof -
  obtain p i r1 where loop: "parse_loop live 0 [] False r = Inr (p, i, r1)"
    using assms by (cases "parse_loop live 0 [] False r") (auto simp: parse_def)
  define r2 where "r2 = (if wr_actions r1 = [] then r1\<lparr>wr_operation := ''probe''\<rparr> else r1)"
  have "if p then r' = take_source 4 r2 \<and> take 4 (unread r2) = ''PACK'' else r' = r2 \<and> unread r2 = []"
    using assms unfolding parse_def loop
    by (auto simp: Let_def r2_def exactEnd_def unread_def split: if_splits)
  with loop r2_def show thesis
    by (rule that)
qed

lemma wire_parse_facts:
  assumes "parse live r = Inr r'" and "wr_prefix r = []" and "wr_actions r = []"
  shows "wr_prefix r' @ unread r' = unread r" and "length (wr_prefix r') \<le> ControlBytes + 4"
    and "length (wr_actions r') \<le> GitRequestedRefs" and "list_all push_action (wr_actions r')"
    and "distinct (map ra_Ref (wr_actions r'))"
    and "wr_actions r' = [] \<Longrightarrow> wr_operation r' = ''probe''"
    and "if \<exists>a \<in> set (wr_actions r'). ra_Action a \<noteq> ''delete'' then HasSuffix (wr_prefix r') ''PACK''
         else unread r' = []"
proof -
  obtain p i r1 r2 where loop: "parse_loop live 0 [] False r = Inr (p, i, r1)"
    and r2: "r2 = (if wr_actions r1 = [] then r1\<lparr>wr_operation := ''probe''\<rparr> else r1)"
    and out: "if p then r' = take_source 4 r2 \<and> take 4 (unread r2) = ''PACK'' else r' = r2 \<and> unread r2 = []"
    by (rule parse_cases [OF assms(1)])
  have "wire_inv (unread r) [] r"
    using assms(2,3) by (simp add: wire_inv_def)
  note l = parse_loop_inv [OF loop this]
  from l obtain seen where inv: "wire_inv (unread r) seen r1"
    by blast
  have r2s: "wr_prefix r2 = wr_prefix r1" "unread r2 = unread r1" "wr_actions r2 = wr_actions r1"
    by (simp_all add: r2)
  have p: "p \<longleftrightarrow> (\<exists>a \<in> set (wr_actions r1). ra_Action a \<noteq> ''delete'')"
    using l assms(3) by simp
  have acts: "wr_actions r' = wr_actions r1"
    using out r2s by (cases p) auto
  have invs: "wr_prefix r1 @ unread r1 = unread r" "length (wr_prefix r1) \<le> ControlBytes"
    using inv by (simp_all add: wire_inv_def)
  show "wr_prefix r' @ unread r' = unread r"
  proof (cases p)
    case True
    with out r2s have "wr_prefix r' @ unread r' = wr_prefix r1 @ take 4 (unread r1) @ drop 4 (unread r1)"
      by (simp only: take_source_simps if_True append_assoc)
    with invs(1) show ?thesis
      by (simp only: append_take_drop_id)
  next
    case False
    with out invs(1) r2s show ?thesis by simp
  qed
  show "length (wr_prefix r') \<le> ControlBytes + 4"
    using out invs(2) r2s by (cases p) simp_all
  show "length (wr_actions r') \<le> GitRequestedRefs" "list_all push_action (wr_actions r')"
      "distinct (map ra_Ref (wr_actions r'))"
    using inv by (simp_all add: acts wire_inv_def)
  show "wr_actions r' = [] \<Longrightarrow> wr_operation r' = ''probe''"
    using out by (cases p) (auto simp: acts r2)
  show "if \<exists>a \<in> set (wr_actions r'). ra_Action a \<noteq> ''delete'' then HasSuffix (wr_prefix r') ''PACK''
         else unread r' = []"
    using out p r2s(3) by (cases p) (auto simp: HasSuffix_iff)
qed

subsection \<open>Every well-formed command list is accepted\<close>

definition hex4_digits :: "nat \<Rightarrow> string" where
  "hex4_digits n = [lower_hex (n div 4096), lower_hex (n div 256), lower_hex (n div 16), lower_hex n]"

definition pkt_line :: "string \<Rightarrow> string" where
  "pkt_line s = hex4_digits (length s + 4) @ s"

lemma hex4_digits_parse:
  assumes "n < 65536"
  shows "ParseUint 16 16 (hex4_digits n) = Some n" "Trim (hex4_digits n) hex_digits = []" "length (hex4_digits n) = 4"
proof -
  have m: "16 * (n div 16) + n mod 16 = n" "16 * (n div 256) + n div 16 mod 16 = n div 16"
      "16 * (n div 4096) + n div 256 mod 16 = n div 256"
    using mult_div_mod_eq [of 16 n] mult_div_mod_eq [of 16 "n div 16"] mult_div_mod_eq [of 16 "n div 256"]
    by (simp_all add: div_mult2_eq [symmetric])
  have "n div 4096 < 16"
    using assms by linarith
  then have "parse_digits 16 0 (hex4_digits n) = Some n"
    using m by (simp add: hex4_digits_def lower_hex_facts mult.commute)
  with assms show "ParseUint 16 16 (hex4_digits n) = Some n"
    by (simp add: ParseUint_def hex4_digits_def)
  show "Trim (hex4_digits n) hex_digits = []"
    unfolding Trim_empty_iff by (simp add: hex4_digits_def lower_hex_facts)
  show "length (hex4_digits n) = 4"
    by (simp add: hex4_digits_def)
qed

record push_command =
  pc_old :: string
  pc_new :: string
  pc_ref :: string

definition command_line :: "push_command \<Rightarrow> string" where
  "command_line c = pc_old c @ '' '' @ pc_new c @ '' '' @ pc_ref c"

definition command_action :: "push_command \<Rightarrow> RefAction" where
  "command_action c = \<lparr>ra_Ref = pc_ref c,
     ra_Action = (if pc_new c = zero_oid then ''delete'' else if pc_old c = zero_oid then ''create'' else ''update'')\<rparr>"

definition valid_command :: "push_command \<Rightarrow> bool" where
  "valid_command c \<longleftrightarrow>
     oid (pc_old c) \<and> oid (pc_new c) \<and> \<not> (pc_old c = zero_oid \<and> pc_new c = zero_oid) \<and> ValidRef (pc_ref c) \<and>
     (HasPrefix (pc_ref c) ''refs/heads/'' \<or> HasPrefix (pc_ref c) ''refs/tags/'')"

lemma oid_no_space: "oid v \<Longrightarrow> CHR '' '' \<notin> set v \<and> CHR 0x00 \<notin> set v"
proof -
  assume "oid v"
  then have "set v \<subseteq> set hex_digits"
    by (auto simp: oid_def Trim_empty_iff)
  moreover have "CHR '' '' \<notin> set hex_digits \<and> CHR 0x00 \<notin> set hex_digits"
    by (simp add: hex_digits_def)
  ultimately show ?thesis by blast
qed

lemma ref_no_space: "ValidRef v \<Longrightarrow> CHR '' '' \<notin> set v \<and> CHR 0x00 \<notin> set v"
proof -
  assume "ValidRef v"
  then have "list_all git_ref_byte v"
    by (simp add: ValidRef_def ValidGitRefName_def)
  moreover have "\<not> git_ref_byte CHR '' ''" "\<not> git_ref_byte CHR 0x00"
    by (simp_all add: git_ref_byte_def)
  ultimately show ?thesis
    unfolding list_all_iff by blast
qed

lemma Split_three:
  assumes "sep \<notin> set a" and "sep \<notin> set b" and "sep \<notin> set c"
  shows "Split sep (a @ [sep] @ b @ [sep] @ c) = [a, b, c]"
  using Split_Join [of "[a, b, c]" sep] assms by simp

lemma command_line_parse:
  assumes "valid_command c" and "pc_ref c \<notin> set seen"
  shows "parse_command seen (command_line c) = Some (command_action c)" and "CHR 0x00 \<notin> set (command_line c)"
proof -
  have c: "oid (pc_old c)" "oid (pc_new c)" "ValidRef (pc_ref c)"
    using assms(1) by (simp_all add: valid_command_def)
  note no = oid_no_space [OF c(1)] oid_no_space [OF c(2)] ref_no_space [OF c(3)]
  have "Split CHR '' '' (command_line c) = [pc_old c, pc_new c, pc_ref c]"
    unfolding command_line_def by (rule Split_three) (simp_all add: no)
  with assms c show "parse_command seen (command_line c) = Some (command_action c)"
    by (simp add: parse_command_def valid_command_def command_action_def)
  show "CHR 0x00 \<notin> set (command_line c)"
    using no by (simp add: command_line_def)
qed

text \<open>One packet line read by the loop.\<close>

lemma parse_loop_line:
  assumes "live i" and body: "unread r = pkt_line s @ rest"
    and len: "s \<noteq> []" "length s \<le> 65516" "length (wr_prefix r) + length (pkt_line s) \<le> ControlBytes"
    and acts: "length (wr_actions r) < GitRequestedRefs"
    and cap: "read_capabilities (take_source (length s + 4) r) s = Some (control, r2)"
    and cmd: "parse_command seen control = Some a"
  shows "parse_loop live i seen needsPack r =
    parse_loop live (Suc i) (ra_Ref a # seen) (needsPack \<or> ra_Action a \<noteq> ''delete'')
      (r2\<lparr>wr_actions := wr_actions r2 @ [a]\<rparr>)"
proof -
  let ?n = "length s + 4"
  have n: "?n < 65536" "?n \<noteq> 0" "\<not> ?n < 5" "\<not> ?n > 65520"
    using len by (simp_all add: Suc_le_eq)
  note h = hex4_digits_parse [OF n(1)]
  have four: "take 4 (unread r) = hex4_digits ?n" "drop 4 (unread r) = s @ rest" "\<not> length (unread r) < 4"
    using h(3) by (simp_all add: body pkt_line_def)
  have both: "take_source (?n - 4) (take_source 4 r) = take_source ?n r"
    by (simp add: take_source_def unread_def) (metis add.commute take_add)
  show ?thesis
    using assms(1) n h len(3) acts four both cap cmd
    by (subst parse_loop.simps) (simp add: Let_def pkt_line_def)
qed

lemma parse_loop_flush:
  assumes "live i" and "unread r = ''0000'' @ rest" and "length (wr_prefix r) + 4 \<le> ControlBytes"
  shows "parse_loop live i seen needsPack r = Inr (needsPack, Suc i, take_source 4 r)"
proof -
  have "hex4_digits 0 = ''0000''"
    by (simp add: hex4_digits_def lower_hex_def hex_digits_def)
  with hex4_digits_parse [of 0] have "ParseUint 16 16 ''0000'' = Some 0" "Trim ''0000'' hex_digits = []"
    by simp_all
  with assms show ?thesis
    by (subst parse_loop.simps) (simp add: Let_def)
qed

lemma command_line_length: "valid_command c \<Longrightarrow> command_line c \<noteq> [] \<and> length (command_line c) \<le> 1106"
  by (auto simp: valid_command_def command_line_def oid_def ValidRef_def ValidGitRefName_def GitRefBytes_def)

lemma read_capabilities_later: "wr_actions r \<noteq> [] \<Longrightarrow> read_capabilities r s = Some (s, r)"
  by (simp add: read_capabilities_def)

definition needs_pack :: "push_command list \<Rightarrow> bool" where
  "needs_pack cs \<longleftrightarrow> (\<exists>c \<in> set cs. ra_Action (command_action c) \<noteq> ''delete'')"

definition same_mode :: "wire_Request \<Rightarrow> wire_Request \<Rightarrow> bool" where
  "same_mode r r' \<longleftrightarrow>
     wr_reportStatus r' = wr_reportStatus r \<and> wr_sideband r' = wr_sideband r \<and>
     wr_operation r' = wr_operation r \<and> src_clean (wr_source r') = src_clean (wr_source r) \<and>
     wr_used r' = wr_used r"

lemma same_mode_simps [simp]:
  "same_mode r (take_source n r)" "same_mode r (r\<lparr>wr_actions := as\<rparr>)"
  "same_mode (take_source n r) r' = same_mode r r'" "same_mode (r\<lparr>wr_actions := as\<rparr>) r' = same_mode r r'"
  by (simp_all add: same_mode_def take_source_def)

lemma parse_loop_commands:
  assumes "\<And>k. live k" and "wr_actions r \<noteq> []" and "\<forall>c \<in> set cs. valid_command c"
    and "distinct (map pc_ref cs)" and "set (map pc_ref cs) \<inter> set seen = {}"
    and "length (wr_actions r) + length cs \<le> GitRequestedRefs"
    and "unread r = concat (map (pkt_line \<circ> command_line) cs) @ ''0000'' @ rest"
    and "length (wr_prefix r) + length (concat (map (pkt_line \<circ> command_line) cs)) + 4 \<le> ControlBytes"
  shows "\<exists>j r'. parse_loop live i seen np r = Inr (np \<or> needs_pack cs, j, r') \<and>
     wr_actions r' = wr_actions r @ map command_action cs \<and> unread r' = rest \<and> same_mode r r'"
  using assms(2-)
proof (induction cs arbitrary: i seen np r)
  case Nil
  with parse_loop_flush [OF assms(1), of r rest] show ?case
    by (simp add: needs_pack_def)
next
  case (Cons c cs)
  let ?s = "command_line c"
  let ?tail = "concat (map (pkt_line \<circ> command_line) cs) @ ''0000'' @ rest"
  have c: "valid_command c" "pc_ref c \<notin> set seen"
    using Cons.prems by auto
  note l = command_line_length [OF c(1)]
  let ?r1 = "take_source (length ?s + 4) r"
  let ?r2 = "?r1\<lparr>wr_actions := wr_actions ?r1 @ [command_action c]\<rparr>"
  have body: "unread r = pkt_line ?s @ ?tail"
    using Cons.prems(6) by (simp add: comp_def)
  have pk: "length (pkt_line ?s) = length ?s + 4"
    using hex4_digits_parse(3) [of "length ?s + 4"] l by (simp add: pkt_line_def)
  have step: "parse_loop live i seen np r =
      parse_loop live (Suc i) (pc_ref c # seen) (np \<or> ra_Action (command_action c) \<noteq> ''delete'') ?r2"
    using parse_loop_line [where live = live and i = i and control = "command_line c" and ?r2.0 = ?r1 and
        seen = seen and a = "command_action c" and needsPack = np, OF assms(1) body] l Cons.prems(1,5,7) pk
      command_line_parse(1) [OF c] read_capabilities_later [of ?r1 ?s]
    by (simp add: command_action_def)
  have u: "unread ?r2 = ?tail"
    using body pk by (simp add: comp_def)
  have "\<exists>j r'. parse_loop live (Suc i) (pc_ref c # seen) (np \<or> ra_Action (command_action c) \<noteq> ''delete'') ?r2 =
      Inr ((np \<or> ra_Action (command_action c) \<noteq> ''delete'') \<or> needs_pack cs, j, r') \<and>
      wr_actions r' = wr_actions ?r2 @ map command_action cs \<and> unread r' = rest \<and> same_mode ?r2 r'"
    using Cons.prems u pk body
    by (intro Cons.IH) (auto simp: pk)
  then show ?case
    unfolding step by (auto simp: needs_pack_def)
qed

definition first_line :: "push_command \<Rightarrow> string option \<Rightarrow> string" where
  "first_line c caps = command_line c @ (case caps of None \<Rightarrow> [] | Some v \<Rightarrow> CHR 0x00 # v)"

definition push_commands :: "string option \<Rightarrow> push_command list \<Rightarrow> string" where
  "push_commands caps cs =
     (case cs of
        [] \<Rightarrow> []
      | c # cs' \<Rightarrow> pkt_line (first_line c caps) @ concat (map (pkt_line \<circ> command_line) cs'))"

definition requested :: "string option \<Rightarrow> string list \<Rightarrow> bool" where
  "requested caps names \<longleftrightarrow> (case caps of None \<Rightarrow> False | Some v \<Rightarrow> \<exists>n \<in> set names. n \<in> set (Fields v))"

lemma read_first_line:
  assumes "valid_command c" and "wr_actions r = []" and "\<forall>v. caps = Some v \<longrightarrow> validCapabilities v"
    and "wr_reportStatus r = False" and "wr_sideband r = False"
  shows "read_capabilities r (first_line c caps) = Some (command_line c,
    r\<lparr>wr_reportStatus := requested caps [''report-status'', ''report-status-v2''],
      wr_sideband := requested caps [''side-band-64k'']\<rparr>)"
proof -
  have nul: "CHR 0x00 \<notin> set (command_line c)"
    by (rule command_line_parse(2) [of c "[]"]) (simp_all add: assms(1))
  show ?thesis
  proof (cases caps)
    case None
    have "r\<lparr>wr_reportStatus := False, wr_sideband := False\<rparr> = r"
      using assms(4,5) by simp
    with None nul assms(2) show ?thesis
      by (simp add: read_capabilities_def first_line_def requested_def Cut_none)
  next
    case (Some v)
    with nul assms(2,3) show ?thesis
      by (simp add: read_capabilities_def first_line_def requested_def Cut_append Let_def)
  qed
qed

lemma parse_push_commands:
  assumes live: "\<And>k. live k" and cs: "cs \<noteq> []" "\<forall>c \<in> set cs. valid_command c" "distinct (map pc_ref cs)"
      "length cs \<le> GitRequestedRefs"
    and caps: "\<forall>v. caps = Some v \<longrightarrow> validCapabilities v"
    and fresh: "wr_prefix r = []" "wr_actions r = []" "wr_reportStatus r = False" "wr_sideband r = False"
    and body: "unread r = push_commands caps cs @ ''0000'' @ rest"
    and len: "length (push_commands caps cs) + 4 \<le> ControlBytes"
  shows "\<exists>j r'. parse_loop live 0 [] False r = Inr (needs_pack cs, j, r') \<and>
     wr_actions r' = map command_action cs \<and> unread r' = rest \<and>
     same_mode (r\<lparr>wr_reportStatus := requested caps [''report-status'', ''report-status-v2''],
                 wr_sideband := requested caps [''side-band-64k'']\<rparr>) r'"
proof -
  obtain c cs' where c: "cs = c # cs'"
    using cs(1) by (cases cs) auto
  let ?s = "first_line c caps"
  let ?tail = "concat (map (pkt_line \<circ> command_line) cs') @ ''0000'' @ rest"
  let ?mode = "\<lambda>r. r\<lparr>wr_reportStatus := requested caps [''report-status'', ''report-status-v2''],
                 wr_sideband := requested caps [''side-band-64k'']\<rparr>"
  have vc: "valid_command c"
    using cs(2) c by simp
  have sl: "?s \<noteq> []" "length ?s \<le> 65516"
    using command_line_length [OF vc] caps
    by (auto simp: first_line_def validCapabilities_def CapabilityBytes_def split: option.splits if_splits)
  have pk: "length (pkt_line ?s) = length ?s + 4"
    using hex4_digits_parse(3) [of "length ?s + 4"] sl by (simp add: pkt_line_def)
  have u: "unread r = pkt_line ?s @ ?tail"
    using body by (simp add: push_commands_def c)
  let ?r1 = "take_source (length ?s + 4) r"
  have cap: "read_capabilities ?r1 ?s = Some (command_line c, ?mode ?r1)"
    using fresh by (intro read_first_line [OF vc _ caps]) (simp_all add: take_source_def)
  let ?r2 = "(?mode ?r1)\<lparr>wr_actions := wr_actions (?mode ?r1) @ [command_action c]\<rparr>"
  have step: "parse_loop live 0 [] False r =
      parse_loop live (Suc 0) [pc_ref c] (False \<or> ra_Action (command_action c) \<noteq> ''delete'') ?r2"
    using parse_loop_line [where live = live and i = 0 and needsPack = False,
        OF live u sl _ _ cap command_line_parse(1) [OF vc, of "[]"]] len pk fresh
    by (simp add: push_commands_def c command_action_def GitRequestedRefs_def)
  have u2: "unread ?r2 = ?tail"
    using u pk by (simp add: unread_def take_source_def)
  have "\<exists>j r'. parse_loop live (Suc 0) [pc_ref c] (False \<or> ra_Action (command_action c) \<noteq> ''delete'') ?r2 =
      Inr ((False \<or> ra_Action (command_action c) \<noteq> ''delete'') \<or> needs_pack cs', j, r') \<and>
      wr_actions r' = wr_actions ?r2 @ map command_action cs' \<and> unread r' = rest \<and> same_mode ?r2 r'"
    using cs c fresh len u pk u2
    by (intro parse_loop_commands [OF live]) (auto simp: push_commands_def)
  moreover have "same_mode ?r2 x = same_mode (?mode r) x" for x
    by (simp add: same_mode_def take_source_def)
  ultimately show ?thesis
    unfolding step using fresh by (auto simp: needs_pack_def c)
qed

end
