(* ===== verification/Git_Status.thy ===== *)
theory Git_Status
  imports Git_Wire
begin

text \<open>
  \<open>internal/gitwire/status.go\<close>: the observer that reads the upstream's report on a push while the
  response is forwarded. It is bounded, indifferent to how the response is cut into writes, and
  reports a result only when the report names every requested ref exactly once; its per-ref outcomes
  then cover exactly the requested refs and agree with the aggregate result.
\<close>

record StatusObserver =
  so_refs :: "string set"
  so_sideband :: bool
  so_data :: string
  so_invalid :: bool
  so_outcomes :: "(string \<rightharpoonup> string) option"

definition ObserveStatus :: "wire_Request \<Rightarrow> StatusObserver" where
  "ObserveStatus r =
     \<lparr>so_refs = set (map ra_Ref (wr_actions r)), so_sideband = wr_sideband r, so_data = [],
      so_invalid = (wr_operation r \<noteq> ''push'' \<or> \<not> wr_reportStatus r), so_outcomes = None\<rparr>"

definition so_Write :: "StatusObserver \<Rightarrow> string \<Rightarrow> nat \<times> StatusObserver" where
  "so_Write ob p =
     (length p,
      if \<not> so_invalid ob then
        (if length p > ControlBytes - length (so_data ob) then ob\<lparr>so_invalid := True, so_data := []\<rparr>
         else ob\<lparr>so_data := so_data ob @ p\<rparr>)
      else ob)"

function statusPackets :: "string \<Rightarrow> string list option" where
  "statusPackets data =
     (if length data < 4 then None
      else
        let header = take 4 data in
        if Trim header hex_digits \<noteq> [] then None
        else
          (case ParseUint 16 16 header of
             None \<Rightarrow> None
           | Some n \<Rightarrow>
               if n = 0 then (if length data = 4 then Some [] else None)
               else if n < 5 \<or> n > 65520 \<or> n > length data then None
               else map_option ((#) (drop 4 (take n data))) (statusPackets (drop n data))))"
  by pat_completeness auto
termination
  by (relation "measure length") auto

declare statusPackets.simps [simp del]

definition trim_newline :: "string \<Rightarrow> string" where
  "trim_newline p = TrimSuffix p [CHR 0x0A]"

text \<open>The inner stream of a side-band response: channel 1 concatenated, channel 2 discarded.\<close>

fun sideband_data :: "string list \<Rightarrow> string option" where
  "sideband_data [] = Some []"
| "sideband_data (p # ps) =
     (case p of
        [] \<Rightarrow> None
      | c # cs \<Rightarrow>
          if c = CHR 0x01 then map_option ((@) cs) (sideband_data ps)
          else if c = CHR 0x02 then sideband_data ps
          else None)"

text \<open>One report line: the ref and \<open>ok\<close> or \<open>ng\<close>.\<close>

definition status_line :: "string \<Rightarrow> (string \<times> string) option" where
  "status_line p =
     (case Cut CHR '' '' (trim_newline p) of
        (kind, rest, found) \<Rightarrow>
          if \<not> found then None
          else if kind = ''ok'' then Some (rest, kind)
          else if kind = ''ng'' then
            (case Cut CHR '' '' rest of
               (ref, reason, found) \<Rightarrow> if \<not> found \<or> reason = [] then None else Some (ref, kind))
          else None)"

fun status_lines ::
  "string set \<Rightarrow> string set \<Rightarrow> (string \<rightharpoonup> string) \<Rightarrow> nat \<Rightarrow> string list \<Rightarrow> ((string \<rightharpoonup> string) \<times> nat) option" where
  "status_lines refs seen outcomes passed [] = Some (outcomes, passed)"
| "status_lines refs seen outcomes passed (p # ps) =
     (case status_line p of
        None \<Rightarrow> None
      | Some (ref, kind) \<Rightarrow>
          if ref \<notin> refs \<or> ref \<in> seen then None
          else status_lines refs (insert ref seen) (outcomes(ref \<mapsto> kind))
                 (if kind = ''ok'' then Suc passed else passed) ps)"

definition status_report :: "StatusObserver \<Rightarrow> string \<Rightarrow> (string \<times> (string \<rightharpoonup> string)) option" where
  "status_report ob data =
     (case statusPackets data of
        None \<Rightarrow> None
      | Some packets \<Rightarrow>
          if length packets \<noteq> card (so_refs ob) + 1 then None
          else
            let unpack = trim_newline (hd packets) in
            if \<not> HasPrefix unpack ''unpack '' \<or> length unpack = length ''unpack '' then None
            else
              (case status_lines (so_refs ob) {} Map.empty 0 (tl packets) of
                 None \<Rightarrow> None
               | Some (outcomes, passed) \<Rightarrow>
                   if unpack \<noteq> ''unpack ok'' then
                     (if passed \<noteq> 0 then None else Some (''reported_failure'', outcomes))
                   else
                     Some (if passed = card (so_refs ob) then ''reported_success''
                           else if passed = 0 then ''reported_failure''
                           else ''reported_partial'', outcomes)))"

definition so_Result :: "StatusObserver \<Rightarrow> string \<times> StatusObserver" where
  "so_Result ob =
     (let ob1 = ob\<lparr>so_outcomes := None\<rparr>;
          data = (if so_invalid ob then None
                  else if so_sideband ob then
                    (case statusPackets (so_data ob) of None \<Rightarrow> None | Some ps \<Rightarrow> sideband_data ps)
                  else Some (so_data ob)) in
      case data of
        None \<Rightarrow> (''unknown'', ob1)
      | Some d \<Rightarrow>
          (case status_report ob1 d of
             None \<Rightarrow> (''unknown'', ob1)
           | Some (result, outcomes) \<Rightarrow> (result, ob1\<lparr>so_outcomes := Some outcomes\<rparr>)))"

fun lookup_all :: "(string \<rightharpoonup> string) \<Rightarrow> string list \<Rightarrow> string list option" where
  "lookup_all m [] = Some []"
| "lookup_all m (ref # refs) =
     (case m ref of
        None \<Rightarrow> None
      | Some result \<Rightarrow> (case lookup_all m refs of None \<Rightarrow> None | Some out \<Rightarrow> Some (result # out)))"

definition RefOutcomes :: "StatusObserver \<Rightarrow> string list \<Rightarrow> string list option" where
  "RefOutcomes ob refs =
     (case so_outcomes ob of
        None \<Rightarrow> None
      | Some m \<Rightarrow> if length refs = 0 then None else lookup_all m refs)"

subsection \<open>Writes\<close>

lemma so_Write_append:
  "snd (so_Write (snd (so_Write ob p)) q) = snd (so_Write ob (p @ q))"
  by (auto simp: so_Write_def)

lemma so_Write_bound:
  "length (so_data ob) \<le> ControlBytes \<Longrightarrow> length (so_data (snd (so_Write ob p))) \<le> ControlBytes"
  by (auto simp: so_Write_def)

lemma so_Write_fields [simp]:
  "so_refs (snd (so_Write ob p)) = so_refs ob" "so_sideband (snd (so_Write ob p)) = so_sideband ob"
  by (auto simp: so_Write_def)

lemma so_Write_chunks:
  "fold (\<lambda>p ob. snd (so_Write ob p)) ps (snd (so_Write ob q)) = snd (so_Write ob (q @ concat ps))"
  by (induction ps arbitrary: q) (simp_all add: so_Write_append)

subsection \<open>What a report says\<close>

lemma status_lines_spec:
  assumes "status_lines refs seen m k ps = Some (m', k')"
  shows "\<exists>xs. map status_line ps = map Some xs \<and> distinct (map fst xs) \<and> set (map fst xs) \<subseteq> refs - seen \<and>
     m' = m ++ map_of xs \<and> k' = k + length (filter (\<lambda>x. snd x = ''ok'') xs)"
  using assms
proof (induction ps arbitrary: seen m k)
  case Nil
  then show ?case by simp
next
  case (Cons p ps)
  then obtain ref kind where p: "status_line p = Some (ref, kind)" "ref \<in> refs" "ref \<notin> seen"
      and rec: "status_lines refs (insert ref seen) (m(ref \<mapsto> kind)) (if kind = ''ok'' then Suc k else k) ps = Some (m', k')"
    by (auto split: option.splits if_splits)
  from Cons.IH [OF rec] obtain xs where xs: "map status_line ps = map Some xs" "distinct (map fst xs)"
      "set (map fst xs) \<subseteq> refs - insert ref seen" "m' = m(ref \<mapsto> kind) ++ map_of xs"
      "k' = (if kind = ''ok'' then Suc k else k) + length (filter (\<lambda>x. snd x = ''ok'') xs)"
    by blast
  have "ref \<notin> dom (map_of xs)"
    using xs(3) by (auto simp: dom_map_of_conv_image_fst)
  then have "m' = m ++ map_of ((ref, kind) # xs)"
    using xs(4) by (auto simp: fun_eq_iff map_add_def split: option.splits)
  with p xs(1-3,5) show ?case
    by (intro exI [of _ "(ref, kind) # xs"]) (auto simp del: map_of.simps)
qed

lemma status_line_kind: "status_line p = Some (ref, kind) \<Longrightarrow> kind = ''ok'' \<or> kind = ''ng''"
  by (auto simp: status_line_def split: if_splits prod.splits)

lemma length_filter_all: "length (filter P xs) = length xs \<longleftrightarrow> (\<forall>x \<in> set xs. P x)"
proof (induction xs)
  case (Cons x xs)
  have "length (filter P xs) \<noteq> Suc (length xs)"
    using length_filter_le [of P xs] by linarith
  with Cons show ?case by simp
qed simp

lemma status_lines_all:
  assumes "status_lines refs {} Map.empty 0 ps = Some (m, passed)" and "finite refs" and "length ps = card refs"
  shows "dom m = refs" and "ran m \<subseteq> {''ok'', ''ng''}" and "passed \<le> card refs"
    and "''ok'' \<in> ran m \<longleftrightarrow> passed \<noteq> 0" and "''ng'' \<in> ran m \<longleftrightarrow> passed \<noteq> card refs"
proof -
  from status_lines_spec [OF assms(1)] obtain xs where xs: "map status_line ps = map Some xs"
      "distinct (map fst xs)" "set (map fst xs) \<subseteq> refs" "m = map_of xs"
      "passed = length (filter (\<lambda>x. snd x = ''ok'') xs)"
    by auto
  have len: "length xs = card refs"
    using arg_cong [OF xs(1), of length] assms(3) by simp
  have "set (map fst xs) = refs"
    using assms(2) xs(2,3) len by (intro card_subset_eq) (metis distinct_card length_map)+
  then show "dom m = refs"
    by (simp add: xs(4) dom_map_of_conv_image_fst)
  have ran: "ran m = snd ` set xs"
    using xs(2,4) by (simp add: ran_distinct)
  have kind_iff: "k \<in> snd ` set xs \<longleftrightarrow> (\<exists>x \<in> set xs. snd x = k)" for k
    by blast
  have kinds: "snd x = ''ok'' \<or> snd x = ''ng''" if "x \<in> set xs" for x
  proof -
    from that have "Some x \<in> set (map status_line ps)"
      unfolding xs(1) by simp
    then obtain p where "status_line p = Some x"
      by auto
    then show ?thesis
      using status_line_kind [of p "fst x" "snd x"] by simp
  qed
  then show "ran m \<subseteq> {''ok'', ''ng''}"
    unfolding ran by blast
  show "passed \<le> card refs"
    unfolding xs(5) len [symmetric] by simp
  have "passed \<noteq> 0 \<longleftrightarrow> (\<exists>x \<in> set xs. snd x = ''ok'')"
    unfolding xs(5) by (auto simp: filter_empty_conv)
  then show "''ok'' \<in> ran m \<longleftrightarrow> passed \<noteq> 0"
    unfolding ran kind_iff by blast
  have "passed = card refs \<longleftrightarrow> (\<forall>x \<in> set xs. snd x = ''ok'')"
    unfolding xs(5) len [symmetric] length_filter_all ..
  then show "''ng'' \<in> ran m \<longleftrightarrow> passed \<noteq> card refs"
    unfolding ran kind_iff using kinds by force
qed

lemma status_report_spec:
  assumes "status_report ob d = Some (result, m)" and "finite (so_refs ob)" and "so_refs ob \<noteq> {}"
  shows "dom m = so_refs ob \<and> ran m \<subseteq> {''ok'', ''ng''} \<and>
    (result, ran m) \<in> {(''reported_success'', {''ok''}), (''reported_failure'', {''ng''}), (''reported_partial'', {''ok'', ''ng''})}"
proof -
  from assms(1) obtain ps passed where lines: "status_lines (so_refs ob) {} Map.empty 0 ps = Some (m, passed)"
      and len: "length ps = card (so_refs ob)"
      and result: "result = (if passed = card (so_refs ob) then ''reported_success''
          else if passed = 0 then ''reported_failure'' else ''reported_partial'') \<or>
        passed = 0 \<and> result = ''reported_failure''"
    unfolding status_report_def
    by (auto simp: Let_def split: option.splits if_splits)
  note l = status_lines_all [OF lines assms(2) len]
  have "card (so_refs ob) \<noteq> 0"
    using assms(2,3) by simp
  then consider "passed = card (so_refs ob)" "passed \<noteq> 0" | "passed = 0" "passed \<noteq> card (so_refs ob)"
    | "passed \<noteq> 0" "passed \<noteq> card (so_refs ob)"
    by fastforce
  then show ?thesis
  proof cases
    case 1
    then have "ran m = {''ok''}" "result = ''reported_success''"
      using l(2,4,5) result by (blast, simp)
    with l(1) show ?thesis by simp
  next
    case 2
    then have "ran m = {''ng''}" "result = ''reported_failure''"
      using l(2,4,5) result by (blast, simp)
    with l(1) show ?thesis by simp
  next
    case 3
    then have "ran m = {''ok'', ''ng''}" "result = ''reported_partial''"
      using l(2,4,5) result by (blast, simp)
    with l(1) show ?thesis by simp
  qed
qed

subsection \<open>Well-formed reports are read\<close>

text \<open>
  What an upstream writes: a line with the result of unpacking and one line per ref, each with or without a line feed at its end, and
  with any reason for a refused ref. With side-band the report is cut into packets of channel 1, with progress packets of channel 2
  in between.
\<close>

record report_line =
  rl_ref :: string
  rl_reason :: "string option"
  rl_newline :: bool

definition line_end :: "bool \<Rightarrow> string" where
  "line_end newline = (if newline then [CHR 0x0A] else [])"

definition outcome_line :: "report_line \<Rightarrow> string" where
  "outcome_line l =
     (case rl_reason l of None \<Rightarrow> ''ok '' @ rl_ref l | Some reason \<Rightarrow> ''ng '' @ rl_ref l @ '' '' @ reason) @ line_end (rl_newline l)"

text \<open>A message that may end a line: not empty, and with no line feed of its own at the end of an unterminated line.\<close>

definition message_ok :: "string \<Rightarrow> bool \<Rightarrow> bool" where
  "message_ok message newline \<longleftrightarrow> message \<noteq> [] \<and> (newline \<or> last message \<noteq> CHR 0x0A)"

definition report_line_ok :: "report_line \<Rightarrow> bool" where
  "report_line_ok l \<longleftrightarrow>
     (case rl_reason l of None \<Rightarrow> True | Some reason \<Rightarrow> message_ok reason (rl_newline l)) \<and> length (outcome_line l) \<le> 65516"

definition unpack_line :: "string \<Rightarrow> bool \<Rightarrow> string" where
  "unpack_line message newline = ''unpack '' @ message @ line_end newline"

definition status_body :: "string \<Rightarrow> bool \<Rightarrow> report_line list \<Rightarrow> string" where
  "status_body message newline ls = concat (map pkt_line (unpack_line message newline # map outcome_line ls)) @ ''0000''"

definition sideband_frame :: "bool \<times> string \<Rightarrow> string" where
  "sideband_frame frame = (if fst frame then CHR 0x01 else CHR 0x02) # snd frame"

definition sideband_body :: "(bool \<times> string) list \<Rightarrow> string" where
  "sideband_body frames = concat (map (pkt_line \<circ> sideband_frame) frames) @ ''0000''"

definition response_body :: "bool \<Rightarrow> (bool \<times> string) list \<Rightarrow> string \<Rightarrow> string" where
  "response_body sideband frames report = (if sideband then sideband_body frames else report)"

text \<open>The data packets hold the report, cut anywhere.\<close>

definition frames_carry :: "(bool \<times> string) list \<Rightarrow> string \<Rightarrow> bool" where
  "frames_carry frames report \<longleftrightarrow>
     (\<forall>frame \<in> set frames. length (snd frame) \<le> 65515) \<and> concat (map snd (filter fst frames)) = report"

definition outcome_kind :: "report_line \<Rightarrow> string" where
  "outcome_kind l = (if rl_reason l = None then ''ok'' else ''ng'')"

definition accepted_line :: "report_line \<Rightarrow> bool" where
  "accepted_line l \<longleftrightarrow> rl_reason l = None"

text \<open>The verdict such a report calls for; a failed unpacking together with an accepted ref is a contradiction.\<close>

definition report_verdict :: "string \<Rightarrow> report_line list \<Rightarrow> string" where
  "report_verdict message ls =
     (if message \<noteq> ''ok'' then (if list_ex accepted_line ls then ''unknown'' else ''reported_failure'')
      else if list_all accepted_line ls then ''reported_success''
      else if list_ex accepted_line ls then ''reported_partial''
      else ''reported_failure'')"

lemma statusPackets_line:
  assumes "s \<noteq> []" and "length s \<le> 65516"
  shows "statusPackets (pkt_line s @ rest) = map_option ((#) s) (statusPackets rest)"
proof -
  let ?n = "length s + 4"
  have n: "?n < 65536" "?n \<noteq> 0" "\<not> ?n < 5" "\<not> ?n > 65520"
    using assms by (simp_all add: Suc_le_eq)
  note h = hex4_digits_parse [OF n(1)]
  have d: "take 4 (pkt_line s @ rest) = hex4_digits ?n" "\<not> length (pkt_line s @ rest) < 4"
      "drop 4 (take ?n (pkt_line s @ rest)) = s" "drop ?n (pkt_line s @ rest) = rest" "\<not> ?n > length (pkt_line s @ rest)"
    using h(3) by (simp_all add: pkt_line_def)
  show ?thesis
    by (subst statusPackets.simps) (simp only: Let_def d h n if_False option.case simp_thms)
qed

lemma statusPackets_flush: "statusPackets ''0000'' = Some []"
proof -
  have "hex4_digits 0 = ''0000''"
    by (simp add: hex4_digits_def lower_hex_def hex_digits_def)
  with hex4_digits_parse [of 0] have "ParseUint 16 16 ''0000'' = Some 0" "Trim ''0000'' hex_digits = []"
    by simp_all
  then show ?thesis
    by (subst statusPackets.simps) (simp add: Let_def)
qed

lemma statusPackets_lines:
  "\<forall>s \<in> set ss. s \<noteq> [] \<and> length s \<le> 65516 \<Longrightarrow> statusPackets (concat (map pkt_line ss) @ ''0000'') = Some ss"
  by (induction ss) (simp_all add: statusPackets_flush statusPackets_line)

lemma sideband_data_frames: "sideband_data (map sideband_frame frames) = Some (concat (map snd (filter fst frames)))"
  by (induction frames) (auto simp: sideband_frame_def)

lemma sideband_body_read:
  assumes "frames_carry frames report"
  shows "(case statusPackets (sideband_body frames) of None \<Rightarrow> None | Some ps \<Rightarrow> sideband_data ps) = Some report"
proof -
  have "statusPackets (concat (map pkt_line (map sideband_frame frames)) @ ''0000'') = Some (map sideband_frame frames)"
    using assms by (intro statusPackets_lines) (auto simp: frames_carry_def sideband_frame_def)
  then have "statusPackets (sideband_body frames) = Some (map sideband_frame frames)"
    by (simp add: sideband_body_def)
  with assms show ?thesis
    by (simp add: sideband_data_frames frames_carry_def)
qed

lemma trim_newline_end:
  assumes "newline \<or> s = [] \<or> last s \<noteq> CHR 0x0A"
  shows "trim_newline (s @ line_end newline) = s"
proof (cases newline)
  case True
  then show ?thesis by (simp add: trim_newline_def TrimSuffix_def HasSuffix_iff line_end_def)
next
  case False
  with assms have "\<not> HasSuffix s [CHR 0x0A]"
    by (auto simp: HasSuffix_iff)
  with False show ?thesis by (simp add: trim_newline_def TrimSuffix_def line_end_def)
qed

lemma ref_no_newline: "ValidRef v \<Longrightarrow> CHR 0x0A \<notin> set v"
proof -
  assume "ValidRef v"
  then have "list_all git_ref_byte v"
    by (simp add: ValidRef_def ValidGitRefName_def)
  moreover have "\<not> git_ref_byte CHR 0x0A"
    by (simp add: git_ref_byte_def)
  ultimately show ?thesis
    unfolding list_all_iff by blast
qed

lemma outcome_line_trim:
  assumes "ValidRef (rl_ref l)" and "report_line_ok l"
  shows "trim_newline (outcome_line l) =
    (case rl_reason l of None \<Rightarrow> ''ok '' @ rl_ref l | Some reason \<Rightarrow> ''ng '' @ rl_ref l @ '' '' @ reason)"
proof (cases "rl_reason l")
  case None
  have "CHR 0x0A \<notin> set (''ok '' @ rl_ref l)"
    using ref_no_newline [OF assms(1)] by simp
  then have "last (''ok '' @ rl_ref l) \<noteq> CHR 0x0A"
    using last_in_set [of "''ok '' @ rl_ref l"] by auto
  with None show ?thesis
    unfolding outcome_line_def by (simp only: option.case) (rule trim_newline_end, blast)
next
  case (Some reason)
  with assms(2) have "rl_newline l \<or> last (''ng '' @ rl_ref l @ '' '' @ reason) \<noteq> CHR 0x0A"
    by (auto simp: report_line_ok_def message_ok_def)
  with Some show ?thesis
    unfolding outcome_line_def by (simp only: option.case) (rule trim_newline_end, blast)
qed

lemma outcome_line_read:
  assumes "ValidRef (rl_ref l)" and "report_line_ok l"
  shows "status_line (outcome_line l) = Some (rl_ref l, outcome_kind l)"
    and "outcome_line l \<noteq> []" and "length (outcome_line l) \<le> 65516"
proof -
  have "CHR '' '' \<notin> set (rl_ref l)"
    using ref_no_space [OF assms(1)] by simp
  then show "status_line (outcome_line l) = Some (rl_ref l, outcome_kind l)"
    unfolding status_line_def outcome_line_trim [OF assms]
    using Cut_append [of "CHR '' ''" "''ok''" "rl_ref l"] Cut_append [of "CHR '' ''" "rl_ref l" "the (rl_reason l)"] assms(2)
    by (cases "rl_reason l") (simp_all add: outcome_kind_def report_line_ok_def message_ok_def)
  show "outcome_line l \<noteq> []" "length (outcome_line l) \<le> 65516"
    using assms(2) by (simp_all add: outcome_line_def report_line_ok_def split: option.splits)
qed

definition line_outcomes :: "report_line list \<Rightarrow> string \<rightharpoonup> string" where
  "line_outcomes ls = map_of (map (\<lambda>l. (rl_ref l, outcome_kind l)) ls)"

lemma status_lines_read:
  assumes "\<forall>l \<in> set ls. ValidRef (rl_ref l) \<and> report_line_ok l" and "distinct (map rl_ref ls)" and "set (map rl_ref ls) \<subseteq> refs - seen"
  shows "status_lines refs seen m k (map outcome_line ls) = Some (m ++ line_outcomes ls, k + length (filter accepted_line ls))"
  using assms
proof (induction ls arbitrary: seen m k)
  case Nil
  then show ?case by (simp add: line_outcomes_def)
next
  case (Cons l ls)
  have l: "status_line (outcome_line l) = Some (rl_ref l, outcome_kind l)"
    using outcome_line_read(1) Cons.prems(1) by simp
  have "rl_ref l \<notin> dom (line_outcomes ls)"
    using Cons.prems(2) by (simp add: line_outcomes_def dom_map_of_conv_image_fst image_image)
  then have m: "m(rl_ref l \<mapsto> outcome_kind l) ++ line_outcomes ls = m ++ line_outcomes (l # ls)"
    by (auto simp: line_outcomes_def fun_eq_iff map_add_def split: option.splits)
  have "set (map rl_ref ls) \<subseteq> refs - insert (rl_ref l) seen"
    using Cons.prems(2,3) unfolding list.map list.set distinct.simps by blast
  then have "status_lines refs (insert (rl_ref l) seen) (m(rl_ref l \<mapsto> outcome_kind l))
      (if outcome_kind l = ''ok'' then Suc k else k) (map outcome_line ls) =
      Some (m ++ line_outcomes (l # ls), (if outcome_kind l = ''ok'' then Suc k else k) + length (filter accepted_line ls))"
    using Cons.prems(1,2) unfolding m [symmetric] by (intro Cons.IH) simp_all
  with l Cons.prems(3) show ?case
    by (cases "rl_reason l") (simp_all add: outcome_kind_def accepted_line_def [of l])
qed

lemma unpack_line_read:
  assumes "message_ok message newline"
  shows "trim_newline (unpack_line message newline) = ''unpack '' @ message"
proof -
  have "newline \<or> last (''unpack '' @ message) \<noteq> CHR 0x0A"
    using assms by (auto simp: message_ok_def)
  then show ?thesis
    using trim_newline_end [of newline "''unpack '' @ message"] by (simp add: unpack_line_def)
qed

lemma status_report_read:
  assumes "\<forall>l \<in> set ls. ValidRef (rl_ref l) \<and> report_line_ok l" and "distinct (map rl_ref ls)" and "set (map rl_ref ls) = so_refs ob"
    and "message_ok message newline" and "length message \<le> 65508"
  shows "status_report ob (status_body message newline ls) =
    (if report_verdict message ls = ''unknown'' then None else Some (report_verdict message ls, line_outcomes ls))"
proof -
  have packets: "statusPackets (status_body message newline ls) = Some (unpack_line message newline # map outcome_line ls)"
    unfolding status_body_def using assms(1,5) outcome_line_read(2,3)
    by (intro statusPackets_lines) (auto simp: unpack_line_def line_end_def)
  have card: "card (so_refs ob) = length ls"
    using assms(2,3) by (metis distinct_card length_map)
  have lines: "status_lines (so_refs ob) {} Map.empty 0 (map outcome_line ls) =
      Some (line_outcomes ls, length (filter accepted_line ls))"
    using status_lines_read [OF assms(1,2), of "so_refs ob" "{}" Map.empty 0] assms(3) by simp
  have counts: "length (filter accepted_line ls) = length ls \<longleftrightarrow> list_all accepted_line ls"
      "length (filter accepted_line ls) = 0 \<longleftrightarrow> \<not> list_ex accepted_line ls"
    unfolding length_filter_all by (auto simp: list_all_iff list_ex_iff filter_empty_conv)
  have unpack: "HasPrefix (''unpack '' @ message) ''unpack ''" "length (''unpack '' @ message) \<noteq> length ''unpack ''"
      "''unpack '' @ message = ''unpack ok'' \<longleftrightarrow> message = ''ok''"
    using assms(4) by (auto simp: HasPrefix_iff message_ok_def)
  show ?thesis
    unfolding status_report_def packets Let_def
    using lines counts unpack by (simp add: card unpack_line_read [OF assms(4)] report_verdict_def)
qed

lemma so_Result_read:
  assumes "\<not> so_invalid ob" and "so_data ob = response_body (so_sideband ob) frames (status_body message newline ls)"
    and "so_sideband ob \<Longrightarrow> frames_carry frames (status_body message newline ls)"
    and "\<forall>l \<in> set ls. ValidRef (rl_ref l) \<and> report_line_ok l" and "distinct (map rl_ref ls)" and "set (map rl_ref ls) = so_refs ob"
    and "message_ok message newline" and "length message \<le> 65508"
  shows "so_Result ob = (report_verdict message ls,
     ob\<lparr>so_outcomes := if report_verdict message ls = ''unknown'' then None else Some (line_outcomes ls)\<rparr>)"
proof -
  have "(if so_invalid ob then None
      else if so_sideband ob then (case statusPackets (so_data ob) of None \<Rightarrow> None | Some ps \<Rightarrow> sideband_data ps)
      else Some (so_data ob)) = Some (status_body message newline ls)"
    using assms(1-3) sideband_body_read [of frames] by (simp add: response_body_def)
  moreover have "status_report (ob\<lparr>so_outcomes := None\<rparr>) (status_body message newline ls) =
    (if report_verdict message ls = ''unknown'' then None else Some (report_verdict message ls, line_outcomes ls))"
    using assms(4-) by (intro status_report_read) simp_all
  ultimately show ?thesis
    unfolding so_Result_def Let_def by (simp only: option.case) simp
qed

end
