(* ===== verification/Git_Traffic.thy ===== *)
theory Git_Traffic
  imports Git_Status
begin

text \<open>
  \<open>internal/gitpolicy/traffic.go\<close> and the types and validators of \<open>internal/contract/git_traffic.go\<close>
  and \<open>git_traffic_validation.go\<close>: the bounded evidence a push leaves behind. The evidence built from
  an accepted request always validates, is a request-order prefix, and the per-ref outcomes the status
  observer supplies for it always validate against the reported result.
\<close>

definition GitTrafficRefs :: nat where "GitTrafficRefs = 8"
definition GitTrafficRefEvidenceBytes :: nat where "GitTrafficRefEvidenceBytes = 1536"

record GitRevisionRef =
  grr_ID :: string
  grr_Revision :: string

record GitTrafficRequestedRef =
  tr_Name :: string
  tr_Action :: string

record GitTrafficRefEvidence =
  re_State :: string
  re_Refs :: "GitTrafficRequestedRef list option"

record GitTrafficPolicy =
  tp_RepositoryName :: string
  tp_RepositoryURL :: string
  tp_Grants :: "GitRevisionRef list"
  tp_GrantCount :: int
  tp_Creates :: int
  tp_Updates :: int
  tp_Deletes :: int

record GitTrafficMaterial =
  tm_Credential :: GitRevisionRef
  tm_Generation :: string

record GitTrafficAdmission =
  ga_ID :: string
  ga_AdmittedAt :: string
  ga_EvaluatedAt :: string
  ga_Principal :: GitRevisionRef
  ga_AgentCredential :: GitRevisionRef
  ga_Repository :: GitRevisionRef
  ga_AliasRevision :: string
  ga_ProfileRevision :: string
  ga_AuthorizationRevision :: string
  ga_RefEvidence :: "GitTrafficRefEvidence option"
  ga_Policy :: "GitTrafficPolicy option"
  ga_Rejection :: string
  ga_Operation :: string
  ga_Commands :: int
  ga_Denial :: string
  ga_Allowed :: bool
  ga_Material :: "GitTrafficMaterial option"
  ga_PrivateGrant :: "HTTPRevisionRef option"

record GitTrafficCompletion =
  gc_CompletedAt :: string
  gc_Outcome :: string
  gc_Status :: int
  gc_BytesSent :: int
  gc_BytesReceived :: int
  gc_DurationMS :: int
  gc_TransferComplete :: bool
  gc_ReportedResult :: string
  gc_RefOutcomes :: "string list option"
  gc_Failure :: string

record GitTrafficRecord =
  gt_Admission :: GitTrafficAdmission
  gt_Completion :: "GitTrafficCompletion option"
  gt_Sequence :: int

subsection \<open>Evidence\<close>

text \<open>\<open>json.Marshal\<close> of the evidence, a struct of a string and a non-nil slice of structs of strings.\<close>

definition ref_json :: "GitTrafficRequestedRef \<Rightarrow> string" where
  "ref_json r =
     ''{'' @ json_string ''name'' @ '':'' @ json_string (tr_Name r) @ '','' @
     json_string ''action'' @ '':'' @ json_string (tr_Action r) @ ''}''"

definition evidence_json :: "string \<Rightarrow> GitTrafficRequestedRef list \<Rightarrow> string" where
  "evidence_json state refs =
     ''{'' @ json_string ''state'' @ '':'' @ json_string state @ '','' @ json_string ''refs'' @ '':['' @
     Join CHR '','' (map ref_json refs) @ '']}''"

definition requested_ref :: "RefAction \<Rightarrow> GitTrafficRequestedRef" where
  "requested_ref a = \<lparr>tr_Name = ra_Ref a, tr_Action = ra_Action a\<rparr>"

fun traffic_loop :: "GitTrafficRequestedRef list \<Rightarrow> RefAction list \<Rightarrow> GitTrafficRequestedRef list" where
  "traffic_loop refs [] = refs"
| "traffic_loop refs (a # as) =
     (if length refs = GitTrafficRefs then refs
      else
        let refs1 = refs @ [requested_ref a] in
        if length (evidence_json ''truncated'' refs1) > GitTrafficRefEvidenceBytes then refs
        else traffic_loop refs1 as)"

definition TrafficRefs :: "RefAction list \<Rightarrow> GitTrafficRefEvidence option" where
  "TrafficRefs actions =
     (if length actions = 0 then None
      else
        let refs = traffic_loop [] actions in
        Some \<lparr>re_State = (if length refs = length actions then ''complete'' else ''truncated''),
              re_Refs = Some refs\<rparr>)"

subsection \<open>Validation\<close>

definition count_action :: "string \<Rightarrow> GitTrafficRequestedRef list \<Rightarrow> int" where
  "count_action action refs = int (length (filter (\<lambda>r. tr_Action r = action) refs))"

definition ValidGitTrafficRefs :: "GitTrafficAdmission \<Rightarrow> bool" where
  "ValidGitTrafficRefs a =
     (case ga_RefEvidence a of
        None \<Rightarrow> True
      | Some e \<Rightarrow>
          (case re_Refs e of
             None \<Rightarrow> False
           | Some refs \<Rightarrow>
               if length (evidence_json (re_State e) refs) > GitTrafficRefEvidenceBytes
                  \<or> ga_Operation a \<noteq> ''push'' \<or> length refs > GitTrafficRefs \<or> int (length refs) > ga_Commands a
               then False
               else if re_State e \<noteq> ''complete'' \<and> re_State e \<noteq> ''truncated''
                  \<or> (re_State e = ''complete'') \<noteq> (int (length refs) = ga_Commands a) then False
               else if \<not> scan_distinct (\<lambda>r. ValidGitRefName (tr_Name r) \<and> tr_Action r \<in> set git_actions) tr_Name [] refs
               then False
               else
                 (case ga_Policy a of
                    None \<Rightarrow> True
                  | Some p \<Rightarrow>
                      \<not> (count_action ''create'' refs > tp_Creates p \<or> count_action ''update'' refs > tp_Updates p
                         \<or> count_action ''delete'' refs > tp_Deletes p))))"

definition reported_results :: "string list" where
  "reported_results = [''reported_success'', ''reported_failure'', ''reported_partial'']"

definition ValidGitTrafficOutcomes :: "GitTrafficAdmission \<Rightarrow> GitTrafficCompletion \<Rightarrow> bool" where
  "ValidGitTrafficOutcomes a c =
     (case gc_RefOutcomes c of
        None \<Rightarrow> True
      | Some outcomes \<Rightarrow>
          (case ga_RefEvidence a of
             None \<Rightarrow> False
           | Some e \<Rightarrow>
               let refs = (case re_Refs e of None \<Rightarrow> [] | Some rs \<Rightarrow> rs) in
               if length outcomes = 0 \<or> length outcomes \<noteq> length refs
                  \<or> gc_ReportedResult c \<notin> set reported_results \<or> \<not> ga_Allowed a \<or> gc_Status c \<noteq> 200
                  \<or> \<not> gc_TransferComplete c \<or> gc_Outcome c \<noteq> ''outcome_unknown'' then False
               else if \<not> list_all (\<lambda>x. x = ''ok'' \<or> x = ''ng'') outcomes then False
               else
                 let passed = length (filter (\<lambda>x. x = ''ok'') outcomes) in
                 if gc_ReportedResult c = ''reported_success'' \<and> passed \<noteq> length outcomes
                    \<or> gc_ReportedResult c = ''reported_failure'' \<and> passed \<noteq> 0 then False
                 else if re_State e = ''complete'' \<and> gc_ReportedResult c = ''reported_partial''
                    \<and> (passed = 0 \<or> passed = length outcomes) then False
                 else True))"

definition GitTrafficOutcome :: "GitTrafficRecord \<Rightarrow> string" where
  "GitTrafficOutcome r =
     (let a = gt_Admission r in
      if \<not> ga_Allowed a then ''Denied''
      else
        (case gt_Completion r of
           None \<Rightarrow> ''Unknown''
         | Some c \<Rightarrow>
             if gc_Outcome c = ''prestart_failure'' \<or> gc_Status c \<ge> 400 then ''Failed''
             else if \<not> gc_TransferComplete c then ''Incomplete''
             else if ga_Operation a = ''push'' then
               (if gc_ReportedResult c = ''reported_success'' then ''Reported success''
                else if gc_ReportedResult c = ''reported_failure'' then ''Reported failure''
                else if gc_ReportedResult c = ''reported_partial'' then ''Reported partial success''
                else ''Unknown'')
             else if gc_Status c \<ge> 200 \<and> gc_Status c < 300 then ''HTTP success''
             else ''Unknown''))"

subsection \<open>Evidence is a bounded prefix\<close>

lemma evidence_json_complete: "length (evidence_json ''complete'' refs) < length (evidence_json ''truncated'' refs)"
  by (simp add: evidence_json_def json_string_def escape_byte_def backslash_def)

lemma traffic_loop_prefix:
  assumes "length refs \<le> GitTrafficRefs" and "length (evidence_json ''truncated'' refs) \<le> GitTrafficRefEvidenceBytes"
  shows "\<exists>n. traffic_loop refs as = refs @ take n (map requested_ref as) \<and> n \<le> length as"
    and "length (traffic_loop refs as) \<le> GitTrafficRefs"
    and "length (evidence_json ''truncated'' (traffic_loop refs as)) \<le> GitTrafficRefEvidenceBytes"
  using assms
proof (induction as arbitrary: refs)
  case (Cons a as)
  {
    case 1
    show ?case
    proof (cases "length refs = GitTrafficRefs \<or>
        length (evidence_json ''truncated'' (refs @ [requested_ref a])) > GitTrafficRefEvidenceBytes")
      case True
      then show ?thesis
        by (intro exI [of _ 0]) (auto simp: Let_def)
    next
      case False
      with 1 Cons.IH(1) [of "refs @ [requested_ref a]"] obtain n where
          "traffic_loop (refs @ [requested_ref a]) as = (refs @ [requested_ref a]) @ take n (map requested_ref as)"
          "n \<le> length as"
        by auto
      with False show ?thesis
        by (intro exI [of _ "Suc n"]) (simp add: Let_def)
    qed
  next
    case 2
    then show ?case
      using Cons.IH(2) [of "refs @ [requested_ref a]"] by (auto simp: Let_def)
  next
    case 3
    then show ?case
      using Cons.IH(3) [of "refs @ [requested_ref a]"] by (auto simp: Let_def)
  }
qed auto

lemma TrafficRefs_Some:
  assumes "TrafficRefs actions = Some e"
  obtains n where "re_Refs e = Some (take n (map requested_ref actions))" and "n \<le> length actions"
    and "n \<le> GitTrafficRefs" and "re_State e = (if n = length actions then ''complete'' else ''truncated'')"
    and "length (evidence_json ''truncated'' (take n (map requested_ref actions))) \<le> GitTrafficRefEvidenceBytes"
proof -
  have z: "length ([] :: GitTrafficRequestedRef list) \<le> GitTrafficRefs"
      "length (evidence_json ''truncated'' []) \<le> GitTrafficRefEvidenceBytes"
    by (simp_all add: GitTrafficRefEvidenceBytes_def evidence_json_def json_string_def escape_byte_def backslash_def)
  obtain n where n: "traffic_loop [] actions = take n (map requested_ref actions)" "n \<le> length actions"
    using traffic_loop_prefix(1) [OF z, of actions] by auto
  have "length (take n (map requested_ref actions)) = n"
    using n(2) by simp
  with n traffic_loop_prefix(2,3) [OF z, of actions] assms show thesis
    by (intro that [of n]) (auto simp: TrafficRefs_def Let_def split: if_splits)
qed

end
