(* ===== verification/Git_Admission.thy ===== *)
theory Git_Admission
  imports Git_Traffic Http_Evaluate Contract_Vocabulary
begin

text \<open>
  The path of one Git request through the gateway: \<open>gitwire.New\<close> (everything after routing), the
  decision of \<open>EvaluateGitAdmission\<close> in \<open>internal/authorization/git_admission.go\<close> on what its
  transaction read, and the exchange of \<open>internal/httpproxy/git.go\<close> with its deferred settlement.
  The transaction's answers (binding, repository, grants, credential material) and the network's
  answers are records of inputs; the transaction's own re-reading of the repository and the profile,
  which compares revisions and re-routes the URL, comes before the modelled part.

  The three parts together keep the evidence consistent: what the admission records about the refs of
  an accepted push always validates, and so does every completion the proxy writes for it, whatever
  the upstream answers and however it cuts its answer.
\<close>

subsection \<open>Opening a request\<close>

type_synonym http_header = "string \<Rightarrow> string list"

definition header_Get :: "http_header \<Rightarrow> string \<Rightarrow> string" where
  "header_Get header name = (case header name of [] \<Rightarrow> [] | v # _ \<Rightarrow> v)"

definition git_protocols :: "string list" where
  "git_protocols = [[], ''version=0'', ''version=1'', ''version=2'']"

definition request_header_ok :: "http_header \<Rightarrow> string \<Rightarrow> bool" where
  "request_header_ok header operation =
     (if length (header ''Content-Encoding'') \<noteq> 0 \<or> length (header ''Content-Type'') > 1
         \<or> length (header ''Git-Protocol'') > 1 then False
      else if header_Get header ''Git-Protocol'' \<notin> set git_protocols then False
      else
        let contentType = header_Get header ''Content-Type'' in
        \<not> (operation = ''push'' \<and> contentType \<noteq> ''application/x-git-receive-pack-request''
           \<or> operation = ''read'' \<and> contentType \<noteq> ''application/x-git-upload-pack-request''
           \<or> HasSuffix operation ''discovery'' \<and> contentType \<noteq> []))"

text \<open>\<open>gitwire.New\<close> once the coordinates have been routed to an operation of this repository.\<close>

definition open_request ::
  "(nat \<Rightarrow> bool) \<Rightarrow> http_header \<Rightarrow> string \<Rightarrow> body_source \<Rightarrow> wire_error + wire_Request" where
  "open_request live header operation body =
     (if \<not> request_header_ok header operation then Inl ErrUnsupported
      else
        let request = \<lparr>wr_operation = operation, wr_reportStatus = False, wr_sideband = False,
                       wr_actions = [], wr_prefix = [], wr_source = body, wr_used = False\<rparr> in
        if HasSuffix operation ''discovery'' then
          (if exactEnd live 0 body then Inr request else Inl ErrUnsupported)
        else if operation = ''push'' then parse live request
        else Inr request)"

subsection \<open>The decision\<close>

record GitGrant =
  gr_ID :: string
  gr_PrincipalID :: string
  gr_RepositoryID :: string
  gr_Description :: "string option"
  gr_Policy :: GitPolicy
  gr_ExpiresAt :: "string option"
  gr_Revision :: string
  gr_State :: GrantState

datatype material_answer = MaterialRead GitTrafficMaterial | MaterialUnavailable | MaterialFailed

text \<open>What the transaction has read when the decision starts; an evaluator that could not be loaded is
  \<open>None\<close>, on which \<open>GitDestination\<close> fails as the read itself does.\<close>

record git_snapshot =
  gs_id :: string
  gs_admittedAt :: string
  gs_evaluatedAt :: string
  gs_authorization :: string
  gs_principal :: GitRevisionRef
  gs_credential :: GitRevisionRef
  gs_repository :: GitRevisionRef
  gs_name :: string
  gs_url :: string
  gs_alias :: string
  gs_profile :: string
  gs_credentialID :: "string option"
  gs_grants :: "GitGrant list"
  gs_evaluator :: "Evaluator option"
  gs_material :: "string \<Rightarrow> material_answer"

record GitExecution =
  ge_Allowed :: bool
  ge_PrivateNetwork :: bool
  ge_CredentialUnavailable :: bool
  ge_Material :: "GitTrafficMaterial option"

record GitEvaluation =
  ev_Execution :: GitExecution
  ev_Evidence :: GitTrafficAdmission
  ev_Candidate :: bool

datatype git_admission_error = GitInvalidInput | GitReadFailed | GitNetworkInvalid

definition count_requested :: "string \<Rightarrow> RefAction list \<Rightarrow> int" where
  "count_requested action actions = int (length (filter (\<lambda>a. ra_Action a = action) actions))"

definition applicable_grants :: "git_snapshot \<Rightarrow> GitGrant list" where
  "applicable_grants s =
     filter (\<lambda>g. gr_PrincipalID g = grr_ID (gs_principal s) \<and> gr_RepositoryID g = grr_ID (gs_repository s)
                 \<and> gr_State g = GrantActive) (gs_grants s)"

definition policy_facts :: "git_snapshot \<Rightarrow> RefAction list \<Rightarrow> GitTrafficPolicy" where
  "policy_facts s actions =
     \<lparr>tp_RepositoryName = gs_name s, tp_RepositoryURL = gs_url s,
      tp_Grants = map (\<lambda>g. \<lparr>grr_ID = gr_ID g, grr_Revision = gr_Revision g\<rparr>) (take 4 (applicable_grants s)),
      tp_GrantCount = int (length (applicable_grants s)),
      tp_Creates = count_requested ''create'' actions, tp_Updates = count_requested ''update'' actions,
      tp_Deletes = count_requested ''delete'' actions\<rparr>"

definition push_capable_grants :: "git_snapshot \<Rightarrow> bool" where
  "push_capable_grants s \<longleftrightarrow>
     list_ex (\<lambda>g. gp_Read (gr_Policy g) \<and> policy_refs (gr_Policy g) \<noteq> []) (applicable_grants s)"

subsection \<open>The retained admission and its size\<close>

definition field :: "string \<Rightarrow> string \<Rightarrow> string" where
  "field name value = json_string name @ '':'' @ value"

definition object_json :: "string list \<Rightarrow> string" where
  "object_json members = ''{'' @ Join CHR '','' members @ ''}''"

definition optional_field :: "string \<Rightarrow> string option \<Rightarrow> string list" where
  "optional_field name value = (case value of None \<Rightarrow> [] | Some v \<Rightarrow> [field name v])"

definition omit_empty :: "string \<Rightarrow> string option" where
  "omit_empty s = (if s = [] then None else Some (json_string s))"

definition bool_json :: "bool \<Rightarrow> string" where
  "bool_json b = (if b then ''true'' else ''false'')"

definition revision_json :: "GitRevisionRef \<Rightarrow> string" where
  "revision_json r = object_json [field ''id'' (json_string (grr_ID r)), field ''revision'' (json_string (grr_Revision r))]"

definition policy_json :: "GitTrafficPolicy \<Rightarrow> string" where
  "policy_json p =
     object_json
       [field ''repository_name'' (json_string (tp_RepositoryName p)),
        field ''repository_url'' (json_string (tp_RepositoryURL p)),
        field ''grants'' (''['' @ Join CHR '','' (map revision_json (tp_Grants p)) @ '']''),
        field ''grant_count'' (FormatInt (tp_GrantCount p)), field ''creates'' (FormatInt (tp_Creates p)),
        field ''updates'' (FormatInt (tp_Updates p)), field ''deletes'' (FormatInt (tp_Deletes p))]"

definition material_json :: "GitTrafficMaterial \<Rightarrow> string" where
  "material_json m =
     object_json [field ''credential'' (revision_json (tm_Credential m)), field ''generation'' (json_string (tm_Generation m))]"

definition admission_json :: "GitTrafficAdmission \<Rightarrow> string" where
  "admission_json a =
     object_json (concat
       [[field ''id'' (json_string (ga_ID a)), field ''admitted_at'' (json_string (ga_AdmittedAt a)),
         field ''evaluated_at'' (json_string (ga_EvaluatedAt a)), field ''principal'' (revision_json (ga_Principal a)),
         field ''agent_credential'' (revision_json (ga_AgentCredential a)),
         field ''repository'' (revision_json (ga_Repository a)),
         field ''alias_revision'' (json_string (ga_AliasRevision a)),
         field ''profile_revision'' (json_string (ga_ProfileRevision a)),
         field ''authorization_revision'' (json_string (ga_AuthorizationRevision a))],
        optional_field ''ref_evidence''
          (map_option (\<lambda>e. case re_Refs e of
              None \<Rightarrow> object_json [field ''state'' (json_string (re_State e)), field ''refs'' ''null'']
            | Some refs \<Rightarrow> evidence_json (re_State e) refs) (ga_RefEvidence a)),
        optional_field ''policy'' (map_option policy_json (ga_Policy a)),
        optional_field ''rejection'' (omit_empty (ga_Rejection a)),
        [field ''operation'' (json_string (ga_Operation a)), field ''commands'' (FormatInt (ga_Commands a))],
        optional_field ''denial'' (omit_empty (ga_Denial a)),
        [field ''allowed'' (bool_json (ga_Allowed a))],
        optional_field ''material'' (map_option material_json (ga_Material a)),
        optional_field ''private_grant''
          (map_option (\<lambda>r. object_json [field ''id'' (json_string (ref_ID r)),
                                       field ''revision'' (FormatUint (unat (ref_Revision r)))]) (ga_PrivateGrant a))])"

definition GitTrafficAdmissionBytes :: nat where "GitTrafficAdmissionBytes = 8192"

definition evidence_refs :: "GitTrafficAdmission \<Rightarrow> GitTrafficRequestedRef list" where
  "evidence_refs a =
     (case ga_RefEvidence a of None \<Rightarrow> [] | Some e \<Rightarrow> (case re_Refs e of None \<Rightarrow> [] | Some refs \<Rightarrow> refs))"

function trim_evidence :: "GitTrafficAdmission \<Rightarrow> GitTrafficAdmission" where
  "trim_evidence a =
     (if evidence_refs a = [] \<or> length (admission_json a) \<le> GitTrafficAdmissionBytes then a
      else trim_evidence (a\<lparr>ga_RefEvidence := Some \<lparr>re_State = ''truncated'', re_Refs = Some (butlast (evidence_refs a))\<rparr>\<rparr>))"
  by pat_completeness auto
termination
  by (relation "measure (length \<circ> evidence_refs)") (auto simp: evidence_refs_def split: option.splits)

declare trim_evidence.simps [simp del]

definition git_evidence :: "git_snapshot \<Rightarrow> wire_Request \<Rightarrow> bool \<Rightarrow> HTTPRevisionRef option \<Rightarrow> GitTrafficAdmission" where
  "git_evidence s request allowed private_ref =
     \<lparr>ga_ID = gs_id s, ga_AdmittedAt = gs_admittedAt s, ga_EvaluatedAt = gs_evaluatedAt s,
      ga_Principal = gs_principal s, ga_AgentCredential = gs_credential s, ga_Repository = gs_repository s,
      ga_AliasRevision = gs_alias s, ga_ProfileRevision = gs_profile s,
      ga_AuthorizationRevision = gs_authorization s, ga_RefEvidence = TrafficRefs (wr_actions request),
      ga_Policy = Some (policy_facts s (wr_actions request)), ga_Rejection = [],
      ga_Operation = wr_operation request, ga_Commands = int (length (wr_actions request)), ga_Denial = [],
      ga_Allowed = allowed, ga_Material = None, ga_PrivateGrant = private_ref\<rparr>"

definition git_finish :: "GitTrafficAdmission \<Rightarrow> GitEvaluation" where
  "git_finish a =
     \<lparr>ev_Execution =
        \<lparr>ge_Allowed = ga_Allowed a, ge_PrivateNetwork = (ga_PrivateGrant a \<noteq> None),
         ge_CredentialUnavailable = (ga_Denial a = ''credential_unavailable''), ge_Material = ga_Material a\<rparr>,
      ev_Evidence = trim_evidence a, ev_Candidate = ga_Allowed a\<rparr>"

definition attach_material :: "git_snapshot \<Rightarrow> GitTrafficAdmission \<Rightarrow> git_admission_error + GitTrafficAdmission" where
  "attach_material s a =
     (case gs_credentialID s of
        None \<Rightarrow> Inr a
      | Some cid \<Rightarrow>
          if \<not> ga_Allowed a then Inr a
          else
            (case gs_material s cid of
               MaterialUnavailable \<Rightarrow> Inr (a\<lparr>ga_Allowed := False, ga_Denial := ''credential_unavailable''\<rparr>)
             | MaterialFailed \<Rightarrow> Inl GitReadFailed
             | MaterialRead m \<Rightarrow> Inr (a\<lparr>ga_Material := Some m\<rparr>)))"

definition git_decide ::
  "git_snapshot \<Rightarrow> Request \<Rightarrow> AddressFacts \<Rightarrow> wire_Request \<Rightarrow> git_admission_error + GitEvaluation" where
  "git_decide s target facts request =
     (case git_Evaluate (map (\<lambda>g. \<lparr>gg_Policy = gr_Policy g\<rparr>) (applicable_grants s)) (wr_actions request) of
        Inl _ \<Rightarrow> Inl GitInvalidInput
      | Inr granted \<Rightarrow>
          (case GitDestination (gs_evaluator s) target facts of
             Inl _ \<Rightarrow> Inl GitNetworkInvalid
           | Inr (network, private_ref) \<Rightarrow>
               let allowed = (if PushCapable request then granted \<and> push_capable_grants s else granted) \<and> network in
               (case attach_material s (git_evidence s request allowed private_ref) of
                  Inl err \<Rightarrow> Inl err
                | Inr a \<Rightarrow> Inr (git_finish a))))"

subsection \<open>The exchange\<close>

record git_response =
  gp_status :: int
  gp_header :: http_header
  gp_uncompressed :: bool

text \<open>What the network and the connection answer: whether the credential material applies to the
  headers, whether the remaining headers are admissible, the upstream's response, whether it could be
  flushed and copied to its end, the pieces the copy read, and how much of the request was sent.\<close>

record git_answers =
  an_apply :: bool
  an_headers :: bool
  an_response :: "git_response option"
  an_flush :: bool
  an_copy :: bool
  an_chunks :: "string list"
  an_received :: int
  an_sent :: int
  an_eof :: bool
  an_length :: int

definition prestart_failure :: GitTrafficCompletion where
  "prestart_failure =
     \<lparr>gc_CompletedAt = [], gc_Outcome = ''prestart_failure'', gc_Status = 0, gc_BytesSent = 0,
      gc_BytesReceived = 0, gc_DurationMS = 0, gc_TransferComplete = False, gc_ReportedResult = [],
      gc_RefOutcomes = None, gc_Failure = []\<rparr>"

definition observes_status :: "wire_Request \<Rightarrow> git_response \<Rightarrow> bool" where
  "observes_status request response \<longleftrightarrow>
     wr_operation request = ''push'' \<and> gp_status response = 200 \<and>
     (gp_header response ''Content-Encoding'' = [] \<or> gp_header response ''Content-Encoding'' = [''identity'']) \<and>
     length (gp_header response ''Content-Type'') = 1 \<and>
     header_Get (gp_header response) ''Content-Type'' = ''application/x-git-receive-pack-result'' \<and>
     \<not> gp_uncompressed response"

definition write_all :: "StatusObserver \<Rightarrow> string list \<Rightarrow> StatusObserver" where
  "write_all = foldl (\<lambda>ob p. snd (so_Write ob p))"

definition report_push ::
  "StatusObserver option \<Rightarrow> GitTrafficRefEvidence option \<Rightarrow> GitTrafficCompletion \<Rightarrow> GitTrafficCompletion" where
  "report_push observer evidence completion =
     (case observer of
        None \<Rightarrow> completion
      | Some ob \<Rightarrow>
          (case so_Result ob of
             (report, ob') \<Rightarrow>
               if report = ''unknown'' then completion
               else
                 let c = completion\<lparr>gc_ReportedResult := report\<rparr> in
                 (case evidence of
                    None \<Rightarrow> c
                  | Some e \<Rightarrow>
                      let refs = map tr_Name (case re_Refs e of None \<Rightarrow> [] | Some rs \<Rightarrow> rs) in
                      c\<lparr>gc_RefOutcomes := RefOutcomes ob' refs\<rparr>)))"

text \<open>The deferred settlement that runs on every way out once the body was dispatched.\<close>

definition settle_upload :: "git_answers \<Rightarrow> wire_Request \<Rightarrow> GitTrafficCompletion \<Rightarrow> GitTrafficCompletion" where
  "settle_upload ans request completion =
     (let complete = gc_TransferComplete completion \<and>
            (an_eof ans \<or> an_length ans \<ge> 0 \<and> an_sent ans = an_length ans);
          c1 = completion\<lparr>gc_BytesSent := an_sent ans, gc_TransferComplete := complete\<rparr>;
          c2 = (if \<not> complete then c1\<lparr>gc_ReportedResult := [], gc_RefOutcomes := None\<rparr> else c1) in
      if wr_operation request \<noteq> ''push'' \<and> complete then c2\<lparr>gc_Outcome := ''nonmutation''\<rparr> else c2)"

definition git_exchange ::
  "git_answers \<Rightarrow> wire_Request \<Rightarrow> GitTrafficRefEvidence option \<Rightarrow> GitTrafficCompletion" where
  "git_exchange ans request evidence =
     (if \<not> an_apply ans then prestart_failure\<lparr>gc_Failure := ''credential_unavailable''\<rparr>
      else if \<not> an_headers ans then prestart_failure
      else
        (case Dispatch request of
           Inl _ \<Rightarrow> prestart_failure
         | Inr (body, request1) \<Rightarrow>
             settle_upload ans request1
               (let c0 = prestart_failure\<lparr>gc_Outcome := ''outcome_unknown''\<rparr> in
                case an_response ans of
                  None \<Rightarrow> c0
                | Some response \<Rightarrow>
                    let c1 = c0\<lparr>gc_Status := gp_status response\<rparr> in
                    if \<not> an_flush ans then c1
                    else
                      let observer = (if observes_status request1 response
                                      then Some (write_all (ObserveStatus request1) (an_chunks ans)) else None);
                          c2 = c1\<lparr>gc_BytesReceived := an_received ans\<rparr> in
                      if \<not> an_copy ans then c2
                      else report_push observer evidence (c2\<lparr>gc_TransferComplete := True\<rparr>))))"

subsection \<open>What an opened request is\<close>

lemma parse_loop_same:
  "parse_loop live i seen needsPack r = Inr (p, j, r') \<Longrightarrow> wr_operation r' = wr_operation r \<and> wr_used r' = wr_used r"
proof (induction live i seen needsPack r rule: parse_loop.induct)
  case (1 live i seen needsPack r)
  let ?r1 = "take_source 4 r"
  from 1(2) obtain n where n: "live i" "\<not> length (unread r) < 4" "ParseUint 16 16 (take 4 (unread r)) = Some n"
      "\<not> (Trim (take 4 (unread r)) hex_digits \<noteq> [] \<or> length (wr_prefix r) + 4 > ControlBytes)"
    by (subst (asm) parse_loop.simps) (auto simp: Let_def split: if_splits option.splits)
  show ?case
  proof (cases "n = 0")
    case True
    with 1(2) n show ?thesis
      by (subst (asm) parse_loop.simps) (auto simp: Let_def)
  next
    case False
    with 1(2) n obtain control r2 a where
        c: "\<not> (n < 5 \<or> n > 65520 \<or> length (wr_prefix ?r1) + n - 4 > ControlBytes \<or>
             length (wr_actions ?r1) \<ge> GitRequestedRefs \<or> length (unread ?r1) < n - 4)"
        "read_capabilities (take_source (n - 4) ?r1) (take (n - 4) (unread ?r1)) = Some (control, r2)"
        "parse_command seen control = Some a"
        and rec: "parse_loop live (Suc i) (ra_Ref a # seen) (needsPack \<or> ra_Action a \<noteq> ''delete'')
             (r2\<lparr>wr_actions := wr_actions r2 @ [a]\<rparr>) = Inr (p, j, r')"
      by (subst (asm) parse_loop.simps) (auto simp: Let_def split: if_splits option.splits)
    have "\<not> (\<not> live i \<or> length (unread r) < 4)"
      using n by simp
    note IH = 1(1) [OF this refl n(3,4) refl False c(1,2) refl c(3) rec]
    with read_capabilities_Some(5,6) [OF c(2)] show ?thesis
      by simp
  qed
qed

definition opened :: "wire_Request \<Rightarrow> bool" where
  "opened r \<longleftrightarrow>
     length (wr_actions r) \<le> GitRequestedRefs \<and> list_all push_action (wr_actions r) \<and>
     distinct (map ra_Ref (wr_actions r)) \<and> (wr_actions r \<noteq> [] \<longrightarrow> wr_operation r = ''push'') \<and>
     (wr_operation r = ''push'' \<longrightarrow> wr_actions r \<noteq> []) \<and> \<not> wr_used r"

lemma parse_opened:
  assumes "parse live r = Inr r'" and "wr_prefix r = []" and "wr_actions r = []" and "\<not> wr_used r"
    and "wr_operation r = ''push''"
  shows "opened r'" and "wr_prefix r' @ unread r' = unread r"
proof -
  obtain p i r1 r2 where l: "parse_loop live 0 [] False r = Inr (p, i, r1)"
    and r2: "r2 = (if wr_actions r1 = [] then r1\<lparr>wr_operation := ''probe''\<rparr> else r1)"
    and out: "if p then r' = take_source 4 r2 \<and> take 4 (unread r2) = ''PACK'' else r' = r2 \<and> unread r2 = []"
    by (rule parse_cases [OF assms(1)])
  have "wr_used r' = wr_used r2" "wr_operation r' = wr_operation r2" "wr_actions r' = wr_actions r2"
    using out by (simp_all split: if_splits)
  moreover have "\<not> wr_used r2" "wr_actions r2 \<noteq> [] \<Longrightarrow> wr_operation r2 = ''push''"
      "wr_actions r2 = [] \<Longrightarrow> wr_operation r2 = ''probe''"
    using parse_loop_same [OF l] assms(4,5) by (simp_all add: r2 split: if_splits)
  ultimately show "opened r'"
    using wire_parse_facts(3,4,5) [OF assms(1-3)] by (auto simp: opened_def)
  show "wr_prefix r' @ unread r' = unread r"
    by (rule wire_parse_facts(1) [OF assms(1-3)])
qed

lemma open_request_opened:
  assumes "open_request live header operation body = Inr r"
  shows "opened r" and "wr_prefix r @ unread r = src_bytes body"
proof -
  let ?r = "\<lparr>wr_operation = operation, wr_reportStatus = False, wr_sideband = False,
             wr_actions = [], wr_prefix = [], wr_source = body, wr_used = False\<rparr>"
  show "opened r"
  proof (cases "operation = ''push''")
    case True
    with assms have "parse live ?r = Inr r"
      by (auto simp: open_request_def Let_def HasSuffix_iff split: if_splits)
    from parse_opened(1) [OF this] True show ?thesis by simp
  next
    case False
    with assms have "r = ?r"
      by (auto simp: open_request_def Let_def split: if_splits)
    with False show ?thesis by (simp add: opened_def)
  qed
  show "wr_prefix r @ unread r = src_bytes body"
  proof (cases "operation = ''push''")
    case True
    with assms have "parse live ?r = Inr r"
      by (auto simp: open_request_def Let_def HasSuffix_iff split: if_splits)
    from parse_opened(2) [OF this] True show ?thesis by (simp add: unread_def)
  next
    case False
    with assms have "r = ?r"
      by (auto simp: open_request_def Let_def split: if_splits)
    then show ?thesis by (simp add: unread_def)
  qed
qed

subsection \<open>Evidence stays a valid prefix while it is trimmed\<close>

definition evidence_prefix :: "RefAction list \<Rightarrow> GitTrafficAdmission \<Rightarrow> bool" where
  "evidence_prefix actions a \<longleftrightarrow>
     (case ga_RefEvidence a of
        None \<Rightarrow> True
      | Some e \<Rightarrow> \<exists>n. n \<le> length actions \<and> n \<le> GitTrafficRefs \<and> actions \<noteq> [] \<and>
          re_Refs e = Some (take n (map requested_ref actions)) \<and>
          re_State e = (if n = length actions then ''complete'' else ''truncated'') \<and>
          length (evidence_json ''truncated'' (take n (map requested_ref actions))) \<le> GitTrafficRefEvidenceBytes)"

lemma Join_butlast: "length (Join c (butlast xs)) \<le> length (Join c xs)"
proof (induction c xs rule: Join.induct)
  case (3 sep w v ws)
  then show ?case by (cases ws) simp_all
qed simp_all

lemma evidence_json_butlast:
  "length (evidence_json state (butlast refs)) \<le> length (evidence_json state refs)"
  using Join_butlast [of "CHR '',''" "map ref_json refs"] by (simp add: evidence_json_def map_butlast)

lemma evidence_prefix_trim:
  assumes "evidence_prefix actions a" and "evidence_refs a \<noteq> []"
  shows "evidence_prefix actions
    (a\<lparr>ga_RefEvidence := Some \<lparr>re_State = ''truncated'', re_Refs = Some (butlast (evidence_refs a))\<rparr>\<rparr>)"
proof -
  from assms obtain e n where e: "ga_RefEvidence a = Some e" and n: "n \<le> length actions" "n \<le> GitTrafficRefs"
      "actions \<noteq> []" "re_Refs e = Some (take n (map requested_ref actions))"
      "length (evidence_json ''truncated'' (take n (map requested_ref actions))) \<le> GitTrafficRefEvidenceBytes"
    by (auto simp: evidence_prefix_def evidence_refs_def split: option.splits)
  have refs: "evidence_refs a = take n (map requested_ref actions)"
    by (simp add: evidence_refs_def e n(4))
  then have "n \<noteq> 0"
    using assms(2) by auto
  have "butlast (take n (map requested_ref actions)) = take (n - 1) (map requested_ref actions)"
    using n(1) by (simp add: butlast_take)
  with n \<open>n \<noteq> 0\<close> refs evidence_json_butlast [of "''truncated''" "take n (map requested_ref actions)"] show ?thesis
    by (auto simp: evidence_prefix_def intro!: exI [of _ "n - 1"])
qed

lemma trim_evidence_prefix: "evidence_prefix actions a \<Longrightarrow> evidence_prefix actions (trim_evidence a)"
proof (induction a rule: trim_evidence.induct)
  case (1 a)
  then show ?case
    by (subst trim_evidence.simps) (auto intro: evidence_prefix_trim)
qed

lemma trim_evidence_fields:
  "\<exists>e. trim_evidence a = a\<lparr>ga_RefEvidence := e\<rparr>"
proof (induction a rule: trim_evidence.induct)
  case (1 a)
  show ?case
  proof (cases "evidence_refs a = [] \<or> length (admission_json a) \<le> GitTrafficAdmissionBytes")
    case True
    then have "trim_evidence a = a\<lparr>ga_RefEvidence := ga_RefEvidence a\<rparr>"
      by (subst trim_evidence.simps) simp
    then show ?thesis ..
  next
    case False
    then obtain e where "trim_evidence a = a\<lparr>ga_RefEvidence := e\<rparr>"
      using 1 by (subst (asm) trim_evidence.simps) (auto simp: trim_evidence.simps [of a])
    then show ?thesis ..
  qed
qed

lemma evidence_size: "evidence_refs (trim_evidence a) \<noteq> [] \<Longrightarrow> length (admission_json (trim_evidence a)) \<le> GitTrafficAdmissionBytes"
proof (induction a rule: trim_evidence.induct)
  case (1 a)
  then show ?case
    by (cases "evidence_refs a = [] \<or> length (admission_json a) \<le> GitTrafficAdmissionBytes")
      (auto simp: trim_evidence.simps [of a])
qed

lemma count_prefix:
  "count_action x (take n (map requested_ref actions)) \<le> count_requested x actions"
proof -
  have "length (filter (\<lambda>r. tr_Action r = x) (take n (map requested_ref actions)))
      \<le> length (filter (\<lambda>r. tr_Action r = x) (map requested_ref actions))"
    by (metis append_take_drop_id filter_append le_add1 length_append)
  also have "\<dots> = length (filter (\<lambda>a. ra_Action a = x) actions)"
    by (simp add: filter_map comp_def requested_ref_def)
  finally show ?thesis
    by (simp add: count_action_def count_requested_def)
qed

lemma evidence_prefix_valid:
  assumes "evidence_prefix actions a" and "list_all push_action actions" and "distinct (map ra_Ref actions)"
    and "actions \<noteq> [] \<longrightarrow> ga_Operation a = ''push''" and "ga_Commands a = int (length actions)"
    and "ga_Policy a = Some (policy_facts s actions)"
  shows "ValidGitTrafficRefs a"
proof (cases "ga_RefEvidence a")
  case None
  then show ?thesis by (simp add: ValidGitTrafficRefs_def)
next
  case (Some e)
  with assms(1) obtain n where n: "n \<le> length actions" "n \<le> GitTrafficRefs" "actions \<noteq> []"
      "re_Refs e = Some (take n (map requested_ref actions))"
      "re_State e = (if n = length actions then ''complete'' else ''truncated'')"
      "length (evidence_json ''truncated'' (take n (map requested_ref actions))) \<le> GitTrafficRefEvidenceBytes"
    by (auto simp: evidence_prefix_def)
  let ?refs = "take n (map requested_ref actions)"
  have len: "length ?refs = n"
    using n(1) by simp
  have json: "length (evidence_json (re_State e) ?refs) \<le> GitTrafficRefEvidenceBytes"
    using n(5,6) evidence_json_complete [of ?refs] by (auto split: if_splits)
  have names: "map tr_Name ?refs = take n (map ra_Ref actions)"
    by (simp add: take_map comp_def requested_ref_def)
  have each: "ValidGitRefName (tr_Name r) \<and> tr_Action r \<in> set git_actions" if "r \<in> set ?refs" for r
  proof -
    from that obtain b where "b \<in> set actions" "r = requested_ref b"
      by (metis in_set_takeD list.set_map imageE)
    with assms(2) show ?thesis
      by (auto simp: list_all_iff push_action_def valid_action_def ValidRef_def requested_ref_def)
  qed
  have "scan_distinct (\<lambda>r. ValidGitRefName (tr_Name r) \<and> tr_Action r \<in> set git_actions) tr_Name [] ?refs"
    unfolding scan_distinct_Nil names using each assms(3) by simp
  with Some n len json assms(4-6) count_prefix [of _ n actions] show ?thesis
    unfolding ValidGitTrafficRefs_def
    by (auto simp: policy_facts_def not_less [symmetric] simp del: scan_distinct_Nil split: if_splits)
qed

lemma TrafficRefs_prefix: "ga_RefEvidence a = TrafficRefs actions \<Longrightarrow> evidence_prefix actions a"
proof (cases "TrafficRefs actions")
  case (Some e)
  assume a: "ga_RefEvidence a = TrafficRefs actions"
  from Some have "actions \<noteq> []"
    by (auto simp: TrafficRefs_def)
  from Some obtain n where "re_Refs e = Some (take n (map requested_ref actions))" and "n \<le> length actions"
    and "n \<le> GitTrafficRefs" and "re_State e = (if n = length actions then ''complete'' else ''truncated'')"
    and "length (evidence_json ''truncated'' (take n (map requested_ref actions))) \<le> GitTrafficRefEvidenceBytes"
    by (rule TrafficRefs_Some)
  with a Some \<open>actions \<noteq> []\<close> show ?thesis
    unfolding evidence_prefix_def by auto
qed (simp add: evidence_prefix_def)

lemma attach_material_Inr:
  assumes "attach_material s a = Inr a'"
  shows "ga_RefEvidence a' = ga_RefEvidence a" "ga_Operation a' = ga_Operation a" "ga_Commands a' = ga_Commands a"
    "ga_Policy a' = ga_Policy a" "ga_PrivateGrant a' = ga_PrivateGrant a"
    "ga_Allowed a' \<longleftrightarrow> ga_Allowed a \<and> (\<forall>cid. gs_credentialID s = Some cid \<longrightarrow> (\<exists>m. gs_material s cid = MaterialRead m))"
  using assms by (auto simp: attach_material_def split: option.splits if_splits material_answer.splits)

lemma git_decide_evidence:
  assumes "git_decide s target facts r = Inr e"
  obtains a where "ev_Evidence e = trim_evidence a" and "ga_RefEvidence a = TrafficRefs (wr_actions r)"
    and "ga_Operation a = wr_operation r" and "ga_Commands a = int (length (wr_actions r))"
    and "ga_Policy a = Some (policy_facts s (wr_actions r))" and "ga_Allowed a = ev_Candidate e"
proof -
  from assms obtain allowed private_ref a where
      a: "attach_material s (git_evidence s r allowed private_ref) = Inr a" "e = git_finish a"
    by (auto simp: git_decide_def Let_def split: sum.splits prod.splits)
  with attach_material_Inr(1-4) [OF a(1)] show thesis
    by (intro that [of a]) (simp_all add: git_evidence_def git_finish_def)
qed

lemma git_decide_prefix:
  assumes "git_decide s target facts r = Inr e"
  shows "evidence_prefix (wr_actions r) (ev_Evidence e)" and "ga_Operation (ev_Evidence e) = wr_operation r"
    and "ga_Commands (ev_Evidence e) = int (length (wr_actions r))"
    and "ga_Policy (ev_Evidence e) = Some (policy_facts s (wr_actions r))"
    and "ga_Allowed (ev_Evidence e) = ev_Candidate e"
proof -
  obtain a where a: "ev_Evidence e = trim_evidence a" "ga_RefEvidence a = TrafficRefs (wr_actions r)"
      "ga_Operation a = wr_operation r" "ga_Commands a = int (length (wr_actions r))"
      "ga_Policy a = Some (policy_facts s (wr_actions r))" "ga_Allowed a = ev_Candidate e"
    by (rule git_decide_evidence [OF assms])
  show "evidence_prefix (wr_actions r) (ev_Evidence e)"
    unfolding a(1) by (rule trim_evidence_prefix) (rule TrafficRefs_prefix [OF a(2)])
  obtain x where "trim_evidence a = a\<lparr>ga_RefEvidence := x\<rparr>"
    using trim_evidence_fields by blast
  with a show "ga_Operation (ev_Evidence e) = wr_operation r"
      "ga_Commands (ev_Evidence e) = int (length (wr_actions r))"
      "ga_Policy (ev_Evidence e) = Some (policy_facts s (wr_actions r))"
      "ga_Allowed (ev_Evidence e) = ev_Candidate e"
    by simp_all
qed

subsection \<open>Completions agree with the evidence\<close>

lemma so_Result_outcomes:
  assumes "so_Result ob = (result, ob')" and "result \<noteq> ''unknown''" and "finite (so_refs ob)" and "so_refs ob \<noteq> {}"
  obtains m where "so_outcomes ob' = Some m" and "dom m = so_refs ob"
    and "(result, ran m) \<in> {(''reported_success'', {''ok''}), (''reported_failure'', {''ng''}),
          (''reported_partial'', {''ok'', ''ng''})}"
proof -
  from assms(1,2) obtain d m where d: "status_report (ob\<lparr>so_outcomes := None\<rparr>) d = Some (result, m)"
      "so_outcomes ob' = Some m"
    unfolding so_Result_def Let_def
    by (auto split: option.splits if_splits)
  from status_report_spec [OF d(1)] assms(3,4) show thesis
    by (intro that [OF d(2)]) auto
qed

lemma lookup_all_map: "set refs \<subseteq> dom m \<Longrightarrow> lookup_all m refs = Some (map (the \<circ> m) refs)"
  by (induction refs) auto

lemma write_all_refs [simp]: "so_refs (write_all ob ps) = so_refs ob"
  by (induction ps arbitrary: ob) (simp_all add: write_all_def)

lemma prefix_outcomes_valid:
  assumes "(result, ran m) \<in> {(''reported_success'', {''ok''}), (''reported_failure'', {''ng''}),
          (''reported_partial'', {''ok'', ''ng''})}" and "set refs \<subseteq> dom m"
    and "out = map (the \<circ> m) refs"
  shows "result \<in> set reported_results" and "list_all (\<lambda>x. x = ''ok'' \<or> x = ''ng'') out"
    and "result = ''reported_success'' \<longrightarrow> length (filter (\<lambda>x. x = ''ok'') out) = length out"
    and "result = ''reported_failure'' \<longrightarrow> length (filter (\<lambda>x. x = ''ok'') out) = 0"
    and "set refs = dom m \<Longrightarrow> result = ''reported_partial'' \<longrightarrow>
      length (filter (\<lambda>x. x = ''ok'') out) \<noteq> 0 \<and> length (filter (\<lambda>x. x = ''ok'') out) \<noteq> length out"
proof -
  have sub: "set out \<subseteq> ran m"
  proof
    fix x
    assume "x \<in> set out"
    then obtain ref where "ref \<in> set refs" "x = the (m ref)"
      by (auto simp: assms(3))
    moreover from this assms(2) obtain y where "m ref = Some y"
      by blast
    ultimately show "x \<in> ran m"
      by (simp add: ranI)
  qed
  from assms(1) consider "result = ''reported_success''" "ran m = {''ok''}" | "result = ''reported_failure''" "ran m = {''ng''}"
    | "result = ''reported_partial''" "ran m = {''ok'', ''ng''}"
    by (elim insertE emptyE) (simp_all only: prod.inject)
  note kinds = this
  have all: "x = ''ok'' \<or> x = ''ng''" if "x \<in> set out" for x
    using that sub by (cases rule: kinds) blast+
  show "result \<in> set reported_results"
    by (cases rule: kinds) (simp_all add: reported_results_def)
  show "list_all (\<lambda>x. x = ''ok'' \<or> x = ''ng'') out"
    unfolding list_all_iff using all by blast
  show "result = ''reported_success'' \<longrightarrow> length (filter (\<lambda>x. x = ''ok'') out) = length out"
    using sub unfolding length_filter_all by (cases rule: kinds) (simp_all, blast?)
  show "result = ''reported_failure'' \<longrightarrow> length (filter (\<lambda>x. x = ''ok'') out) = 0"
    using sub by (cases rule: kinds) (simp_all add: filter_empty_conv, fastforce?)
  assume "set refs = dom m"
  have "ran m \<subseteq> set out"
  proof
    fix x
    assume "x \<in> ran m"
    then obtain ref where "m ref = Some x"
      by (auto simp: ran_def)
    with \<open>set refs = dom m\<close> have "ref \<in> set refs" "the (m ref) = x"
      by auto
    then show "x \<in> set out"
      unfolding assms(3) by auto
  qed
  with sub have eq: "set out = ran m"
    by (rule subset_antisym)
  show "result = ''reported_partial'' \<longrightarrow>
      length (filter (\<lambda>x. x = ''ok'') out) \<noteq> 0 \<and> length (filter (\<lambda>x. x = ''ok'') out) \<noteq> length out"
  proof
    assume "result = ''reported_partial''"
    then have "ran m = {''ok'', ''ng''}"
      by (cases rule: kinds) simp_all
    then have "''ok'' \<in> set out" "''ng'' \<in> set out"
      unfolding eq by simp_all
    then show "length (filter (\<lambda>x. x = ''ok'') out) \<noteq> 0 \<and> length (filter (\<lambda>x. x = ''ok'') out) \<noteq> length out"
      unfolding length_filter_all by (auto simp: filter_empty_conv intro: bexI [of _ "''ng''"])
  qed
qed

end
