(* ===== verification/Git_Properties.thy ===== *)
theory Git_Properties
  imports Git_Admission Http_Properties
begin

text \<open>
  The properties of the Git path as a whole: what the client sent is what the upstream receives, the
  parser accepts the well-formed pushes, the evidence and the completion of a push always validate,
  and the gateway repeats an upstream's claim of success only when the report makes it for every ref.
\<close>

lemmas traffic_defs = GitTrafficRefs_def GitTrafficRefEvidenceBytes_def

lemma report_push_valid:
  assumes opened: "opened r" "wr_operation r = ''push''"
    and ev: "evidence_prefix (wr_actions r) a" "ga_Allowed a"
    and obs: "so_refs ob = set (map ra_Ref (wr_actions r))"
    and c: "gc_Status c = 200" "gc_TransferComplete c" "gc_Outcome c = ''outcome_unknown''" "gc_RefOutcomes c = None"
  shows "ValidGitTrafficOutcomes a (report_push (Some ob) (ga_RefEvidence a) c)"
proof -
  obtain result ob' where res: "so_Result ob = (result, ob')"
    by fastforce
  show ?thesis
  proof (cases "result = ''unknown'' \<or> ga_RefEvidence a = None \<or> evidence_refs a = []")
    case True
    then have "gc_RefOutcomes (report_push (Some ob) (ga_RefEvidence a) c) = None"
      using c(4) by (auto simp: report_push_def res Let_def RefOutcomes_def evidence_refs_def split: option.splits)
    then show ?thesis
      by (simp add: ValidGitTrafficOutcomes_def)
  next
    case False
    then obtain e where e: "ga_RefEvidence a = Some e" and known: "result \<noteq> ''unknown''"
      by auto
    from ev(1) e obtain n where n: "n \<le> length (wr_actions r)"
        "re_Refs e = Some (take n (map requested_ref (wr_actions r)))"
        "re_State e = (if n = length (wr_actions r) then ''complete'' else ''truncated'')"
      by (auto simp: evidence_prefix_def)
    have "wr_actions r \<noteq> []"
      using opened by (simp add: opened_def)
    then have fin: "finite (so_refs ob)" "so_refs ob \<noteq> {}"
      by (simp_all add: obs)
    obtain m where m: "so_outcomes ob' = Some m" "dom m = so_refs ob"
        "(result, ran m) \<in> {(''reported_success'', {''ok''}), (''reported_failure'', {''ng''}),
          (''reported_partial'', {''ok'', ''ng''})}"
      by (rule so_Result_outcomes [OF res known fin])
    let ?refs = "take n (map ra_Ref (wr_actions r))"
    have names: "map tr_Name (take n (map requested_ref (wr_actions r))) = ?refs"
      by (simp add: take_map comp_def requested_ref_def)
    have sub: "set ?refs \<subseteq> dom m"
      unfolding m(2) obs by (rule set_take_subset)
    have "?refs \<noteq> []"
      using False e n(2) by (auto simp: evidence_refs_def)
    then have out: "RefOutcomes ob' ?refs = Some (map (the \<circ> m) ?refs)"
      by (simp add: RefOutcomes_def m(1) lookup_all_map [OF sub])
    note valid = prefix_outcomes_valid [OF m(3) sub refl]
    have full: "set ?refs = dom m" if "re_State e = ''complete''"
      using that n by (simp add: m(2) obs split: if_splits)
    have rep: "report_push (Some ob) (ga_RefEvidence a) c =
        c\<lparr>gc_ReportedResult := result, gc_RefOutcomes := Some (map (the \<circ> m) ?refs)\<rparr>"
      using known out names by (simp add: report_push_def res e n(2) Let_def)
    show ?thesis
      using valid full ev(2) c \<open>?refs \<noteq> []\<close>
      unfolding rep ValidGitTrafficOutcomes_def
      by (auto simp: e n(2) Let_def)
  qed
qed

lemma settle_upload_valid:
  assumes "wr_operation r = ''push''" and "gc_TransferComplete c \<Longrightarrow> ValidGitTrafficOutcomes a c"
  shows "ValidGitTrafficOutcomes a (settle_upload ans r c)"
proof (cases "gc_TransferComplete c \<and> (an_eof ans \<or> an_length ans \<ge> 0 \<and> an_sent ans = an_length ans)")
  case True
  then have "settle_upload ans r c = c\<lparr>gc_BytesSent := an_sent ans\<rparr>"
    using assms(1) by (simp add: settle_upload_def Let_def)
  moreover have "ValidGitTrafficOutcomes a (c\<lparr>gc_BytesSent := an_sent ans\<rparr>) = ValidGitTrafficOutcomes a c"
    unfolding ValidGitTrafficOutcomes_def by (cases c) (simp only: GitTrafficCompletion.simps)
  ultimately show ?thesis
    using assms(2) True by simp
next
  case False
  then have "gc_RefOutcomes (settle_upload ans r c) = None"
    by (simp add: settle_upload_def Let_def)
  then show ?thesis
    by (simp add: ValidGitTrafficOutcomes_def)
qed

lemma no_outcomes_valid: "gc_RefOutcomes c = None \<Longrightarrow> ValidGitTrafficOutcomes a c"
  by (simp add: ValidGitTrafficOutcomes_def)

lemma not_push_outcomes:
  assumes "wr_operation r \<noteq> ''push''"
  shows "gc_RefOutcomes (git_exchange ans r e) = None"
  using assms
  by (auto simp: git_exchange_def prestart_failure_def settle_upload_def report_push_def observes_status_def
      Dispatch_def Let_def split: option.splits)

lemma Dispatch_opened: "opened r \<Longrightarrow> Dispatch r = Inr (wr_prefix r @ unread r, r\<lparr>wr_used := True\<rparr>)"
  by (simp add: Dispatch_def opened_def)

lemma git_exchange_valid:
  assumes op: "opened r" and ev: "evidence_prefix (wr_actions r) a" "ga_Allowed a"
  shows "ValidGitTrafficOutcomes a (git_exchange ans r (ga_RefEvidence a))"
proof (cases "wr_operation r = ''push''")
  case False
  then show ?thesis
    by (intro no_outcomes_valid not_push_outcomes)
next
  case True
  let ?r = "r\<lparr>wr_used := True\<rparr>"
  have report: "ValidGitTrafficOutcomes a (report_push (Some (write_all (ObserveStatus ?r) (an_chunks ans))) (ga_RefEvidence a) c)"
    if "gc_Status c = 200" "gc_TransferComplete c" "gc_Outcome c = ''outcome_unknown''" "gc_RefOutcomes c = None" for c
    using op True ev that by (intro report_push_valid) (simp_all add: ObserveStatus_def)
  have none: "ValidGitTrafficOutcomes a (report_push None x c)" if "gc_RefOutcomes c = None" for x c
    using that by (simp add: report_push_def no_outcomes_valid)
  show ?thesis
  proof (cases "an_apply ans \<and> an_headers ans")
    case False
    then show ?thesis
      by (auto simp: git_exchange_def prestart_failure_def intro: no_outcomes_valid)
  next
    case started: True
    show ?thesis
    proof (cases "an_response ans")
      case None
      then show ?thesis
        using started True
        by (simp add: git_exchange_def Dispatch_opened [OF op] settle_upload_valid prestart_failure_def no_outcomes_valid)
    next
      case (Some response)
      have "ValidGitTrafficOutcomes a (settle_upload ans ?r
          (let c1 = (prestart_failure\<lparr>gc_Outcome := ''outcome_unknown''\<rparr>)\<lparr>gc_Status := gp_status response\<rparr> in
           if \<not> an_flush ans then c1
           else
             let observer = (if observes_status ?r response
                             then Some (write_all (ObserveStatus ?r) (an_chunks ans)) else None);
                 c2 = c1\<lparr>gc_BytesReceived := an_received ans\<rparr> in
             if \<not> an_copy ans then c2
             else report_push observer (ga_RefEvidence a) (c2\<lparr>gc_TransferComplete := True\<rparr>)))"
        using True
        by (intro settle_upload_valid)
          (auto simp: Let_def prestart_failure_def observes_status_def report none no_outcomes_valid)
      with started Some show ?thesis
        by (simp add: git_exchange_def Dispatch_opened [OF op] Let_def)
    qed
  qed
qed

lemma parse_after_loop:
  assumes "\<And>k. live k" and "parse_loop live 0 [] False r = Inr (np, j, r1)" and "wr_actions r1 \<noteq> []"
    and "if np then HasPrefix (unread r1) ''PACK'' else unread r1 = [] \<and> src_clean (wr_source r1)"
  shows "parse live r = Inr (if np then take_source 4 r1 else r1)"
proof (cases np)
  case True
  with assms(4) have "take 4 (unread r1) = ''PACK''" "\<not> length (unread r1) < 4"
    by (auto simp: HasPrefix_iff)
  with assms(1-3) True show ?thesis
    by (simp add: parse_def Let_def)
next
  case False
  with assms show ?thesis
    by (simp add: parse_def Let_def exactEnd_def unread_def)
qed

lemma open_request_push:
  assumes "\<And>k. live k" and "request_header_ok header ''push''" and "cs \<noteq> []"
    and "\<forall>c \<in> set cs. valid_command c" and "distinct (map pc_ref cs)" and "length cs \<le> GitRequestedRefs"
    and "\<forall>v. caps = Some v \<longrightarrow> validCapabilities v" and "length (push_commands caps cs) + 4 \<le> ControlBytes"
    and "if needs_pack cs then HasPrefix rest ''PACK'' else rest = [] \<and> clean"
  shows "\<exists>r. open_request live header ''push''
        \<lparr>src_bytes = push_commands caps cs @ ''0000'' @ rest, src_clean = clean\<rparr> = Inr r \<and>
     wr_actions r = map command_action cs \<and> wr_operation r = ''push'' \<and>
     wr_reportStatus r = requested caps [''report-status'', ''report-status-v2''] \<and>
     wr_sideband r = requested caps [''side-band-64k'']"
proof -
  let ?body = "\<lparr>src_bytes = push_commands caps cs @ ''0000'' @ rest, src_clean = clean\<rparr>"
  let ?r = "\<lparr>wr_operation = ''push'', wr_reportStatus = False, wr_sideband = False,
             wr_actions = [], wr_prefix = [], wr_source = ?body, wr_used = False\<rparr>"
  have "\<exists>j r'. parse_loop live 0 [] False ?r = Inr (needs_pack cs, j, r') \<and>
     wr_actions r' = map command_action cs \<and> unread r' = rest \<and>
     same_mode (?r\<lparr>wr_reportStatus := requested caps [''report-status'', ''report-status-v2''],
                 wr_sideband := requested caps [''side-band-64k'']\<rparr>) r'"
    by (rule parse_push_commands [OF assms(1,3-7) _ _ _ _ _ assms(8)]) (simp_all add: unread_def)
  then obtain j r1 where l: "parse_loop live 0 [] False ?r = Inr (needs_pack cs, j, r1)"
      and r1: "wr_actions r1 = map command_action cs" "unread r1 = rest"
      and mode: "same_mode (?r\<lparr>wr_reportStatus := requested caps [''report-status'', ''report-status-v2''],
                 wr_sideband := requested caps [''side-band-64k'']\<rparr>) r1"
    by blast
  have "parse live ?r = Inr (if needs_pack cs then take_source 4 r1 else r1)"
    using l r1 mode assms(3,9) by (intro parse_after_loop [OF assms(1)]) (auto simp: same_mode_def)
  moreover have "open_request live header ''push'' ?body = parse live ?r"
    using assms(2) by (simp add: open_request_def Let_def HasSuffix_iff)
  ultimately show ?thesis
    using r1 mode by (auto simp: same_mode_def take_source_def)
qed

lemma write_all_chunks: "write_all ob ps = (if ps = [] then ob else snd (so_Write ob (concat ps)))"
proof (cases ps)
  case (Cons q qs)
  have "write_all (snd (so_Write ob q)) qs = snd (so_Write ob (q @ concat qs))"
    using so_Write_chunks [of qs ob q] by (simp add: write_all_def foldl_conv_fold)
  with Cons show ?thesis by (simp add: write_all_def)
qed (simp add: write_all_def)

definition git_granted :: "git_snapshot \<Rightarrow> Request \<Rightarrow> AddressFacts \<Rightarrow> wire_Request \<Rightarrow> bool" where
  "git_granted s target facts r \<longleftrightarrow>
     (if wr_actions r = [] then \<exists>g \<in> set (applicable_grants s). gp_Read (gr_Policy g)
      else \<forall>a \<in> set (wr_actions r). \<exists>g \<in> set (applicable_grants s). grant_permits a \<lparr>gg_Policy = gr_Policy g\<rparr>) \<and>
     (PushCapable r \<longrightarrow> push_capable_grants s) \<and> (\<exists>ref. GitDestination (gs_evaluator s) target facts = Inr (True, ref))"

definition report_data :: "StatusObserver \<Rightarrow> string option" where
  "report_data ob =
     (if so_sideband ob then (case statusPackets (so_data ob) of None \<Rightarrow> None | Some ps \<Rightarrow> sideband_data ps)
      else Some (so_data ob))"

definition claims_success :: "wire_Request \<Rightarrow> string list \<Rightarrow> bool" where
  "claims_success r packets \<longleftrightarrow>
     trim_newline (hd packets) = ''unpack ok'' \<and>
     (\<forall>a \<in> set (wr_actions r). \<exists>p \<in> set (tl packets). trim_newline p = ''ok '' @ ra_Ref a)"

lemma status_line_ok: "status_line p = Some (ref, ''ok'') \<Longrightarrow> trim_newline p = ''ok '' @ ref"
  by (auto simp: status_line_def split: if_splits prod.splits dest!: Cut_found)

lemma status_lines_success:
  assumes "status_lines refs {} Map.empty 0 ps = Some (m, card refs)" and "finite refs" and "length ps = card refs"
    and "ref \<in> refs"
  shows "\<exists>p \<in> set ps. trim_newline p = ''ok '' @ ref"
proof -
  from status_lines_spec [OF assms(1)] obtain xs where xs: "map status_line ps = map Some xs" "m = map_of xs"
    by auto
  note m = status_lines_all [OF assms(1-3)]
  have no: "''ng'' \<notin> ran m"
    using m(5) by simp
  from m(1) assms(4) obtain k where k: "m ref = Some k"
    by (auto simp: dom_def)
  then have "k \<in> ran m"
    by (rule ranI)
  with m(2) no have "k = ''ok''"
    by (cases "k = ''ng''") (simp, blast)
  with k have "(ref, ''ok'') \<in> set xs"
    unfolding xs(2) by (simp add: map_of_SomeD)
  then have "Some (ref, ''ok'') \<in> set (map status_line ps)"
    unfolding xs(1) by simp
  then obtain p where "p \<in> set ps" "status_line p = Some (ref, ''ok'')"
    by auto
  with status_line_ok [of p ref] show ?thesis
    by blast
qed

lemma so_Result_success:
  assumes "fst (so_Result ob) = ''reported_success''" and "finite (so_refs ob)" and "so_refs ob \<noteq> {}"
  obtains d packets where "report_data ob = Some d" and "statusPackets d = Some packets"
    and "trim_newline (hd packets) = ''unpack ok''"
    and "\<And>ref. ref \<in> so_refs ob \<Longrightarrow> \<exists>p \<in> set (tl packets). trim_newline p = ''ok '' @ ref"
proof -
  from assms(1) obtain d m where d: "report_data ob = Some d"
      "status_report (ob\<lparr>so_outcomes := None\<rparr>) d = Some (''reported_success'', m)"
    unfolding so_Result_def Let_def report_data_def
    by (auto split: option.splits if_splits)
  let ?ob = "ob\<lparr>so_outcomes := None\<rparr>"
  obtain packets where p1: "statusPackets d = Some packets"
    using d(2) by (cases "statusPackets d") (simp_all add: status_report_def)
  have p2: "length packets = card (so_refs ob) + 1"
    by (rule ccontr) (use d(2) in \<open>simp add: status_report_def p1\<close>)
  obtain m' passed where l: "status_lines (so_refs ob) {} Map.empty 0 (tl packets) = Some (m', passed)"
    using d(2) p1 p2
    by (cases "status_lines (so_refs ob) {} Map.empty 0 (tl packets)") (auto simp: status_report_def Let_def split: if_splits)
  have p3: "trim_newline (hd packets) = ''unpack ok''"
    by (rule ccontr) (use d(2) p1 p2 l in \<open>simp add: status_report_def Let_def split: if_splits\<close>)
  have "passed = card (so_refs ob)"
    by (rule ccontr) (use d(2) p1 p2 l p3 in \<open>simp add: status_report_def Let_def split: if_splits\<close>)
  then have p4: "status_lines (so_refs ob) {} Map.empty 0 (tl packets) = Some (m', card (so_refs ob))"
    using l by simp
  have "length (tl packets) = card (so_refs ob)"
    using p2 by simp
  with status_lines_success [OF p4 assms(2)] show thesis
    by (intro that [OF d(1) p1 p3]) blast
qed

subsection \<open>Properties\<close>

text \<open>
  C21: The parser accepts what Git clients send: any list of one to 128 well-formed commands on distinct
  branches or tags, with or without an admissible capability list, that fits the control budget and is
  followed by a pack exactly when a command needs one, opens as a push with those commands, in order,
  and with the reporting mode the capabilities asked for.
\<close>

theorem git_push_accepted:
  assumes "\<forall>k. live k" and "request_header_ok header ''push''" and "cs \<noteq> []"
    and "\<forall>c \<in> set cs. valid_command c" and "distinct (map pc_ref cs)" and "length cs \<le> GitRequestedRefs"
    and "\<forall>v. caps = Some v \<longrightarrow> validCapabilities v" and "length (push_commands caps cs) + 4 \<le> ControlBytes"
    and "if needs_pack cs then HasPrefix rest ''PACK'' else rest = [] \<and> clean"
  shows "\<exists>r. open_request live header ''push''
        \<lparr>src_bytes = push_commands caps cs @ ''0000'' @ rest, src_clean = clean\<rparr> = Inr r \<and>
     wr_actions r = map command_action cs \<and> wr_operation r = ''push'' \<and>
     wr_reportStatus r = requested caps [''report-status'', ''report-status-v2''] \<and>
     wr_sideband r = requested caps [''side-band-64k'']"
  using assms(1) by (intro open_request_push [OF _ assms(2-9)]) simp

text \<open>
  C40: The status observer is indifferent to how the transport cuts the upstream's answer: feeding it any
  pieces leaves the same result and the same per-ref outcomes as feeding their concatenation at once,
  every write is acknowledged in full, and what it retains never exceeds the control budget.
\<close>

theorem git_status_chunking:
  "so_Result (write_all (ObserveStatus r) ps) =
     so_Result (if ps = [] then ObserveStatus r else snd (so_Write (ObserveStatus r) (concat ps))) \<and>
   fst (so_Write ob p) = length p \<and>
   length (so_data (write_all (ObserveStatus r) ps)) \<le> ControlBytes"
proof (intro conjI)
  show "so_Result (write_all (ObserveStatus r) ps) =
      so_Result (if ps = [] then ObserveStatus r else snd (so_Write (ObserveStatus r) (concat ps)))"
    by (simp add: write_all_chunks)
  show "fst (so_Write ob p) = length p"
    by (simp add: so_Write_def)
  have z: "length (so_data (ObserveStatus r)) \<le> ControlBytes"
    by (simp add: ObserveStatus_def)
  with so_Write_bound [OF z, of "concat ps"] show "length (so_data (write_all (ObserveStatus r) ps)) \<le> ControlBytes"
    by (simp add: write_all_chunks)
qed

text \<open>
  C20: The gateway forwards what it was sent. Whatever request it opens (a push whose commands it read, a
  discovery or a read), dispatching it yields exactly the bytes of the client's body, in order and
  without loss, and a second dispatch of the same request is refused.
\<close>

theorem git_forwards_body:
  assumes "open_request live header operation body = Inr r"
  shows "\<exists>r'. Dispatch r = Inr (src_bytes body, r') \<and> Dispatch r' = Inl ErrUnsupported"
proof -
  have "Dispatch r = Inr (src_bytes body, r\<lparr>wr_used := True\<rparr>)"
    using Dispatch_opened [OF open_request_opened(1) [OF assms]] open_request_opened(2) [OF assms] by simp
  moreover have "Dispatch (r\<lparr>wr_used := True\<rparr>) = Inl ErrUnsupported"
    by (simp add: Dispatch_def)
  ultimately show ?thesis by blast
qed

text \<open>
  C22: Every evaluation of an opened request records ref evidence that its own validator accepts: a prefix of
  the requested refs in request order, bounded in number and bytes, marked complete exactly when no
  ref is missing, with counts that fit the recorded policy facts. Evidence that still lists a ref fits,
  with the whole admission, into the retained envelope.
\<close>

theorem git_evidence_validates:
  assumes "open_request live header operation body = Inr r" and "git_decide s target facts r = Inr e"
  shows "ValidGitTrafficRefs (ev_Evidence e) \<and>
    (evidence_refs (ev_Evidence e) \<noteq> [] \<longrightarrow> length (admission_json (ev_Evidence e)) \<le> GitTrafficAdmissionBytes)"
proof
  note op = open_request_opened(1) [OF assms(1)]
  show "ValidGitTrafficRefs (ev_Evidence e)"
    using op git_decide_prefix [OF assms(2)] by (intro evidence_prefix_valid) (auto simp: opened_def)
  obtain a where "ev_Evidence e = trim_evidence a"
    by (rule git_decide_evidence [OF assms(2)])
  then show "evidence_refs (ev_Evidence e) \<noteq> [] \<longrightarrow> length (admission_json (ev_Evidence e)) \<le> GitTrafficAdmissionBytes"
    by (simp add: evidence_size)
qed

text \<open>
  C31: Whatever the upstream answers, however its answer is cut into pieces and wherever the exchange breaks
  off, the completion the proxy records for an admitted request has per-ref outcomes its validator
  accepts against the recorded evidence.
\<close>

theorem git_completion_validates:
  assumes "open_request live header operation body = Inr r" and "git_decide s target facts r = Inr e"
    and "ev_Candidate e"
  shows "ValidGitTrafficOutcomes (ev_Evidence e) (git_exchange ans r (ga_RefEvidence (ev_Evidence e)))"
  using open_request_opened(1) [OF assms(1)] git_decide_prefix(1,5) [OF assms(2)] assms(3)
  by (intro git_exchange_valid) simp_all

text \<open>
  C7: The decision on an opened request is exact. It fails only when an applicable grant is unusable, the
  destination facts are unusable or the selected credential could not be read, never because of the
  commands the parser produced. Otherwise dispatch is offered exactly when the active grants of this
  principal on this repository cover every command (or reading, when there is none), a push discovery
  or probe has a grant with ref rules, the network admits the destination, and a configured credential
  is available.
\<close>

theorem git_decision_exact:
  assumes "open_request live header operation body = Inr r"
  shows "(case git_decide s target facts r of
       Inr e \<Rightarrow> ev_Candidate e \<longleftrightarrow> git_granted s target facts r \<and>
         (\<forall>cid. gs_credentialID s = Some cid \<longrightarrow> (\<exists>m. gs_material s cid = MaterialRead m))
     | Inl GitInvalidInput \<Rightarrow> length (applicable_grants s) > GitGrants \<or>
         (\<exists>g \<in> set (applicable_grants s). \<not> valid_policy (gr_Policy g))
     | Inl GitNetworkInvalid \<Rightarrow> \<not> is_ok (GitDestination (gs_evaluator s) target facts)
     | Inl GitReadFailed \<Rightarrow> git_granted s target facts r \<and>
         (\<exists>cid. gs_credentialID s = Some cid \<and> gs_material s cid = MaterialFailed))"
proof -
  let ?gs = "map (\<lambda>g. \<lparr>gg_Policy = gr_Policy g\<rparr>) (applicable_grants s)"
  have op: "\<forall>a \<in> set (wr_actions r). valid_action a" "distinct (map ra_Ref (wr_actions r))"
      "length (wr_actions r) \<le> GitRequestedRefs"
    using open_request_opened(1) [OF assms(1)] by (auto simp: opened_def list_all_iff push_action_def)
  show ?thesis
  proof (cases "git_Evaluate ?gs (wr_actions r)")
    case (Inl err)
    then have "length (applicable_grants s) > GitGrants \<or> (\<exists>g \<in> set (applicable_grants s). \<not> valid_policy (gr_Policy g))"
      using op unfolding git_Evaluate_eq by (auto split: if_splits)
    with Inl show ?thesis
      by (simp add: git_decide_def)
  next
    case (Inr ok)
    then have ok: "ok = (if wr_actions r = [] then \<exists>g \<in> set (applicable_grants s). gp_Read (gr_Policy g)
        else \<forall>a \<in> set (wr_actions r). \<exists>g \<in> set (applicable_grants s). grant_permits a \<lparr>gg_Policy = gr_Policy g\<rparr>)"
      using op unfolding git_Evaluate_eq by (auto split: if_splits)
    show ?thesis
    proof (cases "GitDestination (gs_evaluator s) target facts")
      case (Inl err)
      with Inr show ?thesis
        by (simp add: git_decide_def)
    next
      case net: (Inr x)
      obtain network ref where x: "x = (network, ref)"
        by fastforce
      define allowed where "allowed \<longleftrightarrow> (if PushCapable r then ok \<and> push_capable_grants s else ok) \<and> network"
      have dec: "git_decide s target facts r =
          (case attach_material s (git_evidence s r allowed ref) of Inl err \<Rightarrow> Inl err | Inr a \<Rightarrow> Inr (git_finish a))"
        using Inr net unfolding git_decide_def x by (simp add: allowed_def)
      have granted: "git_granted s target facts r \<longleftrightarrow> allowed"
        unfolding git_granted_def allowed_def ok by (auto simp: net x)
      show ?thesis
      proof (cases "attach_material s (git_evidence s r allowed ref)")
        case (Inl err)
        then have "err = GitReadFailed" "allowed"
            "\<exists>cid. gs_credentialID s = Some cid \<and> gs_material s cid = MaterialFailed"
          by (auto simp: attach_material_def git_evidence_def split: option.splits if_splits material_answer.splits)
        with Inl dec granted show ?thesis by simp
      next
        case (Inr a)
        with dec granted attach_material_Inr(6) [OF Inr] show ?thesis
          by (simp add: git_finish_def git_evidence_def)
      qed
    qed
  qed
qed

text \<open>
  C32: The gateway repeats an upstream's claim of success only when the report makes it: the reported result
  of an exchange is success only for a complete push answered with status 200 whose report begins with
  the line \<open>unpack ok\<close> and has, for every requested ref, a line saying \<open>ok\<close>.
\<close>

theorem git_success_is_claimed:
  assumes "open_request live header operation body = Inr r"
    and "gc_ReportedResult (git_exchange ans r e) = ''reported_success''"
  shows "wr_operation r = ''push'' \<and> gc_Status (git_exchange ans r e) = 200 \<and>
    gc_TransferComplete (git_exchange ans r e) \<and>
    (\<exists>d packets. report_data (write_all (ObserveStatus r) (an_chunks ans)) = Some d \<and>
       statusPackets d = Some packets \<and> claims_success r packets)"
proof -
  note op = open_request_opened(1) [OF assms(1)]
  let ?r = "r\<lparr>wr_used := True\<rparr>"
  let ?ob = "write_all (ObserveStatus ?r) (an_chunks ans)"
  have same: "ObserveStatus ?r = ObserveStatus r"
    by (simp add: ObserveStatus_def)
  have ex: "wr_operation r = ''push'' \<and> gc_Status (git_exchange ans r e) = 200 \<and>
      gc_TransferComplete (git_exchange ans r e) \<and> fst (so_Result ?ob) = ''reported_success''"
    using assms(2) op
    by (auto simp: git_exchange_def Dispatch_opened prestart_failure_def settle_upload_def report_push_def
        observes_status_def Let_def split: option.splits if_splits prod.splits)
  have refs: "so_refs ?ob = ra_Ref ` set (wr_actions r)"
    by (simp add: ObserveStatus_def)
  have "wr_actions r \<noteq> []"
    using op ex by (simp add: opened_def)
  with ex refs obtain d packets where "report_data ?ob = Some d" "statusPackets d = Some packets"
      "trim_newline (hd packets) = ''unpack ok''"
      "\<And>ref. ref \<in> so_refs ?ob \<Longrightarrow> \<exists>p \<in> set (tl packets). trim_newline p = ''ok '' @ ref"
    by (elim conjE so_Result_success) simp_all
  with refs ex show ?thesis
    unfolding same claims_success_def by blast
qed

lemma line_outcomes_all:
  assumes "distinct (map rl_ref ls)"
  shows "lookup_all (line_outcomes ls) (map rl_ref ls) = Some (map outcome_kind ls)"
proof -
  have "distinct (map fst (map (\<lambda>l. (rl_ref l, outcome_kind l)) ls))"
    using assms by (simp add: comp_def)
  then have each: "line_outcomes ls (rl_ref l) = Some (outcome_kind l)" if "l \<in> set ls" for l
    unfolding line_outcomes_def using that by (intro map_of_is_SomeI) auto
  have "lookup_all (line_outcomes ls) (map rl_ref ls) = Some (map (the \<circ> line_outcomes ls) (map rl_ref ls))"
    by (rule lookup_all_map) (auto simp: each)
  then show ?thesis
    by (simp add: each)
qed

text \<open>
  C33: A well-formed report is read back. When the upstream answers a push that asked for a report with the unpack
  line and one line for each requested ref, in any order, with any verdicts, any reasons for the refused refs, and lines with or without a line
  feed at the end, the observer returns success, failure or partial success according to the verdicts, and the outcome
  of every requested ref, in the order asked for. It does so for a plain report and for one cut anywhere into side-band data packets with
  progress packets in between, however the answer is written. A report that accepts a ref after unpacking failed contradicts
  itself and is read as unknown, with no outcomes.
\<close>

theorem git_report_read:
  assumes "opened r" and "wr_operation r = ''push''" and "wr_reportStatus r"
    and "distinct (map rl_ref ls)" and "set (map rl_ref ls) = set (map ra_Ref (wr_actions r))" and "list_all report_line_ok ls"
    and "message_ok message newline" and "length message \<le> 65508"
    and "wr_sideband r \<Longrightarrow> frames_carry frames (status_body message newline ls)"
    and "concat ps = response_body (wr_sideband r) frames (status_body message newline ls)" and "length (concat ps) \<le> ControlBytes"
  shows "fst (so_Result (write_all (ObserveStatus r) ps)) = report_verdict message ls \<and>
    RefOutcomes (snd (so_Result (write_all (ObserveStatus r) ps))) (map rl_ref ls) =
      (if report_verdict message ls = ''unknown'' then None else Some (map outcome_kind ls))"
proof -
  let ?ob = "write_all (ObserveStatus r) ps"
  let ?data = "response_body (wr_sideband r) frames (status_body message newline ls)"
  have "ps \<noteq> []"
    using assms(10) by (auto simp: response_body_def status_body_def sideband_body_def split: if_splits)
  then have ob: "?ob = (ObserveStatus r)\<lparr>so_data := ?data\<rparr>"
    using assms(2,3,10,11) by (simp add: write_all_chunks so_Write_def ObserveStatus_def)
  have "\<forall>ref \<in> set (map rl_ref ls). ValidRef ref"
    unfolding assms(5) using assms(1) by (auto simp: opened_def list_all_iff push_action_def valid_action_def)
  with assms(6) have valid: "\<forall>l \<in> set ls. ValidRef (rl_ref l) \<and> report_line_ok l"
    by (simp add: list_all_iff)
  have res: "so_Result ?ob = (report_verdict message ls,
      ?ob\<lparr>so_outcomes := if report_verdict message ls = ''unknown'' then None else Some (line_outcomes ls)\<rparr>)"
    using assms(2-5,7-9) valid unfolding ob by (intro so_Result_read) (simp_all add: ObserveStatus_def)
  have "lookup_all (line_outcomes ls) (map rl_ref ls) = Some (map outcome_kind ls)"
    by (rule line_outcomes_all [OF assms(4)])
  moreover have "ls \<noteq> []"
    using assms(1,2,5) by (auto simp: opened_def)
  ultimately show ?thesis
    unfolding res by (simp add: RefOutcomes_def)
qed

subsection \<open>A sample push\<close>

definition sample_command :: push_command where
  "sample_command = \<lparr>pc_old = zero_oid, pc_new = replicate 40 CHR ''1'', pc_ref = ''refs/heads/agent/x''\<rparr>"

definition sample_caps :: string where
  "sample_caps = ''report-status side-band-64k''"

definition sample_header :: http_header where
  "sample_header name =
     (if name = ''Content-Type'' then [''application/x-git-receive-pack-request''] else [])"

definition sample_body :: body_source where
  "sample_body =
     \<lparr>src_bytes = push_commands (Some sample_caps) [sample_command] @ ''0000'' @ ''PACK'', src_clean = True\<rparr>"

definition sample_git_snapshot :: git_snapshot where
  "sample_git_snapshot =
     \<lparr>gs_id = ''1'', gs_admittedAt = [], gs_evaluatedAt = [], gs_authorization = ''1'',
      gs_principal = \<lparr>grr_ID = ''p'', grr_Revision = ''1''\<rparr>, gs_credential = \<lparr>grr_ID = ''c'', grr_Revision = ''1''\<rparr>,
      gs_repository = \<lparr>grr_ID = ''r'', grr_Revision = ''1''\<rparr>, gs_name = ''n'', gs_url = ''u'', gs_alias = ''1'',
      gs_profile = ''1'', gs_credentialID = None,
      gs_grants = [\<lparr>gr_ID = ''g'', gr_PrincipalID = ''p'', gr_RepositoryID = ''r'', gr_Description = None,
                    gr_Policy = sample_git_policy [''update'', ''create''], gr_ExpiresAt = None, gr_Revision = ''1'',
                    gr_State = GrantActive\<rparr>],
      gs_evaluator = Some sample_evaluator, gs_material = (\<lambda>_. MaterialUnavailable)\<rparr>"

lemma sample_command_valid: "valid_command sample_command" "command_action sample_command = sample_action ''create''"
  "needs_pack [sample_command]"
  by code_simp+

lemma sample_header_ok: "request_header_ok sample_header ''push''"
  by (simp add: request_header_ok_def sample_header_def header_Get_def git_protocols_def HasSuffix_def)

lemma sample_capabilities: "validCapabilities sample_caps" "requested (Some sample_caps) [''report-status'', ''report-status-v2'']"
  "requested (Some sample_caps) [''side-band-64k'']"
proof -
  show "validCapabilities sample_caps"
    by (simp add: sample_caps_def validCapabilities_def CapabilityBytes_def TrimPrefix_def HasPrefix_def capability_token_def known_capabilities_def capability_key_def)
  show "requested (Some sample_caps) [''report-status'', ''report-status-v2'']" "requested (Some sample_caps) [''side-band-64k'']"
    by (simp_all add: sample_caps_def requested_def Fields.simps is_field_space_def)
qed

lemma sample_size: "length (push_commands (Some sample_caps) [sample_command]) + 4 \<le> ControlBytes"
proof -
  have "length (first_line sample_command (Some sample_caps)) + 4 < 65536"
    by (simp add: sample_command_def first_line_def command_line_def zero_oid_def sample_caps_def)
  from hex4_digits_parse(3) [OF this] show ?thesis
    by (simp add: push_commands_def pkt_line_def ControlBytes_def sample_command_def first_line_def command_line_def
        zero_oid_def sample_caps_def)
qed

lemma sample_open:
  obtains r where "open_request (\<lambda>_. True) sample_header ''push'' sample_body = Inr r"
    and "wr_actions r = [sample_action ''create'']" and "wr_operation r = ''push''" and "wr_reportStatus r"
    and "wr_sideband r"
proof -
  have "\<exists>r. open_request (\<lambda>_. True) sample_header ''push'' sample_body = Inr r \<and>
     wr_actions r = map command_action [sample_command] \<and> wr_operation r = ''push'' \<and>
     wr_reportStatus r = requested (Some sample_caps) [''report-status'', ''report-status-v2''] \<and>
     wr_sideband r = requested (Some sample_caps) [''side-band-64k'']"
    unfolding sample_body_def
    by (rule open_request_push)
      (simp_all add: sample_header_ok sample_command_valid(1,3) sample_capabilities sample_size [simplified]
        GitRequestedRefs_def HasPrefix_def)
  then show thesis
    using that by (auto simp: sample_command_valid sample_capabilities)
qed

lemma sample_destination: "GitDestination (Some sample_evaluator) sample_request sample_facts = Inr (True, None)"
proof -
  have "find (\<lambda>g. p_kind (g_Policy g) = HTTPAllowRequests \<and> p_private (g_Policy g) \<and> matchesRequest (g_Policy g) sample_request)
      (ev_grants sample_evaluator) = None" "destinationBlock sample_evaluator (rq_destination sample_request) = None"
    by (code_simp, code_simp)
  then show ?thesis
    using sample_addresses(1) by (simp add: GitDestination_def sample_request_def)
qed

lemma sample_decide:
  assumes "wr_actions r = [sample_action ''create'']" and "wr_operation r = ''push''"
  shows "\<exists>e. git_decide sample_git_snapshot sample_request sample_facts r = Inr e \<and> ev_Candidate e"
proof -
  have gs: "map (\<lambda>g. \<lparr>gg_Policy = gr_Policy g\<rparr>) (applicable_grants sample_git_snapshot) =
      [\<lparr>gg_Policy = sample_git_policy [''update'', ''create'']\<rparr>]"
    by (simp add: applicable_grants_def sample_git_snapshot_def)
  have "git_Evaluate [\<lparr>gg_Policy = sample_git_policy [''update'', ''create'']\<rparr>] (wr_actions r) = Inr True"
    unfolding git_Evaluate_eq
    by (simp add: assms(1) sample_git_valid sample_git_actions GitGrants_def GitRequestedRefs_def)
  then show ?thesis
    unfolding git_decide_def gs
    using assms(2) sample_destination
    by (simp add: attach_material_def git_finish_def git_evidence_def PushCapable_def sample_git_snapshot_def)
qed

definition sample_report :: "report_line list" where
  "sample_report = [\<lparr>rl_ref = ''refs/heads/agent/x'', rl_reason = None, rl_newline = True\<rparr>]"

definition sample_frames :: "(bool \<times> string) list" where
  "sample_frames =
     (let report = status_body ''ok'' True sample_report in [(False, ''progress''), (True, take 7 report), (True, drop 7 report)])"

lemma sample_frames_carry: "frames_carry sample_frames (status_body ''ok'' True sample_report)"
proof -
  have "length (status_body ''ok'' True sample_report) = 44"
    by (simp add: status_body_def sample_report_def outcome_line_def unpack_line_def line_end_def pkt_line_def hex4_digits_def)
  then show ?thesis
    by (simp add: frames_carry_def sample_frames_def Let_def)
qed

lemma sample_report_size: "length (sideband_body sample_frames) \<le> ControlBytes"
  by (simp add: sideband_body_def sample_frames_def sideband_frame_def status_body_def sample_report_def outcome_line_def unpack_line_def
      line_end_def pkt_line_def hex4_digits_def ControlBytes_def Let_def)

lemma sample_report_ok: "list_all report_line_ok sample_report" "message_ok ''ok'' True"
  "report_verdict ''ok'' sample_report = ''reported_success''"
  by (simp_all add: sample_report_def report_line_ok_def outcome_line_def line_end_def message_ok_def report_verdict_def accepted_line_def)

definition sample_answers :: git_answers where
  "sample_answers =
     \<lparr>an_apply = True, an_headers = True,
      an_response = Some \<lparr>gp_status = 200,
        gp_header = (\<lambda>n. if n = ''Content-Type'' then [''application/x-git-receive-pack-result''] else []),
        gp_uncompressed = False\<rparr>,
      an_flush = True, an_copy = True, an_chunks = [sideband_body sample_frames], an_received = 40, an_sent = 150,
      an_eof = True, an_length = -1\<rparr>"

lemma sample_exchange:
  assumes "opened r" and "wr_actions r = [sample_action ''create'']" and "wr_operation r = ''push''"
    and "wr_reportStatus r" and "wr_sideband r"
  shows "gc_ReportedResult (git_exchange sample_answers r e) = ''reported_success''"
proof -
  let ?ob = "write_all (ObserveStatus (r\<lparr>wr_used := True\<rparr>)) [sideband_body sample_frames]"
  have ob: "?ob = (ObserveStatus r)\<lparr>so_data := sideband_body sample_frames\<rparr>"
    using assms(3,4) sample_report_size by (simp add: write_all_chunks so_Write_def ObserveStatus_def)
  have "fst (so_Result ?ob) = report_verdict ''ok'' sample_report"
    unfolding ob using assms sample_git_actions(1) sample_report_ok sample_frames_carry
    by (subst so_Result_read [where ls = sample_report and frames = sample_frames and message = "''ok''" and newline = True])
      (simp_all add: ObserveStatus_def sample_report_def sample_action_def valid_action_def response_body_def)
  then have "fst (so_Result ?ob) = ''reported_success''"
    unfolding sample_report_ok(3) .
  then obtain ob' where "so_Result ?ob = (''reported_success'', ob')"
    by (metis prod.collapse)
  then show ?thesis
    using assms(3)
    by (simp add: git_exchange_def Dispatch_opened [OF assms(1)] sample_answers_def settle_upload_def report_push_def
        observes_status_def header_Get_def Let_def prestart_failure_def split: option.splits)
qed

subsection \<open>Witnesses\<close>

theorem git_push_accepted_witness:
  "\<exists>r. open_request (\<lambda>_. True) sample_header ''push''
      \<lparr>src_bytes = push_commands (Some sample_caps) [sample_command] @ ''0000'' @ ''PACK'', src_clean = True\<rparr> = Inr r \<and>
    wr_actions r = [sample_action ''create'']"
  using git_push_accepted [of "\<lambda>_. True" sample_header "[sample_command]" "Some sample_caps" "''PACK''" True]
    sample_header_ok sample_command_valid sample_capabilities sample_size
  by (auto simp: GitRequestedRefs_def HasPrefix_def)

theorem git_forwards_body_witness:
  "\<exists>r r'. open_request (\<lambda>_. True) sample_header ''push'' sample_body = Inr r \<and>
     Dispatch r = Inr (src_bytes sample_body, r')"
proof -
  obtain r where r: "open_request (\<lambda>_. True) sample_header ''push'' sample_body = Inr r"
    by (rule sample_open)
  with git_forwards_body [OF r] show ?thesis by blast
qed

theorem git_evidence_validates_witness:
  "\<exists>r e. open_request (\<lambda>_. True) sample_header ''push'' sample_body = Inr r \<and>
     git_decide sample_git_snapshot sample_request sample_facts r = Inr e \<and> ValidGitTrafficRefs (ev_Evidence e)"
proof -
  obtain r where r: "open_request (\<lambda>_. True) sample_header ''push'' sample_body = Inr r"
      "wr_actions r = [sample_action ''create'']" "wr_operation r = ''push''"
    by (rule sample_open)
  obtain e where e: "git_decide sample_git_snapshot sample_request sample_facts r = Inr e"
    using sample_decide [OF r(2,3)] by blast
  from r(1) e git_evidence_validates [OF r(1) e] show ?thesis by blast
qed

theorem git_completion_validates_witness:
  "\<exists>r e. open_request (\<lambda>_. True) sample_header ''push'' sample_body = Inr r \<and>
     git_decide sample_git_snapshot sample_request sample_facts r = Inr e \<and>
     ValidGitTrafficOutcomes (ev_Evidence e) (git_exchange sample_answers r (ga_RefEvidence (ev_Evidence e)))"
proof -
  obtain r where r: "open_request (\<lambda>_. True) sample_header ''push'' sample_body = Inr r"
      "wr_actions r = [sample_action ''create'']" "wr_operation r = ''push''"
    by (rule sample_open)
  obtain e where e: "git_decide sample_git_snapshot sample_request sample_facts r = Inr e" "ev_Candidate e"
    using sample_decide [OF r(2,3)] by blast
  from r(1) e git_completion_validates [OF r(1) e] show ?thesis by blast
qed

theorem git_decision_exact_witness:
  "\<exists>r e. open_request (\<lambda>_. True) sample_header ''push'' sample_body = Inr r \<and>
     git_decide sample_git_snapshot sample_request sample_facts r = Inr e \<and>
     git_granted sample_git_snapshot sample_request sample_facts r"
proof -
  obtain r where r: "open_request (\<lambda>_. True) sample_header ''push'' sample_body = Inr r"
      "wr_actions r = [sample_action ''create'']" "wr_operation r = ''push''"
    by (rule sample_open)
  obtain e where e: "git_decide sample_git_snapshot sample_request sample_facts r = Inr e" "ev_Candidate e"
    using sample_decide [OF r(2,3)] by blast
  from r(1) e git_decision_exact [OF r(1), of sample_git_snapshot sample_request sample_facts] show ?thesis by auto
qed

theorem git_success_is_claimed_witness:
  "\<exists>r. open_request (\<lambda>_. True) sample_header ''push'' sample_body = Inr r \<and>
     gc_Status (git_exchange sample_answers r None) = 200"
proof -
  obtain r where r: "open_request (\<lambda>_. True) sample_header ''push'' sample_body = Inr r"
      "wr_actions r = [sample_action ''create'']" "wr_operation r = ''push''" "wr_reportStatus r" "wr_sideband r"
    by (rule sample_open)
  have "gc_ReportedResult (git_exchange sample_answers r None) = ''reported_success''"
    using open_request_opened(1) [OF r(1)] r(2-) by (intro sample_exchange)
  with r(1) git_success_is_claimed [OF r(1), of sample_answers None] show ?thesis by blast
qed

theorem git_report_read_witness:
  "\<exists>r. open_request (\<lambda>_. True) sample_header ''push'' sample_body = Inr r \<and> wr_sideband r \<and>
     fst (so_Result (write_all (ObserveStatus r) [sideband_body sample_frames])) = ''reported_success''"
proof -
  obtain r where r: "open_request (\<lambda>_. True) sample_header ''push'' sample_body = Inr r"
      "wr_actions r = [sample_action ''create'']" "wr_operation r = ''push''" "wr_reportStatus r" "wr_sideband r"
    by (rule sample_open)
  have refs: "distinct (map rl_ref sample_report)" "set (map rl_ref sample_report) = set (map ra_Ref (wr_actions r))"
    by (simp_all add: r(2) sample_report_def sample_action_def)
  have body: "concat [sideband_body sample_frames] = response_body (wr_sideband r) sample_frames (status_body ''ok'' True sample_report)"
    by (simp add: r(5) response_body_def)
  from git_report_read [OF open_request_opened(1) [OF r(1)] r(3,4) refs sample_report_ok(1,2) _ sample_frames_carry body]
  have "fst (so_Result (write_all (ObserveStatus r) [sideband_body sample_frames])) = ''reported_success''"
    using sample_report_size sample_report_ok(3) by simp
  with r(1,5) show ?thesis by blast
qed

end
