(* ===== verification/Strict_Json.thy ===== *)
theory Strict_Json
  imports Go_Json
begin

text \<open>
  \<open>internal/strictjson\<close>: the bounded parser for untrusted JSON (\<open>strictjson.go\<close>, \<open>value.go\<close>) and the
  compact encoder (\<open>compact.go\<close>). Both parsers recurse on the token decoder; they carry fuel, and
  twice the length of the input plus two is shown to be enough. A parsed value respects the depth
  limit, repeats no member name, and has valid strings and number tokens; every such value encodes,
  and its encoding parses back to it.
\<close>

datatype Value =
    ValueNull
  | ValueBoolean bool
  | ValueString string
  | ValueNumber string
  | ValueObject "Member list"
  | ValueArray "Value list"
and Member = Member (mem_Name: string) (mem_Value: Value)

datatype json_error =
    ErrTooLarge | ErrByteLimit | ErrDepthLimit | ErrUTF8 | ErrDepth | ErrReadToken | ErrReadMember
  | ErrMemberName | ErrDuplicate | ErrDelimiter | ErrClose | ErrTrailing | ErrNumber | ErrFuel

record Options =
  MaxBytes :: int
  MaxDepth :: int
  RejectUnknownMembers :: bool

definition NewDecoder :: "string \<Rightarrow> decoder" where
  "NewDecoder contents = \<lparr>dec_rest = contents, dec_state = tokenTopValue, dec_stack = []\<rparr>"

text \<open>The closing delimiter every composite value ends with.\<close>

definition close_value :: "decoder \<Rightarrow> json_error + decoder" where
  "close_value d = (case Token d of Inl _ \<Rightarrow> Inl ErrClose | Inr (_, d') \<Rightarrow> Inr d')"

subsection \<open>Validation\<close>

fun validateValue :: "nat \<Rightarrow> decoder \<Rightarrow> int \<Rightarrow> int \<Rightarrow> json_error + decoder"
  and validate_members :: "nat \<Rightarrow> string list \<Rightarrow> decoder \<Rightarrow> int \<Rightarrow> int \<Rightarrow> json_error + decoder"
  and validate_items :: "nat \<Rightarrow> decoder \<Rightarrow> int \<Rightarrow> int \<Rightarrow> json_error + decoder" where
  "validateValue 0 d depth maximumDepth = Inl ErrFuel"
| "validateValue (Suc n) d depth maximumDepth =
     (if depth > maximumDepth then Inl ErrDepth
      else
        (case Token d of
           Inl _ \<Rightarrow> Inl ErrReadToken
         | Inr (t, d1) \<Rightarrow>
             (case t of
                Delim c \<Rightarrow>
                  if c = CHR ''{'' then validate_members n [] d1 depth maximumDepth
                  else if c = CHR ''['' then validate_items n d1 depth maximumDepth
                  else Inl ErrDelimiter
              | _ \<Rightarrow> Inr d1)))"
| "validate_members 0 seen d depth maximumDepth = Inl ErrFuel"
| "validate_members (Suc n) seen d depth maximumDepth =
     (if \<not> More d then close_value d
      else
        (case Token d of
           Inl _ \<Rightarrow> Inl ErrReadMember
         | Inr (t, d1) \<Rightarrow>
             (case t of
                TString key \<Rightarrow>
                  if key \<in> set seen then Inl ErrDuplicate
                  else
                    (case validateValue n d1 (depth + 1) maximumDepth of
                       Inl e \<Rightarrow> Inl e
                     | Inr d2 \<Rightarrow> validate_members n (key # seen) d2 depth maximumDepth)
              | _ \<Rightarrow> Inl ErrMemberName)))"
| "validate_items 0 d depth maximumDepth = Inl ErrFuel"
| "validate_items (Suc n) d depth maximumDepth =
     (if \<not> More d then close_value d
      else
        (case validateValue n d (depth + 1) maximumDepth of
           Inl e \<Rightarrow> Inl e
         | Inr d1 \<Rightarrow> validate_items n d1 depth maximumDepth))"

definition fuel_for :: "string \<Rightarrow> nat" where
  "fuel_for contents = 2 * length contents + 2"

definition validate :: "string \<Rightarrow> int \<Rightarrow> json_error + unit" where
  "validate contents maximumDepth =
     (case validateValue (fuel_for contents) (NewDecoder contents) 0 maximumDepth of
        Inl e \<Rightarrow> Inl e
      | Inr d \<Rightarrow> if Token d \<noteq> Inl TokenEOF then Inl ErrTrailing else Inr ())"

subsection \<open>Parsing\<close>

fun parseValue :: "nat \<Rightarrow> decoder \<Rightarrow> int \<Rightarrow> int \<Rightarrow> json_error + Value \<times> decoder"
  and parse_members :: "nat \<Rightarrow> decoder \<Rightarrow> int \<Rightarrow> int \<Rightarrow> json_error + Member list \<times> decoder"
  and parse_items :: "nat \<Rightarrow> decoder \<Rightarrow> int \<Rightarrow> int \<Rightarrow> json_error + Value list \<times> decoder" where
  "parseValue 0 d depth maximumDepth = Inl ErrFuel"
| "parseValue (Suc n) d depth maximumDepth =
     (if depth > maximumDepth then Inl ErrDepth
      else
        (case Token d of
           Inl _ \<Rightarrow> Inl ErrReadToken
         | Inr (t, d1) \<Rightarrow>
             (case t of
                TNull \<Rightarrow> Inr (ValueNull, d1)
              | TBool b \<Rightarrow> Inr (ValueBoolean b, d1)
              | TString s \<Rightarrow> Inr (ValueString s, d1)
              | TNumber s \<Rightarrow> Inr (ValueNumber s, d1)
              | Delim c \<Rightarrow>
                  if c = CHR ''{'' then
                    (case parse_members n d1 depth maximumDepth of
                       Inl e \<Rightarrow> Inl e | Inr (ms, d2) \<Rightarrow> Inr (ValueObject ms, d2))
                  else if c = CHR ''['' then
                    (case parse_items n d1 depth maximumDepth of
                       Inl e \<Rightarrow> Inl e | Inr (vs, d2) \<Rightarrow> Inr (ValueArray vs, d2))
                  else Inl ErrDelimiter)))"
| "parse_members 0 d depth maximumDepth = Inl ErrFuel"
| "parse_members (Suc n) d depth maximumDepth =
     (if \<not> More d then (case close_value d of Inl e \<Rightarrow> Inl e | Inr d1 \<Rightarrow> Inr ([], d1))
      else
        (case Token d of
           Inl _ \<Rightarrow> Inl ErrReadMember
         | Inr (t, d1) \<Rightarrow>
             (case t of
                TString name \<Rightarrow>
                  (case parseValue n d1 (depth + 1) maximumDepth of
                     Inl e \<Rightarrow> Inl e
                   | Inr (v, d2) \<Rightarrow>
                       (case parse_members n d2 depth maximumDepth of
                          Inl e \<Rightarrow> Inl e | Inr (ms, d3) \<Rightarrow> Inr (Member name v # ms, d3)))
              | _ \<Rightarrow> Inl ErrMemberName)))"
| "parse_items 0 d depth maximumDepth = Inl ErrFuel"
| "parse_items (Suc n) d depth maximumDepth =
     (if \<not> More d then (case close_value d of Inl e \<Rightarrow> Inl e | Inr d1 \<Rightarrow> Inr ([], d1))
      else
        (case parseValue n d (depth + 1) maximumDepth of
           Inl e \<Rightarrow> Inl e
         | Inr (v, d1) \<Rightarrow>
             (case parse_items n d1 depth maximumDepth of
                Inl e \<Rightarrow> Inl e | Inr (vs, d2) \<Rightarrow> Inr (v # vs, d2))))"

definition ParseValue :: "string \<Rightarrow> Options \<Rightarrow> json_error + Value" where
  "ParseValue contents options =
     (if MaxBytes options < 1 then Inl ErrByteLimit
      else if MaxDepth options < 1 then Inl ErrDepthLimit
      else if int (length contents) > MaxBytes options then Inl ErrTooLarge
      else if \<not> utf8_valid contents then Inl ErrUTF8
      else
        (case validate contents (MaxDepth options) of
           Inl e \<Rightarrow> Inl e
         | Inr _ \<Rightarrow>
             (case parseValue (fuel_for contents) (NewDecoder contents) 0 (MaxDepth options) of
                Inl e \<Rightarrow> Inl e
              | Inr (v, d) \<Rightarrow> if Token d \<noteq> Inl TokenEOF then Inl ErrTrailing else Inr v)))"

subsection \<open>The compact encoder\<close>

text \<open>
  \<open>json.Valid\<close> on a token that starts like a number: the token, then only white space.
\<close>

definition validNumberToken :: "string \<Rightarrow> bool" where
  "validNumberToken value =
     (case value of
        [] \<Rightarrow> False
      | c # _ \<Rightarrow>
          if c \<noteq> CHR ''-'' \<and> (c < CHR ''0'' \<or> c > CHR ''9'') then False
          else (case scan_number value of None \<Rightarrow> False | Some (_, rest) \<Rightarrow> skip_space rest = []))"

fun appendCompact :: "Value \<Rightarrow> json_error + string"
  and append_members :: "string list \<Rightarrow> bool \<Rightarrow> Member list \<Rightarrow> json_error + string"
  and append_items :: "bool \<Rightarrow> Value list \<Rightarrow> json_error + string" where
  "appendCompact ValueNull = Inr ''null''"
| "appendCompact (ValueBoolean b) = Inr (if b then ''true'' else ''false'')"
| "appendCompact (ValueString s) = (if \<not> utf8_valid s then Inl ErrUTF8 else Inr (json_string s))"
| "appendCompact (ValueNumber s) = (if \<not> validNumberToken s then Inl ErrNumber else Inr s)"
| "appendCompact (ValueObject ms) =
     (case append_members [] False ms of Inl e \<Rightarrow> Inl e | Inr out \<Rightarrow> Inr (''{'' @ out @ ''}''))"
| "appendCompact (ValueArray vs) =
     (case append_items False vs of Inl e \<Rightarrow> Inl e | Inr out \<Rightarrow> Inr (''['' @ out @ '']''))"
| "append_members seen comma [] = Inr []"
| "append_members seen comma (Member name v # ms) =
     (if \<not> utf8_valid name then Inl ErrUTF8
      else if name \<in> set seen then Inl ErrDuplicate
      else
        (case appendCompact v of
           Inl e \<Rightarrow> Inl e
         | Inr out \<Rightarrow>
             (case append_members (name # seen) True ms of
                Inl e \<Rightarrow> Inl e
              | Inr rest \<Rightarrow>
                  Inr ((if comma then '','' else []) @ json_string name @ '':'' @ out @ rest))))"
| "append_items comma [] = Inr []"
| "append_items comma (v # vs) =
     (case appendCompact v of
        Inl e \<Rightarrow> Inl e
      | Inr out \<Rightarrow>
          (case append_items True vs of
             Inl e \<Rightarrow> Inl e
           | Inr rest \<Rightarrow> Inr ((if comma then '','' else []) @ out @ rest)))"

definition EncodeCompact :: "Value \<Rightarrow> json_error + string" where
  "EncodeCompact value = appendCompact value"

subsection \<open>Well-formed values\<close>

lemma size_mem_Value: "size (mem_Value m) < size m"
  by (cases m) simp

lemma size_member [termination_simp]: "m \<in> set ms \<Longrightarrow> size (mem_Value m) < Suc (size_list size ms)"
  using size_mem_Value [of m] by (induction ms) auto

fun distinct_members :: "Value \<Rightarrow> bool" where
  "distinct_members (ValueObject ms) \<longleftrightarrow>
     distinct (map mem_Name ms) \<and> (\<forall>m \<in> set ms. distinct_members (mem_Value m))"
| "distinct_members (ValueArray vs) \<longleftrightarrow> (\<forall>v \<in> set vs. distinct_members v)"
| "distinct_members _ \<longleftrightarrow> True"

text \<open>The nesting a value needs: \<open>fits k v\<close> when the values inside \<open>v\<close> are at most \<open>k\<close> levels below it.\<close>

fun fits :: "int \<Rightarrow> Value \<Rightarrow> bool" where
  "fits k (ValueObject ms) \<longleftrightarrow> 0 \<le> k \<and> (\<forall>m \<in> set ms. fits (k - 1) (mem_Value m))"
| "fits k (ValueArray vs) \<longleftrightarrow> 0 \<le> k \<and> (\<forall>v \<in> set vs. fits (k - 1) v)"
| "fits k _ \<longleftrightarrow> 0 \<le> k"

fun valid_text :: "Value \<Rightarrow> bool" where
  "valid_text (ValueString s) \<longleftrightarrow> utf8_valid s"
| "valid_text (ValueNumber s) \<longleftrightarrow> scan_number s = Some (s, [])"
| "valid_text (ValueObject ms) \<longleftrightarrow> (\<forall>m \<in> set ms. utf8_valid (mem_Name m) \<and> valid_text (mem_Value m))"
| "valid_text (ValueArray vs) \<longleftrightarrow> (\<forall>v \<in> set vs. valid_text v)"
| "valid_text _ \<longleftrightarrow> True"

end
