(* ===== verification/Strict_Json_Facts.thy ===== *)
theory Strict_Json_Facts
  imports Strict_Json
begin

text \<open>
  What the strict JSON parser and encoder promise: the parsers end on every input, validation accepts
  exactly the inputs that parse to a value without repeated members, parsed values respect the limits,
  and the encoder and the parser are inverse on well-formed values.
\<close>

subsection \<open>Progress and fuel\<close>

lemma close_value_length: "close_value d = Inr d' \<Longrightarrow> length (dec_rest d') < length (dec_rest d)"
  by (auto simp: close_value_def dest: Token_length split: sum.splits)

lemma close_value_fuel [simp]: "close_value d \<noteq> Inl ErrFuel"
  by (auto simp: close_value_def split: sum.splits)

lemma validate_length:
  "validateValue n d k mx = Inr d' \<Longrightarrow> length (dec_rest d') < length (dec_rest d)"
  "validate_members n seen d k mx = Inr d' \<Longrightarrow> length (dec_rest d') < length (dec_rest d)"
  "validate_items n d k mx = Inr d' \<Longrightarrow> length (dec_rest d') < length (dec_rest d)"
proof (induction n d k mx and n seen d k mx and n d k mx
    arbitrary: d' and d' and d' rule: validateValue_validate_members_validate_items.induct)
  case (2 n d k mx)
  from 2(3) obtain t d1 where t: "Token d = Inr (t, d1)"
    by (auto split: if_splits sum.splits)
  with 2 Token_length [OF t] show ?case
    by (fastforce split: if_splits json_token.splits)
next
  case (4 n seen d k mx)
  show ?case
  proof (cases "More d")
    case True
    with 4(3) obtain key d1 d2 where t: "Token d = Inr (TString key, d1)"
        and v: "validateValue n d1 (k + 1) mx = Inr d2" and key: "key \<notin> set seen"
        and m: "validate_members n (key # seen) d2 k mx = Inr d'"
      by (auto split: if_splits sum.splits json_token.splits)
    from 4(1) [OF _ t refl refl key v] 4(2) [OF _ t refl refl key v m] Token_length [OF t] True show ?thesis
      by simp
  next
    case False
    with 4(3) close_value_length show ?thesis by simp
  qed
next
  case (6 n d k mx)
  show ?case
  proof (cases "More d")
    case True
    with 6(3) obtain d1 where v: "validateValue n d (k + 1) mx = Inr d1"
        and m: "validate_items n d1 k mx = Inr d'"
      by (auto split: sum.splits)
    from 6(1) [OF _ v] 6(2) [OF _ v m] True show ?thesis
      by simp
  next
    case False
    with 6(3) close_value_length show ?thesis by simp
  qed
qed simp_all

lemma validate_fuel:
  "2 * length (dec_rest d) + 1 \<le> n \<Longrightarrow> validateValue n d k mx \<noteq> Inl ErrFuel"
  "2 * length (dec_rest d) + 1 \<le> n \<Longrightarrow> validate_members n seen d k mx \<noteq> Inl ErrFuel"
  "2 * length (dec_rest d) + 2 \<le> n \<Longrightarrow> validate_items n d k mx \<noteq> Inl ErrFuel"
proof (induction n d k mx and n seen d k mx and n d k mx
    rule: validateValue_validate_members_validate_items.induct)
  case (2 n d k mx)
  show ?case
  proof (cases "Token d")
    case (Inr r)
    obtain t d1 where t: "Token d = Inr (t, d1)"
      using Inr by (cases r) simp
    show ?thesis
      using 2 Token_length [OF t] t by (auto split: json_token.splits)
  qed simp
next
  case (4 n seen d k mx)
  show ?case
  proof (cases "Token d")
    case (Inr r)
    obtain t d1 where t: "Token d = Inr (t, d1)"
      using Inr by (cases r) simp
    show ?thesis
    proof (cases "More d \<and> (\<exists>key. t = TString key \<and> key \<notin> set seen)")
      case True
      then obtain key where key: "t = TString key" "key \<notin> set seen" and more: "\<not> \<not> More d"
        by blast
      have len: "length (dec_rest d1) < length (dec_rest d)"
        by (rule Token_length [OF t])
      have "validateValue n d1 (k + 1) mx \<noteq> Inl ErrFuel"
        using 4(1) [OF more t refl key] 4(3) len by simp
      moreover have "validate_members n (key # seen) d2 k mx \<noteq> Inl ErrFuel"
          if "validateValue n d1 (k + 1) mx = Inr d2" for d2
        using 4(2) [OF more t refl key that] 4(3) len validate_length(1) [OF that] by simp
      ultimately show ?thesis
        using t key more by (auto split: sum.splits)
    qed (use t in \<open>auto split: json_token.splits\<close>)
  qed simp
next
  case (6 n d k mx)
  have "validate_items n d1 k mx \<noteq> Inl ErrFuel" if "validateValue n d (k + 1) mx = Inr d1" "More d" for d1
    using 6(2) [OF _ that(1)] that 6(3) validate_length(1) [OF that(1)] by simp
  with 6(1,3) show ?case
    by (auto split: sum.splits)
qed simp_all

subsection \<open>Validation and parsing agree\<close>

lemma validate_parse:
  "validateValue n d k mx = Inr d' \<longleftrightarrow> (\<exists>v. parseValue n d k mx = Inr (v, d') \<and> distinct_members v)"
  "validate_members n seen d k mx = Inr d' \<longleftrightarrow>
     (\<exists>ms. parse_members n d k mx = Inr (ms, d') \<and> (\<forall>m \<in> set ms. distinct_members (mem_Value m)) \<and>
           distinct (map mem_Name ms) \<and> set (map mem_Name ms) \<inter> set seen = {})"
  "validate_items n d k mx = Inr d' \<longleftrightarrow>
     (\<exists>vs. parse_items n d k mx = Inr (vs, d') \<and> (\<forall>v \<in> set vs. distinct_members v))"
proof (induction n d k mx and n seen d k mx and n d k mx
    arbitrary: d' and d' and d' rule: validateValue_validate_members_validate_items.induct)
  case (2 n d k mx)
  show ?case
  proof (cases "Token d")
    case (Inr r)
    obtain t d1 where t: "Token d = Inr (t, d1)"
      using Inr by (cases r) simp
    show ?thesis
    proof (cases "k > mx")
      case False
      show ?thesis
        using 2(1) [OF False t refl] 2(2) [OF False t refl] False t
        by (cases t) (auto split: sum.splits)
    qed simp
  qed auto
next
  case (4 n seen d k mx)
  show ?case
  proof (cases "More d")
    case False
    then show ?thesis by (auto split: sum.splits)
  next
    case more: True
    show ?thesis
    proof (cases "Token d")
      case (Inr r)
      obtain t d1 where t: "Token d = Inr (t, d1)"
        using Inr by (cases r) simp
      show ?thesis
      proof (cases "\<exists>key. t = TString key")
        case True
        then obtain key where key: "t = TString key" ..
        have "validate_members (Suc n) seen d k mx = Inr d' \<longleftrightarrow> key \<notin> set seen \<and>
            (\<exists>d2. validateValue n d1 (k + 1) mx = Inr d2 \<and> validate_members n (key # seen) d2 k mx = Inr d')"
          using more t key by (auto split: sum.splits)
        also have "\<dots> \<longleftrightarrow> key \<notin> set seen \<and> (\<exists>d2 v ms. parseValue n d1 (k + 1) mx = Inr (v, d2) \<and>
            distinct_members v \<and> parse_members n d2 k mx = Inr (ms, d') \<and>
            (\<forall>m \<in> set ms. distinct_members (mem_Value m)) \<and> distinct (map mem_Name ms) \<and>
            set (map mem_Name ms) \<inter> set (key # seen) = {})"
          using 4(1) [OF _ t refl key] 4(2) [OF _ t refl key] more
          by (intro conj_cong refl ex_cong1) blast
        also have "\<dots> \<longleftrightarrow> (\<exists>ms. parse_members (Suc n) d k mx = Inr (ms, d') \<and>
            (\<forall>m \<in> set ms. distinct_members (mem_Value m)) \<and> distinct (map mem_Name ms) \<and>
            set (map mem_Name ms) \<inter> set seen = {})"
          using more t key by (auto split: sum.splits)
        finally show ?thesis .
      next
        case False
        then show ?thesis using more t by (auto split: json_token.splits)
      qed
    qed (use more in auto)
  qed
next
  case (6 n d k mx)
  show ?case
  proof (cases "More d")
    case False
    then show ?thesis by (auto split: sum.splits)
  next
    case True
    then have "validate_items (Suc n) d k mx = Inr d' \<longleftrightarrow>
        (\<exists>d1. validateValue n d (k + 1) mx = Inr d1 \<and> validate_items n d1 k mx = Inr d')"
      by (auto split: sum.splits)
    also have "\<dots> \<longleftrightarrow> (\<exists>d1 v vs. parseValue n d (k + 1) mx = Inr (v, d1) \<and> distinct_members v \<and>
        parse_items n d1 k mx = Inr (vs, d') \<and> (\<forall>v \<in> set vs. distinct_members v))"
      using 6(1) 6(2) True by (intro ex_cong1) blast
    also have "\<dots> \<longleftrightarrow> (\<exists>vs. parse_items (Suc n) d k mx = Inr (vs, d') \<and> (\<forall>v \<in> set vs. distinct_members v))"
      using True by (auto split: sum.splits)
    finally show ?thesis .
  qed
qed simp_all

subsection \<open>What a parsed value respects\<close>

lemma parse_facts:
  "parseValue n d k mx = Inr (v, d') \<Longrightarrow>
     fits (mx - k) v \<and> (utf8_valid (dec_rest d) \<longrightarrow> valid_text v \<and> utf8_valid (dec_rest d'))"
  "parse_members n d k mx = Inr (ms, d') \<Longrightarrow>
     (\<forall>m \<in> set ms. fits (mx - (k + 1)) (mem_Value m)) \<and>
     (utf8_valid (dec_rest d) \<longrightarrow>
        (\<forall>m \<in> set ms. utf8_valid (mem_Name m) \<and> valid_text (mem_Value m)) \<and> utf8_valid (dec_rest d'))"
  "parse_items n d k mx = Inr (vs, d') \<Longrightarrow>
     (\<forall>v \<in> set vs. fits (mx - (k + 1)) v) \<and>
     (utf8_valid (dec_rest d) \<longrightarrow> (\<forall>v \<in> set vs. valid_text v) \<and> utf8_valid (dec_rest d'))"
proof (induction n d k mx and n d k mx and n d k mx
    arbitrary: v d' and ms d' and vs d' rule: parseValue_parse_members_parse_items.induct)
  case (2 n d k mx)
  then have le: "\<not> k > mx"
    by (auto split: if_splits)
  with 2(3) obtain t d1 where t: "Token d = Inr (t, d1)"
    by (auto split: sum.splits)
  note utf8 = Token_utf8 [OF t]
  show ?case
  proof (cases t)
    case (Delim c)
    show ?thesis
    proof (cases "c = CHR ''{''")
      case True
      with 2(3) le t Delim obtain ms where ms: "parse_members n d1 k mx = Inr (ms, d')" "v = ValueObject ms"
        by (auto split: sum.splits)
      from 2(1) [OF le t refl Delim True ms(1)] ms(2) le utf8 show ?thesis
        by (auto simp: algebra_simps)
    next
      case False
      with 2(3) le t Delim obtain vs where vs: "c = CHR ''[''" "parse_items n d1 k mx = Inr (vs, d')" "v = ValueArray vs"
        by (auto split: sum.splits if_splits)
      from 2(2) [OF le t refl Delim False vs(1,2)] vs(3) le utf8 show ?thesis
        by (auto simp: algebra_simps)
    qed
  qed (use 2(3) le t utf8 in \<open>auto simp: token_text_def\<close>)
next
  case (4 n d k mx)
  show ?case
  proof (cases "More d")
    case False
    with 4(3) obtain t where "Token d = Inr (t, d')" "ms = []"
      by (auto simp: close_value_def split: sum.splits)
    with Token_utf8 show ?thesis by auto
  next
    case True
    with 4(3) obtain name d1 x d2 ms' where t: "Token d = Inr (TString name, d1)"
        and x: "parseValue n d1 (k + 1) mx = Inr (x, d2)" and r: "parse_members n d2 k mx = Inr (ms', d')"
        and ms: "ms = Member name x # ms'"
      by (auto split: sum.splits json_token.splits)
    from 4(1) [OF _ t refl refl x] 4(2) [OF _ t refl refl x refl r] True Token_utf8 [OF t] ms show ?thesis
      by (auto simp: token_text_def)
  qed
next
  case (6 n d k mx)
  show ?case
  proof (cases "More d")
    case False
    with 6(3) obtain t where "Token d = Inr (t, d')" "vs = []"
      by (auto simp: close_value_def split: sum.splits)
    with Token_utf8 show ?thesis by auto
  next
    case True
    with 6(3) obtain x d1 vs' where x: "parseValue n d (k + 1) mx = Inr (x, d1)"
        and r: "parse_items n d1 k mx = Inr (vs', d')" and vs: "vs = x # vs'"
      by (auto split: sum.splits)
    from 6(1) [OF _ x] 6(2) [OF _ x refl r] True vs show ?thesis
      by auto
  qed
qed simp_all

subsection \<open>Tokens of an encoded value\<close>

abbreviation dec :: "string \<Rightarrow> token_state \<Rightarrow> token_state list \<Rightarrow> decoder" where
  "dec r st stk \<equiv> \<lparr>dec_rest = r, dec_state = st, dec_stack = stk\<rparr>"

definition value_start :: "char \<Rightarrow> bool" where
  "value_start c \<longleftrightarrow> c = CHR 0x22 \<or> c = CHR ''-'' \<or> json_digit c \<or> c \<in> {CHR ''n'', CHR ''t'', CHR ''f''}"

lemma value_start_facts:
  assumes "value_start c"
  shows "c \<notin> {CHR ''['', CHR '']'', CHR ''{'', CHR ''}'', CHR '':'', CHR '','', CHR '' '', CHR 0x09, CHR 0x0A, CHR 0x0D}"
  using assms by (auto simp: value_start_def json_digit_def decimal_digits_def)

lemma skip_space_id: "c \<notin> {CHR '' '', CHR 0x09, CHR 0x0A, CHR 0x0D} \<Longrightarrow> skip_space (c # cs) = c # cs"
  by (simp add: skip_space_def)

lemma Token_scalar:
  assumes "value_start c" and "tokenValueAllowed st" and "scan_scalar (c # cs) = Some (t, r)"
  shows "Token (dec (c # cs) st stk) = Inr (t, dec r (tokenValueEnd st) stk)"
proof -
  have "st \<noteq> tokenObjectStart" "st \<noteq> tokenObjectKey"
    using assms(2) by (auto simp: tokenValueAllowed_def)
  with assms value_start_facts [OF assms(1)] show ?thesis
    by (simp add: Token.simps [of "dec (c # cs) st stk"] skip_space_id)
qed

lemma Token_delims:
  "tokenValueAllowed st \<Longrightarrow> Token (dec (CHR ''['' # r) st stk) = Inr (Delim CHR ''['', dec r tokenArrayStart (st # stk))"
  "tokenValueAllowed st \<Longrightarrow> Token (dec (CHR ''{'' # r) st stk) = Inr (Delim CHR ''{'', dec r tokenObjectStart (st # stk))"
  "st = tokenArrayStart \<or> st = tokenArrayComma \<Longrightarrow>
     Token (dec (CHR '']'' # r) st (outer # stk)) = Inr (Delim CHR '']'', dec r (tokenValueEnd outer) stk)"
  "st = tokenObjectStart \<or> st = tokenObjectComma \<Longrightarrow>
     Token (dec (CHR ''}'' # r) st (outer # stk)) = Inr (Delim CHR ''}'', dec r (tokenValueEnd outer) stk)"
  "Token (dec (CHR '','' # r) tokenArrayComma stk) = Token (dec r tokenArrayValue stk)"
  "Token (dec (CHR '','' # r) tokenObjectComma stk) = Token (dec r tokenObjectKey stk)"
  "Token (dec (CHR '':'' # r) tokenObjectColon stk) = Token (dec r tokenObjectValue stk)"
  by (auto simp: Token.simps [of "dec (_ # r) st stk" for st] Token.simps [of "dec (_ # r) st (outer # stk)" for st]
      skip_space_id open_delim_def close_delim_def)

lemma Token_key:
  assumes "utf8_valid name" and "st = tokenObjectStart \<or> st = tokenObjectKey"
  shows "Token (dec (json_string name @ r) st stk) = Inr (TString name, dec r tokenObjectColon stk)"
proof -
  have "json_string name @ r = CHR 0x22 # json_escape name @ CHR 0x22 # r"
    by (simp add: json_string_def)
  with assms string_body_json_escape [OF assms(1), of r] show ?thesis
    by (auto simp: Token.simps [of "dec (CHR 0x22 # cs) st stk" for cs st] skip_space_id)
qed

lemma parseValue_Token: "Token d = Token d' \<Longrightarrow> parseValue n d k mx = parseValue n d' k mx"
  by (cases n) simp_all

lemma More_start: "c \<notin> {CHR '' '', CHR 0x09, CHR 0x0A, CHR 0x0D} \<Longrightarrow>
    More (dec (c # cs) st stk) \<longleftrightarrow> c \<noteq> CHR '']'' \<and> c \<noteq> CHR ''}''"
  by (simp add: More_def skip_space_id)

lemma scan_number_head:
  assumes "scan_number (c # cs) = Some (v, r)"
  shows "c = CHR ''-'' \<or> json_digit c"
proof (cases "c = CHR ''-''")
  case False
  with assms have "scan_unsigned (c # cs) = Some (v, r)"
    by (simp add: scan_number_def)
  then obtain a x where i: "scan_integer (c # cs) = Some (a, x)"
    by (auto simp: scan_unsigned_def then_scan_def split: option.splits)
  from scan_heads(3) [OF i] scan_split(1) [OF i] show ?thesis
    by (cases a) auto
qed simp

text \<open>A scalar of the encoder is one token.\<close>

definition scalar :: "Value \<Rightarrow> bool" where
  "scalar v = (case v of ValueObject _ \<Rightarrow> False | ValueArray _ \<Rightarrow> False | _ \<Rightarrow> True)"

lemma scalar_token:
  assumes "scalar v" and "valid_text v" and "appendCompact v = Inr s" and "num_stop r"
  obtains c cs t where "s = c # cs" "value_start c" "scan_scalar (s @ r) = Some (t, r)"
    and "\<And>n d d' k mx. Token d = Inr (t, d') \<Longrightarrow> k \<le> mx \<Longrightarrow> parseValue (Suc n) d k mx = Inr (v, d')"
proof (cases v)
  case ValueNull
  with assms(3) show thesis
    by (intro that [of "CHR ''n''" "''ull''" TNull])
      (auto simp: value_start_def scan_scalar_def json_digit_def decimal_digits_def HasPrefix_def)
next
  case (ValueBoolean b)
  with assms(3) show thesis
    by (cases b; intro that [of "hd s" "tl s" "TBool b"])
      (auto simp: value_start_def scan_scalar_def json_digit_def decimal_digits_def HasPrefix_def)
next
  case (ValueString x)
  with assms(3) have s: "s = json_string x" and x: "utf8_valid x"
    by (auto split: if_splits)
  have "scan_scalar (s @ r) = Some (TString x, r)"
    using string_body_json_escape [OF x, of r] by (simp add: s json_string_def scan_scalar_def)
  with ValueString s show thesis
    by (intro that [of "CHR 0x22" "json_escape x @ [CHR 0x22]" "TString x"])
      (auto simp: json_string_def value_start_def)
next
  case (ValueNumber x)
  with assms(2,3) have s: "s = x" and x: "scan_number x = Some (x, [])"
    by (auto split: if_splits)
  from scan_number_split [OF x] obtain c cs where c: "x = c # cs"
    by (cases x) auto
  with x have "c = CHR ''-'' \<or> json_digit c" "c \<noteq> CHR 0x22"
    using scan_number_head [of c cs] by (auto simp: json_digit_def decimal_digits_def)
  moreover from this have "scan_scalar (s @ r) = Some (TNumber x, r)"
    using scan_number_trunc [OF x assms(4)] by (simp add: s c scan_scalar_def)
  ultimately show thesis
    using ValueNumber s c by (intro that [of c cs "TNumber x"]) (auto simp: value_start_def)
qed (use assms(1) in \<open>simp_all add: scalar_def\<close>)

subsection \<open>Encoding and parsing back\<close>

lemma append_ok:
  "valid_text v \<Longrightarrow> distinct_members v \<Longrightarrow> is_ok (appendCompact v)"
  "\<forall>m \<in> set ms. utf8_valid (mem_Name m) \<and> valid_text (mem_Value m) \<and> distinct_members (mem_Value m) \<Longrightarrow>
     distinct (map mem_Name ms) \<Longrightarrow> set (map mem_Name ms) \<inter> set seen = {} \<Longrightarrow>
     is_ok (append_members seen comma ms)"
  "\<forall>v \<in> set vs. valid_text v \<and> distinct_members v \<Longrightarrow> is_ok (append_items comma vs)"
proof (induction v and seen comma ms and comma vs rule: appendCompact_append_members_append_items.induct)
  case (4 s)
  then have num: "scan_number s = Some (s, [])"
    by simp
  then obtain c cs where s: "s = c # cs"
    using scan_number_split by (cases s) auto
  have "c = CHR ''-'' \<or> json_digit c"
    using num scan_number_head unfolding s by blast
  then have "\<not> (c \<noteq> CHR ''-'' \<and> (c < CHR ''0'' \<or> c > CHR ''9''))"
    by (auto simp: json_digit_def decimal_digits_def)
  with num show ?case
    by (simp add: validNumberToken_def s skip_space_def)
next
  case (8 seen comma name v ms)
  then have "is_ok (appendCompact v)" by simp
  then obtain out where out: "appendCompact v = Inr out" by (cases "appendCompact v") simp_all
  have "name \<notin> set seen" "utf8_valid name"
    using 8(3,5) by auto
  moreover from this have "is_ok (append_members (name # seen) True ms)"
    using 8(2) [OF _ _ out] 8(3-5) by simp
  then obtain rest where "append_members (name # seen) True ms = Inr rest"
    by (cases "append_members (name # seen) True ms") simp_all
  ultimately show ?case
    using out by simp
next
  case (10 comma v vs)
  then have "is_ok (appendCompact v)" by simp
  then obtain out where out: "appendCompact v = Inr out" by (cases "appendCompact v") simp_all
  with 10(2) [OF out] 10(3) have "is_ok (append_items True vs)" by simp
  then obtain rest where "append_items True vs = Inr rest" by (cases "append_items True vs") simp_all
  with out show ?case by simp
qed (auto split: sum.splits)

lemma append_head:
  "appendCompact v = Inr s \<Longrightarrow> valid_text v \<Longrightarrow>
     \<exists>c cs. s = c # cs \<and> (value_start c \<or> c = CHR ''['' \<or> c = CHR ''{'')"
proof (cases "scalar v")
  case True
  assume "appendCompact v = Inr s" "valid_text v"
  from scalar_token [OF True this(2,1), of "[]"] show ?thesis
    by (metis num_stop_def)
next
  case False
  then show "appendCompact v = Inr s \<Longrightarrow> valid_text v \<Longrightarrow> ?thesis"
    by (cases v) (auto simp: scalar_def split: sum.splits)
qed

lemma append_comma:
  "append_items True vs = Inr out \<Longrightarrow> out = [] \<or> hd out = CHR '',''"
  "append_members seen True ms = Inr out \<Longrightarrow> out = [] \<or> hd out = CHR '',''"
  by (cases vs; auto split: sum.splits) (cases ms; cases "hd ms"; auto split: sum.splits if_splits)

lemma num_stop_rest:
  "out = [] \<or> hd out = CHR '','' \<Longrightarrow> num_stop (out @ CHR '']'' # r)"
  "out = [] \<or> hd out = CHR '','' \<Longrightarrow> num_stop (out @ CHR ''}'' # r)"
  by (cases out; simp add: num_stop_def)+

lemma parse_back_scalar:
  assumes "scalar v" and "appendCompact v = Inr s" and "valid_text v" and "fits (mx - k) v"
    and "tokenValueAllowed st" and "num_stop r" and "1 \<le> n"
  shows "parseValue n (dec (s @ r) st stk) k mx = Inr (v, dec r (tokenValueEnd st) stk)"
proof -
  obtain c cs t where s: "s = c # cs" "value_start c" "scan_scalar (s @ r) = Some (t, r)"
    and v: "\<And>n d d' k mx. Token d = Inr (t, d') \<Longrightarrow> k \<le> mx \<Longrightarrow> parseValue (Suc n) d k mx = Inr (v, d')"
    using scalar_token [OF assms(1,3,2,6)] by metis
  have "Token (dec (s @ r) st stk) = Inr (t, dec r (tokenValueEnd st) stk)"
    using Token_scalar [OF s(2) assms(5), of "cs @ r" t r stk] s(1,3) by simp
  moreover have "k \<le> mx"
    using assms(1,4) by (cases v) (simp_all add: scalar_def)
  ultimately show ?thesis
    using v assms(7) by (cases n) simp_all
qed

lemma parse_items_close:
  "1 \<le> n \<Longrightarrow> st = tokenArrayStart \<or> st = tokenArrayComma \<Longrightarrow>
   parse_items n (dec (CHR '']'' # r) st (outer # stk)) k mx = Inr ([], dec r (tokenValueEnd outer) stk)"
  "1 \<le> n \<Longrightarrow> st' = tokenObjectStart \<or> st' = tokenObjectComma \<Longrightarrow>
   parse_members n (dec (CHR ''}'' # r) st' (outer # stk)) k mx = Inr ([], dec r (tokenValueEnd outer) stk)"
  by (cases n; simp add: More_start close_value_def Token_delims)+

lemma parse_back:
  "appendCompact v = Inr s \<Longrightarrow> valid_text v \<Longrightarrow> fits (mx - k) v \<Longrightarrow> tokenValueAllowed st \<Longrightarrow>
     num_stop r \<Longrightarrow> 2 * length s + 1 \<le> n \<Longrightarrow>
     parseValue n (dec (s @ r) st stk) k mx = Inr (v, dec r (tokenValueEnd st) stk)"
  "append_members seen comma ms = Inr s \<Longrightarrow>
     \<forall>m \<in> set ms. valid_text (mem_Value m) \<and> fits (mx - (k + 1)) (mem_Value m) \<Longrightarrow> 2 * length s + 2 \<le> n \<Longrightarrow>
     parse_members n (dec (s @ CHR ''}'' # r) (if comma then tokenObjectComma else tokenObjectStart) (st # stk)) k mx =
       Inr (ms, dec r (tokenValueEnd st) stk)"
  "append_items comma vs = Inr s \<Longrightarrow>
     \<forall>v \<in> set vs. valid_text v \<and> fits (mx - (k + 1)) v \<Longrightarrow> 2 * length s + 2 \<le> n \<Longrightarrow>
     parse_items n (dec (s @ CHR '']'' # r) (if comma then tokenArrayComma else tokenArrayStart) (st # stk)) k mx =
       Inr (vs, dec r (tokenValueEnd st) stk)"
proof (induction v and seen comma ms and comma vs
    arbitrary: s k st r n stk and s k st r n stk and s k st r n stk
    rule: appendCompact_append_members_append_items.induct)
  case (5 ms)
  then obtain out where out: "append_members [] False ms = Inr out" "s = ''{'' @ out @ ''}''"
    by (auto split: sum.splits)
  from 5(7) out(2) obtain n' where n: "n = Suc n'" "2 * length out + 2 \<le> n'"
    by (cases n) auto
  have "\<forall>m \<in> set ms. valid_text (mem_Value m) \<and> fits (mx - (k + 1)) (mem_Value m)"
    using 5(3,4) by (simp add: algebra_simps)
  from 5(1) [OF out(1) this n(2)] 5(4,5) show ?case
    by (simp add: n(1) out(2) Token_delims)
next
  case (6 vs)
  then obtain out where out: "append_items False vs = Inr out" "s = ''['' @ out @ '']''"
    by (auto split: sum.splits)
  from 6(7) out(2) obtain n' where n: "n = Suc n'" "2 * length out + 2 \<le> n'"
    by (cases n) auto
  have "\<forall>v \<in> set vs. valid_text v \<and> fits (mx - (k + 1)) v"
    using 6(3,4) by (simp add: algebra_simps)
  from 6(1) [OF out(1) this n(2)] 6(4,5) show ?case
    by (simp add: n(1) out(2) Token_delims)
next
  case (7 seen comma)
  then show ?case by (cases comma) (simp_all add: parse_items_close)
next
  case (9 comma)
  then show ?case by (cases comma) (simp_all add: parse_items_close)
next
  case (8 seen comma name v ms)
  then obtain out rest where name: "utf8_valid name" "\<not> name \<in> set seen"
    and out: "appendCompact v = Inr out" and rest: "append_members (name # seen) True ms = Inr rest"
    and s: "s = (if comma then '','' else []) @ json_string name @ '':'' @ out @ rest"
    by (auto split: sum.splits if_splits)
  from 8(5) s obtain n' where n: "n = Suc n'" "2 * length out + 1 \<le> n'" "2 * length rest + 2 \<le> n'"
    by (cases n) (auto simp: json_string_def)
  let ?tail = "rest @ CHR ''}'' # r"
  have key: "Token (dec (s @ CHR ''}'' # r) (if comma then tokenObjectComma else tokenObjectStart) (st # stk)) =
      Inr (TString name, dec (CHR '':'' # out @ ?tail) tokenObjectColon (st # stk))"
    using Token_key [OF name(1), of _ "CHR '':'' # out @ ?tail" "st # stk"]
    by (cases comma) (simp_all add: s Token_delims)
  have more: "More (dec (s @ CHR ''}'' # r) (if comma then tokenObjectComma else tokenObjectStart) (st # stk))"
    by (cases comma) (simp_all add: s json_string_def More_start)
  have "parseValue n' (dec (CHR '':'' # out @ ?tail) tokenObjectColon (st # stk)) (k + 1) mx =
      parseValue n' (dec (out @ ?tail) tokenObjectValue (st # stk)) (k + 1) mx"
    by (rule parseValue_Token) (simp add: Token_delims)
  also have "\<dots> = Inr (v, dec ?tail tokenObjectComma (st # stk))"
    using 8(1) [OF _ _ out, of "k + 1" tokenObjectValue ?tail n' "st # stk"] name 8(4) n(2)
      num_stop_rest(2) [OF append_comma(2) [OF rest]]
    by (simp add: tokenValueAllowed_def)
  finally show ?case
    using 8(2) [OF _ _ out rest, of k n' r st stk] name 8(4) n key more
    by simp
next
  case (10 comma v vs)
  then obtain out rest where out: "appendCompact v = Inr out" and rest: "append_items True vs = Inr rest"
    and s: "s = (if comma then '','' else []) @ out @ rest"
    by (auto split: sum.splits)
  from append_head [OF out] 10(4) obtain c cs where c: "out = c # cs" "value_start c \<or> c = CHR ''['' \<or> c = CHR ''{''"
    by auto
  from 10(5) s c(1) obtain n' where n: "n = Suc n'" "2 * length out + 1 \<le> n'" "2 * length rest + 2 \<le> n'"
    by (cases n) auto
  let ?tail = "rest @ CHR '']'' # r"
  have more: "More (dec (s @ CHR '']'' # r) (if comma then tokenArrayComma else tokenArrayStart) (st # stk))"
    using c(2) value_start_facts [of c] by (cases comma) (auto simp: s c(1) More_start)
  have "parseValue n' (dec (s @ CHR '']'' # r) (if comma then tokenArrayComma else tokenArrayStart) (st # stk)) (k + 1) mx =
      parseValue n' (dec (out @ ?tail) (if comma then tokenArrayValue else tokenArrayStart) (st # stk)) (k + 1) mx"
    by (rule parseValue_Token) (simp add: s Token_delims)
  also have "\<dots> = Inr (v, dec ?tail tokenArrayComma (st # stk))"
    using 10(1) [OF out, of "k + 1" "if comma then tokenArrayValue else tokenArrayStart" ?tail n' "st # stk"] 10(4) n(2)
      num_stop_rest(1) [OF append_comma(1) [OF rest]]
    by (simp add: tokenValueAllowed_def)
  finally show ?case
    using 10(2) [OF out rest, of k n' r st stk] 10(4) n more
    by simp
qed (use parse_back_scalar parse_items_close in \<open>simp_all add: scalar_def split del: if_split\<close>)

lemma escape_byte_ascii: "byte_val c < (128 :: nat) \<Longrightarrow> is_ascii (escape_byte c)"
proof -
  have "list_all (\<lambda>c. byte_val c < (128 :: nat)) hex_digits" "length hex_digits = 16"
    by (simp_all add: hex_digits_def)
  then have "byte_val (lower_hex n) < (128 :: nat)" for n
    by (simp add: lower_hex_def list_all_length)
  then show "byte_val c < (128 :: nat) \<Longrightarrow> ?thesis"
    by (simp add: escape_byte_def is_ascii_def backslash_def)
qed

lemma json_escape_utf8: "utf8_valid s \<Longrightarrow> utf8_valid (json_escape s)"
proof (induction s rule: json_escape.induct)
  case (2 c cs)
  show ?case
  proof (cases "byte_val c < (128 :: nat)")
    case True
    with 2 utf8_valid_append [OF utf8_valid_ascii [OF escape_byte_ascii]] show ?thesis
      by simp
  next
    case False
    let ?n = "utf8_size (c # cs)"
    have v: "?n \<noteq> 0" "utf8_valid (drop ?n (c # cs))"
      using 2(6) utf8_valid_step [of c cs] by blast+
    have u: "utf8_valid (backslash # ''u2028'')" "utf8_valid (backslash # ''u2029'')"
      by (simp_all add: backslash_def)
    have e: "utf8_valid (json_escape (drop ?n (c # cs)))"
      using 2(3-5) False v by metis
    have "json_escape (c # cs) \<in> (\<lambda>p. p @ json_escape (drop ?n (c # cs))) `
        {backslash # ''u2028'', backslash # ''u2029'', take ?n (c # cs)}"
      using False v(1) by (simp only: json_escape.simps Let_def if_False) (auto simp: image_iff)
    then obtain p where p: "json_escape (c # cs) = p @ json_escape (drop ?n (c # cs))"
        "p \<in> {backslash # ''u2028'', backslash # ''u2029'', take ?n (c # cs)}"
      by blast
    then have "utf8_valid p"
      using u utf8_valid_rune [OF v(1)] by blast
    with e show ?thesis
      unfolding p(1) by (simp only: utf8_valid_append)
  qed
qed simp

lemma json_string_utf8: "utf8_valid s \<Longrightarrow> utf8_valid (json_string s)"
  by (simp add: json_string_def utf8_valid_append json_escape_utf8)

lemma append_utf8:
  "appendCompact v = Inr s \<Longrightarrow> valid_text v \<Longrightarrow> utf8_valid s"
  "append_members seen comma ms = Inr s \<Longrightarrow> \<forall>m \<in> set ms. valid_text (mem_Value m) \<Longrightarrow> utf8_valid s"
  "append_items comma vs = Inr s \<Longrightarrow> \<forall>v \<in> set vs. valid_text v \<Longrightarrow> utf8_valid s"
proof (induction v and seen comma ms and comma vs arbitrary: s and s and s
    rule: appendCompact_append_members_append_items.induct)
  case (4 x)
  then have "s = x" "scan_number x = Some (x, [])"
    by (simp_all split: if_splits)
  with utf8_valid_ascii [OF scan_number_ascii] show ?case by blast
next
  case (8 seen comma name v ms)
  obtain out rest where name: "utf8_valid name" "\<not> name \<in> set seen"
    and out: "appendCompact v = Inr out" and rest: "append_members (name # seen) True ms = Inr rest"
    and s: "s = (if comma then '','' else []) @ json_string name @ '':'' @ out @ rest"
    using 8(3) by (simp split: sum.splits if_splits)
  have "utf8_valid out" "utf8_valid rest"
    using 8(1) [OF _ name(2) out] 8(2) [OF _ name(2) out rest] 8(4) name(1) by simp_all
  then have "utf8_valid ('':'' @ out @ rest)"
    by (simp add: utf8_valid_append)
  then have "utf8_valid (json_string name @ '':'' @ out @ rest)"
    by (simp only: utf8_valid_append [OF json_string_utf8 [OF name(1)]])
  then show ?case
    unfolding s by (cases comma) (simp_all add: utf8_valid_append)
next
  case (10 comma v vs)
  then obtain out rest where out: "appendCompact v = Inr out" and rest: "append_items True vs = Inr rest"
    and s: "s = (if comma then '','' else []) @ out @ rest"
    by (auto split: sum.splits)
  have "utf8_valid out" "utf8_valid rest"
    using 10(1) [OF out] 10(2) [OF out rest] 10(4) by simp_all
  then have "utf8_valid (out @ rest)"
    by (simp only: utf8_valid_append)
  then show ?case
    unfolding s by (cases comma) simp_all
qed (auto simp: json_string_utf8 utf8_valid_append split: sum.splits if_splits)

lemma ParseValue_Inr_iff:
  "ParseValue s opts = Inr v \<longleftrightarrow>
     1 \<le> MaxBytes opts \<and> 1 \<le> MaxDepth opts \<and> int (length s) \<le> MaxBytes opts \<and> utf8_valid s \<and>
     distinct_members v \<and>
     (\<exists>d. parseValue (fuel_for s) (NewDecoder s) 0 (MaxDepth opts) = Inr (v, d) \<and> Token d = Inl TokenEOF)"
proof -
  have "validate s mx = Inr () \<longleftrightarrow>
      (\<exists>v d. parseValue (fuel_for s) (NewDecoder s) 0 mx = Inr (v, d) \<and> distinct_members v \<and>
             Token d = Inl TokenEOF)" for mx
  proof (cases "validateValue (fuel_for s) (NewDecoder s) 0 mx")
    case (Inl e)
    with validate_parse(1) [of "fuel_for s" "NewDecoder s" 0 mx] show ?thesis
      by (auto simp: validate_def)
  next
    case (Inr b)
    then obtain v where "parseValue (fuel_for s) (NewDecoder s) 0 mx = Inr (v, b)" "distinct_members v"
      using validate_parse(1) [of "fuel_for s" "NewDecoder s" 0 mx] by blast
    with Inr show ?thesis by (simp add: validate_def)
  qed
  from this [of "MaxDepth opts"] show ?thesis
    unfolding ParseValue_def
    by (cases "validate s (MaxDepth opts)") (auto split: sum.splits)
qed

lemma encoded_parses:
  assumes "valid_text v" and "distinct_members v" and "fits (MaxDepth options) v"
    and "1 \<le> MaxDepth options"
  shows "\<exists>s. EncodeCompact v = Inr s \<and>
     (int (length s) \<le> MaxBytes options \<longrightarrow> ParseValue s options = Inr v)"
proof -
  from append_ok(1) [OF assms(1,2)] obtain s where s: "appendCompact v = Inr s"
    by (cases "appendCompact v") simp_all
  have "s \<noteq> []"
    using append_head [OF s assms(1)] by auto
  moreover have "parseValue (fuel_for s) (dec (s @ []) tokenTopValue []) 0 (MaxDepth options) =
      Inr (v, dec [] (tokenValueEnd tokenTopValue) [])"
    using s assms(1,3)
    by (intro parse_back) (simp_all add: tokenValueAllowed_def num_stop_def fuel_for_def)
  moreover have "Token (dec [] tokenTopValue []) = Inl TokenEOF"
    by (simp add: Token.simps [of "dec [] tokenTopValue []"] skip_space_def)
  ultimately have "int (length s) \<le> MaxBytes options \<Longrightarrow> ParseValue s options = Inr v"
    using assms append_utf8(1) [OF s assms(1)]
    by (cases s) (auto simp: ParseValue_Inr_iff NewDecoder_def)
  with s show ?thesis
    by (auto simp: EncodeCompact_def)
qed

subsection \<open>Properties\<close>

text \<open>
  C30: The bounded JSON parser ends on every input: the fuel of the model is never exhausted, so every
  outcome is a value or one of the source's errors.
\<close>

theorem parse_value_total: "ParseValue contents options \<noteq> Inl ErrFuel"
proof -
  have len: "2 * length (dec_rest (NewDecoder contents)) + 1 \<le> fuel_for contents"
    by (simp add: NewDecoder_def fuel_for_def)
  have v: "validate contents mx \<noteq> Inl ErrFuel" for mx
    using validate_fuel(1) [OF len, of 0 mx] by (auto simp: validate_def split: sum.splits)
  have "parseValue (fuel_for contents) (NewDecoder contents) 0 mx \<noteq> Inl ErrFuel"
      if "validate contents mx = Inr ()" for mx
  proof -
    from that obtain d where "validateValue (fuel_for contents) (NewDecoder contents) 0 mx = Inr d"
      by (auto simp: validate_def split: sum.splits)
    then show ?thesis
      using validate_parse(1) by force
  qed
  with v show ?thesis
    by (auto simp: ParseValue_def split: sum.splits)
qed

definition sample_value :: Value where
  "sample_value = ValueObject [Member ''a'' (ValueArray [ValueNumber ''-1.5e3'', ValueBoolean True]),
     Member ''b'' (ValueString ''<x>'')]"

definition sample_options :: Options where
  "sample_options = \<lparr>MaxBytes = 64, MaxDepth = 3, RejectUnknownMembers = False\<rparr>"

definition sample_text :: string where
  "sample_text = ''{'' @ json_string ''a'' @ '':[-1.5e3,true],'' @ json_string ''b'' @ '':'' @ json_string ''<x>'' @ ''}''"

lemma sample_encoded: "EncodeCompact sample_value = Inr sample_text"
  by code_simp

lemma sample_wf:
  "valid_text sample_value" "distinct_members sample_value" "fits (MaxDepth sample_options) sample_value"
  "1 \<le> MaxDepth sample_options" "int (length sample_text) \<le> MaxBytes sample_options"
  by code_simp+

text \<open>
  C18: Every value the parser accepts repeats no member name at any level, nests no deeper than the configured
  limit, carries valid UTF-8 and exact number tokens, and was read from an input within the byte
  limit.
\<close>

theorem parse_value_bounds:
  assumes "ParseValue contents options = Inr v"
  shows "distinct_members v \<and> fits (MaxDepth options) v \<and> valid_text v \<and>
    int (length contents) \<le> MaxBytes options"
proof -
  from assms obtain d where p: "parseValue (fuel_for contents) (NewDecoder contents) 0 (MaxDepth options) = Inr (v, d)"
      and "utf8_valid contents" "distinct_members v" "int (length contents) \<le> MaxBytes options"
    by (auto simp: ParseValue_Inr_iff)
  with parse_facts(1) [OF p] show ?thesis
    by (simp add: NewDecoder_def)
qed

theorem parse_value_bounds_witness:
  "ParseValue ''[1,[true]] '' sample_options = Inr (ValueArray [ValueNumber ''1'', ValueArray [ValueBoolean True]]) \<and>
   fits 3 (ValueArray [ValueNumber ''1'', ValueArray [ValueBoolean True]])"
proof -
  have p: "ParseValue ''[1,[true]] '' sample_options =
      Inr (ValueArray [ValueNumber ''1'', ValueArray [ValueBoolean True]])"
    by code_simp
  with parse_value_bounds [OF p] show ?thesis
    by (simp add: sample_options_def)
qed

text \<open>
  C16: Encoding and parsing are inverse: a value with valid text, no repeated member and admissible nesting
  encodes, and whenever the encoding is within the byte limit it parses back to exactly that value.
\<close>

theorem encode_parse_roundtrip:
  assumes "valid_text v" and "distinct_members v" and "fits (MaxDepth options) v"
    and "1 \<le> MaxDepth options"
  shows "\<exists>s. EncodeCompact v = Inr s \<and>
     (int (length s) \<le> MaxBytes options \<longrightarrow> ParseValue s options = Inr v)"
  by (rule encoded_parses [OF assms])

theorem encode_parse_roundtrip_witness: "ParseValue sample_text sample_options = Inr sample_value"
  using encode_parse_roundtrip [OF sample_wf(1-4)] sample_encoded sample_wf(5) by simp

end
