(* ===== verification/Access_Target.thy ===== *)
theory Access_Target
  imports Go_Strings
begin

text \<open>
  \<open>internal/accesstarget/mcp.go\<close>: the scope of an MCP access rule, an immutable server and either
  its whole tool set (no upstream name) or one exact upstream tool. \<open>Covers\<close> is a preorder, indeed
  a partial order, and \<open>Overlaps\<close> is exactly the existence of a common target.
\<close>

record MCP =
  ServerID :: string
  UpstreamName :: "string option"

definition Tool :: "string \<Rightarrow> string \<Rightarrow> MCP" where
  "Tool serverID upstreamName = \<lparr>ServerID = serverID, UpstreamName = Some upstreamName\<rparr>"

definition ToolName :: "MCP \<Rightarrow> string" where
  "ToolName target = (case UpstreamName target of None \<Rightarrow> [] | Some n \<Rightarrow> n)"

definition Covers :: "MCP \<Rightarrow> MCP \<Rightarrow> bool" where
  "Covers target other \<longleftrightarrow>
     ServerID target = ServerID other \<and>
     (UpstreamName target = None \<or>
      (UpstreamName other \<noteq> None \<and> UpstreamName target = UpstreamName other))"

definition Overlaps :: "MCP \<Rightarrow> MCP \<Rightarrow> bool" where
  "Overlaps target other \<longleftrightarrow> Covers target other \<or> Covers other target"

lemma Covers_refl [simp]: "Covers t t"
  by (cases "UpstreamName t") (simp_all add: Covers_def)

lemma Covers_trans: "Covers a b \<Longrightarrow> Covers b c \<Longrightarrow> Covers a c"
  by (auto simp: Covers_def)

lemma Covers_antisym: "Covers a b \<Longrightarrow> Covers b a \<Longrightarrow> a = b"
  by (cases a; cases b) (auto simp: Covers_def)

lemma Overlaps_sym: "Overlaps a b \<longleftrightarrow> Overlaps b a"
  by (auto simp: Overlaps_def)

lemma Overlaps_iff_common: "Overlaps a b \<longleftrightarrow> (\<exists>c. Covers a c \<and> Covers b c)"
proof
  assume "Overlaps a b"
  then show "\<exists>c. Covers a c \<and> Covers b c"
    unfolding Overlaps_def by (meson Covers_refl)
next
  assume "\<exists>c. Covers a c \<and> Covers b c"
  then obtain c where "Covers a c" "Covers b c" by blast
  then show "Overlaps a b"
    by (auto simp: Overlaps_def Covers_def)
qed

lemma Tool_simps [simp]:
  "ServerID (Tool s n) = s" "UpstreamName (Tool s n) = Some n" "ToolName (Tool s n) = n"
  by (simp_all add: Tool_def ToolName_def)

end
