(* ===== verification/Event_Hub.thy ===== *)
theory Event_Hub
  imports Prelude Contract_Values
begin

text \<open>
  \<open>internal/events/hub.go\<close>: bounded best-effort delivery of invalidations to event streams, and the
  vocabulary and values of \<open>internal/contract/states.go\<close> and \<open>types.go\<close> it carries. Every method runs
  under the hub's mutex, so each is one atomic step of a relation; the timer's expiry and the
  subscriber's receive are steps of their own. The order in which Go iterates over the map of streams
  is a parameter \<open>ord\<close>.

  Subscriptions outlive their place in the hub: \<open>hub_subs\<close> holds every subscription object ever
  created, with its buffered events and how often its channels were closed (a second \<open>close\<close> panics).
  The identifiers are 64-bit words; the step relation lets a subscription be opened only while the
  counter has not reached its last value.
\<close>

datatype InvalidationKind =
  InvalidationAdminCredentials
  | InvalidationSystemStatus
  | InvalidationServers
  | InvalidationServerOperations
  | InvalidationServerAuthFlows
  | InvalidationCatalog
  | InvalidationAuthorization
  | InvalidationGrantRequests
  | InvalidationHTTPCredentials
  | InvalidationInvocations

fun InvalidationKind_string :: "InvalidationKind \<Rightarrow> string" where
  "InvalidationKind_string InvalidationAdminCredentials = ''admin_credentials''"
| "InvalidationKind_string InvalidationSystemStatus = ''system_status''"
| "InvalidationKind_string InvalidationServers = ''servers''"
| "InvalidationKind_string InvalidationServerOperations = ''server_operations''"
| "InvalidationKind_string InvalidationServerAuthFlows = ''server_auth_flows''"
| "InvalidationKind_string InvalidationCatalog = ''catalog''"
| "InvalidationKind_string InvalidationAuthorization = ''authorization''"
| "InvalidationKind_string InvalidationGrantRequests = ''grant_requests''"
| "InvalidationKind_string InvalidationHTTPCredentials = ''http_credentials''"
| "InvalidationKind_string InvalidationInvocations = ''invocations''"

definition InvalidationKinds :: "InvalidationKind list" where
  "InvalidationKinds =
     [InvalidationAdminCredentials, InvalidationSystemStatus, InvalidationServers, InvalidationServerOperations,
      InvalidationServerAuthFlows, InvalidationCatalog, InvalidationAuthorization, InvalidationInvocations,
      InvalidationGrantRequests, InvalidationHTTPCredentials]"

record Invalidation =
  inv_Kind :: InvalidationKind
  inv_ResourceID :: "string option"

record LimitStatus =
  ls_InUse :: int
  ls_Limit :: int
  ls_Saturated :: bool

datatype hub_error = ErrStreamLimit | ErrShuttingDown

datatype timer_state = NoTimer | Armed | Fired | Stopped

record Subscription =
  sub_credentialID :: string
  sub_events :: "Invalidation list"
  sub_closes :: nat

record Hub =
  hub_streams :: "u64 set"
  hub_subs :: "u64 \<rightharpoonup> Subscription"
  hub_nextID :: u64
  hub_limit :: int
  hub_buffer :: nat
  hub_shutting :: bool
  hub_coalesced :: "InvalidationKind \<rightharpoonup> u64"
  hub_timer :: timer_state
  hub_timerWork :: nat

definition NewHub :: Hub where
  "NewHub =
     \<lparr>hub_streams = {}, hub_subs = Map.empty, hub_nextID = 0, hub_limit = mustLimit ''event_streams'',
      hub_buffer = nat (mustLimit ''event_buffered_invalidations''), hub_shutting = False,
      hub_coalesced = Map.empty, hub_timer = NoTimer, hub_timerWork = 0\<rparr>"

subsection \<open>Operations\<close>

definition closeLocked :: "u64 \<Rightarrow> Hub \<Rightarrow> Hub" where
  "closeLocked i hub =
     (if i \<notin> hub_streams hub then hub
      else hub\<lparr>hub_streams := hub_streams hub - {i},
               hub_subs := (hub_subs hub)(i := map_option (\<lambda>s. s\<lparr>sub_closes := Suc (sub_closes s)\<rparr>) (hub_subs hub i))\<rparr>)"

definition Subscribe :: "string \<Rightarrow> Hub \<Rightarrow> (hub_error + u64) \<times> Hub" where
  "Subscribe credentialID hub =
     (if hub_shutting hub then (Inl ErrShuttingDown, hub)
      else if int (card (hub_streams hub)) \<ge> hub_limit hub then (Inl ErrStreamLimit, hub)
      else
        let i = hub_nextID hub in
        (Inr i,
         hub\<lparr>hub_nextID := i + 1, hub_streams := insert i (hub_streams hub),
             hub_subs := (hub_subs hub)(i \<mapsto>
               \<lparr>sub_credentialID = credentialID, sub_events = [], sub_closes = 0\<rparr>)\<rparr>))"

text \<open>The non-blocking send: into the buffer when it has room, else the stream is closed.\<close>

definition send_or_close :: "Invalidation \<Rightarrow> u64 \<Rightarrow> Hub \<Rightarrow> Hub" where
  "send_or_close event i hub =
     (case hub_subs hub i of
        None \<Rightarrow> hub
      | Some s \<Rightarrow>
          if length (sub_events s) < hub_buffer hub
          then hub\<lparr>hub_subs := (hub_subs hub)(i \<mapsto> s\<lparr>sub_events := sub_events s @ [event]\<rparr>)\<rparr>
          else closeLocked i hub)"

definition publishLocked :: "(u64 set \<Rightarrow> u64 list) \<Rightarrow> Invalidation \<Rightarrow> Hub \<Rightarrow> Hub" where
  "publishLocked ord event hub = fold (send_or_close event) (ord (hub_streams hub)) hub"

definition coalesced_kind :: "InvalidationKind \<Rightarrow> bool" where
  "coalesced_kind k \<longleftrightarrow> k = InvalidationInvocations \<or> k = InvalidationSystemStatus"

definition Publish :: "(u64 set \<Rightarrow> u64 list) \<Rightarrow> Invalidation \<Rightarrow> Hub \<Rightarrow> Hub" where
  "Publish ord event hub =
     (if hub_shutting hub then hub
      else if coalesced_kind (inv_Kind event) then
        (if hub_streams hub = {} then hub
         else
           let hub1 = hub\<lparr>hub_coalesced := (hub_coalesced hub)(inv_Kind event \<mapsto> hub_nextID hub - 1)\<rparr> in
           if hub_timer hub = NoTimer then hub1\<lparr>hub_timer := Armed, hub_timerWork := hub_timerWork hub + 1\<rparr>
           else hub1)
      else publishLocked ord event hub)"

definition flush_kind :: "(u64 set \<Rightarrow> u64 list) \<Rightarrow> InvalidationKind \<Rightarrow> Hub \<Rightarrow> Hub" where
  "flush_kind ord kind hub =
     (case hub_coalesced hub kind of
        None \<Rightarrow> hub
      | Some through \<Rightarrow>
          let hub1 = fold (\<lambda>i. if i > through then id
                               else send_or_close \<lparr>inv_Kind = kind, inv_ResourceID = None\<rparr> i)
                       (ord (hub_streams hub)) hub in
          hub1\<lparr>hub_coalesced := (hub_coalesced hub1)(kind := None)\<rparr>)"

definition flushCoalesced :: "(u64 set \<Rightarrow> u64 list) \<Rightarrow> InvalidationKind list \<Rightarrow> Hub \<Rightarrow> Hub" where
  "flushCoalesced ord kinds hub =
     (let hub1 = hub\<lparr>hub_timer := NoTimer\<rparr>;
          hub2 = (if hub_shutting hub then hub1 else fold (flush_kind ord) kinds hub1) in
      hub2\<lparr>hub_timerWork := hub_timerWork hub2 - 1\<rparr>)"

definition InvalidateCredential :: "(u64 set \<Rightarrow> u64 list) \<Rightarrow> string option \<Rightarrow> Hub \<Rightarrow> Hub" where
  "InvalidateCredential ord credentialID hub =
     fold (\<lambda>i h. case hub_subs h i of
             None \<Rightarrow> h
           | Some s \<Rightarrow> if credentialID = None \<or> credentialID = Some (sub_credentialID s) then closeLocked i h else h)
       (ord (hub_streams hub)) hub"

definition Status :: "Hub \<Rightarrow> LimitStatus" where
  "Status hub =
     (let inUse = int (card (hub_streams hub)) in
      \<lparr>ls_InUse = inUse, ls_Limit = hub_limit hub, ls_Saturated = (inUse \<ge> hub_limit hub)\<rparr>)"

text \<open>The part of \<open>Shutdown\<close> under the mutex; its final \<open>Wait\<close> returns once no timer work is left.
  \<open>Stop\<close> succeeds exactly on an armed timer that has not fired.\<close>

definition Shutdown :: "(u64 set \<Rightarrow> u64 list) \<Rightarrow> Hub \<Rightarrow> Hub" where
  "Shutdown ord hub =
     (if hub_shutting hub then hub
      else
        let hub1 = hub\<lparr>hub_shutting := True\<rparr>;
            hub2 = (if hub_timer hub1 = Armed
                    then hub1\<lparr>hub_timer := Stopped, hub_timerWork := hub_timerWork hub1 - 1\<rparr> else hub1) in
        fold closeLocked (ord (hub_streams hub2)) hub2)"

definition Close :: "u64 \<Rightarrow> Hub \<Rightarrow> Hub" where
  "Close i hub = closeLocked i hub"

text \<open>A receive on the channel of a subscription takes its oldest buffered event.\<close>

definition Receive :: "u64 \<Rightarrow> Hub \<Rightarrow> Hub" where
  "Receive i hub =
     hub\<lparr>hub_subs := (hub_subs hub)(i := map_option (\<lambda>s. s\<lparr>sub_events := tl (sub_events s)\<rparr>) (hub_subs hub i))\<rparr>"

subsection \<open>The steps of a hub\<close>

definition enumerates :: "(u64 set \<Rightarrow> u64 list) \<Rightarrow> bool" where
  "enumerates ord \<longleftrightarrow> (\<forall>S. finite S \<longrightarrow> set (ord S) = S \<and> distinct (ord S))"

inductive hub_step :: "Hub \<Rightarrow> Hub \<Rightarrow> bool" where
  Step_Subscribe: "hub_nextID hub \<noteq> - 1 \<Longrightarrow> hub_step hub (snd (Subscribe credentialID hub))"
| Step_Publish: "enumerates ord \<Longrightarrow> hub_step hub (Publish ord event hub)"
| Step_Fire: "hub_timer hub = Armed \<Longrightarrow> hub_step hub (hub\<lparr>hub_timer := Fired\<rparr>)"
| Step_Flush: "hub_timer hub = Fired \<Longrightarrow> enumerates ord \<Longrightarrow> distinct kinds \<Longrightarrow> set kinds = dom (hub_coalesced hub) \<Longrightarrow>
    hub_step hub (flushCoalesced ord kinds hub)"
| Step_Invalidate: "enumerates ord \<Longrightarrow> hub_step hub (InvalidateCredential ord credential hub)"
| Step_Shutdown: "enumerates ord \<Longrightarrow> hub_step hub (Shutdown ord hub)"
| Step_Close: "hub_step hub (Close i hub)"
| Step_Receive: "hub_step hub (Receive i hub)"

inductive_cases hub_stepE: "hub_step hub hub'"

definition streams_ok :: "Hub \<Rightarrow> bool" where
  "streams_ok hub \<longleftrightarrow>
     finite (hub_streams hub) \<and> hub_streams hub \<subseteq> dom (hub_subs hub) \<and>
     (\<forall>i s. hub_subs hub i = Some s \<longrightarrow>
        i < hub_nextID hub \<and> length (sub_events s) \<le> hub_buffer hub \<and>
        sub_closes s = (if i \<in> hub_streams hub then 0 else 1))"

definition hub_inv :: "Hub \<Rightarrow> bool" where
  "hub_inv hub \<longleftrightarrow>
     streams_ok hub \<and> int (card (hub_streams hub)) \<le> hub_limit hub \<and>
     (hub_shutting hub \<longrightarrow> hub_streams hub = {}) \<and>
     hub_timerWork hub = (if hub_timer hub \<in> {Armed, Fired} then 1 else 0) \<and>
     (hub_timer hub = Stopped \<longrightarrow> hub_shutting hub) \<and>
     (hub_coalesced hub \<noteq> Map.empty \<longrightarrow> hub_timer hub \<noteq> NoTimer \<or> hub_shutting hub) \<and>
     hub_limit hub = 16 \<and> hub_buffer hub = 16"

subsection \<open>The map of streams under the loops\<close>

definition control :: "Hub \<Rightarrow> u64 \<times> int \<times> nat \<times> bool \<times> (InvalidationKind \<rightharpoonup> u64) \<times> timer_state \<times> nat" where
  "control hub = (hub_nextID hub, hub_limit hub, hub_buffer hub, hub_shutting hub, hub_coalesced hub,
     hub_timer hub, hub_timerWork hub)"

text \<open>What the loops do to the map: they may buffer events and close streams, and touch nothing else.\<close>

definition delivers :: "Hub \<Rightarrow> Hub \<Rightarrow> bool" where
  "delivers hub hub' \<longleftrightarrow>
     control hub' = control hub \<and> hub_streams hub' \<subseteq> hub_streams hub \<and> (streams_ok hub \<longrightarrow> streams_ok hub')"

lemma delivers_refl [simp]: "delivers hub hub"
  by (simp add: delivers_def)

lemma delivers_trans [trans]: "delivers a b \<Longrightarrow> delivers b c \<Longrightarrow> delivers a c"
  by (auto simp: delivers_def)

lemma closeLocked_delivers [inv_intros]: "delivers hub (closeLocked i hub)"
  by (auto simp: delivers_def closeLocked_def control_def streams_ok_def split: if_splits)

lemma streams_ok_events:
  "streams_ok hub \<Longrightarrow> hub_subs hub i = Some s \<Longrightarrow> length ev \<le> hub_buffer hub \<Longrightarrow>
     streams_ok (hub\<lparr>hub_subs := (hub_subs hub)(i \<mapsto> s\<lparr>sub_events := ev\<rparr>)\<rparr>)"
  by (auto simp: streams_ok_def)

lemma send_or_close_delivers [inv_intros]: "delivers hub (send_or_close event i hub)"
proof (cases "hub_subs hub i")
  case (Some s)
  show ?thesis
  proof (cases "length (sub_events s) < hub_buffer hub")
    case True
    with Some show ?thesis
      by (auto simp: delivers_def send_or_close_def control_def intro: streams_ok_events)
  qed (simp add: Some send_or_close_def closeLocked_delivers)
qed (simp add: send_or_close_def)

lemma fold_delivers [inv_intros]:
  assumes "\<And>i h. delivers h (f i h)"
  shows "delivers hub (fold f is hub)"
proof (induction "is" arbitrary: hub)
  case (Cons i "is")
  have "delivers (f i hub) (fold f is (f i hub))"
    by (rule Cons.IH)
  with assms have "delivers hub (fold f is (f i hub))"
    by (rule delivers_trans)
  then show ?case by simp
qed simp

lemma publishLocked_delivers [inv_intros]: "delivers hub (publishLocked ord event hub)"
  unfolding publishLocked_def by (intro fold_delivers send_or_close_delivers)

lemma InvalidateCredential_delivers [inv_intros]: "delivers hub (InvalidateCredential ord credential hub)"
  unfolding InvalidateCredential_def
  by (intro fold_delivers) (auto intro: closeLocked_delivers split: option.splits)

lemma delivers_inv: "delivers hub hub' \<Longrightarrow> hub_inv hub \<Longrightarrow> hub_inv hub'"
proof -
  assume d: "delivers hub hub'" and inv: "hub_inv hub"
  from d inv have ok: "streams_ok hub'" and sub: "hub_streams hub' \<subseteq> hub_streams hub" and c: "control hub' = control hub"
    by (simp_all add: delivers_def hub_inv_def)
  have "card (hub_streams hub') \<le> card (hub_streams hub)"
    using inv sub by (intro card_mono) (simp_all add: hub_inv_def streams_ok_def)
  with inv sub c ok show ?thesis
    unfolding hub_inv_def control_def by auto
qed

text \<open>One stream at a time, whatever the order.\<close>

lemma closeLocked_at:
  "hub_streams (closeLocked i hub) = hub_streams hub - {i}"
  "j \<noteq> i \<Longrightarrow> hub_subs (closeLocked i hub) j = hub_subs hub j"
  by (auto simp: closeLocked_def)

lemma fold_closeLocked_streams: "hub_streams (fold closeLocked is hub) = hub_streams hub - set is"
  by (induction "is" arbitrary: hub) (auto simp: closeLocked_at)

definition received :: "Hub \<Rightarrow> u64 \<Rightarrow> Invalidation list" where
  "received hub i = (case hub_subs hub i of None \<Rightarrow> [] | Some s \<Rightarrow> sub_events s)"

lemma send_or_close_at:
  "j \<noteq> i \<Longrightarrow> hub_subs (send_or_close event i hub) j = hub_subs hub j"
  "j \<noteq> i \<Longrightarrow> j \<in> hub_streams (send_or_close event i hub) \<longleftrightarrow> j \<in> hub_streams hub"
  by (auto simp: send_or_close_def closeLocked_at closeLocked_def split: option.splits)

lemma send_or_close_self:
  assumes "i \<in> dom (hub_subs hub)"
  shows "i \<in> hub_streams (send_or_close event i hub) \<Longrightarrow> received (send_or_close event i hub) i = received hub i @ [event]"
    and "length (received hub i) < hub_buffer hub \<Longrightarrow> i \<in> hub_streams hub \<Longrightarrow> i \<in> hub_streams (send_or_close event i hub)"
  using assms by (auto simp: send_or_close_def closeLocked_at received_def split: option.splits if_splits)

lemma fold_send_other:
  assumes "j \<notin> set is"
  shows "hub_subs (fold (\<lambda>i. if P i then id else send_or_close event i) is hub) j = hub_subs hub j"
    and "j \<in> hub_streams (fold (\<lambda>i. if P i then id else send_or_close event i) is hub) \<longleftrightarrow> j \<in> hub_streams hub"
  using assms by (induction "is" arbitrary: hub) (auto simp: send_or_close_at)

subsection \<open>Every step keeps the invariant\<close>

lemma enumerates_streams: "enumerates ord \<Longrightarrow> streams_ok hub \<Longrightarrow> set (ord (hub_streams hub)) = hub_streams hub \<and> distinct (ord (hub_streams hub))"
  by (simp add: enumerates_def streams_ok_def)

lemma word_less_incr: "(n :: u64) \<noteq> - 1 \<Longrightarrow> i < n \<or> i = n \<Longrightarrow> i < n + 1"
proof -
  assume n: "n \<noteq> - 1" and i: "i < n \<or> i = n"
  have "unat n \<noteq> unat (- 1 :: u64)"
    using n by (metis word_unat_eq_iff)
  moreover have "unat (- 1 :: u64) = 2 ^ 64 - 1"
    by (simp add: unsigned_minus_1_eq_mask mask_eq_exp_minus_1)
  moreover have "unat n < 2 ^ 64"
    using unsigned_less [of n] by simp
  ultimately have "unat (n + 1) = unat n + 1"
    by (simp add: unat_word_ariths)
  with i show ?thesis
    by (auto simp: word_less_nat_alt)
qed

lemma streams_ok_control [simp]:
  "streams_ok (hub\<lparr>hub_timer := t\<rparr>) = streams_ok hub" "streams_ok (hub\<lparr>hub_timerWork := n\<rparr>) = streams_ok hub"
  "streams_ok (hub\<lparr>hub_coalesced := m\<rparr>) = streams_ok hub" "streams_ok (hub\<lparr>hub_shutting := b\<rparr>) = streams_ok hub"
  by (simp_all add: streams_ok_def)

lemma Subscribe_inv [inv_intros]:
  assumes "hub_inv hub" and "hub_nextID hub \<noteq> - 1"
  shows "hub_inv (snd (Subscribe credentialID hub))"
proof (cases "hub_shutting hub \<or> int (card (hub_streams hub)) \<ge> hub_limit hub")
  case True
  with assms show ?thesis by (auto simp: Subscribe_def)
next
  case False
  have fresh: "hub_subs hub (hub_nextID hub) = None"
    using assms(1) unfolding hub_inv_def streams_ok_def by (metis less_irrefl option.exhaust)
  then have new: "hub_nextID hub \<notin> hub_streams hub"
    using assms(1) unfolding hub_inv_def streams_ok_def by blast
  have "streams_ok (snd (Subscribe credentialID hub))"
    using assms False fresh word_less_incr [OF assms(2)]
    by (auto simp: Subscribe_def streams_ok_def hub_inv_def Let_def)
  moreover have "finite (hub_streams hub)"
    using assms(1) by (simp add: hub_inv_def streams_ok_def)
  ultimately show ?thesis
    using assms False new by (simp add: Subscribe_def hub_inv_def Let_def)
qed

lemma Publish_inv [inv_intros]: "hub_inv hub \<Longrightarrow> hub_inv (Publish ord event hub)"
proof (cases "hub_shutting hub \<or> \<not> coalesced_kind (inv_Kind event) \<or> hub_streams hub = {}")
  case True
  assume "hub_inv hub"
  with True show ?thesis
    using delivers_inv [OF publishLocked_delivers] by (auto simp: Publish_def)
next
  case False
  assume "hub_inv hub"
  with False show ?thesis
    by (auto simp: Publish_def hub_inv_def Let_def)
qed

lemma flush_kind_facts:
  assumes "hub_coalesced hub kind = Some through"
  shows "\<exists>hub1. delivers hub hub1 \<and> flush_kind ord kind hub = hub1\<lparr>hub_coalesced := (hub_coalesced hub)(kind := None)\<rparr>"
proof -
  let ?hub1 = "fold (\<lambda>i. if i > through then id else send_or_close \<lparr>inv_Kind = kind, inv_ResourceID = None\<rparr> i)
      (ord (hub_streams hub)) hub"
  have d: "delivers hub ?hub1"
    by (intro fold_delivers) (simp add: send_or_close_delivers)
  then have "hub_coalesced ?hub1 = hub_coalesced hub"
    by (simp add: delivers_def control_def)
  with d assms show ?thesis
    by (auto simp: flush_kind_def Let_def)
qed

text \<open>Flushing a kind only delivers and forgets the kind.\<close>

definition flushes :: "InvalidationKind set \<Rightarrow> Hub \<Rightarrow> Hub \<Rightarrow> bool" where
  "flushes ks hub hub' \<longleftrightarrow>
     hub_coalesced hub' = hub_coalesced hub |` (- ks) \<and> hub_streams hub' \<subseteq> hub_streams hub \<and>
     (streams_ok hub \<longrightarrow> streams_ok hub') \<and> hub_nextID hub' = hub_nextID hub \<and> hub_limit hub' = hub_limit hub \<and>
     hub_buffer hub' = hub_buffer hub \<and> hub_shutting hub' = hub_shutting hub \<and> hub_timer hub' = hub_timer hub \<and>
     hub_timerWork hub' = hub_timerWork hub"

lemma flush_kind_flushes: "flushes {kind} hub (flush_kind ord kind hub)"
proof (cases "hub_coalesced hub kind")
  case None
  then show ?thesis
    by (auto simp: flushes_def flush_kind_def restrict_map_def fun_eq_iff)
next
  case (Some through)
  then obtain hub1 where d: "delivers hub hub1"
      and f: "flush_kind ord kind hub = hub1\<lparr>hub_coalesced := (hub_coalesced hub)(kind := None)\<rparr>"
    using flush_kind_facts by blast
  have "streams_ok (hub1\<lparr>hub_coalesced := m\<rparr>) = streams_ok hub1" for m
    by (simp add: streams_ok_def)
  with d f show ?thesis
    by (auto simp: flushes_def delivers_def control_def restrict_map_def fun_eq_iff)
qed

lemma flushes_trans: "flushes A a b \<Longrightarrow> flushes B b c \<Longrightarrow> flushes (A \<union> B) a c"
  by (auto simp: flushes_def)

lemma fold_flush_kind: "flushes (set kinds) hub (fold (flush_kind ord) kinds hub)"
proof (induction kinds arbitrary: hub)
  case Nil
  then show ?case by (simp add: flushes_def restrict_map_def)
next
  case (Cons k ks)
  from flushes_trans [OF flush_kind_flushes Cons] show ?case by simp
qed

lemma flushCoalesced_inv [inv_intros]:
  assumes "hub_inv hub" and "hub_timer hub = Fired" and "set kinds = dom (hub_coalesced hub)"
  shows "hub_inv (flushCoalesced ord kinds hub)"
proof (cases "hub_shutting hub")
  case True
  with assms show ?thesis
    by (auto simp: flushCoalesced_def hub_inv_def)
next
  case False
  let ?h = "fold (flush_kind ord) kinds (hub\<lparr>hub_timer := NoTimer\<rparr>)"
  have f: "flushes (set kinds) (hub\<lparr>hub_timer := NoTimer\<rparr>) ?h"
    by (rule fold_flush_kind)
  then have empty: "hub_coalesced ?h = Map.empty"
    by (auto simp: flushes_def assms(3) restrict_map_def fun_eq_iff)
  have eq: "flushCoalesced ord kinds hub = ?h\<lparr>hub_timerWork := hub_timerWork ?h - 1\<rparr>"
    using False by (simp add: flushCoalesced_def Let_def)
  have ok: "streams_ok ?h" "hub_streams ?h \<subseteq> hub_streams hub"
    using f assms(1) by (simp_all add: flushes_def hub_inv_def)
  have "card (hub_streams ?h) \<le> card (hub_streams hub)"
    using ok(2) assms(1) by (intro card_mono) (simp_all add: hub_inv_def streams_ok_def)
  with f ok empty assms(1,2) False show ?thesis
    unfolding eq by (auto simp: flushes_def hub_inv_def)
qed

lemma Shutdown_inv [inv_intros]:
  assumes "hub_inv hub" and "enumerates ord"
  shows "hub_inv (Shutdown ord hub)"
proof (cases "hub_shutting hub")
  case False
  let ?h1 = "hub\<lparr>hub_shutting := True\<rparr>"
  let ?h2 = "if hub_timer ?h1 = Armed then ?h1\<lparr>hub_timer := Stopped, hub_timerWork := hub_timerWork ?h1 - 1\<rparr> else ?h1"
  let ?h = "fold closeLocked (ord (hub_streams ?h2)) ?h2"
  have eq: "Shutdown ord hub = ?h"
    using False by (simp add: Shutdown_def Let_def)
  have h2: "streams_ok ?h2" "hub_streams ?h2 = hub_streams hub"
    using assms(1) by (simp_all add: hub_inv_def)
  have "hub_streams ?h = {}"
    using enumerates_streams [OF assms(2) h2(1)] unfolding fold_closeLocked_streams by simp
  moreover have d: "delivers ?h2 ?h"
    by (intro fold_delivers closeLocked_delivers)
  ultimately show ?thesis
    using h2(1) assms(1) False unfolding eq delivers_def control_def
    by (auto simp: hub_inv_def split: if_splits)
qed (simp add: Shutdown_def assms)

lemma Receive_inv [inv_intros]: "hub_inv hub \<Longrightarrow> hub_inv (Receive i hub)"
proof -
  assume inv: "hub_inv hub"
  have "streams_ok (Receive i hub)"
  proof (cases "hub_subs hub i")
    case None
    then have "Receive i hub = hub"
      by (simp add: Receive_def fun_upd_idem)
    with inv show ?thesis by (simp add: hub_inv_def)
  next
    case (Some s)
    have ok: "streams_ok hub"
      using inv by (simp add: hub_inv_def)
    then have "length (tl (sub_events s)) \<le> hub_buffer hub"
      using Some unfolding streams_ok_def by (metis diff_le_self length_tl order_trans)
    from streams_ok_events [OF ok Some this]
    have "streams_ok (hub\<lparr>hub_subs := (hub_subs hub)(i \<mapsto> s\<lparr>sub_events := tl (sub_events s)\<rparr>)\<rparr>)" .
    with Some show ?thesis by (simp add: Receive_def)
  qed
  with inv show ?thesis
    by (simp add: hub_inv_def Receive_def)
qed

lemma Fire_inv [inv_intros]: "hub_inv hub \<Longrightarrow> hub_timer hub = Armed \<Longrightarrow> hub_inv (hub\<lparr>hub_timer := Fired\<rparr>)"
  by (simp add: hub_inv_def)

interpretation hub: step_invariant "\<lambda>h. h = NewHub" hub_step hub_inv
proof
  fix h
  assume "h = NewHub"
  then show "hub_inv h"
    by (simp add: NewHub_def hub_inv_def streams_ok_def)
next
  fix h h'
  assume "hub_inv h" and "hub_step h h'"
  from \<open>hub_step h h'\<close> show "hub_inv h'"
  proof cases
    case (Step_Subscribe credentialID)
    with \<open>hub_inv h\<close> show ?thesis by (simp add: Subscribe_inv)
  next
    case (Step_Publish ord event)
    with \<open>hub_inv h\<close> show ?thesis by (simp add: Publish_inv)
  next
    case Step_Fire
    with \<open>hub_inv h\<close> show ?thesis by (simp add: Fire_inv)
  next
    case (Step_Flush ord kinds)
    with \<open>hub_inv h\<close> show ?thesis by (simp add: flushCoalesced_inv)
  next
    case (Step_Invalidate ord credential)
    with \<open>hub_inv h\<close> show ?thesis
      using delivers_inv [OF InvalidateCredential_delivers] by simp
  next
    case (Step_Shutdown ord)
    with \<open>hub_inv h\<close> show ?thesis by (simp add: Shutdown_inv)
  next
    case (Step_Close i)
    with \<open>hub_inv h\<close> show ?thesis
      using delivers_inv [OF closeLocked_delivers] by (simp add: Close_def)
  next
    case (Step_Receive i)
    with \<open>hub_inv h\<close> show ?thesis by (simp add: Receive_inv)
  qed
qed

subsection \<open>What a stream receives\<close>

definition kind_event :: "InvalidationKind \<Rightarrow> Invalidation" where
  "kind_event k = \<lparr>inv_Kind = k, inv_ResourceID = None\<rparr>"

text \<open>An open stream only gains events from the loops.\<close>

definition keeps :: "u64 \<Rightarrow> Hub \<Rightarrow> Hub \<Rightarrow> bool" where
  "keeps i hub hub' \<longleftrightarrow>
     (i \<in> hub_streams hub' \<longrightarrow> i \<in> hub_streams hub \<and> set (received hub i) \<subseteq> set (received hub' i))"

lemma keeps_refl [simp]: "keeps i hub hub"
  by (simp add: keeps_def)

lemma keeps_trans: "keeps i a b \<Longrightarrow> keeps i b c \<Longrightarrow> keeps i a c"
  by (auto simp: keeps_def)

lemma send_or_close_keeps: "keeps i hub (send_or_close event j hub)"
  by (auto simp: keeps_def send_or_close_def received_def closeLocked_def split: option.splits if_splits)

lemma fold_keeps: "(\<And>j h. keeps i h (f j h)) \<Longrightarrow> keeps i hub (fold f js hub)"
proof (induction js arbitrary: hub)
  case (Cons j js)
  have "keeps i hub (f j hub)" "keeps i (f j hub) (fold f js (f j hub))"
    by (rule Cons.prems) (rule Cons.IH [OF Cons.prems])
  then have "keeps i hub (fold f js (f j hub))"
    by (rule keeps_trans)
  then show ?case by simp
qed simp

lemma flush_kind_keeps: "keeps i hub (flush_kind ord k hub)"
proof (cases "hub_coalesced hub k")
  case (Some t)
  let ?h = "fold (\<lambda>i. if i > t then id else send_or_close \<lparr>inv_Kind = k, inv_ResourceID = None\<rparr> i) (ord (hub_streams hub)) hub"
  have "keeps i hub ?h"
    by (intro fold_keeps) (simp add: send_or_close_keeps)
  then show ?thesis
    by (simp add: flush_kind_def Some Let_def keeps_def received_def)
qed (simp add: flush_kind_def)

lemma fold_send_delivers:
  assumes "i \<in> set is" and "\<not> P i" and "i \<in> dom (hub_subs hub)"
    and "i \<in> hub_streams (fold (\<lambda>i. if P i then id else send_or_close event i) is hub)"
  shows "event \<in> set (received (fold (\<lambda>i. if P i then id else send_or_close event i) is hub) i)"
  using assms
proof (induction "is" arbitrary: hub)
  case (Cons j js)
  let ?f = "\<lambda>i. if P i then id else send_or_close event i"
  have dom: "i \<in> dom (hub_subs (?f j hub))"
    using Cons.prems(3) by (auto simp: send_or_close_def closeLocked_def split: option.splits)
  show ?case
  proof (cases "j = i")
    case True
    have k: "keeps i (?f i hub) (fold ?f js (?f i hub))"
      by (intro fold_keeps) (simp add: send_or_close_keeps)
    have "i \<in> hub_streams (fold ?f js (?f i hub))"
      using Cons.prems(4) True by simp
    with k have "i \<in> hub_streams (send_or_close event i hub)"
        "set (received (send_or_close event i hub) i) \<subseteq> set (received (fold ?f js (?f i hub)) i)"
      using Cons.prems(2) by (simp_all add: keeps_def)
    with send_or_close_self(1) [OF Cons.prems(3)] True Cons.prems(2) show ?thesis
      by auto
  next
    case False
    with Cons.prems dom Cons.IH [of "?f j hub"] show ?thesis by simp
  qed
qed simp

lemma flush_kind_delivers:
  assumes "hub_coalesced hub k = Some t" and "i \<le> t" and "i \<in> hub_streams hub" and "streams_ok hub"
    and "enumerates ord" and "i \<in> hub_streams (flush_kind ord k hub)"
  shows "kind_event k \<in> set (received (flush_kind ord k hub) i)"
proof -
  let ?f = "\<lambda>i. if i > t then id else send_or_close \<lparr>inv_Kind = k, inv_ResourceID = None\<rparr> i"
  let ?h = "fold ?f (ord (hub_streams hub)) hub"
  have eq: "flush_kind ord k hub = ?h\<lparr>hub_coalesced := (hub_coalesced ?h)(k := None)\<rparr>"
    by (simp add: flush_kind_def assms(1) Let_def)
  have "\<lparr>inv_Kind = k, inv_ResourceID = None\<rparr> \<in> set (received ?h i)"
  proof (rule fold_send_delivers)
    show "i \<in> set (ord (hub_streams hub))"
      using enumerates_streams [OF assms(5,4)] assms(3) by simp
    show "\<not> t < i" "i \<in> dom (hub_subs hub)"
      using assms(2-4) by (auto simp: streams_ok_def)
    show "i \<in> hub_streams ?h"
      using assms(6) by (simp add: eq)
  qed
  then show ?thesis
    by (simp add: eq kind_event_def received_def)
qed

lemma fold_flush_delivers:
  assumes "k \<in> set kinds" and "hub_coalesced hub k = Some t" and "i \<le> t" and "i \<in> hub_streams hub"
    and "streams_ok hub" and "enumerates ord" and "i \<in> hub_streams (fold (flush_kind ord) kinds hub)"
  shows "kind_event k \<in> set (received (fold (flush_kind ord) kinds hub) i)"
  using assms
proof (induction kinds arbitrary: hub)
  case (Cons k' ks)
  let ?h = "flush_kind ord k' hub"
  have rest: "keeps i ?h (fold (flush_kind ord) ks ?h)"
    by (intro fold_keeps flush_kind_keeps)
  then have open_h: "i \<in> hub_streams ?h"
    using Cons.prems(7) by (simp add: keeps_def)
  show ?case
  proof (cases "k' = k")
    case True
    then have "kind_event k \<in> set (received ?h i)"
      using flush_kind_delivers [of hub k t i ord] Cons.prems(2-6) open_h by simp
    with rest Cons.prems(7) show ?thesis
      by (auto simp: keeps_def)
  next
    case False
    have f: "flushes {k'} hub ?h"
      by (rule flush_kind_flushes)
    then have "hub_coalesced ?h k = Some t" "streams_ok ?h"
      using Cons.prems(2,5) False by (auto simp: flushes_def)
    with Cons.prems open_h False show ?thesis
      using Cons.IH [of ?h] by simp
  qed
qed simp

text \<open>A stream is owed a kind: it was open when the kind was last published and not yet flushed.\<close>

definition owed :: "Hub \<Rightarrow> u64 \<Rightarrow> InvalidationKind \<Rightarrow> bool" where
  "owed hub i k \<longleftrightarrow> (\<exists>t. hub_coalesced hub k = Some t \<and> i \<le> t)"

lemma open_below: "hub_inv hub \<Longrightarrow> i \<in> hub_streams hub \<Longrightarrow> i \<le> hub_nextID hub - 1"
proof -
  assume inv: "hub_inv hub" and i: "i \<in> hub_streams hub"
  then have "i < hub_nextID hub"
    unfolding hub_inv_def streams_ok_def by blast
  then have "unat i < unat (hub_nextID hub)"
    by (simp add: word_less_nat_alt)
  moreover from this have "unat (hub_nextID hub - 1) = unat (hub_nextID hub) - 1"
    by (metis gr_implies_not0 unat_0 unat_minus_one)
  ultimately show ?thesis
    by (simp add: word_le_nat_alt)
qed

lemma delivers_owed: "delivers hub hub' \<Longrightarrow> owed hub i k \<Longrightarrow> owed hub' i k"
  by (simp add: delivers_def control_def owed_def)

lemma Publish_owed:
  assumes "hub_inv hub" and "i \<in> hub_streams hub" and "owed hub i k"
  shows "owed (Publish ord event hub) i k"
proof (cases "hub_shutting hub \<or> \<not> coalesced_kind (inv_Kind event)")
  case True
  with assms(3) show ?thesis
    using delivers_owed [OF publishLocked_delivers] by (auto simp: Publish_def)
next
  case False
  with assms(2,3) open_below [OF assms(1,2)] show ?thesis
    by (auto simp: Publish_def owed_def Let_def)
qed

lemma Publish_owes:
  assumes "hub_inv hub" and "i \<in> hub_streams hub" and "coalesced_kind (inv_Kind event)"
  shows "owed (Publish ord event hub) i (inv_Kind event)"
  using assms(2,3) open_below [OF assms(1,2)] assms(1)
  by (auto simp: Publish_def owed_def Let_def hub_inv_def)

lemma hub_step_owed:
  assumes "hub_inv hub" and "hub_step hub hub'" and "i \<in> hub_streams hub" and "owed hub i k" and "\<not> hub_shutting hub"
  shows "i \<notin> hub_streams hub' \<or> owed hub' i k \<or> kind_event k \<in> set (received hub' i)"
  using assms(2)
proof cases
  case (Step_Subscribe credentialID)
  with assms(4) show ?thesis
    by (auto simp: Subscribe_def owed_def Let_def)
next
  case (Step_Publish ord event)
  with Publish_owed [OF assms(1,3,4)] show ?thesis by simp
next
  case (Step_Flush ord kinds)
  let ?h = "hub\<lparr>hub_timer := NoTimer\<rparr>"
  from assms(4) obtain t where t: "hub_coalesced hub k = Some t" "i \<le> t"
    by (auto simp: owed_def)
  have eq: "hub' = (fold (flush_kind ord) kinds ?h)\<lparr>hub_timerWork := hub_timerWork (fold (flush_kind ord) kinds ?h) - 1\<rparr>"
    using Step_Flush(1) assms(5) by (simp add: flushCoalesced_def Let_def)
  have "kind_event k \<in> set (received (fold (flush_kind ord) kinds ?h) i)"
    if "i \<in> hub_streams (fold (flush_kind ord) kinds ?h)"
    using t Step_Flush assms(1,3) that
    by (intro fold_flush_delivers [of k kinds ?h t i ord]) (auto simp: hub_inv_def)
  then show ?thesis
    by (auto simp: eq received_def)
next
  case (Step_Invalidate ord credential)
  with delivers_owed [OF InvalidateCredential_delivers assms(4)] show ?thesis by simp
next
  case (Step_Shutdown ord)
  with Shutdown_inv [OF assms(1), of ord] assms(5) show ?thesis
    by (auto simp: hub_inv_def Shutdown_def Let_def fold_closeLocked_streams enumerates_def streams_ok_def)
next
  case (Step_Close j)
  with delivers_owed [OF closeLocked_delivers assms(4)] show ?thesis
    by (simp add: Close_def)
qed (use assms(4) in \<open>auto simp: owed_def Receive_def\<close>)

subsection \<open>Properties\<close>

text \<open>
  C34: In every state a hub can reach, at most the fixed number of streams is open, no stream buffers more than
  the fixed number of events, every subscription's channels have been closed exactly when it left the
  hub and never twice, a hub that shuts down has no stream left, and the work group counts exactly the
  flush that is still to come, so that the wait at the end of a shutdown is for at most one flush.
\<close>

theorem hub_bounded:
  assumes "hub_step\<^sup>*\<^sup>* NewHub hub"
  shows "card (hub_streams hub) \<le> 16 \<and>
    (\<forall>i s. hub_subs hub i = Some s \<longrightarrow>
       length (sub_events s) \<le> 16 \<and> sub_closes s = (if i \<in> hub_streams hub then 0 else 1)) \<and>
    (hub_shutting hub \<longrightarrow> hub_streams hub = {}) \<and>
    hub_timerWork hub = (if hub_timer hub \<in> {Armed, Fired} then 1 else 0)"
proof -
  have "hub_inv hub"
    by (rule hub.inv_reachable [OF refl assms])
  then show ?thesis
    unfolding hub_inv_def streams_ok_def by auto
qed

text \<open>
  C35: No coalesced invalidation is lost. Publishing one while a stream is open makes it owed to that stream;
  as long as it is owed the timer is running or has fired, so a flush is due; and every step keeps it
  owed, delivers it into the stream's buffer, or closes the stream, until the hub shuts down.
\<close>

theorem hub_coalesced_progress:
  assumes "hub_step\<^sup>*\<^sup>* NewHub hub" and "i \<in> hub_streams hub"
  shows "(coalesced_kind (inv_Kind event) \<longrightarrow> owed (Publish ord event hub) i (inv_Kind event)) \<and>
    (owed hub i k \<longrightarrow> hub_timer hub \<in> {Armed, Fired} \<and>
       (\<forall>hub'. hub_step hub hub' \<longrightarrow>
          i \<notin> hub_streams hub' \<or> owed hub' i k \<or> kind_event k \<in> set (received hub' i)))"
proof -
  have inv: "hub_inv hub"
    by (rule hub.inv_reachable [OF refl assms(1)])
  with assms(2) have run: "\<not> hub_shutting hub"
    by (auto simp: hub_inv_def)
  have "hub_timer hub \<in> {Armed, Fired}" if "owed hub i k"
    using that inv run by (cases "hub_timer hub") (auto simp: hub_inv_def owed_def)
  with hub_step_owed [OF inv _ assms(2)] Publish_owes [OF inv assms(2)] run show ?thesis
    by blast
qed

definition sample_hub :: Hub where
  "sample_hub = snd (Subscribe ''operator'' NewHub)"

lemma sample_hub_reachable: "hub_step\<^sup>*\<^sup>* NewHub sample_hub" "0 \<in> hub_streams sample_hub"
proof -
  have "hub_step NewHub sample_hub"
    unfolding sample_hub_def by (rule Step_Subscribe) (simp add: NewHub_def)
  then show "hub_step\<^sup>*\<^sup>* NewHub sample_hub" ..
  show "0 \<in> hub_streams sample_hub"
    by (simp add: sample_hub_def Subscribe_def NewHub_def)
qed

theorem hub_bounded_witness: "card (hub_streams sample_hub) \<le> 16 \<and> 0 \<in> hub_streams sample_hub"
  using hub_bounded [OF sample_hub_reachable(1)] sample_hub_reachable(2) by blast

theorem hub_coalesced_progress_witness:
  "owed (Publish sorted_list_of_set (kind_event InvalidationInvocations) sample_hub) 0 InvalidationInvocations"
  using hub_coalesced_progress [OF sample_hub_reachable, where event = "kind_event InvalidationInvocations"]
  by (simp add: kind_event_def coalesced_kind_def)

end
