(* ===== verification/Go_Time.thy ===== *)
theory Go_Time
  imports Go_Strings
begin

text \<open>
  What the gateway uses of Go's \<open>time\<close> package: instants, the proleptic Gregorian calendar of UTC, and the
  fixed-width layout with nanoseconds that every stored timestamp has. An instant is the number of
  nanoseconds since the Unix epoch. The calendar follows \<open>time.Time.date\<close>: days are cut into cycles of
  400, 100, 4 and 1 years counted from year 1.

  \<open>canonicalTimestamp\<close> parses a text and accepts it only when formatting the result gives the text back.
  Its model reads only texts of the layout's own shape: \<open>time.Parse\<close> on any other text either fails or
  yields an instant whose formatted text has that shape and therefore differs from the input.
\<close>

type_synonym instant = int

subsection \<open>The calendar\<close>

definition leap_year :: "int \<Rightarrow> bool" where
  "leap_year y \<longleftrightarrow> y mod 4 = 0 \<and> (y mod 100 \<noteq> 0 \<or> y mod 400 = 0)"

definition year_start :: "int \<Rightarrow> int" where
  "year_start y = (let z = y - 1 in 365 * z + z div 4 - z div 100 + z div 400)"

definition year_of_day :: "int \<Rightarrow> int \<times> int" where
  "year_of_day d =
     (let n400 = d div 146097; r1 = d mod 146097;
          n100 = min 3 (r1 div 36524); r2 = r1 - 36524 * n100;
          n4 = r2 div 1461; r3 = r2 - 1461 * n4;
          n1 = min 3 (r3 div 365) in
      (400 * n400 + 100 * n100 + 4 * n4 + n1 + 1, r3 - 365 * n1))"

definition month_lengths :: "int \<Rightarrow> int list" where
  "month_lengths y = [31, if leap_year y then 29 else 28, 31, 30, 31, 30, 31, 31, 30, 31, 30, 31]"

definition days_in_month :: "int \<Rightarrow> int \<Rightarrow> int" where
  "days_in_month y m = (if 1 \<le> m \<and> m \<le> 12 then month_lengths y ! nat (m - 1) else 0)"

definition month_start :: "int \<Rightarrow> int \<Rightarrow> int" where
  "month_start y m = sum_list (take (nat (m - 1)) (month_lengths y))"

fun split_days :: "int list \<Rightarrow> int \<Rightarrow> int \<Rightarrow> int \<times> int" where
  "split_days [] m d = (m, d)"
| "split_days (l # ls) m d = (if d < l then (m, d) else split_days ls (m + 1) (d - l))"

definition month_of_day :: "int \<Rightarrow> int \<Rightarrow> int \<times> int" where
  "month_of_day y yday = (case split_days (month_lengths y) 1 yday of (m, d) \<Rightarrow> (m, d + 1))"

definition nanos_per_day :: int where "nanos_per_day = 86400000000000"
definition epoch_day :: int where "epoch_day = 719162"

record civil =
  cv_year :: int
  cv_month :: int
  cv_day :: int
  cv_hour :: int
  cv_minute :: int
  cv_second :: int
  cv_nano :: int

definition Date :: "civil \<Rightarrow> instant" where
  "Date c =
     (year_start (cv_year c) + month_start (cv_year c) (cv_month c) + cv_day c - 1 - epoch_day) * nanos_per_day
     + ((cv_hour c * 60 + cv_minute c) * 60 + cv_second c) * 1000000000 + cv_nano c"

definition civil_of :: "instant \<Rightarrow> civil" where
  "civil_of t =
     (let day = t div nanos_per_day + epoch_day; r = t mod nanos_per_day;
          (y, yday) = year_of_day day; (m, d) = month_of_day y yday; s = r div 1000000000 in
      \<lparr>cv_year = y, cv_month = m, cv_day = d, cv_hour = s div 3600, cv_minute = s div 60 mod 60,
       cv_second = s mod 60, cv_nano = r mod 1000000000\<rparr>)"

definition valid_civil :: "civil \<Rightarrow> bool" where
  "valid_civil c \<longleftrightarrow>
     1 \<le> cv_month c \<and> cv_month c \<le> 12 \<and> 1 \<le> cv_day c \<and> cv_day c \<le> days_in_month (cv_year c) (cv_month c) \<and>
     0 \<le> cv_hour c \<and> cv_hour c < 24 \<and> 0 \<le> cv_minute c \<and> cv_minute c < 60 \<and>
     0 \<le> cv_second c \<and> cv_second c < 60 \<and> 0 \<le> cv_nano c \<and> cv_nano c < 1000000000"

definition Year :: "instant \<Rightarrow> int" where
  "Year t = cv_year (civil_of t)"

definition UnixMilli :: "instant \<Rightarrow> int" where
  "UnixMilli t = t div 1000000"

subsection \<open>The canonical layout\<close>

primrec pad :: "nat \<Rightarrow> nat \<Rightarrow> string" where
  "pad 0 n = []"
| "pad (Suc w) n = pad w (n div 10) @ [digit_char (n mod 10)]"

definition year_text :: "int \<Rightarrow> string" where
  "year_text y =
     (if y < 0 then CHR ''-'' # (if - y < 10000 then pad 4 (nat (- y)) else FormatUint (nat (- y)))
      else if y < 10000 then pad 4 (nat y) else FormatUint (nat y))"

definition civil_text :: "civil \<Rightarrow> string" where
  "civil_text c =
     year_text (cv_year c) @ ''-'' @ pad 2 (nat (cv_month c)) @ ''-'' @ pad 2 (nat (cv_day c)) @ ''T'' @
     pad 2 (nat (cv_hour c)) @ '':'' @ pad 2 (nat (cv_minute c)) @ '':'' @ pad 2 (nat (cv_second c)) @ ''.'' @
     pad 9 (nat (cv_nano c)) @ ''Z''"

definition FormatCanonical :: "instant \<Rightarrow> string" where
  "FormatCanonical t = civil_text (civil_of t)"

definition number_at :: "string \<Rightarrow> nat \<Rightarrow> nat \<Rightarrow> int option" where
  "number_at s start width = map_option int (parse_digits 10 0 (take width (drop start s)))"

definition ParseCanonical :: "string \<Rightarrow> instant option" where
  "ParseCanonical v =
     (if length v \<noteq> 30 \<or> v ! 4 \<noteq> CHR ''-'' \<or> v ! 7 \<noteq> CHR ''-'' \<or> v ! 10 \<noteq> CHR ''T'' \<or> v ! 13 \<noteq> CHR '':''
         \<or> v ! 16 \<noteq> CHR '':'' \<or> v ! 19 \<noteq> CHR ''.'' \<or> v ! 29 \<noteq> CHR ''Z'' then None
      else
        (case (number_at v 0 4, number_at v 5 2, number_at v 8 2, number_at v 11 2, number_at v 14 2,
               number_at v 17 2, number_at v 20 9) of
           (Some y, Some mo, Some d, Some h, Some mi, Some s, Some n) \<Rightarrow>
             let c = \<lparr>cv_year = y, cv_month = mo, cv_day = d, cv_hour = h, cv_minute = mi, cv_second = s, cv_nano = n\<rparr> in
             if valid_civil c then Some (Date c) else None
         | _ \<Rightarrow> None))"

definition canonicalTimestamp :: "string \<Rightarrow> instant option" where
  "canonicalTimestamp v =
     (case ParseCanonical v of
        None \<Rightarrow> None
      | Some t \<Rightarrow> if FormatCanonical t = v then Some t else None)"

subsection \<open>The calendar is a bijection\<close>

lemma div_range: "0 < k \<Longrightarrow> q * k \<le> x \<Longrightarrow> x < (q + 1) * k \<Longrightarrow> x div k = q" for x k q :: int
  by (rule int_div_pos_eq [of x k q "x - q * k"]) (auto simp: algebra_simps)

lemma division:
  fixes x k :: int
  assumes "0 < k"
  obtains q r where "x = k * q + r" and "0 \<le> r" and "r < k"
  using assms by (intro that [of "x div k" "x mod k"]) simp_all

lemma mod_last:
  fixes k q r :: int
  assumes "0 < k" and "0 \<le> r" and "r < k"
  shows "(k * q + r + 1) mod k = 0 \<longleftrightarrow> r = k - 1"
proof (cases "r = k - 1")
  case True
  then have "k * q + r + 1 = k * (q + 1)"
    by (simp add: algebra_simps)
  with True show ?thesis by simp
next
  case False
  have "(k * q + r + 1) mod k = (r + 1 + k * q) mod k"
    by (simp add: algebra_simps)
  also have "\<dots> = (r + 1) mod k"
    by (rule mod_mult_self2)
  also have "\<dots> = r + 1"
    using assms False by (intro mod_pos_pos_trivial) auto
  finally show ?thesis
    using assms(2) False by simp
qed

lemma year_digits:
  fixes z :: int
  obtains a b c e where "z = 400 * a + 100 * b + 4 * c + e" and "0 \<le> b" "b \<le> 3" "0 \<le> c" "c \<le> 24" "0 \<le> e" "e \<le> 3"
proof -
  obtain a x where a: "z = 400 * a + x" "0 \<le> x" "x < 400"
    by (rule division [of 400 z]) simp_all
  obtain b w where b: "x = 100 * b + w" "0 \<le> w" "w < 100"
    by (rule division [of 100 x]) simp_all
  obtain c e where c: "w = 4 * c + e" "0 \<le> e" "e < 4"
    by (rule division [of 4 w]) simp_all
  show thesis
    by (rule that [of a b c e]) (use a b c in linarith)+
qed

lemma year_start_digits:
  assumes "y - 1 = 400 * a + 100 * b + 4 * c + e" and "0 \<le> b" "b \<le> 3" "0 \<le> c" "c \<le> 24" "0 \<le> e" "e \<le> 3"
  shows "year_start y = 146097 * a + 36524 * b + 1461 * c + 365 * e"
    and "leap_year y \<longleftrightarrow> e = 3 \<and> (c \<noteq> 24 \<or> b = 3)"
proof -
  have d1: "(y - 1) div 4 = 100 * a + 25 * b + c"
    by (rule div_range) (use assms in \<open>simp_all add: algebra_simps\<close>)
  have d2: "(y - 1) div 100 = 4 * a + b"
    by (rule div_range) (use assms in \<open>simp_all add: algebra_simps\<close>)
  have d3: "(y - 1) div 400 = a"
    by (rule div_range) (use assms in \<open>simp_all add: algebra_simps\<close>)
  show "year_start y = 146097 * a + 36524 * b + 1461 * c + 365 * e"
    unfolding year_start_def Let_def d1 d2 d3 using assms(1) by simp
  have y4: "y = 4 * (100 * a + 25 * b + c) + e + 1" and y100: "y = 100 * (4 * a + b) + (4 * c + e) + 1"
      and y400: "y = 400 * a + (100 * b + 4 * c + e) + 1"
    using assms(1) by simp_all
  have "y mod 4 = 0 \<longleftrightarrow> e = 3"
    unfolding y4 using assms(6,7) by (subst mod_last) auto
  moreover have "y mod 100 = 0 \<longleftrightarrow> 4 * c + e = 99"
    unfolding y100 using assms(4-7) by (subst mod_last) auto
  moreover have "y mod 400 = 0 \<longleftrightarrow> 100 * b + 4 * c + e = 399"
    unfolding y400 using assms(2-7) by (subst mod_last) auto
  ultimately show "leap_year y \<longleftrightarrow> e = 3 \<and> (c \<noteq> 24 \<or> b = 3)"
    unfolding leap_year_def using assms(2-7) by auto
qed

lemma year_of_day_start:
  assumes "0 \<le> yd" and "yd < (if leap_year y then 366 else 365)"
  shows "year_of_day (year_start y + yd) = (y, yd)"
proof -
  obtain a b c e where z: "y - 1 = 400 * a + 100 * b + 4 * c + e" and r: "0 \<le> b" "b \<le> 3" "0 \<le> c" "c \<le> 24" "0 \<le> e" "e \<le> 3"
    by (rule year_digits)
  note start = year_start_digits [OF z r]
  let ?r3 = "365 * e + yd"
  let ?r2 = "1461 * c + ?r3"
  let ?r1 = "36524 * b + ?r2"
  let ?d = "year_start y + yd"
  have d: "?d = 146097 * a + ?r1"
    using start(1) by simp
  have leap: "yd \<le> 364 \<or> yd = 365 \<and> e = 3 \<and> (c \<noteq> 24 \<or> b = 3)"
    using assms(2) start(2) by (auto split: if_splits)
  have b1: "0 \<le> ?r1" "?r1 < 146097" "0 \<le> ?r2" "0 \<le> ?r3" "?r3 < 1461"
    using r leap assms(1) by auto
  have n400: "?d div 146097 = a" "?d mod 146097 = ?r1"
    unfolding d using b1 by auto
  have n100: "min 3 (?r1 div 36524) = b"
  proof (cases "?r2 < 36524")
    case True
    then have "?r1 div 36524 = b"
      using b1 by (intro div_range) auto
    with r show ?thesis by simp
  next
    case False
    then have "b = 3"
      using r leap by auto
    moreover from False \<open>b = 3\<close> have "?r1 div 36524 = 4"
      using b1 by (intro div_range) auto
    ultimately show ?thesis by simp
  qed
  have n4: "?r2 div 1461 = c"
    using b1 by (intro div_range) auto
  have n1: "min 3 (?r3 div 365) = e"
  proof (cases "yd \<le> 364")
    case True
    then have "?r3 div 365 = e"
      using assms(1) by (intro div_range) auto
    with r show ?thesis by simp
  next
    case False
    with leap have "?r3 = 1460"
      by auto
    with False leap show ?thesis by simp
  qed
  have diff: "?r1 - 36524 * b = ?r2" "?r2 - 1461 * c = ?r3" "?r3 - 365 * e = yd"
    by simp_all
  have "year_of_day ?d = (400 * a + 100 * b + 4 * c + e + 1, yd)"
    unfolding year_of_day_def Let_def n400 n100 diff(1) n4 diff(2) n1 diff(3) ..
  with z show ?thesis by simp
qed

lemma month_lengths_pos: "\<forall>l \<in> set (month_lengths y). 0 < l"
  by (simp add: month_lengths_def)

lemma split_days_start:
  assumes "k < length ls" and "0 \<le> d" and "d < ls ! k" and "\<forall>l \<in> set ls. 0 < l"
  shows "split_days ls m (sum_list (take k ls) + d) = (m + int k, d)"
  using assms
proof (induction ls arbitrary: k m)
  case (Cons l ls)
  show ?case
  proof (cases k)
    case (Suc k')
    have "0 \<le> sum_list (take k' ls)"
      using Cons.prems(4) by (intro sum_list_nonneg) (auto dest!: in_set_takeD intro: less_imp_le)
    with Suc Cons show ?thesis by simp
  qed (use Cons.prems in simp)
qed simp

lemma month_of_day_start:
  assumes "1 \<le> m" and "m \<le> 12" and "1 \<le> d" and "d \<le> days_in_month y m"
  shows "month_of_day y (month_start y m + d - 1) = (m, d)"
    and "0 \<le> month_start y m + d - 1" and "month_start y m + d - 1 < (if leap_year y then 366 else 365)"
proof -
  have k: "nat (m - 1) < length (month_lengths y)"
    using assms(1,2) by (simp add: month_lengths_def)
  have "split_days (month_lengths y) 1 (sum_list (take (nat (m - 1)) (month_lengths y)) + (d - 1)) = (1 + int (nat (m - 1)), d - 1)"
    using k assms month_lengths_pos by (intro split_days_start) (auto simp: days_in_month_def)
  with assms(1) show "month_of_day y (month_start y m + d - 1) = (m, d)"
    by (simp add: month_of_day_def month_start_def algebra_simps)
  have "m = 1 \<or> m = 2 \<or> m = 3 \<or> m = 4 \<or> m = 5 \<or> m = 6 \<or> m = 7 \<or> m = 8 \<or> m = 9 \<or> m = 10 \<or> m = 11 \<or> m = 12"
    using assms(1,2) by presburger
  then consider "m = 1" | "m = 2" | "m = 3" | "m = 4" | "m = 5" | "m = 6" | "m = 7" | "m = 8" | "m = 9" | "m = 10" | "m = 11" | "m = 12"
    by blast
  note months = this
  show "0 \<le> month_start y m + d - 1"
    using assms(3) month_lengths_pos [of y]
    by (cases rule: months) (simp_all add: month_start_def month_lengths_def numeral_eq_Suc)
  show "month_start y m + d - 1 < (if leap_year y then 366 else 365)"
    using assms(4)
    by (cases rule: months; cases "leap_year y")
      (simp_all add: month_start_def days_in_month_def month_lengths_def numeral_eq_Suc)
qed

lemma year_of_day_inverse:
  assumes "year_of_day d = (y, yd)"
  shows "year_start y + yd = d" and "0 \<le> yd" and "yd < (if leap_year y then 366 else 365)"
proof -
  obtain a r1 where a: "d = 146097 * a + r1" "0 \<le> r1" "r1 < 146097"
    by (rule division [of 146097 d]) simp_all
  have n400: "d div 146097 = a" "d mod 146097 = r1"
    using a by simp_all
  obtain q r where q: "r1 = 36524 * q + r" "0 \<le> r" "r < 36524"
    by (rule division [of 36524 r1]) simp_all
  define b where "b = min 3 (r1 div 36524)"
  define r2 where "r2 = r1 - 36524 * b"
  have "r1 div 36524 = q"
    using q by (intro div_range) simp_all
  then have b: "0 \<le> b" "b \<le> 3" "0 \<le> r2" "r2 \<le> 36524" "b < 3 \<Longrightarrow> r2 < 36524"
    using a q by (auto simp: b_def r2_def min_def split: if_splits)
  obtain c r3 where c: "r2 = 1461 * c + r3" "0 \<le> r3" "r3 < 1461"
    by (rule division [of 1461 r2]) simp_all
  have n4: "r2 div 1461 = c"
    using c by (intro div_range) simp_all
  have c2: "0 \<le> c" "c \<le> 24"
    using b c by simp_all
  obtain q' r' where q': "r3 = 365 * q' + r'" "0 \<le> r'" "r' < 365"
    by (rule division [of 365 r3]) simp_all
  define e where "e = min 3 (r3 div 365)"
  have "r3 div 365 = q'"
    using q' by (intro div_range) simp_all
  then have e: "0 \<le> e" "e \<le> 3" "0 \<le> r3 - 365 * e" "r3 - 365 * e \<le> 365" "e < 3 \<Longrightarrow> r3 - 365 * e < 365"
    using c q' by (auto simp: e_def min_def split: if_splits)
  have r3: "r2 - 1461 * c = r3"
    using c(1) by simp
  have "year_of_day d = (400 * a + 100 * b + 4 * c + e + 1, r3 - 365 * e)"
    unfolding year_of_day_def Let_def n400 b_def [symmetric] r2_def [symmetric] n4 r3 e_def [symmetric] ..
  with assms have y: "y - 1 = 400 * a + 100 * b + 4 * c + e" "yd = r3 - 365 * e"
    by simp_all
  note start = year_start_digits [OF y(1) b(1,2) c2 e(1,2)]
  show "year_start y + yd = d"
    using start(1) y(2) a(1) r3 by (simp add: r2_def)
  show "0 \<le> yd"
    using e(3) y(2) by simp
  have "c = 24 \<and> e = 3 \<and> b < 3 \<Longrightarrow> r3 - 365 * e < 365"
    using b(5) c(1) by simp
  with start(2) e b(2) y(2) show "yd < (if leap_year y then 366 else 365)"
    by (cases "e = 3"; cases "c = 24"; cases "b = 3") simp_all
qed

lemma split_days_inverse:
  assumes "0 \<le> d" and "d < sum_list ls" and "split_days ls m d = (m', d')"
  shows "\<exists>k < length ls. m' = m + int k \<and> sum_list (take k ls) + d' = d \<and> 0 \<le> d' \<and> d' < ls ! k"
  using assms
proof (induction ls arbitrary: m d)
  case (Cons l ls)
  show ?case
  proof (cases "d < l")
    case True
    with Cons.prems show ?thesis
      by (intro exI [of _ 0]) simp
  next
    case False
    with Cons.prems Cons.IH [of "d - l" "m + 1"] obtain k where
        "k < length ls" "m' = m + 1 + int k" "sum_list (take k ls) + d' = d - l" "0 \<le> d'" "d' < ls ! k"
      by auto
    then show ?thesis
      by (intro exI [of _ "Suc k"]) simp
  qed
qed simp

lemma month_of_day_inverse:
  assumes "0 \<le> yd" and "yd < (if leap_year y then 366 else 365)" and "month_of_day y yd = (m, d)"
  shows "month_start y m + d - 1 = yd" "1 \<le> m" "m \<le> 12" "1 \<le> d" "d \<le> days_in_month y m"
proof -
  have "yd < sum_list (month_lengths y)"
    using assms(2) by (simp add: month_lengths_def split: if_splits)
  moreover obtain m' d' where s: "split_days (month_lengths y) 1 yd = (m', d')"
    by fastforce
  ultimately obtain k where k: "k < length (month_lengths y)" "m' = 1 + int k"
      "sum_list (take k (month_lengths y)) + d' = yd" "0 \<le> d'" "d' < month_lengths y ! k"
    using split_days_inverse [OF assms(1)] by blast
  have m: "m = 1 + int k" "d = d' + 1"
    using assms(3) k(2) by (simp_all add: month_of_day_def s)
  have len: "length (month_lengths y) = 12"
    by (simp add: month_lengths_def)
  show "month_start y m + d - 1 = yd" "1 \<le> m" "m \<le> 12" "1 \<le> d" "d \<le> days_in_month y m"
    using k m len by (simp_all add: month_start_def days_in_month_def)
qed

lemma civil_of_valid: "valid_civil (civil_of t)" and Date_civil_of: "Date (civil_of t) = t"
proof -
  let ?day = "t div nanos_per_day + epoch_day" and ?r = "t mod nanos_per_day"
  obtain y yd where y: "year_of_day ?day = (y, yd)"
    by fastforce
  note yy = year_of_day_inverse [OF y]
  obtain m d where m: "month_of_day y yd = (m, d)"
    by fastforce
  note mm = month_of_day_inverse [OF yy(2,3) m]
  have r: "0 \<le> ?r" "?r < 86400000000000"
    by (simp_all add: nanos_per_day_def)
  obtain s n where s: "?r = 1000000000 * s + n" "0 \<le> n" "n < 1000000000"
    by (rule division [of 1000000000 ?r]) simp_all
  have sn: "?r div 1000000000 = s" "?r mod 1000000000 = n"
    using s by simp_all
  obtain h x where h: "s = 3600 * h + x" "0 \<le> x" "x < 3600"
    by (rule division [of 3600 s]) simp_all
  obtain mi sec where mi: "x = 60 * mi + sec" "0 \<le> sec" "sec < 60"
    by (rule division [of 60 x]) simp_all
  have hms: "s div 3600 = h" "s mod 60 = sec" "s div 60 mod 60 = mi"
  proof -
    show "s div 3600 = h"
      using h by simp
    have s60: "s = 60 * (60 * h + mi) + sec"
      using h mi by simp
    show "s mod 60 = sec"
      by (rule int_mod_pos_eq [OF s60]) (use mi in simp_all)
    have "s div 60 = 60 * h + mi"
      by (rule int_div_pos_eq [OF s60]) (use mi in simp_all)
    then show "s div 60 mod 60 = mi"
      using h mi by simp
  qed
  have c: "civil_of t = \<lparr>cv_year = y, cv_month = m, cv_day = d, cv_hour = h, cv_minute = mi, cv_second = sec, cv_nano = n\<rparr>"
    unfolding civil_of_def Let_def y prod.case m sn hms ..
  have range: "0 \<le> h" "h < 24" "0 \<le> mi" "mi < 60"
    using r s h mi by linarith+
  show "valid_civil (civil_of t)"
    unfolding c using mm range mi s by (simp add: valid_civil_def)
  have "Date (civil_of t) = (t div nanos_per_day) * nanos_per_day + ?r"
    unfolding c Date_def using mm(1) yy(1) s h mi by simp
  then show "Date (civil_of t) = t"
    by simp
qed

lemma civil_of_Date:
  assumes "valid_civil c"
  shows "civil_of (Date c) = c"
proof -
  let ?r = "((cv_hour c * 60 + cv_minute c) * 60 + cv_second c) * 1000000000 + cv_nano c"
  let ?s = "(cv_hour c * 60 + cv_minute c) * 60 + cv_second c"
  let ?y = "cv_year c"
  note v = assms [unfolded valid_civil_def]
  note mm = month_of_day_start [of "cv_month c" "cv_day c" ?y]
  have r: "0 \<le> ?r" "?r < nanos_per_day"
    using v by (simp_all add: nanos_per_day_def)
  have day: "Date c div nanos_per_day + epoch_day = year_start ?y + (month_start ?y (cv_month c) + cv_day c - 1)"
      "Date c mod nanos_per_day = ?r"
  proof -
    have d: "Date c = nanos_per_day * (year_start ?y + month_start ?y (cv_month c) + cv_day c - 1 - epoch_day) + ?r"
      by (simp add: Date_def)
    show "Date c mod nanos_per_day = ?r"
      by (rule int_mod_pos_eq [OF d r])
    have "Date c div nanos_per_day = year_start ?y + month_start ?y (cv_month c) + cv_day c - 1 - epoch_day"
      by (rule int_div_pos_eq [OF d r])
    then show "Date c div nanos_per_day + epoch_day = year_start ?y + (month_start ?y (cv_month c) + cv_day c - 1)"
      by simp
  qed
  have y: "year_of_day (Date c div nanos_per_day + epoch_day) = (?y, month_start ?y (cv_month c) + cv_day c - 1)"
    unfolding day(1) using v mm by (intro year_of_day_start) auto
  have n: "0 \<le> cv_nano c" "cv_nano c < 1000000000" and sec: "0 \<le> cv_second c" "cv_second c < 60"
    using v by simp_all
  have s: "?r div 1000000000 = ?s" "?r mod 1000000000 = cv_nano c"
    by (rule int_div_pos_eq [OF _ n, of _ ?s] int_mod_pos_eq [OF _ n, of _ ?s], simp)+
  have hms: "?s div 3600 = cv_hour c" "?s div 60 mod 60 = cv_minute c" "?s mod 60 = cv_second c"
  proof -
    show "?s div 3600 = cv_hour c"
      using v by (intro div_range) auto
    have "?s div 60 = 60 * cv_hour c + cv_minute c"
      using v by (intro div_range) auto
    then show "?s div 60 mod 60 = cv_minute c"
      using v by simp
    show "?s mod 60 = cv_second c"
      by (rule int_mod_pos_eq [OF _ sec, of _ "cv_hour c * 60 + cv_minute c"]) simp
  qed
  have m: "month_of_day ?y (month_start ?y (cv_month c) + cv_day c - 1) = (cv_month c, cv_day c)"
    using v mm(1) by simp
  show ?thesis
    unfolding civil_of_def Let_def y prod.case day(2) m s hms by simp
qed

subsection \<open>The layout is a bijection\<close>

lemma length_pad [simp]: "length (pad w n) = w"
  by (induction w arbitrary: n) simp_all

lemma parse_digits_pad: "n < 10 ^ w \<Longrightarrow> parse_digits 10 0 (pad w n) = Some n"
proof (induction w arbitrary: n)
  case (Suc w)
  then have "parse_digits 10 0 (pad w (n div 10)) = Some (n div 10)"
    by (simp add: less_mult_imp_div_less mult.commute)
  then show ?case
    by (simp add: parse_digits_append digit_value_digit_char)
qed simp

lemma civil_text_length: "0 \<le> cv_year c \<Longrightarrow> cv_year c < 10000 \<Longrightarrow> length (civil_text c) = 30"
  by (simp add: civil_text_def year_text_def)

lemma number_at_pad:
  assumes "v = a @ pad w (nat i) @ b" and "length a = k" and "0 \<le> i" and "nat i < 10 ^ w"
  shows "number_at v k w = Some i"
  using assms by (simp add: number_at_def parse_digits_pad)

lemma civil_surj:
  "\<lparr>cv_year = cv_year c, cv_month = cv_month c, cv_day = cv_day c, cv_hour = cv_hour c,
    cv_minute = cv_minute c, cv_second = cv_second c, cv_nano = cv_nano c\<rparr> = c"
  by (cases c) simp

lemma char_at: "v = a @ x # b \<Longrightarrow> length a = k \<Longrightarrow> v ! k = x"
  by (auto simp: nth_append)

lemma ParseCanonical_text:
  assumes "valid_civil c" and "0 \<le> cv_year c" and "cv_year c < 10000"
  shows "ParseCanonical (civil_text c) = Some (Date c)"
proof -
  let ?v = "civil_text c"
  note v = assms(1) [unfolded valid_civil_def]
  have shape: "?v = pad 4 (nat (cv_year c)) @ ''-'' @ pad 2 (nat (cv_month c)) @ ''-'' @ pad 2 (nat (cv_day c)) @ ''T'' @
     pad 2 (nat (cv_hour c)) @ '':'' @ pad 2 (nat (cv_minute c)) @ '':'' @ pad 2 (nat (cv_second c)) @ ''.'' @
     pad 9 (nat (cv_nano c)) @ ''Z''"
    using assms(2,3) by (simp add: civil_text_def year_text_def)
  have day: "cv_day c \<le> 31"
  proof -
    have "month_lengths (cv_year c) ! nat (cv_month c - 1) \<in> set (month_lengths (cv_year c))"
      using v by (intro nth_mem) (auto simp: month_lengths_def)
    moreover have "\<forall>l \<in> set (month_lengths (cv_year c)). l \<le> 31"
      by (simp add: month_lengths_def)
    ultimately show ?thesis
      using v by (auto simp: days_in_month_def)
  qed
  have fits: "0 \<le> cv_year c" "nat (cv_year c) < 10000" "0 \<le> cv_month c" "nat (cv_month c) < 100" "0 \<le> cv_day c"
      "nat (cv_day c) < 100" "0 \<le> cv_hour c" "nat (cv_hour c) < 100" "0 \<le> cv_minute c" "nat (cv_minute c) < 100"
      "0 \<le> cv_second c" "nat (cv_second c) < 100" "0 \<le> cv_nano c" "nat (cv_nano c) < 1000000000"
    using v day assms(2,3) by auto
  have "number_at ?v 0 4 = Some (cv_year c)"
    by (rule number_at_pad [of _ "[]"]) (simp_all add: shape fits)
  moreover have "number_at ?v 5 2 = Some (cv_month c)"
    by (rule number_at_pad [of _ "pad 4 (nat (cv_year c)) @ ''-''"]) (simp_all add: shape fits)
  moreover have "number_at ?v 8 2 = Some (cv_day c)"
    by (rule number_at_pad [of _ "pad 4 (nat (cv_year c)) @ ''-'' @ pad 2 (nat (cv_month c)) @ ''-''"])
      (simp_all add: shape fits)
  moreover have "number_at ?v 11 2 = Some (cv_hour c)"
    by (rule number_at_pad [of _ "pad 4 (nat (cv_year c)) @ ''-'' @ pad 2 (nat (cv_month c)) @ ''-'' @
        pad 2 (nat (cv_day c)) @ ''T''"]) (simp_all add: shape fits)
  moreover have "number_at ?v 14 2 = Some (cv_minute c)"
    by (rule number_at_pad [of _ "pad 4 (nat (cv_year c)) @ ''-'' @ pad 2 (nat (cv_month c)) @ ''-'' @
        pad 2 (nat (cv_day c)) @ ''T'' @ pad 2 (nat (cv_hour c)) @ '':''"]) (simp_all add: shape fits)
  moreover have "number_at ?v 17 2 = Some (cv_second c)"
    by (rule number_at_pad [of _ "pad 4 (nat (cv_year c)) @ ''-'' @ pad 2 (nat (cv_month c)) @ ''-'' @
        pad 2 (nat (cv_day c)) @ ''T'' @ pad 2 (nat (cv_hour c)) @ '':'' @ pad 2 (nat (cv_minute c)) @ '':''"])
      (simp_all add: shape fits)
  moreover have "number_at ?v 20 9 = Some (cv_nano c)"
    by (rule number_at_pad [of _ "pad 4 (nat (cv_year c)) @ ''-'' @ pad 2 (nat (cv_month c)) @ ''-'' @
        pad 2 (nat (cv_day c)) @ ''T'' @ pad 2 (nat (cv_hour c)) @ '':'' @ pad 2 (nat (cv_minute c)) @ '':'' @
        pad 2 (nat (cv_second c)) @ ''.''"]) (simp_all add: shape fits)
  moreover have "?v ! 4 = CHR ''-''"
    by (rule char_at [of _ "pad 4 (nat (cv_year c))"]) (simp_all add: shape)
  moreover have "?v ! 7 = CHR ''-''"
    by (rule char_at [of _ "pad 4 (nat (cv_year c)) @
        ''-'' @ pad 2 (nat (cv_month c))"]) (simp_all add: shape)
  moreover have "?v ! 10 = CHR ''T''"
    by (rule char_at [of _ "pad 4 (nat (cv_year c)) @
        ''-'' @ pad 2 (nat (cv_month c)) @
        ''-'' @ pad 2 (nat (cv_day c))"]) (simp_all add: shape)
  moreover have "?v ! 13 = CHR '':''"
    by (rule char_at [of _ "pad 4 (nat (cv_year c)) @
        ''-'' @ pad 2 (nat (cv_month c)) @
        ''-'' @ pad 2 (nat (cv_day c)) @
        ''T'' @ pad 2 (nat (cv_hour c))"]) (simp_all add: shape)
  moreover have "?v ! 16 = CHR '':''"
    by (rule char_at [of _ "pad 4 (nat (cv_year c)) @
        ''-'' @ pad 2 (nat (cv_month c)) @
        ''-'' @ pad 2 (nat (cv_day c)) @
        ''T'' @ pad 2 (nat (cv_hour c)) @
        '':'' @ pad 2 (nat (cv_minute c))"]) (simp_all add: shape)
  moreover have "?v ! 19 = CHR ''.''"
    by (rule char_at [of _ "pad 4 (nat (cv_year c)) @
        ''-'' @ pad 2 (nat (cv_month c)) @
        ''-'' @ pad 2 (nat (cv_day c)) @
        ''T'' @ pad 2 (nat (cv_hour c)) @
        '':'' @ pad 2 (nat (cv_minute c)) @
        '':'' @ pad 2 (nat (cv_second c))"]) (simp_all add: shape)
  moreover have "?v ! 29 = CHR ''Z''"
    by (rule char_at [of _ "pad 4 (nat (cv_year c)) @
        ''-'' @ pad 2 (nat (cv_month c)) @
        ''-'' @ pad 2 (nat (cv_day c)) @
        ''T'' @ pad 2 (nat (cv_hour c)) @
        '':'' @ pad 2 (nat (cv_minute c)) @
        '':'' @ pad 2 (nat (cv_second c)) @
        ''.'' @ pad 9 (nat (cv_nano c))"]) (simp_all add: shape)
  ultimately show ?thesis
    using civil_text_length [OF assms(2,3)] assms(1) by (simp add: ParseCanonical_def civil_surj)
qed

lemma canonicalTimestamp_Format:
  assumes "0 \<le> Year t" and "Year t < 10000"
  shows "canonicalTimestamp (FormatCanonical t) = Some t"
  using ParseCanonical_text [OF civil_of_valid] assms
  by (simp add: canonicalTimestamp_def FormatCanonical_def Year_def Date_civil_of)

lemma canonicalTimestamp_SomeD: "canonicalTimestamp v = Some t \<Longrightarrow> v = FormatCanonical t"
  by (auto simp: canonicalTimestamp_def split: option.splits if_splits)

end
