(* ===== verification/Auth_Values.thy ===== *)
theory Auth_Values
  imports Go_Time Go_Json Contract_Values Contract_Vocabulary Access_Target
begin

text \<open>
  The values of \<open>internal/authorization\<close>: the package's errors (\<open>repository.go\<close>), the validators of
  \<open>validation.go\<close>, the sealed subject of \<open>subjects.go\<close>, and the rows of the tables \<open>principals\<close> and
  \<open>grants\<close> as the queries deliver them, with the checks made on them at start-up. A query is
  modelled by its \<open>WHERE\<close>, \<open>ORDER BY\<close> and \<open>LIMIT\<close> on a list of rows.
\<close>

datatype auth_error =
    ErrNotFound | ErrInvalidInput | ErrIdentityUnavailable | ErrResourceLimit | ErrStaleRevision | ErrConflict
  | ErrStaleCursor | ErrInvalidState | ErrAuthenticationRequired | ErrCredentialDomainMismatch
  | ErrAuthorizationUnavailable | ErrAdmissionUnavailable | ErrApprovalUnavailable | ErrAuthShuttingDown
  | ErrStorageUnavailable | UnclassifiedError

subsection \<open>Validators\<close>

definition validOpaqueID :: "string \<Rightarrow> bool" where
  "validOpaqueID value = ValidAuditID value"

text \<open>A control character: \<open>U+0000\<close> to \<open>U+001F\<close> and \<open>U+007F\<close> to \<open>U+009F\<close>, the latter encoded as \<open>C2 80\<close> to \<open>C2 9F\<close>.\<close>

fun has_control :: "string \<Rightarrow> bool" where
  "has_control [] = False"
| "has_control (c # cs) =
     (byte_val c < (32 :: nat) \<or> byte_val c = (127 :: nat)
      \<or> byte_val c = (194 :: nat) \<and> (case cs of [] \<Rightarrow> False | d # _ \<Rightarrow> byte_val d < (160 :: nat))
      \<or> has_control cs)"

definition validDisplayName :: "string \<Rightarrow> bool" where
  "validDisplayName value \<longleftrightarrow>
     utf8_valid value \<and> 1 \<le> length value \<and> int (length value) \<le> mustLimit ''display_name_bytes'' \<and>
     \<not> has_control value"

definition validRevision :: "string \<Rightarrow> bool" where
  "validRevision value =
     (case ParseUint 10 64 value of None \<Rightarrow> False | Some n \<Rightarrow> n > 0 \<and> FormatUint n = value)"

definition space_runes :: "string list" where
  "space_runes =
     map EncodeRune ([9, 10, 11, 12, 13, 32, 0x85, 0xA0, 0x1680] @ [0x2000 ..< 0x200B] @
       [0x2028, 0x2029, 0x202F, 0x205F, 0x3000])"

text \<open>\<open>strings.TrimSpace(value) == value\<close>: no white space at either end.\<close>

definition trimmed :: "string \<Rightarrow> bool" where
  "trimmed value \<longleftrightarrow> \<not> list_ex (\<lambda>r. HasPrefix value r \<or> HasSuffix value r) space_runes"

definition validGrantDescription :: "string option \<Rightarrow> bool" where
  "validGrantDescription value =
     (case value of
        None \<Rightarrow> True
      | Some v \<Rightarrow>
          utf8_valid v \<and> 1 \<le> length v \<and> int (length v) \<le> mustLimit ''grant_description_bytes'' \<and> trimmed v \<and>
          \<not> has_control v)"

definition name_ranges :: "(char \<times> char) list" where
  "name_ranges = [(CHR ''a'', CHR ''z''), (CHR ''A'', CHR ''Z''), (CHR ''0'', CHR ''9'')]"

definition upstream_byte :: "char \<Rightarrow> bool" where
  "upstream_byte b \<longleftrightarrow> list_ex (\<lambda>(low, high). low \<le> b \<and> b \<le> high) name_ranges \<or> b \<in> set ''_-.''"

definition validUpstreamName :: "string \<Rightarrow> bool" where
  "validUpstreamName value \<longleftrightarrow>
     1 \<le> length value \<and> int (length value) \<le> mustLimit ''tool_name_bytes'' \<and> list_all upstream_byte value"

definition validFingerprint :: "string \<Rightarrow> bool" where
  "validFingerprint value \<longleftrightarrow>
     length value = 16 \<and>
     list_all (\<lambda>c. \<not> (c < CHR ''0'' \<or> c > CHR ''9'' \<and> c < CHR ''a'' \<or> c > CHR ''f'')) value"

definition validGrantEffect :: "string \<Rightarrow> bool" where
  "validGrantEffect effect \<longleftrightarrow> effect = GrantEffect_string GrantAllow \<or> effect = GrantEffect_string GrantDeny"

definition validPrincipalState :: "string \<Rightarrow> bool" where
  "validPrincipalState state \<longleftrightarrow>
     state = PrincipalState_string PrincipalActive \<or> state = PrincipalState_string PrincipalDisabled"

definition validVisibility :: "string \<Rightarrow> bool" where
  "validVisibility visibility \<longleftrightarrow>
     visibility = PrincipalVisibility_string VisibilityRequestable \<or>
     visibility = PrincipalVisibility_string VisibilityAllowedOnly \<or>
     visibility = PrincipalVisibility_string VisibilityAll"

definition validEvaluationTime :: "instant \<Rightarrow> bool" where
  "validEvaluationTime t \<longleftrightarrow> Year t \<ge> 1 \<and> Year t \<le> 9999 \<and> UnixMilli t \<ge> 0 \<and> UnixMilli t \<le> 2 ^ 48 - 1"

definition validObservedAuthorizationRevision :: "string \<Rightarrow> bool" where
  "validObservedAuthorizationRevision revision =
     (if revision = [] then True
      else (case ParseInt revision of None \<Rightarrow> False | Some n \<Rightarrow> n \<ge> 0 \<and> FormatInt n = revision))"

definition validPositiveSubjectRevision :: "string \<Rightarrow> bool" where
  "validPositiveSubjectRevision value =
     (case ParseInt value of None \<Rightarrow> False | Some n \<Rightarrow> n > 0 \<and> FormatInt n = value)"

subsection \<open>Rows\<close>

record principal_row =
  pr_sequence :: int
  pr_id :: string
  pr_displayName :: string
  pr_state :: string
  pr_visibility :: string
  pr_revision :: int
  pr_credentialRevision :: int
  pr_credentialID :: "string option"
  pr_verifier :: "string option"
  pr_fingerprint :: "string option"
  pr_credentialAt :: "string option"
  pr_createdAt :: string
  pr_updatedAt :: string

record grant_row =
  row_sequence :: int
  row_id :: string
  row_description :: "string option"
  row_revision :: string
  row_principal :: string
  row_effect :: string
  row_server :: string
  row_upstream :: "string option"
  row_constraint :: "string option"
  row_expires :: "string option"
  row_created :: string
  row_readOnly :: bool
  row_imported :: bool

definition slot_present :: "principal_row \<Rightarrow> bool" where
  "slot_present p \<longleftrightarrow>
     pr_credentialID p \<noteq> None \<or> pr_verifier p \<noteq> None \<or> pr_fingerprint p \<noteq> None \<or> pr_credentialAt p \<noteq> None"

definition slot_complete :: "principal_row \<Rightarrow> bool" where
  "slot_complete p \<longleftrightarrow>
     pr_credentialID p \<noteq> None \<and> (case pr_verifier p of None \<Rightarrow> False | Some v \<Rightarrow> length v = 32) \<and> pr_fingerprint p \<noteq> None \<and>
     pr_credentialAt p \<noteq> None"

definition issued_between :: "principal_row \<Rightarrow> instant \<Rightarrow> instant \<Rightarrow> bool" where
  "issued_between p created updated \<longleftrightarrow>
     validOpaqueID (the (pr_credentialID p)) \<and> validFingerprint (the (pr_fingerprint p)) \<and>
     (case canonicalTimestamp (the (pr_credentialAt p)) of
        None \<Rightarrow> False
      | Some issued \<Rightarrow> \<not> issued < created \<and> \<not> issued > updated)"

text \<open>The loop of \<open>validatePrincipals\<close>: the identifiers, or \<open>None\<close> for a malformed table.\<close>

fun validate_principal_rows :: "int \<Rightarrow> int \<Rightarrow> string list \<Rightarrow> principal_row list \<Rightarrow> string list option" where
  "validate_principal_rows maximum previous ids [] = Some ids"
| "validate_principal_rows maximum previous ids (p # ps) =
     (if int (length ids) \<ge> maximum then None
      else if pr_sequence p \<le> previous \<or> \<not> validOpaqueID (pr_id p) \<or> \<not> validDisplayName (pr_displayName p)
              \<or> \<not> validPrincipalState (pr_state p) \<or> \<not> validVisibility (pr_visibility p)
              \<or> pr_revision p \<le> 0 \<or> pr_credentialRevision p < 0 then None
      else
        (case (canonicalTimestamp (pr_createdAt p), canonicalTimestamp (pr_updatedAt p)) of
           (Some created, Some updated) \<Rightarrow>
             if updated < created then None
             else if slot_present p \<noteq> slot_complete p \<or> pr_credentialRevision p = 0 \<and> slot_complete p
                     \<or> pr_state p = PrincipalState_string PrincipalDisabled \<and> slot_complete p then None
             else if slot_complete p \<and> \<not> issued_between p created updated then None
             else validate_principal_rows maximum (pr_sequence p)
                    (if pr_id p \<in> set ids then ids else pr_id p # ids) ps
         | _ \<Rightarrow> None))"

definition validatePrincipals :: "principal_row list \<Rightarrow> auth_error + string list" where
  "validatePrincipals rows =
     (let maximum = mustLimit ''principals'' in
      case validate_principal_rows maximum 0 [] (take (nat (maximum + 1)) (sort_key pr_sequence rows)) of
        None \<Rightarrow> Inl ErrInvalidState
      | Some ids \<Rightarrow> Inr ids)"

record AdmittedSubject =
  as_owner :: nat
  as_principalID :: string
  as_principalRevision :: string
  as_credentialID :: string
  as_credentialRevision :: string
  as_authorizationRevision :: string

definition validFor :: "AdmittedSubject \<Rightarrow> nat \<Rightarrow> bool" where
  "validFor subject repository \<longleftrightarrow>
     as_owner subject = repository \<and> validOpaqueID (as_principalID subject) \<and>
     validOpaqueID (as_credentialID subject) \<and> validPositiveSubjectRevision (as_principalRevision subject) \<and>
     validPositiveSubjectRevision (as_credentialRevision subject) \<and>
     validObservedAuthorizationRevision (as_authorizationRevision subject) \<and> as_authorizationRevision subject \<noteq> []"

lemma validOpaqueID_nonempty [simp]: "\<not> validOpaqueID []"
  by (simp add: validOpaqueID_def)

lemma effect_strings [simp]:
  "GrantEffect_string GrantAllow = ''allow''" "GrantEffect_string GrantDeny = ''deny''"
  by simp_all

end
