(* ===== verification/Constraint.thy ===== *)
theory Constraint
  imports Auth_Values Strict_Json_Facts
begin

text \<open>
  \<open>internal/authorization/constraints.go\<close> and the matching half of \<open>evaluator.go\<close>: the constraint a grant
  may put on the arguments of a call. A constraint is a list of atoms, each a JSON pointer with an
  expected scalar or an anchored regular expression. Go's regular expressions are a parameter
  \<open>regex_lib\<close>: which patterns parse and compile, how large their programs are, and what they match.

  Matching is charged against a budget of regular-expression work shared by all grants of one
  evaluation; when it answers, the answer is exactly that of the unbounded conjunction.
\<close>

record regex_lib =
  rx_parses :: "string \<Rightarrow> bool"
  rx_program :: "string \<Rightarrow> (nat \<times> nat) option"
  rx_compiles :: "string \<Rightarrow> bool"
  rx_match :: "string \<Rightarrow> string \<Rightarrow> bool"

datatype ConstraintOperator = ConstraintEquals | ConstraintRegex

definition ConstraintOperator_string :: "ConstraintOperator \<Rightarrow> string" where
  "ConstraintOperator_string operator = (case operator of ConstraintEquals \<Rightarrow> ''equals'' | ConstraintRegex \<Rightarrow> ''regex'')"

datatype ConstraintType = ConstraintNull | ConstraintBoolean | ConstraintString | ConstraintNumber

record ConstraintAtom =
  ca_Operator :: ConstraintOperator
  ca_Pointer :: string
  ca_Type :: ConstraintType
  ca_Boolean :: bool
  ca_String :: string
  ca_Number :: string

record constraintAtom =
  at_operator :: ConstraintOperator
  at_pointer :: string
  at_segments :: "string list"
  at_expected :: Value
  at_expression :: "string option"
  at_regexInstructions :: int
  at_regexRunes :: int

record CompiledConstraint =
  kc_raw :: string
  kc_version :: int
  kc_atoms :: "constraintAtom list"

record constraintError =
  ke_field :: string
  ke_message :: string

definition invalidConstraintAt :: "string \<Rightarrow> string \<Rightarrow> constraintError" where
  "invalidConstraintAt place reason = \<lparr>ke_field = place, ke_message = reason\<rparr>"

definition invalidConstraint :: "string \<Rightarrow> constraintError" where
  "invalidConstraint reason = invalidConstraintAt [] reason"

subsection \<open>JSON pointers\<close>

fun decode_token :: "string \<Rightarrow> string option" where
  "decode_token [] = Some []"
| "decode_token (c # cs) =
     (if c \<noteq> CHR ''~'' then map_option ((#) c) (decode_token cs)
      else
        (case cs of
           [] \<Rightarrow> None
         | d # ds \<Rightarrow>
             if d = CHR ''0'' then map_option ((#) CHR ''~'') (decode_token ds)
             else if d = CHR ''1'' then map_option ((#) CHR ''/'') (decode_token ds)
             else None))"

fun decode_tokens :: "string list \<Rightarrow> string list option" where
  "decode_tokens [] = Some []"
| "decode_tokens (t # ts) =
     (case decode_token t of
        None \<Rightarrow> None
      | Some s \<Rightarrow> (case decode_tokens ts of None \<Rightarrow> None | Some ss \<Rightarrow> Some (s # ss)))"

definition compileJSONPointer :: "string \<Rightarrow> string list option" where
  "compileJSONPointer pointer =
     (case pointer of
        [] \<Rightarrow> None
      | c # cs \<Rightarrow>
          if c \<noteq> CHR ''/'' \<or> int (length pointer) > mustLimit ''constraint_pointer_bytes'' then None
          else decode_tokens (Split CHR ''/'' cs))"

fun escape_token :: "string \<Rightarrow> string" where
  "escape_token [] = []"
| "escape_token (c # cs) =
     (if c = CHR ''~'' then ''~0'' else if c = CHR ''/'' then ''~1'' else [c]) @ escape_token cs"

definition constraintField :: "string \<Rightarrow> string \<Rightarrow> string" where
  "constraintField operator pointer = ''/'' @ operator @ ''/'' @ escape_token pointer"

subsection \<open>Numbers\<close>

text \<open>
  \<open>new(big.Rat).SetString\<close> on a JSON number token: the value is the digits as an integer times a power
  of ten; powers beyond a million are refused, and a zero mantissa is zero whatever the exponent.
\<close>

definition exponent_of :: "string \<Rightarrow> int option" where
  "exponent_of s =
     (case s of
        [] \<Rightarrow> Some 0
      | e # ds \<Rightarrow> (if e = CHR ''e'' \<or> e = CHR ''E'' then ParseInt ds else None))"

definition decimal_parts :: "string \<Rightarrow> (bool \<times> nat \<times> int) option" where
  "decimal_parts s =
     (let neg = HasPrefix s ''-'';
          u = (if neg then drop 1 s else s);
          ip = takeWhile json_digit u; r1 = dropWhile json_digit u;
          (fp, r2) = (case r1 of
                        [] \<Rightarrow> ([], [])
                      | c # cs \<Rightarrow> if c = CHR ''.'' then (takeWhile json_digit cs, dropWhile json_digit cs) else ([], r1)) in
      case (parse_digits 10 0 (ip @ fp), exponent_of r2) of
        (Some m, Some e) \<Rightarrow> if ip @ fp = [] then None else Some (neg, m, e - int (length fp))
      | _ \<Rightarrow> None)"

definition jsonNumberEquals :: "string \<Rightarrow> int \<Rightarrow> bool" where
  "jsonNumberEquals value expected =
     (case decimal_parts value of
        None \<Rightarrow> False
      | Some (neg, m, e) \<Rightarrow>
          if m = 0 then expected = 0
          else if abs e > 1000000 then False
          else
            let signed = (if neg then - int m else int m) in
            if e \<ge> 0 then signed * 10 ^ nat e = expected else signed = expected * 10 ^ nat (- e))"

subsection \<open>Compiling\<close>

fun scalar_value :: "Value \<Rightarrow> bool" where
  "scalar_value (ValueObject _) = False"
| "scalar_value (ValueArray _) = False"
| "scalar_value _ = True"

definition compile_equal :: "Member \<Rightarrow> constraintError + constraintAtom" where
  "compile_equal m =
     (let place = constraintField ''equals'' (mem_Name m) in
      case compileJSONPointer (mem_Name m) of
        None \<Rightarrow> Inl (invalidConstraintAt place ''JSON pointer is invalid'')
      | Some segments \<Rightarrow>
          if \<not> scalar_value (mem_Value m) then Inl (invalidConstraintAt place ''equality value must be scalar'')
          else Inr \<lparr>at_operator = ConstraintEquals, at_pointer = mem_Name m, at_segments = segments,
                    at_expected = mem_Value m, at_expression = None, at_regexInstructions = 0, at_regexRunes = 0\<rparr>)"

definition compileEquals :: "Value \<Rightarrow> constraintError + constraintAtom list" where
  "compileEquals value =
     (case value of
        ValueObject members \<Rightarrow> map_result compile_equal members
      | _ \<Rightarrow> Inl (invalidConstraintAt ''/equals'' ''equals must be an object''))"

definition anchor :: "string \<Rightarrow> string" where
  "anchor pattern = [backslash] @ ''A(?:'' @ pattern @ '')'' @ [backslash] @ ''z''"

definition compile_pattern :: "regex_lib \<Rightarrow> Member \<Rightarrow> int \<Rightarrow> constraintError + constraintAtom \<times> int" where
  "compile_pattern rx m totalInstructions =
     (let place = constraintField ''regex'' (mem_Name m) in
      case compileJSONPointer (mem_Name m) of
        None \<Rightarrow> Inl (invalidConstraintAt place ''JSON pointer is invalid'')
      | Some segments \<Rightarrow>
          (case mem_Value m of
             ValueString pattern \<Rightarrow>
               if int (length pattern) > mustLimit ''constraint_regex_pattern_bytes''
               then Inl (invalidConstraintAt place ''pattern exceeds the byte limit'')
               else if \<not> rx_parses rx pattern \<or> \<not> rx_parses rx (anchor pattern)
               then Inl (invalidConstraintAt place ''pattern is not valid RE2'')
               else
                 (case rx_program rx (anchor pattern) of
                    None \<Rightarrow> Inl (invalidConstraintAt place ''compiled pattern exceeds the size limit'')
                  | Some (instructions, runes) \<Rightarrow>
                      if int instructions > mustLimit ''constraint_regex_program_instructions''
                      then Inl (invalidConstraintAt place ''compiled pattern exceeds the size limit'')
                      else
                        let spent = totalInstructions + int instructions in
                        if spent > mustLimit ''constraint_regex_total_program_instructions''
                        then Inl (invalidConstraintAt ''/regex'' ''compiled patterns exceed the total size limit'')
                        else if \<not> rx_compiles rx (anchor pattern)
                        then Inl (invalidConstraintAt place ''pattern is not valid RE2'')
                        else Inr (\<lparr>at_operator = ConstraintRegex, at_pointer = mem_Name m, at_segments = segments,
                                   at_expected = mem_Value m, at_expression = Some (anchor pattern),
                                   at_regexInstructions = int instructions, at_regexRunes = int runes\<rparr>, spent))
           | _ \<Rightarrow> Inl (invalidConstraintAt place ''pattern must be a string'')))"

fun compile_patterns :: "regex_lib \<Rightarrow> int \<Rightarrow> Member list \<Rightarrow> constraintError + constraintAtom list" where
  "compile_patterns rx spent [] = Inr []"
| "compile_patterns rx spent (m # ms) =
     (case compile_pattern rx m spent of
        Inl e \<Rightarrow> Inl e
      | Inr (a, spent') \<Rightarrow>
          (case compile_patterns rx spent' ms of Inl e \<Rightarrow> Inl e | Inr as \<Rightarrow> Inr (a # as)))"

definition compileRegex :: "regex_lib \<Rightarrow> Value \<Rightarrow> constraintError + constraintAtom list" where
  "compileRegex rx value =
     (case value of
        ValueObject members \<Rightarrow> compile_patterns rx 0 members
      | _ \<Rightarrow> Inl (invalidConstraintAt ''/regex'' ''regex must be an object''))"

text \<open>The members of a version 2 constraint: whether the version was seen, and the two operators.\<close>

fun scan_root ::
  "bool \<times> Value option \<times> Value option \<Rightarrow> Member list \<Rightarrow> constraintError + bool \<times> Value option \<times> Value option" where
  "scan_root acc [] = Inr acc"
| "scan_root (saw, equals, expressions) (m # ms) =
     (if mem_Name m = ''version'' then
        (case mem_Value m of
           ValueNumber n \<Rightarrow>
             if jsonNumberEquals n 2 then scan_root (True, equals, expressions) ms
             else Inl (invalidConstraint ''version must be 2'')
         | _ \<Rightarrow> Inl (invalidConstraint ''version must be 2''))
      else if mem_Name m = ''equals'' then scan_root (saw, Some (mem_Value m), expressions) ms
      else if mem_Name m = ''regex'' then scan_root (saw, equals, Some (mem_Value m)) ms
      else Inl (invalidConstraint ''root contains an unknown member''))"

definition constraint_options :: Options where
  "constraint_options =
     \<lparr>MaxBytes = mustLimit ''constraint_bytes'', MaxDepth = mustLimit ''json_depth'', RejectUnknownMembers = False\<rparr>"

definition constraint_root :: "Member list \<Rightarrow> constraintError + int \<times> Value option \<times> Value option" where
  "constraint_root members =
     (if length members = 1 \<and> mem_Name (hd members) = ''equals'' then Inr (1, Some (mem_Value (hd members)), None)
      else
        (case scan_root (False, None, None) members of
           Inl e \<Rightarrow> Inl e
         | Inr (saw, eq, ex) \<Rightarrow>
             if \<not> saw then Inl (invalidConstraint ''version 2 is required'') else Inr (2, eq, ex)))"

definition optional_atoms ::
  "(Value \<Rightarrow> constraintError + constraintAtom list) \<Rightarrow> Value option \<Rightarrow> constraintError + constraintAtom list" where
  "optional_atoms compile value = (case value of None \<Rightarrow> Inr [] | Some v \<Rightarrow> compile v)"

definition CompileConstraint :: "regex_lib \<Rightarrow> string \<Rightarrow> constraintError + CompiledConstraint" where
  "CompileConstraint rx contents =
     (case ParseValue contents constraint_options of
        Inl _ \<Rightarrow> Inl (invalidConstraint ''JSON is malformed'')
      | Inr (ValueObject members) \<Rightarrow>
          (case constraint_root members of
             Inl e \<Rightarrow> Inl e
           | Inr (version, equals, expressions) \<Rightarrow>
               (case optional_atoms compileEquals equals of
                  Inl e \<Rightarrow> Inl e
                | Inr atoms1 \<Rightarrow>
                    (case optional_atoms (compileRegex rx) expressions of
                       Inl e \<Rightarrow> Inl e
                     | Inr atoms2 \<Rightarrow>
                         let atoms = atoms1 @ atoms2 in
                         if length atoms < 1 \<or> int (length atoms) > mustLimit ''constraint_atoms''
                         then Inl (invalidConstraint ''total atom count is invalid'')
                         else Inr \<lparr>kc_raw = contents, kc_version = version, kc_atoms = atoms\<rparr>)))
      | Inr _ \<Rightarrow> Inl (invalidConstraint ''root must be an object''))"

definition cacheWeight :: "CompiledConstraint \<Rightarrow> int" where
  "cacheWeight c =
     int (length (kc_raw c)) * 64 + int (length (kc_atoms c)) * 512 +
     sum_list (map (\<lambda>a. at_regexInstructions a * 64 + at_regexRunes a * 4) (kc_atoms c))"

definition zero_atom :: "ConstraintOperator \<Rightarrow> string \<Rightarrow> ConstraintAtom" where
  "zero_atom operator pointer =
     \<lparr>ca_Operator = operator, ca_Pointer = pointer, ca_Type = ConstraintNull, ca_Boolean = False,
      ca_String = [], ca_Number = []\<rparr>"

definition Atom :: "constraintAtom \<Rightarrow> ConstraintAtom" where
  "Atom a =
     (let z = zero_atom (at_operator a) (at_pointer a) in
      case at_expected a of
        ValueBoolean b \<Rightarrow> z\<lparr>ca_Type := ConstraintBoolean, ca_Boolean := b\<rparr>
      | ValueString s \<Rightarrow> z\<lparr>ca_Type := ConstraintString, ca_String := s\<rparr>
      | ValueNumber n \<Rightarrow> z\<lparr>ca_Type := ConstraintNumber, ca_Number := n\<rparr>
      | _ \<Rightarrow> z)"

definition Atoms :: "CompiledConstraint \<Rightarrow> ConstraintAtom list" where
  "Atoms c = map Atom (kc_atoms c)"

subsection \<open>Matching\<close>

fun valueAtObjectPath :: "Value \<Rightarrow> string list \<Rightarrow> Value option" where
  "valueAtObjectPath current [] = Some current"
| "valueAtObjectPath current (segment # segments) =
     (case current of
        ValueObject members \<Rightarrow>
          (case find (\<lambda>m. mem_Name m = segment) members of
             None \<Rightarrow> None
           | Some m \<Rightarrow> valueAtObjectPath (mem_Value m) segments)
      | _ \<Rightarrow> None)"

definition scalarValuesEqual :: "Value \<Rightarrow> Value \<Rightarrow> bool" where
  "scalarValuesEqual actual expected =
     (case (actual, expected) of
        (ValueNull, ValueNull) \<Rightarrow> True
      | (ValueBoolean a, ValueBoolean b) \<Rightarrow> a = b
      | (ValueString a, ValueString b) \<Rightarrow> a = b
      | (ValueNumber a, ValueNumber b) \<Rightarrow> a = b
      | _ \<Rightarrow> False)"

definition atom_regex :: "regex_lib \<Rightarrow> constraintAtom \<Rightarrow> string \<Rightarrow> bool" where
  "atom_regex rx a s = (case at_expression a of None \<Rightarrow> False | Some e \<Rightarrow> rx_match rx e s)"

text \<open>One pass over the atoms; the budget is returned with the answer.\<close>

fun match_atoms :: "regex_lib \<Rightarrow> constraintAtom list \<Rightarrow> Value \<Rightarrow> int \<Rightarrow> (auth_error + bool) \<times> int" where
  "match_atoms rx [] arguments work = (Inr True, work)"
| "match_atoms rx (a # as) arguments work =
     (case valueAtObjectPath arguments (at_segments a) of
        None \<Rightarrow> (Inr False, work)
      | Some actual \<Rightarrow>
          (case at_operator a of
             ConstraintEquals \<Rightarrow>
               if \<not> scalarValuesEqual actual (at_expected a) then (Inr False, work)
               else match_atoms rx as arguments work
           | ConstraintRegex \<Rightarrow>
               (case actual of
                  ValueString s \<Rightarrow>
                    let inputUnits = (if length s = 0 then 1 else int (length s)) in
                    if at_regexInstructions a < 1 \<or> inputUnits > work div at_regexInstructions a
                    then (Inl ErrAuthorizationUnavailable, work)
                    else
                      let work1 = work - inputUnits * at_regexInstructions a in
                      if \<not> atom_regex rx a s then (Inr False, work1)
                      else match_atoms rx as arguments work1
                | _ \<Rightarrow> (Inr False, work))))"

definition constraintMatches ::
  "regex_lib \<Rightarrow> CompiledConstraint \<Rightarrow> Value \<Rightarrow> int \<Rightarrow> (auth_error + bool) \<times> int" where
  "constraintMatches rx c arguments work = match_atoms rx (kc_atoms c) arguments work"

subsection \<open>Pointers\<close>

lemma decode_escape_token [simp]: "decode_token (escape_token t) = Some t"
  by (induction t) auto

lemma escape_token_no_slash: "CHR ''/'' \<notin> set (escape_token t)"
  by (induction t) auto

lemma decode_tokens_escape [simp]: "decode_tokens (map escape_token ts) = Some ts"
  by (induction ts) simp_all

definition pointer_of :: "string list \<Rightarrow> string" where
  "pointer_of segments = CHR ''/'' # Join CHR ''/'' (map escape_token segments)"

lemma compileJSONPointer_pointer_of:
  assumes "segments \<noteq> []" and "int (length (pointer_of segments)) \<le> mustLimit ''constraint_pointer_bytes''"
  shows "compileJSONPointer (pointer_of segments) = Some segments"
proof -
  have "Split CHR ''/'' (Join CHR ''/'' (map escape_token segments)) = map escape_token segments"
    using assms(1) escape_token_no_slash by (intro Split_Join) auto
  with assms(2) show ?thesis
    by (simp add: compileJSONPointer_def pointer_of_def)
qed

subsection \<open>Matching without a budget\<close>

definition atom_holds :: "regex_lib \<Rightarrow> Value \<Rightarrow> constraintAtom \<Rightarrow> bool" where
  "atom_holds rx arguments a =
     (case valueAtObjectPath arguments (at_segments a) of
        None \<Rightarrow> False
      | Some actual \<Rightarrow>
          (case at_operator a of
             ConstraintEquals \<Rightarrow> scalarValuesEqual actual (at_expected a)
           | ConstraintRegex \<Rightarrow> (case actual of ValueString s \<Rightarrow> atom_regex rx a s | _ \<Rightarrow> False)))"

definition constraint_holds :: "regex_lib \<Rightarrow> CompiledConstraint \<Rightarrow> Value \<Rightarrow> bool" where
  "constraint_holds rx c arguments \<longleftrightarrow> list_all (atom_holds rx arguments) (kc_atoms c)"

text \<open>What one atom can cost on given arguments.\<close>

definition atom_cost :: "Value \<Rightarrow> constraintAtom \<Rightarrow> int" where
  "atom_cost arguments a =
     (case (at_operator a, valueAtObjectPath arguments (at_segments a)) of
        (ConstraintRegex, Some (ValueString s)) \<Rightarrow> max 1 (int (length s)) * at_regexInstructions a
      | _ \<Rightarrow> 0)"

definition positive_atoms :: "constraintAtom list \<Rightarrow> bool" where
  "positive_atoms as \<longleftrightarrow> (\<forall>a \<in> set as. at_operator a = ConstraintRegex \<longrightarrow> at_regexInstructions a \<ge> 1)"

lemma match_atoms_answer:
  "match_atoms rx as arguments work = (Inr b, work') \<Longrightarrow> b = list_all (atom_holds rx arguments) as"
proof (induction as arbitrary: work)
  case (Cons a as)
  show ?case
  proof (cases "valueAtObjectPath arguments (at_segments a)")
    case None
    with Cons.prems show ?thesis by (simp add: atom_holds_def)
  next
    case (Some actual)
    show ?thesis
    proof (cases "at_operator a")
      case ConstraintEquals
      with Some Cons show ?thesis by (simp add: atom_holds_def split: if_splits)
    next
      case ConstraintRegex
      with Some Cons show ?thesis
        by (cases actual) (simp_all add: atom_holds_def Let_def split: if_splits)
    qed
  qed
qed simp

lemma atom_cost_nonneg: "positive_atoms (a # as) \<Longrightarrow> 0 \<le> atom_cost arguments a"
  by (auto simp: atom_cost_def positive_atoms_def split: ConstraintOperator.splits option.splits Value.splits)

lemma atom_cost_sum_nonneg: "positive_atoms as \<Longrightarrow> 0 \<le> sum_list (map (atom_cost arguments) as)"
proof (induction as)
  case (Cons a as)
  have "positive_atoms as" using Cons.prems by (simp add: positive_atoms_def)
  with Cons.IH atom_cost_nonneg [OF Cons.prems] show ?case by simp
qed simp

lemma budget_div: "(1 :: int) \<le> i \<Longrightarrow> u * i \<le> w \<Longrightarrow> u \<le> w div i"
proof -
  assume "1 \<le> i" and "u * i \<le> w"
  then have "u * i div i \<le> w div i" by (intro zdiv_mono1) simp_all
  with \<open>1 \<le> i\<close> show ?thesis by simp
qed

text \<open>A budget that covers the cost is enough, and what is left is at least the difference.\<close>

lemma match_atoms_enough:
  assumes "positive_atoms as" and "sum_list (map (atom_cost arguments) as) \<le> work"
  shows "\<exists>b work'. match_atoms rx as arguments work = (Inr b, work') \<and>
           work - sum_list (map (atom_cost arguments) as) \<le> work'"
  using assms
proof (induction as arbitrary: work)
  case (Cons a as)
  have pos: "positive_atoms as" using Cons.prems(1) by (simp add: positive_atoms_def)
  note rest = atom_cost_sum_nonneg [OF pos, of arguments]
  note nonneg = atom_cost_nonneg [OF Cons.prems(1), of arguments]
  show ?case
  proof (cases "valueAtObjectPath arguments (at_segments a)")
    case None
    with rest nonneg show ?thesis by (intro exI [of _ False]) simp
  next
    case (Some actual)
    show ?thesis
    proof (cases "at_operator a = ConstraintRegex \<and> (\<exists>s. actual = ValueString s)")
      case True
      then obtain s where rgx: "at_operator a = ConstraintRegex" and s: "actual = ValueString s" by blast
      let ?u = "if length s = 0 then 1 else int (length s)"
      let ?w1 = "work - ?u * at_regexInstructions a"
      have units: "?u = max 1 (int (length s))" by (cases s) auto
      have i: "1 \<le> at_regexInstructions a" using Cons.prems(1) rgx by (simp add: positive_atoms_def)
      have cost: "atom_cost arguments a = ?u * at_regexInstructions a"
        unfolding units by (simp add: atom_cost_def rgx Some s)
      then have "?u * at_regexInstructions a \<le> work" using Cons.prems(2) rest by simp
      from budget_div [OF i this] i
      have step: "match_atoms rx (a # as) arguments work =
          (if \<not> atom_regex rx a s then (Inr False, ?w1) else match_atoms rx as arguments ?w1)"
        by (simp add: Some rgx s Let_def)
      obtain b w' where "match_atoms rx as arguments ?w1 = (Inr b, w')"
          "?w1 - sum_list (map (atom_cost arguments) as) \<le> w'"
        using Cons.IH [OF pos, of ?w1] Cons.prems(2) cost by auto
      with step cost rest show ?thesis
        by (cases "atom_regex rx a s") (auto simp del: match_atoms.simps intro: exI [of _ False])
    next
      case False
      then have step: "match_atoms rx (a # as) arguments work = (Inr False, work) \<or>
          match_atoms rx (a # as) arguments work = match_atoms rx as arguments work"
        using Some by (cases "at_operator a"; cases actual) simp_all
      obtain b w' where "match_atoms rx as arguments work = (Inr b, w')"
          "work - sum_list (map (atom_cost arguments) as) \<le> w'"
        using Cons.IH [OF pos, of work] Cons.prems(2) nonneg by auto
      with step nonneg rest show ?thesis by auto
    qed
  qed
qed (auto intro: exI [of _ True])

subsection \<open>What compiles\<close>

definition regex_programs_start :: "regex_lib \<Rightarrow> bool" where
  "regex_programs_start rx \<longleftrightarrow> (\<forall>p i r. rx_program rx p = Some (i, r) \<longrightarrow> i \<ge> 1)"

lemma compile_pattern_Inr:
  "compile_pattern rx m spent = Inr (a, spent') \<Longrightarrow>
     at_operator a = ConstraintRegex \<and> at_pointer a = mem_Name m \<and> compileJSONPointer (mem_Name m) = Some (at_segments a) \<and>
     at_expected a = mem_Value m \<and>
     (\<exists>pattern i r. mem_Value m = ValueString pattern \<and> at_expression a = Some (anchor pattern) \<and>
        rx_program rx (anchor pattern) = Some (i, r) \<and> at_regexInstructions a = int i) \<and>
     spent' = spent + at_regexInstructions a \<and> spent' \<le> mustLimit ''constraint_regex_total_program_instructions''"
  by (auto simp: compile_pattern_def Let_def split: option.splits Value.splits if_splits)

lemma compile_patterns_total:
  assumes "compile_patterns rx spent ms = Inr as" and "spent \<le> mustLimit ''constraint_regex_total_program_instructions''"
  shows "spent + sum_list (map at_regexInstructions as) \<le> mustLimit ''constraint_regex_total_program_instructions'' \<and>
    (\<forall>a \<in> set as. \<exists>m \<in> set ms. \<exists>u v. compile_pattern rx m u = Inr (a, v))"
  using assms
proof (induction ms arbitrary: spent as)
  case (Cons m ms)
  then obtain a v as' where a: "compile_pattern rx m spent = Inr (a, v)" and as': "compile_patterns rx v ms = Inr as'"
      and eq: "as = a # as'"
    by (auto split: sum.splits)
  from compile_pattern_Inr [OF a]
  have "v = spent + at_regexInstructions a" and "v \<le> mustLimit ''constraint_regex_total_program_instructions''" by blast+
  with Cons.IH [OF as'] a eq show ?case by auto
qed simp

text \<open>
  The atoms of a compiled constraint: each points into the arguments, an equality expects a scalar, an
  expression is the anchored pattern of the source, and their programs stay within the budget.
\<close>

definition atom_wf :: "regex_lib \<Rightarrow> constraintAtom \<Rightarrow> bool" where
  "atom_wf rx a \<longleftrightarrow>
     compileJSONPointer (at_pointer a) = Some (at_segments a) \<and> scalar_value (at_expected a) \<and>
     (at_operator a = ConstraintEquals \<longrightarrow> at_expression a = None \<and> at_regexInstructions a = 0) \<and>
     (at_operator a = ConstraintRegex \<longrightarrow>
        (\<exists>pattern i r. at_expected a = ValueString pattern \<and> at_expression a = Some (anchor pattern) \<and>
           rx_program rx (anchor pattern) = Some (i, r) \<and> at_regexInstructions a = int i))"

lemma compile_pattern_wf: "compile_pattern rx m u = Inr (a, v) \<Longrightarrow> atom_wf rx a"
  by (drule compile_pattern_Inr) (auto simp: atom_wf_def)

lemma compile_equal_wf: "compile_equal m = Inr a \<Longrightarrow> atom_wf rx a \<and> at_operator a = ConstraintEquals"
  by (auto simp: compile_equal_def Let_def atom_wf_def split: option.splits if_splits)

lemma compileEquals_wf:
  assumes "compileEquals v = Inr as"
  shows "list_all (atom_wf rx) as \<and> sum_list (map at_regexInstructions as) = 0"
proof -
  obtain ms where "map_result compile_equal ms = Inr as"
    using assms by (cases v) (simp_all add: compileEquals_def)
  then have wf: "atom_wf rx a \<and> at_operator a = ConstraintEquals" if "a \<in> set as" for a
    using map_result_in [of compile_equal ms as a] compile_equal_wf that by blast
  then have "\<forall>a \<in> set as. at_regexInstructions a = 0"
    by (auto simp: atom_wf_def)
  then have "sum_list (map at_regexInstructions as) = 0"
    by (induction as) simp_all
  with wf show ?thesis by (simp add: list_all_iff)
qed

lemma compileRegex_wf:
  assumes "compileRegex rx v = Inr as"
  shows "list_all (atom_wf rx) as \<and>
    sum_list (map at_regexInstructions as) \<le> mustLimit ''constraint_regex_total_program_instructions''"
proof -
  obtain ms where ms: "compile_patterns rx 0 ms = Inr as"
    using assms by (cases v) (simp_all add: compileRegex_def)
  from compile_patterns_total [OF ms] compile_pattern_wf show ?thesis
    by (fastforce simp: list_all_iff)
qed

lemma optional_atoms_cases:
  "optional_atoms f v = Inr as \<Longrightarrow> (v = None \<and> as = []) \<or> (\<exists>x. v = Some x \<and> f x = Inr as)"
  by (cases v) (simp_all add: optional_atoms_def)

lemma CompileConstraint_wf:
  assumes "CompileConstraint rx contents = Inr c"
  shows "kc_raw c = contents \<and> (kc_version c = 1 \<or> kc_version c = 2) \<and> list_all (atom_wf rx) (kc_atoms c) \<and>
    1 \<le> length (kc_atoms c) \<and> int (length (kc_atoms c)) \<le> mustLimit ''constraint_atoms'' \<and>
    sum_list (map at_regexInstructions (kc_atoms c)) \<le> mustLimit ''constraint_regex_total_program_instructions'' \<and>
    int (length contents) \<le> mustLimit ''constraint_bytes''"
proof -
  obtain v where v: "ParseValue contents constraint_options = Inr v"
    using assms by (auto simp: CompileConstraint_def split: sum.splits)
  with assms obtain ms where ms: "v = ValueObject ms"
    by (cases v) (simp_all add: CompileConstraint_def)
  obtain version eq ex where root: "constraint_root ms = Inr (version, eq, ex)"
    using assms v ms by (cases "constraint_root ms") (auto simp: CompileConstraint_def)
  obtain as1 where as1: "optional_atoms compileEquals eq = Inr as1"
    using assms v ms root by (cases "optional_atoms compileEquals eq") (auto simp: CompileConstraint_def)
  obtain as2 where as2: "optional_atoms (compileRegex rx) ex = Inr as2"
    using assms v ms root as1 by (cases "optional_atoms (compileRegex rx) ex") (auto simp: CompileConstraint_def)
  have c: "c = \<lparr>kc_raw = contents, kc_version = version, kc_atoms = as1 @ as2\<rparr>"
      and n: "as1 @ as2 \<noteq> []" "int (length (as1 @ as2)) \<le> mustLimit ''constraint_atoms''"
    using assms v ms root as1 as2 by (auto simp: CompileConstraint_def Let_def not_less split: if_splits)
  have version: "version = 1 \<or> version = 2"
    using root by (auto simp: constraint_root_def split: list.splits if_splits sum.splits)
  have eqs: "list_all (atom_wf rx) as1 \<and> sum_list (map at_regexInstructions as1) = 0"
    using optional_atoms_cases [OF as1] compileEquals_wf by auto
  have exs: "list_all (atom_wf rx) as2 \<and>
      sum_list (map at_regexInstructions as2) \<le> mustLimit ''constraint_regex_total_program_instructions''"
    using optional_atoms_cases [OF as2] compileRegex_wf by auto
  have "int (length contents) \<le> mustLimit ''constraint_bytes''"
    using v by (auto simp: ParseValue_def constraint_options_def not_less split: if_splits)
  moreover have "1 \<le> length (as1 @ as2)"
    using n(1) by (cases "as1 @ as2") simp_all
  ultimately show ?thesis
    using c n version eqs exs by simp
qed

lemma CompileConstraint_positive:
  assumes "CompileConstraint rx contents = Inr c" and "regex_programs_start rx"
  shows "positive_atoms (kc_atoms c)"
proof -
  have "atom_wf rx a" if "a \<in> set (kc_atoms c)" for a
    using CompileConstraint_wf [OF assms(1)] that by (simp add: list_all_iff)
  with assms(2) show ?thesis
    unfolding positive_atoms_def atom_wf_def regex_programs_start_def by fastforce
qed

lemma CompileConstraint_too_long:
  "int (length contents) > mustLimit ''constraint_bytes'' \<Longrightarrow>
     CompileConstraint rx contents = Inl (invalidConstraint ''JSON is malformed'')"
  by (simp add: CompileConstraint_def ParseValue_def constraint_options_def)

end
