(* ===== verification/Constraint_Cache.thy ===== *)
theory Constraint_Cache
  imports Constraint
begin

text \<open>
  \<open>internal/authorization/constraint_cache.go\<close>: the bounded cache of compiled constraints that the readers of
  one repository share. A source that is not cached is compiled outside the lock while a flight for it
  is registered; other readers of the same source wait for that flight and take the answer its owner left in it. Entries leave in
  the order in which they came when the cache is full or too heavy.

  A flight is an object shared by its owner and its waiters: its index in \<open>cc_made\<close>, every flight ever made. Until its owner
  publishes an answer it holds Go's zero values, an empty constraint and no error.

  The locale \<open>constraint_compiler\<close> is what the evaluator relies on: a compiler with state that never
  answers anything but what \<open>CompileConstraint\<close> answers. The cache is shown to provide it.
\<close>

definition maxCompiledConstraintCacheWeight :: int where
  "maxCompiledConstraintCacheWeight = 128 * 1024 * 1024"

definition maxCompiledConstraintCacheEntries :: nat where
  "maxCompiledConstraintCacheEntries = 4096"

definition maxCompiledConstraintFlights :: nat where
  "maxCompiledConstraintFlights = 4"

record cachedConstraint =
  cd_source :: string
  cd_compiled :: CompiledConstraint
  cd_weight :: int

datatype compile_error = CompileInvalid constraintError | CompileResourceLimit | CompilePanic

record constraintFlight =
  fl_source :: string
  fl_done :: bool
  fl_answer :: "compile_error + CompiledConstraint"

record compiledConstraintCache =
  cc_weight :: int
  cc_entries :: "(string \<times> cachedConstraint) list"
  cc_order :: "cachedConstraint list"
  cc_flights :: "(string \<times> nat) list"
  cc_made :: "constraintFlight list"

definition empty_cache :: compiledConstraintCache where
  "empty_cache = \<lparr>cc_weight = 0, cc_entries = [], cc_order = [], cc_flights = [], cc_made = []\<rparr>"

subsection \<open>Operations\<close>

datatype compile_begin_result =
    BeginAnswer "compile_error + CompiledConstraint"
  | BeginWait nat
  | BeginFlight nat compiledConstraintCache

definition zero_constraint :: CompiledConstraint where
  "zero_constraint = \<lparr>kc_raw = [], kc_version = 0, kc_atoms = []\<rparr>"

definition new_flight :: "string \<Rightarrow> constraintFlight" where
  "new_flight source = \<lparr>fl_source = source, fl_done = False, fl_answer = Inr zero_constraint\<rparr>"

definition compile_begin :: "string \<Rightarrow> compiledConstraintCache \<Rightarrow> compile_begin_result" where
  "compile_begin source cache =
     (if int (length source) > mustLimit ''constraint_bytes''
      then BeginAnswer (Inl (CompileInvalid (invalidConstraint ''JSON is malformed'')))
      else
        (case map_of (cc_entries cache) source of
           Some element \<Rightarrow> BeginAnswer (Inr (cd_compiled element))
         | None \<Rightarrow>
             (case map_of (cc_flights cache) source of
                Some flight \<Rightarrow> BeginWait flight
              | None \<Rightarrow>
                  if length (cc_flights cache) \<ge> maxCompiledConstraintFlights
                  then BeginAnswer (Inl CompileResourceLimit)
                  else
                    let flight = length (cc_made cache) in
                    BeginFlight flight (cache\<lparr>cc_flights := (source, flight) # cc_flights cache, cc_made := cc_made cache @ [new_flight source]\<rparr>))))"

definition delete_entry :: "string \<Rightarrow> (string \<times> cachedConstraint) list \<Rightarrow> (string \<times> cachedConstraint) list" where
  "delete_entry source entries = filter (\<lambda>e. fst e \<noteq> source) entries"

text \<open>The eviction loop; taking the front of an empty list is a nil dereference, the value \<open>None\<close>.\<close>

fun evict_loop ::
  "int \<Rightarrow> (string \<times> cachedConstraint) list \<Rightarrow> int \<Rightarrow> cachedConstraint list \<Rightarrow>
     ((string \<times> cachedConstraint) list \<times> int \<times> cachedConstraint list) option" where
  "evict_loop weight entries used [] =
     (if length entries \<ge> maxCompiledConstraintCacheEntries \<or> used + weight > maxCompiledConstraintCacheWeight
      then None else Some (entries, used, []))"
| "evict_loop weight entries used (oldest # order) =
     (if length entries \<ge> maxCompiledConstraintCacheEntries \<or> used + weight > maxCompiledConstraintCacheWeight
      then evict_loop weight (delete_entry (cd_source oldest) entries) (used - cd_weight oldest) order
      else Some (entries, used, oldest # order))"

definition entry_weight :: "string \<Rightarrow> CompiledConstraint \<Rightarrow> int" where
  "entry_weight source compiled = int (length source + 256) + cacheWeight compiled"

definition store_entry :: "string \<Rightarrow> CompiledConstraint \<Rightarrow> compiledConstraintCache \<Rightarrow> compiledConstraintCache option" where
  "store_entry source compiled cache =
     (let weight = entry_weight source compiled in
      if weight > maxCompiledConstraintCacheWeight then Some cache
      else
        (case evict_loop weight (cc_entries cache) (cc_weight cache) (cc_order cache) of
           None \<Rightarrow> None
         | Some (entries, used, order) \<Rightarrow>
             let entry = \<lparr>cd_source = source, cd_compiled = compiled, cd_weight = weight\<rparr> in
             Some (cache\<lparr>cc_entries := delete_entry source entries @ [(source, entry)], cc_order := order @ [entry],
                         cc_weight := used + weight\<rparr>)))"

text \<open>The owner's last section: publish the answer in the flight, take the flight off the table, and wake its waiters.\<close>

definition publish :: "string \<Rightarrow> nat \<Rightarrow> compile_error + CompiledConstraint \<Rightarrow> compiledConstraintCache \<Rightarrow> compiledConstraintCache" where
  "publish source flight answer cache =
     cache\<lparr>cc_made := (cc_made cache)[flight := (cc_made cache ! flight)\<lparr>fl_answer := answer, fl_done := True\<rparr>],
           cc_flights := filter (\<lambda>f. fst f \<noteq> source) (cc_flights cache)\<rparr>"

definition compile_finish ::
  "regex_lib \<Rightarrow> string \<Rightarrow> nat \<Rightarrow> compiledConstraintCache \<Rightarrow> (compile_error + CompiledConstraint) \<times> compiledConstraintCache" where
  "compile_finish rx source flight cache =
     (case CompileConstraint rx source of
        Inl e \<Rightarrow> (Inl (CompileInvalid e), publish source flight (Inl (CompileInvalid e)) cache)
      | Inr compiled \<Rightarrow>
          (case store_entry source compiled cache of
             None \<Rightarrow> (Inl CompilePanic, cache)
           | Some cache' \<Rightarrow> (Inr compiled, publish source flight (Inr compiled) cache')))"

text \<open>What a waiter reads once the flight is done; while it is not, the waiter blocks.\<close>

definition flight_answer :: "nat \<Rightarrow> compiledConstraintCache \<Rightarrow> (compile_error + CompiledConstraint) option" where
  "flight_answer flight cache =
     (if flight < length (cc_made cache) \<and> fl_done (cc_made cache ! flight) then Some (fl_answer (cc_made cache ! flight)) else None)"

text \<open>
  The call as one reader sees it. A reader that waits resumes after the owner of the flight has finished, and then reads the flight.
\<close>

definition compileConstraint ::
  "regex_lib \<Rightarrow> compiledConstraintCache \<Rightarrow> string \<Rightarrow> (compile_error + CompiledConstraint) \<times> compiledConstraintCache" where
  "compileConstraint rx cache source =
     (case compile_begin source cache of
        BeginAnswer r \<Rightarrow> (r, cache)
      | BeginWait flight \<Rightarrow>
          let finished = snd (compile_finish rx source flight cache) in
          (fl_answer (cc_made finished ! flight), finished)
      | BeginFlight flight cache' \<Rightarrow> compile_finish rx source flight cache')"

inductive cache_step :: "regex_lib \<Rightarrow> compiledConstraintCache \<Rightarrow> compiledConstraintCache \<Rightarrow> bool" for rx where
  Step_begin: "compile_begin source cache = BeginFlight flight cache' \<Longrightarrow> cache_step rx cache cache'"
| Step_finish: "(source, flight) \<in> set (cc_flights cache) \<Longrightarrow> compile_finish rx source flight cache = (r, cache') \<Longrightarrow> cache_step rx cache cache'"

inductive_cases cache_stepE: "cache_step rx cache cache'"

subsection \<open>The invariant\<close>

definition order_weight :: "cachedConstraint list \<Rightarrow> int" where
  "order_weight order = sum_list (map cd_weight order)"

definition index_of :: "cachedConstraint list \<Rightarrow> (string \<times> cachedConstraint) list" where
  "index_of order = map (\<lambda>d. (cd_source d, d)) order"

definition entry_ok :: "regex_lib \<Rightarrow> cachedConstraint \<Rightarrow> bool" where
  "entry_ok rx d \<longleftrightarrow> CompileConstraint rx (cd_source d) = Inr (cd_compiled d)"

definition flight_ok :: "regex_lib \<Rightarrow> constraintFlight \<Rightarrow> bool" where
  "flight_ok rx flight \<longleftrightarrow> fl_done flight \<longrightarrow> fl_answer flight = map_sum CompileInvalid id (CompileConstraint rx (fl_source flight))"

definition cache_inv :: "regex_lib \<Rightarrow> compiledConstraintCache \<Rightarrow> bool" where
  "cache_inv rx cache \<longleftrightarrow>
     cc_entries cache = index_of (cc_order cache) \<and> distinct (map cd_source (cc_order cache)) \<and>
     cc_weight cache = order_weight (cc_order cache) \<and> cc_weight cache \<le> maxCompiledConstraintCacheWeight \<and>
     length (cc_order cache) \<le> maxCompiledConstraintCacheEntries \<and>
     list_all (entry_ok rx) (cc_order cache) \<and>
     distinct (map fst (cc_flights cache)) \<and> length (cc_flights cache) \<le> maxCompiledConstraintFlights \<and>
     set (map fst (cc_flights cache)) \<inter> set (map cd_source (cc_order cache)) = {} \<and>
     (\<forall>f \<in> set (cc_flights cache). snd f < length (cc_made cache) \<and> fl_source (cc_made cache ! snd f) = fst f \<and> \<not> fl_done (cc_made cache ! snd f)) \<and>
     list_all (flight_ok rx) (cc_made cache)"

lemma index_of_simps [simp]:
  "length (index_of order) = length order" "index_of [] = []"
  "index_of (a @ b) = index_of a @ index_of b"
  by (simp_all add: index_of_def)

lemma delete_absent: "source \<notin> set (map cd_source order) \<Longrightarrow> delete_entry source (index_of order) = index_of order"
  by (induction order) (auto simp: delete_entry_def index_of_def)

lemma delete_front:
  "distinct (map cd_source (d # order)) \<Longrightarrow> delete_entry (cd_source d) (index_of (d # order)) = index_of order"
  using delete_absent [of "cd_source d" order] by (simp add: delete_entry_def index_of_def)

lemma evict_loop_suffix:
  assumes "distinct (map cd_source order)" and "weight \<le> maxCompiledConstraintCacheWeight"
  shows "\<exists>kept. evict_loop weight (index_of order) (order_weight order) order = Some (index_of kept, order_weight kept, kept) \<and>
    suffix kept order \<and> length kept < maxCompiledConstraintCacheEntries \<and>
    order_weight kept + weight \<le> maxCompiledConstraintCacheWeight"
  using assms(1)
proof (induction order)
  case Nil
  with assms(2) show ?case
    by (simp add: order_weight_def maxCompiledConstraintCacheEntries_def)
next
  case (Cons d order)
  have weight_eq: "order_weight (d # order) - cd_weight d = order_weight order"
    by (simp add: order_weight_def)
  have index_eq: "delete_entry (cd_source d) (index_of (d # order)) = index_of order"
    by (rule delete_front [OF Cons.prems])
  show ?case
  proof (cases "length (d # order) \<ge> maxCompiledConstraintCacheEntries \<or>
      order_weight (d # order) + weight > maxCompiledConstraintCacheWeight")
    case True
    then have "evict_loop weight (index_of (d # order)) (order_weight (d # order)) (d # order) =
        evict_loop weight (index_of order) (order_weight order) order"
      using weight_eq index_eq by auto
    with Cons show ?thesis by (auto intro: suffix_ConsI)
  next
    case False
    then have "evict_loop weight (index_of (d # order)) (order_weight (d # order)) (d # order) =
        Some (index_of (d # order), order_weight (d # order), d # order)"
      by auto
    moreover have "suffix (d # order) (d # order)" by simp
    moreover have "length (d # order) < maxCompiledConstraintCacheEntries"
        "order_weight (d # order) + weight \<le> maxCompiledConstraintCacheWeight"
      using False by linarith+
    ultimately show ?thesis by blast
  qed
qed

lemma suffix_facts:
  assumes "suffix kept order"
  shows "set kept \<subseteq> set order" and "distinct (map cd_source order) \<Longrightarrow> distinct (map cd_source kept)"
    and "set (map cd_source kept) \<subseteq> set (map cd_source order)"
  using assms by (auto simp: suffix_def)

lemma filter_flights:
  "length (filter P (cc_flights cache)) \<le> length (cc_flights cache)" "distinct (map fst xs) \<Longrightarrow> distinct (map fst (filter P xs))"
  by (simp_all add: distinct_map_filter)

lemma release_flight_inv:
  "cache_inv rx cache \<Longrightarrow> cache_inv rx (cache\<lparr>cc_flights := filter (\<lambda>f. fst f \<noteq> source) (cc_flights cache)\<rparr>)"
  by (auto simp: cache_inv_def distinct_map_filter intro: order_trans [OF length_filter_le])

lemma publish_inv:
  assumes "cache_inv rx (cache\<lparr>cc_flights := filter (\<lambda>f. fst f \<noteq> source) (cc_flights cache)\<rparr>)" and "flight < length (cc_made cache)"
    and "fl_source (cc_made cache ! flight) = source" and "answer = map_sum CompileInvalid id (CompileConstraint rx source)"
  shows "cache_inv rx (publish source flight answer cache)"
proof -
  let ?flight = "(cc_made cache ! flight)\<lparr>fl_answer := answer, fl_done := True\<rparr>"
  have "list_all (flight_ok rx) ((cc_made cache)[flight := ?flight])"
    using assms set_update_subset_insert [of "cc_made cache" flight ?flight] by (auto simp: cache_inv_def list_all_iff flight_ok_def)
  moreover have "snd f < length (cc_made cache) \<and> fl_source ((cc_made cache)[flight := ?flight] ! snd f) = fst f \<and>
      \<not> fl_done ((cc_made cache)[flight := ?flight] ! snd f)" if "f \<in> set (filter (\<lambda>f. fst f \<noteq> source) (cc_flights cache))" for f
  proof -
    have "snd f < length (cc_made cache)" "fl_source (cc_made cache ! snd f) = fst f" "\<not> fl_done (cc_made cache ! snd f)" "fst f \<noteq> source"
      using assms(1) that by (cases f; auto simp: cache_inv_def)+
    moreover from this assms(3) have "snd f \<noteq> flight"
      by auto
    ultimately show ?thesis
      by simp
  qed
  ultimately show ?thesis
    using assms(1) by (simp add: cache_inv_def publish_def)
qed

lemma store_entry_inv:
  assumes "cache_inv rx cache" and "CompileConstraint rx source = Inr compiled" and "source \<in> set (map fst (cc_flights cache))"
  shows "\<exists>cache'. store_entry source compiled cache = Some cache' \<and> cc_flights cache' = cc_flights cache \<and> cc_made cache' = cc_made cache \<and>
    cache_inv rx (cache'\<lparr>cc_flights := filter (\<lambda>f. fst f \<noteq> source) (cc_flights cache)\<rparr>)"
proof (cases "entry_weight source compiled > maxCompiledConstraintCacheWeight")
  case True
  with release_flight_inv [OF assms(1)] show ?thesis
    by (simp add: store_entry_def Let_def)
next
  case False
  let ?w = "entry_weight source compiled"
  let ?entry = "\<lparr>cd_source = source, cd_compiled = compiled, cd_weight = ?w\<rparr>"
  from assms(1) have e: "cc_entries cache = index_of (cc_order cache)"
      and d: "distinct (map cd_source (cc_order cache))"
      and w: "cc_weight cache = order_weight (cc_order cache)"
      and fresh: "source \<notin> set (map cd_source (cc_order cache))"
    using assms(3) unfolding cache_inv_def by blast+
  have fit: "?w \<le> maxCompiledConstraintCacheWeight"
    using False by simp
  obtain kept where loop: "evict_loop ?w (index_of (cc_order cache)) (order_weight (cc_order cache)) (cc_order cache) =
        Some (index_of kept, order_weight kept, kept)"
      and kept: "suffix kept (cc_order cache)" "length kept < maxCompiledConstraintCacheEntries"
        "order_weight kept + ?w \<le> maxCompiledConstraintCacheWeight"
    using evict_loop_suffix [OF d fit] by blast
  have fresh': "source \<notin> set (map cd_source kept)"
    using fresh suffix_facts(3) [OF kept(1)] by blast
  let ?cache' = "cache\<lparr>cc_entries := index_of (kept @ [?entry]), cc_order := kept @ [?entry], cc_weight := order_weight kept + ?w\<rparr>"
  have store: "store_entry source compiled cache = Some ?cache'"
    using False loop e w delete_absent [OF fresh'] by (simp add: store_entry_def Let_def index_of_def)
  let ?flights = "filter (\<lambda>f. fst f \<noteq> source) (cc_flights cache)"
  have "cache_inv rx (?cache'\<lparr>cc_flights := ?flights\<rparr>)"
  proof -
    have "list_all (entry_ok rx) kept"
      using assms(1) suffix_facts(1) [OF kept(1)] unfolding cache_inv_def list_all_iff by blast
    moreover have "set (map fst ?flights) \<inter> set (map cd_source (kept @ [?entry])) = {}"
      using assms(1) suffix_facts(3) [OF kept(1)] unfolding cache_inv_def by auto
    moreover have "length ?flights \<le> maxCompiledConstraintFlights" "distinct (map fst ?flights)" "list_all (flight_ok rx) (cc_made cache)"
      using release_flight_inv [OF assms(1), of source] unfolding cache_inv_def by simp_all
    moreover have "\<forall>f \<in> set ?flights. snd f < length (cc_made cache) \<and> fl_source (cc_made cache ! snd f) = fst f \<and> \<not> fl_done (cc_made cache ! snd f)"
      using assms(1) unfolding cache_inv_def by simp
    ultimately show ?thesis
      using kept(2,3) fresh' suffix_facts(2) [OF kept(1) d] assms(2)
      by (simp add: cache_inv_def order_weight_def entry_ok_def)
  qed
  with store show ?thesis by simp
qed

lemma publish_fields:
  "cc_flights (publish source flight answer cache) = filter (\<lambda>f. fst f \<noteq> source) (cc_flights cache)"
  "flight < length (cc_made cache) \<Longrightarrow> fl_answer (cc_made (publish source flight answer cache) ! flight) = answer"
  by (simp_all add: publish_def)

lemma compile_finish_inv:
  assumes "cache_inv rx cache" and "(source, flight) \<in> set (cc_flights cache)"
  shows "fst (compile_finish rx source flight cache) = map_sum CompileInvalid id (CompileConstraint rx source) \<and>
    cache_inv rx (snd (compile_finish rx source flight cache)) \<and>
    cc_flights (snd (compile_finish rx source flight cache)) = filter (\<lambda>f. fst f \<noteq> source) (cc_flights cache) \<and>
    fl_answer (cc_made (snd (compile_finish rx source flight cache)) ! flight) = map_sum CompileInvalid id (CompileConstraint rx source)"
proof -
  have flight: "flight < length (cc_made cache)" "fl_source (cc_made cache ! flight) = source"
    using assms unfolding cache_inv_def by auto
  show ?thesis
  proof (cases "CompileConstraint rx source")
    case (Inl e)
    with publish_inv [OF release_flight_inv [OF assms(1), of source] flight, of "Inl (CompileInvalid e)"] flight show ?thesis
      by (simp add: compile_finish_def publish_fields)
  next
    case (Inr compiled)
    have "source \<in> set (map fst (cc_flights cache))"
      using assms(2) by force
    from store_entry_inv [OF assms(1) Inr this] obtain cache' where store: "store_entry source compiled cache = Some cache'"
        "cc_flights cache' = cc_flights cache" "cc_made cache' = cc_made cache"
        "cache_inv rx (cache'\<lparr>cc_flights := filter (\<lambda>f. fst f \<noteq> source) (cc_flights cache')\<rparr>)"
      by auto
    with publish_inv [OF store(4), of flight "Inr compiled"] flight Inr show ?thesis
      by (simp add: compile_finish_def publish_fields)
  qed
qed

lemma compile_begin_inv:
  assumes "cache_inv rx cache" and "compile_begin source cache = BeginFlight flight cache'"
  shows "cache_inv rx cache' \<and> cc_flights cache' = (source, flight) # cc_flights cache \<and> source \<notin> set (map fst (cc_flights cache))"
proof -
  have missing: "map_of (cc_entries cache) source = None" and new: "source \<notin> set (map fst (cc_flights cache))"
      and room: "length (cc_flights cache) < maxCompiledConstraintFlights" and flight: "flight = length (cc_made cache)"
      and eq: "cache' = cache\<lparr>cc_flights := (source, flight) # cc_flights cache, cc_made := cc_made cache @ [new_flight source]\<rparr>"
    using assms(2) by (auto simp: compile_begin_def not_le Let_def map_of_eq_None_iff split: if_splits option.splits)
  have "cc_entries cache = index_of (cc_order cache)"
    using assms(1) by (simp add: cache_inv_def)
  with missing have "source \<notin> set (map cd_source (cc_order cache))"
    by (simp add: index_of_def map_of_eq_None_iff image_image)
  with assms(1) new room eq flight show ?thesis
    by (auto simp: cache_inv_def new_flight_def flight_ok_def nth_append less_SucI)
qed

interpretation constraint_cache: step_invariant "\<lambda>c. c = empty_cache" "cache_step rx" "cache_inv rx" for rx
proof
  fix c
  assume "c = empty_cache"
  then show "cache_inv rx c"
    by (simp add: empty_cache_def cache_inv_def order_weight_def maxCompiledConstraintCacheWeight_def)
next
  fix c c'
  assume inv: "cache_inv rx c" and "cache_step rx c c'"
  from this(2) show "cache_inv rx c'"
  proof cases
    case (Step_begin source flight)
    with inv show ?thesis using compile_begin_inv by blast
  next
    case (Step_finish source flight r)
    with compile_finish_inv [OF inv, of source flight] show ?thesis by simp
  qed
qed

subsection \<open>The contract of a compiler\<close>

locale constraint_compiler =
  fixes rx :: regex_lib
    and compile :: "'c \<Rightarrow> string \<Rightarrow> ('e + CompiledConstraint) \<times> 'c"
    and usable :: "'c \<Rightarrow> bool"
    and ready :: "'c \<Rightarrow> bool"
  assumes ready_usable: "ready c \<Longrightarrow> usable c"
    and usable_keep: "usable c \<Longrightarrow> usable (snd (compile c source))"
    and ready_keep: "ready c \<Longrightarrow> ready (snd (compile c source))"
    and sound: "usable c \<Longrightarrow> fst (compile c source) = Inr k \<Longrightarrow> CompileConstraint rx source = Inr k"
    and complete: "ready c \<Longrightarrow> CompileConstraint rx source = Inr k \<Longrightarrow> fst (compile c source) = Inr k"

lemma compileConstraint_facts:
  assumes "cache_inv rx cache"
  shows "(fst (compileConstraint rx cache source) = map_sum CompileInvalid id (CompileConstraint rx source) \<or>
      fst (compileConstraint rx cache source) = Inl CompileResourceLimit \<and>
      length (cc_flights cache) = maxCompiledConstraintFlights) \<and>
    cache_inv rx (snd (compileConstraint rx cache source)) \<and>
    length (cc_flights (snd (compileConstraint rx cache source))) \<le> length (cc_flights cache)"
proof (cases "compile_begin source cache")
  case (BeginAnswer r)
  consider (long) "int (length source) > mustLimit ''constraint_bytes''" "r = Inl (CompileInvalid (invalidConstraint ''JSON is malformed''))"
    | (hit) element where "map_of (cc_entries cache) source = Some element" "r = Inr (cd_compiled element)"
    | (full) "length (cc_flights cache) \<ge> maxCompiledConstraintFlights" "r = Inl CompileResourceLimit"
    using BeginAnswer by (auto simp: compile_begin_def Let_def split: if_splits option.splits)
  then show ?thesis
  proof cases
    case long
    with CompileConstraint_too_long [OF long(1)] assms BeginAnswer show ?thesis
      by (simp add: compileConstraint_def)
  next
    case hit
    have "(source, element) \<in> set (index_of (cc_order cache))"
      using hit(1) assms by (auto simp: cache_inv_def dest: map_of_SomeD)
    then have "element \<in> set (cc_order cache)" "cd_source element = source"
      by (auto simp: index_of_def)
    with assms have "CompileConstraint rx source = Inr (cd_compiled element)"
      by (auto simp: cache_inv_def list_all_iff entry_ok_def)
    with hit assms BeginAnswer show ?thesis
      by (simp add: compileConstraint_def)
  next
    case full
    with assms BeginAnswer show ?thesis
      by (simp add: compileConstraint_def cache_inv_def)
  qed
next
  case (BeginWait flight)
  have "(source, flight) \<in> set (cc_flights cache)"
    using BeginWait by (auto simp: compile_begin_def Let_def dest: map_of_SomeD split: if_splits option.splits)
  from compile_finish_inv [OF assms this] BeginWait show ?thesis
    by (simp add: compileConstraint_def Let_def)
next
  case (BeginFlight flight cache')
  from compile_begin_inv [OF assms BeginFlight]
  have inv': "cache_inv rx cache'" and fl: "cc_flights cache' = (source, flight) # cc_flights cache"
      and new: "source \<notin> set (map fst (cc_flights cache))"
    by simp_all
  with compile_finish_inv [OF inv', of source flight] BeginFlight show ?thesis
    by (simp add: compileConstraint_def)
qed

definition cache_ready :: "regex_lib \<Rightarrow> compiledConstraintCache \<Rightarrow> bool" where
  "cache_ready rx cache \<longleftrightarrow> cache_inv rx cache \<and> length (cc_flights cache) < maxCompiledConstraintFlights"

interpretation cached: constraint_compiler rx "compileConstraint rx" "cache_inv rx" "cache_ready rx" for rx
proof
  fix c source k
  show "cache_ready rx c \<Longrightarrow> cache_inv rx c"
    by (simp add: cache_ready_def)
  show "cache_inv rx c \<Longrightarrow> cache_inv rx (snd (compileConstraint rx c source))"
    using compileConstraint_facts by blast
  show "cache_ready rx c \<Longrightarrow> cache_ready rx (snd (compileConstraint rx c source))"
    using compileConstraint_facts [of rx c source] by (simp add: cache_ready_def)
  show "cache_inv rx c \<Longrightarrow> fst (compileConstraint rx c source) = Inr k \<Longrightarrow> CompileConstraint rx source = Inr k"
    using compileConstraint_facts [of rx c source] by (cases "CompileConstraint rx source") auto
  show "cache_ready rx c \<Longrightarrow> CompileConstraint rx source = Inr k \<Longrightarrow> fst (compileConstraint rx c source) = Inr k"
    using compileConstraint_facts [of rx c source] by (auto simp: cache_ready_def)
qed

subsection \<open>Properties\<close>

text \<open>
  C29: In every state the cache can reach, whatever readers start and finish, it holds at most 4096 entries of at
  most 128 MiB together with at most four flights; and a call answers exactly what compiling the source
  afresh answers, except that it reports the resource limit when four other sources are in flight. A reader that
  waits for another's flight reads the answer that flight's owner published, whenever it resumes, and every published answer is that of a
  fresh compilation. The eviction loop never runs past an empty list.
\<close>

theorem constraint_cache_transparent:
  assumes "(cache_step rx)\<^sup>*\<^sup>* empty_cache cache"
  shows "length (cc_order cache) \<le> 4096 \<and> cc_weight cache = sum_list (map cd_weight (cc_order cache)) \<and>
    cc_weight cache \<le> 128 * 1024 * 1024 \<and> length (cc_flights cache) \<le> 4 \<and>
    (fst (compileConstraint rx cache source) = map_sum CompileInvalid id (CompileConstraint rx source) \<or>
     fst (compileConstraint rx cache source) = Inl CompileResourceLimit \<and> length (cc_flights cache) = 4) \<and>
    (\<forall>flight answer. flight_answer flight cache = Some answer \<longrightarrow>
       answer = map_sum CompileInvalid id (CompileConstraint rx (fl_source (cc_made cache ! flight))))"
proof -
  have inv: "cache_inv rx cache"
    by (rule constraint_cache.inv_reachable [OF refl assms])
  then have "answer = map_sum CompileInvalid id (CompileConstraint rx (fl_source (cc_made cache ! flight)))"
    if "flight_answer flight cache = Some answer" for flight answer
    using that by (auto simp: flight_answer_def cache_inv_def list_all_length flight_ok_def split: if_splits)
  moreover have "length (cc_order cache) \<le> 4096" "cc_weight cache = sum_list (map cd_weight (cc_order cache))"
      "cc_weight cache \<le> 128 * 1024 * 1024" "length (cc_flights cache) \<le> 4"
    using inv by (simp_all add: cache_inv_def order_weight_def maxCompiledConstraintCacheWeight_def
        maxCompiledConstraintCacheEntries_def maxCompiledConstraintFlights_def)
  ultimately show ?thesis
    using compileConstraint_facts [OF inv, of source] by (simp add: maxCompiledConstraintFlights_def)
qed

definition no_regex :: regex_lib where
  "no_regex = \<lparr>rx_parses = (\<lambda>_. False), rx_program = (\<lambda>_. None), rx_compiles = (\<lambda>_. False), rx_match = (\<lambda>_ _. False)\<rparr>"

definition sample_flight :: compiledConstraintCache where
  "sample_flight = empty_cache\<lparr>cc_flights := [(''[]'', 0)], cc_made := [new_flight ''[]'']\<rparr>"

theorem constraint_cache_transparent_witness:
  "compile_begin ''[]'' sample_flight = BeginWait 0 \<and>
   fst (compileConstraint no_regex sample_flight ''[]'') = map_sum CompileInvalid id (CompileConstraint no_regex ''[]'')"
proof -
  have "cache_step no_regex empty_cache sample_flight"
    by (rule Step_begin [of "''[]''"])
      (simp add: compile_begin_def empty_cache_def sample_flight_def maxCompiledConstraintFlights_def Let_def)
  then have "(cache_step no_regex)\<^sup>*\<^sup>* empty_cache sample_flight" ..
  from constraint_cache_transparent [OF this, of "''[]''"] show ?thesis
    by (simp add: compile_begin_def sample_flight_def empty_cache_def)
qed

end
