(* ===== verification/Evaluator.thy ===== *)
theory Evaluator
  imports Constraint_Cache
begin

text \<open>
  \<open>internal/authorization/evaluator.go\<close>, \<open>deny_conflicts.go\<close>, the structural reading of
  \<open>discovery_policy.go\<close> and \<open>validateGrants\<close> of \<open>validation.go\<close>: the decision on an MCP tool call. The
  grants of the principal for the server are read in the order of their identifiers; any that cannot be
  trusted makes authorization unavailable; among those that apply a \<open>deny\<close> wins over every \<open>allow\<close>, the
  grant reported is the one with the smallest identifier, and without any the call is blocked.

  The readers compile constraints through the repository's cache, whose state is threaded through. The
  lemmas on the readers are proved in the locale \<open>constraint_compiler\<close>.
\<close>

record authority_db =
  db_revision :: int
  db_principals :: "principal_row list"
  db_grants :: "grant_row list"

record AuthorizationResult =
  ar_Decision :: AuthorizationDecision
  ar_GrantID :: "string option"
  ar_AuthorizationRevision :: string
  ar_EvaluatedAt :: string

record evaluationGrant =
  eg_readOnly :: bool
  eg_id :: string
  eg_effect :: string
  eg_target :: MCP
  eg_constraint :: "CompiledConstraint option"
  eg_expiresAt :: "instant option"

definition SyntheticServerID :: string where
  "SyntheticServerID = ''00000000000000000000000000''"

definition zero_instant :: instant where
  "zero_instant = - epoch_day * nanos_per_day"

subsection \<open>Reading the tables\<close>

text \<open>\<open>ORDER BY id LIMIT grants + 1\<close> on the rows a \<open>WHERE\<close> keeps.\<close>

definition grants_query :: "(grant_row \<Rightarrow> bool) \<Rightarrow> authority_db \<Rightarrow> grant_row list" where
  "grants_query where_clause db =
     take (nat (mustLimit ''grants'' + 1)) (sort_key row_id (filter where_clause (db_grants db)))"

definition authorizationRevisionTx :: "authority_db \<Rightarrow> auth_error + string" where
  "authorizationRevisionTx db =
     (if db_revision db < 0 then Inl ErrAuthorizationUnavailable else Inr (FormatInt (db_revision db)))"

text \<open>The latch of the store as \<open>Repository.view\<close> reads it: before, inside and after the transaction.\<close>

definition view :: "bool \<Rightarrow> bool \<Rightarrow> bool \<Rightarrow> auth_error + 'a \<Rightarrow> auth_error + 'a" where
  "view before inside after result =
     (if before then Inl ErrStorageUnavailable
      else let r = (if inside then Inl ErrStorageUnavailable else result) in
        if after then Inl ErrStorageUnavailable else r)"

definition row_target :: "grant_row \<Rightarrow> MCP" where
  "row_target row = \<lparr>ServerID = row_server row, UpstreamName = row_upstream row\<rparr>"

definition row_malformed :: "grant_row \<Rightarrow> bool" where
  "row_malformed row \<longleftrightarrow>
     \<not> validOpaqueID (row_id row) \<or> \<not> validOpaqueID (row_principal row) \<or> \<not> validGrantEffect (row_effect row) \<or>
     \<not> validOpaqueID (row_server row) \<or>
     row_upstream row \<noteq> None \<and> \<not> validUpstreamName (ToolName (row_target row)) \<or>
     row_upstream row = None \<and> row_constraint row \<noteq> None \<or>
     row_readOnly row \<and> (row_effect row \<noteq> GrantEffect_string GrantAllow \<or> row_upstream row \<noteq> None \<or> row_constraint row \<noteq> None)"

definition load_expiry :: "grant_row \<Rightarrow> instant \<Rightarrow> auth_error + instant option" where
  "load_expiry row created =
     (case row_expires row of
        None \<Rightarrow> Inr None
      | Some value \<Rightarrow>
          (case canonicalTimestamp value of
             None \<Rightarrow> Inl ErrAuthorizationUnavailable
           | Some expiry \<Rightarrow> if \<not> expiry > created then Inl ErrAuthorizationUnavailable else Inr (Some expiry)))"

definition load_finish :: "grant_row \<Rightarrow> instant \<Rightarrow> CompiledConstraint option \<Rightarrow> auth_error + evaluationGrant" where
  "load_finish row created compiled =
     (case load_expiry row created of
        Inl e \<Rightarrow> Inl e
      | Inr expiry \<Rightarrow>
          Inr \<lparr>eg_readOnly = row_readOnly row, eg_id = row_id row, eg_effect = row_effect row,
               eg_target = row_target row, eg_constraint = compiled, eg_expiresAt = expiry\<rparr>)"

definition loadEvaluationGrant ::
  "('c \<Rightarrow> string \<Rightarrow> ('e + CompiledConstraint) \<times> 'c) \<Rightarrow> 'c \<Rightarrow> grant_row \<Rightarrow> (auth_error + evaluationGrant) \<times> 'c" where
  "loadEvaluationGrant compile c row =
     (if row_malformed row then (Inl ErrAuthorizationUnavailable, c)
      else
        (case canonicalTimestamp (row_created row) of
           None \<Rightarrow> (Inl ErrAuthorizationUnavailable, c)
         | Some created \<Rightarrow>
             (case row_constraint row of
                None \<Rightarrow> (load_finish row created None, c)
              | Some source \<Rightarrow>
                  (case compile c source of
                     (Inl _, c') \<Rightarrow> (Inl ErrAuthorizationUnavailable, c')
                   | (Inr compiled, c') \<Rightarrow> (load_finish row created (Some compiled), c')))))"

definition expired :: "evaluationGrant \<Rightarrow> instant \<Rightarrow> bool" where
  "expired grant at = (case eg_expiresAt grant of None \<Rightarrow> False | Some expiry \<Rightarrow> \<not> expiry > at)"

definition applies :: "regex_lib \<Rightarrow> evaluationGrant \<Rightarrow> MCP \<Rightarrow> instant \<Rightarrow> Value \<Rightarrow> int \<Rightarrow> (auth_error + bool) \<times> int" where
  "applies rx grant target evaluatedAt arguments work =
     (if \<not> Covers (eg_target grant) target \<or> expired grant evaluatedAt then (Inr False, work)
      else
        (case eg_constraint grant of
           None \<Rightarrow> (Inr True, work)
         | Some constraint \<Rightarrow> constraintMatches rx constraint arguments work))"

subsection \<open>The decision\<close>

definition smaller :: "string \<Rightarrow> string \<Rightarrow> string" where
  "smaller id' current = (if current = [] \<or> id' < current then id' else current)"

fun evaluate_rows ::
  "('c \<Rightarrow> string \<Rightarrow> ('e + CompiledConstraint) \<times> 'c) \<Rightarrow> regex_lib \<Rightarrow> MCP \<Rightarrow> instant \<Rightarrow> Value \<Rightarrow> bool \<Rightarrow>
     int \<Rightarrow> string \<times> string \<Rightarrow> int \<Rightarrow> 'c \<Rightarrow> grant_row list \<Rightarrow> (auth_error + string \<times> string) \<times> 'c" where
  "evaluate_rows compile rx target evaluatedAt arguments readOnlyHint seen smallest work c [] = (Inr smallest, c)"
| "evaluate_rows compile rx target evaluatedAt arguments readOnlyHint seen smallest work c (row # rows) =
     (if seen \<ge> mustLimit ''grants'' then (Inl ErrAuthorizationUnavailable, c)
      else
        (case loadEvaluationGrant compile c row of
           (Inl _, c1) \<Rightarrow> (Inl ErrAuthorizationUnavailable, c1)
         | (Inr grant, c1) \<Rightarrow>
             (case applies rx grant target evaluatedAt arguments work of
                (Inl _, _) \<Rightarrow> (Inl ErrAuthorizationUnavailable, c1)
              | (Inr holds, work1) \<Rightarrow>
                  let smallest1 =
                        (if \<not> holds \<or> eg_readOnly grant \<and> \<not> readOnlyHint then smallest
                         else if eg_effect grant = GrantEffect_string GrantDeny
                         then (fst smallest, smaller (eg_id grant) (snd smallest))
                         else if eg_effect grant = GrantEffect_string GrantAllow
                         then (smaller (eg_id grant) (fst smallest), snd smallest)
                         else smallest) in
                  evaluate_rows compile rx target evaluatedAt arguments readOnlyHint (seen + 1) smallest1 work1 c1 rows)))"

definition evaluation_where :: "string \<Rightarrow> MCP \<Rightarrow> grant_row \<Rightarrow> bool" where
  "evaluation_where principalID target row \<longleftrightarrow>
     row_principal row = principalID \<and> row_server row = ServerID target \<and>
     (row_upstream row = None \<or> row_upstream row = Some (ToolName target))"

definition decide :: "string \<Rightarrow> instant \<Rightarrow> string \<times> string \<Rightarrow> AuthorizationResult" where
  "decide revision evaluatedAt smallest =
     (let result = \<lparr>ar_Decision = DecisionBlock, ar_GrantID = None, ar_AuthorizationRevision = revision,
                    ar_EvaluatedAt = FormatCanonical evaluatedAt\<rparr> in
      if snd smallest \<noteq> [] then result\<lparr>ar_Decision := DecisionDeny, ar_GrantID := Some (snd smallest)\<rparr>
      else if fst smallest \<noteq> [] then result\<lparr>ar_Decision := DecisionAllow, ar_GrantID := Some (fst smallest)\<rparr>
      else result)"

definition evaluateTx ::
  "('c \<Rightarrow> string \<Rightarrow> ('e + CompiledConstraint) \<times> 'c) \<Rightarrow> regex_lib \<Rightarrow> authority_db \<Rightarrow> 'c \<Rightarrow> string \<Rightarrow> MCP \<Rightarrow> Value \<Rightarrow>
     instant \<Rightarrow> bool \<Rightarrow> (auth_error + AuthorizationResult) \<times> 'c" where
  "evaluateTx compile rx db c principalID target arguments evaluatedAt readOnlyHint =
     (if \<not> validEvaluationTime evaluatedAt then (Inl ErrAuthorizationUnavailable, c)
      else
        (case authorizationRevisionTx db of
           Inl e \<Rightarrow> (Inl e, c)
         | Inr revision \<Rightarrow>
             (case evaluate_rows compile rx target evaluatedAt arguments readOnlyHint 0 ([], [])
                     (mustLimit ''constraint_regex_work_bytes'') c (grants_query (evaluation_where principalID target) db) of
                (Inl e, c') \<Rightarrow> (Inl e, c')
              | (Inr smallest, c') \<Rightarrow> (Inr (decide revision evaluatedAt smallest), c'))))"

definition argument_options :: Options where
  "argument_options =
     \<lparr>MaxBytes = mustLimit ''mcp_body_bytes'', MaxDepth = mustLimit ''json_depth'', RejectUnknownMembers = False\<rparr>"

fun is_object :: "Value \<Rightarrow> bool" where
  "is_object (ValueObject _) = True"
| "is_object _ = False"

definition Evaluate ::
  "regex_lib \<Rightarrow> bool \<times> bool \<times> bool \<Rightarrow> authority_db \<Rightarrow> compiledConstraintCache \<Rightarrow> instant \<Rightarrow> string \<Rightarrow> MCP \<Rightarrow> string \<Rightarrow>
     (auth_error + AuthorizationResult) \<times> compiledConstraintCache" where
  "Evaluate rx latches db cache now principalID target contents =
     (if \<not> validOpaqueID principalID \<or> \<not> validOpaqueID (ServerID target) \<or> \<not> validUpstreamName (ToolName target)
      then (Inl ErrInvalidInput, cache)
      else
        (case ParseValue contents argument_options of
           Inl _ \<Rightarrow> (Inl ErrAuthorizationUnavailable, cache)
         | Inr arguments \<Rightarrow>
             if \<not> is_object arguments then (Inl ErrAuthorizationUnavailable, cache)
             else
               (case latches of (before, inside, after) \<Rightarrow>
                  if before \<or> inside then (Inl ErrStorageUnavailable, cache)
                  else
                    let (r, cache') = evaluateTx (compileConstraint rx) rx db cache principalID target arguments now False in
                    (view before inside after r, cache'))))"

subsection \<open>Conflicts with a deny, and structural reading\<close>

fun conflict_rows ::
  "('c \<Rightarrow> string \<Rightarrow> ('e + CompiledConstraint) \<times> 'c) \<Rightarrow> MCP \<Rightarrow> instant \<Rightarrow> int \<Rightarrow> bool \<Rightarrow> 'c \<Rightarrow> grant_row list \<Rightarrow> auth_error + bool" where
  "conflict_rows compile target evaluatedAt seen conflict c [] = Inr conflict"
| "conflict_rows compile target evaluatedAt seen conflict c (row # rows) =
     (if seen \<ge> mustLimit ''grants'' then Inl ErrAuthorizationUnavailable
      else
        (case loadEvaluationGrant compile c row of
           (Inl _, _) \<Rightarrow> Inl ErrAuthorizationUnavailable
         | (Inr grant, c1) \<Rightarrow>
             if eg_effect grant \<noteq> GrantEffect_string GrantDeny then Inl ErrAuthorizationUnavailable
             else conflict_rows compile target evaluatedAt (seen + 1)
                    (if expired grant evaluatedAt then conflict else conflict \<or> Overlaps target (eg_target grant)) c1 rows))"

definition conflict_where :: "string \<Rightarrow> MCP \<Rightarrow> grant_row \<Rightarrow> bool" where
  "conflict_where principalID target row \<longleftrightarrow>
     row_principal row = principalID \<and> row_effect row = GrantEffect_string GrantDeny \<and> row_server row = ServerID target"

definition HasActiveDenyConflictTx ::
  "('c \<Rightarrow> string \<Rightarrow> ('e + CompiledConstraint) \<times> 'c) \<Rightarrow> bool \<times> bool \<Rightarrow> authority_db \<Rightarrow> 'c \<Rightarrow> string \<Rightarrow> MCP \<Rightarrow> instant \<Rightarrow> auth_error + bool" where
  "HasActiveDenyConflictTx compile latches db c principalID target evaluatedAt =
     (if \<not> validOpaqueID principalID \<or> \<not> validOpaqueID (ServerID target) \<or> evaluatedAt = zero_instant \<or>
         (case UpstreamName target of None \<Rightarrow> False | Some n \<Rightarrow> \<not> validUpstreamName n) then Inl ErrInvalidInput
      else if fst latches then Inl ErrStorageUnavailable
      else
        (case authorizationRevisionTx db of
           Inl e \<Rightarrow> Inl e
         | Inr _ \<Rightarrow>
             (case conflict_rows compile target evaluatedAt 0 False c (grants_query (conflict_where principalID target) db) of
                Inl e \<Rightarrow> Inl e
              | Inr conflict \<Rightarrow> if snd latches then Inl ErrStorageUnavailable else Inr conflict)))"

record StructuralGrant =
  sg_ReadOnly :: bool
  sg_Effect :: string
  sg_Target :: MCP
  sg_Constrained :: bool

definition structural_of :: "evaluationGrant \<Rightarrow> StructuralGrant" where
  "structural_of grant =
     \<lparr>sg_ReadOnly = eg_readOnly grant, sg_Effect = eg_effect grant, sg_Target = eg_target grant,
      sg_Constrained = eg_constraint grant \<noteq> None\<rparr>"

fun structural_rows ::
  "('c \<Rightarrow> string \<Rightarrow> ('e + CompiledConstraint) \<times> 'c) \<Rightarrow> instant \<Rightarrow> int \<Rightarrow> 'c \<Rightarrow> grant_row list \<Rightarrow> auth_error + StructuralGrant list" where
  "structural_rows compile evaluatedAt seen c [] = Inr []"
| "structural_rows compile evaluatedAt seen c (row # rows) =
     (if seen \<ge> mustLimit ''grants'' then Inl ErrAuthorizationUnavailable
      else
        (case loadEvaluationGrant compile c row of
           (Inl _, _) \<Rightarrow> Inl ErrAuthorizationUnavailable
         | (Inr grant, c1) \<Rightarrow>
             (case structural_rows compile evaluatedAt (seen + 1) c1 rows of
                Inl e \<Rightarrow> Inl e
              | Inr grants \<Rightarrow> Inr (if expired grant evaluatedAt then grants else structural_of grant # grants))))"

definition loadStructuralGrants ::
  "('c \<Rightarrow> string \<Rightarrow> ('e + CompiledConstraint) \<times> 'c) \<Rightarrow> authority_db \<Rightarrow> 'c \<Rightarrow> string \<Rightarrow> instant \<Rightarrow> auth_error + StructuralGrant list" where
  "loadStructuralGrants compile db c principalID evaluatedAt =
     structural_rows compile evaluatedAt 0 c (grants_query (\<lambda>row. row_principal row = principalID) db)"

subsection \<open>The check of the grants table at start-up\<close>

definition grant_row_invalid :: "int \<Rightarrow> grant_row \<Rightarrow> bool" where
  "grant_row_invalid previous row \<longleftrightarrow>
     row_sequence row \<le> previous \<or> \<not> validOpaqueID (row_id row) \<or> \<not> validGrantDescription (row_description row) \<or>
     \<not> validRevision (row_revision row) \<or> \<not> validOpaqueID (row_principal row) \<or> \<not> validOpaqueID (row_server row) \<or>
     \<not> validGrantEffect (row_effect row)"

definition grant_scope_invalid :: "regex_lib \<Rightarrow> grant_row \<Rightarrow> bool" where
  "grant_scope_invalid rx row \<longleftrightarrow>
     (case row_upstream row of None \<Rightarrow> False | Some n \<Rightarrow> \<not> validUpstreamName n) \<or>
     row_readOnly row \<and> (row_effect row \<noteq> GrantEffect_string GrantAllow \<or> row_upstream row \<noteq> None \<or> row_constraint row \<noteq> None) \<or>
     row_upstream row = None \<and> row_constraint row \<noteq> None \<or>
     (case row_constraint row of None \<Rightarrow> False | Some source \<Rightarrow> \<not> is_ok (CompileConstraint rx source))"

definition grant_times_invalid :: "grant_row \<Rightarrow> bool" where
  "grant_times_invalid row =
     (case canonicalTimestamp (row_created row) of
        None \<Rightarrow> True
      | Some created \<Rightarrow>
          (case row_expires row of
             None \<Rightarrow> False
           | Some value \<Rightarrow>
               (case canonicalTimestamp value of
                  None \<Rightarrow> True
                | Some expiry \<Rightarrow> \<not> expiry > created \<and> \<not> row_imported row)))"

fun validate_grant_rows :: "regex_lib \<Rightarrow> (string \<Rightarrow> bool) \<Rightarrow> string list \<Rightarrow> int \<Rightarrow> int \<Rightarrow> grant_row list \<Rightarrow> bool" where
  "validate_grant_rows rx exists principalIDs seen previous [] = True"
| "validate_grant_rows rx exists principalIDs seen previous (row # rows) =
     (if seen \<ge> mustLimit ''grants'' \<or> grant_row_invalid previous row \<or> row_principal row \<notin> set principalIDs \<or>
         grant_scope_invalid rx row \<or> grant_times_invalid row \<or> \<not> exists (row_server row) then False
      else validate_grant_rows rx exists principalIDs (seen + 1) (row_sequence row) rows)"

definition validateGrants :: "regex_lib \<Rightarrow> (string \<Rightarrow> bool) \<Rightarrow> string list \<Rightarrow> grant_row list \<Rightarrow> auth_error + unit" where
  "validateGrants rx stored principalIDs rows =
     (let exists = (\<lambda>server. server = SyntheticServerID \<or> stored server) in
      if validate_grant_rows rx exists principalIDs 0 0
           (take (nat (mustLimit ''grants'' + 1)) (sort_key (\<lambda>row. (row_sequence row)) (sort_key row_id rows)))
      then Inr () else Inl ErrInvalidState)"

subsection \<open>Reading without the cache\<close>

text \<open>The reference reading of a row, which compiles afresh, and the reference decision on it.\<close>

definition pure_load :: "regex_lib \<Rightarrow> grant_row \<Rightarrow> auth_error + evaluationGrant" where
  "pure_load rx row = fst (loadEvaluationGrant (\<lambda>c source. (CompileConstraint rx source, c)) () row)"

definition grant_applies :: "regex_lib \<Rightarrow> evaluationGrant \<Rightarrow> MCP \<Rightarrow> instant \<Rightarrow> Value \<Rightarrow> bool" where
  "grant_applies rx grant target evaluatedAt arguments \<longleftrightarrow>
     Covers (eg_target grant) target \<and> \<not> expired grant evaluatedAt \<and>
     (case eg_constraint grant of None \<Rightarrow> True | Some k \<Rightarrow> constraint_holds rx k arguments)"

definition row_matches :: "regex_lib \<Rightarrow> MCP \<Rightarrow> instant \<Rightarrow> Value \<Rightarrow> bool \<Rightarrow> GrantEffect \<Rightarrow> grant_row \<Rightarrow> bool" where
  "row_matches rx target evaluatedAt arguments readOnlyHint effect row =
     (case pure_load rx row of
        Inl _ \<Rightarrow> False
      | Inr grant \<Rightarrow>
          eg_effect grant = GrantEffect_string effect \<and> grant_applies rx grant target evaluatedAt arguments \<and>
          (eg_readOnly grant \<longrightarrow> readOnlyHint))"

definition matching_ids ::
  "regex_lib \<Rightarrow> authority_db \<Rightarrow> string \<Rightarrow> MCP \<Rightarrow> Value \<Rightarrow> instant \<Rightarrow> bool \<Rightarrow> GrantEffect \<Rightarrow> string set" where
  "matching_ids rx db principalID target arguments evaluatedAt readOnlyHint effect =
     row_id ` set (filter (\<lambda>row. row_principal row = principalID \<and>
       row_matches rx target evaluatedAt arguments readOnlyHint effect row) (db_grants db))"

definition row_cost :: "regex_lib \<Rightarrow> Value \<Rightarrow> grant_row \<Rightarrow> int" where
  "row_cost rx arguments row =
     (case pure_load rx row of
        Inl _ \<Rightarrow> 0
      | Inr grant \<Rightarrow>
          (case eg_constraint grant of None \<Rightarrow> 0 | Some k \<Rightarrow> sum_list (map (atom_cost arguments) (kc_atoms k))))"

lemma load_finish_Inr:
  "load_finish row created k = Inr grant \<Longrightarrow>
     eg_id grant = row_id row \<and> eg_effect grant = row_effect row \<and> eg_target grant = row_target row \<and>
     eg_readOnly grant = row_readOnly row \<and> eg_constraint grant = k"
  by (auto simp: load_finish_def split: sum.splits)

lemma load_Inr:
  assumes "fst (loadEvaluationGrant compile c row) = Inr grant"
  shows "eg_id grant = row_id row \<and> eg_effect grant = row_effect row \<and> eg_target grant = row_target row \<and>
    \<not> row_malformed row \<and>
    (\<exists>created. canonicalTimestamp (row_created row) = Some created \<and>
       load_finish row created (eg_constraint grant) = Inr grant \<and>
       (case row_constraint row of
          None \<Rightarrow> eg_constraint grant = None
        | Some source \<Rightarrow> \<exists>k. eg_constraint grant = Some k \<and> fst (compile c source) = Inr k))"
  using assms load_finish_Inr
  by (fastforce simp: loadEvaluationGrant_def split: if_splits option.splits sum.splits prod.splits)

lemma pure_load_Inr:
  assumes "pure_load rx row = Inr grant"
  shows "eg_id grant = row_id row \<and> eg_effect grant = row_effect row \<and> eg_target grant = row_target row \<and>
    \<not> row_malformed row \<and> (\<forall>k. eg_constraint grant = Some k \<longrightarrow> (\<exists>source. CompileConstraint rx source = Inr k))"
  using load_Inr [of "\<lambda>c source. (CompileConstraint rx source, c)" "()" row grant] assms
  unfolding pure_load_def by (auto split: option.splits)

lemma pure_load_id: "pure_load rx row = Inr grant \<Longrightarrow> row_id row \<noteq> []"
  using pure_load_Inr by (fastforce simp: row_malformed_def)

lemma applies_answer:
  "applies rx grant target at arguments work = (Inr b, work') \<Longrightarrow> b = grant_applies rx grant target at arguments"
  by (auto simp: applies_def grant_applies_def constraintMatches_def constraint_holds_def
      split: if_splits option.splits dest: match_atoms_answer)

lemma grant_cost_nonneg:
  assumes "regex_programs_start rx"
  shows "0 \<le> row_cost rx arguments row"
proof (cases "pure_load rx row")
  case (Inr grant)
  have "0 \<le> sum_list (map (atom_cost arguments) (kc_atoms k))" if "eg_constraint grant = Some k" for k
    using pure_load_Inr [OF Inr] that CompileConstraint_positive [OF _ assms] by (blast intro: atom_cost_sum_nonneg)
  with Inr show ?thesis
    by (auto simp: row_cost_def split: option.splits)
qed (simp add: row_cost_def)

lemma row_costs_nonneg: "regex_programs_start rx \<Longrightarrow> 0 \<le> sum_list (map (row_cost rx arguments) rows)"
  by (induction rows) (simp_all add: grant_cost_nonneg add_nonneg_nonneg)

lemma grant_budget:
  assumes "pure_load rx row = Inr grant" and "regex_programs_start rx" and "row_cost rx arguments row \<le> work"
  shows "\<exists>b work1. applies rx grant target at arguments work = (Inr b, work1) \<and> work - row_cost rx arguments row \<le> work1"
proof (cases "eg_constraint grant")
  case None
  then show ?thesis by (auto simp: applies_def row_cost_def assms(1))
next
  case (Some k)
  have cost: "row_cost rx arguments row = sum_list (map (atom_cost arguments) (kc_atoms k))"
    by (simp add: row_cost_def assms(1) Some)
  obtain source where "CompileConstraint rx source = Inr k"
    using pure_load_Inr [OF assms(1)] Some by blast
  then have "positive_atoms (kc_atoms k)"
    by (rule CompileConstraint_positive [OF _ assms(2)])
  from match_atoms_enough [OF this] assms(3) cost
  obtain b w1 where "match_atoms rx (kc_atoms k) arguments work = (Inr b, w1)" "work - row_cost rx arguments row \<le> w1"
    by metis
  with Some grant_cost_nonneg [OF assms(2), of arguments row] show ?thesis
    by (auto simp: applies_def constraintMatches_def)
qed

text \<open>Reading a row with any compiler that keeps the contract.\<close>

context constraint_compiler
begin

lemma load_state:
  "snd (loadEvaluationGrant compile c row) = c \<or> (\<exists>source. snd (loadEvaluationGrant compile c row) = snd (compile c source))"
  by (auto simp: loadEvaluationGrant_def split: option.splits sum.splits prod.splits; metis snd_conv)

lemma load_usable: "usable c \<Longrightarrow> usable (snd (loadEvaluationGrant compile c row))"
  using load_state [of c row] usable_keep by metis

lemma load_ready: "ready c \<Longrightarrow> ready (snd (loadEvaluationGrant compile c row))"
  using load_state [of c row] ready_keep by metis

lemma load_sound:
  assumes "usable c" and "fst (loadEvaluationGrant compile c row) = Inr grant"
  shows "pure_load rx row = Inr grant"
proof -
  from load_Inr [OF assms(2)] obtain created where ok: "\<not> row_malformed row"
      "canonicalTimestamp (row_created row) = Some created" "load_finish row created (eg_constraint grant) = Inr grant"
      and k: "case row_constraint row of
          None \<Rightarrow> eg_constraint grant = None
        | Some source \<Rightarrow> \<exists>k. eg_constraint grant = Some k \<and> fst (compile c source) = Inr k"
    by blast
  show ?thesis
  proof (cases "row_constraint row")
    case None
    with ok k show ?thesis by (simp add: pure_load_def loadEvaluationGrant_def)
  next
    case (Some source)
    with k obtain k' where k': "eg_constraint grant = Some k'" "fst (compile c source) = Inr k'" by auto
    from sound [OF assms(1) k'(2)] ok k'(1) Some show ?thesis
      by (simp add: pure_load_def loadEvaluationGrant_def)
  qed
qed

lemma load_complete:
  assumes "ready c" and "pure_load rx row = Inr grant"
  shows "fst (loadEvaluationGrant compile c row) = Inr grant"
proof -
  from load_Inr [OF assms(2) [unfolded pure_load_def]] obtain created where ok: "\<not> row_malformed row"
      "canonicalTimestamp (row_created row) = Some created" "load_finish row created (eg_constraint grant) = Inr grant"
      and k: "case row_constraint row of
          None \<Rightarrow> eg_constraint grant = None
        | Some source \<Rightarrow> \<exists>k. eg_constraint grant = Some k \<and> fst (CompileConstraint rx source, ()) = Inr k"
    by blast
  show ?thesis
  proof (cases "row_constraint row")
    case None
    with ok k show ?thesis by (simp add: loadEvaluationGrant_def)
  next
    case (Some source)
    with k obtain k' where k': "eg_constraint grant = Some k'" "CompileConstraint rx source = Inr k'" by auto
    from complete [OF assms(1) k'(2)] ok k'(1) Some show ?thesis
      by (cases "compile c source") (simp add: loadEvaluationGrant_def)
  qed
qed

lemma evaluate_rows_sound:
  assumes "usable c"
    and "fst (evaluate_rows compile rx target at arguments hint seen smallest work c rows) = Inr smallest'"
  shows "(\<forall>row \<in> set rows. is_ok (pure_load rx row)) \<and> (rows = [] \<or> seen + int (length rows) \<le> mustLimit ''grants'') \<and>
    smallest' =
      (fold smaller (map row_id (filter (row_matches rx target at arguments hint GrantAllow) rows)) (fst smallest),
       fold smaller (map row_id (filter (row_matches rx target at arguments hint GrantDeny) rows)) (snd smallest))"
  using assms
proof (induction rows arbitrary: seen smallest work c)
  case (Cons row rows)
  obtain r c1 where load: "loadEvaluationGrant compile c row = (r, c1)" by force
  have room: "\<not> seen \<ge> mustLimit ''grants''" using Cons.prems(2) by (auto split: if_splits)
  obtain grant where r: "r = Inr grant"
    using Cons.prems(2) room load by (cases r) simp_all
  have pure: "pure_load rx row = Inr grant" and c1: "usable c1"
    using load_sound [OF Cons.prems(1), of row grant] load_usable [OF Cons.prems(1), of row] load r by simp_all
  note id = pure_load_Inr [OF pure]
  obtain q work1 where app: "applies rx grant target at arguments work = (q, work1)" by force
  obtain holds where q: "q = Inr holds"
    using Cons.prems(2) room load r app by (cases q) simp_all
  have holds: "holds = grant_applies rx grant target at arguments"
    using applies_answer app q by blast
  let ?s1 = "if \<not> holds \<or> eg_readOnly grant \<and> \<not> hint then smallest
     else if eg_effect grant = GrantEffect_string GrantDeny then (fst smallest, smaller (eg_id grant) (snd smallest))
     else if eg_effect grant = GrantEffect_string GrantAllow then (smaller (eg_id grant) (fst smallest), snd smallest)
     else smallest"
  have step: "fst (evaluate_rows compile rx target at arguments hint (seen + 1) ?s1 work1 c1 rows) = Inr smallest'"
    using Cons.prems(2) room load r app q by (simp add: Let_def)
  have match: "row_matches rx target at arguments hint effect row \<longleftrightarrow>
      eg_effect grant = GrantEffect_string effect \<and> holds \<and> (eg_readOnly grant \<longrightarrow> hint)" for effect
    by (auto simp: row_matches_def pure holds)
  from Cons.IH [OF c1 step] pure match id room show ?case by auto
qed simp

lemma evaluate_rows_complete:
  assumes "ready c" and "regex_programs_start rx" and "\<forall>row \<in> set rows. is_ok (pure_load rx row)"
    and "seen + int (length rows) \<le> mustLimit ''grants''" and "sum_list (map (row_cost rx arguments) rows) \<le> work"
  shows "is_ok (fst (evaluate_rows compile rx target at arguments hint seen smallest work c rows))"
  using assms
proof (induction rows arbitrary: seen smallest work c)
  case (Cons row rows)
  obtain grant where pure: "pure_load rx row = Inr grant"
    using Cons.prems(3) by (auto elim: is_okE)
  obtain c1 where load: "loadEvaluationGrant compile c row = (Inr grant, c1)" and c1: "ready c1"
    using load_complete [OF Cons.prems(1) pure] load_ready [OF Cons.prems(1), of row]
    by (cases "loadEvaluationGrant compile c row") simp
  obtain holds work1 where app: "applies rx grant target at arguments work = (Inr holds, work1)"
      and left: "work - row_cost rx arguments row \<le> work1"
    using grant_budget [OF pure Cons.prems(2)] row_costs_nonneg [OF Cons.prems(2), of arguments rows] Cons.prems(5)
    by (metis add.commute le_add_same_cancel1 list.simps(9) order_trans sum_list.Cons)
  have "is_ok (fst (evaluate_rows compile rx target at arguments hint (seen + 1) s1 work1 c1 rows))" for s1
    using Cons.prems left by (intro Cons.IH [OF c1 Cons.prems(2)]) auto
  with load app Cons.prems(4) show ?case by (simp add: Let_def)
qed simp

end

subsection \<open>Whole tables\<close>

lemma fold_smaller_Min: "current \<noteq> [] \<Longrightarrow> [] \<notin> set ids \<Longrightarrow> fold smaller ids current = Min (insert current (set ids))"
proof (induction ids arbitrary: current)
  case (Cons i ids)
  have "smaller i current = min i current" and ne: "smaller i current \<noteq> []"
    using Cons.prems by (auto simp: smaller_def min_def)
  then have "fold smaller (i # ids) current = Min (insert (min i current) (set ids))"
    using Cons.IH [OF ne] Cons.prems(2) by simp
  also have "\<dots> = Min (insert current (set (i # ids)))"
    by (cases "ids = []") (simp_all add: min.assoc min.commute min.left_commute)
  finally show ?case .
qed simp

lemma fold_smaller: "[] \<notin> set ids \<Longrightarrow> fold smaller ids [] = (if ids = [] then [] else Min (set ids))"
  by (cases ids) (auto simp: smaller_def fold_smaller_Min)

lemma grants_query_whole:
  assumes "int (length (grants_query P db)) \<le> mustLimit ''grants''"
  shows "set (grants_query P db) = set (filter P (db_grants db))"
proof -
  have "length (sort_key row_id (filter P (db_grants db))) \<le> 4096"
    using assms by (simp add: grants_query_def)
  then have "grants_query P db = sort_key row_id (filter P (db_grants db))"
    by (simp add: grants_query_def)
  then show ?thesis by simp
qed

lemma row_matches_load: "row_matches rx target at arguments hint effect row \<Longrightarrow> \<exists>grant. pure_load rx row = Inr grant"
  by (cases "pure_load rx row") (simp_all add: row_matches_def)

lemma row_matches_scope:
  assumes "row_matches rx target at arguments hint effect row" and "row_principal row = principalID" and "UpstreamName target \<noteq> None"
  shows "evaluation_where principalID target row"
proof -
  obtain grant where g: "pure_load rx row = Inr grant" and "Covers (eg_target grant) target"
    using assms(1) by (auto simp: row_matches_def grant_applies_def split: sum.splits)
  with pure_load_Inr [OF g] have "Covers (row_target row) target" by simp
  with assms(2,3) show ?thesis
    by (auto simp: Covers_def row_target_def evaluation_where_def ToolName_def)
qed

lemma matching_ids_query:
  assumes "int (length (grants_query (evaluation_where principalID target) db)) \<le> mustLimit ''grants''" and "UpstreamName target \<noteq> None"
  shows "set (map row_id (filter (row_matches rx target at arguments hint effect)
      (grants_query (evaluation_where principalID target) db))) = matching_ids rx db principalID target arguments at hint effect"
  using grants_query_whole [OF assms(1)] row_matches_scope [OF _ _ assms(2)]
  by (fastforce simp: matching_ids_def evaluation_where_def)

lemma matching_ids_nonempty: "[] \<notin> matching_ids rx db principalID target arguments at hint effect"
  using row_matches_load pure_load_id by (fastforce simp: matching_ids_def)

text \<open>What the reader of a whole table promises: the table it decided on, and the decision.\<close>

definition decision_spec :: "string set \<Rightarrow> string set \<Rightarrow> AuthorizationDecision \<times> string option" where
  "decision_spec denies allows =
     (if denies \<noteq> {} then (DecisionDeny, Some (Min denies))
      else if allows \<noteq> {} then (DecisionAllow, Some (Min allows))
      else (DecisionBlock, None))"

definition loads_all :: "regex_lib \<Rightarrow> authority_db \<Rightarrow> string \<Rightarrow> MCP \<Rightarrow> bool" where
  "loads_all rx db principalID target \<longleftrightarrow>
     (\<forall>row \<in> set (db_grants db). evaluation_where principalID target row \<longrightarrow> is_ok (pure_load rx row))"

definition active_overlap :: "regex_lib \<Rightarrow> MCP \<Rightarrow> instant \<Rightarrow> grant_row \<Rightarrow> bool" where
  "active_overlap rx target at row =
     (case pure_load rx row of Inl _ \<Rightarrow> False | Inr grant \<Rightarrow> \<not> expired grant at \<and> Overlaps target (eg_target grant))"

context constraint_compiler
begin

lemma evaluateTx_sound:
  assumes "usable c" and "UpstreamName target \<noteq> None"
    and "fst (evaluateTx compile rx db c principalID target arguments at hint) = Inr result"
  shows "(ar_Decision result, ar_GrantID result) =
      decision_spec (matching_ids rx db principalID target arguments at hint GrantDeny)
        (matching_ids rx db principalID target arguments at hint GrantAllow) \<and>
    loads_all rx db principalID target \<and> ar_AuthorizationRevision result = FormatInt (db_revision db) \<and>
    ar_EvaluatedAt result = FormatCanonical at"
proof -
  let ?rows = "grants_query (evaluation_where principalID target) db"
  let ?ids = "\<lambda>effect. map row_id (filter (row_matches rx target at arguments hint effect) ?rows)"
  obtain smallest where run: "fst (evaluate_rows compile rx target at arguments hint 0 ([], [])
        (mustLimit ''constraint_regex_work_bytes'') c ?rows) = Inr smallest"
      and res: "result = decide (FormatInt (db_revision db)) at smallest"
    using assms(3) by (auto simp: evaluateTx_def authorizationRevisionTx_def split: if_splits sum.splits prod.splits)
  from evaluate_rows_sound [OF assms(1) run]
  have loads: "\<forall>row \<in> set ?rows. is_ok (pure_load rx row)" and len: "int (length ?rows) \<le> mustLimit ''grants''"
      and s: "smallest = (fold smaller (?ids GrantAllow) [], fold smaller (?ids GrantDeny) [])"
    by auto
  have ids: "set (?ids effect) = matching_ids rx db principalID target arguments at hint effect" for effect
    by (rule matching_ids_query [OF len assms(2)])
  have "fold smaller (?ids effect) [] =
      (if matching_ids rx db principalID target arguments at hint effect = {} then []
       else Min (matching_ids rx db principalID target arguments at hint effect))" for effect
    using fold_smaller [of "?ids effect"] ids [of effect] matching_ids_nonempty by (metis set_empty)
  moreover have "Min (matching_ids rx db principalID target arguments at hint effect) \<noteq> []"
    if "matching_ids rx db principalID target arguments at hint effect \<noteq> {}" for effect
    using Min_in [OF _ that] matching_ids_nonempty ids [of effect] by (metis List.finite_set)
  moreover have "loads_all rx db principalID target"
    using loads grants_query_whole [OF len] by (auto simp: loads_all_def)
  ultimately show ?thesis
    unfolding res s decide_def decision_spec_def by (simp add: Let_def)
qed

lemma evaluateTx_complete:
  assumes "ready c" and "regex_programs_start rx" and "validEvaluationTime at" and "0 \<le> db_revision db"
    and "loads_all rx db principalID target"
    and "int (length (filter (evaluation_where principalID target) (db_grants db))) \<le> mustLimit ''grants''"
    and "sum_list (map (row_cost rx arguments) (filter (evaluation_where principalID target) (db_grants db)))
      \<le> mustLimit ''constraint_regex_work_bytes''"
  shows "is_ok (fst (evaluateTx compile rx db c principalID target arguments at hint))"
proof -
  let ?kept = "filter (evaluation_where principalID target) (db_grants db)"
  let ?rows = "grants_query (evaluation_where principalID target) db"
  have rows: "?rows = sort_key row_id ?kept"
    using assms(6) by (simp add: grants_query_def)
  have "mset (map (row_cost rx arguments) ?rows) = mset (map (row_cost rx arguments) ?kept)"
    by (simp only: rows mset_map mset_sort)
  then have cost: "sum_list (map (row_cost rx arguments) ?rows) = sum_list (map (row_cost rx arguments) ?kept)"
    by (metis sum_mset_sum_list)
  have "is_ok (fst (evaluate_rows compile rx target at arguments hint 0 ([], []) (mustLimit ''constraint_regex_work_bytes'') c ?rows))"
  proof (rule evaluate_rows_complete [OF assms(1,2)])
    show "\<forall>row \<in> set ?rows. is_ok (pure_load rx row)"
      using assms(5) by (simp add: rows loads_all_def)
    show "0 + int (length ?rows) \<le> mustLimit ''grants''"
      using assms(6) by (simp add: rows)
    show "sum_list (map (row_cost rx arguments) ?rows) \<le> mustLimit ''constraint_regex_work_bytes''"
      using assms(7) cost by simp
  qed
  then obtain smallest c' where "evaluate_rows compile rx target at arguments hint 0 ([], [])
      (mustLimit ''constraint_regex_work_bytes'') c ?rows = (Inr smallest, c')"
    by (auto elim!: is_okE simp: prod_eq_iff)
  with assms(3,4) show ?thesis
    by (simp add: evaluateTx_def authorizationRevisionTx_def)
qed

lemma conflict_rows_sound:
  assumes "usable c" and "conflict_rows compile target at seen conflict c rows = Inr b"
  shows "(\<forall>row \<in> set rows. is_ok (pure_load rx row)) \<and> (rows = [] \<or> seen + int (length rows) \<le> mustLimit ''grants'') \<and>
    (b \<longleftrightarrow> conflict \<or> (\<exists>row \<in> set rows. active_overlap rx target at row))"
  using assms
proof (induction rows arbitrary: seen conflict c)
  case (Cons row rows)
  obtain r c1 where load: "loadEvaluationGrant compile c row = (r, c1)" by force
  have room: "\<not> seen \<ge> mustLimit ''grants''" using Cons.prems(2) by (auto split: if_splits)
  obtain grant where r: "r = Inr grant"
    using Cons.prems(2) room load by (cases r) simp_all
  have pure: "pure_load rx row = Inr grant" and c1: "usable c1"
    using load_sound [OF Cons.prems(1), of row grant] load_usable [OF Cons.prems(1), of row] load r by simp_all
  have step: "conflict_rows compile target at (seen + 1)
      (if expired grant at then conflict else conflict \<or> Overlaps target (eg_target grant)) c1 rows = Inr b"
    using Cons.prems(2) room load r by (simp split: if_splits)
  from Cons.IH [OF c1 step] pure room show ?case
    by (auto simp: active_overlap_def)
qed simp

lemma structural_rows_sound:
  assumes "usable c" and "structural_rows compile at seen c rows = Inr grants"
  shows "(\<forall>row \<in> set rows. is_ok (pure_load rx row)) \<and> (rows = [] \<or> seen + int (length rows) \<le> mustLimit ''grants'') \<and>
    grants = map structural_of (filter (\<lambda>grant. \<not> expired grant at) (map (projr \<circ> pure_load rx) rows))"
  using assms
proof (induction rows arbitrary: seen c grants)
  case (Cons row rows)
  obtain r c1 where load: "loadEvaluationGrant compile c row = (r, c1)" by force
  have room: "\<not> seen \<ge> mustLimit ''grants''" using Cons.prems(2) by (auto split: if_splits)
  obtain grant where r: "r = Inr grant"
    using Cons.prems(2) room load by (cases r) simp_all
  have pure: "pure_load rx row = Inr grant" and c1: "usable c1"
    using load_sound [OF Cons.prems(1), of row grant] load_usable [OF Cons.prems(1), of row] load r by simp_all
  obtain rest where step: "structural_rows compile at (seen + 1) c1 rows = Inr rest"
      and grants: "grants = (if expired grant at then rest else structural_of grant # rest)"
    using Cons.prems(2) room load r by (auto split: sum.splits)
  from Cons.IH [OF c1 step] pure room grants show ?case by auto
qed simp

lemma HasActiveDenyConflictTx_sound:
  assumes "usable c" and "HasActiveDenyConflictTx compile latches db c principalID target at = Inr b"
  shows "b \<longleftrightarrow> (\<exists>row \<in> set (db_grants db). conflict_where principalID target row \<and> active_overlap rx target at row)"
proof -
  let ?rows = "grants_query (conflict_where principalID target) db"
  have run: "conflict_rows compile target at 0 False c ?rows = Inr b"
    using assms(2) by (auto simp: HasActiveDenyConflictTx_def split: if_splits sum.splits)
  from conflict_rows_sound [OF assms(1) run] have len: "int (length ?rows) \<le> mustLimit ''grants''"
      and b: "b \<longleftrightarrow> (\<exists>row \<in> set ?rows. active_overlap rx target at row)"
    by auto
  from b grants_query_whole [OF len] show ?thesis by auto
qed

lemma loadStructuralGrants_sound:
  assumes "usable c" and "loadStructuralGrants compile db c principalID at = Inr grants"
  shows "set grants = {structural_of grant | grant. \<not> expired grant at \<and>
    (\<exists>row \<in> set (db_grants db). row_principal row = principalID \<and> pure_load rx row = Inr grant)}"
proof -
  let ?rows = "grants_query (\<lambda>row. row_principal row = principalID) db"
  from structural_rows_sound [OF assms(1) assms(2) [unfolded loadStructuralGrants_def]]
  have len: "int (length ?rows) \<le> mustLimit ''grants''" and ok: "\<forall>row \<in> set ?rows. is_ok (pure_load rx row)"
      and g: "grants = map structural_of (filter (\<lambda>grant. \<not> expired grant at) (map (projr \<circ> pure_load rx) ?rows))"
    by auto
  note rows = grants_query_whole [OF len]
  have "(\<exists>row \<in> set ?rows. grant = projr (pure_load rx row)) \<longleftrightarrow>
      (\<exists>row \<in> set (db_grants db). row_principal row = principalID \<and> pure_load rx row = Inr grant)" for grant
    using ok rows by (fastforce elim: is_okE)
  moreover have "set grants = {structural_of grant | grant. \<not> expired grant at \<and>
      (\<exists>row \<in> set ?rows. grant = projr (pure_load rx row))}"
    unfolding g by auto
  ultimately show ?thesis by simp
qed

end

end
