(* ===== verification/Auth_Properties.thy ===== *)
theory Auth_Properties
  imports Evaluator
begin

text \<open>
  The properties of the MCP authority: the decision on a call is deny-overrides over the grants that
  apply, it is reached whenever the table is readable and the arguments are within the budget, and the
  reader of deny conflicts and the structural reading agree with it.
\<close>

lemma expired_mono: "expired grant at \<Longrightarrow> at \<le> later \<Longrightarrow> expired grant later"
  by (auto simp: expired_def split: option.splits)

lemma evaluate_rows_error:
  "fst (evaluate_rows compile rx target at arguments hint seen smallest work c rows) = Inl e \<Longrightarrow> e = ErrAuthorizationUnavailable"
proof (induction rows arbitrary: seen smallest work c)
  case (Cons row rows)
  then show ?case
    by (auto simp: Let_def split: if_splits sum.splits prod.splits)
qed simp

lemma evaluateTx_error:
  assumes "0 \<le> db_revision db"
    and "fst (evaluateTx compile rx db c principalID target arguments at hint) = Inl e"
  shows "e = ErrAuthorizationUnavailable"
proof (cases "validEvaluationTime at")
  case True
  obtain r c' where run: "evaluate_rows compile rx target at arguments hint 0 ([], [])
      (mustLimit ''constraint_regex_work_bytes'') c (grants_query (evaluation_where principalID target) db) = (r, c')"
    by force
  with True assms have "r = Inl e"
    by (cases r) (simp_all add: evaluateTx_def authorizationRevisionTx_def)
  with evaluate_rows_error run show ?thesis
    by (metis fst_conv)
qed (use assms(2) in \<open>simp add: evaluateTx_def\<close>)

subsection \<open>A concrete table\<close>

definition sample_id :: "char \<Rightarrow> string" where
  "sample_id c = ''0123456789ABCDEFGHJKMNPQR'' @ [c]"

definition sample_row :: grant_row where
  "sample_row =
     \<lparr>row_sequence = 1, row_id = sample_id CHR ''A'', row_description = None, row_revision = FormatUint 1,
      row_principal = sample_id CHR ''P'', row_effect = ''allow'', row_server = sample_id CHR ''S'',
      row_upstream = Some ''search'', row_constraint = None, row_expires = None,
      row_created = FormatCanonical 1000000000, row_readOnly = False, row_imported = False\<rparr>"

definition sample_deny :: grant_row where
  "sample_deny =
     sample_row\<lparr>row_sequence := 2, row_id := sample_id CHR ''B'', row_effect := ''deny'', row_upstream := None\<rparr>"

definition sample_imported :: grant_row where
  "sample_imported = sample_row\<lparr>row_expires := Some (FormatCanonical 0), row_imported := True\<rparr>"

definition sample_db :: "grant_row list \<Rightarrow> authority_db" where
  "sample_db rows = \<lparr>db_revision = 7, db_principals = [], db_grants = rows\<rparr>"

definition sample_target :: MCP where
  "sample_target = Tool (sample_id CHR ''S'') ''search''"

lemma sample_ids [simp]:
  "validOpaqueID (sample_id CHR ''A'')" "validOpaqueID (sample_id CHR ''B'')"
  "validOpaqueID (sample_id CHR ''P'')" "validOpaqueID (sample_id CHR ''S'')"
  by (simp_all add: sample_id_def validOpaqueID_def ValidAuditID_def crockford_def)

lemma sample_name [simp]: "validUpstreamName ''search''"
  by (simp add: validUpstreamName_def upstream_byte_def name_ranges_def)

lemma sample_times [simp]:
  "canonicalTimestamp (FormatCanonical 0) = Some 0" "canonicalTimestamp (FormatCanonical 1000000000) = Some 1000000000"
  by (rule canonicalTimestamp_Format; code_simp)+

lemma sample_time_valid [simp]: "validEvaluationTime 2000000000"
  by code_simp

lemma sample_fields [simp]:
  "row_id sample_row = sample_id CHR ''A''" "row_id sample_deny = sample_id CHR ''B''"
  "row_principal sample_row = sample_id CHR ''P''" "row_principal sample_deny = sample_id CHR ''P''"
  "row_effect sample_row = ''allow''" "row_effect sample_deny = ''deny''"
  "row_server sample_row = sample_id CHR ''S''" "row_server sample_deny = sample_id CHR ''S''"
  "row_constraint sample_row = None" "row_constraint sample_deny = None"
  "db_grants (sample_db rows) = rows" "db_revision (sample_db rows) = 7"
  "ServerID sample_target = sample_id CHR ''S''" "UpstreamName sample_target = Some ''search''"
  by (simp_all add: sample_row_def sample_deny_def sample_db_def sample_target_def)

lemma sample_loads [simp]:
  "pure_load rx sample_row = Inr \<lparr>eg_readOnly = False, eg_id = sample_id CHR ''A'', eg_effect = ''allow'',
     eg_target = sample_target, eg_constraint = None, eg_expiresAt = None\<rparr>"
  "pure_load rx sample_deny = Inr \<lparr>eg_readOnly = False, eg_id = sample_id CHR ''B'', eg_effect = ''deny'',
     eg_target = \<lparr>ServerID = sample_id CHR ''S'', UpstreamName = None\<rparr>, eg_constraint = None, eg_expiresAt = None\<rparr>"
  by (simp_all add: pure_load_def loadEvaluationGrant_def row_malformed_def sample_row_def sample_deny_def validGrantEffect_def
      row_target_def ToolName_def load_finish_def load_expiry_def sample_target_def Tool_def)

lemma sample_reachable: "(cache_step rx)\<^sup>*\<^sup>* empty_cache empty_cache" "cache_ready rx empty_cache"
  using constraint_cache.inv_start [OF refl] by (simp_all add: cache_ready_def empty_cache_def maxCompiledConstraintFlights_def)

lemma sample_rows_match:
  "row_matches rx sample_target 2000000000 arguments False GrantAllow sample_row"
  "row_matches rx sample_target 2000000000 arguments False GrantDeny sample_deny"
  "\<not> row_matches rx sample_target 2000000000 arguments False GrantDeny sample_row"
  "\<not> row_matches rx sample_target 2000000000 arguments False GrantAllow sample_deny"
  by (simp_all add: row_matches_def grant_applies_def expired_def Covers_def sample_target_def Tool_def)

lemma no_regex_programs: "regex_programs_start no_regex"
  by (simp add: regex_programs_start_def no_regex_def)

lemma sample_answers:
  "is_ok (fst (evaluateTx (compileConstraint no_regex) no_regex (sample_db [sample_row, sample_deny]) empty_cache
     (sample_id CHR ''P'') sample_target (ValueObject []) 2000000000 False))"
  by (rule cached.evaluateTx_complete [OF sample_reachable(2) no_regex_programs])
    (simp_all add: loads_all_def row_cost_def)

subsection \<open>The decision\<close>

text \<open>
  C6: Deny overrides. When the evaluation of a call answers, in any state of the shared constraint cache, every
  grant of the principal that concerns the target was readable, and the answer is: denied, naming the
  smallest matching deny, when some deny matches; otherwise allowed, naming the smallest matching allow,
  when some allow matches; otherwise blocked. A grant matches when its scope covers the target, it has
  not expired, all atoms of its constraint hold of the arguments, and a read-only grant only when the
  tool is hinted read-only.
\<close>

theorem evaluate_deny_overrides:
  assumes "(cache_step rx)\<^sup>*\<^sup>* empty_cache cache" and "UpstreamName target \<noteq> None"
    and "fst (evaluateTx (compileConstraint rx) rx db cache principalID target arguments at hint) = Inr result"
  shows "(ar_Decision result, ar_GrantID result) =
      decision_spec (matching_ids rx db principalID target arguments at hint GrantDeny)
        (matching_ids rx db principalID target arguments at hint GrantAllow) \<and>
    loads_all rx db principalID target \<and> ar_AuthorizationRevision result = FormatInt (db_revision db) \<and>
    ar_EvaluatedAt result = FormatCanonical at"
  by (rule cached.evaluateTx_sound [OF constraint_cache.inv_reachable [OF refl assms(1)] assms(2,3)])

text \<open>
  C19: The evaluation answers whenever it should: with a valid clock and revision, a readable table of at most
  the fixed number of grants, and arguments whose regular-expression work fits the budget, it never
  reports authorization unavailable, as long as fewer than four compilations are in flight.
\<close>

theorem evaluate_available:
  assumes "cache_ready rx cache" and "regex_programs_start rx" and "validEvaluationTime at" and "0 \<le> db_revision db"
    and "loads_all rx db principalID target"
    and "length (filter (evaluation_where principalID target) (db_grants db)) \<le> 4096"
    and "sum_list (map (row_cost rx arguments) (filter (evaluation_where principalID target) (db_grants db))) \<le> 1048576"
  shows "\<exists>result. fst (evaluateTx (compileConstraint rx) rx db cache principalID target arguments at hint) = Inr result"
proof -
  have "is_ok (fst (evaluateTx (compileConstraint rx) rx db cache principalID target arguments at hint))"
    using assms by (intro cached.evaluateTx_complete) simp_all
  then show ?thesis by (auto elim: is_okE)
qed

theorem evaluate_available_witness:
  "\<exists>result. fst (evaluateTx (compileConstraint no_regex) no_regex (sample_db [sample_row, sample_deny]) empty_cache
     (sample_id CHR ''P'') sample_target (ValueObject []) 2000000000 False) = Inr result"
  using sample_reachable(2) no_regex_programs
  by (intro evaluate_available) (simp_all add: loads_all_def row_cost_def)

theorem evaluate_deny_overrides_witness:
  "\<exists>result. fst (evaluateTx (compileConstraint no_regex) no_regex (sample_db [sample_row, sample_deny]) empty_cache
     (sample_id CHR ''P'') sample_target (ValueObject []) 2000000000 False) = Inr result \<and>
     ar_Decision result = DecisionDeny \<and> ar_GrantID result = Some (sample_id CHR ''B'')"
proof -
  obtain result where r: "fst (evaluateTx (compileConstraint no_regex) no_regex (sample_db [sample_row, sample_deny]) empty_cache
     (sample_id CHR ''P'') sample_target (ValueObject []) 2000000000 False) = Inr result"
    using sample_answers by (auto elim: is_okE)
  have "UpstreamName sample_target \<noteq> None"
    by (simp add: sample_target_def)
  from evaluate_deny_overrides [OF sample_reachable(1) this r] r show ?thesis
    by (simp add: matching_ids_def sample_rows_match decision_spec_def)
qed

subsection \<open>Conflicts and discovery\<close>

lemma conflict_free_no_deny:
  assumes "\<not> (\<exists>row \<in> set (db_grants db). conflict_where principalID scope row \<and> active_overlap rx scope at row)"
    and "Covers scope target" and "at \<le> later"
  shows "matching_ids rx db principalID target arguments later hint GrantDeny = {}"
proof (rule ccontr)
  assume "\<not> ?thesis"
  then obtain row where row: "row \<in> set (db_grants db)" "row_principal row = principalID"
      "row_matches rx target later arguments hint GrantDeny row"
    by (auto simp: matching_ids_def)
  then obtain grant where g: "pure_load rx row = Inr grant"
    using row_matches_load by blast
  with row(3) have m: "eg_effect grant = ''deny''" "Covers (eg_target grant) target" "\<not> expired grant later"
    by (simp_all add: row_matches_def grant_applies_def)
  note eq = pure_load_Inr [OF g]
  have "Overlaps scope (eg_target grant)"
    using assms(2) m(2) Overlaps_iff_common by blast
  moreover have "\<not> expired grant at"
    using m(3) expired_mono [OF _ assms(3)] by blast
  moreover have "row_server row = ServerID scope"
    using assms(2) m(2) eq by (simp add: Covers_def row_target_def)
  ultimately have "conflict_where principalID scope row" "active_overlap rx scope at row"
    using row(2) g m(1) eq by (simp_all add: conflict_where_def active_overlap_def)
  with assms(1) row(1) show False by blast
qed

text \<open>
  C24: The conflict check that guards approvals is exact and lasting. When it answers, it reports a conflict exactly
  when an unexpired deny of the principal overlaps the scope; and without a conflict no call on a tool the
  scope covers is denied, then or at any later time, while the table stays as it is.
\<close>

theorem deny_conflict_sound:
  assumes "(cache_step rx)\<^sup>*\<^sup>* empty_cache cache"
    and "HasActiveDenyConflictTx (compileConstraint rx) latches db cache principalID scope at = Inr conflict"
  shows "(conflict \<longleftrightarrow>
      (\<exists>row \<in> set (db_grants db). conflict_where principalID scope row \<and> active_overlap rx scope at row)) \<and>
    (\<not> conflict \<longrightarrow> (\<forall>target arguments later hint result cache'. Covers scope target \<and> UpstreamName target \<noteq> None \<and> at \<le> later \<and>
       (cache_step rx)\<^sup>*\<^sup>* empty_cache cache' \<and>
       fst (evaluateTx (compileConstraint rx) rx db cache' principalID target arguments later hint) = Inr result \<longrightarrow>
       ar_Decision result \<noteq> DecisionDeny))"
proof -
  have exact: "conflict \<longleftrightarrow>
      (\<exists>row \<in> set (db_grants db). conflict_where principalID scope row \<and> active_overlap rx scope at row)"
    by (rule cached.HasActiveDenyConflictTx_sound [OF constraint_cache.inv_reachable [OF refl assms(1)] assms(2)])
  have "ar_Decision result \<noteq> DecisionDeny"
    if "\<not> conflict" "Covers scope target" "UpstreamName target \<noteq> None" "at \<le> later" "(cache_step rx)\<^sup>*\<^sup>* empty_cache cache'"
      "fst (evaluateTx (compileConstraint rx) rx db cache' principalID target arguments later hint) = Inr result"
    for target arguments later hint result cache'
    using cached.evaluateTx_sound [OF constraint_cache.inv_reachable [OF refl that(5)] that(3,6)]
      conflict_free_no_deny [of db principalID scope rx at target later arguments hint] exact that(1,2,4)
    by (auto simp: decision_spec_def split: if_splits)
  with exact show ?thesis by blast
qed

theorem deny_conflict_sound_witness:
  "HasActiveDenyConflictTx (compileConstraint no_regex) (False, False) (sample_db [sample_row, sample_deny]) empty_cache
     (sample_id CHR ''P'') sample_target 2000000000 = Inr True \<and> active_overlap no_regex sample_target 2000000000 sample_deny"
proof -
  have load: "loadEvaluationGrant (compileConstraint no_regex) empty_cache sample_deny = (pure_load no_regex sample_deny, empty_cache)"
    by (simp add: pure_load_def loadEvaluationGrant_def split: option.splits)
  have rows: "grants_query (conflict_where (sample_id CHR ''P'') sample_target) (sample_db [sample_row, sample_deny]) = [sample_deny]"
    by (simp add: grants_query_def conflict_where_def)
  have run: "HasActiveDenyConflictTx (compileConstraint no_regex) (False, False) (sample_db [sample_row, sample_deny]) empty_cache
     (sample_id CHR ''P'') sample_target 2000000000 = Inr True"
    by (simp add: HasActiveDenyConflictTx_def rows load zero_instant_def epoch_day_def nanos_per_day_def
        authorizationRevisionTx_def expired_def Overlaps_def Covers_def)
  with deny_conflict_sound [OF sample_reachable(1) run] show ?thesis
    by (simp add: conflict_where_def)
qed

text \<open>
  C26: Discovery never hides what a call would get. When the structural reading of a principal's grants answers, it lists
  exactly the unexpired grants; so every call that is allowed or denied at that time is so by a listed
  grant whose scope covers the tool.
\<close>

theorem discovery_covers_calls:
  assumes "(cache_step rx)\<^sup>*\<^sup>* empty_cache cache" and "(cache_step rx)\<^sup>*\<^sup>* empty_cache cache'"
    and "loadStructuralGrants (compileConstraint rx) db cache principalID at = Inr grants"
    and "fst (evaluateTx (compileConstraint rx) rx db cache' principalID target arguments at hint) = Inr result"
    and "UpstreamName target \<noteq> None"
  shows "set grants = {structural_of grant | grant. \<not> expired grant at \<and>
      (\<exists>row \<in> set (db_grants db). row_principal row = principalID \<and> pure_load rx row = Inr grant)} \<and>
    (ar_Decision result \<noteq> DecisionBlock \<longrightarrow>
      (\<exists>g \<in> set grants. Covers (sg_Target g) target \<and> sg_Effect g = AuthorizationDecision_string (ar_Decision result)))"
proof -
  note listed = cached.loadStructuralGrants_sound [OF constraint_cache.inv_reachable [OF refl assms(1)] assms(3)]
  note decided = cached.evaluateTx_sound [OF constraint_cache.inv_reachable [OF refl assms(2)] assms(5,4)]
  have found: "\<exists>g \<in> set grants. Covers (sg_Target g) target \<and> sg_Effect g = GrantEffect_string effect"
    if some: "matching_ids rx db principalID target arguments at hint effect \<noteq> {}" for effect
  proof -
    from some obtain row where row: "row \<in> set (db_grants db)" "row_principal row = principalID"
        "row_matches rx target at arguments hint effect row"
      by (auto simp: matching_ids_def)
    then obtain grant where g: "pure_load rx row = Inr grant"
      using row_matches_load by blast
    with row(3) have "eg_effect grant = GrantEffect_string effect" "Covers (eg_target grant) target" "\<not> expired grant at"
      by (simp_all add: row_matches_def grant_applies_def)
    moreover from this(3) row g have "structural_of grant \<in> set grants"
      unfolding listed by blast
    ultimately show ?thesis
      by (intro bexI [of _ "structural_of grant"]) (simp_all add: structural_of_def)
  qed
  from decided have "ar_Decision result \<noteq> DecisionBlock \<longrightarrow>
      (ar_Decision result = DecisionDeny \<and> matching_ids rx db principalID target arguments at hint GrantDeny \<noteq> {} \<or>
       ar_Decision result = DecisionAllow \<and> matching_ids rx db principalID target arguments at hint GrantAllow \<noteq> {})"
    by (auto simp: decision_spec_def split: if_splits)
  with listed found show ?thesis by fastforce
qed

theorem discovery_covers_calls_witness:
  "\<exists>grants. loadStructuralGrants (compileConstraint no_regex) (sample_db [sample_row, sample_deny]) empty_cache
     (sample_id CHR ''P'') 2000000000 = Inr grants \<and>
     (\<exists>g \<in> set grants. Covers (sg_Target g) sample_target \<and> sg_Effect g = ''deny'')"
proof -
  have load: "loadEvaluationGrant (compileConstraint no_regex) empty_cache row = (pure_load no_regex row, empty_cache)"
    if "row_constraint row = None" for row
    using that by (simp add: pure_load_def loadEvaluationGrant_def split: option.splits)
  have "sample_id CHR ''A'' \<le> sample_id CHR ''B''"
    by code_simp
  then have rows: "grants_query (\<lambda>row. row_principal row = sample_id CHR ''P'') (sample_db [sample_row, sample_deny]) = [sample_row, sample_deny]"
    by (simp add: grants_query_def)
  obtain grants where g: "loadStructuralGrants (compileConstraint no_regex) (sample_db [sample_row, sample_deny]) empty_cache
     (sample_id CHR ''P'') 2000000000 = Inr grants"
    by (simp add: loadStructuralGrants_def rows load)
  obtain result where r: "fst (evaluateTx (compileConstraint no_regex) no_regex (sample_db [sample_row, sample_deny]) empty_cache
     (sample_id CHR ''P'') sample_target (ValueObject []) 2000000000 False) = Inr result"
    using sample_answers by (auto elim: is_okE)
  have "ar_Decision result = DecisionDeny"
    using cached.evaluateTx_sound [OF constraint_cache.inv_start [OF refl] _ r]
    by (simp add: matching_ids_def sample_rows_match decision_spec_def)
  moreover have "UpstreamName sample_target \<noteq> None" by simp
  ultimately have "\<exists>g \<in> set grants. Covers (sg_Target g) sample_target \<and> sg_Effect g = ''deny''"
    using discovery_covers_calls [OF sample_reachable(1) sample_reachable(1) g r, THEN conjunct2] by simp
  with g show ?thesis by blast
qed

text \<open>
  C36: A grant whose expiry lies at or before its creation, which the import of a configuration produces for a
  grant that has already expired and which the start-up check accepts, makes every evaluation for its
  principal on its target unavailable instead of being ignored as expired.
\<close>

theorem imported_expiry_blocks_evaluation:
  assumes "validateGrants rx stored principalIDs (db_grants db) = Inr ()" and "0 \<le> db_revision db"
    and "row \<in> set (db_grants db)" and "evaluation_where principalID target row" and "UpstreamName target \<noteq> None"
    and "row_expires row = Some value" and "canonicalTimestamp value = Some expiry"
    and "canonicalTimestamp (row_created row) = Some created" and "expiry \<le> created"
    and "(cache_step rx)\<^sup>*\<^sup>* empty_cache cache"
  shows "fst (evaluateTx (compileConstraint rx) rx db cache principalID target arguments at hint) = Inl ErrAuthorizationUnavailable"
proof -
  have "load_finish row created k = Inl ErrAuthorizationUnavailable" for k
    using assms(6-9) by (simp add: load_finish_def load_expiry_def)
  then have "\<not> is_ok (pure_load rx row)"
    using assms(8) by (auto simp: pure_load_def loadEvaluationGrant_def split: option.splits sum.splits)
  then have "\<not> loads_all rx db principalID target"
    using assms(3,4) by (auto simp: loads_all_def)
  then have "\<not> is_ok (fst (evaluateTx (compileConstraint rx) rx db cache principalID target arguments at hint))"
    using cached.evaluateTx_sound [OF constraint_cache.inv_reachable [OF refl assms(10)] assms(5)]
    by (auto elim: is_okE)
  moreover have "fst (evaluateTx (compileConstraint rx) rx db cache principalID target arguments at hint) = Inl e \<Longrightarrow>
      e = ErrAuthorizationUnavailable" for e
    by (rule evaluateTx_error [OF assms(2)])
  ultimately show ?thesis
    by (cases "fst (evaluateTx (compileConstraint rx) rx db cache principalID target arguments at hint)") auto
qed

lemma sample_imported_fields [simp]:
  "row_sequence sample_imported = 1" "row_id sample_imported = sample_id CHR ''A''" "row_description sample_imported = None"
  "row_revision sample_imported = FormatUint 1" "row_principal sample_imported = sample_id CHR ''P''"
  "row_effect sample_imported = ''allow''" "row_server sample_imported = sample_id CHR ''S''"
  "row_upstream sample_imported = Some ''search''" "row_constraint sample_imported = None"
  "row_expires sample_imported = Some (FormatCanonical 0)" "row_created sample_imported = FormatCanonical 1000000000"
  "row_readOnly sample_imported = False" "row_imported sample_imported = True"
  by (simp_all add: sample_imported_def sample_row_def)

lemma sample_imported_valid: "validateGrants no_regex (\<lambda>_. True) [sample_id CHR ''P''] [sample_imported] = Inr ()"
proof -
  have "validRevision (FormatUint 1)" by (simp add: validRevision_def)
  then have "\<not> grant_row_invalid 0 sample_imported"
    by (simp add: grant_row_invalid_def validGrantDescription_def validGrantEffect_def)
  moreover have "\<not> grant_scope_invalid no_regex sample_imported" "\<not> grant_times_invalid sample_imported"
    by (simp_all add: grant_scope_invalid_def grant_times_invalid_def)
  ultimately show ?thesis
    by (simp add: validateGrants_def)
qed

theorem imported_expiry_blocks_evaluation_witness:
  "validateGrants no_regex (\<lambda>_. True) [sample_id CHR ''P''] [sample_imported] = Inr () \<and>
   fst (evaluateTx (compileConstraint no_regex) no_regex (sample_db [sample_imported]) empty_cache
     (sample_id CHR ''P'') sample_target (ValueObject []) 2000000000 False) = Inl ErrAuthorizationUnavailable"
proof -
  have "fst (evaluateTx (compileConstraint no_regex) no_regex (sample_db [sample_imported]) empty_cache
     (sample_id CHR ''P'') sample_target (ValueObject []) 2000000000 False) = Inl ErrAuthorizationUnavailable"
  proof (rule imported_expiry_blocks_evaluation)
    show "validateGrants no_regex (\<lambda>_. True) [sample_id CHR ''P''] (db_grants (sample_db [sample_imported])) = Inr ()"
      using sample_imported_valid by simp
    show "evaluation_where (sample_id CHR ''P'') sample_target sample_imported"
      by (simp add: evaluation_where_def ToolName_def)
    show "sample_imported \<in> set (db_grants (sample_db [sample_imported]))"
      by simp
    show "(0 :: int) \<le> 1000000000" by simp
    show "canonicalTimestamp (row_created sample_imported) = Some 1000000000" by simp
    show "row_expires sample_imported = Some (FormatCanonical 0)" by simp
    show "canonicalTimestamp (FormatCanonical 0) = Some 0" by simp
  qed simp_all
  with sample_imported_valid show ?thesis by simp
qed

end
