(* ===== verification/Request_Policy.thy ===== *)
theory Request_Policy
  imports Evaluator "HOL-Library.Product_Lexorder"
begin

text \<open>
  \<open>internal/grantrequests/policy.go\<close> and the target names of \<open>creation.go\<close>: the policy a client asks for, what
  makes two requests the same, and when an approved policy is no broader than the submitted one.
\<close>

record grant_Policy =
  gp_ReadOnly :: bool
  gp_Scope :: string
  gp_Target :: string
  gp_Constraint :: "string option"
  gp_DurationSeconds :: "string option"
  gp_FutureToolsAcknowledged :: bool

record CompiledPolicy =
  cp_value :: grant_Policy
  cp_constraint :: "CompiledConstraint option"
  cp_durationSeconds :: int
  cp_durationSecondsValid :: bool

record DedupeIdentity =
  di_Version :: int
  di_Bytes :: string

record normalizedTarget =
  nt_namespace :: string
  nt_externalName :: string
  nt_upstreamName :: "string option"

datatype policy_error = ErrInvalidPolicy | ErrPolicyBroadening

definition maximumDedupeBytes :: nat where
  "maximumDedupeBytes = 16384"

definition GrantRequestDurationMinimumSeconds :: int where
  "GrantRequestDurationMinimumSeconds = 60"

definition GrantRequestDurationMaximumSeconds :: int where
  "GrantRequestDurationMaximumSeconds = 2592000"

subsection \<open>Compiling a policy\<close>

definition compile_duration :: "string option \<Rightarrow> policy_error + int \<times> bool" where
  "compile_duration duration =
     (case duration of
        None \<Rightarrow> Inr (0, False)
      | Some value \<Rightarrow>
          (case ParseInt value of
             None \<Rightarrow> Inl ErrInvalidPolicy
           | Some seconds \<Rightarrow>
               if FormatInt seconds \<noteq> value \<or> seconds < GrantRequestDurationMinimumSeconds \<or>
                  seconds > GrantRequestDurationMaximumSeconds then Inl ErrInvalidPolicy
               else Inr (seconds, True)))"

definition compile_optional :: "regex_lib \<Rightarrow> string option \<Rightarrow> policy_error + CompiledConstraint option" where
  "compile_optional rx source =
     (case source of
        None \<Rightarrow> Inr None
      | Some contents \<Rightarrow>
          (case CompileConstraint rx contents of Inl _ \<Rightarrow> Inl ErrInvalidPolicy | Inr k \<Rightarrow> Inr (Some k)))"

definition CompilePolicy :: "regex_lib \<Rightarrow> grant_Policy \<Rightarrow> policy_error + CompiledPolicy" where
  "CompilePolicy rx input =
     (if \<not> utf8_valid (gp_Target input) \<or> length (gp_Target input) < 1 \<or>
         int (length (gp_Target input)) > mustLimit ''grant_request_target_bytes'' then Inl ErrInvalidPolicy
      else
        (case ParsePolicyScope (gp_Scope input) of
           None \<Rightarrow> Inl ErrInvalidPolicy
         | Some scope \<Rightarrow>
             (case compile_optional rx (gp_Constraint input) of
                Inl e \<Rightarrow> Inl e
              | Inr constraint \<Rightarrow>
                  if (case scope of
                        PolicyTool \<Rightarrow> gp_FutureToolsAcknowledged input \<or> gp_ReadOnly input
                      | PolicyServer \<Rightarrow> gp_Constraint input \<noteq> None \<or> \<not> gp_FutureToolsAcknowledged input)
                  then Inl ErrInvalidPolicy
                  else
                    (case compile_duration (gp_DurationSeconds input) of
                       Inl e \<Rightarrow> Inl e
                     | Inr (seconds, present) \<Rightarrow>
                         Inr \<lparr>cp_value = input, cp_constraint = constraint, cp_durationSeconds = seconds,
                              cp_durationSecondsValid = present\<rparr>))))"

definition cp_Scope :: "CompiledPolicy \<Rightarrow> string" where
  "cp_Scope policy = gp_Scope (cp_value policy)"

definition ExpiresAt :: "CompiledPolicy \<Rightarrow> instant \<Rightarrow> instant option" where
  "ExpiresAt policy approvedAt =
     (if \<not> cp_durationSecondsValid policy then None else Some (approvedAt + cp_durationSeconds policy * 1000000000))"

subsection \<open>Target names\<close>

definition namespace_byte :: "bool \<Rightarrow> char \<Rightarrow> bool" where
  "namespace_byte first b \<longleftrightarrow>
     CHR ''a'' \<le> b \<and> b \<le> CHR ''z'' \<or> \<not> first \<and> CHR ''0'' \<le> b \<and> b \<le> CHR ''9'' \<or>
     \<not> first \<and> (b = CHR ''_'' \<or> b = CHR ''-'')"

definition validRequestNamespace :: "string \<Rightarrow> bool" where
  "validRequestNamespace value =
     (case value of
        [] \<Rightarrow> False
      | b # bs \<Rightarrow> length value \<le> 32 \<and> namespace_byte True b \<and> list_all (namespace_byte False) bs)"

definition validRequestToolName :: "string \<Rightarrow> bool" where
  "validRequestToolName value = validUpstreamName value"

definition normalizePolicyTarget :: "CompiledPolicy \<Rightarrow> normalizedTarget option" where
  "normalizePolicyTarget policy =
     (let value = gp_Target (cp_value policy) in
      if cp_Scope policy = PolicyScope_string PolicyServer then
        (if \<not> validRequestNamespace value then None
         else Some \<lparr>nt_namespace = value, nt_externalName = [], nt_upstreamName = None\<rparr>)
      else
        let namespace = takeWhile (\<lambda>c. c \<noteq> CHR ''.'') value; rest = dropWhile (\<lambda>c. c \<noteq> CHR ''.'') value in
        (case rest of
           [] \<Rightarrow> None
         | _ # upstream \<Rightarrow>
             if namespace = [] \<or> upstream = [] then None
             else if \<not> validRequestNamespace namespace \<or> \<not> validRequestToolName upstream then None
             else Some \<lparr>nt_namespace = namespace, nt_externalName = value, nt_upstreamName = Some upstream\<rparr>))"

definition validResolvedTarget :: "CompiledPolicy \<Rightarrow> MCP \<Rightarrow> bool" where
  "validResolvedTarget policy target \<longleftrightarrow>
     validOpaqueID (ServerID target) \<and>
     (case UpstreamName target of
        None \<Rightarrow> cp_Scope policy = PolicyScope_string PolicyServer
      | Some n \<Rightarrow>
          utf8_valid n \<and> 1 \<le> length n \<and> int (length n) \<le> mustLimit ''grant_request_target_bytes'' \<and>
          cp_Scope policy = PolicyScope_string PolicyTool)"

subsection \<open>The identity of a request\<close>

definition writeBytes :: "string \<Rightarrow> string" where
  "writeBytes value = FormatUint (length value) @ '':'' @ value"

abbreviation nul :: char where "nul \<equiv> CHR 0x00"
abbreviation soh :: char where "soh \<equiv> CHR 0x01"

definition writeDedupeAtom :: "ConstraintAtom \<Rightarrow> string" where
  "writeDedupeAtom atom =
     (case ca_Type atom of
        ConstraintNull \<Rightarrow> [nul]
      | ConstraintBoolean \<Rightarrow> [soh, if ca_Boolean atom then soh else nul]
      | ConstraintString \<Rightarrow> CHR 0x02 # writeBytes (ca_String atom)
      | ConstraintNumber \<Rightarrow> CHR 0x03 # writeBytes (ca_Number atom))"

definition dedupe_version :: "CompiledPolicy \<Rightarrow> int" where
  "dedupe_version policy =
     (if gp_ReadOnly (cp_value policy) then 3
      else (case cp_constraint policy of Some k \<Rightarrow> if kc_version k = 2 then 2 else 1 | None \<Rightarrow> 1))"

definition version_bytes :: "int \<Rightarrow> string" where
  "version_bytes version =
     (if version = 3 then ''MGWGRQ3'' @ [nul] else if version = 1 then ''MGWGRQ1'' @ [nul] else ''MGWGRQ2'' @ [nul])"

definition atom_key :: "ConstraintAtom \<Rightarrow> string \<times> string" where
  "atom_key atom = (ConstraintOperator_string (ca_Operator atom), ca_Pointer atom)"

definition operator_bytes :: "int \<Rightarrow> ConstraintOperator \<Rightarrow> string" where
  "operator_bytes version operator =
     (if version = 2 then (case operator of ConstraintEquals \<Rightarrow> [nul] | ConstraintRegex \<Rightarrow> [soh]) else [])"

definition atom_bytes :: "int \<Rightarrow> ConstraintAtom \<Rightarrow> string" where
  "atom_bytes version atom = operator_bytes version (ca_Operator atom) @ writeBytes (ca_Pointer atom) @ writeDedupeAtom atom"

definition target_bytes :: "MCP \<Rightarrow> string" where
  "target_bytes target =
     writeBytes (ServerID target) @ (case UpstreamName target of None \<Rightarrow> [nul] | Some n \<Rightarrow> soh # writeBytes n)"

definition constraint_bytes :: "int \<Rightarrow> CompiledConstraint option \<Rightarrow> string" where
  "constraint_bytes version constraint =
     (case constraint of
        None \<Rightarrow> [nul]
      | Some k \<Rightarrow>
          let atoms = sort_key atom_key (Atoms k) in
          soh # FormatUint (length atoms) @ '':'' @ concat (map (atom_bytes version) atoms))"

definition duration_bytes :: "CompiledPolicy \<Rightarrow> string" where
  "duration_bytes policy =
     (if cp_durationSecondsValid policy then soh # FormatInt (cp_durationSeconds policy) @ '':'' else [nul])"

definition CanonicalDedupeIdentity :: "CompiledPolicy \<Rightarrow> MCP \<Rightarrow> policy_error + DedupeIdentity" where
  "CanonicalDedupeIdentity policy target =
     (if \<not> validResolvedTarget policy target then Inl ErrInvalidPolicy
      else
        let version = dedupe_version policy;
            output = version_bytes version @ target_bytes target @ constraint_bytes version (cp_constraint policy) @
              duration_bytes policy @ [if gp_FutureToolsAcknowledged (cp_value policy) then soh else nul] in
        if length output > maximumDedupeBytes then Inl ErrInvalidPolicy
        else Inr \<lparr>di_Version = version, di_Bytes = output\<rparr>)"

subsection \<open>Narrowing\<close>

definition constraintRetained :: "CompiledConstraint option \<Rightarrow> CompiledConstraint option \<Rightarrow> bool" where
  "constraintRetained submitted approved =
     (case submitted of
        None \<Rightarrow> True
      | Some s \<Rightarrow>
          (case approved of
             None \<Rightarrow> False
           | Some a \<Rightarrow>
               if kc_version s = 2 \<and> kc_version a = 1 then False
               else list_all (\<lambda>atom. atom \<in> set (Atoms a)) (Atoms s)))"

definition ValidateNarrowing :: "CompiledPolicy \<Rightarrow> MCP \<Rightarrow> CompiledPolicy \<Rightarrow> MCP \<Rightarrow> policy_error + unit" where
  "ValidateNarrowing submitted submittedTarget approved approvedTarget =
     (if \<not> validResolvedTarget submitted submittedTarget \<or> \<not> validResolvedTarget approved approvedTarget \<or>
         \<not> Covers submittedTarget approvedTarget then Inl ErrPolicyBroadening
      else if gp_ReadOnly (cp_value submitted) \<and>
              (\<not> gp_ReadOnly (cp_value approved) \<or> cp_Scope approved \<noteq> PolicyScope_string PolicyServer)
      then Inl ErrPolicyBroadening
      else if
        (if cp_Scope submitted = PolicyScope_string PolicyServer then
           (if cp_Scope approved = PolicyScope_string PolicyServer then UpstreamName approvedTarget \<noteq> None
            else cp_Scope approved \<noteq> PolicyScope_string PolicyTool \<or> UpstreamName approvedTarget = None)
         else if cp_Scope submitted = PolicyScope_string PolicyTool then
           cp_Scope approved \<noteq> PolicyScope_string PolicyTool \<or>
           \<not> constraintRetained (cp_constraint submitted) (cp_constraint approved)
         else True)
      then Inl ErrPolicyBroadening
      else if cp_durationSecondsValid submitted \<and>
              (\<not> cp_durationSecondsValid approved \<or> cp_durationSeconds approved > cp_durationSeconds submitted)
      then Inl ErrPolicyBroadening
      else Inr ())"

text \<open>What a policy lets through once it is a grant: the calls its target and constraint admit until it expires.\<close>

definition policy_permits ::
  "regex_lib \<Rightarrow> CompiledPolicy \<Rightarrow> MCP \<Rightarrow> instant \<Rightarrow> MCP \<Rightarrow> Value \<Rightarrow> bool \<Rightarrow> instant \<Rightarrow> bool" where
  "policy_permits rx policy target approvedAt call arguments readOnlyHint at \<longleftrightarrow>
     Covers target call \<and>
     (case cp_constraint policy of None \<Rightarrow> True | Some k \<Rightarrow> constraint_holds rx k arguments) \<and>
     (gp_ReadOnly (cp_value policy) \<longrightarrow> readOnlyHint) \<and>
     (case ExpiresAt policy approvedAt of None \<Rightarrow> True | Some expiry \<Rightarrow> expiry > at)"

subsection \<open>Atoms say what they check\<close>

lemma Atom_fields:
  "ca_Operator (Atom a) = at_operator a" "ca_Pointer (Atom a) = at_pointer a"
  by (simp_all add: Atom_def zero_atom_def Let_def split: Value.splits)

lemma Atom_expected:
  assumes "Atom a = Atom b" and "scalar_value (at_expected a)" and "scalar_value (at_expected b)"
  shows "at_expected a = at_expected b"
  using assms by (cases "at_expected a"; cases "at_expected b") (simp_all add: Atom_def zero_atom_def Let_def)

lemma Atom_determines:
  assumes "Atom a = Atom b" and "atom_wf rx a" and "atom_wf rx b"
  shows "atom_holds rx arguments a = atom_holds rx arguments b"
proof -
  have op: "at_operator a = at_operator b" and ptr: "at_pointer a = at_pointer b"
    using assms(1) Atom_fields [of a] Atom_fields [of b] by simp_all
  have seg: "at_segments a = at_segments b"
    using assms(2,3) ptr by (simp add: atom_wf_def)
  have ex: "at_expected a = at_expected b"
    using Atom_expected [OF assms(1)] assms(2,3) by (simp add: atom_wf_def)
  have "at_operator a = ConstraintRegex \<Longrightarrow> atom_regex rx a = atom_regex rx b"
    using assms(2,3) op ex by (auto simp: atom_wf_def atom_regex_def fun_eq_iff)
  then show ?thesis
    using op seg ex
    by (cases "at_operator b"; cases "valueAtObjectPath arguments (at_segments b)") (simp_all add: atom_holds_def split: Value.splits)
qed

lemma constraintRetained_sound:
  assumes "CompileConstraint rx source = Inr s" and "CompileConstraint rx source' = Inr a"
    and "constraintRetained (Some s) (Some a)" and "constraint_holds rx a arguments"
  shows "constraint_holds rx s arguments"
  unfolding constraint_holds_def list_all_iff
proof
  fix x
  assume x: "x \<in> set (kc_atoms s)"
  have "Atom x \<in> set (Atoms a)"
    using assms(3) x by (auto simp: constraintRetained_def list_all_iff Atoms_def split: if_splits)
  then obtain y where y: "y \<in> set (kc_atoms a)" "Atom x = Atom y"
    by (auto simp: Atoms_def)
  have "atom_wf rx x" "atom_wf rx y"
    using CompileConstraint_wf [OF assms(1)] CompileConstraint_wf [OF assms(2)] x y(1) by (simp_all add: list_all_iff)
  moreover have "atom_holds rx arguments y"
    using assms(4) y(1) by (simp add: constraint_holds_def list_all_iff)
  ultimately show "atom_holds rx arguments x"
    using Atom_determines [OF y(2)] by simp
qed

subsection \<open>Facts on compiled policies\<close>

lemma scope_strings: "ParsePolicyScope s = Some scope \<longleftrightarrow> s = PolicyScope_string scope"
  unfolding ParsePolicyScope_def by (rule policy_scope.parse_complete_iff)

lemma CompilePolicy_facts:
  assumes "CompilePolicy rx input = Inr p"
  shows "cp_value p = input"
    and "cp_Scope p = ''tool'' \<and> \<not> gp_FutureToolsAcknowledged input \<and> \<not> gp_ReadOnly input \<or>
      cp_Scope p = ''server'' \<and> cp_constraint p = None \<and> gp_FutureToolsAcknowledged input"
    and "cp_constraint p = Some k \<Longrightarrow> \<exists>source. gp_Constraint input = Some source \<and> CompileConstraint rx source = Inr k"
    and "cp_constraint p = None \<Longrightarrow> gp_Constraint input = None"
    and "cp_durationSecondsValid p \<Longrightarrow> gp_DurationSeconds input = Some (FormatInt (cp_durationSeconds p)) \<and>
      60 \<le> cp_durationSeconds p \<and> cp_durationSeconds p \<le> 2592000"
    and "\<not> cp_durationSecondsValid p \<Longrightarrow> gp_DurationSeconds input = None \<and> cp_durationSeconds p = 0"
proof -
  obtain scope where scope: "ParsePolicyScope (gp_Scope input) = Some scope"
    using assms by (auto simp: CompilePolicy_def split: if_splits option.splits)
  obtain constraint where c: "compile_optional rx (gp_Constraint input) = Inr constraint"
    using assms scope by (cases "compile_optional rx (gp_Constraint input)") (auto simp: CompilePolicy_def split: if_splits)
  obtain seconds present where d: "compile_duration (gp_DurationSeconds input) = Inr (seconds, present)"
    using assms scope c by (cases "compile_duration (gp_DurationSeconds input)") (auto simp: CompilePolicy_def split: if_splits)
  have shape: "\<not> (case scope of PolicyTool \<Rightarrow> gp_FutureToolsAcknowledged input \<or> gp_ReadOnly input
      | PolicyServer \<Rightarrow> gp_Constraint input \<noteq> None \<or> \<not> gp_FutureToolsAcknowledged input)"
      and p: "p = \<lparr>cp_value = input, cp_constraint = constraint, cp_durationSeconds = seconds, cp_durationSecondsValid = present\<rparr>"
    using assms scope c d by (auto simp: CompilePolicy_def split: if_splits)
  show "cp_value p = input" by (simp add: p)
  have none: "gp_Constraint input = None \<longleftrightarrow> constraint = None"
    using c by (auto simp: compile_optional_def split: option.splits sum.splits)
  show "cp_Scope p = ''tool'' \<and> \<not> gp_FutureToolsAcknowledged input \<and> \<not> gp_ReadOnly input \<or>
      cp_Scope p = ''server'' \<and> cp_constraint p = None \<and> gp_FutureToolsAcknowledged input"
    using shape scope none by (cases scope) (simp_all add: p cp_Scope_def scope_strings)
  show "cp_constraint p = Some k \<Longrightarrow> \<exists>source. gp_Constraint input = Some source \<and> CompileConstraint rx source = Inr k"
    using c by (auto simp: p compile_optional_def split: option.splits sum.splits)
  show "cp_constraint p = None \<Longrightarrow> gp_Constraint input = None"
    using none by (simp add: p)
  show "cp_durationSecondsValid p \<Longrightarrow> gp_DurationSeconds input = Some (FormatInt (cp_durationSeconds p)) \<and>
      60 \<le> cp_durationSeconds p \<and> cp_durationSeconds p \<le> 2592000"
    and "\<not> cp_durationSecondsValid p \<Longrightarrow> gp_DurationSeconds input = None \<and> cp_durationSeconds p = 0"
    using d by (auto simp: p compile_duration_def GrantRequestDurationMinimumSeconds_def GrantRequestDurationMaximumSeconds_def
        split: option.splits if_splits)
qed

subsection \<open>Narrowing is sound\<close>

lemma ValidateNarrowing_Inr:
  assumes "ValidateNarrowing s st a at = Inr ()"
  shows "Covers st at" and "gp_ReadOnly (cp_value s) \<Longrightarrow> gp_ReadOnly (cp_value a)"
    and "cp_Scope s = ''tool'' \<Longrightarrow> constraintRetained (cp_constraint s) (cp_constraint a)"
    and "cp_durationSecondsValid s \<Longrightarrow> cp_durationSecondsValid a \<and> cp_durationSeconds a \<le> cp_durationSeconds s"
  using assms by (auto simp: ValidateNarrowing_def split: if_splits)

lemma narrowing_permits:
  assumes "CompilePolicy rx i = Inr s" and "CompilePolicy rx j = Inr a" and "ValidateNarrowing s st a at = Inr ()"
    and "policy_permits rx a at approvedAt call arguments hint now"
  shows "policy_permits rx s st approvedAt call arguments hint now"
proof -
  note n = ValidateNarrowing_Inr [OF assms(3)]
  note sf = CompilePolicy_facts [OF assms(1)] and af = CompilePolicy_facts [OF assms(2)]
  have cover: "Covers st call"
    using n(1) assms(4) Covers_trans by (auto simp: policy_permits_def)
  have "constraint_holds rx k arguments" if k: "cp_constraint s = Some k" for k
  proof -
    have "constraintRetained (Some k) (cp_constraint a)"
      using n(3) sf(2) k by auto
    then obtain k' where k': "cp_constraint a = Some k'" "constraintRetained (Some k) (Some k')"
      by (cases "cp_constraint a") (simp_all add: constraintRetained_def)
    have "constraint_holds rx k' arguments"
      using assms(4) k'(1) by (simp add: policy_permits_def)
    with constraintRetained_sound k'(2) sf(3) [OF k] af(3) [OF k'(1)] show ?thesis by blast
  qed
  moreover have "case ExpiresAt s approvedAt of None \<Rightarrow> True | Some e \<Rightarrow> e > now"
    using n(4) assms(4) by (auto simp: policy_permits_def ExpiresAt_def split: if_splits)
  ultimately show ?thesis
    using cover n(2) assms(4) by (auto simp: policy_permits_def split: option.splits)
qed

subsection \<open>Keys of atoms\<close>

lemma scan_root_values:
  assumes "scan_root (saw, eq, ex) ms = Inr (saw', eq', ex')"
  shows "(eq' = eq \<or> (\<exists>m \<in> set ms. eq' = Some (mem_Value m))) \<and> (ex' = ex \<or> (\<exists>m \<in> set ms. ex' = Some (mem_Value m)))"
  using assms
proof (induction ms arbitrary: saw eq ex)
  case (Cons m ms)
  have "scan_root (True, eq, ex) ms = Inr (saw', eq', ex') \<or> scan_root (saw, Some (mem_Value m), ex) ms = Inr (saw', eq', ex') \<or>
      scan_root (saw, eq, Some (mem_Value m)) ms = Inr (saw', eq', ex')"
    using Cons.prems by (auto split: if_splits Value.splits)
  with Cons.IH show ?case by (metis list.set_intros)
qed simp

lemma constraint_root_values:
  assumes "constraint_root ms = Inr (version, eq, ex)"
  shows "(eq = None \<or> (\<exists>m \<in> set ms. eq = Some (mem_Value m))) \<and> (ex = None \<or> (\<exists>m \<in> set ms. ex = Some (mem_Value m))) \<and>
    (version = 1 \<longrightarrow> ex = None)"
proof (cases "length ms = 1 \<and> mem_Name (hd ms) = ''equals''")
  case True
  then have "hd ms \<in> set ms" by (cases ms) simp_all
  with True assms show ?thesis by (auto simp: constraint_root_def)
next
  case False
  obtain saw eq' ex' where scan: "scan_root (False, None, None) ms = Inr (saw, eq', ex')"
    using assms unfolding constraint_root_def if_not_P [OF False]
    by (cases "scan_root (False, None, None) ms") auto
  then have "version = 2" "eq' = eq" "ex' = ex"
    using assms unfolding constraint_root_def if_not_P [OF False] by (cases saw; simp)+
  with scan_root_values [OF scan] show ?thesis by simp
qed

lemma compileEquals_pointers:
  assumes "compileEquals v = Inr as" and "distinct_members v"
  shows "distinct (map at_pointer as) \<and> (\<forall>a \<in> set as. at_operator a = ConstraintEquals)"
proof -
  obtain ms where ms: "v = ValueObject ms" "map_result compile_equal ms = Inr as"
    using assms(1) by (cases v) (simp_all add: compileEquals_def)
  have one: "compile_equal m = Inr a \<Longrightarrow> at_pointer a = mem_Name m \<and> at_operator a = ConstraintEquals" for m a
    by (auto simp: compile_equal_def Let_def split: option.splits if_splits)
  have "list_all2 (\<lambda>m a. compile_equal m = Inr a) ms as"
    using ms(2) by (simp add: map_result_Inr_iff)
  then have "map at_pointer as = map mem_Name ms \<and> (\<forall>a \<in> set as. at_operator a = ConstraintEquals)"
    by (induction rule: list_all2_induct) (simp_all add: one)
  with assms(2) ms(1) show ?thesis by simp
qed

lemma compile_patterns_pointers:
  "compile_patterns rx spent ms = Inr as \<Longrightarrow>
     map at_pointer as = map mem_Name ms \<and> (\<forall>a \<in> set as. at_operator a = ConstraintRegex)"
proof (induction ms arbitrary: spent as)
  case (Cons m ms)
  then obtain a v as' where a: "compile_pattern rx m spent = Inr (a, v)" and as': "compile_patterns rx v ms = Inr as'"
      and eq: "as = a # as'"
    by (auto split: sum.splits)
  from compile_pattern_Inr [OF a] Cons.IH [OF as'] eq show ?case by simp
qed simp

lemma compileRegex_pointers:
  assumes "compileRegex rx v = Inr as" and "distinct_members v"
  shows "distinct (map at_pointer as) \<and> (\<forall>a \<in> set as. at_operator a = ConstraintRegex)"
proof -
  obtain ms where ms: "v = ValueObject ms" "compile_patterns rx 0 ms = Inr as"
    using assms(1) by (cases v) (simp_all add: compileRegex_def)
  with compile_patterns_pointers [OF ms(2)] assms(2) show ?thesis by simp
qed

lemma atom_key_Atom: "atom_key (Atom a) = (ConstraintOperator_string (at_operator a), at_pointer a)"
  by (simp add: atom_key_def Atom_fields)

lemma distinct_keys:
  "distinct (map at_pointer as) \<Longrightarrow> (\<forall>a \<in> set as. at_operator a = operator) \<Longrightarrow> distinct (map atom_key (map Atom as))"
  by (induction as) (auto simp: atom_key_Atom)

lemma CompileConstraint_keys:
  assumes "CompileConstraint rx contents = Inr c"
  shows "distinct (map atom_key (Atoms c)) \<and> (kc_version c = 1 \<longrightarrow> (\<forall>a \<in> set (kc_atoms c). at_operator a = ConstraintEquals))"
proof -
  obtain v where v: "ParseValue contents constraint_options = Inr v"
    using assms by (auto simp: CompileConstraint_def split: sum.splits)
  with assms obtain ms where ms: "v = ValueObject ms"
    by (cases v) (simp_all add: CompileConstraint_def)
  obtain version eq ex where root: "constraint_root ms = Inr (version, eq, ex)"
    using assms v ms by (cases "constraint_root ms") (auto simp: CompileConstraint_def)
  obtain as1 where as1: "optional_atoms compileEquals eq = Inr as1"
    using assms v ms root by (cases "optional_atoms compileEquals eq") (auto simp: CompileConstraint_def)
  obtain as2 where as2: "optional_atoms (compileRegex rx) ex = Inr as2"
    using assms v ms root as1 by (cases "optional_atoms (compileRegex rx) ex") (auto simp: CompileConstraint_def)
  have c: "c = \<lparr>kc_raw = contents, kc_version = version, kc_atoms = as1 @ as2\<rparr>"
    using assms v ms root as1 as2 by (auto simp: CompileConstraint_def Let_def split: if_splits)
  have "distinct_members v"
    using v by (simp add: ParseValue_Inr_iff)
  then have dm: "\<forall>m \<in> set ms. distinct_members (mem_Value m)"
    by (simp add: ms)
  note vals = constraint_root_values [OF root]
  have e1: "distinct (map at_pointer as1) \<and> (\<forall>a \<in> set as1. at_operator a = ConstraintEquals)"
    using optional_atoms_cases [OF as1] vals dm compileEquals_pointers by auto
  have e2: "distinct (map at_pointer as2) \<and> (\<forall>a \<in> set as2. at_operator a = ConstraintRegex) \<and> (version = 1 \<longrightarrow> as2 = [])"
    using optional_atoms_cases [OF as2] vals dm compileRegex_pointers by auto
  have "distinct (map atom_key (map Atom as1))" "distinct (map atom_key (map Atom as2))"
    using distinct_keys e1 e2 by blast+
  moreover have "set (map atom_key (map Atom as1)) \<inter> set (map atom_key (map Atom as2)) = {}"
  proof -
    have left: "fst k = ConstraintOperator_string ConstraintEquals" if "k \<in> set (map atom_key (map Atom as1))" for k
      using e1 that by (auto simp: atom_key_Atom)
    have right: "fst k = ConstraintOperator_string ConstraintRegex" if "k \<in> set (map atom_key (map Atom as2))" for k
      using e2 that by (auto simp: atom_key_Atom)
    have "ConstraintOperator_string ConstraintEquals \<noteq> ConstraintOperator_string ConstraintRegex"
      by (simp add: ConstraintOperator_string_def)
    with left right show ?thesis by (metis disjoint_iff)
  qed
  ultimately have "distinct (map atom_key (Atoms c))"
    by (simp add: Atoms_def c)
  with e1 e2 show ?thesis by (auto simp: c)
qed

end
