(* ===== verification/Request_Dedupe.thy ===== *)
theory Request_Dedupe
  imports Request_Policy
begin

text \<open>
  The byte string that identifies a pending grant request can be read back: every field is written with its
  length or a tag in front. So two requests of a principal are the same request exactly when they ask for
  the same thing, in whatever order their constraints list their atoms. With it the two properties of the
  request policies.
\<close>

lemma digits_colon [simp]:
  "FormatUint m @ CHR '':'' # r = FormatUint n @ CHR '':'' # s \<longleftrightarrow> m = n \<and> r = s"
proof
  assume eq: "FormatUint m @ CHR '':'' # r = FormatUint n @ CHR '':'' # s"
  have head: "takeWhile (\<lambda>c. c \<noteq> CHR '':'') (FormatUint k @ CHR '':'' # t) = FormatUint k" for k t
    by (subst takeWhile_append2) auto
  from arg_cong [OF eq, of "takeWhile (\<lambda>c. c \<noteq> CHR '':'')"] have "m = n"
    unfolding head by simp
  with eq show "m = n \<and> r = s" by simp
qed simp

lemma writeBytes_inj [simp]: "writeBytes a @ r = writeBytes b @ s \<longleftrightarrow> a = b \<and> r = s"
  by (auto simp: writeBytes_def)

lemma target_bytes_inj [simp]: "target_bytes t @ r = target_bytes u @ s \<longleftrightarrow> t = u \<and> r = s"
  by (cases t; cases u) (auto simp: target_bytes_def split: option.splits)

subsection \<open>Atoms\<close>

definition atom_normal :: "ConstraintAtom \<Rightarrow> bool" where
  "atom_normal a \<longleftrightarrow>
     (ca_Type a \<noteq> ConstraintBoolean \<longrightarrow> \<not> ca_Boolean a) \<and> (ca_Type a \<noteq> ConstraintString \<longrightarrow> ca_String a = []) \<and>
     (ca_Type a \<noteq> ConstraintNumber \<longrightarrow> ca_Number a = [])"

lemma Atom_normal: "atom_normal (Atom a)"
  by (simp add: atom_normal_def Atom_def zero_atom_def Let_def split: Value.splits)

lemma writeDedupeAtom_inj:
  assumes "writeDedupeAtom a @ r = writeDedupeAtom b @ s" and "atom_normal a" and "atom_normal b"
  shows "ca_Type a = ca_Type b \<and> ca_Boolean a = ca_Boolean b \<and> ca_String a = ca_String b \<and> ca_Number a = ca_Number b \<and> r = s"
  using assms
  by (cases "ca_Type a"; cases "ca_Type b") (auto simp: writeDedupeAtom_def atom_normal_def split: if_splits)

lemma atom_bytes_inj:
  assumes "atom_bytes v a @ r = atom_bytes v b @ s" and "atom_normal a" and "atom_normal b"
    and "v = 2 \<or> ca_Operator a = ca_Operator b"
  shows "a = b \<and> r = s"
proof -
  have op: "ca_Operator a = ca_Operator b" and rest: "writeBytes (ca_Pointer a) @ writeDedupeAtom a @ r = writeBytes (ca_Pointer b) @ writeDedupeAtom b @ s"
    using assms(1,4)
    by (cases "ca_Operator a"; cases "ca_Operator b"; simp add: atom_bytes_def operator_bytes_def split: if_splits)+
  then have "ca_Pointer a = ca_Pointer b" and "writeDedupeAtom a @ r = writeDedupeAtom b @ s" by simp_all
  with writeDedupeAtom_inj [OF _ assms(2,3)] op show ?thesis by auto
qed

lemma concat_bytes_inj:
  assumes "length as = length bs" and "concat (map (atom_bytes v) as) @ r = concat (map (atom_bytes v) bs) @ s"
    and "\<forall>a \<in> set as \<union> set bs. atom_normal a"
    and "v = 2 \<or> (\<forall>a \<in> set as \<union> set bs. ca_Operator a = ConstraintEquals)"
  shows "as = bs \<and> r = s"
  using assms
proof (induction as bs arbitrary: r s rule: list_induct2)
  case (Cons a as b bs)
  have "atom_bytes v a @ (concat (map (atom_bytes v) as) @ r) = atom_bytes v b @ (concat (map (atom_bytes v) bs) @ s)"
    using Cons.prems(1) by simp
  then have "a = b \<and> concat (map (atom_bytes v) as) @ r = concat (map (atom_bytes v) bs) @ s"
    by (rule atom_bytes_inj) (use Cons.prems(2,3) in auto)
  with Cons.IH [of r s] Cons.prems(2,3) show ?case by auto
qed simp

lemma sorted_atoms_eq:
  assumes "distinct (map atom_key (Atoms k))" and "distinct (map atom_key (Atoms l))" and "set (Atoms k) = set (Atoms l)"
  shows "sort_key atom_key (Atoms k) = sort_key atom_key (Atoms l)"
proof (rule sort_key_cong_perm [OF assms(1)])
  have "distinct (Atoms k)" "distinct (Atoms l)"
    using assms(1,2) by (simp_all add: distinct_map)
  with assms(3) show "mset (Atoms k) = mset (Atoms l)"
    by (simp add: set_eq_iff_mset_eq_distinct)
qed

subsection \<open>Whole identities\<close>

definition constraint_usable :: "regex_lib \<Rightarrow> int \<Rightarrow> CompiledConstraint option \<Rightarrow> bool" where
  "constraint_usable rx v constraint =
     (case constraint of None \<Rightarrow> True | Some k \<Rightarrow> (\<exists>source. CompileConstraint rx source = Inr k) \<and> v = kc_version k)"

definition constraint_same :: "CompiledConstraint option \<Rightarrow> CompiledConstraint option \<Rightarrow> bool" where
  "constraint_same c d \<longleftrightarrow> map_option (\<lambda>k. set (Atoms k)) c = map_option (\<lambda>k. set (Atoms k)) d"

lemma constraint_bytes_inj:
  assumes "constraint_usable rx v c" and "constraint_usable rx v d"
  shows "constraint_bytes v c @ r = constraint_bytes v d @ s \<longleftrightarrow> constraint_same c d \<and> r = s"
proof (cases "c = None \<or> d = None")
  case True
  then show ?thesis
    by (auto simp: constraint_bytes_def constraint_same_def Let_def split: option.splits)
next
  case False
  then obtain k l where kl: "c = Some k" "d = Some l" by auto
  with assms obtain src src' where ck: "CompileConstraint rx src = Inr k" and cl: "CompileConstraint rx src' = Inr l"
      and v: "v = kc_version k" "v = kc_version l"
    by (auto simp: constraint_usable_def)
  let ?as = "sort_key atom_key (Atoms k)" and ?bs = "sort_key atom_key (Atoms l)"
  note keys = CompileConstraint_keys [OF ck] CompileConstraint_keys [OF cl]
  have normal: "\<forall>a \<in> set ?as \<union> set ?bs. atom_normal a"
    by (auto simp: Atoms_def Atom_normal)
  have "v = 1 \<or> v = 2"
    using CompileConstraint_wf [OF ck] v by simp
  then have ops: "v = 2 \<or> (\<forall>a \<in> set ?as \<union> set ?bs. ca_Operator a = ConstraintEquals)"
    using keys v by (auto simp: Atoms_def Atom_fields)
  have "constraint_bytes v c @ r = constraint_bytes v d @ s \<longleftrightarrow>
      length ?as = length ?bs \<and> concat (map (atom_bytes v) ?as) @ r = concat (map (atom_bytes v) ?bs) @ s"
    by (simp add: constraint_bytes_def kl Let_def)
  also have "\<dots> \<longleftrightarrow> ?as = ?bs \<and> r = s"
    using concat_bytes_inj [OF _ _ normal ops, of r s] by (metis length_sort)
  also have "?as = ?bs \<longleftrightarrow> set (Atoms k) = set (Atoms l)"
    using sorted_atoms_eq [of k l] keys by (metis set_sort)
  finally show ?thesis
    by (simp add: constraint_same_def kl)
qed

lemma duration_bytes_inj:
  assumes "CompilePolicy rx i = Inr p" and "CompilePolicy rx j = Inr q"
  shows "duration_bytes p @ r = duration_bytes q @ s \<longleftrightarrow> gp_DurationSeconds i = gp_DurationSeconds j \<and> r = s"
proof -
  have valid: "cp_durationSecondsValid p' \<longleftrightarrow> gp_DurationSeconds i' \<noteq> None" if "CompilePolicy rx i' = Inr p'" for i' p'
    using CompilePolicy_facts(5,6) [OF that] by (cases "cp_durationSecondsValid p'") auto
  have uint: "FormatInt (cp_durationSeconds p') = FormatUint (nat (cp_durationSeconds p'))"
    if "CompilePolicy rx i' = Inr p'" "cp_durationSecondsValid p'" for i' p'
    using CompilePolicy_facts(5) [OF that] by (simp add: FormatInt_def)
  show ?thesis
    using valid [OF assms(1)] valid [OF assms(2)] uint [OF assms(1)] uint [OF assms(2)]
      CompilePolicy_facts(5) [OF assms(1)] CompilePolicy_facts(5) [OF assms(2)]
    by (auto simp: duration_bytes_def)
qed

lemma version_bytes_inj: "v \<in> {1, 2, 3} \<Longrightarrow> w \<in> {1, 2, 3} \<Longrightarrow> version_bytes v @ r = version_bytes w @ s \<longleftrightarrow> v = w \<and> r = s"
  by (auto simp: version_bytes_def)

lemma dedupe_version_facts:
  assumes "CompilePolicy rx i = Inr p"
  shows "dedupe_version p \<in> {1, 2, 3}" and "constraint_usable rx (dedupe_version p) (cp_constraint p)"
    and "dedupe_version p = 3 \<longleftrightarrow> gp_ReadOnly i"
    and "\<not> gp_ReadOnly i \<Longrightarrow> cp_constraint p = Some k \<Longrightarrow> dedupe_version p = kc_version k"
    and "\<not> gp_ReadOnly i \<Longrightarrow> cp_constraint p = None \<Longrightarrow> dedupe_version p = 1"
proof -
  note f = CompilePolicy_facts [OF assms]
  have ver: "kc_version k = 1 \<or> kc_version k = 2" if "cp_constraint p = Some k" for k
    using f(3) [OF that] CompileConstraint_wf by blast
  have ro: "cp_constraint p = Some k \<Longrightarrow> \<not> gp_ReadOnly i" for k
    using f(2) by auto
  show "dedupe_version p \<in> {1, 2, 3}"
    by (auto simp: dedupe_version_def split: option.splits)
  show "dedupe_version p = 3 \<longleftrightarrow> gp_ReadOnly i"
    by (auto simp: dedupe_version_def f(1) split: option.splits)
  show ver': "\<not> gp_ReadOnly i \<Longrightarrow> cp_constraint p = Some k \<Longrightarrow> dedupe_version p = kc_version k" for k
    using ver [of k] by (auto simp: dedupe_version_def f(1))
  show "\<not> gp_ReadOnly i \<Longrightarrow> cp_constraint p = None \<Longrightarrow> dedupe_version p = 1"
    by (simp add: dedupe_version_def f(1))
  show "constraint_usable rx (dedupe_version p) (cp_constraint p)"
    using ver' ro f(3) by (auto simp: constraint_usable_def split: option.splits)
qed

subsection \<open>Properties\<close>

text \<open>
  C27: The identity of a pending request is exact. Two policies that compile and have an identity have the same one exactly
  when they resolve to the same target, agree on read-only, on the version and the set of atoms of their
  constraint, on the duration and on the acknowledgement; the order of atoms and the spelling of the
  constraint do not matter.
\<close>

theorem dedupe_identity_exact:
  assumes "CompilePolicy rx i = Inr p" and "CompilePolicy rx j = Inr q"
    and "CanonicalDedupeIdentity p t = Inr d" and "CanonicalDedupeIdentity q u = Inr e"
  shows "d = e \<longleftrightarrow>
    t = u \<and> gp_ReadOnly i = gp_ReadOnly j \<and>
    map_option kc_version (cp_constraint p) = map_option kc_version (cp_constraint q) \<and>
    constraint_same (cp_constraint p) (cp_constraint q) \<and> gp_DurationSeconds i = gp_DurationSeconds j \<and>
    gp_FutureToolsAcknowledged i = gp_FutureToolsAcknowledged j"
proof -
  let ?v = "dedupe_version p" and ?w = "dedupe_version q"
  let ?out = "\<lambda>p t. version_bytes (dedupe_version p) @ target_bytes t @ constraint_bytes (dedupe_version p) (cp_constraint p) @
      duration_bytes p @ [if gp_FutureToolsAcknowledged (cp_value p) then soh else nul]"
  have d: "d = \<lparr>di_Version = ?v, di_Bytes = ?out p t\<rparr>" and e: "e = \<lparr>di_Version = ?w, di_Bytes = ?out q u\<rparr>"
    using assms(3,4) by (auto simp: CanonicalDedupeIdentity_def Let_def split: if_splits)
  note pv = dedupe_version_facts [OF assms(1)] and qv = dedupe_version_facts [OF assms(2)]
  note pf = CompilePolicy_facts [OF assms(1)] and qf = CompilePolicy_facts [OF assms(2)]
  have versions: "?v = ?w \<longleftrightarrow> gp_ReadOnly i = gp_ReadOnly j \<and>
      map_option kc_version (cp_constraint p) = map_option kc_version (cp_constraint q)"
    if same: "constraint_same (cp_constraint p) (cp_constraint q)"
  proof (cases "gp_ReadOnly i \<or> gp_ReadOnly j")
    case True
    then have "cp_constraint p = None \<and> cp_constraint q = None"
      using pf(2) qf(2) same by (auto simp: constraint_same_def)
    with True pv(3) qv(3) show ?thesis by auto
  next
    case False
    with same pv(4,5) qv(4,5) show ?thesis
      by (cases "cp_constraint p"; cases "cp_constraint q") (auto simp: constraint_same_def)
  qed
  have flag: "[if b then soh else nul] = [if c then soh else nul] \<longleftrightarrow> b = c" for b c
    by simp
  have "d = e \<longleftrightarrow> ?v = ?w \<and> ?out p t = ?out q u"
    by (simp add: d e)
  also have "\<dots> \<longleftrightarrow> ?v = ?w \<and> t = u \<and> constraint_same (cp_constraint p) (cp_constraint q) \<and>
      gp_DurationSeconds i = gp_DurationSeconds j \<and> gp_FutureToolsAcknowledged i = gp_FutureToolsAcknowledged j"
  proof (cases "?v = ?w")
    case True
    have usable: "constraint_usable rx ?w (cp_constraint p)"
      using pv(2) by (simp add: True)
    show ?thesis
      unfolding True version_bytes_inj [OF qv(1) qv(1)] target_bytes_inj constraint_bytes_inj [OF usable qv(2)]
        duration_bytes_inj [OF assms(1,2)] flag pf(1) qf(1) by simp
  qed simp
  finally show ?thesis
    using versions by blast
qed

text \<open>
  C10: Approval never broadens. When an approved policy passes the narrowing check against the submitted one, every call
  the approved policy lets through, whatever its arguments and whenever it is made, is one the submitted
  policy would have let through.
\<close>

theorem narrowing_sound:
  assumes "CompilePolicy rx i = Inr submitted" and "CompilePolicy rx j = Inr approved"
    and "ValidateNarrowing submitted submittedTarget approved approvedTarget = Inr ()"
  shows "policy_permits rx approved approvedTarget approvedAt call arguments hint now \<longrightarrow>
    policy_permits rx submitted submittedTarget approvedAt call arguments hint now"
  using narrowing_permits [OF assms] by blast

subsection \<open>Witnesses\<close>

definition sample_constraint :: string where
  "sample_constraint = ''{'' @ [CHR 0x22] @ ''equals'' @ [CHR 0x22] @ '':{'' @ [CHR 0x22] @ ''/a'' @ [CHR 0x22] @ '':1}}''"

definition sample_tool_policy :: grant_Policy where
  "sample_tool_policy =
     \<lparr>gp_ReadOnly = False, gp_Scope = ''tool'', gp_Target = ''github.search'', gp_Constraint = Some sample_constraint,
      gp_DurationSeconds = None, gp_FutureToolsAcknowledged = False\<rparr>"

definition sample_server_policy :: grant_Policy where
  "sample_server_policy =
     \<lparr>gp_ReadOnly = False, gp_Scope = ''server'', gp_Target = ''github'', gp_Constraint = None,
      gp_DurationSeconds = None, gp_FutureToolsAcknowledged = True\<rparr>"

definition sample_policy_target :: "string option \<Rightarrow> MCP" where
  "sample_policy_target name = \<lparr>ServerID = ''0123456789ABCDEFGHJKMNPQRS'', UpstreamName = name\<rparr>"

lemma sample_policies:
  "case CompilePolicy no_regex sample_tool_policy of Inl _ \<Rightarrow> False
   | Inr p \<Rightarrow> is_ok (CanonicalDedupeIdentity p (sample_policy_target (Some ''search''))) \<and>
       is_ok (CanonicalDedupeIdentity p (sample_policy_target (Some ''find'')))"
  "case (CompilePolicy no_regex sample_server_policy, CompilePolicy no_regex sample_tool_policy) of
     (Inr p, Inr q) \<Rightarrow> is_ok (ValidateNarrowing p (sample_policy_target None) q (sample_policy_target (Some ''search'')))
   | _ \<Rightarrow> False"
  by code_simp+

theorem dedupe_identity_exact_witness:
  "\<exists>p d e. CompilePolicy no_regex sample_tool_policy = Inr p \<and>
     CanonicalDedupeIdentity p (sample_policy_target (Some ''search'')) = Inr d \<and>
     CanonicalDedupeIdentity p (sample_policy_target (Some ''find'')) = Inr e \<and> d \<noteq> e"
proof -
  obtain p where p: "CompilePolicy no_regex sample_tool_policy = Inr p"
    using sample_policies(1) by (cases "CompilePolicy no_regex sample_tool_policy") simp_all
  obtain d e where de: "CanonicalDedupeIdentity p (sample_policy_target (Some ''search'')) = Inr d"
      "CanonicalDedupeIdentity p (sample_policy_target (Some ''find'')) = Inr e"
    using sample_policies(1) p by (auto elim!: is_okE)
  have "d \<noteq> e"
    using dedupe_identity_exact [OF p p de] by (simp add: sample_policy_target_def)
  with p de show ?thesis by blast
qed

theorem narrowing_sound_witness:
  "\<exists>p q. CompilePolicy no_regex sample_server_policy = Inr p \<and> CompilePolicy no_regex sample_tool_policy = Inr q \<and>
     (policy_permits no_regex q (sample_policy_target (Some ''search'')) 0 (sample_policy_target (Some ''search''))
        (ValueObject [Member ''a'' (ValueNumber ''1'')]) False 1 \<longrightarrow>
      policy_permits no_regex p (sample_policy_target None) 0 (sample_policy_target (Some ''search''))
        (ValueObject [Member ''a'' (ValueNumber ''1'')]) False 1)"
proof -
  obtain p q where pq: "CompilePolicy no_regex sample_server_policy = Inr p" "CompilePolicy no_regex sample_tool_policy = Inr q"
      and n: "ValidateNarrowing p (sample_policy_target None) q (sample_policy_target (Some ''search'')) = Inr ()"
    using sample_policies(2) by (auto split: sum.splits elim!: is_okE)
  from narrowing_sound [OF pq n] pq show ?thesis by blast
qed

end
