(* ===== verification/Identity.thy ===== *)
theory Identity
  imports Auth_Values
begin

text \<open>
  \<open>internal/authorization/identity.go\<close>: the generated identities. Forty-eight bits of milliseconds and
  eighty bits of entropy are written as 26 characters of Crockford's base 32, most significant bits first,
  with two leading zero bits. The entropy source is a reader, modelled by the bytes it has left;
  \<open>io.ReadFull\<close> fails when there are too few.

  The lemmas show that the loop over single bits computes the base 32 digits of the 128-bit number the
  sixteen bytes stand for, so that an identity is always well-formed, identities are equal only for the
  same millisecond and entropy, and compare as the numbers do: later milliseconds give larger identities.
\<close>

unbundle bit_operations_syntax

type_synonym byte = "8 word"

subsection \<open>Entropy\<close>

definition ReadFull :: "nat \<Rightarrow> byte list \<Rightarrow> (byte list \<times> byte list) option" where
  "ReadFull n entropy = (if length entropy < n then None else Some (take n entropy, drop n entropy))"

subsection \<open>The loops\<close>

text \<open>\<open>for index := 5; index >= 0; index--\<close>: the bytes below \<open>index\<close>, least significant last.\<close>

primrec timestamp_bytes :: "nat \<Rightarrow> int \<Rightarrow> byte list" where
  "timestamp_bytes 0 milliseconds = []"
| "timestamp_bytes (Suc index) milliseconds =
     timestamp_bytes index (drop_bit 8 milliseconds) @ [word_of_int milliseconds]"

definition push_source_bit :: "byte list \<Rightarrow> nat \<Rightarrow> byte \<Rightarrow> nat \<Rightarrow> byte" where
  "push_source_bit value character bits b =
     (let sourceBit = int character * 5 + int b - 2; shifted = push_bit 1 bits in
      if sourceBit \<ge> 0
      then shifted OR (drop_bit (nat (7 - sourceBit mod 8)) (value ! nat (sourceBit div 8)) AND 1)
      else shifted)"

definition character_bits :: "byte list \<Rightarrow> nat \<Rightarrow> byte" where
  "character_bits value character = foldl (push_source_bit value character) 0 [0 ..< 5]"

definition encode_identity :: "byte list \<Rightarrow> string" where
  "encode_identity value = map (\<lambda>character. crockford ! unat (character_bits value character)) [0 ..< 26]"

definition newID :: "instant \<Rightarrow> byte list \<Rightarrow> auth_error + string \<times> byte list" where
  "newID now entropy =
     (let milliseconds = UnixMilli now in
      if milliseconds < 0 \<or> milliseconds > 2 ^ 48 - 1 then Inl UnclassifiedError
      else
        (case ReadFull 10 entropy of
           None \<Rightarrow> Inl UnclassifiedError
         | Some (random, rest) \<Rightarrow>
             let id' = encode_identity (timestamp_bytes 6 milliseconds @ random) in
             if id' = ''00000000000000000000000000'' then Inl ErrIdentityUnavailable else Inr (id', rest)))"

subsection \<open>The number behind an identity\<close>

definition bytes_value :: "byte list \<Rightarrow> nat" where
  "bytes_value bytes = foldl (\<lambda>n b. n * 256 + unat b) 0 bytes"

definition base32 :: "nat \<Rightarrow> nat \<Rightarrow> nat list" where
  "base32 width n = map (\<lambda>k. n div 32 ^ (width - 1 - k) mod 32) [0 ..< width]"

lemma bytes_value_snoc [simp]: "bytes_value (bs @ [b]) = bytes_value bs * 256 + unat b"
  by (simp add: bytes_value_def)

lemma bytes_value_Nil [simp]: "bytes_value [] = 0"
  by (simp add: bytes_value_def)

lemma unat_byte: "unat (b :: byte) < 256"
  using unsigned_less [of b] by simp

lemma bytes_value_bound: "bytes_value bs < 256 ^ length bs"
proof (induction bs rule: rev_induct)
  case (snoc b bs)
  have "bytes_value bs * 256 + unat b < (bytes_value bs + 1) * 256"
    using unat_byte [of b] by simp
  also have "\<dots> \<le> 256 ^ length bs * 256"
    using snoc by (intro mult_right_mono) simp_all
  finally show ?case by simp
qed simp

lemma bytes_value_append: "bytes_value (as @ bs) = bytes_value as * 256 ^ length bs + bytes_value bs"
proof (induction bs rule: rev_induct)
  case (snoc b bs)
  then show ?case
    using bytes_value_snoc [of "as @ bs" b] by (simp add: algebra_simps)
qed simp

lemma bytes_value_inj: "length as = length bs \<Longrightarrow> bytes_value as = bytes_value bs \<Longrightarrow> as = bs"
proof (induction as arbitrary: bs rule: rev_induct)
  case (snoc a as)
  then obtain bs' b where bs: "bs = bs' @ [b]"
    by (metis length_Suc_conv_rev length_append_singleton)
  from snoc.prems(2) bs have eq: "bytes_value as * 256 + unat a = bytes_value bs' * 256 + unat b"
    by simp
  have "bytes_value as = (bytes_value as * 256 + unat a) div 256" "unat a = (bytes_value as * 256 + unat a) mod 256"
    using unat_byte [of a] by simp_all
  then have "bytes_value as = bytes_value bs'" "unat a = unat b"
    unfolding eq using unat_byte [of b] by simp_all
  with snoc bs show ?case by (simp add: word_unat_eq_iff)
qed simp

lemma bit_bytes:
  "s < 8 * length bs \<Longrightarrow> bit (bytes_value bs) (8 * length bs - 1 - s) \<longleftrightarrow> bit (bs ! (s div 8)) (7 - s mod 8)"
proof (induction bs arbitrary: s rule: rev_induct)
  case (snoc b bs)
  have split: "bit (bytes_value bs * 256 + unat b) k \<longleftrightarrow> (if k < 8 then bit b k else bit (bytes_value bs) (k - 8))" for k
  proof -
    have "bytes_value bs * 256 + unat b = push_bit 8 (bytes_value bs) + unat b"
      by (simp add: push_bit_eq_mult)
    moreover have "bit (push_bit 8 (bytes_value bs) + unat b) k \<longleftrightarrow> bit (push_bit 8 (bytes_value bs)) k \<or> bit (unat b) k"
      by (rule bit_disjunctive_add_iff)
        (auto simp: bit_push_bit_iff bit_unsigned_iff dest: bit_imp_le_length)
    moreover have "bit (unat b) k \<longleftrightarrow> bit b k"
      by (simp add: bit_unsigned_iff)
    moreover have "bit b k \<Longrightarrow> k < 8"
      using bit_imp_le_length [of b k] by simp
    ultimately show ?thesis
      by (auto simp: bit_push_bit_iff)
  qed
  show ?case
  proof (cases "s < 8 * length bs")
    case True
    then have "\<not> 8 * length (bs @ [b]) - 1 - s < 8" "8 * length (bs @ [b]) - 1 - s - 8 = 8 * length bs - 1 - s"
      by auto
    moreover from True have "s div 8 < length bs"
      by auto
    ultimately show ?thesis
      using snoc.IH [OF True] by (simp add: split nth_append)
  next
    case False
    with snoc.prems obtain r where "s = 8 * length bs + r" "r < 8"
      by (metis add_less_cancel_left length_append_singleton less_eqE linorder_not_less mult_Suc_right add.commute)
    then have "s div 8 = length bs" "8 * length (bs @ [b]) - 1 - s = 7 - s mod 8"
      by auto
    moreover have "7 - s mod 8 < 8"
      by simp
    ultimately show ?thesis
      by (simp only: bytes_value_snoc split if_True nth_append_length)
  qed
qed simp

lemma bit_push_source:
  assumes "length bytes = 16" and "character < 26" and "b < 5" and "k < 8"
  shows "bit (push_source_bit bytes character bits b) k \<longleftrightarrow>
    (if k = 0 then bit (bytes_value bytes) (129 - 5 * character - b) else bit bits (k - 1))"
proof -
  have shift: "bit (bits * 2) k \<longleftrightarrow> 0 < k \<and> bit bits (k - 1)"
    using bit_push_bit_iff [of 1 bits k] assms(4) by (auto simp: push_bit_eq_mult mult.commute)
  show ?thesis
  proof (cases "5 * character + b < 2")
    case True
    have "bytes_value bytes < 2 ^ 128"
      using bytes_value_bound [of bytes] assms(1) by simp
    then have "\<not> bit (bytes_value bytes) j" if "128 \<le> j" for j
      using that by (metis take_bit_nat_eq_self bit_take_bit_iff not_less)
    with True assms(4) show ?thesis
      by (auto simp: push_source_bit_def Let_def shift)
  next
    case False
    then obtain s where s: "5 * character + b = s + 2"
      by (metis add.commute less_eqE not_less)
    have "s < 128"
      using s assms(2,3) by simp
    with bit_bytes [of s bytes] assms(1)
    have "bit (bytes_value bytes) (127 - s) \<longleftrightarrow> bit (bytes ! (s div 8)) (7 - s mod 8)"
      by simp
    moreover have "129 - 5 * character - b = 127 - s" "int character * 5 + int b - 2 = int s"
      using s by simp_all
    moreover have "nat (7 - int s mod 8) = 7 - s mod 8" "nat (int s div 8) = s div 8"
      by (simp_all add: nat_diff_distrib' nat_mod_distrib nat_div_distrib)
    ultimately show ?thesis
      using assms(4)
      by (auto simp: push_source_bit_def Let_def shift bit_or_iff bit_and_iff bit_1_iff bit_drop_bit_eq)
  qed
qed

lemma upt_five: "[0 ..< 5] = [0, 1, 2, 3, 4 :: nat]"
  by (simp add: upt_rec)

lemma character_bits_digit:
  assumes "length bytes = 16" and "character < 26"
  shows "unat (character_bits bytes character) = bytes_value bytes div 32 ^ (25 - character) mod 32"
proof -
  let ?n = "bytes_value bytes"
  have bits: "bit (character_bits bytes character) k \<longleftrightarrow> k < 5 \<and> bit ?n (5 * (25 - character) + k)" if "k < 8" for k
  proof -
    have "k = 0 \<or> k = 1 \<or> k = 2 \<or> k = 3 \<or> k = 4 \<or> k = 5 \<or> k = 6 \<or> k = 7"
      using that by auto
    moreover have "125 - 5 * character = 5 * (25 - character)" "126 - 5 * character = 5 * (25 - character) + 1"
        "127 - 5 * character = 5 * (25 - character) + 2" "128 - 5 * character = 5 * (25 - character) + 3"
        "129 - 5 * character = 5 * (25 - character) + 4"
      using assms(2) by simp_all
    ultimately show ?thesis
      using that by (elim disjE) (simp_all add: character_bits_def upt_five bit_push_source [OF assms] add.commute)
  qed
  have "unat (character_bits bytes character) = take_bit 5 (drop_bit (5 * (25 - character)) ?n)"
    by (rule bit_eqI)
      (use bits bit_imp_le_length [of "character_bits bytes character"] in
        \<open>auto simp: bit_unsigned_iff bit_take_bit_iff bit_drop_bit_eq\<close>)
  then show ?thesis
    by (simp add: take_bit_eq_mod drop_bit_eq_div power_mult)
qed

lemma crockford_facts: "length crockford = 32" "distinct crockford"
  by (simp_all add: crockford_def)

lemma encode_identity_base32:
  assumes "length bytes = 16"
  shows "encode_identity bytes = map ((!) crockford) (base32 26 (bytes_value bytes))"
  using character_bits_digit [OF assms] by (simp add: encode_identity_def base32_def)

lemma base32_digits: "\<forall>d \<in> set (base32 width n). d < 32"
  by (auto simp: base32_def)

lemma base32_Suc: "base32 (Suc width) n = n div 32 ^ width mod 32 # base32 width n"
  by (simp add: base32_def map_upt_Suc del: upt_Suc)

lemma base32_mod: "base32 width (n mod 32 ^ width) = base32 width n"
proof -
  have "n mod 32 ^ width div 32 ^ (width - 1 - k) mod 32 = n div 32 ^ (width - 1 - k) mod 32" if "k < width" for k
  proof -
    define j where "j = width - 1 - k"
    have "width = j + Suc k"
      using that by (simp add: j_def)
    then have "n mod 32 ^ width = 32 ^ j * (n div 32 ^ j mod 32 ^ Suc k) + n mod 32 ^ j"
      by (simp only: power_add mod_mult2_eq)
    then have "n mod 32 ^ width div 32 ^ j = n div 32 ^ j mod 32 ^ Suc k"
      by (simp del: power_Suc)
    moreover have "n div 32 ^ j mod 32 ^ Suc k mod 32 = n div 32 ^ j mod 32"
      by (rule mod_mod_cancel) simp
    ultimately show ?thesis
      by (simp add: j_def)
  qed
  then show ?thesis
    by (simp add: base32_def)
qed

lemma crockford_ascending: "sorted_wrt (<) crockford"
  by (simp add: crockford_def less_char_def)

lemma crockford_mono: "i < j \<Longrightarrow> j < 32 \<Longrightarrow> crockford ! i < crockford ! j"
  using crockford_ascending crockford_facts(1) by (simp add: sorted_wrt_iff_nth_less)

lemma identity_order:
  assumes "n < 32 ^ width" and "m < 32 ^ width" and "n < m"
  shows "map ((!) crockford) (base32 width n) < map ((!) crockford) (base32 width m)"
  using assms
proof (induction width arbitrary: n m)
  case (Suc width)
  let ?p = "(32 :: nat) ^ width"
  have q: "n div ?p < 32" "m div ?p < 32"
    using Suc.prems by (simp_all add: less_mult_imp_div_less)
  have "n div ?p \<le> m div ?p"
    using Suc.prems(3) by (intro div_le_mono) simp
  then consider "n div ?p < m div ?p" | "n div ?p = m div ?p" "n mod ?p < m mod ?p"
    using Suc.prems(3) by (metis div_mult_mod_eq le_neq_implies_less nat_add_left_cancel_less)
  then show ?case
  proof cases
    case 1
    with q show ?thesis
      by (simp add: base32_Suc crockford_mono)
  next
    case 2
    have "map ((!) crockford) (base32 width (n mod ?p)) < map ((!) crockford) (base32 width (m mod ?p))"
      using 2 by (intro Suc.IH) simp_all
    with 2 q show ?thesis
      by (simp add: base32_Suc base32_mod)
  qed
qed simp

subsection \<open>What newID returns\<close>

definition identity_number :: "int \<Rightarrow> byte list \<Rightarrow> nat" where
  "identity_number milliseconds random = nat milliseconds * 2 ^ 80 + bytes_value random"

lemma timestamp_bytes_value:
  "0 \<le> milliseconds \<Longrightarrow> milliseconds < 256 ^ n \<Longrightarrow>
     length (timestamp_bytes n milliseconds) = n \<and> bytes_value (timestamp_bytes n milliseconds) = nat milliseconds"
proof (induction n arbitrary: milliseconds)
  case (Suc n)
  have "drop_bit 8 milliseconds = milliseconds div 256"
    by (simp add: drop_bit_eq_div)
  moreover have "0 \<le> milliseconds div 256" "milliseconds div 256 < 256 ^ n"
    using Suc.prems by (auto simp: div_less_iff_less_mult mult.commute)
  moreover have "unat (word_of_int milliseconds :: byte) = nat (milliseconds mod 256)"
    by (simp add: unsigned_of_int take_bit_eq_mod)
  moreover have "nat (milliseconds div 256) * 256 + nat (milliseconds mod 256) = nat milliseconds"
    using Suc.prems(1) by (simp add: nat_div_distrib nat_mod_distrib)
  ultimately show ?case
    using Suc.IH [of "milliseconds div 256"] by simp
qed simp

lemma newID_Inr:
  assumes "newID now entropy = Inr (id', rest)"
  shows "\<exists>random. entropy = random @ rest \<and> length random = 10 \<and> 0 \<le> UnixMilli now \<and> UnixMilli now < 2 ^ 48 \<and>
    id' = map ((!) crockford) (base32 26 (identity_number (UnixMilli now) random)) \<and> id' \<noteq> ''00000000000000000000000000''"
proof -
  let ?ms = "UnixMilli now"
  let ?random = "take 10 entropy"
  from assms have range: "0 \<le> ?ms" "?ms < 2 ^ 48" and len: "10 \<le> length entropy" and rest: "rest = drop 10 entropy"
      and id: "id' = encode_identity (timestamp_bytes 6 ?ms @ ?random)" "id' \<noteq> ''00000000000000000000000000''"
    by (auto simp: newID_def Let_def ReadFull_def split: if_splits)
  have ts: "length (timestamp_bytes 6 ?ms) = 6" "bytes_value (timestamp_bytes 6 ?ms) = nat ?ms"
    using timestamp_bytes_value [of ?ms 6] range by simp_all
  have "bytes_value (timestamp_bytes 6 ?ms @ ?random) = identity_number ?ms ?random"
    using ts(2) len by (simp add: bytes_value_append identity_number_def)
  with encode_identity_base32 [of "timestamp_bytes 6 ?ms @ ?random"] ts(1) len
  have "encode_identity (timestamp_bytes 6 ?ms @ ?random) = map ((!) crockford) (base32 26 (identity_number ?ms ?random))"
    by simp
  with range len rest id show ?thesis
    by (intro exI [of _ ?random]) simp
qed

lemma identity_number_bound:
  assumes "0 \<le> milliseconds" and "milliseconds < 2 ^ 48" and "length random = 10"
  shows "identity_number milliseconds random < 2 ^ 128"
proof -
  have "bytes_value random < 2 ^ 80"
    using bytes_value_bound [of random] assms(3) by simp
  moreover have "nat milliseconds \<le> 2 ^ 48 - 1"
    using assms(1,2) by simp
  ultimately show ?thesis
    by (simp add: identity_number_def)
qed

lemma identity_number_less:
  assumes "0 \<le> m1" and "m1 < m2" and "length random = 10"
  shows "identity_number m1 random < identity_number m2 random'"
proof -
  have "bytes_value random < 2 ^ 80"
    using bytes_value_bound [of random] assms(3) by simp
  moreover have "nat m1 + 1 \<le> nat m2"
    using assms(1,2) by simp
  then have "(nat m1 + 1) * 2 ^ 80 \<le> nat m2 * 2 ^ 80"
    by (intro mult_right_mono) simp_all
  ultimately show ?thesis
    by (simp add: identity_number_def)
qed

lemma low_crockford: "d < 8 \<Longrightarrow> crockford ! d \<in> set ''01234567''"
proof -
  assume "d < 8"
  then have "crockford ! d = take 8 crockford ! d"
    by simp
  moreover have "take 8 crockford = ''01234567''"
    by (simp add: crockford_def)
  ultimately show ?thesis
    using \<open>d < 8\<close> nth_mem [of d "''01234567''"] by simp
qed

lemma base32_valid:
  assumes "n < 2 ^ 128"
  shows "validOpaqueID (map ((!) crockford) (base32 26 n))"
proof -
  have "n div 32 ^ 25 < 8"
    using assms by (simp add: less_mult_imp_div_less)
  moreover have "base32 26 n = n div 32 ^ 25 mod 32 # base32 25 n"
    using base32_Suc [of 25 n] by simp
  moreover have "list_all (\<lambda>x. x \<in> set crockford) (map ((!) crockford) (base32 25 n))"
    using base32_digits [of 25 n] crockford_facts(1) by (auto simp: list_all_iff)
  moreover have "length (base32 25 n) = 25"
    by (simp add: base32_def)
  ultimately show ?thesis
    using low_crockford [of "n div 32 ^ 25"] by (simp add: validOpaqueID_def ValidAuditID_def)
qed

subsection \<open>Properties\<close>

text \<open>
  C38: An identity that is generated has the opaque form the tables demand and is not the identity of the synthetic
  server. Two generated identities are equal exactly when they come from the same millisecond and the same
  ten bytes of entropy, and one from an earlier millisecond is the smaller text.
\<close>

theorem newID_orders:
  assumes "newID now1 entropy1 = Inr (id1, rest1)" and "newID now2 entropy2 = Inr (id2, rest2)"
  shows "validOpaqueID id1 \<and> id1 \<noteq> ''00000000000000000000000000'' \<and> rest1 = drop 10 entropy1 \<and>
    (id1 = id2 \<longleftrightarrow> UnixMilli now1 = UnixMilli now2 \<and> take 10 entropy1 = take 10 entropy2) \<and>
    (UnixMilli now1 < UnixMilli now2 \<longrightarrow> id1 < id2)"
proof -
  let ?m1 = "UnixMilli now1" and ?m2 = "UnixMilli now2"
  let ?f = "\<lambda>n. map ((!) crockford) (base32 26 n)"
  obtain x1 where x1: "entropy1 = x1 @ rest1" "length x1 = 10" "0 \<le> ?m1" "?m1 < 2 ^ 48"
      "id1 = ?f (identity_number ?m1 x1)" "id1 \<noteq> ''00000000000000000000000000''"
    using newID_Inr [OF assms(1)] by blast
  obtain x2 where x2: "entropy2 = x2 @ rest2" "length x2 = 10" "0 \<le> ?m2" "?m2 < 2 ^ 48"
      "id2 = ?f (identity_number ?m2 x2)"
    using newID_Inr [OF assms(2)] by blast
  note bounds = identity_number_bound [OF x1(3,4,2)] identity_number_bound [OF x2(3,4,2)]
  have order: "?f n < ?f m" if "n < m" "n < 2 ^ 128" "m < 2 ^ 128" for n m
    using that by (intro identity_order) simp_all
  have "identity_number ?m1 x1 = identity_number ?m2 x2 \<longleftrightarrow> ?m1 = ?m2 \<and> x1 = x2"
  proof
    assume eq: "identity_number ?m1 x1 = identity_number ?m2 x2"
    have "?m1 = ?m2"
      using identity_number_less [OF x1(3) _ x1(2), of ?m2 x2] identity_number_less [OF x2(3) _ x2(2), of ?m1 x1] eq
      by (metis less_irrefl linorder_neqE)
    with eq x1(2) x2(2) show "?m1 = ?m2 \<and> x1 = x2"
      by (auto simp: identity_number_def intro: bytes_value_inj)
  qed simp
  moreover have "id1 = id2 \<longleftrightarrow> identity_number ?m1 x1 = identity_number ?m2 x2"
    using order bounds x1(5) x2(5) by (metis less_irrefl linorder_neqE)
  moreover have "?m1 < ?m2 \<longrightarrow> id1 < id2"
    using order [OF identity_number_less [OF x1(3) _ x1(2)] bounds] x1(5) x2(5) by simp
  ultimately show ?thesis
    using x1 x2 base32_valid [OF bounds(1)] by simp
qed

theorem newID_orders_witness:
  "validOpaqueID ''00000000000000000000000001'' \<and> ''00000000000000000000000001'' < ''00000000010000000000000000''"
proof -
  have first: "newID 0 [0, 0, 0, 0, 0, 0, 0, 0, 0, 1] = Inr (''00000000000000000000000001'', [])"
    by code_simp
  have second: "newID 1000000 [0, 0, 0, 0, 0, 0, 0, 0, 0, 0] = Inr (''00000000010000000000000000'', [])"
    by code_simp
  have "UnixMilli 0 < UnixMilli 1000000"
    by (simp add: UnixMilli_def)
  with newID_orders [OF first second] show ?thesis by simp
qed

end
