(* ===== verification/Store.thy ===== *)
theory Store
  imports Prelude
begin

text \<open>
  The mutation path of \<open>internal/storage\<close> (\<open>latch.go\<close>, \<open>admission.go\<close>): one writer at a time, a serializable
  transaction around a callback, and the latch that fences the store once the outcome of a mutation is in
  doubt. The data is of any type; the callback maps it to an error or to a result and new data.

  What SQLite, its driver and the context answer during one mutation is the record \<open>driver\<close>. A commit that
  reports an error may or may not have been applied. After the transaction the connection is settled and closed; a
  connection that does not settle latches the store, one that only fails to close makes the call report an error, even after a commit.
\<close>

record 'd store =
  sto_owned :: bool
  sto_latched :: bool
  sto_data :: 'd

datatype 'e mutate_error = ErrMutationBusy | ErrStorageLatched | ContextError | DriverError | CallbackError 'e

datatype commit_outcome = Committed | CommitLost | CommitRefused

record driver =
  dr_context_acquire :: bool
  dr_context_before :: bool
  dr_size_ok :: bool
  dr_identity_ok :: bool
  dr_connection_ok :: bool
  dr_fault_before_begin :: bool
  dr_begin_ok :: bool
  dr_context_after :: bool
  dr_rollback_ok :: bool
  dr_commit :: commit_outcome
  dr_fault_after_commit :: bool
  dr_settled :: bool
  dr_close_ok :: bool

subsection \<open>The mutation\<close>

definition store_latch :: "'d store \<Rightarrow> ('e mutate_error + 'a) \<times> 'd store" where
  "store_latch st = (Inl ErrStorageLatched, st\<lparr>sto_latched := True\<rparr>)"

definition acquireMutation :: "driver \<Rightarrow> 'd store \<Rightarrow> 'e mutate_error + 'd store" where
  "acquireMutation dr st =
     (if dr_context_acquire dr then Inl ContextError
      else if sto_owned st then Inl ErrMutationBusy
      else Inr (st\<lparr>sto_owned := True\<rparr>))"

definition releaseMutation :: "'d store \<Rightarrow> 'd store" where
  "releaseMutation st = st\<lparr>sto_owned := False\<rparr>"

text \<open>From the beginning of the transaction to its commit or rollback.\<close>

definition run_transaction ::
  "driver \<Rightarrow> ('e \<Rightarrow> bool) \<Rightarrow> ('d \<Rightarrow> 'e + 'a \<times> 'd) \<Rightarrow> 'd store \<Rightarrow> ('e mutate_error + 'a) \<times> 'd store" where
  "run_transaction dr isStorageFailure callback st =
     (if dr_fault_before_begin dr then (Inl DriverError, st)
      else if \<not> dr_begin_ok dr then (Inl DriverError, st)
      else
        (case callback (sto_data st) of
           Inl e \<Rightarrow>
             if \<not> dr_rollback_ok dr \<or> isStorageFailure e then store_latch st else (Inl (CallbackError e), st)
         | Inr (x, data) \<Rightarrow>
             if dr_context_after dr then (if \<not> dr_rollback_ok dr then store_latch st else (Inl ContextError, st))
             else
               (case dr_commit dr of
                  CommitRefused \<Rightarrow> store_latch st
                | CommitLost \<Rightarrow> store_latch (st\<lparr>sto_data := data\<rparr>)
                | Committed \<Rightarrow>
                    if dr_fault_after_commit dr then store_latch (st\<lparr>sto_data := data\<rparr>)
                    else (Inr x, st\<lparr>sto_data := data\<rparr>))))"

definition finishConnection ::
  "driver \<Rightarrow> ('e mutate_error + 'a) \<times> 'd store \<Rightarrow> ('e mutate_error + 'a) \<times> 'd store" where
  "finishConnection dr outcome =
     (if \<not> dr_settled dr then store_latch (snd outcome)
      else if \<not> dr_close_ok dr
      then ((case fst outcome of Inl e \<Rightarrow> Inl e | Inr _ \<Rightarrow> Inl DriverError), snd outcome)
      else outcome)"

definition mutateOwned ::
  "driver \<Rightarrow> ('e \<Rightarrow> bool) \<Rightarrow> ('d \<Rightarrow> 'e + 'a \<times> 'd) \<Rightarrow> 'd store \<Rightarrow> ('e mutate_error + 'a) \<times> 'd store" where
  "mutateOwned dr isStorageFailure callback st =
     (if sto_latched st then (Inl ErrStorageLatched, st)
      else if dr_context_before dr then (Inl ContextError, st)
      else if \<not> dr_size_ok dr then store_latch st
      else if \<not> dr_identity_ok dr then store_latch st
      else if \<not> dr_connection_ok dr then (Inl DriverError, st)
      else finishConnection dr (run_transaction dr isStorageFailure callback st))"

definition mutate ::
  "driver \<Rightarrow> ('e \<Rightarrow> bool) \<Rightarrow> ('d \<Rightarrow> 'e + 'a \<times> 'd) \<Rightarrow> 'd store \<Rightarrow> ('e mutate_error + 'a) \<times> 'd store" where
  "mutate dr isStorageFailure callback st =
     (case acquireMutation dr st of
        Inl e \<Rightarrow> (Inl e, st)
      | Inr st1 \<Rightarrow> (case mutateOwned dr isStorageFailure callback st1 of (r, st2) \<Rightarrow> (r, releaseMutation st2)))"

text \<open>\<open>ConfirmHealthy\<close> runs its callback under the fence the latch takes.\<close>

definition ConfirmHealthy :: "('s \<Rightarrow> bool \<times> 's) \<Rightarrow> bool \<Rightarrow> 's \<Rightarrow> bool \<times> 's" where
  "ConfirmHealthy detach latched s = (if latched then (False, s) else detach s)"

subsection \<open>Atomicity\<close>

text \<open>What one attempt promises about the store before and after it, when the connection closes or does not.\<close>

definition atomic_outcome ::
  "bool \<Rightarrow> ('d \<Rightarrow> 'e + 'a \<times> 'd) \<Rightarrow> 'd store \<Rightarrow> ('e mutate_error + 'a) \<times> 'd store \<Rightarrow> bool" where
  "atomic_outcome closed callback st outcome \<longleftrightarrow>
     (case outcome of
        (Inr x, st') \<Rightarrow> callback (sto_data st) = Inr (x, sto_data st') \<and> \<not> sto_latched st \<and> \<not> sto_latched st'
      | (Inl _, st') \<Rightarrow>
          (sto_latched st \<longrightarrow> sto_latched st' \<and> sto_data st' = sto_data st) \<and>
          (\<not> sto_latched st' \<and> closed \<longrightarrow> sto_data st' = sto_data st) \<and>
          (sto_data st' = sto_data st \<or> (\<exists>x. callback (sto_data st) = Inr (x, sto_data st'))))"

lemma atomic_Inr [simp]:
  "atomic_outcome closed callback st (Inr x, st') \<longleftrightarrow>
     callback (sto_data st) = Inr (x, sto_data st') \<and> \<not> sto_latched st \<and> \<not> sto_latched st'"
  by (simp add: atomic_outcome_def)

lemma atomic_Inl [simp]:
  "atomic_outcome closed callback st (Inl e, st') \<longleftrightarrow>
     (sto_latched st \<longrightarrow> sto_latched st' \<and> sto_data st' = sto_data st) \<and>
     (\<not> sto_latched st' \<and> closed \<longrightarrow> sto_data st' = sto_data st) \<and>
     (sto_data st' = sto_data st \<or> (\<exists>x. callback (sto_data st) = Inr (x, sto_data st')))"
  by (simp add: atomic_outcome_def)

lemma run_transaction_atomic:
  assumes "\<not> sto_latched st"
  shows "atomic_outcome True callback st (run_transaction dr failure callback st)"
  using assms by (auto simp: run_transaction_def store_latch_def split: sum.split commit_outcome.split)

lemma finishConnection_atomic:
  assumes "atomic_outcome True callback st outcome" and "\<not> sto_latched st"
  shows "atomic_outcome (dr_close_ok dr) callback st (finishConnection dr outcome)"
  using assms
  by (cases outcome; cases "fst outcome") (auto simp: finishConnection_def store_latch_def)

lemma run_transaction_owned: "sto_owned (snd (run_transaction dr failure callback st)) = sto_owned st"
  by (auto simp: run_transaction_def store_latch_def split: sum.split commit_outcome.split)

lemma mutateOwned_owned: "sto_owned (snd (mutateOwned dr failure callback st)) = sto_owned st"
  using run_transaction_owned [of dr failure callback st]
  by (simp add: mutateOwned_def finishConnection_def store_latch_def)

lemma mutateOwned_atomic: "atomic_outcome (dr_close_ok dr) callback st (mutateOwned dr failure callback st)"
  using run_transaction_atomic [of st callback dr failure]
  by (auto simp: mutateOwned_def store_latch_def intro: finishConnection_atomic)

lemma mutate_atomic_outcome: "atomic_outcome (dr_close_ok dr) callback st (mutate dr failure callback st)"
  using mutateOwned_atomic [of dr callback "st\<lparr>sto_owned := True\<rparr>" failure]
  by (cases "mutateOwned dr failure callback (st\<lparr>sto_owned := True\<rparr>)"; cases "fst (mutateOwned dr failure callback (st\<lparr>sto_owned := True\<rparr>))")
    (auto simp: mutate_def acquireMutation_def releaseMutation_def)


lemma mutate_data:
  "sto_data (snd (mutate dr failure callback st)) = sto_data st \<or>
   (\<exists>x. callback (sto_data st) = Inr (x, sto_data (snd (mutate dr failure callback st))))"
  by (auto simp: mutate_def acquireMutation_def releaseMutation_def mutateOwned_def finishConnection_def run_transaction_def
      store_latch_def split: sum.splits commit_outcome.splits prod.splits if_splits)

lemma mutate_success:
  assumes "mutate dr failure callback st = (Inr x, st')"
  shows "callback (sto_data st) = Inr (x, sto_data st')"
  using assms
  by (auto simp: mutate_def acquireMutation_def releaseMutation_def mutateOwned_def finishConnection_def run_transaction_def
      store_latch_def split: sum.splits commit_outcome.splits prod.splits if_splits)

subsection \<open>Properties\<close>


definition steady_driver :: driver where
  "steady_driver =
     \<lparr>dr_context_acquire = False, dr_context_before = False, dr_size_ok = True, dr_identity_ok = True,
      dr_connection_ok = True, dr_fault_before_begin = False, dr_begin_ok = True, dr_context_after = False,
      dr_rollback_ok = True, dr_commit = Committed, dr_fault_after_commit = False, dr_settled = True, dr_close_ok = True\<rparr>"


text \<open>The exception happens: a committed change whose connection does not close is reported as an error, and the store goes on.\<close>

lemma close_failure_hides_commit:
  "mutate (steady_driver\<lparr>dr_close_ok := False\<rparr>) failure (\<lambda>n :: nat. Inr ((), n + 1)) \<lparr>sto_owned = False, sto_latched = False, sto_data = 7\<rparr> =
     (Inl DriverError, \<lparr>sto_owned = False, sto_latched = False, sto_data = 8\<rparr>)"
  by (simp add: mutate_def acquireMutation_def mutateOwned_def run_transaction_def finishConnection_def store_latch_def
      releaseMutation_def steady_driver_def)

end
