(* ===== verification/Authority_Tables.thy ===== *)
theory Authority_Tables
  imports Evaluator Identity Store
begin

text \<open>
  The durable state of \<open>internal/authorization\<close> as its mutations see it, and the readers they use:
  \<open>scanPrincipal\<close> and \<open>principalByIDTx\<close> (\<open>principals.go\<close>), \<open>scanGrant\<close> (\<open>grants.go\<close>), the revision and error
  helpers of \<open>principal_mutations.go\<close>, and the authentication of a bearer (\<open>authentication.go\<close>).

  A transaction maps the state to an error or to a result and a new state. \<open>AUTOINCREMENT\<close> numbers are kept as
  the last number given out, which SQLite never reuses. A statement the database refuses ends the transaction
  with an error; the parameter \<open>audit\<close> says which audit records the audit tables refuse. The parameter
  \<open>readable\<close> is what the constraint cache answers when a stored constraint is read back. The column
  \<open>expires_at\<close> holds only texts written in the canonical layout, on which \<open>time.Parse\<close> is \<open>ParseCanonical\<close>.
\<close>

datatype tx_error = TxError auth_error | TxNoRows | TxUnclassified | TxStorage

record audit_entry =
  au_system :: bool
  au_category :: string
  au_action :: string
  au_target :: string

record authority_state =
  st_db :: authority_db
  st_defaults :: "(string \<times> string \<times> int) list"
  st_principal_sequence :: int
  st_grant_sequence :: int
  st_audit :: "audit_entry list"

type_synonym 'a authority_tx = "authority_state \<Rightarrow> tx_error + 'a \<times> authority_state"
type_synonym audit_tables = "audit_entry \<Rightarrow> tx_error option"

record AgentCredential =
  ac_ID :: string
  ac_Fingerprint :: string
  ac_Revision :: string
  ac_CreatedAt :: string

record Principal =
  p_HTTPDefault :: string
  p_ID :: string
  p_DisplayName :: string
  p_State :: string
  p_Visibility :: string
  p_Revision :: string
  p_CredentialRevision :: string
  p_Credential :: "AgentCredential option"
  p_CreatedAt :: string
  p_UpdatedAt :: string

record mcp_Grant =
  g_ReadOnly :: bool
  g_ID :: string
  g_Description :: "string option"
  g_Revision :: string
  g_PrincipalID :: string
  g_Effect :: string
  g_ServerID :: string
  g_UpstreamName :: "string option"
  g_Constraint :: "string option"
  g_ExpiresAt :: "string option"
  g_State :: GrantState
  g_CreatedAt :: string

subsection \<open>Helpers\<close>

text \<open>\<open>column + 1\<close> on an integer column of a strict table: past the largest integer the row is refused.\<close>

definition increment :: "int \<Rightarrow> tx_error + int" where
  "increment n = (if n < 2 ^ 63 - 1 then Inr (n + 1) else Inl TxUnclassified)"

definition advanceAuthorizationRevisionTx :: "authority_state \<Rightarrow> tx_error + authority_state" where
  "advanceAuthorizationRevisionTx st =
     map_sum id (\<lambda>n. st\<lparr>st_db := (st_db st)\<lparr>db_revision := n\<rparr>\<rparr>) (increment (db_revision (st_db st)))"

definition audit_MutationTx :: "audit_tables \<Rightarrow> bool \<Rightarrow> string \<Rightarrow> string \<Rightarrow> string \<Rightarrow> authority_state \<Rightarrow> tx_error + authority_state" where
  "audit_MutationTx audit system category action target st =
     (let entry = \<lparr>au_system = system, au_category = category, au_action = action, au_target = target\<rparr> in
      case audit entry of Some e \<Rightarrow> Inl e | None \<Rightarrow> Inr (st\<lparr>st_audit := st_audit st @ [entry]\<rparr>))"

definition parseExpectedRevision :: "string \<Rightarrow> auth_error + int" where
  "parseExpectedRevision value =
     (case ParseInt value of
        None \<Rightarrow> Inl ErrInvalidInput
      | Some revision \<Rightarrow> if revision < 1 \<or> FormatInt revision \<noteq> value then Inl ErrInvalidInput else Inr revision)"

definition checkPrincipalCreationCapacity :: "authority_state \<Rightarrow> tx_error + unit" where
  "checkPrincipalCreationCapacity st =
     (if int (length (db_principals (st_db st))) \<ge> mustLimit ''principals'' then Inl (TxError ErrResourceLimit)
      else if int (length (db_grants (st_db st))) \<ge> mustLimit ''grants'' then Inl (TxError ErrResourceLimit)
      else Inr ())"

text \<open>\<open>mapMutationError\<close>, on the errors a mutation of the store can end with.\<close>

definition mapMutationError :: "tx_error mutate_error \<Rightarrow> auth_error" where
  "mapMutationError err =
     (case err of
        ErrStorageLatched \<Rightarrow> ErrStorageUnavailable
      | ErrMutationBusy \<Rightarrow> ErrResourceLimit
      | ContextError \<Rightarrow> UnclassifiedError
      | DriverError \<Rightarrow> ErrStorageUnavailable
      | CallbackError (TxError UnclassifiedError) \<Rightarrow> ErrStorageUnavailable
      | CallbackError (TxError e) \<Rightarrow> e
      | CallbackError TxNoRows \<Rightarrow> ErrNotFound
      | CallbackError _ \<Rightarrow> ErrStorageUnavailable)"

definition isStorageFailure :: "tx_error \<Rightarrow> bool" where
  "isStorageFailure e \<longleftrightarrow> e = TxStorage"

subsection \<open>Reading a principal\<close>

definition scan_credential :: "principal_row \<Rightarrow> tx_error + AgentCredential option" where
  "scan_credential row =
     (case (pr_credentialID row, pr_fingerprint row, pr_credentialAt row) of
        (None, None, None) \<Rightarrow> Inr None
      | (Some cid, Some fingerprint, Some at) \<Rightarrow>
          Inr (Some \<lparr>ac_ID = cid, ac_Fingerprint = fingerprint,
                     ac_Revision = FormatInt (pr_credentialRevision row), ac_CreatedAt = at\<rparr>)
      | _ \<Rightarrow> Inl TxUnclassified)"

definition scanPrincipal :: "authority_state \<Rightarrow> principal_row \<Rightarrow> tx_error + int \<times> Principal" where
  "scanPrincipal st row =
     (case map_of (st_defaults st) (pr_id row) of
        None \<Rightarrow> Inl TxUnclassified
      | Some (policy, _) \<Rightarrow>
          if policy \<noteq> ''allow'' \<and> policy \<noteq> ''block'' then Inl (TxError ErrInvalidState)
          else
            (case scan_credential row of
               Inl e \<Rightarrow> Inl e
             | Inr credential \<Rightarrow>
                 Inr (pr_sequence row,
                   \<lparr>p_HTTPDefault = policy, p_ID = pr_id row, p_DisplayName = pr_displayName row, p_State = pr_state row,
                    p_Visibility = pr_visibility row, p_Revision = FormatInt (pr_revision row),
                    p_CredentialRevision = FormatInt (pr_credentialRevision row), p_Credential = credential,
                    p_CreatedAt = pr_createdAt row, p_UpdatedAt = pr_updatedAt row\<rparr>)))"

definition principal_by_id :: "string \<Rightarrow> authority_db \<Rightarrow> principal_row option" where
  "principal_by_id principalID db = find (\<lambda>row. pr_id row = principalID) (db_principals db)"

definition principalByIDTx :: "string \<Rightarrow> authority_state \<Rightarrow> tx_error + Principal" where
  "principalByIDTx principalID st =
     (case principal_by_id principalID (st_db st) of
        None \<Rightarrow> Inl TxNoRows
      | Some row \<Rightarrow> map_sum id snd (scanPrincipal st row))"

definition parsePrincipalRevisions :: "Principal \<Rightarrow> tx_error + int \<times> int" where
  "parsePrincipalRevisions p =
     (case ParseInt (p_Revision p) of
        None \<Rightarrow> Inl (TxError ErrInvalidState)
      | Some principalRevision \<Rightarrow>
          if principalRevision < 1 then Inl (TxError ErrInvalidState)
          else
            (case ParseInt (p_CredentialRevision p) of
               None \<Rightarrow> Inl (TxError ErrInvalidState)
             | Some credentialRevision \<Rightarrow>
                 if credentialRevision < 0 then Inl (TxError ErrInvalidState)
                 else Inr (principalRevision, credentialRevision)))"

subsection \<open>Reading a grant\<close>

definition grant_state :: "instant \<Rightarrow> string option \<Rightarrow> tx_error + GrantState" where
  "grant_state now expiresAt =
     (case expiresAt of
        None \<Rightarrow> Inr GrantActive
      | Some value \<Rightarrow>
          (case ParseCanonical value of
             None \<Rightarrow> Inl TxUnclassified
           | Some expiry \<Rightarrow> Inr (if \<not> expiry > now then GrantExpired else GrantActive)))"

definition scanGrant :: "(string \<Rightarrow> bool) \<Rightarrow> instant \<Rightarrow> grant_row \<Rightarrow> tx_error + int \<times> mcp_Grant" where
  "scanGrant readable now row =
     (if row_readOnly row \<and> (row_effect row \<noteq> GrantEffect_string GrantAllow \<or> row_upstream row \<noteq> None \<or> row_constraint row \<noteq> None)
      then Inl (TxError ErrInvalidState)
      else if \<not> validGrantDescription (row_description row) \<or> \<not> validRevision (row_revision row) then Inl (TxError ErrInvalidState)
      else if (case row_constraint row of None \<Rightarrow> False | Some source \<Rightarrow> \<not> readable source) then Inl (TxError ErrInvalidState)
      else
        (case grant_state now (row_expires row) of
           Inl e \<Rightarrow> Inl e
         | Inr state \<Rightarrow>
             Inr (row_sequence row,
               \<lparr>g_ReadOnly = row_readOnly row, g_ID = row_id row, g_Description = row_description row,
                g_Revision = row_revision row, g_PrincipalID = row_principal row, g_Effect = row_effect row,
                g_ServerID = row_server row, g_UpstreamName = row_upstream row, g_Constraint = row_constraint row,
                g_ExpiresAt = row_expires row, g_State = state, g_CreatedAt = row_created row\<rparr>)))"

definition grantByIDTx :: "(string \<Rightarrow> bool) \<Rightarrow> instant \<Rightarrow> string \<Rightarrow> authority_state \<Rightarrow> tx_error + mcp_Grant" where
  "grantByIDTx readable now grantID st =
     (case find (\<lambda>row. row_id row = grantID) (db_grants (st_db st)) of
        None \<Rightarrow> Inl TxNoRows
      | Some row \<Rightarrow> map_sum id snd (scanGrant readable now row))"

end
