(* ===== verification/Grant_Targets.thy ===== *)
theory Grant_Targets
  imports Request_Policy Authority_Tables
begin

text \<open>
  The servers a grant or a request may name (\<open>internal/servers/grant_targets.go\<close>): identifiers and namespaces of servers are
  permanent, a server may be deleted. The locale \<open>namespace_registry\<close> is what grant requests rely on: a namespace that
  resolves to a server is the namespace stored for that server from then on. The lookups on the server tables
  interpret it.
\<close>

datatype target_error = TargetNotFound | TargetStorageUnavailable | TargetIdentityUnavailable

datatype GrantTargetKind = GrantTargetSynthetic | GrantTargetServer

record NamespaceTarget =
  ns_ID :: string
  ns_Namespace :: string
  ns_State :: string

record server_tables =
  sv_identities :: "(string \<times> string) list"
  sv_states :: "(string \<times> string) list"

definition SyntheticServerNamespace :: string where
  "SyntheticServerNamespace = ''mcp_gateway''"

definition ValidateGrantTargetTx :: "server_tables \<Rightarrow> string \<Rightarrow> target_error + GrantTargetKind" where
  "ValidateGrantTargetTx tables serverID =
     (if \<not> validOpaqueID serverID then Inl TargetNotFound
      else if serverID = SyntheticServerID then
        (if list_ex (\<lambda>(i, _). i = serverID) (sv_identities tables) then Inl TargetIdentityUnavailable else Inr GrantTargetSynthetic)
      else
        (case map_of (sv_states tables) serverID of
           None \<Rightarrow> Inl TargetNotFound
         | Some state \<Rightarrow> if state = DesiredServerState_string DesiredServerDeleted then Inl TargetNotFound else Inr GrantTargetServer))"

definition LookupNamespaceTargetTx :: "server_tables \<Rightarrow> string \<Rightarrow> target_error + NamespaceTarget" where
  "LookupNamespaceTargetTx tables namespace =
     (if \<not> validRequestNamespace namespace \<or> namespace = SyntheticServerNamespace then Inl TargetNotFound
      else
        (case find (\<lambda>(i, n). n = namespace \<and> map_of (sv_states tables) i \<noteq> None) (sv_identities tables) of
           None \<Rightarrow> Inl TargetNotFound
         | Some (i, n) \<Rightarrow>
             let state = the (map_of (sv_states tables) i) in
             if \<not> validOpaqueID i \<or> n \<noteq> namespace then Inl TargetStorageUnavailable
             else if ParseDesiredServerState state = None then Inl TargetStorageUnavailable
             else Inr \<lparr>ns_ID = i, ns_Namespace = n, ns_State = state\<rparr>))"

definition LookupStoredGrantNamespaceTx :: "server_tables \<Rightarrow> string \<Rightarrow> target_error + string option" where
  "LookupStoredGrantNamespaceTx tables serverID =
     (if \<not> validOpaqueID serverID then Inr None
      else if serverID = SyntheticServerID then
        Inr (if list_ex (\<lambda>(i, n). i = serverID \<or> n = SyntheticServerNamespace) (sv_identities tables) then None
             else Some SyntheticServerNamespace)
      else
        (case map_of (sv_identities tables) serverID of
           None \<Rightarrow> Inr None
         | Some namespace \<Rightarrow>
             if \<not> validRequestNamespace namespace \<or> namespace = SyntheticServerNamespace then Inl TargetStorageUnavailable
             else Inr (Some namespace)))"

definition StoredGrantTargetExistsTx :: "server_tables \<Rightarrow> string \<Rightarrow> bool" where
  "StoredGrantTargetExistsTx tables serverID =
     (if \<not> validOpaqueID serverID then False
      else if serverID = SyntheticServerID
      then \<not> list_ex (\<lambda>(i, n). i = serverID \<or> n = SyntheticServerNamespace) (sv_identities tables)
      else length (filter (\<lambda>(i, _). i = serverID) (sv_identities tables)) = 1)"

subsection \<open>Permanence\<close>

locale namespace_registry =
  fixes valid :: "'s \<Rightarrow> bool"
    and grows :: "'s \<Rightarrow> 's \<Rightarrow> bool"
    and lookup :: "'s \<Rightarrow> string \<Rightarrow> 'e + NamespaceTarget"
    and stored :: "'s \<Rightarrow> string \<Rightarrow> 'e + string option"
  assumes lookup_named: "lookup s n = Inr target \<Longrightarrow> ns_Namespace target = n \<and> n \<noteq> SyntheticServerNamespace"
    and lookup_kept: "valid s \<Longrightarrow> valid s' \<Longrightarrow> grows s s' \<Longrightarrow> lookup s n = Inr target \<Longrightarrow> ns_ID target \<noteq> SyntheticServerID \<Longrightarrow>
      stored s' (ns_ID target) = Inr (Some n)"
begin

lemma lookup_injective:
  assumes "valid s" and "lookup s n = Inr target" and "lookup s m = Inr target'" and "ns_ID target = ns_ID target'"
    and "ns_ID target \<noteq> SyntheticServerID" and "grows s s"
  shows "n = m"
  using lookup_kept [OF assms(1,1,6,2,5)] lookup_kept [OF assms(1,1,6,3)] assms(4,5) by simp

end

definition servers_valid :: "server_tables \<Rightarrow> bool" where
  "servers_valid tables \<longleftrightarrow> distinct (map fst (sv_identities tables))"

definition servers_grow :: "server_tables \<Rightarrow> server_tables \<Rightarrow> bool" where
  "servers_grow tables tables' \<longleftrightarrow> set (sv_identities tables) \<subseteq> set (sv_identities tables')"

lemma lookup_found:
  assumes "LookupNamespaceTargetTx tables n = Inr target"
  shows "ns_Namespace target = n \<and> n \<noteq> SyntheticServerNamespace \<and> validRequestNamespace n \<and> validOpaqueID (ns_ID target) \<and>
    (ns_ID target, n) \<in> set (sv_identities tables)"
  using assms by (auto simp: LookupNamespaceTargetTx_def Let_def find_Some_iff split: if_splits option.splits) (metis nth_mem)

interpretation server_names: namespace_registry servers_valid servers_grow LookupNamespaceTargetTx LookupStoredGrantNamespaceTx
proof unfold_locales
  fix s n and target :: NamespaceTarget
  assume "LookupNamespaceTargetTx s n = Inr target"
  then show "ns_Namespace target = n \<and> n \<noteq> SyntheticServerNamespace"
    using lookup_found by blast
next
  fix s s' n and target :: NamespaceTarget
  assume "servers_valid s'" and "servers_grow s s'" and found: "LookupNamespaceTargetTx s n = Inr target" and "ns_ID target \<noteq> SyntheticServerID"
  moreover from lookup_found [OF found] have "(ns_ID target, n) \<in> set (sv_identities s)" "validRequestNamespace n" "n \<noteq> SyntheticServerNamespace"
      "validOpaqueID (ns_ID target)"
    by simp_all
  ultimately show "LookupStoredGrantNamespaceTx s' (ns_ID target) = Inr (Some n)"
    by (auto simp: LookupStoredGrantNamespaceTx_def servers_valid_def servers_grow_def map_of_is_SomeI dest!: subsetD)
qed

end
