(* ===== verification/Credentials.thy ===== *)
theory Credentials
  imports Authority_Tables
begin

text \<open>
  Agent credentials: \<open>prepareCredential\<close> and \<open>agentVerifierForBearer\<close> of \<open>credential_mutations.go\<close>, the bearer
  syntax and the search for the credential a bearer belongs to of \<open>authentication.go\<close>, and the check that a
  binding is still current, \<open>verifyCurrentBindingTx\<close> of \<open>admission.go\<close>.

  SHA-256 is the parameter \<open>sha256\<close> on byte strings. Base 64 is the unpadded URL alphabet; the decoder reads only
  what the encoder writes, since \<open>validAgentBearer\<close> encodes what it decoded and compares.
\<close>

subsection \<open>Base 64\<close>

definition base64_alphabet :: string where
  "base64_alphabet = ''ABCDEFGHIJKLMNOPQRSTUVWXYZabcdefghijklmnopqrstuvwxyz0123456789-_''"

definition base64_symbol :: "nat \<Rightarrow> char" where
  "base64_symbol n = base64_alphabet ! (n mod 64)"

fun base64_encode :: "string \<Rightarrow> string" where
  "base64_encode [] = []"
| "base64_encode [a] = [base64_symbol (byte_val a div 4), base64_symbol (byte_val a mod 4 * 16)]"
| "base64_encode [a, b] =
     [base64_symbol (byte_val a div 4), base64_symbol (byte_val a mod 4 * 16 + byte_val b div 16),
      base64_symbol (byte_val b mod 16 * 4)]"
| "base64_encode (a # b # c # rest) =
     base64_symbol (byte_val a div 4) # base64_symbol (byte_val a mod 4 * 16 + byte_val b div 16) #
     base64_symbol (byte_val b mod 16 * 4 + byte_val c div 64) # base64_symbol (byte_val c mod 64) # base64_encode rest"

fun index_in :: "char \<Rightarrow> string \<Rightarrow> nat option" where
  "index_in c [] = None"
| "index_in c (x # xs) = (if c = x then Some 0 else map_option Suc (index_in c xs))"

fun base64_decode :: "string \<Rightarrow> string option" where
  "base64_decode [] = Some []"
| "base64_decode [_] = None"
| "base64_decode [p, q] =
     (case (index_in p base64_alphabet, index_in q base64_alphabet) of
        (Some i, Some j) \<Rightarrow> Some [char_of (i * 4 + j div 16)]
      | _ \<Rightarrow> None)"
| "base64_decode [p, q, r] =
     (case (index_in p base64_alphabet, index_in q base64_alphabet, index_in r base64_alphabet) of
        (Some i, Some j, Some k) \<Rightarrow> Some [char_of (i * 4 + j div 16), char_of (j mod 16 * 16 + k div 4)]
      | _ \<Rightarrow> None)"
| "base64_decode (p # q # r # s # rest) =
     (case (index_in p base64_alphabet, index_in q base64_alphabet, index_in r base64_alphabet,
            index_in s base64_alphabet, base64_decode rest) of
        (Some i, Some j, Some k, Some l, Some decoded) \<Rightarrow>
          Some (char_of (i * 4 + j div 16) # char_of (j mod 16 * 16 + k div 4) # char_of (k mod 4 * 64 + l) # decoded)
      | _ \<Rightarrow> None)"

definition hex_encode :: "string \<Rightarrow> string" where
  "hex_encode s = concat (map (\<lambda>c. [hex_digits ! (byte_val c div 16), hex_digits ! (byte_val c mod 16)]) s)"

subsection \<open>Issuing\<close>

definition AgentBearerPrefix :: string where "AgentBearerPrefix = ''mgw_agent_''"
definition AdminBearerPrefix :: string where "AdminBearerPrefix = ''mgw_admin_''"
definition agentBearerEntropyBytes :: nat where "agentBearerEntropyBytes = 32"

record credentialCandidate =
  cand_id :: string
  cand_bearer :: string
  cand_verifier :: string
  cand_fingerprint :: string
  cand_createdAt :: string

definition byte_text :: "byte list \<Rightarrow> string" where
  "byte_text bytes = map (\<lambda>b. char_of (unat b)) bytes"

definition agentVerifierForBearer :: "(string \<Rightarrow> string) \<Rightarrow> string \<Rightarrow> string" where
  "agentVerifierForBearer sha256 bearer = sha256 (''mcp-gateway/agent-verifier/v1'' @ [CHR 0x00] @ bearer)"

definition prepareCredential ::
  "(string \<Rightarrow> string) \<Rightarrow> instant \<Rightarrow> byte list \<Rightarrow> auth_error + credentialCandidate \<times> byte list" where
  "prepareCredential sha256 now entropy =
     (case ReadFull agentBearerEntropyBytes entropy of
        None \<Rightarrow> Inl ErrStorageUnavailable
      | Some (secret, entropy1) \<Rightarrow>
          (case newID now entropy1 of
             Inl e \<Rightarrow> Inl (if e = ErrIdentityUnavailable then e else ErrStorageUnavailable)
           | Inr (credentialID, entropy2) \<Rightarrow>
               let bearer = AgentBearerPrefix @ base64_encode (byte_text secret);
                   verifier = agentVerifierForBearer sha256 bearer;
                   digest = sha256 (''mcp-gateway/agent-fingerprint/v1'' @ [CHR 0x00] @ verifier) in
               Inr (\<lparr>cand_id = credentialID, cand_bearer = bearer, cand_verifier = verifier,
                     cand_fingerprint = hex_encode (take 8 digest), cand_createdAt = FormatCanonical now\<rparr>, entropy2)))"

subsection \<open>Authentication\<close>

record CredentialBinding =
  cb_PrincipalID :: string
  cb_PrincipalRevision :: string
  cb_Visibility :: string
  cb_CredentialID :: string
  cb_CredentialRevision :: string
  cb_CredentialFingerprint :: string

definition row_binding :: "principal_row \<Rightarrow> CredentialBinding" where
  "row_binding row =
     \<lparr>cb_PrincipalID = pr_id row, cb_PrincipalRevision = FormatInt (pr_revision row), cb_Visibility = pr_visibility row,
      cb_CredentialID = the (pr_credentialID row), cb_CredentialRevision = FormatInt (pr_credentialRevision row),
      cb_CredentialFingerprint = the (pr_fingerprint row)\<rparr>"

definition validAgentBearer :: "string \<Rightarrow> bool" where
  "validAgentBearer bearer \<longleftrightarrow>
     HasPrefix bearer AgentBearerPrefix \<and>
     (let encoded = TrimPrefix bearer AgentBearerPrefix in
      case base64_decode encoded of
        None \<Rightarrow> False
      | Some decoded \<Rightarrow> length decoded = agentBearerEntropyBytes \<and> base64_encode decoded = encoded)"

text \<open>The loop of \<open>loadAuthenticationCandidates\<close>: the rows that hold a credential, with their verifiers.\<close>

fun load_candidates ::
  "int \<Rightarrow> int \<Rightarrow> int \<Rightarrow> principal_row list \<Rightarrow> auth_error + (CredentialBinding \<times> string) list" where
  "load_candidates maximum seen previous [] = Inr []"
| "load_candidates maximum seen previous (row # rows) =
     (if seen \<ge> maximum then Inl ErrAuthorizationUnavailable
      else if pr_sequence row \<le> previous \<or> \<not> validOpaqueID (pr_id row) \<or> \<not> validPrincipalState (pr_state row)
              \<or> \<not> validVisibility (pr_visibility row) \<or> pr_revision row < 1 \<or> pr_credentialRevision row < 0
      then Inl ErrAuthorizationUnavailable
      else
        (case (canonicalTimestamp (pr_createdAt row), canonicalTimestamp (pr_updatedAt row)) of
           (Some created, Some updated) \<Rightarrow>
             if updated < created then Inl ErrAuthorizationUnavailable
             else if slot_present row \<noteq> slot_complete row \<or> slot_complete row \<and> pr_credentialRevision row = 0
             then Inl ErrAuthorizationUnavailable
             else if slot_complete row \<and>
                     (pr_state row \<noteq> PrincipalState_string PrincipalActive \<or> \<not> issued_between row created updated)
             then Inl ErrAuthorizationUnavailable
             else
               (case load_candidates maximum (seen + 1) (pr_sequence row) rows of
                  Inl e \<Rightarrow> Inl e
                | Inr candidates \<Rightarrow>
                    Inr (if slot_complete row then (row_binding row, the (pr_verifier row)) # candidates else candidates))
         | _ \<Rightarrow> Inl ErrAuthorizationUnavailable))"

definition loadAuthenticationCandidates :: "authority_db \<Rightarrow> auth_error + (CredentialBinding \<times> string) list" where
  "loadAuthenticationCandidates db =
     (let maximum = mustLimit ''principals'' in
      load_candidates maximum 0 0 (take (nat (maximum + 1)) (sort_key pr_sequence (sort_key pr_id (db_principals db)))))"

definition authenticateBinding ::
  "(string \<Rightarrow> string) \<Rightarrow> bool \<times> bool \<times> bool \<Rightarrow> authority_db \<Rightarrow> string \<Rightarrow> auth_error + CredentialBinding" where
  "authenticateBinding sha256 latches db bearer =
     (if HasPrefix bearer AdminBearerPrefix then Inl ErrCredentialDomainMismatch
      else if \<not> validAgentBearer bearer then Inl ErrAuthenticationRequired
      else
        let verifier = agentVerifierForBearer sha256 bearer;
            matched = (case loadAuthenticationCandidates db of
               Inl e \<Rightarrow> Inl e
             | Inr candidates \<Rightarrow>
                 let matches = filter (\<lambda>candidate. snd candidate = verifier) candidates in
                 if length matches > 1 then Inl ErrAuthorizationUnavailable else Inr (map fst matches)) in
        (case latches of (before, inside, after) \<Rightarrow>
           (case view before inside after matched of
              Inl e \<Rightarrow> Inl e
            | Inr [] \<Rightarrow> Inl ErrAuthenticationRequired
            | Inr (binding # _) \<Rightarrow> Inr binding)))"

subsection \<open>A binding that is still current\<close>

definition verifyCurrentBindingTx :: "authority_db \<Rightarrow> CredentialBinding \<Rightarrow> auth_error + unit" where
  "verifyCurrentBindingTx db binding =
     (case principal_by_id (cb_PrincipalID binding) db of
        None \<Rightarrow> Inl ErrAuthenticationRequired
      | Some row \<Rightarrow>
          (case (canonicalTimestamp (pr_createdAt row), canonicalTimestamp (pr_updatedAt row)) of
             (Some created, Some updated) \<Rightarrow>
               if \<not> validOpaqueID (pr_id row) \<or> \<not> validPrincipalState (pr_state row) \<or> \<not> validVisibility (pr_visibility row)
                  \<or> pr_revision row < 1 \<or> pr_credentialRevision row < 0 \<or> updated < created
                  \<or> slot_present row \<noteq> slot_complete row \<or> slot_complete row \<and> pr_credentialRevision row = 0
               then Inl ErrAuthorizationUnavailable
               else if pr_state row \<noteq> PrincipalState_string PrincipalActive \<or> \<not> slot_complete row
               then (if slot_complete row then Inl ErrAuthorizationUnavailable else Inl ErrAuthenticationRequired)
               else if \<not> issued_between row created updated then Inl ErrAuthorizationUnavailable
               else if row_binding row \<noteq> binding then Inl ErrAuthenticationRequired
               else Inr ()
           | _ \<Rightarrow> Inl ErrAuthorizationUnavailable))"

subsection \<open>Bearers are well-formed\<close>

lemma base64_alphabet_facts: "length base64_alphabet = 64" "distinct base64_alphabet"
  by (simp_all add: base64_alphabet_def)

lemma index_in_nth: "distinct xs \<Longrightarrow> i < length xs \<Longrightarrow> index_in (xs ! i) xs = Some i"
proof (induction xs arbitrary: i)
  case (Cons x xs)
  then show ?case by (cases i) auto
qed simp

lemma index_symbol: "n < 64 \<Longrightarrow> index_in (base64_symbol n) base64_alphabet = Some n"
  using index_in_nth base64_alphabet_facts by (simp add: base64_symbol_def)

lemma char_byte_bound: "(byte_val c :: nat) < 256"
  by (metis of_char_mod_256 mod_less_divisor zero_less_numeral)

lemma sextets:
  fixes a b c :: nat
  assumes "a < 256" and "b < 256" and "c < 256"
  shows "a div 4 < 64" "a mod 4 * 16 < 64" "a mod 4 * 16 + b div 16 < 64" "b mod 16 * 4 < 64" "b mod 16 * 4 + c div 64 < 64" "c mod 64 < 64"
    "a div 4 * 4 + (a mod 4 * 16) div 16 = a" "a div 4 * 4 + (a mod 4 * 16 + b div 16) div 16 = a"
    "(a mod 4 * 16 + b div 16) mod 16 * 16 + (b mod 16 * 4) div 4 = b"
    "(a mod 4 * 16 + b div 16) mod 16 * 16 + (b mod 16 * 4 + c div 64) div 4 = b"
    "(b mod 16 * 4 + c div 64) mod 4 * 64 + c mod 64 = c"
proof -
  have d: "b div 16 < 16" "c div 64 < 4"
    using assms by (auto intro: less_mult_imp_div_less)
  have m: "a mod 4 < 4" "b mod 16 < 16"
    by simp_all
  show "a div 4 < 64"
    using assms(1) by (auto intro: less_mult_imp_div_less)
  show "a mod 4 * 16 < 64" "a mod 4 * 16 + b div 16 < 64" "b mod 16 * 4 < 64" "b mod 16 * 4 + c div 64 < 64"
    using d m by linarith+
  show "a div 4 * 4 + (a mod 4 * 16 + b div 16) div 16 = a" "(a mod 4 * 16 + b div 16) mod 16 * 16 + (b mod 16 * 4) div 4 = b"
      "(a mod 4 * 16 + b div 16) mod 16 * 16 + (b mod 16 * 4 + c div 64) div 4 = b" "(b mod 16 * 4 + c div 64) mod 4 * 64 + c mod 64 = c"
    using d by simp_all
qed simp_all

lemma base64_decode_encode: "base64_decode (base64_encode s) = Some s"
proof (induction s rule: base64_encode.induct)
  case (2 a)
  note bits = sextets [OF char_byte_bound [of a] char_byte_bound [of a] char_byte_bound [of a]]
  show ?case
    by (simp only: base64_encode.simps base64_decode.simps index_symbol [OF bits(1)] index_symbol [OF bits(2)]
        prod.case option.case bits(7) char_of_char)
next
  case (3 a b)
  note bits = sextets [OF char_byte_bound [of a] char_byte_bound [of b] char_byte_bound [of b]]
  show ?case
    by (simp only: base64_encode.simps base64_decode.simps index_symbol [OF bits(1)] index_symbol [OF bits(3)]
        index_symbol [OF bits(4)] prod.case option.case bits(8,9) char_of_char)
next
  case (4 a b c rest)
  note bits = sextets [OF char_byte_bound [of a] char_byte_bound [of b] char_byte_bound [of c]]
  show ?case
    by (simp only: base64_encode.simps base64_decode.simps index_symbol [OF bits(1)] index_symbol [OF bits(3)]
        index_symbol [OF bits(5)] index_symbol [OF bits(6)] 4 prod.case option.case bits(8,10,11) char_of_char)
qed simp

lemma prepared_bearer_valid:
  assumes "length secret = 32"
  shows "validAgentBearer (AgentBearerPrefix @ base64_encode (byte_text secret))"
    and "\<not> HasPrefix (AgentBearerPrefix @ base64_encode (byte_text secret)) AdminBearerPrefix"
  using assms by (simp_all add: validAgentBearer_def HasPrefix_def TrimPrefix_def AgentBearerPrefix_def AdminBearerPrefix_def
      base64_decode_encode byte_text_def agentBearerEntropyBytes_def)

end
