(* ===== verification/Authority_Mutations.thy ===== *)
theory Authority_Mutations
  imports Credentials
begin

text \<open>
  The mutations of \<open>internal/authorization\<close>: principals (\<open>principal_mutations.go\<close>), their credentials
  (\<open>credential_mutations.go\<close>) and MCP grants (\<open>grant_mutations.go\<close>). Each operation checks its request, prepares
  identities and timestamps, and runs one transaction through \<open>Store.mutate\<close>; the authority gate around it is in
  the theory of the leases. Every place that reads the clock has its own argument: \<open>now\<close>, and \<open>stamp\<close> for the
  reading inside the transaction.
\<close>

subsection \<open>Requests\<close>

record CreatePrincipalRequest =
  cpr_HTTPDefault :: "string option"
  cpr_DisplayName :: string
  cpr_Visibility :: string

record PatchPrincipalRequest =
  ppr_HTTPDefault :: "string option"
  ppr_ExpectedRevision :: string
  ppr_DisplayName :: "string option"
  ppr_State :: "string option"
  ppr_Visibility :: "string option"

record CreateGrantRequest =
  cgr_ReadOnly :: bool
  cgr_Description :: "string option"
  cgr_PrincipalID :: string
  cgr_Effect :: string
  cgr_Target :: MCP
  cgr_Constraint :: "string option"
  cgr_ExpiresAt :: "instant option"

record PatchGrantRequest =
  pgr_ExpectedRevision :: string
  pgr_Description :: "string option option"

text \<open>A mutation of the store, with its error mapped.\<close>

definition mutate_mapped ::
  "driver \<Rightarrow> 'a authority_tx \<Rightarrow> authority_state store \<Rightarrow> (auth_error + 'a) \<times> authority_state store" where
  "mutate_mapped dr tx store =
     (case mutate dr isStorageFailure tx store of (r, store') \<Rightarrow> (map_sum mapMutationError id r, store'))"

definition update_principal :: "string \<Rightarrow> (principal_row \<Rightarrow> principal_row) \<Rightarrow> authority_state \<Rightarrow> authority_state" where
  "update_principal principalID f st =
     st\<lparr>st_db := (st_db st)\<lparr>db_principals :=
        map (\<lambda>row. if pr_id row = principalID then f row else row) (db_principals (st_db st))\<rparr>\<rparr>"

definition clear_credential :: "principal_row \<Rightarrow> principal_row" where
  "clear_credential row =
     row\<lparr>pr_credentialID := None, pr_verifier := None, pr_fingerprint := None, pr_credentialAt := None\<rparr>"

subsection \<open>Principals\<close>

definition default_policies :: "string list" where
  "default_policies = [''allow'', ''block'']"

definition insert_principal :: "string \<Rightarrow> CreatePrincipalRequest \<Rightarrow> string \<Rightarrow> authority_state \<Rightarrow> tx_error + authority_state" where
  "insert_principal principalID request timestamp st =
     (case increment (st_principal_sequence st) of
        Inl _ \<Rightarrow> Inl TxStorage
      | Inr sequence \<Rightarrow>
          let row = \<lparr>pr_sequence = sequence, pr_id = principalID, pr_displayName = cpr_DisplayName request,
                     pr_state = ''active'', pr_visibility = cpr_Visibility request, pr_revision = 1, pr_credentialRevision = 0,
                     pr_credentialID = None, pr_verifier = None, pr_fingerprint = None, pr_credentialAt = None,
                     pr_createdAt = timestamp, pr_updatedAt = timestamp\<rparr>;
              policy = (if cpr_HTTPDefault request = Some ''allow'' then ''allow'' else ''block'') in
          Inr (st\<lparr>st_db := (st_db st)\<lparr>db_principals := db_principals (st_db st) @ [row]\<rparr>,
                  st_principal_sequence := sequence,
                  st_defaults := st_defaults st @ [(principalID, policy, 1)]\<rparr>))"

definition insert_grant :: "grant_row \<Rightarrow> authority_state \<Rightarrow> tx_error + authority_state" where
  "insert_grant row st =
     (case increment (st_grant_sequence st) of
        Inl _ \<Rightarrow> Inl TxStorage
      | Inr sequence \<Rightarrow>
          Inr (st\<lparr>st_db := (st_db st)\<lparr>db_grants := db_grants (st_db st) @ [row\<lparr>row_sequence := sequence\<rparr>]\<rparr>,
                  st_grant_sequence := sequence\<rparr>))"

definition DefaultGrantName :: string where
  "DefaultGrantName = ''Default Gateway access''"

definition default_grant :: "string \<Rightarrow> string \<Rightarrow> string \<Rightarrow> grant_row" where
  "default_grant grantID principalID timestamp =
     \<lparr>row_sequence = 0, row_id = grantID, row_description = Some DefaultGrantName, row_revision = ''1'',
      row_principal = principalID, row_effect = ''allow'', row_server = SyntheticServerID, row_upstream = None,
      row_constraint = None, row_expires = None, row_created = timestamp, row_readOnly = False, row_imported = False\<rparr>"

definition create_principal_tx ::
  "audit_tables \<Rightarrow> (string \<Rightarrow> bool) \<Rightarrow> string \<Rightarrow> string \<Rightarrow> instant \<Rightarrow> CreatePrincipalRequest \<Rightarrow> (Principal \<times> mcp_Grant) authority_tx" where
  "create_principal_tx audit readable principalID grantID now request st =
     (case checkPrincipalCreationCapacity st of
        Inl e \<Rightarrow> Inl e
      | Inr _ \<Rightarrow>
          if (\<exists>row \<in> set (db_principals (st_db st)). pr_id row = principalID) \<or>
             (\<exists>row \<in> set (db_grants (st_db st)). row_id row = grantID)
          then Inl (TxError ErrIdentityUnavailable)
          else
            (case insert_principal principalID request (FormatCanonical now) st of
               Inl e \<Rightarrow> Inl e
             | Inr st1 \<Rightarrow>
                 (case insert_grant (default_grant grantID principalID (FormatCanonical now)) st1 of
                    Inl e \<Rightarrow> Inl e
                  | Inr st2 \<Rightarrow>
                      (case advanceAuthorizationRevisionTx st2 of
                         Inl e \<Rightarrow> Inl e
                       | Inr st3 \<Rightarrow>
                           (case principalByIDTx principalID st3 of
                              Inl e \<Rightarrow> Inl e
                            | Inr p \<Rightarrow>
                                (case grantByIDTx readable now grantID st3 of
                                   Inl e \<Rightarrow> Inl e
                                 | Inr grant \<Rightarrow>
                                     (case audit_MutationTx audit False ''principal'' ''create'' principalID st3 of
                                        Inl e \<Rightarrow> Inl e
                                      | Inr st4 \<Rightarrow>
                                          map_sum id (Pair (p, grant))
                                            (audit_MutationTx audit True ''grant'' ''create'' grantID st4))))))))"

definition CreatePrincipal ::
  "audit_tables \<Rightarrow> (string \<Rightarrow> bool) \<Rightarrow> driver \<Rightarrow> CreatePrincipalRequest \<Rightarrow> instant \<Rightarrow> byte list \<Rightarrow> authority_state store \<Rightarrow>
     (auth_error + Principal \<times> mcp_Grant) \<times> authority_state store" where
  "CreatePrincipal audit readable dr request now entropy store =
     (if \<not> validDisplayName (cpr_DisplayName request) \<or> \<not> validVisibility (cpr_Visibility request) \<or>
         (case cpr_HTTPDefault request of None \<Rightarrow> False | Some policy \<Rightarrow> policy \<notin> set default_policies)
      then (Inl ErrInvalidInput, store)
      else
        (case newID now entropy of
           Inl e \<Rightarrow> (Inl e, store)
         | Inr (principalID, entropy1) \<Rightarrow>
             (case newID now entropy1 of
                Inl e \<Rightarrow> (Inl e, store)
              | Inr (grantID, _) \<Rightarrow>
                  if principalID = grantID then (Inl ErrIdentityUnavailable, store)
                  else mutate_mapped dr (create_principal_tx audit readable principalID grantID now request) store)))"

definition given :: "'a option \<Rightarrow> 'a \<Rightarrow> 'a" where
  "given requested current = (case requested of None \<Rightarrow> current | Some value \<Rightarrow> value)"

text \<open>The row a patch writes: every increment can be refused by the table.\<close>

definition patched_row ::
  "string \<Rightarrow> string \<Rightarrow> string \<Rightarrow> bool \<Rightarrow> string \<Rightarrow> principal_row \<Rightarrow> principal_row" where
  "patched_row displayName state visibility disabling stamp row =
     (let renamed = row\<lparr>pr_displayName := displayName, pr_state := state, pr_visibility := visibility,
                        pr_revision := pr_revision row + 1, pr_updatedAt := stamp\<rparr> in
      if disabling then clear_credential (renamed\<lparr>pr_credentialRevision := pr_credentialRevision row + 1\<rparr>) else renamed)"

definition can_increment :: "bool \<Rightarrow> principal_row \<Rightarrow> bool" where
  "can_increment credential row \<longleftrightarrow>
     pr_revision row < 2 ^ 63 - 1 \<and> (credential \<longrightarrow> pr_credentialRevision row < 2 ^ 63 - 1)"

definition update_default :: "string \<Rightarrow> string \<Rightarrow> authority_state \<Rightarrow> tx_error + authority_state" where
  "update_default principalID policy st =
     (case map_of (st_defaults st) principalID of
        None \<Rightarrow> Inl (TxError ErrInvalidState)
      | Some (_, revision) \<Rightarrow>
          map_sum id (\<lambda>n. st\<lparr>st_defaults :=
              map (\<lambda>(key, old). if key = principalID then (key, policy, n) else (key, old)) (st_defaults st)\<rparr>)
            (increment revision))"

definition patch_finish ::
  "audit_tables \<Rightarrow> string \<Rightarrow> Principal \<Rightarrow> bool \<Rightarrow> bool \<Rightarrow> bool \<Rightarrow> string \<Rightarrow> authority_state \<Rightarrow> tx_error + Principal \<times> authority_state" where
  "patch_finish audit principalID current stateChanged defaultChanged disabling httpDefault st =
     (case (if defaultChanged
            then (case update_default principalID httpDefault st of
                    Inl e \<Rightarrow> Inl e
                  | Inr st1 \<Rightarrow> audit_MutationTx audit False ''http_default'' ''update'' principalID st1)
            else Inr st) of
        Inl e \<Rightarrow> Inl e
      | Inr st2 \<Rightarrow>
          (case (if stateChanged \<or> defaultChanged then advanceAuthorizationRevisionTx st2 else Inr st2) of
             Inl e \<Rightarrow> Inl e
           | Inr st3 \<Rightarrow>
               (case principalByIDTx principalID st3 of
                  Inl e \<Rightarrow> Inl e
                | Inr updated \<Rightarrow>
                    (case (case (disabling, p_Credential current) of
                             (True, Some credential) \<Rightarrow>
                               audit_MutationTx audit True ''agent_credential'' ''invalidate'' (ac_ID credential) st3
                           | _ \<Rightarrow> Inr st3) of
                       Inl e \<Rightarrow> Inl e
                     | Inr st4 \<Rightarrow>
                         map_sum id (Pair updated) (audit_MutationTx audit False ''principal'' ''update'' principalID st4)))))"

definition patch_principal_tx ::
  "audit_tables \<Rightarrow> string \<Rightarrow> int \<Rightarrow> PatchPrincipalRequest \<Rightarrow> instant \<Rightarrow> Principal authority_tx" where
  "patch_principal_tx audit principalID expectedRevision request stamp st =
     (case principalByIDTx principalID st of
        Inl e \<Rightarrow> Inl e
      | Inr current \<Rightarrow>
          (case ParseInt (p_Revision current) of
             None \<Rightarrow> Inl (TxError ErrInvalidState)
           | Some currentRevision \<Rightarrow>
               if currentRevision \<noteq> expectedRevision then Inl (TxError ErrStaleRevision)
               else
                 let displayName = given (ppr_DisplayName request) (p_DisplayName current);
                     state = given (ppr_State request) (p_State current);
                     visibility = given (ppr_Visibility request) (p_Visibility current);
                     httpDefault = given (ppr_HTTPDefault request) (p_HTTPDefault current);
                     defaultChanged = (httpDefault \<noteq> p_HTTPDefault current);
                     stateChanged = (state \<noteq> p_State current);
                     disabling = (stateChanged \<and> state = PrincipalState_string PrincipalDisabled) in
                 if displayName = p_DisplayName current \<and> \<not> stateChanged \<and> visibility = p_Visibility current \<and> \<not> defaultChanged
                 then Inl (TxError ErrConflict)
                 else if \<not> list_all (\<lambda>row. pr_id row = principalID \<longrightarrow> can_increment disabling row) (db_principals (st_db st))
                 then Inl TxUnclassified
                 else patch_finish audit principalID current stateChanged defaultChanged disabling httpDefault
                        (update_principal principalID
                          (patched_row displayName state visibility disabling (FormatCanonical stamp)) st)))"

definition patch_request_valid :: "PatchPrincipalRequest \<Rightarrow> bool" where
  "patch_request_valid request \<longleftrightarrow>
     \<not> (ppr_DisplayName request = None \<and> ppr_State request = None \<and> ppr_Visibility request = None \<and> ppr_HTTPDefault request = None) \<and>
     pred_option validDisplayName (ppr_DisplayName request) \<and> pred_option validPrincipalState (ppr_State request) \<and>
     pred_option validVisibility (ppr_Visibility request) \<and>
     pred_option (\<lambda>policy. policy \<in> set default_policies) (ppr_HTTPDefault request)"

definition PatchPrincipal ::
  "audit_tables \<Rightarrow> driver \<Rightarrow> string \<Rightarrow> PatchPrincipalRequest \<Rightarrow> instant \<Rightarrow> authority_state store \<Rightarrow>
     (auth_error + Principal) \<times> authority_state store" where
  "PatchPrincipal audit dr principalID request stamp store =
     (case parseExpectedRevision (ppr_ExpectedRevision request) of
        Inl _ \<Rightarrow> (Inl ErrInvalidInput, store)
      | Inr expectedRevision \<Rightarrow>
          if \<not> patch_request_valid request then (Inl ErrInvalidInput, store)
          else mutate_mapped dr (patch_principal_tx audit principalID expectedRevision request stamp) store)"

subsection \<open>Credentials\<close>

definition view_error :: "tx_error \<Rightarrow> auth_error" where
  "view_error err =
     (case err of
        TxError UnclassifiedError \<Rightarrow> ErrStorageUnavailable
      | TxError e \<Rightarrow> e
      | TxNoRows \<Rightarrow> ErrNotFound
      | _ \<Rightarrow> ErrStorageUnavailable)"

definition credentialMutationPreflight ::
  "bool \<times> bool \<times> bool \<Rightarrow> authority_state \<Rightarrow> string \<Rightarrow> int \<Rightarrow> auth_error + Principal \<times> int" where
  "credentialMutationPreflight latches st principalID expectedRevision =
     (case latches of (before, inside, after) \<Rightarrow>
        (case view before inside after (map_sum view_error id (principalByIDTx principalID st)) of
           Inl e \<Rightarrow> Inl e
         | Inr current \<Rightarrow>
             (case parsePrincipalRevisions current of
                Inl _ \<Rightarrow> Inl ErrInvalidState
              | Inr (principalRevision, credentialRevision) \<Rightarrow>
                  if principalRevision \<noteq> expectedRevision then Inl ErrStaleRevision
                  else Inr (current, credentialRevision))))"

definition credential_collision :: "credentialCandidate \<Rightarrow> principal_row \<Rightarrow> bool" where
  "credential_collision candidate row \<longleftrightarrow>
     pr_credentialID row = Some (cand_id candidate) \<or> pr_verifier row = Some (cand_verifier candidate) \<or>
     pr_fingerprint row = Some (cand_fingerprint candidate)"

definition issued_row :: "credentialCandidate \<Rightarrow> principal_row \<Rightarrow> principal_row" where
  "issued_row candidate row =
     row\<lparr>pr_revision := pr_revision row + 1, pr_credentialRevision := pr_credentialRevision row + 1,
         pr_credentialID := Some (cand_id candidate), pr_verifier := Some (cand_verifier candidate),
         pr_fingerprint := Some (cand_fingerprint candidate), pr_credentialAt := Some (cand_createdAt candidate),
         pr_updatedAt := cand_createdAt candidate\<rparr>"

definition issue_credential_tx ::
  "audit_tables \<Rightarrow> string \<Rightarrow> int \<Rightarrow> int \<Rightarrow> credentialCandidate \<Rightarrow> (Principal \<times> string) authority_tx" where
  "issue_credential_tx audit principalID expected currentCredentialRevision candidate st =
     (case principalByIDTx principalID st of
        Inl e \<Rightarrow> Inl e
      | Inr current \<Rightarrow>
          (case parsePrincipalRevisions current of
             Inl e \<Rightarrow> Inl e
           | Inr (principalRevision, credentialRevision) \<Rightarrow>
               if principalRevision \<noteq> expected \<or> credentialRevision \<noteq> currentCredentialRevision then Inl (TxError ErrStaleRevision)
               else if p_State current \<noteq> PrincipalState_string PrincipalActive then Inl (TxError ErrConflict)
               else if list_ex (credential_collision candidate) (db_principals (st_db st)) then Inl (TxError ErrIdentityUnavailable)
               else
                 let st1 = update_principal principalID (issued_row candidate) st in
                 (case principalByIDTx principalID st1 of
                    Inl e \<Rightarrow> Inl e
                  | Inr updated \<Rightarrow>
                      (case (case p_Credential current of
                               None \<Rightarrow> Inr st1
                             | Some old \<Rightarrow> audit_MutationTx audit True ''agent_credential'' ''invalidate'' (ac_ID old) st1) of
                         Inl e \<Rightarrow> Inl e
                       | Inr st2 \<Rightarrow>
                           map_sum id (Pair (updated, cand_bearer candidate))
                             (audit_MutationTx audit False ''agent_credential'' ''issue'' (cand_id candidate) st2)))))"

definition valid_credential_candidate :: "string \<Rightarrow> string \<Rightarrow> int \<Rightarrow> int \<Rightarrow> bool" where
  "valid_credential_candidate principalID credentialID principalRevision credentialRevision \<longleftrightarrow>
     validOpaqueID principalID \<and> validOpaqueID credentialID \<and>
     principalRevision > 0 \<and> principalRevision < 2 ^ 63 - 1 \<and> credentialRevision > 0 \<and> credentialRevision < 2 ^ 63 - 1"

text \<open>The preflight reads the state \<open>earlier\<close>; other mutations may run before the transaction does.\<close>

definition IssueCredential ::
  "audit_tables \<Rightarrow> (string \<Rightarrow> string) \<Rightarrow> driver \<Rightarrow> bool \<times> bool \<times> bool \<Rightarrow> authority_state \<Rightarrow> string \<Rightarrow> string \<Rightarrow> instant \<Rightarrow> byte list \<Rightarrow>
     authority_state store \<Rightarrow> (auth_error + Principal \<times> string) \<times> authority_state store" where
  "IssueCredential audit sha256 dr latches earlier principalID expectedRevision now entropy store =
     (case parseExpectedRevision expectedRevision of
        Inl e \<Rightarrow> (Inl e, store)
      | Inr expected \<Rightarrow>
          (case credentialMutationPreflight latches earlier principalID expected of
             Inl e \<Rightarrow> (Inl e, store)
           | Inr (current, currentCredentialRevision) \<Rightarrow>
               if p_State current \<noteq> PrincipalState_string PrincipalActive \<or> expected \<ge> 2 ^ 63 - 2 \<or>
                  currentCredentialRevision \<ge> 2 ^ 63 - 2
               then (Inl ErrConflict, store)
               else
                 (case prepareCredential sha256 now entropy of
                    Inl e \<Rightarrow> (Inl e, store)
                  | Inr (candidate, _) \<Rightarrow>
                      if \<not> valid_credential_candidate principalID (cand_id candidate) (expected + 1) (currentCredentialRevision + 1)
                      then (Inl ErrStorageUnavailable, store)
                      else mutate_mapped dr
                             (issue_credential_tx audit principalID expected currentCredentialRevision candidate) store)))"

definition revoked_row :: "string \<Rightarrow> principal_row \<Rightarrow> principal_row" where
  "revoked_row stamp row =
     clear_credential (row\<lparr>pr_revision := pr_revision row + 1, pr_credentialRevision := pr_credentialRevision row + 1,
                           pr_updatedAt := stamp\<rparr>)"

definition revoke_credential_tx :: "audit_tables \<Rightarrow> string \<Rightarrow> int \<Rightarrow> instant \<Rightarrow> Principal authority_tx" where
  "revoke_credential_tx audit principalID expected stamp st =
     (case principalByIDTx principalID st of
        Inl e \<Rightarrow> Inl e
      | Inr current \<Rightarrow>
          (case parsePrincipalRevisions current of
             Inl e \<Rightarrow> Inl e
           | Inr (principalRevision, credentialRevision) \<Rightarrow>
               if principalRevision \<noteq> expected then Inl (TxError ErrStaleRevision)
               else
                 (case p_Credential current of
                    None \<Rightarrow> Inl (TxError ErrConflict)
                  | Some credential \<Rightarrow>
                      if principalRevision = 2 ^ 63 - 1 \<or> credentialRevision = 2 ^ 63 - 1 then Inl (TxError ErrConflict)
                      else
                        let st1 = update_principal principalID (revoked_row (FormatCanonical stamp)) st in
                        (case principalByIDTx principalID st1 of
                           Inl e \<Rightarrow> Inl e
                         | Inr revoked \<Rightarrow>
                             map_sum id (Pair revoked)
                               (audit_MutationTx audit False ''agent_credential'' ''revoke'' (ac_ID credential) st1)))))"

definition RevokeCredential ::
  "audit_tables \<Rightarrow> driver \<Rightarrow> string \<Rightarrow> string \<Rightarrow> instant \<Rightarrow> authority_state store \<Rightarrow> (auth_error + Principal) \<times> authority_state store" where
  "RevokeCredential audit dr principalID expectedRevision stamp store =
     (case parseExpectedRevision expectedRevision of
        Inl e \<Rightarrow> (Inl e, store)
      | Inr expected \<Rightarrow> mutate_mapped dr (revoke_credential_tx audit principalID expected stamp) store)"

subsection \<open>Grants\<close>

definition grant_request_valid :: "CreateGrantRequest \<Rightarrow> bool" where
  "grant_request_valid request \<longleftrightarrow>
     validGrantDescription (cgr_Description request) \<and> validOpaqueID (cgr_PrincipalID request) \<and>
     validOpaqueID (ServerID (cgr_Target request)) \<and> validGrantEffect (cgr_Effect request) \<and>
     pred_option validUpstreamName (UpstreamName (cgr_Target request)) \<and>
     \<not> (UpstreamName (cgr_Target request) = None \<and> cgr_Constraint request \<noteq> None) \<and>
     \<not> (cgr_ReadOnly request \<and> (cgr_Effect request \<noteq> GrantEffect_string GrantAllow \<or>
         UpstreamName (cgr_Target request) \<noteq> None \<or> cgr_Constraint request \<noteq> None))"

definition grant_record :: "CreateGrantRequest \<Rightarrow> string \<Rightarrow> instant \<Rightarrow> grant_row" where
  "grant_record request grantID now =
     \<lparr>row_sequence = 0, row_id = grantID, row_description = cgr_Description request, row_revision = ''1'',
      row_principal = cgr_PrincipalID request, row_effect = cgr_Effect request, row_server = ServerID (cgr_Target request),
      row_upstream = UpstreamName (cgr_Target request), row_constraint = cgr_Constraint request,
      row_expires = map_option FormatCanonical (cgr_ExpiresAt request), row_created = FormatCanonical now,
      row_readOnly = cgr_ReadOnly request, row_imported = False\<rparr>"

definition create_grant_tx ::
  "audit_tables \<Rightarrow> (string \<Rightarrow> bool) \<Rightarrow> (string \<Rightarrow> tx_error + bool) \<Rightarrow> string \<Rightarrow> instant \<Rightarrow> CreateGrantRequest \<Rightarrow> mcp_Grant authority_tx" where
  "create_grant_tx audit readable validateTarget grantID now request st =
     (case principalByIDTx (cgr_PrincipalID request) st of
        Inl e \<Rightarrow> Inl (if e = TxNoRows then TxError ErrInvalidInput else e)
      | Inr _ \<Rightarrow>
          if int (length (db_grants (st_db st))) \<ge> mustLimit ''grants'' then Inl (TxError ErrResourceLimit)
          else
            (case validateTarget (ServerID (cgr_Target request)) of
               Inl e \<Rightarrow> Inl e
             | Inr valid \<Rightarrow>
                 if \<not> valid then Inl (TxError ErrInvalidInput)
                 else if list_ex (\<lambda>row. row_id row = grantID) (db_grants (st_db st)) then Inl (TxError ErrIdentityUnavailable)
                 else
                   (case insert_grant (grant_record request grantID now) st of
                      Inl e \<Rightarrow> Inl e
                    | Inr st1 \<Rightarrow>
                        (case advanceAuthorizationRevisionTx st1 of
                           Inl e \<Rightarrow> Inl e
                         | Inr st2 \<Rightarrow>
                             (case grantByIDTx readable now grantID st2 of
                                Inl e \<Rightarrow> Inl e
                              | Inr grant \<Rightarrow>
                                  map_sum id (Pair grant) (audit_MutationTx audit False ''grant'' ''create'' grantID st2))))))"

definition CreateGrant ::
  "audit_tables \<Rightarrow> regex_lib \<Rightarrow> (string \<Rightarrow> bool) \<Rightarrow> (string \<Rightarrow> tx_error + bool) option \<Rightarrow> driver \<Rightarrow> CreateGrantRequest \<Rightarrow> instant \<Rightarrow>
     byte list \<Rightarrow> authority_state store \<Rightarrow> (auth_error + mcp_Grant) \<times> authority_state store" where
  "CreateGrant audit rx readable validateTarget dr request now entropy store =
     (case validateTarget of
        None \<Rightarrow> (Inl ErrInvalidInput, store)
      | Some check \<Rightarrow>
          if \<not> grant_request_valid request then (Inl ErrInvalidInput, store)
          else if \<not> pred_option (\<lambda>source. is_ok (CompileConstraint rx source)) (cgr_Constraint request) then (Inl ErrInvalidInput, store)
          else if \<not> pred_option (\<lambda>expiry. expiry > now) (cgr_ExpiresAt request) then (Inl ErrInvalidInput, store)
          else
            (case newID now entropy of
               Inl e \<Rightarrow> (Inl e, store)
             | Inr (grantID, _) \<Rightarrow>
                 mutate_mapped dr (create_grant_tx audit readable check grantID now request) store))"

definition update_grant :: "string \<Rightarrow> (grant_row \<Rightarrow> grant_row) \<Rightarrow> authority_state \<Rightarrow> authority_state" where
  "update_grant grantID f st =
     st\<lparr>st_db := (st_db st)\<lparr>db_grants :=
        map (\<lambda>row. if row_id row = grantID then f row else row) (db_grants (st_db st))\<rparr>\<rparr>"

text \<open>The revision column holds signed integers, so the driver refuses to write \<open>2^63\<close> or more.\<close>

definition patch_grant_tx ::
  "audit_tables \<Rightarrow> (string \<Rightarrow> bool) \<Rightarrow> (string \<Rightarrow> bool) \<Rightarrow> string \<Rightarrow> string option \<Rightarrow> string \<Rightarrow> instant \<Rightarrow> instant \<Rightarrow> mcp_Grant authority_tx" where
  "patch_grant_tx audit readable readable' grantID description expectedRevision now now' st =
     (case grantByIDTx readable now grantID st of
        Inl e \<Rightarrow> Inl e
      | Inr current \<Rightarrow>
          if g_Revision current \<noteq> expectedRevision then Inl (TxError ErrStaleRevision)
          else if g_Description current = description then Inl (TxError ErrConflict)
          else
            (case ParseUint 10 64 (g_Revision current) of
               None \<Rightarrow> Inl (TxError ErrInvalidState)
             | Some revision \<Rightarrow>
                 if revision = 2 ^ 64 - 1 then Inl (TxError ErrInvalidState)
                 else if revision + 1 \<ge> 2 ^ 63 then Inl TxUnclassified
                 else
                   let st1 = update_grant grantID (\<lambda>row. row\<lparr>row_description := description, row_revision := FormatUint (revision + 1)\<rparr>) st in
                   (case grantByIDTx readable' now' grantID st1 of
                      Inl e \<Rightarrow> Inl e
                    | Inr updated \<Rightarrow>
                        map_sum id (Pair updated) (audit_MutationTx audit False ''grant'' ''update'' grantID st1))))"

definition PatchGrant ::
  "audit_tables \<Rightarrow> (string \<Rightarrow> bool) \<Rightarrow> (string \<Rightarrow> bool) \<Rightarrow> driver \<Rightarrow> string \<Rightarrow> PatchGrantRequest \<Rightarrow> instant \<Rightarrow> instant \<Rightarrow>
     authority_state store \<Rightarrow> (auth_error + mcp_Grant) \<times> authority_state store" where
  "PatchGrant audit readable readable' dr grantID request now now' store =
     (case pgr_Description request of
        None \<Rightarrow> (Inl ErrInvalidInput, store)
      | Some description \<Rightarrow>
          if \<not> validOpaqueID grantID \<or> \<not> validGrantDescription description \<or> \<not> validRevision (pgr_ExpectedRevision request)
          then (Inl ErrInvalidInput, store)
          else mutate_mapped dr
                 (patch_grant_tx audit readable readable' grantID description (pgr_ExpectedRevision request) now now') store)"

definition delete_grant_tx :: "audit_tables \<Rightarrow> (string \<Rightarrow> bool) \<Rightarrow> string \<Rightarrow> instant \<Rightarrow> unit authority_tx" where
  "delete_grant_tx audit readable grantID now st =
     (case grantByIDTx readable now grantID st of
        Inl e \<Rightarrow> Inl e
      | Inr _ \<Rightarrow>
          (case advanceAuthorizationRevisionTx
                  (st\<lparr>st_db := (st_db st)\<lparr>db_grants := filter (\<lambda>row. row_id row \<noteq> grantID) (db_grants (st_db st))\<rparr>\<rparr>) of
             Inl e \<Rightarrow> Inl e
           | Inr st1 \<Rightarrow> map_sum id (Pair ()) (audit_MutationTx audit False ''grant'' ''delete'' grantID st1)))"

definition DeleteGrant ::
  "audit_tables \<Rightarrow> (string \<Rightarrow> bool) \<Rightarrow> driver \<Rightarrow> string \<Rightarrow> instant \<Rightarrow> authority_state store \<Rightarrow> (auth_error + unit) \<times> authority_state store" where
  "DeleteGrant audit readable dr grantID now store =
     (if \<not> validOpaqueID grantID then (Inl ErrNotFound, store)
      else mutate_mapped dr (delete_grant_tx audit readable grantID now) store)"

end
