(* ===== verification/Request_Store.thy ===== *)
theory Request_Store
  imports Grant_Targets Authority_Mutations
begin

text \<open>
  The stored grant requests of \<open>internal/grantrequests\<close>: the row of a request and its reading
  (\<open>reads.go\<close>), the room kept for new requests (\<open>retention.go\<close>), creation (\<open>creation.go\<close>), cancellation and
  rejection (\<open>lifecycle.go\<close>), and approval, which creates the grant in the same transaction
  (\<open>approval.go\<close>, \<open>internal/authorization/request_approval.go\<close>).

  A transaction runs on the tables of authorization and of requests together. Namespaces, tool descriptors
  and, at creation, deny conflicts are read through interfaces, which are parameters here as they are in the
  source; so is the encoding of a descriptor as evidence. The triggers of the request table are part of its insertion, update and
  deletion: the total of the evidence is kept with the rows. Time columns hold texts the code wrote, always in
  UTC, on which \<open>canonicalStoredTime\<close> is \<open>canonicalTimestamp\<close>.
\<close>

datatype request_error =
    ReqNotFound | ReqInvalidInput | ReqIdentityUnavailable | ReqResourceLimit | ReqInvalidState | ReqStaleRevision
  | ReqConflict | ReqStaleCursor | ReqStorageUnavailable | ReqStorageOutcomeUncertain | ReqContext

record approved_columns =
  aq_scope :: "string option"
  aq_target :: "string option"
  aq_constraint :: "string option"
  aq_duration :: "string option"
  aq_acknowledged :: "bool option"

record request_row =
  rq_sequence :: int
  rq_id :: string
  rq_principal :: string
  rq_state :: string
  rq_revision :: int
  rq_server :: string
  rq_upstream :: "string option"
  rq_requested :: grant_Policy
  rq_dedupeVersion :: int
  rq_dedupeBytes :: string
  rq_submittedEvidence :: "string option"
  rq_approved :: approved_columns
  rq_approvedGrantID :: "string option"
  rq_rejectionReason :: "string option"
  rq_approvedEvidence :: "string option"
  rq_createdAt :: string
  rq_updatedAt :: string
  rq_closedAt :: "string option"
  rq_approvedReadOnly :: bool

record request_tables =
  rt_rows :: "request_row list"
  rt_identities :: "(string \<times> string) list"
  rt_sequence :: int
  rt_evidence :: int

record gateway_state =
  gs_authority :: authority_state
  gs_requests :: request_tables

record AgentGrantRequest =
  agr_ID :: string
  agr_State :: GrantRequestState
  agr_Revision :: string
  agr_RequestedPolicy :: grant_Policy
  agr_ApprovedPolicy :: "grant_Policy option"
  agr_ApprovedGrantID :: "string option"
  agr_RejectionReason :: "GrantRequestRejectionReason option"
  agr_CreatedAt :: string
  agr_UpdatedAt :: string
  agr_ClosedAt :: "string option"

definition no_approved :: approved_columns where
  "no_approved = \<lparr>aq_scope = None, aq_target = None, aq_constraint = None, aq_duration = None, aq_acknowledged = None\<rparr>"

subsection \<open>Reading a request\<close>

definition canonicalStoredTime :: "string \<Rightarrow> instant option" where
  "canonicalStoredTime = canonicalTimestamp"

definition compileStoredPolicy :: "regex_lib \<Rightarrow> grant_Policy \<Rightarrow> policy_error + CompiledPolicy \<times> normalizedTarget" where
  "compileStoredPolicy rx policy =
     (case CompilePolicy rx policy of
        Inl e \<Rightarrow> Inl e
      | Inr compiled \<Rightarrow>
          (case normalizePolicyTarget compiled of
             None \<Rightarrow> Inl ErrInvalidPolicy
           | Some normalized \<Rightarrow>
               if nt_namespace normalized = SyntheticServerNamespace then Inl ErrInvalidPolicy else Inr (compiled, normalized)))"

definition has_approved :: "request_row \<Rightarrow> bool" where
  "has_approved row \<longleftrightarrow> rq_approved row \<noteq> no_approved"

definition stored_target :: "normalizedTarget \<Rightarrow> MCP" where
  "stored_target target = \<lparr>ServerID = SyntheticServerID, UpstreamName = nt_upstreamName target\<rparr>"

definition scan_approved :: "regex_lib \<Rightarrow> CompiledPolicy \<Rightarrow> normalizedTarget \<Rightarrow> request_row \<Rightarrow> grant_Policy option option" where
  "scan_approved rx requested requestedTarget row =
     (if rq_approvedReadOnly row \<and> \<not> has_approved row then None
      else if \<not> has_approved row then Some None
      else
        (case (aq_scope (rq_approved row), aq_target (rq_approved row), aq_acknowledged (rq_approved row)) of
           (Some scope, Some target, Some acknowledged) \<Rightarrow>
             let policy = \<lparr>gp_ReadOnly = rq_approvedReadOnly row, gp_Scope = scope, gp_Target = target,
                   gp_Constraint = aq_constraint (rq_approved row), gp_DurationSeconds = aq_duration (rq_approved row),
                   gp_FutureToolsAcknowledged = acknowledged\<rparr> in
             (case compileStoredPolicy rx policy of
                Inl _ \<Rightarrow> None
              | Inr (approved, approvedTarget) \<Rightarrow>
                  if nt_namespace requestedTarget \<noteq> nt_namespace approvedTarget then None
                  else if \<not> is_ok (ValidateNarrowing requested (stored_target requestedTarget) approved (stored_target approvedTarget))
                  then None
                  else Some (Some policy))
         | _ \<Rightarrow> None))"

definition state_consistent :: "GrantRequestState \<Rightarrow> request_row \<Rightarrow> bool" where
  "state_consistent state row =
     (case state of
        RequestPending \<Rightarrow>
          rq_revision row = 1 \<and> rq_createdAt row = rq_updatedAt row \<and> rq_closedAt row = None \<and> \<not> has_approved row \<and>
          rq_approvedGrantID row = None \<and> rq_rejectionReason row = None
      | RequestApproved \<Rightarrow>
          rq_revision row = 2 \<and> rq_closedAt row \<noteq> None \<and> has_approved row \<and> rq_approvedGrantID row \<noteq> None \<and> rq_rejectionReason row = None
      | RequestRejected \<Rightarrow>
          rq_revision row = 2 \<and> rq_closedAt row \<noteq> None \<and> \<not> has_approved row \<and> rq_approvedGrantID row = None \<and> rq_rejectionReason row \<noteq> None
      | RequestCancelled \<Rightarrow>
          rq_revision row = 2 \<and> rq_closedAt row \<noteq> None \<and> \<not> has_approved row \<and> rq_approvedGrantID row = None \<and> rq_rejectionReason row = None)"

definition closed_consistent :: "instant \<Rightarrow> request_row \<Rightarrow> bool" where
  "closed_consistent created row =
     (case rq_closedAt row of
        None \<Rightarrow> True
      | Some text \<Rightarrow>
          (case canonicalStoredTime text of
             None \<Rightarrow> False
           | Some closed \<Rightarrow> \<not> closed < created \<and> text = rq_updatedAt row))"

definition scanAgentRequest :: "regex_lib \<Rightarrow> request_row \<Rightarrow> request_error + int \<times> AgentGrantRequest" where
  "scanAgentRequest rx row =
     (if rq_sequence row < 1 \<or> \<not> validOpaqueID (rq_id row) \<or> rq_revision row < 1 then Inl ReqInvalidState
      else
        (case (ParseGrantRequestState (rq_state row), compileStoredPolicy rx (rq_requested row),
               canonicalStoredTime (rq_createdAt row), canonicalStoredTime (rq_updatedAt row)) of
           (Some state, Inr (requested, requestedTarget), Some created, Some updated) \<Rightarrow>
             if updated < created \<or> \<not> closed_consistent created row then Inl ReqInvalidState
             else
               (case scan_approved rx requested requestedTarget row of
                  None \<Rightarrow> Inl ReqInvalidState
                | Some approved \<Rightarrow>
                    if \<not> pred_option validOpaqueID (rq_approvedGrantID row) then Inl ReqInvalidState
                    else if \<not> pred_option (\<lambda>reason. ParseGrantRequestRejectionReason reason \<noteq> None) (rq_rejectionReason row)
                    then Inl ReqInvalidState
                    else if \<not> state_consistent state row then Inl ReqInvalidState
                    else
                      Inr (rq_sequence row,
                        \<lparr>agr_ID = rq_id row, agr_State = state, agr_Revision = FormatInt (rq_revision row),
                         agr_RequestedPolicy = cp_value requested, agr_ApprovedPolicy = approved,
                         agr_ApprovedGrantID = rq_approvedGrantID row,
                         agr_RejectionReason = Option.bind (rq_rejectionReason row) ParseGrantRequestRejectionReason,
                         agr_CreatedAt = rq_createdAt row, agr_UpdatedAt = rq_updatedAt row, agr_ClosedAt = rq_closedAt row\<rparr>))
         | _ \<Rightarrow> Inl ReqInvalidState))"

definition request_by_id :: "string \<Rightarrow> request_tables \<Rightarrow> request_row option" where
  "request_by_id requestID tables = find (\<lambda>row. rq_id row = requestID) (rt_rows tables)"

definition owned_by_id :: "string \<Rightarrow> string \<Rightarrow> request_tables \<Rightarrow> request_row option" where
  "owned_by_id principalID requestID tables = find (\<lambda>row. rq_principal row = principalID \<and> rq_id row = requestID) (rt_rows tables)"

subsection \<open>Room for new requests\<close>

record requestCapacity =
  rc_rows :: int
  rc_pending :: int
  rc_evidenceBytes :: int

definition New_capacity :: requestCapacity where
  "New_capacity =
     \<lparr>rc_rows = mustLimit ''grant_requests'', rc_pending = mustLimit ''pending_grant_requests_per_principal'',
      rc_evidenceBytes = mustLimit ''grant_request_evidence_bytes''\<rparr>"

datatype capacity_error = RequestCapacityExhausted | CapacityInvalidState

definition column_bytes :: "string option \<Rightarrow> int" where
  "column_bytes column = (case column of None \<Rightarrow> 0 | Some contents \<Rightarrow> int (length contents))"

definition row_evidence :: "request_row \<Rightarrow> int" where
  "row_evidence row = column_bytes (rq_submittedEvidence row) + column_bytes (rq_approvedEvidence row)"

abbreviation pending_row :: "request_row \<Rightarrow> bool" where
  "pending_row row \<equiv> rq_state row = GrantRequestState_string RequestPending"

definition delete_requests :: "(request_row \<Rightarrow> bool) \<Rightarrow> request_tables \<Rightarrow> request_tables" where
  "delete_requests victim tables =
     tables\<lparr>rt_rows := filter (\<lambda>row. \<not> victim row) (rt_rows tables),
       rt_evidence := rt_evidence tables - sum_list (map row_evidence (filter victim (rt_rows tables)))\<rparr>"

fun retention_scan :: "int \<Rightarrow> int \<Rightarrow> int \<Rightarrow> int \<Rightarrow> int \<Rightarrow> request_row list \<Rightarrow> (int \<times> int \<times> int) option" where
  "retention_scan requiredRows requiredEvidence victims freed lastSequence [] = Some (victims, freed, lastSequence)"
| "retention_scan requiredRows requiredEvidence victims freed lastSequence (row # rows) =
     (if rq_sequence row \<le> lastSequence \<or> row_evidence row < 0 \<or>
         row_evidence row > 2 * mustLimit ''grant_request_evidence_snapshot_bytes'' then None
      else if victims + 1 \<ge> requiredRows \<and> freed + row_evidence row \<ge> requiredEvidence
      then Some (victims + 1, freed + row_evidence row, rq_sequence row)
      else retention_scan requiredRows requiredEvidence (victims + 1) (freed + row_evidence row) (rq_sequence row) rows)"

definition evict_requests :: "int \<Rightarrow> int \<Rightarrow> request_tables \<Rightarrow> capacity_error + request_tables" where
  "evict_requests requiredRows requiredEvidence tables =
     (case retention_scan requiredRows requiredEvidence 0 0 0
             (sort_key rq_sequence (filter (\<lambda>row. \<not> pending_row row) (rt_rows tables))) of
        None \<Rightarrow> Inl CapacityInvalidState
      | Some (victims, freed, lastSequence) \<Rightarrow>
          if victims < requiredRows \<or> freed < requiredEvidence then Inl RequestCapacityExhausted
          else
            let victim = (\<lambda>row. \<not> pending_row row \<and> rq_sequence row \<le> lastSequence) in
            if int (length (filter victim (rt_rows tables))) \<noteq> victims then Inl CapacityInvalidState
            else Inr (delete_requests victim tables))"

definition ensureRequestCapacity :: "requestCapacity \<Rightarrow> string \<Rightarrow> int \<Rightarrow> request_tables \<Rightarrow> capacity_error + request_tables" where
  "ensureRequestCapacity capacity principalID newEvidenceBytes tables =
     (if newEvidenceBytes < 0 \<or> newEvidenceBytes > mustLimit ''grant_request_evidence_snapshot_bytes'' then Inl CapacityInvalidState
      else
        let rows = int (length (rt_rows tables));
            pending = int (length (filter (\<lambda>row. rq_principal row = principalID \<and> pending_row row) (rt_rows tables)));
            evidence = rt_evidence tables in
        if rows > rc_rows capacity \<or> pending > rc_pending capacity \<or> evidence < 0 \<or> evidence > rc_evidenceBytes capacity
        then Inl CapacityInvalidState
        else if pending \<ge> rc_pending capacity then Inl RequestCapacityExhausted
        else
          let requiredRows = max 0 (rows + 1 - rc_rows capacity);
              requiredEvidence = max 0 (evidence + newEvidenceBytes - rc_evidenceBytes capacity) in
          if requiredRows = 0 \<and> requiredEvidence = 0 then Inr tables
          else evict_requests requiredRows requiredEvidence tables)"

end
