(* ===== verification/Request_Lifecycle.thy ===== *)
theory Request_Lifecycle
  imports Request_Store
begin

text \<open>
  The operations on grant requests: \<open>CreateOrExisting\<close>, \<open>CancelOwned\<close>, \<open>Reject\<close> and \<open>Approve\<close>. Each is a transaction on
  the stored tables and the treatment of its outcome.
\<close>

subsection \<open>Parameters\<close>

record DurableDescriptor =
  dd_ServerID :: string
  dd_UpstreamName :: string
  dd_ExternalName :: string
  dd_contents :: string

record request_inspectors =
  in_namespaces :: "string \<Rightarrow> target_error + NamespaceTarget"
  in_descriptors :: "string \<Rightarrow> string \<Rightarrow> target_error + DurableDescriptor"
  in_denies :: "string \<Rightarrow> MCP \<Rightarrow> instant \<Rightarrow> target_error + bool"
  in_evidence :: "DurableDescriptor \<Rightarrow> string \<Rightarrow> instant \<Rightarrow> string option"

text \<open>Whether a mutation got as far as its callback.\<close>

definition callback_ran :: "driver \<Rightarrow> 'd store \<Rightarrow> bool" where
  "callback_ran dr st \<longleftrightarrow>
     \<not> dr_context_acquire dr \<and> \<not> sto_owned st \<and> \<not> sto_latched st \<and> \<not> dr_context_before dr \<and> dr_size_ok dr \<and>
     dr_identity_ok dr \<and> dr_connection_ok dr \<and> \<not> dr_fault_before_begin dr \<and> dr_begin_ok dr"

definition callback_result :: "driver \<Rightarrow> ('d \<Rightarrow> 'e + 'a \<times> 'd) \<Rightarrow> 'd store \<Rightarrow> ('e + 'a) option" where
  "callback_result dr callback st = (if callback_ran dr st then Some (map_sum id fst (callback (sto_data st))) else None)"

subsection \<open>Creation\<close>

type_synonym create_result = "CreateGrantRequestOutcome \<times> AgentGrantRequest option"

datatype create_error = CreateOutcome create_result | CreateError request_error | CreateUnclassified

definition canonicalRequestTime :: "instant \<Rightarrow> string option" where
  "canonicalRequestTime value =
     (if value = zero_instant \<or> Year value < 0 \<or> Year value > 9999 then None
      else
        let formatted = FormatCanonical value in
        if ParseCanonical formatted = Some value then Some formatted else None)"

definition admin_NewID :: "instant \<Rightarrow> byte list \<Rightarrow> string option" where
  "admin_NewID now entropy =
     (let milliseconds = UnixMilli now in
      if milliseconds < 0 \<or> milliseconds > 2 ^ 48 - 1 then None
      else map_option (\<lambda>(random, _). encode_identity (timestamp_bytes 6 milliseconds @ random)) (ReadFull 10 entropy))"

definition nullableEvidence :: "string \<Rightarrow> string option" where
  "nullableEvidence evidence = (if evidence = [] then None else Some evidence)"

definition pending_request_row :: "int \<Rightarrow> string \<Rightarrow> string \<Rightarrow> CompiledPolicy \<Rightarrow> MCP \<Rightarrow> DedupeIdentity \<Rightarrow> string \<Rightarrow> string \<Rightarrow> request_row" where
  "pending_request_row sequence requestID principalID policy resolved identity evidence timestamp =
     \<lparr>rq_sequence = sequence, rq_id = requestID, rq_principal = principalID, rq_state = GrantRequestState_string RequestPending,
      rq_revision = 1, rq_server = ServerID resolved, rq_upstream = UpstreamName resolved, rq_requested = cp_value policy,
      rq_dedupeVersion = di_Version identity, rq_dedupeBytes = di_Bytes identity, rq_submittedEvidence = nullableEvidence evidence,
      rq_approved = no_approved, rq_approvedGrantID = None, rq_rejectionReason = None, rq_approvedEvidence = None,
      rq_createdAt = timestamp, rq_updatedAt = timestamp, rq_closedAt = None, rq_approvedReadOnly = False\<rparr>"

definition insertPendingRequest ::
  "string \<Rightarrow> string \<Rightarrow> CompiledPolicy \<Rightarrow> MCP \<Rightarrow> DedupeIdentity \<Rightarrow> string \<Rightarrow> string \<Rightarrow> request_tables \<Rightarrow> request_tables option" where
  "insertPendingRequest requestID principalID policy resolved identity evidence timestamp tables =
     (let row = pending_request_row (rt_sequence tables + 1) requestID principalID policy resolved identity evidence timestamp in
      if rt_sequence tables \<ge> 2 ^ 63 - 1 \<or> list_ex (\<lambda>other. rq_id other = requestID) (rt_rows tables) \<or>
         list_ex (\<lambda>other. pending_row other \<and> rq_principal other = principalID \<and> rq_dedupeVersion other = di_Version identity \<and>
                    rq_dedupeBytes other = di_Bytes identity) (rt_rows tables) then None
      else Some (tables\<lparr>rt_rows := rt_rows tables @ [row], rt_sequence := rt_sequence tables + 1,
                        rt_evidence := rt_evidence tables + row_evidence row\<rparr>))"

definition loadPendingByIdentity ::
  "regex_lib \<Rightarrow> string \<Rightarrow> DedupeIdentity \<Rightarrow> MCP \<Rightarrow> request_tables \<Rightarrow> request_error + AgentGrantRequest option" where
  "loadPendingByIdentity rx principalID identity resolved tables =
     (case find (\<lambda>row. rq_principal row = principalID \<and> pending_row row \<and> rq_dedupeVersion row = di_Version identity \<and>
                  rq_dedupeBytes row = di_Bytes identity) (rt_rows tables) of
        None \<Rightarrow> Inr None
      | Some row \<Rightarrow>
          if rq_revision row \<noteq> 1 \<or> has_approved row \<or> rq_approvedGrantID row \<noteq> None \<or> rq_rejectionReason row \<noteq> None \<or>
             rq_approvedReadOnly row \<or> rq_closedAt row \<noteq> None \<or> rq_createdAt row \<noteq> rq_updatedAt row \<or>
             canonicalStoredTime (rq_createdAt row) = None then Inl ReqInvalidState
          else
            (case CompilePolicy rx (rq_requested row) of
               Inl _ \<Rightarrow> Inl ReqInvalidState
             | Inr compiled \<Rightarrow>
                 if CanonicalDedupeIdentity compiled resolved \<noteq> Inr identity then Inl ReqInvalidState
                 else
                   Inr (Some \<lparr>agr_ID = rq_id row, agr_State = RequestPending, agr_Revision = FormatInt (rq_revision row),
                     agr_RequestedPolicy = cp_value compiled, agr_ApprovedPolicy = None, agr_ApprovedGrantID = None,
                     agr_RejectionReason = None, agr_CreatedAt = rq_createdAt row, agr_UpdatedAt = rq_updatedAt row, agr_ClosedAt = None\<rparr>)))"

definition creation_evidence ::
  "request_inspectors \<Rightarrow> CompiledPolicy \<Rightarrow> normalizedTarget \<Rightarrow> MCP \<Rightarrow> string \<Rightarrow> instant \<Rightarrow> create_error + string" where
  "creation_evidence inspect policy target resolved namespace now =
     (if cp_Scope policy \<noteq> PolicyScope_string PolicyTool then Inr []
      else
        (case in_descriptors inspect (ServerID resolved) (nt_externalName target) of
           Inl TargetNotFound \<Rightarrow> Inl (CreateOutcome (RequestTargetUnavailable, None))
         | Inl _ \<Rightarrow> Inl CreateUnclassified
         | Inr descriptor \<Rightarrow>
             if dd_ServerID descriptor \<noteq> ServerID resolved \<or> dd_ExternalName descriptor \<noteq> nt_externalName target \<or>
                Some (dd_UpstreamName descriptor) \<noteq> UpstreamName resolved then Inl (CreateError ReqInvalidState)
             else
               (case in_evidence inspect descriptor namespace now of
                  None \<Rightarrow> Inl (CreateOutcome (RequestTargetUnavailable, None))
                | Some evidence \<Rightarrow> Inr evidence)))"

definition pending_resource :: "string \<Rightarrow> CompiledPolicy \<Rightarrow> string \<Rightarrow> AgentGrantRequest" where
  "pending_resource requestID policy timestamp =
     \<lparr>agr_ID = requestID, agr_State = RequestPending, agr_Revision = ''1'', agr_RequestedPolicy = cp_value policy, agr_ApprovedPolicy = None,
      agr_ApprovedGrantID = None, agr_RejectionReason = None, agr_CreatedAt = timestamp, agr_UpdatedAt = timestamp, agr_ClosedAt = None\<rparr>"

definition create_insert ::
  "requestCapacity \<Rightarrow> string \<Rightarrow> CompiledPolicy \<Rightarrow> MCP \<Rightarrow> DedupeIdentity \<Rightarrow> string \<Rightarrow> string \<Rightarrow> instant \<Rightarrow> byte list \<Rightarrow> gateway_state \<Rightarrow>
     create_error + create_result \<times> gateway_state" where
  "create_insert capacity principalID policy resolved identity evidence timestamp now entropy gs =
     (case ensureRequestCapacity capacity principalID (int (length evidence)) (gs_requests gs) of
        Inl RequestCapacityExhausted \<Rightarrow> Inl (CreateOutcome (RequestLimitReached, None))
      | Inl CapacityInvalidState \<Rightarrow> Inl (CreateError ReqInvalidState)
      | Inr tables \<Rightarrow>
          (case admin_NewID now entropy of
             None \<Rightarrow> Inl (CreateError ReqIdentityUnavailable)
           | Some requestID \<Rightarrow>
               if requestID \<in> fst ` set (rt_identities tables) then Inl (CreateError ReqIdentityUnavailable)
               else
                 (case insertPendingRequest requestID principalID policy resolved identity evidence timestamp
                         (tables\<lparr>rt_identities := rt_identities tables @ [(requestID, timestamp)]\<rparr>) of
                    None \<Rightarrow> Inl CreateUnclassified
                  | Some tables' \<Rightarrow>
                      Inr ((RequestCreated, Some (pending_resource requestID policy timestamp)), gs\<lparr>gs_requests := tables'\<rparr>))))"

definition create_request_tx ::
  "regex_lib \<Rightarrow> request_inspectors \<Rightarrow> requestCapacity \<Rightarrow> string \<Rightarrow> CompiledPolicy \<Rightarrow> normalizedTarget \<Rightarrow> instant \<Rightarrow> byte list \<Rightarrow> gateway_state \<Rightarrow>
     create_error + create_result \<times> gateway_state" where
  "create_request_tx rx inspect capacity principalID policy target now entropy gs =
     (case in_namespaces inspect (nt_namespace target) of
        Inl TargetNotFound \<Rightarrow> Inl (CreateOutcome (RequestTargetUnavailable, None))
      | Inl _ \<Rightarrow> Inl CreateUnclassified
      | Inr namespace \<Rightarrow>
          if \<not> validOpaqueID (ns_ID namespace) \<or> ns_ID namespace = SyntheticServerID \<or> ns_Namespace namespace \<noteq> nt_namespace target
          then Inl (CreateError ReqInvalidState)
          else if ParseDesiredServerState (ns_State namespace) = None then Inl (CreateError ReqInvalidState)
          else
            let resolved = \<lparr>ServerID = ns_ID namespace, UpstreamName = nt_upstreamName target\<rparr> in
            (case CanonicalDedupeIdentity policy resolved of
               Inl _ \<Rightarrow> Inl (CreateError ReqInvalidInput)
             | Inr identity \<Rightarrow>
                 (case loadPendingByIdentity rx principalID identity resolved (gs_requests gs) of
                    Inl e \<Rightarrow> Inl (CreateError e)
                  | Inr (Some existing) \<Rightarrow> Inl (CreateOutcome (RequestExisting, Some existing))
                  | Inr None \<Rightarrow>
                      if ns_State namespace = DesiredServerState_string DesiredServerDeleted
                      then Inl (CreateOutcome (RequestTargetUnavailable, None))
                      else
                        (case canonicalRequestTime now of
                           None \<Rightarrow> Inl (CreateError ReqIdentityUnavailable)
                         | Some timestamp \<Rightarrow>
                             (case creation_evidence inspect policy target resolved (ns_Namespace namespace) now of
                                Inl e \<Rightarrow> Inl e
                              | Inr evidence \<Rightarrow>
                                  (case in_denies inspect principalID resolved now of
                                     Inl _ \<Rightarrow> Inl CreateUnclassified
                                   | Inr conflict \<Rightarrow>
                                       if conflict then Inl (CreateOutcome (RequestDenyConflict, None))
                                       else create_insert capacity principalID policy resolved identity evidence timestamp now entropy gs))))))"

definition create_failure :: "create_error mutate_error \<Rightarrow> (create_error + create_result) option \<Rightarrow> bool \<Rightarrow> request_error + create_result" where
  "create_failure err outcome latched =
     (if (case outcome of Some (Inr _) \<Rightarrow> True | _ \<Rightarrow> False) then Inl ReqStorageOutcomeUncertain
      else if err = ErrStorageLatched \<or> err = ErrMutationBusy \<or> latched then Inl ReqStorageUnavailable
      else
        (case err of
           CallbackError (CreateOutcome result) \<Rightarrow> Inr result
         | ContextError \<Rightarrow> Inl ReqContext
         | CallbackError (CreateError ReqInvalidInput) \<Rightarrow> Inl ReqInvalidInput
         | CallbackError (CreateError ReqIdentityUnavailable) \<Rightarrow> Inl ReqIdentityUnavailable
         | _ \<Rightarrow> Inl ReqStorageUnavailable))"

definition CreateOrExisting ::
  "regex_lib \<Rightarrow> request_inspectors \<Rightarrow> requestCapacity \<Rightarrow> driver \<Rightarrow> string \<Rightarrow> grant_Policy \<Rightarrow> instant \<Rightarrow> byte list \<Rightarrow> gateway_state store \<Rightarrow>
     (request_error + create_result) \<times> gateway_state store" where
  "CreateOrExisting rx inspect capacity dr principalID requested now entropy store =
     (if \<not> validOpaqueID principalID then (Inl ReqInvalidInput, store)
      else
        (case CompilePolicy rx requested of
           Inl _ \<Rightarrow> (Inl ReqInvalidInput, store)
         | Inr policy \<Rightarrow>
             (case normalizePolicyTarget policy of
                None \<Rightarrow> (Inl ReqInvalidInput, store)
              | Some target \<Rightarrow>
                  let callback = create_request_tx rx inspect capacity principalID policy target now entropy in
                  (case mutate dr (\<lambda>_. False) callback store of
                     (Inl err, store') \<Rightarrow> (create_failure err (callback_result dr callback store) (sto_latched store'), store')
                   | (Inr created, store') \<Rightarrow> (Inr created, store')))))"


subsection \<open>Cancellation and rejection\<close>

type_synonym cancel_result = "CancelGrantRequestOutcome \<times> AgentGrantRequest option"

datatype lifecycle_error = CancelOutcome cancel_result | LifecycleError request_error | LifecycleNoRows | LifecycleAudit tx_error

definition lifecycle_storage :: "lifecycle_error \<Rightarrow> bool" where
  "lifecycle_storage e \<longleftrightarrow> e = LifecycleAudit TxStorage"

definition lifecycleTimestamp :: "instant \<Rightarrow> string \<Rightarrow> request_error + string" where
  "lifecycleTimestamp now createdAt =
     (case (canonicalRequestTime now, canonicalStoredTime createdAt) of
        (Some timestamp, Some created) \<Rightarrow> if now < created then Inl ReqIdentityUnavailable else Inr timestamp
      | _ \<Rightarrow> Inl ReqIdentityUnavailable)"

definition update_requests :: "(request_row \<Rightarrow> bool) \<Rightarrow> (request_row \<Rightarrow> request_row) \<Rightarrow> request_tables \<Rightarrow> int \<times> request_tables" where
  "update_requests matches f tables =
     (int (length (filter matches (rt_rows tables))),
      tables\<lparr>rt_rows := map (\<lambda>row. if matches row then f row else row) (rt_rows tables),
        rt_evidence := rt_evidence tables - sum_list (map row_evidence (filter matches (rt_rows tables))) +
          sum_list (map (\<lambda>row. row_evidence (f row)) (filter matches (rt_rows tables)))\<rparr>)"

definition requireSingleTransition :: "int \<Rightarrow> request_error + unit" where
  "requireSingleTransition rows = (if rows \<noteq> 1 then Inl ReqConflict else Inr ())"

definition close_row :: "GrantRequestState \<Rightarrow> string \<Rightarrow> request_row \<Rightarrow> request_row" where
  "close_row state timestamp row =
     row\<lparr>rq_state := GrantRequestState_string state, rq_revision := 2, rq_updatedAt := timestamp, rq_closedAt := Some timestamp\<rparr>"

definition cancel_request_tx ::
  "regex_lib \<Rightarrow> string \<Rightarrow> string \<Rightarrow> instant \<Rightarrow> gateway_state \<Rightarrow> lifecycle_error + cancel_result \<times> gateway_state" where
  "cancel_request_tx rx principalID requestID now gs =
     (case owned_by_id principalID requestID (gs_requests gs) of
        None \<Rightarrow> Inl (CancelOutcome (RequestCancellationNotFound, None))
      | Some row \<Rightarrow>
          (case scanAgentRequest rx row of
             Inl e \<Rightarrow> Inl (LifecycleError e)
           | Inr (_, request) \<Rightarrow>
               (case agr_State request of
                  RequestCancelled \<Rightarrow> Inl (CancelOutcome (RequestCancellationAlreadyCancelled, Some request))
                | RequestApproved \<Rightarrow> Inl (CancelOutcome (RequestCancellationNotPending, Some request))
                | RequestRejected \<Rightarrow> Inl (CancelOutcome (RequestCancellationNotPending, Some request))
                | RequestPending \<Rightarrow>
                    (case lifecycleTimestamp now (agr_CreatedAt request) of
                       Inl e \<Rightarrow> Inl (LifecycleError e)
                     | Inr timestamp \<Rightarrow>
                         (case update_requests (\<lambda>r. rq_id r = requestID \<and> rq_principal r = principalID \<and> pending_row r \<and> rq_revision r = 1)
                                 (close_row RequestCancelled timestamp) (gs_requests gs) of
                            (updated, tables) \<Rightarrow>
                              (case requireSingleTransition updated of
                                 Inl e \<Rightarrow> Inl (LifecycleError e)
                               | Inr _ \<Rightarrow>
                                   (case owned_by_id principalID requestID tables of
                                      None \<Rightarrow> Inl LifecycleNoRows
                                    | Some row' \<Rightarrow>
                                        (case scanAgentRequest rx row' of
                                           Inl e \<Rightarrow> Inl (LifecycleError e)
                                         | Inr (_, transitioned) \<Rightarrow>
                                             if agr_State transitioned \<noteq> RequestCancelled \<or> agr_Revision transitioned \<noteq> ''2''
                                             then Inl (LifecycleError ReqInvalidState)
                                             else Inr ((RequestCancellationCancelled, Some transitioned), gs\<lparr>gs_requests := tables\<rparr>)))))))))"

definition lifecycleError :: "lifecycle_error mutate_error \<Rightarrow> bool \<Rightarrow> request_error" where
  "lifecycleError err latched =
     (if err = ErrStorageLatched \<or> err = ErrMutationBusy \<or> latched then ReqStorageUnavailable
      else
        (case err of
           ContextError \<Rightarrow> ReqContext
         | CallbackError (LifecycleError e) \<Rightarrow>
             if e \<in> {ReqNotFound, ReqInvalidInput, ReqIdentityUnavailable, ReqInvalidState, ReqStaleRevision, ReqConflict} then e
             else ReqStorageUnavailable
         | _ \<Rightarrow> ReqStorageUnavailable))"

definition CancelOwned ::
  "regex_lib \<Rightarrow> driver \<Rightarrow> string \<Rightarrow> string \<Rightarrow> instant \<Rightarrow> gateway_state store \<Rightarrow> (request_error + cancel_result) \<times> gateway_state store" where
  "CancelOwned rx dr principalID requestID now store =
     (if \<not> validOpaqueID principalID \<or> \<not> validOpaqueID requestID then (Inl ReqInvalidInput, store)
      else
        let callback = cancel_request_tx rx principalID requestID now in
        (case mutate dr lifecycle_storage callback store of
           (Inr result, store') \<Rightarrow> (Inr result, store')
         | (Inl err, store') \<Rightarrow>
             ((case callback_result dr callback store of
                 Some (Inr _) \<Rightarrow> Inl ReqStorageOutcomeUncertain
               | Some (Inl (CancelOutcome result)) \<Rightarrow> Inr result
               | _ \<Rightarrow> Inl (lifecycleError err (sto_latched store'))), store')))"

definition validExpectedRevision :: "string \<Rightarrow> bool" where
  "validExpectedRevision value = (case ParseInt value of None \<Rightarrow> False | Some revision \<Rightarrow> revision > 0 \<and> FormatInt revision = value)"

record RejectRequest =
  rr_ID :: string
  rr_ExpectedRevision :: string
  rr_Reason :: string

definition reject_request_tx ::
  "audit_tables \<Rightarrow> regex_lib \<Rightarrow> RejectRequest \<Rightarrow> instant \<Rightarrow> gateway_state \<Rightarrow> lifecycle_error + AgentGrantRequest \<times> gateway_state" where
  "reject_request_tx audit rx request now gs =
     (case request_by_id (rr_ID request) (gs_requests gs) of
        None \<Rightarrow> Inl (LifecycleError ReqNotFound)
      | Some row \<Rightarrow>
          (case scanAgentRequest rx row of
             Inl e \<Rightarrow> Inl (LifecycleError e)
           | Inr (_, current) \<Rightarrow>
               if agr_Revision current \<noteq> rr_ExpectedRevision request then Inl (LifecycleError ReqStaleRevision)
               else if agr_State current \<noteq> RequestPending then Inl (LifecycleError ReqConflict)
               else
                 (case lifecycleTimestamp now (agr_CreatedAt current) of
                    Inl e \<Rightarrow> Inl (LifecycleError e)
                  | Inr timestamp \<Rightarrow>
                      (case update_requests (\<lambda>r. rq_id r = rr_ID request \<and> pending_row r \<and> rq_revision r = 1)
                              (\<lambda>r. (close_row RequestRejected timestamp r)\<lparr>rq_rejectionReason := Some (rr_Reason request)\<rparr>) (gs_requests gs) of
                         (updated, tables) \<Rightarrow>
                           (case requireSingleTransition updated of
                              Inl e \<Rightarrow> Inl (LifecycleError e)
                            | Inr _ \<Rightarrow>
                                (case request_by_id (rr_ID request) tables of
                                   None \<Rightarrow> Inl LifecycleNoRows
                                 | Some row' \<Rightarrow>
                                     (case scanAgentRequest rx row' of
                                        Inl e \<Rightarrow> Inl (LifecycleError e)
                                      | Inr (_, result) \<Rightarrow>
                                          if agr_State result \<noteq> RequestRejected \<or> agr_Revision result \<noteq> ''2'' \<or>
                                             map_option GrantRequestRejectionReason_string (agr_RejectionReason result) \<noteq> Some (rr_Reason request)
                                          then Inl (LifecycleError ReqInvalidState)
                                          else
                                            (case audit_MutationTx audit False ''grant_request'' ''reject'' (rr_ID request) (gs_authority gs) of
                                               Inl e \<Rightarrow> Inl (LifecycleAudit e)
                                             | Inr authority \<Rightarrow> Inr (result, gs\<lparr>gs_authority := authority, gs_requests := tables\<rparr>)))))))))"

definition Reject ::
  "audit_tables \<Rightarrow> regex_lib \<Rightarrow> driver \<Rightarrow> RejectRequest \<Rightarrow> instant \<Rightarrow> gateway_state store \<Rightarrow> (request_error + AgentGrantRequest) \<times> gateway_state store" where
  "Reject audit rx dr request now store =
     (if \<not> validOpaqueID (rr_ID request) \<or> \<not> validExpectedRevision (rr_ExpectedRevision request) then (Inl ReqInvalidInput, store)
      else if ParseGrantRequestRejectionReason (rr_Reason request) = None then (Inl ReqInvalidInput, store)
      else
        (case mutate dr lifecycle_storage (reject_request_tx audit rx request now) store of
           (Inr result, store') \<Rightarrow> (Inr result, store')
         | (Inl err, store') \<Rightarrow> (Inl (lifecycleError err (sto_latched store')), store')))"

end
