(* ===== verification/Request_Approval.thy ===== *)
theory Request_Approval
  imports Request_Lifecycle
begin

text \<open>
  The approval of a grant request (\<open>approval.go\<close> and \<open>internal/authorization/request_approval.go\<close>). The transaction is owned by
  authorization: it asks the request for the material of the grant, checks the material against its own tables,
  writes the grant, and lets the request record its approval, all or nothing. The gate of the registry is held
  around it.
\<close>

record ApproveRequest =
  apr_Description :: "string option"
  apr_ID :: string
  apr_ExpectedRevision :: string
  apr_ApprovedPolicy :: grant_Policy

record ApprovalGrantMaterial =
  am_ReadOnly :: bool
  am_Description :: "string option"
  am_PrincipalID :: string
  am_Target :: MCP
  am_Constraint :: "string option"
  am_DurationSeconds :: "int option"

record approvalTransition =
  tr_createdAt :: string
  tr_descriptor :: "DurableDescriptor option"

definition approvalReadError :: "request_error \<Rightarrow> tx_error" where
  "approvalReadError e = (if e = ReqInvalidState then TxError ErrInvalidState else TxError ErrApprovalUnavailable)"

definition policy_duration :: "CompiledPolicy \<Rightarrow> int option" where
  "policy_duration policy = (if cp_durationSecondsValid policy then Some (cp_durationSeconds policy) else None)"

definition approval_descriptor ::
  "request_inspectors \<Rightarrow> CompiledPolicy \<Rightarrow> CompiledPolicy \<Rightarrow> string \<Rightarrow> normalizedTarget \<Rightarrow> tx_error + DurableDescriptor option" where
  "approval_descriptor inspect requested approved serverID approvedName =
     (if cp_Scope requested = PolicyScope_string PolicyServer \<and> cp_Scope approved = PolicyScope_string PolicyTool then
        (case in_descriptors inspect serverID (nt_externalName approvedName) of
           Inl TargetNotFound \<Rightarrow> Inl (TxError ErrConflict)
         | Inl _ \<Rightarrow> Inl (TxError ErrApprovalUnavailable)
         | Inr descriptor \<Rightarrow>
             if dd_ServerID descriptor \<noteq> serverID \<or> dd_ExternalName descriptor \<noteq> nt_externalName approvedName \<or>
                Some (dd_UpstreamName descriptor) \<noteq> nt_upstreamName approvedName then Inl (TxError ErrConflict)
             else Inr (Some descriptor))
      else Inr None)"

definition approval_target ::
  "request_inspectors \<Rightarrow> CompiledPolicy \<Rightarrow> MCP \<Rightarrow> CompiledPolicy \<Rightarrow> normalizedTarget \<Rightarrow> tx_error + MCP" where
  "approval_target inspect requested submitted approved approvedName =
     (case in_namespaces inspect (nt_namespace approvedName) of
        Inl TargetNotFound \<Rightarrow> Inl (TxError ErrInvalidInput)
      | Inl _ \<Rightarrow> Inl (TxError ErrApprovalUnavailable)
      | Inr namespace \<Rightarrow>
          if \<not> validOpaqueID (ns_ID namespace) \<or> ns_Namespace namespace \<noteq> nt_namespace approvedName then Inl (TxError ErrInvalidState)
          else if ns_ID namespace = SyntheticServerID then Inl (TxError ErrInvalidInput)
          else if ParseDesiredServerState (ns_State namespace) = None then Inl (TxError ErrInvalidState)
          else
            let target = \<lparr>ServerID = ns_ID namespace, UpstreamName = nt_upstreamName approvedName\<rparr> in
            if \<not> is_ok (ValidateNarrowing requested submitted approved target) then Inl (TxError ErrInvalidInput)
            else if ns_State namespace = DesiredServerState_string DesiredServerDeleted then Inl (TxError ErrConflict)
            else Inr target)"

definition PrepareGrantRequestApproval ::
  "regex_lib \<Rightarrow> request_inspectors \<Rightarrow> ApproveRequest \<Rightarrow> CompiledPolicy \<Rightarrow> request_tables \<Rightarrow> tx_error + ApprovalGrantMaterial \<times> approvalTransition" where
  "PrepareGrantRequestApproval rx inspect request approved tables =
     (case request_by_id (apr_ID request) tables of
        None \<Rightarrow> Inl (TxError ErrNotFound)
      | Some row \<Rightarrow>
          (case scanAgentRequest rx row of
             Inl e \<Rightarrow> Inl (approvalReadError e)
           | Inr (_, current) \<Rightarrow>
               if agr_Revision current \<noteq> apr_ExpectedRevision request then Inl (TxError ErrStaleRevision)
               else if agr_State current \<noteq> RequestPending then Inl (TxError ErrConflict)
               else if \<not> validOpaqueID (rq_principal row) \<or> \<not> validOpaqueID (rq_server row) \<or> rq_server row = SyntheticServerID
               then Inl (TxError ErrInvalidState)
               else
                 (case CompilePolicy rx (agr_RequestedPolicy current) of
                    Inl _ \<Rightarrow> Inl (TxError ErrInvalidState)
                  | Inr requested \<Rightarrow>
                      (case normalizePolicyTarget requested of
                         None \<Rightarrow> Inl (TxError ErrInvalidState)
                       | Some requestedName \<Rightarrow>
                           if nt_upstreamName requestedName \<noteq> rq_upstream row then Inl (TxError ErrInvalidState)
                           else
                             (case normalizePolicyTarget approved of
                                None \<Rightarrow> Inl (TxError ErrInvalidInput)
                              | Some approvedName \<Rightarrow>
                                  (case approval_target inspect requested \<lparr>ServerID = rq_server row, UpstreamName = rq_upstream row\<rparr> approved approvedName of
                                     Inl e \<Rightarrow> Inl e
                                   | Inr target \<Rightarrow>
                                       (case approval_descriptor inspect requested approved (rq_server row) approvedName of
                                          Inl e \<Rightarrow> Inl e
                                        | Inr descriptor \<Rightarrow>
                                            Inr (\<lparr>am_ReadOnly = gp_ReadOnly (cp_value approved), am_Description = apr_Description request,
                                                  am_PrincipalID = rq_principal row, am_Target = target,
                                                  am_Constraint = gp_Constraint (cp_value approved), am_DurationSeconds = policy_duration approved\<rparr>,
                                                 \<lparr>tr_createdAt = agr_CreatedAt current, tr_descriptor = descriptor\<rparr>))))))))"

definition approval_evidence :: "request_inspectors \<Rightarrow> CompiledPolicy \<Rightarrow> approvalTransition \<Rightarrow> instant \<Rightarrow> request_tables \<Rightarrow> tx_error + string" where
  "approval_evidence inspect approved transition approvedAt tables =
     (case tr_descriptor transition of
        None \<Rightarrow> Inr []
      | Some descriptor \<Rightarrow>
          (case normalizePolicyTarget approved of
             None \<Rightarrow> Inl (TxError ErrInvalidState)
           | Some approvedName \<Rightarrow>
               (case in_evidence inspect descriptor (nt_namespace approvedName) approvedAt of
                  None \<Rightarrow> Inl (TxError ErrConflict)
                | Some evidence \<Rightarrow>
                    if rt_evidence tables > mustLimit ''grant_request_evidence_bytes'' - int (length evidence) then Inl (TxError ErrResourceLimit)
                    else Inr evidence)))"

definition approved_row :: "grant_Policy \<Rightarrow> string \<Rightarrow> string \<Rightarrow> string \<Rightarrow> request_row \<Rightarrow> request_row" where
  "approved_row policy grantID evidence timestamp row =
     (close_row RequestApproved timestamp row)\<lparr>
       rq_approved := \<lparr>aq_scope = Some (gp_Scope policy), aq_target = Some (gp_Target policy), aq_constraint = gp_Constraint policy,
         aq_duration = gp_DurationSeconds policy, aq_acknowledged = Some (gp_FutureToolsAcknowledged policy)\<rparr>,
       rq_approvedGrantID := Some grantID, rq_approvedEvidence := nullableEvidence evidence, rq_approvedReadOnly := gp_ReadOnly policy\<rparr>"

definition CommitGrantRequestApproval ::
  "audit_tables \<Rightarrow> regex_lib \<Rightarrow> request_inspectors \<Rightarrow> ApproveRequest \<Rightarrow> CompiledPolicy \<Rightarrow> approvalTransition \<Rightarrow> string \<Rightarrow> instant \<Rightarrow> gateway_state \<Rightarrow>
     tx_error + AgentGrantRequest \<times> gateway_state" where
  "CommitGrantRequestApproval audit rx inspect request approved transition grantID approvedAt gs =
     (if \<not> validOpaqueID grantID then Inl (TxError ErrInvalidState)
      else
        (case (canonicalRequestTime approvedAt, canonicalStoredTime (tr_createdAt transition)) of
           (Some timestamp, Some created) \<Rightarrow>
             if approvedAt < created then Inl (TxError ErrIdentityUnavailable)
             else
               (case approval_evidence inspect approved transition approvedAt (gs_requests gs) of
                  Inl e \<Rightarrow> Inl e
                | Inr evidence \<Rightarrow>
                    (case update_requests (\<lambda>r. rq_id r = apr_ID request \<and> pending_row r \<and> rq_revision r = 1)
                            (approved_row (cp_value approved) grantID evidence timestamp) (gs_requests gs) of
                       (updated, tables) \<Rightarrow>
                         if updated \<noteq> 1 then Inl (TxError ErrConflict)
                         else
                           (case request_by_id (apr_ID request) tables of
                              None \<Rightarrow> Inl (TxError ErrInvalidState)
                            | Some row' \<Rightarrow>
                                (case scanAgentRequest rx row' of
                                   Inl e \<Rightarrow> Inl (approvalReadError e)
                                 | Inr (_, result) \<Rightarrow>
                                     if agr_State result \<noteq> RequestApproved \<or> agr_Revision result \<noteq> ''2'' \<or> agr_ApprovedGrantID result \<noteq> Some grantID
                                     then Inl (TxError ErrInvalidState)
                                     else
                                       (case audit_MutationTx audit False ''grant_request'' ''approve'' (apr_ID request) (gs_authority gs) of
                                          Inl e \<Rightarrow> Inl e
                                        | Inr authority \<Rightarrow> Inr (result, gs\<lparr>gs_authority := authority, gs_requests := tables\<rparr>))))))
         | _ \<Rightarrow> Inl (TxError ErrIdentityUnavailable)))"

definition validateApprovalGrantMaterial :: "regex_lib \<Rightarrow> ApprovalGrantMaterial \<Rightarrow> tx_error + string option" where
  "validateApprovalGrantMaterial rx material =
     (let upstream = UpstreamName (am_Target material) in
      if \<not> validGrantDescription (am_Description material) \<or> \<not> validOpaqueID (am_PrincipalID material) \<or>
         \<not> validOpaqueID (ServerID (am_Target material)) \<or> \<not> pred_option validUpstreamName upstream \<or>
         upstream = None \<and> am_Constraint material \<noteq> None \<or>
         am_ReadOnly material \<and> (upstream \<noteq> None \<or> am_Constraint material \<noteq> None) then Inl (TxError ErrInvalidState)
      else if \<not> pred_option (\<lambda>seconds. GrantRequestDurationMinimumSeconds \<le> seconds \<and> seconds \<le> GrantRequestDurationMaximumSeconds)
                (am_DurationSeconds material) then Inl (TxError ErrInvalidState)
      else
        (case am_Constraint material of
           None \<Rightarrow> Inr None
         | Some source \<Rightarrow> (case CompileConstraint rx source of Inl _ \<Rightarrow> Inl (TxError ErrInvalidState) | Inr compiled \<Rightarrow> Inr (Some (kc_raw compiled)))))"

definition approval_grant :: "ApprovalGrantMaterial \<Rightarrow> string option \<Rightarrow> string \<Rightarrow> instant \<Rightarrow> grant_row" where
  "approval_grant material constraintJSON grantID now =
     \<lparr>row_sequence = 0, row_id = grantID, row_description = am_Description material, row_revision = ''1'',
      row_principal = am_PrincipalID material, row_effect = GrantEffect_string GrantAllow, row_server = ServerID (am_Target material),
      row_upstream = UpstreamName (am_Target material), row_constraint = constraintJSON,
      row_expires = map_option (\<lambda>seconds. FormatCanonical (now + seconds * 1000000000)) (am_DurationSeconds material),
      row_created = FormatCanonical now, row_readOnly = am_ReadOnly material, row_imported = False\<rparr>"

definition approve_write ::
  "audit_tables \<Rightarrow> regex_lib \<Rightarrow> (string \<Rightarrow> bool) \<Rightarrow> request_inspectors \<Rightarrow> ApproveRequest \<Rightarrow> CompiledPolicy \<Rightarrow> ApprovalGrantMaterial \<Rightarrow>
     string option \<Rightarrow> approvalTransition \<Rightarrow> string \<Rightarrow> instant \<Rightarrow> gateway_state \<Rightarrow> tx_error + (mcp_Grant \<times> AgentGrantRequest) \<times> gateway_state" where
  "approve_write audit rx readable inspect request approved material constraintJSON transition grantID now gs =
     (if list_ex (\<lambda>row. row_id row = grantID) (db_grants (st_db (gs_authority gs))) then Inl (TxError ErrIdentityUnavailable)
      else
        (case insert_grant (approval_grant material constraintJSON grantID now) (gs_authority gs) of
           Inl e \<Rightarrow> Inl e
         | Inr authority \<Rightarrow>
             (case CommitGrantRequestApproval audit rx inspect request approved transition grantID now (gs\<lparr>gs_authority := authority\<rparr>) of
                Inl e \<Rightarrow> Inl e
              | Inr (result, gs1) \<Rightarrow>
                  (case advanceAuthorizationRevisionTx (gs_authority gs1) of
                     Inl e \<Rightarrow> Inl e
                   | Inr authority1 \<Rightarrow>
                       (case grantByIDTx readable now grantID authority1 of
                          Inl e \<Rightarrow> Inl e
                        | Inr grant \<Rightarrow>
                            (case audit_MutationTx audit True ''grant'' ''create'' grantID authority1 of
                               Inl e \<Rightarrow> Inl e
                             | Inr authority2 \<Rightarrow> Inr ((grant, result), gs1\<lparr>gs_authority := authority2\<rparr>)))))))"

definition approve_request_tx ::
  "audit_tables \<Rightarrow> regex_lib \<Rightarrow> bool \<times> bool \<Rightarrow> compiledConstraintCache \<Rightarrow> (string \<Rightarrow> bool) \<Rightarrow> request_inspectors \<Rightarrow> ApproveRequest \<Rightarrow> CompiledPolicy \<Rightarrow>
     instant \<Rightarrow> byte list \<Rightarrow> gateway_state \<Rightarrow> tx_error + (mcp_Grant \<times> AgentGrantRequest) \<times> gateway_state" where
  "approve_request_tx audit rx latches cache readable inspect request approved now entropy gs =
     (case PrepareGrantRequestApproval rx inspect request approved (gs_requests gs) of
        Inl e \<Rightarrow> Inl e
      | Inr (material, transition) \<Rightarrow>
          (case validateApprovalGrantMaterial rx material of
             Inl e \<Rightarrow> Inl e
           | Inr constraintJSON \<Rightarrow>
               (case principalByIDTx (am_PrincipalID material) (gs_authority gs) of
                  Inl e \<Rightarrow> Inl (if e = TxNoRows then TxError ErrInvalidState else e)
                | Inr _ \<Rightarrow>
                    if int (length (db_grants (st_db (gs_authority gs)))) \<ge> mustLimit ''grants'' then Inl (TxError ErrResourceLimit)
                    else if now = zero_instant \<or> UnixMilli now < 0 \<or> UnixMilli now > 2 ^ 48 - 1 then Inl (TxError ErrIdentityUnavailable)
                    else
                      (case HasActiveDenyConflictTx (compileConstraint rx) latches (st_db (gs_authority gs)) cache
                              (am_PrincipalID material) (am_Target material) now of
                         Inl e \<Rightarrow> Inl (TxError e)
                       | Inr conflict \<Rightarrow>
                           if conflict then Inl (TxError ErrConflict)
                           else
                             (case newID now entropy of
                                Inl _ \<Rightarrow> Inl (TxError ErrIdentityUnavailable)
                              | Inr (grantID, _) \<Rightarrow>
                                  approve_write audit rx readable inspect request approved material constraintJSON transition grantID now gs)))))"

definition mapApprovalMutationError :: "tx_error mutate_error \<Rightarrow> bool \<Rightarrow> auth_error" where
  "mapApprovalMutationError err latched =
     (if err = ErrStorageLatched \<or> err = ErrMutationBusy \<or> latched then ErrApprovalUnavailable else mapMutationError err)"

definition mapApprovalError :: "auth_error \<Rightarrow> request_error" where
  "mapApprovalError err =
     (case err of
        ErrNotFound \<Rightarrow> ReqNotFound
      | ErrInvalidInput \<Rightarrow> ReqInvalidInput
      | ErrIdentityUnavailable \<Rightarrow> ReqIdentityUnavailable
      | ErrStaleRevision \<Rightarrow> ReqStaleRevision
      | ErrConflict \<Rightarrow> ReqConflict
      | ErrResourceLimit \<Rightarrow> ReqResourceLimit
      | ErrInvalidState \<Rightarrow> ReqInvalidState
      | UnclassifiedError \<Rightarrow> ReqContext
      | _ \<Rightarrow> ReqStorageUnavailable)"

definition ApproveGrantRequest ::
  "audit_tables \<Rightarrow> regex_lib \<Rightarrow> bool \<times> bool \<Rightarrow> compiledConstraintCache \<Rightarrow> (string \<Rightarrow> bool) \<Rightarrow> request_inspectors \<Rightarrow> driver \<Rightarrow> auth_error option \<Rightarrow> ApproveRequest \<Rightarrow>
     CompiledPolicy \<Rightarrow> instant \<Rightarrow> byte list \<Rightarrow> gateway_state store \<Rightarrow> (auth_error + mcp_Grant \<times> AgentGrantRequest) \<times> gateway_state store" where
  "ApproveGrantRequest audit rx latches cache readable inspect dr gate request approved now entropy store =
     (case gate of
        Some e \<Rightarrow> (Inl (if e = ErrResourceLimit then ErrApprovalUnavailable else e), store)
      | None \<Rightarrow>
          (case mutate dr isStorageFailure (approve_request_tx audit rx latches cache readable inspect request approved now entropy) store of
             (Inr result, store') \<Rightarrow> (Inr result, store')
           | (Inl err, store') \<Rightarrow> (Inl (mapApprovalMutationError err (sto_latched store')), store')))"

definition Approve ::
  "audit_tables \<Rightarrow> regex_lib \<Rightarrow> bool \<times> bool \<Rightarrow> compiledConstraintCache \<Rightarrow> (string \<Rightarrow> bool) \<Rightarrow> request_inspectors \<Rightarrow> driver \<Rightarrow> auth_error option \<Rightarrow> ApproveRequest \<Rightarrow>
     instant \<Rightarrow> byte list \<Rightarrow> gateway_state store \<Rightarrow> (request_error + mcp_Grant \<times> AgentGrantRequest) \<times> gateway_state store" where
  "Approve audit rx latches cache readable inspect dr gate request now entropy store =
     (if \<not> validGrantDescription (apr_Description request) \<or> \<not> validOpaqueID (apr_ID request) \<or> \<not> validExpectedRevision (apr_ExpectedRevision request)
      then (Inl ReqInvalidInput, store)
      else
        (case CompilePolicy rx (apr_ApprovedPolicy request) of
           Inl _ \<Rightarrow> (Inl ReqInvalidInput, store)
         | Inr approved \<Rightarrow>
             (case normalizePolicyTarget approved of
                None \<Rightarrow> (Inl ReqInvalidInput, store)
              | Some _ \<Rightarrow>
                  (case ApproveGrantRequest audit rx latches cache readable inspect dr gate request approved now entropy store of
                     (Inl e, store') \<Rightarrow> (Inl (mapApprovalError e), store')
                   | (Inr result, store') \<Rightarrow> (Inr result, store')))))"

end
