(* ===== verification/Leases.thy ===== *)
theory Leases
  imports Request_Approval
begin

text \<open>
  The authority registry of \<open>internal/authorization\<close>: the exclusive gate with its bounded waiting room, leases and
  their cancellation, draining (\<open>leases.go\<close>), and the admission of a call: evaluation under the gate
  (\<open>admission.go\<close>, \<open>confirmation.go\<close>) and the confirmation that turns one evaluation into an admitted subject; and the
  same two steps for proxied HTTP and Git traffic (\<open>http_admission.go\<close>, \<open>git_admission.go\<close>, \<open>git_tunnels.go\<close>), whose policy
  decision and credential tables are elsewhere: here a decision and an answer about material are given.

  The operations on the registry are functions on the state \<open>authority_sys\<close>. Calls of the repository run
  concurrently; a call in progress is a value of \<open>call\<close>, the place it has reached, and the calls in progress form a
  multiset. \<open>authority_move\<close> is the interleaving: each rule is one step of one call, with the registry's lock, the
  compare-and-swap of a phase, or the gate as the granularity. A context may end at any point, so that a
  call may leave at every place where the code looks at it.

  A lease is its index in the list of all leases ever made, and the same for candidates; the registry's
  own set of leases is \<open>sys_leases\<close>. Four fields are history and not in the code: \<open>sys_admitted\<close> and \<open>sys_transported\<close>, the
  admissions of calls and of traffic in their order, \<open>ec_basis\<close>, what a candidate was evaluated on, and \<open>sys_unnoticed\<close>, the
  principals with a change that was committed although the mutation returned an error on a store that is not latched.
\<close>

datatype leasePhase = leasePending | leaseAdmitted | leaseCancelled | leaseReleased

record Lease =
  ls_binding :: CredentialBinding
  ls_phase :: leasePhase
  ls_closed :: nat

record ResolvedVerification =
  rv_ReadOnlyHint :: bool
  rv_Target :: MCP
  rv_Arguments :: Value
  rv_ObservedAuthorizationRevision :: string

record evaluation_basis =
  eb_request :: ResolvedVerification
  eb_at :: instant
  eb_grant :: "string option"

record EvaluationCandidate =
  ec_lease :: nat
  ec_invocationID :: string
  ec_revision :: string
  ec_used :: bool
  ec_basis :: evaluation_basis

text \<open>
  \<open>HTTPEvaluationCandidate\<close> and \<open>GitEvaluationCandidate\<close>: a Git candidate is for one request object, \<open>tc_request\<close>, and has no opaque origin.
\<close>

record TransportMaterial =
  tm_Credential :: "string \<times> string"
  tm_Generation :: string

record TransportCandidate =
  tc_lease :: nat
  tc_id :: string
  tc_revision :: string
  tc_request :: "nat option"
  tc_material :: "TransportMaterial option"
  tc_used :: bool
  tc_opaqueOrigin :: string
  tc_opaqueRegistered :: bool
  tc_opaqueReleased :: bool

datatype purpose =
    Authenticating string
  | Mutating string "unit authority_tx"
  | Evaluating nat string "ResolvedVerification option"
  | Confirming nat
  | EvaluatingTransport nat string "nat option"
  | ConfirmingTransport nat

datatype call =
    Waiting purpose | Acquired purpose | Holding purpose | BindingRead CredentialBinding | Mutated string bool
  | CancellingHeld "nat list" | Verified nat | VerifiedTransport nat | Finishing | Fenced | Cancelling "nat list" | Removing nat
  | ReleasingOpaque string

record authority_sys =
  sys_store :: "authority_state store"
  sys_draining :: bool
  sys_stopping :: nat
  sys_work :: int
  sys_gate :: bool
  sys_idle :: bool
  sys_leases :: "nat list"
  sys_lease :: "Lease list"
  sys_candidates :: "EvaluationCandidate list"
  sys_transport :: "TransportCandidate list"
  sys_opaque :: "string \<Rightarrow> int"
  sys_closing :: "nat list"
  sys_calls :: "call multiset"
  sys_admitted :: "(nat \<times> AdmittedSubject) list"
  sys_transported :: "nat list"
  sys_unnoticed :: "string list"

abbreviation sys_latched :: "authority_sys \<Rightarrow> bool" where
  "sys_latched s \<equiv> sto_latched (sys_store s)"

abbreviation sys_db :: "authority_sys \<Rightarrow> authority_db" where
  "sys_db s \<equiv> st_db (sto_data (sys_store s))"

abbreviation sys_phase :: "authority_sys \<Rightarrow> nat \<Rightarrow> leasePhase" where
  "sys_phase s l \<equiv> ls_phase (sys_lease s ! l)"

definition newAuthorityRegistry :: "authority_state store \<Rightarrow> authority_sys" where
  "newAuthorityRegistry store =
     \<lparr>sys_store = store, sys_draining = False, sys_stopping = 0, sys_work = 0, sys_gate = False, sys_idle = True,
      sys_leases = [], sys_lease = [], sys_candidates = [], sys_transport = [], sys_opaque = (\<lambda>_. 0), sys_closing = [], sys_calls = {#},
      sys_admitted = [], sys_transported = [], sys_unnoticed = []\<rparr>"

subsection \<open>The registry\<close>

definition reserveWork :: "authority_sys \<Rightarrow> auth_error + authority_sys" where
  "reserveWork s =
     (if sys_draining s then Inl ErrAuthShuttingDown
      else if sys_work s \<ge> mustLimit ''authority_work'' then Inl ErrResourceLimit
      else Inr (s\<lparr>sys_idle := (if sys_work s = 0 then False else sys_idle s), sys_work := sys_work s + 1\<rparr>))"

definition releaseWork :: "authority_sys \<Rightarrow> authority_sys" where
  "releaseWork s =
     (let work = sys_work s - 1 in s\<lparr>sys_work := work, sys_idle := (if work = 0 then True else sys_idle s)\<rparr>)"

definition releaseGate :: "authority_sys \<Rightarrow> authority_sys" where
  "releaseGate s = releaseWork (s\<lparr>sys_gate := False\<rparr>)"

definition lease_register :: "CredentialBinding \<Rightarrow> authority_sys \<Rightarrow> auth_error + authority_sys" where
  "lease_register binding s =
     (if sys_latched s then Inl ErrStorageUnavailable
      else if sys_draining s then Inl ErrAuthShuttingDown
      else
        let lease = \<lparr>ls_binding = binding, ls_phase = leasePending, ls_closed = 0\<rparr>; l = length (sys_lease s) in
        Inr (s\<lparr>sys_lease := sys_lease s @ [lease], sys_leases := l # sys_leases s\<rparr>))"

definition lease_remove :: "nat \<Rightarrow> authority_sys \<Rightarrow> authority_sys" where
  "lease_remove l s = s\<lparr>sys_leases := removeAll l (sys_leases s)\<rparr>"

text \<open>A compare-and-swap of the phase that succeeds, by a call that will close the channel.\<close>

definition swap_phase :: "nat \<Rightarrow> leasePhase \<Rightarrow> authority_sys \<Rightarrow> authority_sys" where
  "swap_phase l phase s = s\<lparr>sys_lease := (sys_lease s)[l := (sys_lease s ! l)\<lparr>ls_phase := phase\<rparr>]\<rparr>"

definition lease_cancel :: "nat \<Rightarrow> authority_sys \<Rightarrow> authority_sys" where
  "lease_cancel l s =
     (if sys_phase s l = leasePending
      then (swap_phase l leaseCancelled s)\<lparr>sys_closing := l # sys_closing s\<rparr>
      else s)"

definition lease_release :: "nat \<Rightarrow> authority_sys \<Rightarrow> authority_sys" where
  "lease_release l s =
     (if sys_phase s l = leaseCancelled \<or> sys_phase s l = leaseReleased then s
      else (swap_phase l leaseReleased s)\<lparr>sys_closing := l # sys_closing s\<rparr>)"

definition lease_close :: "nat \<Rightarrow> authority_sys \<Rightarrow> authority_sys" where
  "lease_close l s =
     s\<lparr>sys_closing := remove1 l (sys_closing s),
       sys_lease := (sys_lease s)[l := (sys_lease s ! l)\<lparr>ls_closed := ls_closed (sys_lease s ! l) + 1\<rparr>]\<rparr>"

definition lease_Current :: "nat \<Rightarrow> authority_sys \<Rightarrow> bool" where
  "lease_Current l s \<longleftrightarrow> sys_phase s l = leasePending \<and> \<not> sys_draining s \<and> \<not> sys_latched s"

definition cancel_collect :: "(Lease \<Rightarrow> bool) \<Rightarrow> authority_sys \<Rightarrow> nat list \<times> authority_sys" where
  "cancel_collect matches s =
     (filter (\<lambda>l. matches (sys_lease s ! l)) (sys_leases s),
      s\<lparr>sys_leases := filter (\<lambda>l. \<not> matches (sys_lease s ! l)) (sys_leases s)\<rparr>)"

definition drain_fence :: "authority_sys \<Rightarrow> authority_sys option" where
  "drain_fence s =
     (if sys_draining s then None else Some (s\<lparr>sys_draining := True, sys_stopping := sys_stopping s + 1\<rparr>))"

subsection \<open>Admission\<close>

definition beginVerification :: "bool \<Rightarrow> bool \<Rightarrow> leasePhase \<Rightarrow> auth_error + unit" where
  "beginVerification context_done latched phase =
     (if context_done then Inl UnclassifiedError
      else if latched then Inl ErrStorageUnavailable
      else if phase \<noteq> leasePending then Inl ErrAuthenticationRequired
      else Inr ())"

datatype ResolvedVerificationPhase = ResolvedUnverified | ResolvedBindingVerified | ResolvedEvaluated

definition VerifyResolvedTx ::
  "regex_lib \<Rightarrow> compiledConstraintCache \<Rightarrow> auth_error + unit \<Rightarrow> authority_db \<Rightarrow> CredentialBinding \<Rightarrow> ResolvedVerification \<Rightarrow> instant \<Rightarrow>
     (auth_error + AuthorizationResult) \<times> ResolvedVerificationPhase" where
  "VerifyResolvedTx rx cache begun db binding request evaluatedAt =
     (if \<not> validOpaqueID (ServerID (rv_Target request)) \<or> \<not> validUpstreamName (ToolName (rv_Target request)) \<or>
         \<not> is_object (rv_Arguments request) \<or> \<not> validObservedAuthorizationRevision (rv_ObservedAuthorizationRevision request)
      then (Inl ErrInvalidInput, ResolvedUnverified)
      else
        (case begun of
           Inl e \<Rightarrow> (Inl e, ResolvedUnverified)
         | Inr _ \<Rightarrow>
             (case verifyCurrentBindingTx db binding of
                Inl e \<Rightarrow> (Inl e, ResolvedUnverified)
              | Inr _ \<Rightarrow>
                  (case fst (evaluateTx (compileConstraint rx) rx db cache (cb_PrincipalID binding) (rv_Target request)
                           (rv_Arguments request) evaluatedAt (rv_ReadOnlyHint request)) of
                     Inl e \<Rightarrow> (Inl e, ResolvedBindingVerified)
                   | Inr result \<Rightarrow> (Inr result, ResolvedEvaluated)))))"

definition VerifyBindingOnlyTx ::
  "auth_error + unit \<Rightarrow> authority_db \<Rightarrow> CredentialBinding \<Rightarrow> instant \<Rightarrow> auth_error + string \<times> string" where
  "VerifyBindingOnlyTx begun db binding now =
     (case begun of
        Inl e \<Rightarrow> Inl e
      | Inr _ \<Rightarrow>
          (case verifyCurrentBindingTx db binding of
             Inl e \<Rightarrow> Inl e
           | Inr _ \<Rightarrow>
               (case authorizationRevisionTx db of
                  Inl e \<Rightarrow> Inl e
                | Inr revision \<Rightarrow>
                    if \<not> validEvaluationTime now then Inl ErrAuthorizationUnavailable
                    else Inr (revision, FormatCanonical now))))"

text \<open>\<open>EvaluateAdmission\<close> under the gate: the candidate an evaluation leaves, if any.\<close>

definition evaluate_admission ::
  "regex_lib \<Rightarrow> compiledConstraintCache \<Rightarrow> bool \<Rightarrow> instant \<Rightarrow> nat \<Rightarrow> string \<Rightarrow> ResolvedVerification option \<Rightarrow> authority_sys \<Rightarrow> EvaluationCandidate option" where
  "evaluate_admission rx cache context_done now l invocationID request s =
     (if sys_phase s l \<noteq> leasePending then None
      else
        (case request of
           None \<Rightarrow> None
         | Some r \<Rightarrow>
             (case fst (VerifyResolvedTx rx cache (beginVerification context_done (sys_latched s) (sys_phase s l)) (sys_db s)
                          (ls_binding (sys_lease s ! l)) r now) of
                Inl _ \<Rightarrow> None
              | Inr result \<Rightarrow>
                  if ar_Decision result = DecisionAllow
                  then Some \<lparr>ec_lease = l, ec_invocationID = invocationID, ec_revision = ar_AuthorizationRevision result, ec_used = False,
                             ec_basis = \<lparr>eb_request = r, eb_at = now, eb_grant = ar_GrantID result\<rparr>\<rparr>
                  else None)))"

definition use_candidate :: "nat \<Rightarrow> string \<Rightarrow> authority_sys \<Rightarrow> authority_sys option" where
  "use_candidate c invocationID s =
     (if c < length (sys_candidates s) \<and> ec_invocationID (sys_candidates s ! c) = invocationID \<and> \<not> ec_used (sys_candidates s ! c)
      then Some (s\<lparr>sys_candidates := (sys_candidates s)[c := (sys_candidates s ! c)\<lparr>ec_used := True\<rparr>]\<rparr>)
      else None)"

text \<open>The view of every confirmation: the lease's binding is current and the revision is the candidate's.\<close>

definition confirm_view :: "nat \<Rightarrow> string \<Rightarrow> authority_sys \<Rightarrow> auth_error + unit" where
  "confirm_view l revision s =
     view (sys_latched s) (sys_latched s) (sys_latched s)
       (case verifyCurrentBindingTx (sys_db s) (ls_binding (sys_lease s ! l)) of
          Inl e \<Rightarrow> Inl e
        | Inr _ \<Rightarrow>
            (case authorizationRevisionTx (sys_db s) of
               Inl e \<Rightarrow> Inl e
             | Inr current \<Rightarrow> if current \<noteq> revision then Inl ErrAuthorizationUnavailable else Inr ()))"

definition admittedSubject :: "CredentialBinding \<Rightarrow> string \<Rightarrow> AdmittedSubject" where
  "admittedSubject binding revision =
     \<lparr>as_owner = 0, as_principalID = cb_PrincipalID binding, as_principalRevision = cb_PrincipalRevision binding,
      as_credentialID = cb_CredentialID binding, as_credentialRevision = cb_CredentialRevision binding,
      as_authorizationRevision = revision\<rparr>"

text \<open>The end of \<open>ConfirmEvaluation\<close>, under the registry's lock and the fence of the store.\<close>

definition confirm_commit :: "nat \<Rightarrow> authority_sys \<Rightarrow> authority_sys option" where
  "confirm_commit c s =
     (let candidate = sys_candidates s ! c; l = ec_lease candidate in
      if sys_draining s then None
      else
        (case ConfirmHealthy
                (\<lambda>s. if sys_phase s l = leasePending
                     then (True, lease_remove l (swap_phase l leaseAdmitted s)) else (False, s)) (sys_latched s) s of
           (False, _) \<Rightarrow> None
         | (True, s') \<Rightarrow>
             Some (s'\<lparr>sys_admitted := sys_admitted s' @
               [(c, admittedSubject (ls_binding (sys_lease s ! l)) (ec_revision candidate))]\<rparr>)))"

subsection \<open>Admission of HTTP and Git traffic\<close>

text \<open>
  \<open>EvaluateHTTPAdmission\<close> and \<open>EvaluateGitAdmission\<close> under the gate, for a given decision of the policy: the candidate they leave.
\<close>

definition evaluate_transport ::
  "bool \<Rightarrow> instant \<Rightarrow> nat \<Rightarrow> string \<Rightarrow> nat option \<Rightarrow> bool \<Rightarrow> TransportMaterial option \<Rightarrow> string \<Rightarrow> authority_sys \<Rightarrow> TransportCandidate option" where
  "evaluate_transport context_done now l requestID request allowed material origin s =
     (if sys_phase s l \<noteq> leasePending then None
      else
        (case view (sys_latched s) (sys_latched s) (sys_latched s)
                (VerifyBindingOnlyTx (beginVerification context_done (sys_latched s) (sys_phase s l)) (sys_db s) (ls_binding (sys_lease s ! l)) now) of
           Inl _ \<Rightarrow> None
         | Inr (revision, evaluatedAt) \<Rightarrow>
             if allowed
             then Some \<lparr>tc_lease = l, tc_id = requestID, tc_revision = revision, tc_request = request, tc_material = material, tc_used = False,
                        tc_opaqueOrigin = (if request = None then origin else []), tc_opaqueRegistered = False, tc_opaqueReleased = False\<rparr>
             else None))"

text \<open>
  The first line of \<open>ConfirmHTTP\<close> and \<open>ConfirmGit\<close>: the candidate is marked used, and \<open>ConfirmGit\<close> compares the request object only then.
\<close>

definition use_transport :: "nat \<Rightarrow> string \<Rightarrow> nat option \<Rightarrow> authority_sys \<Rightarrow> (bool \<times> authority_sys) option" where
  "use_transport k requestID request s =
     (if k < length (sys_transport s) \<and> tc_id (sys_transport s ! k) = requestID \<and> \<not> tc_used (sys_transport s ! k)
      then Some (tc_request (sys_transport s ! k) = request,
                 s\<lparr>sys_transport := (sys_transport s)[k := (sys_transport s ! k)\<lparr>tc_used := True\<rparr>]\<rparr>)
      else None)"

definition transport_detach :: "nat \<Rightarrow> authority_sys \<Rightarrow> authority_sys option" where
  "transport_detach k s =
     (let candidate = sys_transport s ! k; l = tc_lease candidate; origin = tc_opaqueOrigin candidate in
      if sys_draining s then None
      else
        (case ConfirmHealthy
                (\<lambda>s. if sys_phase s l = leasePending
                     then (True,
                       (let s1 = lease_remove l (swap_phase l leaseAdmitted s) in
                        if origin = [] then s1
                        else s1\<lparr>sys_opaque := (sys_opaque s1)(origin := sys_opaque s1 origin + 1),
                                sys_transport := (sys_transport s1)[k := candidate\<lparr>tc_opaqueRegistered := True\<rparr>]\<rparr>))
                     else (False, s)) (sys_latched s) s of
           (False, _) \<Rightarrow> None
         | (True, s') \<Rightarrow> Some (s'\<lparr>sys_transported := sys_transported s' @ [k]\<rparr>)))"

text \<open>
  \<open>ConfirmMaterial\<close> of the HTTP and Git credential services around the detachment: \<open>acquired\<close> is their guard, \<open>current\<close> the
  generation their tables hold.
\<close>

definition ConfirmMaterial ::
  "bool \<Rightarrow> auth_error + string \<Rightarrow> bool \<Rightarrow> string \<Rightarrow> (authority_sys \<Rightarrow> authority_sys option) \<Rightarrow> authority_sys \<Rightarrow> authority_sys option" where
  "ConfirmMaterial acquired current context_done generation confirm s =
     (if \<not> acquired then None
      else
        (case view (sys_latched s) (sys_latched s) (sys_latched s) current of
           Inl _ \<Rightarrow> None
         | Inr found \<Rightarrow> if found \<noteq> generation \<or> context_done \<or> sys_latched s then None else confirm s))"

definition transport_commit :: "bool \<Rightarrow> auth_error + string \<Rightarrow> bool \<Rightarrow> nat \<Rightarrow> authority_sys \<Rightarrow> authority_sys option" where
  "transport_commit acquired current context_done k s =
     (case tc_material (sys_transport s ! k) of
        None \<Rightarrow> transport_detach k s
      | Some material \<Rightarrow> ConfirmMaterial acquired current context_done (tm_Generation material) (transport_detach k) s)"

text \<open>\<open>ReleaseOpaque\<close>: the tunnel is marked released, then its origin is counted down under the registry's lock.\<close>

definition opaque_release :: "nat \<Rightarrow> authority_sys \<Rightarrow> authority_sys option" where
  "opaque_release k s =
     (let candidate = sys_transport s ! k in
      if k < length (sys_transport s) \<and> tc_opaqueOrigin candidate \<noteq> [] \<and> tc_opaqueRegistered candidate \<and> \<not> tc_opaqueReleased candidate
      then Some (s\<lparr>sys_transport := (sys_transport s)[k := candidate\<lparr>tc_opaqueReleased := True\<rparr>]\<rparr>)
      else None)"

definition opaque_settle :: "string \<Rightarrow> authority_sys \<Rightarrow> authority_sys" where
  "opaque_settle origin s =
     s\<lparr>sys_opaque := (sys_opaque s)(origin := if sys_opaque s origin > 1 then sys_opaque s origin - 1 else 0)\<rparr>"

subsection \<open>The mutations behind the gate\<close>

definition discard :: "'a authority_tx \<Rightarrow> unit authority_tx" where
  "discard tx st = map_sum id (\<lambda>r. ((), snd r)) (tx st)"

text \<open>
  An approval of a grant request as a change of the authority tables, whatever requests are stored; and what the mutations of HTTP
  and Git grants, repositories and credentials do to these tables: they advance the revision.
\<close>

definition approval_tx ::
  "audit_tables \<Rightarrow> regex_lib \<Rightarrow> bool \<times> bool \<Rightarrow> compiledConstraintCache \<Rightarrow> (string \<Rightarrow> bool) \<Rightarrow> request_inspectors \<Rightarrow> ApproveRequest \<Rightarrow> CompiledPolicy \<Rightarrow>
     instant \<Rightarrow> byte list \<Rightarrow> request_tables \<Rightarrow> (mcp_Grant \<times> AgentGrantRequest) authority_tx" where
  "approval_tx audit rx latches cache readable inspect request approved now entropy requests st =
     map_sum id (\<lambda>(result, gs). (result, gs_authority gs))
       (approve_request_tx audit rx latches cache readable inspect request approved now entropy \<lparr>gs_authority = st, gs_requests = requests\<rparr>)"

definition AdvanceGitCredentialRevisionTx :: "unit authority_tx" where
  "AdvanceGitCredentialRevisionTx st = map_sum id (Pair ()) (advanceAuthorizationRevisionTx st)"

text \<open>Each mutation, with the principal whose leases it ends.\<close>

inductive authority_operation :: "string \<Rightarrow> unit authority_tx \<Rightarrow> bool" where
  Op_CreatePrincipal: "validOpaqueID principalID \<Longrightarrow> authority_operation [] (discard (create_principal_tx audit readable principalID grantID now create))"
| Op_PatchPrincipal: "authority_operation principalID (discard (patch_principal_tx audit principalID expected patch stamp))"
| Op_IssueCredential: "authority_operation principalID (discard (issue_credential_tx audit principalID expected revision candidate))"
| Op_RevokeCredential: "authority_operation principalID (discard (revoke_credential_tx audit principalID expected stamp))"
| Op_CreateGrant: "authority_operation [] (discard (create_grant_tx audit readable validateTarget grantID now grant))"
| Op_PatchGrant: "authority_operation [] (discard (patch_grant_tx audit readable readable' grantID description revision' now now'))"
| Op_DeleteGrant: "authority_operation [] (discard (delete_grant_tx audit readable grantID now))"
| Op_Approve: "authority_operation [] (discard (approval_tx audit rx latches cache readable inspect approval approved now entropy requests))"
| Op_Advance: "authority_operation [] AdvanceGitCredentialRevisionTx"

subsection \<open>Interleaving\<close>

inductive authority_move :: "regex_lib \<Rightarrow> (string \<Rightarrow> string) \<Rightarrow> authority_sys \<Rightarrow> authority_sys \<Rightarrow> bool"
  for rx :: regex_lib and sha256 :: "string \<Rightarrow> string" where
  Move_reserve:
    "reserveWork s = Inr s1 \<Longrightarrow> (\<And>c. p \<noteq> Confirming c) \<Longrightarrow> (\<And>k. p \<noteq> ConfirmingTransport k) \<Longrightarrow>
     (\<And>affected tx. p = Mutating affected tx \<Longrightarrow> authority_operation affected tx) \<Longrightarrow>
     (\<And>l i r. p = Evaluating l i r \<Longrightarrow> l < length (sys_lease s)) \<Longrightarrow>
     (\<And>l i r. p = EvaluatingTransport l i r \<Longrightarrow> l < length (sys_lease s)) \<Longrightarrow>
     authority_move rx sha256 s (s1\<lparr>sys_calls := add_mset (Waiting p) (sys_calls s)\<rparr>)"
| Move_use:
    "use_candidate c invocationID s = Some s1 \<Longrightarrow> reserveWork s1 = Inr s2 \<Longrightarrow>
     authority_move rx sha256 s (s2\<lparr>sys_calls := add_mset (Waiting (Confirming c)) (sys_calls s)\<rparr>)"
| Move_use_refused:
    "use_candidate c invocationID s = Some s1 \<Longrightarrow> authority_move rx sha256 s s1"
| Move_use_transport:
    "use_transport k requestID request s = Some (True, s1) \<Longrightarrow> reserveWork s1 = Inr s2 \<Longrightarrow>
     authority_move rx sha256 s (s2\<lparr>sys_calls := add_mset (Waiting (ConfirmingTransport k)) (sys_calls s)\<rparr>)"
| Move_use_transport_refused:
    "use_transport k requestID request s = Some (same, s1) \<Longrightarrow> authority_move rx sha256 s s1"
| Move_take:
    "sys_calls s = add_mset (Waiting p) M \<Longrightarrow> \<not> sys_gate s \<Longrightarrow>
     authority_move rx sha256 s (s\<lparr>sys_gate := True, sys_calls := add_mset (Acquired p) M\<rparr>)"
| Move_give_up:
    "sys_calls s = add_mset (Waiting p) M \<Longrightarrow> authority_move rx sha256 s ((releaseWork s)\<lparr>sys_calls := M\<rparr>)"
| Move_refuse:
    "sys_calls s = add_mset (Acquired p) M \<Longrightarrow> authority_move rx sha256 s ((releaseGate s)\<lparr>sys_calls := M\<rparr>)"
| Move_enter:
    "sys_calls s = add_mset (Acquired p) M \<Longrightarrow> \<not> sys_draining s \<Longrightarrow>
     authority_move rx sha256 s (s\<lparr>sys_calls := add_mset (Holding p) M\<rparr>)"
| Move_authenticate:
    "sys_calls s = add_mset (Holding (Authenticating bearer)) M \<Longrightarrow>
     authenticateBinding sha256 (sys_latched s, sys_latched s, sys_latched s) (sys_db s) bearer = Inr binding \<Longrightarrow>
     authority_move rx sha256 s (s\<lparr>sys_calls := add_mset (BindingRead binding) M\<rparr>)"
| Move_register:
    "sys_calls s = add_mset (BindingRead binding) M \<Longrightarrow> lease_register binding s = Inr s1 \<Longrightarrow>
     authority_move rx sha256 s (s1\<lparr>sys_calls := add_mset Finishing M\<rparr>)"
| Move_mutate:
    "sys_calls s = add_mset (Holding (Mutating affected tx)) M \<Longrightarrow>
     mutate dr isStorageFailure tx (sys_store s) = (r, store') \<Longrightarrow>
     authority_move rx sha256 s (s\<lparr>sys_store := store',
       sys_unnoticed := (if is_ok r \<or> sto_latched store' \<or> sto_data store' = sto_data (sys_store s) then sys_unnoticed s
                         else affected # sys_unnoticed s),
       sys_calls := add_mset (Mutated affected (affected \<noteq> [] \<and> (is_ok r \<or> sto_latched store'))) M\<rparr>)"
| Move_mutated:
    "sys_calls s = add_mset (Mutated affected False) M \<Longrightarrow> authority_move rx sha256 s (s\<lparr>sys_calls := add_mset Finishing M\<rparr>)"
| Move_mutated_latched:
    "sys_calls s = add_mset (Mutated affected False) M \<Longrightarrow> affected \<noteq> [] \<Longrightarrow> sys_latched s \<Longrightarrow>
     authority_move rx sha256 s (s\<lparr>sys_calls := add_mset (Mutated affected True) M\<rparr>)"
| Move_collect:
    "sys_calls s = add_mset (Mutated affected True) M \<Longrightarrow>
     cancel_collect (\<lambda>lease. cb_PrincipalID (ls_binding lease) = affected) s = (ls, s1) \<Longrightarrow>
     authority_move rx sha256 s (s1\<lparr>sys_calls := add_mset (CancellingHeld ls) M\<rparr>)"
| Move_cancel_held:
    "sys_calls s = add_mset (CancellingHeld (l # ls)) M \<Longrightarrow>
     authority_move rx sha256 s ((lease_cancel l s)\<lparr>sys_calls := add_mset (CancellingHeld ls) M\<rparr>)"
| Move_cancelled_held:
    "sys_calls s = add_mset (CancellingHeld []) M \<Longrightarrow> authority_move rx sha256 s (s\<lparr>sys_calls := add_mset Finishing M\<rparr>)"
| Move_evaluate:
    "sys_calls s = add_mset (Holding (Evaluating l invocationID request)) M \<Longrightarrow> cache_inv rx cache \<Longrightarrow>
     evaluate_admission rx cache context_done now l invocationID request s = Some candidate \<Longrightarrow>
     authority_move rx sha256 s (s\<lparr>sys_candidates := sys_candidates s @ [candidate], sys_calls := add_mset Finishing M\<rparr>)"
| Move_verify:
    "sys_calls s = add_mset (Holding (Confirming c)) M \<Longrightarrow> 
     confirm_view (ec_lease (sys_candidates s ! c)) (ec_revision (sys_candidates s ! c)) s = Inr () \<Longrightarrow>
     authority_move rx sha256 s (s\<lparr>sys_calls := add_mset (Verified c) M\<rparr>)"
| Move_confirm:
    "sys_calls s = add_mset (Verified c) M \<Longrightarrow> confirm_commit c s = Some s1 \<Longrightarrow>
     authority_move rx sha256 s (s1\<lparr>sys_calls := add_mset Finishing M\<rparr>)"
| Move_evaluate_transport:
    "sys_calls s = add_mset (Holding (EvaluatingTransport l requestID request)) M \<Longrightarrow>
     evaluate_transport context_done now l requestID request allowed material origin s = Some candidate \<Longrightarrow>
     authority_move rx sha256 s (s\<lparr>sys_transport := sys_transport s @ [candidate], sys_calls := add_mset Finishing M\<rparr>)"
| Move_verify_transport:
    "sys_calls s = add_mset (Holding (ConfirmingTransport k)) M \<Longrightarrow>
     confirm_view (tc_lease (sys_transport s ! k)) (tc_revision (sys_transport s ! k)) s = Inr () \<Longrightarrow>
     authority_move rx sha256 s (s\<lparr>sys_calls := add_mset (VerifiedTransport k) M\<rparr>)"
| Move_confirm_transport:
    "sys_calls s = add_mset (VerifiedTransport k) M \<Longrightarrow> transport_commit acquired current context_done k s = Some s1 \<Longrightarrow>
     authority_move rx sha256 s (s1\<lparr>sys_calls := add_mset Finishing M\<rparr>)"
| Move_opaque_release:
    "opaque_release k s = Some s1 \<Longrightarrow>
     authority_move rx sha256 s (s1\<lparr>sys_calls := add_mset (ReleasingOpaque (tc_opaqueOrigin (sys_transport s ! k))) (sys_calls s)\<rparr>)"
| Move_opaque_settle:
    "sys_calls s = add_mset (ReleasingOpaque origin) M \<Longrightarrow> authority_move rx sha256 s ((opaque_settle origin s)\<lparr>sys_calls := M\<rparr>)"
| Move_fail:
    "sys_calls s = add_mset call M \<Longrightarrow>
     (\<exists>p. call = Holding p) \<or> (\<exists>b. call = BindingRead b) \<or> (\<exists>c. call = Verified c) \<or> (\<exists>k. call = VerifiedTransport k) \<Longrightarrow>
     authority_move rx sha256 s (s\<lparr>sys_calls := add_mset Finishing M\<rparr>)"
| Move_finish:
    "sys_calls s = add_mset Finishing M \<Longrightarrow> authority_move rx sha256 s ((releaseGate s)\<lparr>sys_calls := M\<rparr>)"
| Move_fence:
    "drain_fence s = Some s1 \<Longrightarrow> authority_move rx sha256 s (s1\<lparr>sys_calls := add_mset Fenced (sys_calls s)\<rparr>)"
| Move_drain_collect:
    "sys_calls s = add_mset Fenced M \<Longrightarrow> cancel_collect (\<lambda>_. True) s = (ls, s1) \<Longrightarrow>
     authority_move rx sha256 s (s1\<lparr>sys_calls := add_mset (Cancelling ls) M\<rparr>)"
| Move_cancel:
    "sys_calls s = add_mset (Cancelling (l # ls)) M \<Longrightarrow>
     authority_move rx sha256 s ((lease_cancel l s)\<lparr>sys_calls := add_mset (Cancelling ls) M\<rparr>)"
| Move_cancelled:
    "sys_calls s = add_mset (Cancelling []) M \<Longrightarrow> authority_move rx sha256 s (s\<lparr>sys_calls := M\<rparr>)"
| Move_release:
    "l < length (sys_lease s) \<Longrightarrow>
     authority_move rx sha256 s ((lease_release l s)\<lparr>sys_calls := add_mset (Removing l) (sys_calls s)\<rparr>)"
| Move_remove:
    "sys_calls s = add_mset (Removing l) M \<Longrightarrow> authority_move rx sha256 s ((lease_remove l s)\<lparr>sys_calls := M\<rparr>)"
| Move_close:
    "l \<in> set (sys_closing s) \<Longrightarrow> authority_move rx sha256 s (lease_close l s)"
| Move_latch:
    "authority_move rx sha256 s (s\<lparr>sys_store := (sys_store s)\<lparr>sto_latched := True\<rparr>\<rparr>)"
| Move_other_writer:
    "authority_move rx sha256 s (s\<lparr>sys_store := (sys_store s)\<lparr>sto_owned := busy\<rparr>\<rparr>)"

end
