(* ===== verification/Authority_Invariant.thy ===== *)
theory Authority_Invariant
  imports Authority_Mutations
begin

text \<open>
  The invariant of the authority tables along the mutations: what start-up validation
  (\<open>validatePrincipals\<close>, \<open>validateGrants\<close>), authentication (\<open>loadAuthenticationCandidates\<close>) and the scanners demand
  of the rows, and that every mutation keeps it as long as the clock does not go back.
\<close>

subsection \<open>Rows\<close>

definition principal_row_ok :: "instant \<Rightarrow> principal_row \<Rightarrow> bool" where
  "principal_row_ok high row \<longleftrightarrow>
     validOpaqueID (pr_id row) \<and> validDisplayName (pr_displayName row) \<and> validPrincipalState (pr_state row) \<and>
     validVisibility (pr_visibility row) \<and> 1 \<le> pr_revision row \<and> pr_revision row < 2 ^ 63 \<and>
     0 \<le> pr_credentialRevision row \<and> pr_credentialRevision row < 2 ^ 63 \<and>
     slot_present row = slot_complete row \<and>
     (\<exists>created updated. canonicalTimestamp (pr_createdAt row) = Some created \<and>
        canonicalTimestamp (pr_updatedAt row) = Some updated \<and> created \<le> updated \<and> updated \<le> high \<and>
        (slot_complete row \<longrightarrow> pr_credentialRevision row \<noteq> 0 \<and>
           pr_state row = PrincipalState_string PrincipalActive \<and> issued_between row created updated))"

definition grant_row_ok :: "regex_lib \<Rightarrow> (string \<Rightarrow> bool) \<Rightarrow> string set \<Rightarrow> grant_row \<Rightarrow> bool" where
  "grant_row_ok rx stored ids row \<longleftrightarrow>
     \<not> grant_row_invalid (row_sequence row - 1) row \<and> row_principal row \<in> ids \<and> \<not> grant_scope_invalid rx row \<and>
     \<not> grant_times_invalid row \<and> \<not> row_imported row \<and> (row_server row = SyntheticServerID \<or> stored (row_server row))"

definition ascending :: "int \<Rightarrow> int list \<Rightarrow> bool" where
  "ascending high ns \<longleftrightarrow> sorted_wrt (<) ns \<and> (\<forall>n \<in> set ns. 0 < n \<and> n \<le> high)"

definition principals_ok :: "int \<Rightarrow> instant \<Rightarrow> principal_row list \<Rightarrow> bool" where
  "principals_ok sequence high ps \<longleftrightarrow>
     0 \<le> sequence \<and> ascending sequence (map pr_sequence ps) \<and> distinct (map pr_id ps) \<and>
     int (length ps) \<le> mustLimit ''principals'' \<and> list_all (principal_row_ok high) ps"

definition grants_ok :: "regex_lib \<Rightarrow> (string \<Rightarrow> bool) \<Rightarrow> string list \<Rightarrow> int \<Rightarrow> grant_row list \<Rightarrow> bool" where
  "grants_ok rx stored ids sequence gs \<longleftrightarrow>
     0 \<le> sequence \<and> ascending sequence (map row_sequence gs) \<and> distinct (map row_id gs) \<and>
     int (length gs) \<le> mustLimit ''grants'' \<and> list_all (grant_row_ok rx stored (set ids)) gs"

definition defaults_ok :: "string list \<Rightarrow> (string \<times> string \<times> int) list \<Rightarrow> bool" where
  "defaults_ok ids defaults \<longleftrightarrow>
     map fst defaults = ids \<and> list_all (\<lambda>(_, policy, revision). policy \<in> set default_policies \<and> 1 \<le> revision) defaults"

definition tables_ok :: "regex_lib \<Rightarrow> (string \<Rightarrow> bool) \<Rightarrow> instant \<Rightarrow> authority_state \<Rightarrow> bool" where
  "tables_ok rx stored high st \<longleftrightarrow>
     0 \<le> db_revision (st_db st) \<and>
     principals_ok (st_principal_sequence st) high (db_principals (st_db st)) \<and>
     grants_ok rx stored (map pr_id (db_principals (st_db st))) (st_grant_sequence st) (db_grants (st_db st)) \<and>
     defaults_ok (map pr_id (db_principals (st_db st))) (st_defaults st)"

lemma ascending_append: "ascending high ns \<Longrightarrow> 0 \<le> high \<Longrightarrow> ascending (high + 1) (ns @ [high + 1])"
  by (auto simp: ascending_def sorted_wrt_append)

lemma ascending_filter: "ascending high (map f xs) \<Longrightarrow> ascending high (map f (filter P xs))"
  by (auto simp: ascending_def sorted_wrt_map intro: sorted_wrt_filter)

lemma ascending_distinct: "ascending high ns \<Longrightarrow> distinct ns"
  by (simp add: ascending_def strict_sorted_iff)

lemma ascending_sort: "ascending high (map f xs) \<Longrightarrow> sort_key f xs = xs"
  by (simp add: ascending_def strict_sorted_iff sort_key_id_if_sorted)

lemma sort_twice:
  assumes "ascending high (map f xs)"
  shows "sort_key f (sort_key g xs) = xs"
proof -
  have "sort_key f (sort_key g xs) = sort_key f xs"
    by (rule sort_key_cong_perm [symmetric, OF ascending_distinct [OF assms]]) simp
  with ascending_sort [OF assms] show ?thesis by simp
qed

subsection \<open>The readers accept the rows\<close>

lemma principal_row_ok_guards:
  assumes "principal_row_ok high row" and "previous < pr_sequence row"
  shows "\<not> (pr_sequence row \<le> previous \<or> \<not> validOpaqueID (pr_id row) \<or> \<not> validDisplayName (pr_displayName row)
              \<or> \<not> validPrincipalState (pr_state row) \<or> \<not> validVisibility (pr_visibility row)
              \<or> pr_revision row \<le> 0 \<or> pr_credentialRevision row < 0)"
    and "\<not> (pr_sequence row \<le> previous \<or> \<not> validOpaqueID (pr_id row) \<or> \<not> validPrincipalState (pr_state row)
              \<or> \<not> validVisibility (pr_visibility row) \<or> pr_revision row < 1 \<or> pr_credentialRevision row < 0)"
    and "\<not> (slot_present row \<noteq> slot_complete row \<or> pr_credentialRevision row = 0 \<and> slot_complete row
              \<or> pr_state row = PrincipalState_string PrincipalDisabled \<and> slot_complete row)"
    and "\<not> (slot_present row \<noteq> slot_complete row \<or> slot_complete row \<and> pr_credentialRevision row = 0)"
proof -
  have "PrincipalState_string PrincipalActive \<noteq> PrincipalState_string PrincipalDisabled"
    by simp
  then have "pr_state row = PrincipalState_string PrincipalDisabled \<Longrightarrow> \<not> slot_complete row"
      "pr_credentialRevision row = 0 \<Longrightarrow> \<not> slot_complete row" "slot_present row = slot_complete row"
    using assms(1) unfolding principal_row_ok_def by metis+
  then show "\<not> (slot_present row \<noteq> slot_complete row \<or> pr_credentialRevision row = 0 \<and> slot_complete row
              \<or> pr_state row = PrincipalState_string PrincipalDisabled \<and> slot_complete row)"
      "\<not> (slot_present row \<noteq> slot_complete row \<or> slot_complete row \<and> pr_credentialRevision row = 0)"
    by blast+
qed (use assms in \<open>simp_all add: principal_row_ok_def\<close>)

lemma principal_row_ok_times:
  assumes "principal_row_ok high row"
  obtains created updated where "canonicalTimestamp (pr_createdAt row) = Some created"
    and "canonicalTimestamp (pr_updatedAt row) = Some updated" and "created \<le> updated" and "updated \<le> high"
    and "\<not> (slot_complete row \<and> \<not> issued_between row created updated)"
    and "\<not> (slot_complete row \<and> (pr_state row \<noteq> PrincipalState_string PrincipalActive \<or> \<not> issued_between row created updated))"
  using assms unfolding principal_row_ok_def by blast

lemma validate_rows_ok:
  assumes "ascending limit (map pr_sequence rows)" and "\<forall>row \<in> set rows. previous < pr_sequence row"
    and "list_all (principal_row_ok high) rows" and "int (length ids + length rows) \<le> maximum"
    and "distinct (map pr_id rows @ ids)"
  shows "validate_principal_rows maximum previous ids rows = Some (rev (map pr_id rows) @ ids)"
  using assms
proof (induction rows arbitrary: previous ids)
  case (Cons row rows)
  have later: "\<forall>r \<in> set rows. pr_sequence row < pr_sequence r" and order: "ascending limit (map pr_sequence rows)"
    using Cons.prems(1) by (auto simp: ascending_def)
  have rest: "validate_principal_rows maximum (pr_sequence row) (pr_id row # ids) rows = Some (rev (map pr_id rows) @ pr_id row # ids)"
    using Cons.prems by (intro Cons.IH [OF order later]) auto
  have ok: "principal_row_ok high row" and new: "pr_id row \<notin> set ids" and room: "\<not> int (length ids) \<ge> maximum"
      and seq: "previous < pr_sequence row"
    using Cons.prems by auto
  obtain created updated where t: "canonicalTimestamp (pr_createdAt row) = Some created"
      "canonicalTimestamp (pr_updatedAt row) = Some updated" "\<not> updated < created"
      "\<not> (slot_complete row \<and> \<not> issued_between row created updated)"
    using principal_row_ok_times [OF ok] by (metis not_less)
  note guards = principal_row_ok_guards [OF ok seq]
  show ?case
    unfolding validate_principal_rows.simps if_not_P [OF room] if_not_P [OF guards(1)] t(1,2) prod.case option.case
      if_not_P [OF t(3)] if_not_P [OF guards(3)] if_not_P [OF t(4)] if_not_P [OF new] rest
    by simp
qed simp

definition credential_rows :: "principal_row list \<Rightarrow> (CredentialBinding \<times> string) list" where
  "credential_rows rows = map (\<lambda>row. (row_binding row, the (pr_verifier row))) (filter slot_complete rows)"

lemma load_candidates_ok:
  assumes "ascending limit (map pr_sequence rows)" and "\<forall>row \<in> set rows. previous < pr_sequence row"
    and "list_all (principal_row_ok high) rows" and "seen + int (length rows) \<le> maximum"
  shows "load_candidates maximum seen previous rows = Inr (credential_rows rows)"
  using assms
proof (induction rows arbitrary: previous seen)
  case (Cons row rows)
  have later: "\<forall>r \<in> set rows. pr_sequence row < pr_sequence r" and order: "ascending limit (map pr_sequence rows)"
    using Cons.prems(1) by (auto simp: ascending_def)
  have rest: "load_candidates maximum (seen + 1) (pr_sequence row) rows = Inr (credential_rows rows)"
    using Cons.prems by (intro Cons.IH [OF order later]) auto
  have ok: "principal_row_ok high row" and room: "\<not> seen \<ge> maximum" and seq: "previous < pr_sequence row"
    using Cons.prems by auto
  obtain created updated where t: "canonicalTimestamp (pr_createdAt row) = Some created"
      "canonicalTimestamp (pr_updatedAt row) = Some updated" "\<not> updated < created"
      "\<not> (slot_complete row \<and> (pr_state row \<noteq> PrincipalState_string PrincipalActive \<or> \<not> issued_between row created updated))"
    using principal_row_ok_times [OF ok] by (metis not_less)
  note guards = principal_row_ok_guards [OF ok seq]
  show ?case
    unfolding load_candidates.simps if_not_P [OF room] if_not_P [OF guards(2)] t(1,2) prod.case option.case
      if_not_P [OF t(3)] if_not_P [OF guards(4)] if_not_P [OF t(4)] rest sum.case
    by (simp add: credential_rows_def)
qed (simp add: credential_rows_def)

lemma validate_grant_rows_ok:
  assumes "ascending limit (map row_sequence rows)" and "\<forall>row \<in> set rows. previous < row_sequence row"
    and "list_all (grant_row_ok rx stored (set ids)) rows" and "seen + int (length rows) \<le> mustLimit ''grants''"
  shows "validate_grant_rows rx (\<lambda>server. server = SyntheticServerID \<or> stored server) ids seen previous rows"
  using assms
proof (induction rows arbitrary: previous seen)
  case (Cons row rows)
  have later: "\<forall>r \<in> set rows. row_sequence row < row_sequence r" and order: "ascending limit (map row_sequence rows)"
    using Cons.prems(1) by (auto simp: ascending_def)
  have "validate_grant_rows rx (\<lambda>server. server = SyntheticServerID \<or> stored server) ids (seen + 1) (row_sequence row) rows"
    using Cons.prems by (intro Cons.IH [OF order later]) auto
  moreover have "\<not> grant_row_invalid previous row"
    using Cons.prems by (auto simp: grant_row_ok_def grant_row_invalid_def)
  ultimately show ?case
    using Cons.prems by (auto simp: grant_row_ok_def)
qed simp

lemma tables_ok_readers:
  assumes "tables_ok rx stored high st"
  shows "\<exists>ids. validatePrincipals (db_principals (st_db st)) = Inr ids \<and> set ids = set (map pr_id (db_principals (st_db st))) \<and>
      validateGrants rx stored ids (db_grants (st_db st)) = Inr ()"
    and "loadAuthenticationCandidates (st_db st) = Inr (credential_rows (db_principals (st_db st)))"
proof -
  let ?ps = "db_principals (st_db st)" and ?gs = "db_grants (st_db st)"
  note ok = assms [unfolded tables_ok_def principals_ok_def grants_ok_def]
  have pa: "ascending (st_principal_sequence st) (map pr_sequence ?ps)" and ga: "ascending (st_grant_sequence st) (map row_sequence ?gs)"
    using ok by blast+
  have pos: "\<forall>row \<in> set ?ps. 0 < pr_sequence row" "\<forall>row \<in> set ?gs. 0 < row_sequence row"
    using pa ga by (auto simp: ascending_def)
  have len: "length ?ps \<le> 128" "length ?gs \<le> 4096"
    using ok by simp_all
  have ps: "take (nat (mustLimit ''principals'' + 1)) (sort_key pr_sequence ?ps) = ?ps"
      "take (nat (mustLimit ''principals'' + 1)) (sort_key pr_sequence (sort_key pr_id ?ps)) = ?ps"
    using ascending_sort [OF pa] sort_twice [OF pa] len by simp_all
  have gs: "take (nat (mustLimit ''grants'' + 1)) (sort_key row_sequence (sort_key row_id ?gs)) = ?gs"
    using sort_twice [OF ga] len by simp
  have v: "validate_principal_rows (mustLimit ''principals'') 0 [] ?ps = Some (rev (map pr_id ?ps) @ [])"
    by (rule validate_rows_ok [OF pa pos(1)]) (use ok in auto)
  have g: "validate_grant_rows rx (\<lambda>server. server = SyntheticServerID \<or> stored server) (rev (map pr_id ?ps)) 0 0 ?gs"
    by (rule validate_grant_rows_ok [OF ga pos(2)]) (use ok in auto)
  show "\<exists>ids. validatePrincipals ?ps = Inr ids \<and> set ids = set (map pr_id ?ps) \<and> validateGrants rx stored ids ?gs = Inr ()"
    using v g ps gs by (intro exI [of _ "rev (map pr_id ?ps)"]) (simp add: validatePrincipals_def validateGrants_def Let_def)
  have "load_candidates (mustLimit ''principals'') 0 0 ?ps = Inr (credential_rows ?ps)"
    by (rule load_candidates_ok [OF pa pos(1)]) (use ok in auto)
  with ps show "loadAuthenticationCandidates (st_db st) = Inr (credential_rows ?ps)"
    by (simp only: loadAuthenticationCandidates_def Let_def)
qed

subsection \<open>The pieces of the mutations keep the tables valid\<close>

lemma valid_time_canonical: "validEvaluationTime now \<Longrightarrow> canonicalTimestamp (FormatCanonical now) = Some now"
  by (rule canonicalTimestamp_Format) (simp_all add: validEvaluationTime_def)

lemma principal_row_ok_mono: "principal_row_ok high row \<Longrightarrow> high \<le> high' \<Longrightarrow> principal_row_ok high' row"
  unfolding principal_row_ok_def by (meson order_trans)

lemma principals_ok_mono: "principals_ok sequence high ps \<Longrightarrow> high \<le> high' \<Longrightarrow> principals_ok sequence high' ps"
  unfolding principals_ok_def list_all_iff by (meson principal_row_ok_mono)

lemma tables_ok_mono: "tables_ok rx stored high st \<Longrightarrow> high \<le> high' \<Longrightarrow> tables_ok rx stored high' st"
  unfolding tables_ok_def using principals_ok_mono by blast

lemma tables_ok_audit [simp]: "tables_ok rx stored high (st\<lparr>st_audit := a\<rparr>) \<longleftrightarrow> tables_ok rx stored high st"
  by (simp add: tables_ok_def)

lemma audit_ok: "audit_MutationTx audit system category action target st = Inr st' \<Longrightarrow> \<exists>a. st' = st\<lparr>st_audit := a\<rparr>"
  by (auto simp: audit_MutationTx_def Let_def split: option.splits)

lemma audit_keeps [inv_intros]:
  "audit_MutationTx audit system category action target st = Inr st' \<Longrightarrow> tables_ok rx stored high st \<Longrightarrow> tables_ok rx stored high st'"
  using audit_ok by force

lemma advance_ok:
  "advanceAuthorizationRevisionTx st = Inr st' \<Longrightarrow> st' = st\<lparr>st_db := (st_db st)\<lparr>db_revision := db_revision (st_db st) + 1\<rparr>\<rparr>"
  by (auto simp: advanceAuthorizationRevisionTx_def increment_def split: if_splits)

lemma advance_keeps [inv_intros]:
  "advanceAuthorizationRevisionTx st = Inr st' \<Longrightarrow> tables_ok rx stored high st \<Longrightarrow> tables_ok rx stored high st'"
  using advance_ok [of st st'] by (simp add: tables_ok_def)

lemma incrementD: "increment n = Inr m \<Longrightarrow> m = n + 1 \<and> n < 2 ^ 63 - 1"
  by (auto simp: increment_def split: if_splits)

lemma active_visible: "validPrincipalState ''active''"
  by (simp add: validPrincipalState_def)

lemma new_principal_ok:
  assumes "validOpaqueID principalID" and "validDisplayName name" and "validVisibility visibility" and "validEvaluationTime now"
  shows "principal_row_ok now \<lparr>pr_sequence = sequence, pr_id = principalID, pr_displayName = name,
     pr_state = ''active'', pr_visibility = visibility, pr_revision = 1, pr_credentialRevision = 0,
     pr_credentialID = None, pr_verifier = None, pr_fingerprint = None, pr_credentialAt = None,
     pr_createdAt = FormatCanonical now, pr_updatedAt = FormatCanonical now\<rparr>"
  unfolding principal_row_ok_def
  by (simp add: assms active_visible slot_present_def slot_complete_def valid_time_canonical)

lemma insert_principal_keeps:
  assumes "insert_principal principalID request (FormatCanonical now) st = Inr st'" and "tables_ok rx stored high st"
    and "high \<le> now" and "validEvaluationTime now" and "validOpaqueID principalID"
    and "validDisplayName (cpr_DisplayName request)" and "validVisibility (cpr_Visibility request)"
    and "principalID \<notin> set (map pr_id (db_principals (st_db st)))"
    and "int (length (db_principals (st_db st))) < mustLimit ''principals''"
  shows "tables_ok rx stored now st'"
proof -
  obtain n where n: "increment (st_principal_sequence st) = Inr n"
    using assms(1) by (cases "increment (st_principal_sequence st)") (simp_all add: insert_principal_def)
  note seq = incrementD [OF n]
  let ?row = "\<lparr>pr_sequence = n, pr_id = principalID, pr_displayName = cpr_DisplayName request,
     pr_state = ''active'', pr_visibility = cpr_Visibility request, pr_revision = 1, pr_credentialRevision = 0,
     pr_credentialID = None, pr_verifier = None, pr_fingerprint = None, pr_credentialAt = None,
     pr_createdAt = FormatCanonical now, pr_updatedAt = FormatCanonical now\<rparr>"
  let ?policy = "if cpr_HTTPDefault request = Some ''allow'' then ''allow'' else ''block''"
  have st': "st' = st\<lparr>st_db := (st_db st)\<lparr>db_principals := db_principals (st_db st) @ [?row]\<rparr>,
      st_principal_sequence := n, st_defaults := st_defaults st @ [(principalID, ?policy, 1)]\<rparr>"
    using assms(1) n by (simp add: insert_principal_def Let_def)
  note ok = tables_ok_mono [OF assms(2,3), unfolded tables_ok_def]
  have "principals_ok n now (db_principals (st_db st) @ [?row])"
    using ok seq assms(8,9) ascending_append new_principal_ok [OF assms(5-7,4)] by (simp add: principals_ok_def)
  moreover have "grants_ok rx stored (map pr_id (db_principals (st_db st) @ [?row])) (st_grant_sequence st) (db_grants (st_db st))"
    using ok unfolding grants_ok_def list_all_iff grant_row_ok_def by simp
  moreover have "defaults_ok (map pr_id (db_principals (st_db st) @ [?row])) (st_defaults st @ [(principalID, ?policy, 1)])"
    using ok by (simp add: defaults_ok_def default_policies_def)
  ultimately show ?thesis
    using ok unfolding st' by (simp add: tables_ok_def)
qed

lemma insert_grant_keeps:
  assumes "insert_grant row st = Inr st'" and "tables_ok rx stored high st"
    and "\<And>n. 0 < n \<Longrightarrow> grant_row_ok rx stored (set (map pr_id (db_principals (st_db st)))) (row\<lparr>row_sequence := n\<rparr>)"
    and "row_id row \<notin> set (map row_id (db_grants (st_db st)))"
    and "int (length (db_grants (st_db st))) < mustLimit ''grants''"
  shows "tables_ok rx stored high st'"
proof -
  obtain n where n: "increment (st_grant_sequence st) = Inr n"
    using assms(1) by (cases "increment (st_grant_sequence st)") (simp_all add: insert_grant_def)
  note seq = incrementD [OF n]
  have st': "st' = st\<lparr>st_db := (st_db st)\<lparr>db_grants := db_grants (st_db st) @ [row\<lparr>row_sequence := n\<rparr>]\<rparr>, st_grant_sequence := n\<rparr>"
    using assms(1) n by (simp add: insert_grant_def)
  note ok = assms(2) [unfolded tables_ok_def]
  have "0 < n"
    using ok seq by (simp add: grants_ok_def)
  then have "grants_ok rx stored (map pr_id (db_principals (st_db st))) n (db_grants (st_db st) @ [row\<lparr>row_sequence := n\<rparr>])"
    using ok seq assms(3-5) ascending_append by (simp add: grants_ok_def)
  with ok show ?thesis
    unfolding st' by (simp add: tables_ok_def)
qed

lemma update_principal_keeps:
  assumes "tables_ok rx stored high st" and "high \<le> high'"
    and "\<And>row. pr_id (f row) = pr_id row \<and> pr_sequence (f row) = pr_sequence row"
    and "\<And>row. row \<in> set (db_principals (st_db st)) \<Longrightarrow> pr_id row = principalID \<Longrightarrow> principal_row_ok high row \<Longrightarrow> principal_row_ok high' (f row)"
  shows "tables_ok rx stored high' (update_principal principalID f st)"
proof -
  let ?g = "\<lambda>row. if pr_id row = principalID then f row else row"
  have same: "map pr_id (map ?g rows) = map pr_id rows" "map pr_sequence (map ?g rows) = map pr_sequence rows" for rows
    using assms(3) by simp_all
  note ok = assms(1) [unfolded tables_ok_def]
  then have "principals_ok (st_principal_sequence st) high' (map ?g (db_principals (st_db st)))"
    using assms(2,4) principal_row_ok_mono unfolding principals_ok_def same list_all_iff by auto
  with ok show ?thesis
    unfolding tables_ok_def update_principal_def by (simp add: same del: map_map)
qed

lemma clear_credential_slot [simp]: "\<not> slot_complete (clear_credential row)" "\<not> slot_present (clear_credential row)"
  by (simp_all add: slot_complete_def slot_present_def clear_credential_def)

lemma row_ok_stamped:
  assumes "principal_row_ok high row" and "high \<le> stamp" and "validEvaluationTime stamp"
    and "validDisplayName name" and "validPrincipalState state" and "validVisibility visibility"
    and "pr_revision row < 2 ^ 63 - 1" and "slot_complete row \<longrightarrow> state = PrincipalState_string PrincipalActive"
  shows "principal_row_ok stamp (row\<lparr>pr_displayName := name, pr_state := state, pr_visibility := visibility,
     pr_revision := pr_revision row + 1, pr_updatedAt := FormatCanonical stamp\<rparr>)" (is "principal_row_ok stamp ?row")
proof -
  have slots: "slot_complete ?row = slot_complete row" "slot_present ?row = slot_present row"
      "issued_between ?row = issued_between row"
    by (simp_all add: slot_complete_def slot_present_def issued_between_def fun_eq_iff)
  obtain created updated where t: "canonicalTimestamp (pr_createdAt row) = Some created" "created \<le> updated" "updated \<le> high"
      and issued: "slot_complete row \<Longrightarrow> issued_between row created updated"
    by (rule principal_row_ok_times [OF assms(1)]) blast
  have "slot_complete row \<Longrightarrow> issued_between row created stamp"
    using issued t(3) assms(2) by (auto simp: issued_between_def split: option.splits)
  moreover have "created \<le> stamp"
    using t(2,3) assms(2) by simp
  ultimately show ?thesis
    using assms(1,4-8) t(1) valid_time_canonical [OF assms(3)] unfolding principal_row_ok_def slots by auto
qed

lemma row_ok_cleared:
  assumes "principal_row_ok high row" and "0 \<le> n" and "n < 2 ^ 63"
  shows "principal_row_ok high (clear_credential (row\<lparr>pr_credentialRevision := n\<rparr>))"
  using assms unfolding principal_row_ok_def
  by (auto simp: clear_credential_slot) (auto simp: clear_credential_def)

lemma same_identity [simp]:
  "pr_id (clear_credential row) = pr_id row" "pr_sequence (clear_credential row) = pr_sequence row"
  "pr_id (patched_row displayName state visibility disabling stamp row) = pr_id row"
  "pr_sequence (patched_row displayName state visibility disabling stamp row) = pr_sequence row"
  "pr_id (issued_row candidate row) = pr_id row" "pr_sequence (issued_row candidate row) = pr_sequence row"
  "pr_id (revoked_row stamp row) = pr_id row" "pr_sequence (revoked_row stamp row) = pr_sequence row"
  by (simp_all add: clear_credential_def patched_row_def issued_row_def revoked_row_def Let_def)

lemma patched_row_ok:
  assumes "principal_row_ok high row" and "high \<le> stamp" and "validEvaluationTime stamp"
    and "validDisplayName name" and "validPrincipalState state" and "validVisibility visibility"
    and "can_increment disabling row" and "disabling \<longleftrightarrow> state \<noteq> pr_state row \<and> state = PrincipalState_string PrincipalDisabled"
  shows "principal_row_ok stamp (patched_row name state visibility disabling (FormatCanonical stamp) row)"
proof (cases disabling)
  case True
  let ?cleared = "clear_credential (row\<lparr>pr_credentialRevision := pr_credentialRevision row + 1\<rparr>)"
  have "principal_row_ok high ?cleared"
    by (rule row_ok_cleared [OF assms(1)]) (use assms(1,7) True in \<open>auto simp: principal_row_ok_def can_increment_def\<close>)
  moreover have "pr_revision ?cleared < 2 ^ 63 - 1"
    using assms(7) by (simp add: clear_credential_def can_increment_def)
  ultimately have "principal_row_ok stamp (?cleared\<lparr>pr_displayName := name, pr_state := state, pr_visibility := visibility,
      pr_revision := pr_revision ?cleared + 1, pr_updatedAt := FormatCanonical stamp\<rparr>)"
    by (intro row_ok_stamped [OF _ assms(2-6)]) simp_all
  with True show ?thesis
    by (cases row) (simp add: patched_row_def clear_credential_def)
next
  case False
  have "slot_complete row \<longrightarrow> state = PrincipalState_string PrincipalActive"
    using assms(1,5,8) False unfolding principal_row_ok_def validPrincipalState_def by metis
  from row_ok_stamped [OF assms(1-6) _ this] False assms(7) show ?thesis
    by (simp add: patched_row_def can_increment_def Let_def)
qed

lemma revoked_row_ok:
  assumes "principal_row_ok high row" and "high \<le> stamp" and "validEvaluationTime stamp" and "can_increment True row"
  shows "principal_row_ok stamp (revoked_row (FormatCanonical stamp) row)"
proof -
  let ?cleared = "clear_credential (row\<lparr>pr_credentialRevision := pr_credentialRevision row + 1\<rparr>)"
  have "principal_row_ok high ?cleared"
    by (rule row_ok_cleared [OF assms(1)]) (use assms(1,4) in \<open>auto simp: principal_row_ok_def can_increment_def\<close>)
  then have "principal_row_ok stamp (?cleared\<lparr>pr_displayName := pr_displayName row, pr_state := pr_state row,
      pr_visibility := pr_visibility row, pr_revision := pr_revision ?cleared + 1, pr_updatedAt := FormatCanonical stamp\<rparr>)"
    by (rule row_ok_stamped [OF _ assms(2,3)])
      (use assms(1,4) in \<open>auto simp: principal_row_ok_def can_increment_def clear_credential_def slot_complete_def\<close>)
  then show ?thesis
    by (cases row) (simp add: revoked_row_def clear_credential_def)
qed

definition candidate_ok :: "instant \<Rightarrow> credentialCandidate \<Rightarrow> bool" where
  "candidate_ok now candidate \<longleftrightarrow>
     validOpaqueID (cand_id candidate) \<and> length (cand_verifier candidate) = 32 \<and>
     validFingerprint (cand_fingerprint candidate) \<and> cand_createdAt candidate = FormatCanonical now"

lemma hex_digit_ok: "n < 16 \<Longrightarrow> \<not> (hex_digits ! n < CHR ''0'' \<or> hex_digits ! n > CHR ''9'' \<and> hex_digits ! n < CHR ''a'' \<or> hex_digits ! n > CHR ''f'')"
proof -
  assume "n < 16"
  then have "hex_digits ! n \<in> set hex_digits"
    by (intro nth_mem) (simp add: hex_digits_def)
  moreover have "list_all (\<lambda>c. \<not> (c < CHR ''0'' \<or> c > CHR ''9'' \<and> c < CHR ''a'' \<or> c > CHR ''f'')) hex_digits"
    by (simp add: hex_digits_def less_char_def)
  ultimately show ?thesis
    unfolding list_all_iff by blast
qed

lemma hex_encode_digits:
  "length (hex_encode s) = 2 * length s \<and>
   list_all (\<lambda>c. \<not> (c < CHR ''0'' \<or> c > CHR ''9'' \<and> c < CHR ''a'' \<or> c > CHR ''f'')) (hex_encode s)"
proof (induction s)
  case (Cons c s)
  have "(byte_val c :: nat) div 16 < 16" "(byte_val c :: nat) mod 16 < 16"
    using char_byte_bound [of c] by (auto intro: less_mult_imp_div_less)
  moreover have "hex_encode (c # s) = hex_digits ! (byte_val c div 16) # hex_digits ! (byte_val c mod 16) # hex_encode s"
    by (simp add: hex_encode_def)
  ultimately show ?case
    using Cons hex_digit_ok by simp
qed (simp add: hex_encode_def)

lemma newID_valid: "newID now entropy = Inr (id', rest) \<Longrightarrow> validOpaqueID id'"
  using newID_Inr base32_valid identity_number_bound by metis

lemma prepareCredential_ok:
  assumes "prepareCredential sha256 now entropy = Inr (candidate, rest)" and "\<And>s. length (sha256 s) = 32"
  shows "candidate_ok now candidate \<and>
    (\<exists>secret. length secret = 32 \<and> cand_bearer candidate = AgentBearerPrefix @ base64_encode (byte_text secret)) \<and>
    cand_verifier candidate = agentVerifierForBearer sha256 (cand_bearer candidate)"
proof -
  obtain secret entropy1 where secret: "ReadFull agentBearerEntropyBytes entropy = Some (secret, entropy1)"
    using assms(1) by (cases "ReadFull agentBearerEntropyBytes entropy") (auto simp: prepareCredential_def)
  then have len: "length secret = 32"
    by (auto simp: ReadFull_def agentBearerEntropyBytes_def split: if_splits)
  obtain cid entropy2 where cid: "newID now entropy1 = Inr (cid, entropy2)"
    using assms(1) secret by (cases "newID now entropy1") (auto simp: prepareCredential_def)
  define bearer where "bearer = AgentBearerPrefix @ base64_encode (byte_text secret)"
  define digest where "digest = sha256 (''mcp-gateway/agent-fingerprint/v1'' @ [CHR 0x00] @ agentVerifierForBearer sha256 bearer)"
  have candidate: "candidate = \<lparr>cand_id = cid, cand_bearer = bearer, cand_verifier = agentVerifierForBearer sha256 bearer,
      cand_fingerprint = hex_encode (take 8 digest), cand_createdAt = FormatCanonical now\<rparr>"
    using assms(1) secret cid by (simp add: prepareCredential_def Let_def bearer_def digest_def)
  have "length digest = 32"
    by (simp add: digest_def assms(2))
  then have "validFingerprint (hex_encode (take 8 digest))"
    using hex_encode_digits [of "take 8 digest"] by (simp add: validFingerprint_def)
  then show ?thesis
    using newID_valid [OF cid] len assms(2)
    by (auto simp: candidate candidate_ok_def agentVerifierForBearer_def bearer_def)
qed

lemma issued_row_ok:
  assumes "principal_row_ok high row" and "high \<le> now" and "validEvaluationTime now" and "candidate_ok now candidate"
    and "pr_state row = PrincipalState_string PrincipalActive" and "can_increment True row"
  shows "principal_row_ok now (issued_row candidate row)"
proof -
  let ?row = "issued_row candidate row"
  note c = assms(4) [unfolded candidate_ok_def]
  have slots: "slot_complete ?row" "slot_present ?row"
    using c by (simp_all add: slot_complete_def slot_present_def issued_row_def)
  obtain created where t: "canonicalTimestamp (pr_createdAt row) = Some created" "created \<le> now"
    using principal_row_ok_times [OF assms(1)] assms(2) by (metis order_trans)
  have time: "canonicalTimestamp (FormatCanonical now) = Some now"
    by (rule valid_time_canonical [OF assms(3)])
  have issued: "issued_between ?row created now"
    using c t(2) time by (simp add: issued_between_def issued_row_def)
  have fields: "pr_id ?row = pr_id row" "pr_displayName ?row = pr_displayName row" "pr_state ?row = pr_state row"
      "pr_visibility ?row = pr_visibility row" "pr_revision ?row = pr_revision row + 1" "pr_createdAt ?row = pr_createdAt row"
      "pr_credentialRevision ?row = pr_credentialRevision row + 1" "pr_updatedAt ?row = FormatCanonical now"
    using c by (simp_all add: issued_row_def)
  from assms(1,5,6) slots t time issued show ?thesis
    unfolding principal_row_ok_def can_increment_def fields by auto
qed

lemma principalByIDTx_Inr:
  assumes "principalByIDTx principalID st = Inr current"
  shows "\<exists>row. principal_by_id principalID (st_db st) = Some row \<and> row \<in> set (db_principals (st_db st)) \<and> pr_id row = principalID \<and>
    p_Revision current = FormatInt (pr_revision row) \<and> p_CredentialRevision current = FormatInt (pr_credentialRevision row) \<and>
    p_State current = pr_state row \<and> p_DisplayName current = pr_displayName row \<and> p_Visibility current = pr_visibility row \<and>
    p_ID current = principalID \<and> (p_Credential current = None \<longleftrightarrow> pr_credentialID row = None)"
proof -
  obtain row where row: "principal_by_id principalID (st_db st) = Some row" and scan: "map_sum id snd (scanPrincipal st row) = Inr current"
    using assms by (cases "principal_by_id principalID (st_db st)") (simp_all add: principalByIDTx_def)
  have "row \<in> set (db_principals (st_db st))" "pr_id row = principalID"
    using find_SomeD [OF row [unfolded principal_by_id_def]] by simp_all
  moreover obtain policy revision where "map_of (st_defaults st) (pr_id row) = Some (policy, revision)"
    using scan by (cases "map_of (st_defaults st) (pr_id row)") (auto simp: scanPrincipal_def)
  moreover obtain credential where "scan_credential row = Inr credential"
    using scan by (cases "scan_credential row") (auto simp: scanPrincipal_def split: option.splits if_splits)
  moreover from this have "credential = None \<longleftrightarrow> pr_credentialID row = None"
    by (auto simp: scan_credential_def split: option.splits)
  ultimately show ?thesis
    using scan row unfolding scanPrincipal_def by (cases "policy \<noteq> ''allow'' \<and> policy \<noteq> ''block''") auto
qed

lemma map_sum_Pair_Inr [simp]: "map_sum id (Pair x) r = Inr (y, s) \<longleftrightarrow> x = y \<and> r = Inr s"
  by (cases r) auto

subsection \<open>The transactions keep the tables valid\<close>

lemma validRevision_FormatUint: "0 < n \<Longrightarrow> n < 2 ^ 64 \<Longrightarrow> validRevision (FormatUint n)"
  unfolding validRevision_def by (subst ParseUint_FormatUint) simp_all

lemma first_revision: "validRevision ''1''"
proof -
  have "FormatUint 1 = ''1''"
    by code_simp
  with validRevision_FormatUint [of 1] show ?thesis
    by simp
qed

lemma default_grant_name: "validGrantDescription (Some DefaultGrantName)"
proof -
  have "trimmed DefaultGrantName"
    by (simp add: trimmed_def space_runes_def EncodeRune_def upt_rec HasPrefix_def HasSuffix_def DefaultGrantName_def char_of_def)
  moreover have "utf8_valid DefaultGrantName" "\<not> has_control DefaultGrantName"
    by code_simp+
  moreover have "length DefaultGrantName = 22"
    by (simp add: DefaultGrantName_def)
  ultimately show ?thesis
    by (simp add: validGrantDescription_def)
qed

lemma default_grant_ok:
  assumes "validOpaqueID grantID" and "validOpaqueID principalID" and "validEvaluationTime now" and "principalID \<in> ids" and "0 < n"
  shows "grant_row_ok rx stored ids (default_grant grantID principalID (FormatCanonical now)\<lparr>row_sequence := n\<rparr>)"
proof -
  have "validOpaqueID SyntheticServerID" "validGrantEffect ''allow''"
    by code_simp+
  with assms first_revision default_grant_name show ?thesis
    by (simp add: grant_row_ok_def grant_row_invalid_def grant_scope_invalid_def grant_times_invalid_def default_grant_def
        valid_time_canonical)
qed

lemma create_principal_tx_Inr:
  assumes "create_principal_tx audit readable principalID grantID now request st = Inr (x, st')"
  shows "\<exists>st1 st2 st3 st4. checkPrincipalCreationCapacity st = Inr () \<and>
    principalID \<notin> set (map pr_id (db_principals (st_db st))) \<and> grantID \<notin> set (map row_id (db_grants (st_db st))) \<and>
    insert_principal principalID request (FormatCanonical now) st = Inr st1 \<and>
    insert_grant (default_grant grantID principalID (FormatCanonical now)) st1 = Inr st2 \<and>
    advanceAuthorizationRevisionTx st2 = Inr st3 \<and>
    audit_MutationTx audit False ''principal'' ''create'' principalID st3 = Inr st4 \<and>
    audit_MutationTx audit True ''grant'' ''create'' grantID st4 = Inr st'"
  using assms unfolding create_principal_tx_def
  by (auto split: sum.splits if_splits)

lemma insert_principal_rows:
  assumes "insert_principal principalID request timestamp st = Inr st1"
  shows "principalID \<in> set (map pr_id (db_principals (st_db st1)))" and "db_grants (st_db st1) = db_grants (st_db st)"
  using assms by (auto simp: insert_principal_def Let_def split: sum.splits)

lemma create_principal_tx_keeps:
  assumes "create_principal_tx audit readable principalID grantID now request st = Inr (x, st')" and "tables_ok rx stored high st"
    and "high \<le> now" and "validEvaluationTime now" and "validOpaqueID principalID" and "validOpaqueID grantID"
    and "validDisplayName (cpr_DisplayName request)" and "validVisibility (cpr_Visibility request)"
  shows "tables_ok rx stored now st'"
proof -
  obtain st1 st2 st3 st4 where run: "checkPrincipalCreationCapacity st = Inr ()"
      "principalID \<notin> set (map pr_id (db_principals (st_db st)))" "grantID \<notin> set (map row_id (db_grants (st_db st)))"
      "insert_principal principalID request (FormatCanonical now) st = Inr st1"
      "insert_grant (default_grant grantID principalID (FormatCanonical now)) st1 = Inr st2"
      "advanceAuthorizationRevisionTx st2 = Inr st3"
      "audit_MutationTx audit False ''principal'' ''create'' principalID st3 = Inr st4"
      "audit_MutationTx audit True ''grant'' ''create'' grantID st4 = Inr st'"
    using create_principal_tx_Inr [OF assms(1)] by blast
  have room: "int (length (db_principals (st_db st))) < mustLimit ''principals''" "int (length (db_grants (st_db st))) < mustLimit ''grants''"
    using run(1) by (auto simp: checkPrincipalCreationCapacity_def split: if_splits)
  note rows = insert_principal_rows [OF run(4)]
  have "tables_ok rx stored now st1"
    by (rule insert_principal_keeps [OF run(4) assms(2-5,7,8) run(2) room(1)])
  moreover have "row_id (default_grant grantID principalID (FormatCanonical now)) \<notin> set (map row_id (db_grants (st_db st1)))"
    using run(3) rows(2) by (simp add: default_grant_def)
  ultimately have "tables_ok rx stored now st2"
    using room(2) rows default_grant_ok [OF assms(6,5,4) rows(1)]
    by (intro insert_grant_keeps [OF run(5)]) simp_all
  with run(6-8) show ?thesis
    using advance_keeps audit_keeps by meson
qed

lemma update_default_keeps:
  assumes "update_default principalID policy st = Inr st'" and "tables_ok rx stored high st" and "policy \<in> set default_policies"
  shows "tables_ok rx stored high st'"
proof -
  obtain old n where old: "map_of (st_defaults st) principalID = Some (old, n)"
    using assms(1) by (cases "map_of (st_defaults st) principalID") (auto simp: update_default_def)
  let ?g = "\<lambda>(key, old). if key = principalID then (key, policy, n + 1) else (key, old)"
  have st': "st' = st\<lparr>st_defaults := map ?g (st_defaults st)\<rparr>"
    using assms(1) old incrementD by (cases "increment n") (auto simp: update_default_def)
  have "(principalID, old, n) \<in> set (st_defaults st)"
    using old by (rule map_of_SomeD)
  then have "1 \<le> n"
    using assms(2) by (auto simp: tables_ok_def defaults_ok_def list_all_iff)
  have "defaults_ok ids (map ?g ds)" if "defaults_ok ids ds" for ids ds
    using that assms(3) \<open>1 \<le> n\<close> unfolding defaults_ok_def by (auto simp: list_all_iff split: if_splits)
  with assms(2) show ?thesis
    unfolding st' by (simp add: tables_ok_def)
qed

lemma patch_finish_keeps:
  assumes "patch_finish audit principalID current stateChanged defaultChanged disabling httpDefault st = Inr (x, st')"
    and "tables_ok rx stored high st" and "defaultChanged \<Longrightarrow> httpDefault \<in> set default_policies"
  shows "tables_ok rx stored high st'"
proof -
  obtain st2 where st2: "(if defaultChanged
            then (case update_default principalID httpDefault st of
                    Inl e \<Rightarrow> Inl e
                  | Inr st1 \<Rightarrow> audit_MutationTx audit False ''http_default'' ''update'' principalID st1)
            else Inr st) = Inr st2"
    using assms(1) unfolding patch_finish_def by (auto split: sum.splits)
  have ok2: "tables_ok rx stored high st2"
    using st2 assms(2,3) update_default_keeps audit_keeps by (auto split: if_splits sum.splits)
  obtain st3 where st3: "(if stateChanged \<or> defaultChanged then advanceAuthorizationRevisionTx st2 else Inr st2) = Inr st3"
    using assms(1) st2 unfolding patch_finish_def by (auto split: sum.splits)
  then have ok3: "tables_ok rx stored high st3"
    using ok2 advance_keeps by (auto split: if_splits)
  obtain st4 where st4: "(case (disabling, p_Credential current) of
                             (True, Some credential) \<Rightarrow>
                               audit_MutationTx audit True ''agent_credential'' ''invalidate'' (ac_ID credential) st3
                           | _ \<Rightarrow> Inr st3) = Inr st4"
      and last: "audit_MutationTx audit False ''principal'' ''update'' principalID st4 = Inr st'"
    using assms(1) st2 st3 unfolding patch_finish_def by (auto split: sum.splits)
  then have "tables_ok rx stored high st4"
    using ok3 audit_keeps by (auto split: option.splits bool.splits)
  with last show ?thesis by (rule audit_keeps)
qed

lemma tables_ok_row:
  assumes "tables_ok rx stored high st" and "row \<in> set (db_principals (st_db st))"
  shows "principal_row_ok high row"
    and "row' \<in> set (db_principals (st_db st)) \<Longrightarrow> pr_id row' = pr_id row \<Longrightarrow> row' = row"
  using assms unfolding tables_ok_def principals_ok_def list_all_iff by (auto simp: distinct_map inj_on_def)

lemma given_ok: "pred_option P requested \<Longrightarrow> P current \<Longrightarrow> P (given requested current)"
  by (cases requested) (simp_all add: given_def)

lemma patch_principal_tx_keeps:
  assumes "patch_principal_tx audit principalID expected request stamp st = Inr (x, st')" and "tables_ok rx stored high st"
    and "high \<le> stamp" and "validEvaluationTime stamp" and "patch_request_valid request"
  shows "tables_ok rx stored stamp st'"
proof -
  obtain current where current: "principalByIDTx principalID st = Inr current"
    using assms(1) by (cases "principalByIDTx principalID st") (simp_all add: patch_principal_tx_def)
  then obtain row where row: "row \<in> set (db_principals (st_db st))" "pr_id row = principalID"
      and same: "p_State current = pr_state row" "p_DisplayName current = pr_displayName row" "p_Visibility current = pr_visibility row"
    using principalByIDTx_Inr by blast
  note rows = tables_ok_row [OF assms(2) row(1)]
  define name where "name = given (ppr_DisplayName request) (p_DisplayName current)"
  define state where "state = given (ppr_State request) (p_State current)"
  define visibility where "visibility = given (ppr_Visibility request) (p_Visibility current)"
  define policy where "policy = given (ppr_HTTPDefault request) (p_HTTPDefault current)"
  define disabling where "disabling \<longleftrightarrow> state \<noteq> p_State current \<and> state = PrincipalState_string PrincipalDisabled"
  have valid: "validDisplayName name" "validPrincipalState state" "validVisibility visibility"
    unfolding name_def state_def visibility_def same
    using rows(1) assms(5) by (auto intro!: given_ok simp: principal_row_ok_def patch_request_valid_def)
  have incr: "list_all (\<lambda>row. pr_id row = principalID \<longrightarrow> can_increment disabling row) (db_principals (st_db st))"
      and finish: "patch_finish audit principalID current (state \<noteq> p_State current) (policy \<noteq> p_HTTPDefault current) disabling policy
         (update_principal principalID (patched_row name state visibility disabling (FormatCanonical stamp)) st) = Inr (x, st')"
    using assms(1) current unfolding patch_principal_tx_def Let_def name_def state_def visibility_def policy_def disabling_def
    by (auto split: option.splits if_splits)
  have "tables_ok rx stored stamp (update_principal principalID (patched_row name state visibility disabling (FormatCanonical stamp)) st)"
  proof (rule update_principal_keeps [OF assms(2,3)])
    fix row'
    assume "row' \<in> set (db_principals (st_db st))" "pr_id row' = principalID" and ok: "principal_row_ok high row'"
    then have eq: "row' = row" and "can_increment disabling row'"
      using rows(2) row incr by (simp_all add: list_all_iff)
    with ok valid assms(3,4) show "principal_row_ok stamp (patched_row name state visibility disabling (FormatCanonical stamp) row')"
      by (intro patched_row_ok) (simp_all add: disabling_def same)
  qed simp
  moreover have "policy \<in> set default_policies" if "policy \<noteq> p_HTTPDefault current"
    using that assms(5) by (cases "ppr_HTTPDefault request") (simp_all add: policy_def given_def patch_request_valid_def)
  ultimately show ?thesis
    using patch_finish_keeps [OF finish] by blast
qed

lemma revisions_parsed:
  assumes "parsePrincipalRevisions current = Inr (revision, credentialRevision)"
    and "p_Revision current = FormatInt (pr_revision row)" and "p_CredentialRevision current = FormatInt (pr_credentialRevision row)"
    and "principal_row_ok high row"
  shows "revision = pr_revision row \<and> credentialRevision = pr_credentialRevision row"
proof -
  have parse: "ParseInt (FormatInt n) = Some n" if "0 \<le> n" "n < 2 ^ 63" for n
    using that ParseInt_FormatUint [of "nat n"] by (simp add: FormatInt_def nat_less_iff)
  have "0 \<le> pr_revision row" "pr_revision row < 2 ^ 63" "0 \<le> pr_credentialRevision row" "pr_credentialRevision row < 2 ^ 63"
    using assms(4) by (simp_all add: principal_row_ok_def)
  from parse [OF this(1,2)] parse [OF this(3,4)] assms(1-3) show ?thesis
    by (auto simp: parsePrincipalRevisions_def split: if_splits)
qed

lemma issue_credential_tx_Inr:
  assumes "issue_credential_tx audit principalID expected credentialRevision candidate st = Inr (x, st')" and "tables_ok rx stored high st"
  shows "\<exists>row a. row \<in> set (db_principals (st_db st)) \<and> pr_id row = principalID \<and> pr_revision row = expected \<and>
    pr_credentialRevision row = credentialRevision \<and> pr_state row = PrincipalState_string PrincipalActive \<and>
    \<not> list_ex (credential_collision candidate) (db_principals (st_db st)) \<and>
    st' = (update_principal principalID (issued_row candidate) st)\<lparr>st_audit := a\<rparr> \<and> snd x = cand_bearer candidate"
proof -
  obtain current where current: "principalByIDTx principalID st = Inr current"
    using assms(1) by (cases "principalByIDTx principalID st") (simp_all add: issue_credential_tx_def)
  then obtain row where row: "row \<in> set (db_principals (st_db st))" "pr_id row = principalID"
      and same: "p_Revision current = FormatInt (pr_revision row)" "p_CredentialRevision current = FormatInt (pr_credentialRevision row)"
        "p_State current = pr_state row"
    using principalByIDTx_Inr by blast
  obtain r c where parsed: "parsePrincipalRevisions current = Inr (r, c)"
    using assms(1) current by (cases "parsePrincipalRevisions current") (auto simp: issue_credential_tx_def)
  note revisions = revisions_parsed [OF parsed same(1,2) tables_ok_row(1) [OF assms(2) row(1)]]
  let ?st1 = "update_principal principalID (issued_row candidate) st"
  have guards: "r = expected" "c = credentialRevision" "p_State current = PrincipalState_string PrincipalActive"
      "\<not> list_ex (credential_collision candidate) (db_principals (st_db st))"
    using assms(1) current parsed by (auto simp: issue_credential_tx_def split: if_splits)
  obtain st2 where st2: "(case p_Credential current of
                               None \<Rightarrow> Inr ?st1
                             | Some old \<Rightarrow> audit_MutationTx audit True ''agent_credential'' ''invalidate'' (ac_ID old) ?st1) = Inr st2"
      and last: "audit_MutationTx audit False ''agent_credential'' ''issue'' (cand_id candidate) st2 = Inr st'"
      and bearer: "snd x = cand_bearer candidate"
    using assms(1) current parsed guards unfolding issue_credential_tx_def Let_def by (auto split: sum.splits if_splits)
  have "\<exists>a2. st2 = ?st1\<lparr>st_audit := a2\<rparr>"
    using st2 by (cases "p_Credential current") (auto intro: exI [of _ "st_audit ?st1"] dest: audit_ok)
  then obtain a2 where "st2 = ?st1\<lparr>st_audit := a2\<rparr>" ..
  with audit_ok [OF last] obtain a where "st' = ?st1\<lparr>st_audit := a\<rparr>"
    by auto
  with row guards revisions same(3) bearer show ?thesis by auto
qed

lemma issue_credential_tx_keeps:
  assumes "issue_credential_tx audit principalID expected credentialRevision candidate st = Inr (x, st')"
    and "tables_ok rx stored high st" and "high \<le> now" and "validEvaluationTime now" and "candidate_ok now candidate"
    and "expected < 2 ^ 63 - 1" and "credentialRevision < 2 ^ 63 - 1"
  shows "tables_ok rx stored now st'"
proof -
  obtain row a where row: "row \<in> set (db_principals (st_db st))" "pr_id row = principalID"
      and guards: "pr_revision row = expected" "pr_credentialRevision row = credentialRevision"
        "pr_state row = PrincipalState_string PrincipalActive"
      and st': "st' = (update_principal principalID (issued_row candidate) st)\<lparr>st_audit := a\<rparr>"
    using issue_credential_tx_Inr [OF assms(1,2)] by blast
  have "tables_ok rx stored now (update_principal principalID (issued_row candidate) st)"
  proof (rule update_principal_keeps [OF assms(2,3)])
    fix row'
    assume "row' \<in> set (db_principals (st_db st))" "pr_id row' = principalID" and ok: "principal_row_ok high row'"
    then have "row' = row"
      using tables_ok_row(2) [OF assms(2) row(1)] row(2) by simp
    with ok guards assms show "principal_row_ok now (issued_row candidate row')"
      by (intro issued_row_ok) (simp_all add: can_increment_def)
  qed simp
  then show ?thesis
    by (simp add: st')
qed

lemma revoke_credential_tx_Inr:
  assumes "revoke_credential_tx audit principalID expected stamp st = Inr (x, st')" and "tables_ok rx stored high st"
  shows "\<exists>row a. row \<in> set (db_principals (st_db st)) \<and> pr_id row = principalID \<and> pr_revision row = expected \<and>
    can_increment True row \<and> pr_credentialID row \<noteq> None \<and>
    st' = (update_principal principalID (revoked_row (FormatCanonical stamp)) st)\<lparr>st_audit := a\<rparr>"
proof -
  obtain current where current: "principalByIDTx principalID st = Inr current"
    using assms(1) by (cases "principalByIDTx principalID st") (simp_all add: revoke_credential_tx_def)
  then obtain row where row: "row \<in> set (db_principals (st_db st))" "pr_id row = principalID"
      and same: "p_Revision current = FormatInt (pr_revision row)" "p_CredentialRevision current = FormatInt (pr_credentialRevision row)"
        "p_Credential current = None \<longleftrightarrow> pr_credentialID row = None"
    using principalByIDTx_Inr [OF current] by metis
  obtain r c where parsed: "parsePrincipalRevisions current = Inr (r, c)"
    using assms(1) current by (cases "parsePrincipalRevisions current") (auto simp: revoke_credential_tx_def)
  have ok: "principal_row_ok high row"
    by (rule tables_ok_row(1) [OF assms(2) row(1)])
  note revisions = revisions_parsed [OF parsed same(1,2) ok]
  let ?st1 = "update_principal principalID (revoked_row (FormatCanonical stamp)) st"
  obtain credential where guards: "r = expected" "p_Credential current = Some credential" "r \<noteq> 2 ^ 63 - 1" "c \<noteq> 2 ^ 63 - 1"
      and last: "audit_MutationTx audit False ''agent_credential'' ''revoke'' (ac_ID credential) ?st1 = Inr st'"
    using assms(1) current parsed unfolding revoke_credential_tx_def Let_def
    by (auto split: sum.splits if_splits option.splits)
  have "can_increment True row"
    using ok guards(3,4) revisions by (simp add: can_increment_def principal_row_ok_def)
  with row guards revisions same(3) audit_ok [OF last] show ?thesis by auto
qed

lemma revoke_credential_tx_keeps:
  assumes "revoke_credential_tx audit principalID expected stamp st = Inr (x, st')"
    and "tables_ok rx stored high st" and "high \<le> stamp" and "validEvaluationTime stamp"
  shows "tables_ok rx stored stamp st'"
proof -
  obtain row a where row: "row \<in> set (db_principals (st_db st))" "pr_id row = principalID" and incr: "can_increment True row"
      and st': "st' = (update_principal principalID (revoked_row (FormatCanonical stamp)) st)\<lparr>st_audit := a\<rparr>"
    using revoke_credential_tx_Inr [OF assms(1,2)] by blast
  have "tables_ok rx stored stamp (update_principal principalID (revoked_row (FormatCanonical stamp)) st)"
  proof (rule update_principal_keeps [OF assms(2,3)])
    fix row'
    assume "row' \<in> set (db_principals (st_db st))" "pr_id row' = principalID" and ok: "principal_row_ok high row'"
    then have "row' = row"
      using tables_ok_row(2) [OF assms(2) row(1)] row(2) by simp
    with ok incr assms(3,4) show "principal_row_ok stamp (revoked_row (FormatCanonical stamp) row')"
      by (intro revoked_row_ok) simp_all
  qed simp
  then show ?thesis
    by (simp add: st')
qed

lemma grant_record_ok:
  assumes "grant_request_valid request" and "pred_option (\<lambda>source. is_ok (CompileConstraint rx source)) (cgr_Constraint request)"
    and "pred_option (\<lambda>expiry. expiry > now \<and> 0 \<le> Year expiry \<and> Year expiry < 10000) (cgr_ExpiresAt request)"
    and "validOpaqueID grantID" and "validEvaluationTime now" and "cgr_PrincipalID request \<in> ids"
    and "ServerID (cgr_Target request) = SyntheticServerID \<or> stored (ServerID (cgr_Target request))" and "0 < n"
  shows "grant_row_ok rx stored ids (grant_record request grantID now\<lparr>row_sequence := n\<rparr>)"
proof -
  let ?row = "grant_record request grantID now\<lparr>row_sequence := n\<rparr>"
  have "\<not> grant_row_invalid (n - 1) ?row"
    using assms(1,4) first_revision by (simp add: grant_row_invalid_def grant_record_def grant_request_valid_def)
  moreover have "\<not> grant_scope_invalid rx ?row"
    using assms(1,2) unfolding grant_scope_invalid_def grant_record_def grant_request_valid_def
    by (cases "UpstreamName (cgr_Target request)"; cases "cgr_Constraint request") auto
  moreover have "\<not> grant_times_invalid ?row"
    using assms(3) valid_time_canonical [OF assms(5)] canonicalTimestamp_Format
    by (cases "cgr_ExpiresAt request") (simp_all add: grant_times_invalid_def grant_record_def)
  ultimately show ?thesis
    using assms(6,7) by (simp add: grant_row_ok_def grant_record_def)
qed

lemma create_grant_tx_keeps:
  assumes "create_grant_tx audit readable validateTarget grantID now request st = Inr (x, st')" and "tables_ok rx stored high st"
    and "high \<le> now" and "validEvaluationTime now" and "validOpaqueID grantID" and "grant_request_valid request"
    and "pred_option (\<lambda>source. is_ok (CompileConstraint rx source)) (cgr_Constraint request)"
    and "pred_option (\<lambda>expiry. expiry > now \<and> 0 \<le> Year expiry \<and> Year expiry < 10000) (cgr_ExpiresAt request)"
    and "\<And>server. validateTarget server = Inr True \<Longrightarrow> server = SyntheticServerID \<or> stored server"
  shows "tables_ok rx stored now st'"
proof -
  obtain current where current: "principalByIDTx (cgr_PrincipalID request) st = Inr current"
    using assms(1) by (cases "principalByIDTx (cgr_PrincipalID request) st") (simp_all add: create_grant_tx_def)
  then have member: "cgr_PrincipalID request \<in> set (map pr_id (db_principals (st_db st)))"
    using principalByIDTx_Inr by force
  obtain st1 st2 where run: "validateTarget (ServerID (cgr_Target request)) = Inr True"
      "int (length (db_grants (st_db st))) < mustLimit ''grants''" "\<not> list_ex (\<lambda>row. row_id row = grantID) (db_grants (st_db st))"
      "insert_grant (grant_record request grantID now) st = Inr st1" "advanceAuthorizationRevisionTx st1 = Inr st2"
      "audit_MutationTx audit False ''grant'' ''create'' grantID st2 = Inr st'"
    using assms(1) current unfolding create_grant_tx_def by (auto split: sum.splits if_splits)
  have "row_id (grant_record request grantID now) \<notin> set (map row_id (db_grants (st_db st)))"
    using run(3) by (auto simp: list_ex_iff grant_record_def)
  then have "tables_ok rx stored now st1"
    using tables_ok_mono [OF assms(2,3)] run(2)
      grant_record_ok [where stored = stored, OF assms(6-8,5,4) member assms(9) [OF run(1)]]
    by (intro insert_grant_keeps [OF run(4)]) simp_all
  with run(5,6) show ?thesis
    using advance_keeps audit_keeps by meson
qed

lemma grant_row_ok_described:
  assumes "grant_row_ok rx stored ids row" and "validGrantDescription description" and "validRevision revision"
  shows "grant_row_ok rx stored ids (row\<lparr>row_description := description, row_revision := revision\<rparr>)"
proof -
  let ?row = "row\<lparr>row_description := description, row_revision := revision\<rparr>"
  have "grant_scope_invalid rx ?row = grant_scope_invalid rx row" "grant_times_invalid ?row = grant_times_invalid row"
    by (simp_all add: grant_scope_invalid_def grant_times_invalid_def split: option.split)
  with assms show ?thesis
    by (simp add: grant_row_ok_def grant_row_invalid_def)
qed

lemma patch_grant_tx_keeps:
  assumes "patch_grant_tx audit readable readable' grantID description expected now now' st = Inr (x, st')"
    and "tables_ok rx stored high st" and "validGrantDescription description"
  shows "tables_ok rx stored high st'"
proof -
  obtain current where current: "grantByIDTx readable now grantID st = Inr current"
    using assms(1) by (cases "grantByIDTx readable now grantID st") (simp_all add: patch_grant_tx_def)
  obtain n where small: "n + 1 < 2 ^ 63"
      and last: "audit_MutationTx audit False ''grant'' ''update'' grantID
        (update_grant grantID (\<lambda>row. row\<lparr>row_description := description, row_revision := FormatUint (n + 1)\<rparr>) st) = Inr st'"
    using assms(1) current unfolding patch_grant_tx_def Let_def
    by (auto split: sum.splits if_splits option.splits simp: not_le)
  define m where "m = n + 1"
  let ?f = "\<lambda>row. row\<lparr>row_description := description, row_revision := FormatUint m\<rparr>"
  let ?g = "\<lambda>row. if row_id row = grantID then ?f row else row"
  have same: "map row_id (map ?g rows) = map row_id rows" "map row_sequence (map ?g rows) = map row_sequence rows" for rows
    by simp_all
  have "validRevision (FormatUint m)"
    using small by (intro validRevision_FormatUint) (simp_all add: m_def)
  then have "grants_ok rx stored ids sequence (map ?g gs)" if "grants_ok rx stored ids sequence gs" for ids sequence gs
    using that assms(3) grant_row_ok_described unfolding grants_ok_def same list_all_iff by auto
  with assms(2) have "tables_ok rx stored high (update_grant grantID ?f st)"
    by (simp add: tables_ok_def update_grant_def)
  with last [folded m_def] show ?thesis by (rule audit_keeps)
qed

lemma delete_grant_tx_keeps:
  assumes "delete_grant_tx audit readable grantID now st = Inr (x, st')" and "tables_ok rx stored high st"
  shows "tables_ok rx stored high st'"
proof -
  let ?gs = "filter (\<lambda>row. row_id row \<noteq> grantID) (db_grants (st_db st))"
  obtain st1 where run: "advanceAuthorizationRevisionTx (st\<lparr>st_db := (st_db st)\<lparr>db_grants := ?gs\<rparr>\<rparr>) = Inr st1"
      "audit_MutationTx audit False ''grant'' ''delete'' grantID st1 = Inr st'"
    using assms(1) unfolding delete_grant_tx_def by (auto split: sum.splits)
  have "grants_ok rx stored ids sequence (filter P gs)" if "grants_ok rx stored ids sequence gs" for ids sequence gs P
    using that ascending_filter unfolding grants_ok_def list_all_iff
    by (auto simp: distinct_map_filter intro: le_trans [OF length_filter_le])
  with assms(2) have "tables_ok rx stored high (st\<lparr>st_db := (st_db st)\<lparr>db_grants := ?gs\<rparr>\<rparr>)"
    by (simp add: tables_ok_def)
  with run show ?thesis
    using advance_keeps audit_keeps by meson
qed

end
