(* ===== verification/Authority_Properties.thy ===== *)
theory Authority_Properties
  imports Authority_Invariant
begin

text \<open>
  Properties of the authority mutations: sequences of them from empty tables, with any outcome of the store and a
  clock that does not go back, keep every reader working; issuing a credential hands over authentication; and a
  clock that does go back makes a patch block every authentication.
\<close>

subsection \<open>Sequences of mutations\<close>

inductive authority_step ::
  "regex_lib \<Rightarrow> (string \<Rightarrow> string) \<Rightarrow> (string \<Rightarrow> bool) \<Rightarrow> instant \<times> authority_state store \<Rightarrow> instant \<times> authority_state store \<Rightarrow> bool"
  for rx :: regex_lib and sha256 :: "string \<Rightarrow> string" and stored :: "string \<Rightarrow> bool" where
  Step_CreatePrincipal:
    "clock \<le> now \<Longrightarrow> validEvaluationTime now \<Longrightarrow>
     CreatePrincipal audit readable dr request now entropy store = (r, store') \<Longrightarrow>
     authority_step rx sha256 stored (clock, store) (now, store')"
| Step_PatchPrincipal:
    "clock \<le> stamp \<Longrightarrow> validEvaluationTime stamp \<Longrightarrow>
     PatchPrincipal audit dr principalID patch stamp store = (r', store') \<Longrightarrow>
     authority_step rx sha256 stored (clock, store) (stamp, store')"
| Step_IssueCredential:
    "clock \<le> now \<Longrightarrow> validEvaluationTime now \<Longrightarrow> (\<And>s. length (sha256 s) = 32) \<Longrightarrow>
     IssueCredential audit sha256 dr latches earlier principalID expectedRevision now entropy store = (r'', store') \<Longrightarrow>
     authority_step rx sha256 stored (clock, store) (now, store')"
| Step_RevokeCredential:
    "clock \<le> stamp \<Longrightarrow> validEvaluationTime stamp \<Longrightarrow>
     RevokeCredential audit dr principalID expectedRevision stamp store = (r', store') \<Longrightarrow>
     authority_step rx sha256 stored (clock, store) (stamp, store')"
| Step_CreateGrant:
    "clock \<le> now \<Longrightarrow> validEvaluationTime now \<Longrightarrow>
     (\<And>server. validateTarget server = Inr True \<Longrightarrow> server = SyntheticServerID \<or> stored server) \<Longrightarrow>
     pred_option (\<lambda>expiry. 0 \<le> Year expiry \<and> Year expiry < 10000) (cgr_ExpiresAt grant) \<Longrightarrow>
     CreateGrant audit rx readable (Some validateTarget) dr grant now entropy store = (rg, store') \<Longrightarrow>
     authority_step rx sha256 stored (clock, store) (now, store')"
| Step_PatchGrant:
    "PatchGrant audit readable readable' dr grantID change now now' store = (rg, store') \<Longrightarrow>
     authority_step rx sha256 stored (clock, store) (clock, store')"
| Step_DeleteGrant:
    "DeleteGrant audit readable dr grantID now store = (ru, store') \<Longrightarrow>
     authority_step rx sha256 stored (clock, store) (clock, store')"

definition empty_authority :: authority_state where
  "empty_authority =
     \<lparr>st_db = \<lparr>db_revision = 0, db_principals = [], db_grants = []\<rparr>, st_defaults = [], st_principal_sequence = 0,
      st_grant_sequence = 0, st_audit = []\<rparr>"

definition authority_inv :: "regex_lib \<Rightarrow> (string \<Rightarrow> bool) \<Rightarrow> instant \<times> authority_state store \<Rightarrow> bool" where
  "authority_inv rx stored s = tables_ok rx stored (fst s) (sto_data (snd s))"

lemma mutate_mapped_keeps:
  assumes "mutate_mapped dr tx store = (r, store')" and "P (sto_data store)"
    and "\<And>x st'. tx (sto_data store) = Inr (x, st') \<Longrightarrow> P st'"
  shows "P (sto_data store')"
proof -
  have "store' = snd (mutate dr isStorageFailure tx store)"
    using assms(1) by (cases "mutate dr isStorageFailure tx store") (simp add: mutate_mapped_def)
  with mutate_data [of dr isStorageFailure tx store] assms(2,3) show ?thesis
    by metis
qed

lemma create_principal_step:
  assumes "tables_ok rx stored clock (sto_data store)" and "clock \<le> now" and "validEvaluationTime now"
    and "CreatePrincipal audit readable dr request now entropy store = (r, store')"
  shows "tables_ok rx stored now (sto_data store')"
proof -
  note same = tables_ok_mono [OF assms(1,2)]
  consider "store' = store"
    | principalID entropy1 grantID rest where "newID now entropy = Inr (principalID, entropy1)" "newID now entropy1 = Inr (grantID, rest)"
      "validDisplayName (cpr_DisplayName request)" "validVisibility (cpr_Visibility request)"
      "mutate_mapped dr (create_principal_tx audit readable principalID grantID now request) store = (r, store')"
    using assms(4) unfolding CreatePrincipal_def by (auto split: if_splits sum.splits prod.splits)
  then show ?thesis
  proof cases
    case 2
    show ?thesis
      by (rule mutate_mapped_keeps [OF 2(5)])
        (use same create_principal_tx_keeps [OF _ assms(1-3) newID_valid [OF 2(1)] newID_valid [OF 2(2)] 2(3,4)] in blast)+
  qed (simp add: same)
qed

lemma issue_credential_step:
  assumes "tables_ok rx stored clock (sto_data store)" and "clock \<le> now" and "validEvaluationTime now" and "\<And>s. length (sha256 s) = 32"
    and "IssueCredential audit sha256 dr latches earlier principalID expectedRevision now entropy store = (r, store')"
  shows "tables_ok rx stored now (sto_data store')"
proof -
  note same = tables_ok_mono [OF assms(1,2)]
  consider "store' = store"
    | expected cr candidate rest where "prepareCredential sha256 now entropy = Inr (candidate, rest)"
      "expected < 2 ^ 63 - 2" "cr < 2 ^ 63 - 2"
      "mutate_mapped dr (issue_credential_tx audit principalID expected cr candidate) store = (r, store')"
    using assms(5) unfolding IssueCredential_def by (auto simp: not_le split: if_splits sum.splits prod.splits)
  then show ?thesis
  proof cases
    case 2
    have "candidate_ok now candidate"
      using prepareCredential_ok [OF 2(1) assms(4)] by blast
    moreover have "expected < 2 ^ 63 - 1" "cr < 2 ^ 63 - 1"
      using 2(2,3) by simp_all
    ultimately have keeps: "tables_ok rx stored now st'" if "issue_credential_tx audit principalID expected cr candidate (sto_data store) = Inr (x, st')" for x st'
      using issue_credential_tx_keeps [OF that assms(1-3)] by blast
    show ?thesis
      by (rule mutate_mapped_keeps [OF 2(4)]) (use same keeps in blast)+
  qed (simp add: same)
qed

lemma create_grant_step:
  assumes "tables_ok rx stored clock (sto_data store)" and "clock \<le> now" and "validEvaluationTime now"
    and "\<And>server. validateTarget server = Inr True \<Longrightarrow> server = SyntheticServerID \<or> stored server"
    and "pred_option (\<lambda>expiry. 0 \<le> Year expiry \<and> Year expiry < 10000) (cgr_ExpiresAt grant)"
    and "CreateGrant audit rx readable (Some validateTarget) dr grant now entropy store = (r, store')"
  shows "tables_ok rx stored now (sto_data store')"
proof -
  note same = tables_ok_mono [OF assms(1,2)]
  consider "store' = store"
    | grantID rest where "newID now entropy = Inr (grantID, rest)" "grant_request_valid grant"
      "pred_option (\<lambda>source. is_ok (CompileConstraint rx source)) (cgr_Constraint grant)"
      "pred_option (\<lambda>expiry. expiry > now) (cgr_ExpiresAt grant)"
      "mutate_mapped dr (create_grant_tx audit readable validateTarget grantID now grant) store = (r, store')"
    using assms(6) unfolding CreateGrant_def by (auto split: if_splits sum.splits prod.splits)
  then show ?thesis
  proof cases
    case 2
    have "pred_option (\<lambda>expiry. expiry > now \<and> 0 \<le> Year expiry \<and> Year expiry < 10000) (cgr_ExpiresAt grant)"
      using 2(4) assms(5) by (cases "cgr_ExpiresAt grant") simp_all
    note keeps = create_grant_tx_keeps [OF _ assms(1-3) newID_valid [OF 2(1)] 2(2,3) this assms(4)]
    show ?thesis
      by (rule mutate_mapped_keeps [OF 2(5)]) (use same keeps in blast)+
  qed (simp add: same)
qed

lemma patch_principal_step:
  assumes "tables_ok rx stored clock (sto_data store)" and "clock \<le> stamp" and "validEvaluationTime stamp"
    and "PatchPrincipal audit dr principalID request stamp store = (r, store')"
  shows "tables_ok rx stored stamp (sto_data store')"
proof -
  note same = tables_ok_mono [OF assms(1,2)]
  consider "store' = store"
    | expected where "patch_request_valid request"
      "mutate_mapped dr (patch_principal_tx audit principalID expected request stamp) store = (r, store')"
    using assms(4) unfolding PatchPrincipal_def by (auto split: if_splits sum.splits)
  then show ?thesis
  proof cases
    case 2
    show ?thesis
      by (rule mutate_mapped_keeps [OF 2(2)]) (use same patch_principal_tx_keeps [OF _ assms(1-3) 2(1)] in blast)+
  qed (simp add: same)
qed

lemma revoke_credential_step:
  assumes "tables_ok rx stored clock (sto_data store)" and "clock \<le> stamp" and "validEvaluationTime stamp"
    and "RevokeCredential audit dr principalID expectedRevision stamp store = (r, store')"
  shows "tables_ok rx stored stamp (sto_data store')"
proof -
  note same = tables_ok_mono [OF assms(1,2)]
  consider "store' = store" | expected where "mutate_mapped dr (revoke_credential_tx audit principalID expected stamp) store = (r, store')"
    using assms(4) unfolding RevokeCredential_def by (auto split: sum.splits)
  then show ?thesis
  proof cases
    case 2
    show ?thesis
      by (rule mutate_mapped_keeps [OF 2]) (use same revoke_credential_tx_keeps [OF _ assms(1-3)] in blast)+
  qed (simp add: same)
qed

lemma patch_grant_step:
  assumes "tables_ok rx stored clock (sto_data store)"
    and "PatchGrant audit readable readable' dr grantID change now now' store = (r, store')"
  shows "tables_ok rx stored clock (sto_data store')"
proof -
  consider "store' = store" | description where "validGrantDescription description"
      "mutate_mapped dr (patch_grant_tx audit readable readable' grantID description (pgr_ExpectedRevision change) now now') store = (r, store')"
    using assms(2) unfolding PatchGrant_def by (auto split: if_splits option.splits)
  then show ?thesis
  proof cases
    case 2
    show ?thesis
      by (rule mutate_mapped_keeps [OF 2(2)]) (use assms(1) patch_grant_tx_keeps [OF _ assms(1) 2(1)] in blast)+
  qed (simp add: assms(1))
qed

lemma delete_grant_step:
  assumes "tables_ok rx stored clock (sto_data store)" and "DeleteGrant audit readable dr grantID now store = (r, store')"
  shows "tables_ok rx stored clock (sto_data store')"
proof -
  consider "store' = store" | "mutate_mapped dr (delete_grant_tx audit readable grantID now) store = (r, store')"
    using assms(2) unfolding DeleteGrant_def by (auto split: if_splits)
  then show ?thesis
  proof cases
    case 2
    show ?thesis
      by (rule mutate_mapped_keeps [OF 2]) (use assms(1) delete_grant_tx_keeps [OF _ assms(1)] in blast)+
  qed (simp add: assms(1))
qed

lemma empty_authority_ok: "tables_ok rx stored clock empty_authority"
  by (simp add: tables_ok_def empty_authority_def principals_ok_def grants_ok_def defaults_ok_def ascending_def)

interpretation authority: step_invariant "\<lambda>s. sto_data (snd s) = empty_authority" "authority_step rx sha256 stored" "authority_inv rx stored"
  for rx sha256 stored
proof
  fix s :: "instant \<times> authority_state store"
  assume "sto_data (snd s) = empty_authority"
  then show "authority_inv rx stored s"
    by (simp add: authority_inv_def empty_authority_ok)
next
  fix s t
  assume start: "authority_inv rx stored s" and "authority_step rx sha256 stored s t"
  from this(2) show "authority_inv rx stored t"
  proof cases
    case (Step_CreatePrincipal clock now audit readable dr request entropy store r store')
    with start create_principal_step [OF _ Step_CreatePrincipal(3-5)] show ?thesis by (simp add: authority_inv_def)
  next
    case (Step_PatchPrincipal clock stamp audit dr principalID patch store r' store')
    with start patch_principal_step [OF _ Step_PatchPrincipal(3-5)] show ?thesis by (simp add: authority_inv_def)
  next
    case (Step_IssueCredential clock now audit dr latches earlier principalID expectedRevision entropy store r'' store')
    with start issue_credential_step [OF _ Step_IssueCredential(3-6)] show ?thesis by (simp add: authority_inv_def)
  next
    case (Step_RevokeCredential clock stamp audit dr principalID expectedRevision store r' store')
    with start revoke_credential_step [OF _ Step_RevokeCredential(3-5)] show ?thesis by (simp add: authority_inv_def)
  next
    case (Step_CreateGrant clock now validateTarget grant audit readable dr entropy store rg store')
    with start create_grant_step [OF _ Step_CreateGrant(3-7)] show ?thesis by (simp add: authority_inv_def)
  next
    case (Step_PatchGrant audit readable readable' dr grantID change now now' store rg store' clock)
    with start patch_grant_step [OF _ Step_PatchGrant(3)] show ?thesis by (simp add: authority_inv_def)
  next
    case (Step_DeleteGrant audit readable dr grantID now store ru store' clock)
    with start delete_grant_step [OF _ Step_DeleteGrant(3)] show ?thesis by (simp add: authority_inv_def)
  qed
qed

subsection \<open>What a valid table gives\<close>

lemma grant_row_ok_loads:
  assumes "grant_row_ok rx stored ids row"
  shows "is_ok (pure_load rx row)"
proof -
  have "\<not> row_malformed row"
    using assms unfolding grant_row_ok_def grant_row_invalid_def grant_scope_invalid_def row_malformed_def
    by (cases "row_upstream row") (auto simp: row_target_def ToolName_def)
  moreover obtain created where "canonicalTimestamp (row_created row) = Some created" "is_ok (load_expiry row created)"
    using assms unfolding grant_row_ok_def grant_times_invalid_def load_expiry_def
    by (auto split: option.splits)
  moreover have "case row_constraint row of None \<Rightarrow> True | Some source \<Rightarrow> is_ok (CompileConstraint rx source)"
    using assms unfolding grant_row_ok_def grant_scope_invalid_def by (auto split: option.splits)
  ultimately show ?thesis
    unfolding pure_load_def loadEvaluationGrant_def load_finish_def
    by (auto split: option.splits sum.splits elim!: is_okE)
qed

lemma credential_rows_map:
  assumes "distinct (map pr_id rows)" and "row \<in> set rows" and "slot_complete (f row)" and "pr_verifier (f row) = Some v"
    and "\<forall>r \<in> set rows. pr_verifier r \<noteq> Some v"
  shows "filter (\<lambda>c. snd c = v) (credential_rows (map (\<lambda>r. if pr_id r = pr_id row then f r else r) rows)) = [(row_binding (f row), v)]"
  using assms(1,2,5)
proof (induction rows)
  case (Cons r rows)
  have none: "filter (\<lambda>c. snd c = v) (credential_rows rs) = []" if "\<forall>r \<in> set rs. pr_verifier r \<noteq> Some v" for rs
    using that by (auto simp: credential_rows_def filter_empty_conv slot_complete_def split: option.splits)
  show ?case
  proof (cases "r = row")
    case True
    have "map (\<lambda>r. if pr_id r = pr_id row then f r else r) rows = rows"
      using Cons.prems(1) True by (intro map_idI) (auto, metis imageI)
    with none [of rows] Cons.prems(3) True assms(3,4) show ?thesis
      by (simp add: credential_rows_def)
  next
    case False
    then have "pr_id r \<noteq> pr_id row" and "row \<in> set rows"
      using Cons.prems(1,2) by auto
    moreover have "slot_complete r \<Longrightarrow> the (pr_verifier r) \<noteq> v"
      using Cons.prems(3) by (auto simp: slot_complete_def split: option.splits)
    ultimately show ?thesis
      using Cons by (simp add: credential_rows_def)
  qed
qed simp

lemma credential_rows_other:
  assumes "\<And>r. slot_complete (f r) \<and> pr_verifier (f r) = Some v" and "v \<noteq> w"
  shows "filter (\<lambda>c. snd c = w) (credential_rows (map (\<lambda>r. if pr_id r = key then f r else r) rows)) =
    filter (\<lambda>c. cb_PrincipalID (fst c) \<noteq> key) (filter (\<lambda>c. snd c = w) (credential_rows rows))"
  using assms by (induction rows) (auto simp: credential_rows_def row_binding_def)

lemma authenticate_matches:
  assumes "length ms \<le> Suc 0"
    and "(if length ms > 1 then Inl e else (case ms of [] \<Rightarrow> Inl e' | c # _ \<Rightarrow> Inr (fst c))) = Inr b"
  shows "\<exists>w. ms = [(b, w)]"
  using assms by (cases ms) auto

lemma authenticate_valid_bearer:
  assumes "tables_ok rx stored high st" and "validAgentBearer bearer" and "\<not> HasPrefix bearer AdminBearerPrefix"
  shows "authenticateBinding sha256 (False, False, False) (st_db st) bearer =
    (let matches = filter (\<lambda>c. snd c = agentVerifierForBearer sha256 bearer) (credential_rows (db_principals (st_db st))) in
     if length matches > 1 then Inl ErrAuthorizationUnavailable
     else (case matches of [] \<Rightarrow> Inl ErrAuthenticationRequired | c # _ \<Rightarrow> Inr (fst c)))"
  using tables_ok_readers(2) [OF assms(1)] assms(2,3)
  by (auto simp: authenticateBinding_def view_def Let_def split: list.split)

lemma load_candidates_result:
  "load_candidates maximum seen previous rows = Inl ErrAuthorizationUnavailable \<or>
   (\<forall>row \<in> set rows. \<exists>created updated. canonicalTimestamp (pr_createdAt row) = Some created \<and>
      canonicalTimestamp (pr_updatedAt row) = Some updated \<and> created \<le> updated)"
proof (induction rows arbitrary: seen previous)
  case (Cons row rows)
  show ?case
  proof (cases "load_candidates maximum seen previous (row # rows)")
    case (Inl e)
    then show ?thesis
      using Cons [of "seen + 1" "pr_sequence row"] by (auto split: if_splits option.splits sum.splits)
  next
    case (Inr cs)
    then show ?thesis
      using Cons [of "seen + 1" "pr_sequence row"] by (auto simp: not_less split: if_splits option.splits sum.splits)
  qed
qed simp

lemma validate_rows_result:
  "validate_principal_rows maximum previous ids rows = Some ids' \<Longrightarrow>
   \<forall>row \<in> set rows. \<exists>created updated. canonicalTimestamp (pr_createdAt row) = Some created \<and>
      canonicalTimestamp (pr_updatedAt row) = Some updated \<and> created \<le> updated"
proof (induction rows arbitrary: previous ids)
  case (Cons row rows)
  then show ?case
    by (fastforce simp: not_less split: if_splits option.splits)
qed simp

lemma update_default_rows: "update_default principalID policy st = Inr st' \<Longrightarrow> db_principals (st_db st') = db_principals (st_db st)"
  by (auto simp: update_default_def increment_def split: option.splits if_splits)

lemma audit_rows: "audit_MutationTx audit system category action target st = Inr st' \<Longrightarrow> st_db st' = st_db st"
  using audit_ok by force

lemma advance_rows: "advanceAuthorizationRevisionTx st = Inr st' \<Longrightarrow> db_principals (st_db st') = db_principals (st_db st)"
  using advance_ok by force

lemma patch_finish_rows:
  assumes "patch_finish audit principalID current stateChanged defaultChanged disabling httpDefault st = Inr (x, st')"
  shows "db_principals (st_db st') = db_principals (st_db st)"
  using assms unfolding patch_finish_def
  by (auto split: sum.splits if_splits option.splits bool.splits dest!: audit_rows update_default_rows advance_rows)

lemma patch_principal_tx_rows:
  assumes "patch_principal_tx audit principalID expected request stamp st = Inr (x, st')"
  shows "\<exists>name state visibility disabling. db_principals (st_db st') =
    map (\<lambda>row. if pr_id row = principalID then patched_row name state visibility disabling (FormatCanonical stamp) row else row)
      (db_principals (st_db st))"
proof -
  obtain current sc dc d policy name state visibility where
      "patch_finish audit principalID current sc dc d policy
         (update_principal principalID (patched_row name state visibility d (FormatCanonical stamp)) st) = Inr (x, st')"
    using assms unfolding patch_principal_tx_def Let_def by (auto split: sum.splits option.splits if_splits)
  from patch_finish_rows [OF this] show ?thesis
    by (auto simp: update_principal_def)
qed

subsection \<open>Properties\<close>

text \<open>
  C8: From empty tables, any sequence of creating and patching principals, issuing and revoking credentials, and
  creating, patching and deleting grants, with any answers of the store and its audit tables and a clock that does
  not go back, leaves tables that start-up validation accepts, from which authentication can read every credential,
  and all of whose grants the evaluator can load.
\<close>

theorem authority_tables_valid:
  assumes "(authority_step rx sha256 stored)\<^sup>*\<^sup>* (clock0, store0) (clock, store)" and "sto_data store0 = empty_authority"
  shows "\<exists>ids. validatePrincipals (db_principals (st_db (sto_data store))) = Inr ids \<and>
      validateGrants rx stored ids (db_grants (st_db (sto_data store))) = Inr () \<and>
      is_ok (loadAuthenticationCandidates (st_db (sto_data store))) \<and>
      list_all (\<lambda>row. is_ok (pure_load rx row)) (db_grants (st_db (sto_data store)))"
proof -
  have ok: "tables_ok rx stored clock (sto_data store)"
    using authority.inv_reachable [OF _ assms(1)] assms(2) by (simp add: authority_inv_def)
  then have "list_all (\<lambda>row. is_ok (pure_load rx row)) (db_grants (st_db (sto_data store)))"
    using grant_row_ok_loads unfolding tables_ok_def grants_ok_def list_all_iff by blast
  with tables_ok_readers [OF ok] show ?thesis by auto
qed

definition sample_store :: "authority_state store" where
  "sample_store = \<lparr>sto_owned = False, sto_latched = False, sto_data = empty_authority\<rparr>"

definition sample_principal :: CreatePrincipalRequest where
  "sample_principal = \<lparr>cpr_HTTPDefault = None, cpr_DisplayName = ''agent'', cpr_Visibility = ''all''\<rparr>"

definition sample_entropy :: "byte list" where
  "sample_entropy = replicate 10 1 @ replicate 10 2"

lemma epoch_valid: "validEvaluationTime 0"
  by code_simp

theorem authority_tables_valid_witness:
  "\<exists>ids. validatePrincipals (db_principals (st_db (sto_data (snd
     (CreatePrincipal (\<lambda>_. None) (\<lambda>_. True) steady_driver sample_principal 0 sample_entropy sample_store))))) = Inr ids"
proof -
  let ?run = "CreatePrincipal (\<lambda>_. None) (\<lambda>_. True) steady_driver sample_principal 0 sample_entropy sample_store"
  have "authority_step no_regex (\<lambda>_. replicate 32 CHR ''0'') (\<lambda>_. False) (0, sample_store) (0, snd ?run)"
    by (rule Step_CreatePrincipal [where r = "fst ?run"]) (simp_all add: epoch_valid)
  then have "(authority_step no_regex (\<lambda>_. replicate 32 CHR ''0'') (\<lambda>_. False))\<^sup>*\<^sup>* (0, sample_store) (0, snd ?run)" ..
  moreover have "sto_data sample_store = empty_authority"
    by (simp add: sample_store_def)
  ultimately show ?thesis
    using authority_tables_valid by blast
qed

lemma IssueCredential_Inr:
  assumes "IssueCredential audit sha256 dr latches earlier principalID expectedRevision now entropy store = (Inr (p, bearer), store')"
    and "tables_ok rx stored clock (sto_data store)" and "\<And>s. length (sha256 s) = 32"
  shows "\<exists>row candidate secret a. row \<in> set (db_principals (st_db (sto_data store))) \<and> pr_id row = principalID \<and>
    candidate_ok now candidate \<and> length secret = 32 \<and> bearer = AgentBearerPrefix @ base64_encode (byte_text secret) \<and>
    cand_verifier candidate = agentVerifierForBearer sha256 bearer \<and>
    \<not> list_ex (credential_collision candidate) (db_principals (st_db (sto_data store))) \<and>
    sto_data store' = (update_principal principalID (issued_row candidate) (sto_data store))\<lparr>st_audit := a\<rparr>"
proof -
  obtain expected cr candidate rest where prep: "prepareCredential sha256 now entropy = Inr (candidate, rest)"
      and run: "mutate_mapped dr (issue_credential_tx audit principalID expected cr candidate) store = (Inr (p, bearer), store')"
    using assms(1) unfolding IssueCredential_def by (auto split: if_splits sum.splits prod.splits)
  have mut: "mutate dr isStorageFailure (issue_credential_tx audit principalID expected cr candidate) store = (Inr (p, bearer), store')"
    using run by (cases "mutate dr isStorageFailure (issue_credential_tx audit principalID expected cr candidate) store";
        cases "fst (mutate dr isStorageFailure (issue_credential_tx audit principalID expected cr candidate) store)")
      (auto simp: mutate_mapped_def)
  note tx = mutate_success [OF mut]
  from issue_credential_tx_Inr [OF tx assms(2)] prepareCredential_ok [OF prep assms(3)] show ?thesis
    by auto
qed

subsection \<open>A table with one principal\<close>

definition sample_agent :: "instant \<Rightarrow> principal_row" where
  "sample_agent t =
     \<lparr>pr_sequence = 1, pr_id = ''00000000000000000000000001'', pr_displayName = ''agent'', pr_state = ''active'',
      pr_visibility = ''all'', pr_revision = 1, pr_credentialRevision = 0, pr_credentialID = None, pr_verifier = None,
      pr_fingerprint = None, pr_credentialAt = None, pr_createdAt = FormatCanonical t, pr_updatedAt = FormatCanonical t\<rparr>"

definition sample_authority :: "instant \<Rightarrow> authority_state" where
  "sample_authority t =
     \<lparr>st_db = \<lparr>db_revision = 0, db_principals = [sample_agent t], db_grants = []\<rparr>,
      st_defaults = [(''00000000000000000000000001'', ''block'', 1)], st_principal_sequence = 1, st_grant_sequence = 0, st_audit = []\<rparr>"

lemma sample_authority_ok: "validEvaluationTime t \<Longrightarrow> tables_ok rx stored t (sample_authority t)"
proof -
  assume t: "validEvaluationTime t"
  have "validOpaqueID ''00000000000000000000000001''" "validDisplayName ''agent''" "validVisibility ''all''"
    by code_simp+
  from new_principal_ok [OF this t] have "principal_row_ok t (sample_agent t)"
    by (simp add: sample_agent_def)
  moreover have "pr_sequence (sample_agent t) = 1" "pr_id (sample_agent t) = ''00000000000000000000000001''"
    by (simp_all add: sample_agent_def)
  ultimately show ?thesis
    by (simp add: tables_ok_def principals_ok_def grants_ok_def defaults_ok_def ascending_def sample_authority_def default_policies_def)
qed

lemma format_parse: "0 \<le> n \<Longrightarrow> n < 2 ^ 63 \<Longrightarrow> ParseInt (FormatInt n) = Some n"
  using ParseInt_FormatUint [of "nat n"] by (simp add: FormatInt_def nat_less_iff)

lemma sample_revision: "parseExpectedRevision (FormatInt 1) = Inr 1"
  using format_parse [of 1] by (simp add: parseExpectedRevision_def)

definition read_agent :: "principal_row \<Rightarrow> AgentCredential option \<Rightarrow> Principal" where
  "read_agent row credential =
     \<lparr>p_HTTPDefault = ''block'', p_ID = pr_id row, p_DisplayName = pr_displayName row, p_State = pr_state row,
      p_Visibility = pr_visibility row, p_Revision = FormatInt (pr_revision row),
      p_CredentialRevision = FormatInt (pr_credentialRevision row), p_Credential = credential,
      p_CreatedAt = pr_createdAt row, p_UpdatedAt = pr_updatedAt row\<rparr>"

lemma read_sample:
  assumes "db_principals (st_db st) = [row]" and "st_defaults st = [(''00000000000000000000000001'', ''block'', 1)]"
    and "pr_id row = ''00000000000000000000000001''" and "scan_credential row = Inr credential"
  shows "principalByIDTx ''00000000000000000000000001'' st = Inr (read_agent row credential)"
  using assms by (simp add: principalByIDTx_def principal_by_id_def scanPrincipal_def read_agent_def)

text \<open>
  C17: Issuing a credential hands authentication over at once. After a successful issue on valid tables the returned
  bearer authenticates as that principal with the new credential, every other bearer that authenticated as the
  principal before is refused, and bearers of other principals authenticate as they did, also when SHA-256 values
  collide.
\<close>

theorem issued_bearer_authenticates:
  assumes "IssueCredential audit sha256 dr latches earlier principalID expectedRevision now entropy store = (Inr (p, bearer), store')"
    and "tables_ok rx stored clock (sto_data store)" and "clock \<le> now" and "validEvaluationTime now"
    and "\<And>s. length (sha256 s) = 32"
  shows "\<exists>binding. authenticateBinding sha256 (False, False, False) (st_db (sto_data store')) bearer = Inr binding \<and>
      cb_PrincipalID binding = principalID \<and>
      (\<forall>old b. authenticateBinding sha256 (False, False, False) (st_db (sto_data store)) old = Inr b \<longrightarrow>
         authenticateBinding sha256 (False, False, False) (st_db (sto_data store')) old =
           (if cb_PrincipalID b = principalID then Inl ErrAuthenticationRequired else Inr b))"
proof -
  obtain row candidate secret a where row: "row \<in> set (db_principals (st_db (sto_data store)))" "pr_id row = principalID"
      and cand: "candidate_ok now candidate" "cand_verifier candidate = agentVerifierForBearer sha256 bearer"
        "\<not> list_ex (credential_collision candidate) (db_principals (st_db (sto_data store)))"
      and secret: "length secret = 32" "bearer = AgentBearerPrefix @ base64_encode (byte_text secret)"
      and data: "sto_data store' = (update_principal principalID (issued_row candidate) (sto_data store))\<lparr>st_audit := a\<rparr>"
    using IssueCredential_Inr [OF assms(1,2,5)] by blast
  let ?ps = "db_principals (st_db (sto_data store))"
  let ?v = "agentVerifierForBearer sha256 bearer"
  have ps': "db_principals (st_db (sto_data store')) = map (\<lambda>r. if pr_id r = principalID then issued_row candidate r else r) ?ps"
    by (simp add: data update_principal_def)
  have ok': "tables_ok rx stored now (sto_data store')"
    by (rule issue_credential_step [OF assms(2-5,1)])
  have slot: "slot_complete (issued_row candidate r) \<and> pr_verifier (issued_row candidate r) = Some ?v" for r
    using cand(1,2) by (simp add: slot_complete_def issued_row_def candidate_ok_def)
  have fresh: "\<forall>r \<in> set ?ps. pr_verifier r \<noteq> Some ?v"
    using cand(2,3) by (auto simp: list_ex_iff credential_collision_def)
  have "distinct (map pr_id ?ps)"
    using assms(2) unfolding tables_ok_def principals_ok_def by blast
  then have "filter (\<lambda>c. snd c = ?v) (credential_rows (db_principals (st_db (sto_data store')))) = [(row_binding (issued_row candidate row), ?v)]"
    unfolding ps' using credential_rows_map [OF _ row(1), of "issued_row candidate" ?v] slot fresh row(2) by simp
  then have new: "authenticateBinding sha256 (False, False, False) (st_db (sto_data store')) bearer = Inr (row_binding (issued_row candidate row))"
    using authenticate_valid_bearer [OF ok' prepared_bearer_valid [OF secret(1)], of sha256] secret(2) by (simp add: Let_def)
  have "authenticateBinding sha256 (False, False, False) (st_db (sto_data store')) old =
      (if cb_PrincipalID b = principalID then Inl ErrAuthenticationRequired else Inr b)"
    if old: "authenticateBinding sha256 (False, False, False) (st_db (sto_data store)) old = Inr b" for old b
  proof -
    let ?w = "agentVerifierForBearer sha256 old"
    let ?ms = "filter (\<lambda>c. snd c = ?w) (credential_rows ?ps)"
    have valid: "validAgentBearer old" "\<not> HasPrefix old AdminBearerPrefix"
      using old by (auto simp: authenticateBinding_def split: if_splits)
    have auth: "(if length ?ms > 1 then Inl ErrAuthorizationUnavailable
        else (case ?ms of [] \<Rightarrow> Inl ErrAuthenticationRequired | c # _ \<Rightarrow> Inr (fst c))) = Inr b"
      using authenticate_valid_bearer [OF assms(2) valid, of sha256] old by (simp only: Let_def)
    then have "length ?ms \<le> Suc 0"
      by (cases "length ?ms > 1") simp_all
    from authenticate_matches [OF this auth] obtain w where ms: "?ms = [(b, w)]" ..
    then have "(b, w) \<in> set ?ms"
      by simp
    then have "\<exists>r \<in> set ?ps. pr_verifier r = Some ?w"
      by (auto simp: credential_rows_def slot_complete_def split: option.splits)
    then have "?v \<noteq> ?w"
      using fresh by metis
    from credential_rows_other [where f = "issued_row candidate" and key = principalID and rows = ?ps, OF slot this] ms
    have "filter (\<lambda>c. snd c = ?w) (credential_rows (db_principals (st_db (sto_data store')))) =
        (if cb_PrincipalID b = principalID then [] else [(b, w)])"
      unfolding ps' by simp
    then show ?thesis
      using authenticate_valid_bearer [OF ok' valid, of sha256] by (simp add: Let_def)
  qed
  with new row(2) show ?thesis
    by (auto simp: row_binding_def)
qed

definition sample_digest :: "string \<Rightarrow> string" where
  "sample_digest s = replicate 32 CHR ''0''"

lemma sample_issue:
  "\<exists>p bearer store'. IssueCredential (\<lambda>_. None) sample_digest steady_driver (False, False, False) (sample_authority 0)
     ''00000000000000000000000001'' (FormatInt 1) 0 (replicate 42 1)
     \<lparr>sto_owned = False, sto_latched = False, sto_data = sample_authority 0\<rparr> = (Inr (p, bearer), store')"
proof -
  let ?id = "''00000000000000000000000001''"
  let ?row = "sample_agent 0"
  have before: "principalByIDTx ?id (sample_authority 0) = Inr (read_agent ?row None)"
    by (rule read_sample) (simp_all add: sample_authority_def sample_agent_def scan_credential_def)
  have revisions: "parsePrincipalRevisions (read_agent ?row None) = Inr (1, 0)"
    using format_parse [of 1] format_parse [of 0] by (simp add: parsePrincipalRevisions_def read_agent_def sample_agent_def)
  have "ReadFull 32 (replicate 42 1 :: byte list) = Some (replicate 32 1, replicate 10 1)"
    by (simp add: ReadFull_def)
  moreover have "newID 0 (replicate 10 1) = Inr (''0000000000040G2081040G2081'', [])"
    by code_simp
  ultimately obtain candidate where prep: "prepareCredential sample_digest 0 (replicate 42 1) = Inr (candidate, [])"
    and cid: "cand_id candidate = ''0000000000040G2081040G2081''"
    by (simp add: prepareCredential_def agentBearerEntropyBytes_def Let_def)
  let ?st1 = "update_principal ?id (issued_row candidate) (sample_authority 0)"
  have after: "\<exists>p. principalByIDTx ?id ?st1 = Inr p"
    by (rule exI, rule read_sample [of _ "issued_row candidate ?row"])
      (simp_all add: update_principal_def sample_authority_def sample_agent_def issued_row_def scan_credential_def)
  have "valid_credential_candidate ?id (cand_id candidate) 2 1"
    unfolding cid by code_simp
  moreover have "\<not> list_ex (credential_collision candidate) (db_principals (st_db (sample_authority 0)))"
    by (simp add: sample_authority_def sample_agent_def credential_collision_def)
  moreover have "p_State (read_agent ?row None) = PrincipalState_string PrincipalActive" "p_Credential (read_agent ?row None) = None"
    by (simp_all add: read_agent_def sample_agent_def)
  ultimately show ?thesis
    using before revisions prep after sample_revision
    by (auto simp: IssueCredential_def credentialMutationPreflight_def view_def mutate_mapped_def mutate_def acquireMutation_def
        releaseMutation_def mutateOwned_def finishConnection_def run_transaction_def steady_driver_def issue_credential_tx_def
        audit_MutationTx_def Let_def)
qed

theorem issued_bearer_authenticates_witness:
  "\<exists>p bearer store' binding. IssueCredential (\<lambda>_. None) sample_digest steady_driver (False, False, False) (sample_authority 0)
     ''00000000000000000000000001'' (FormatInt 1) 0 (replicate 42 1)
     \<lparr>sto_owned = False, sto_latched = False, sto_data = sample_authority 0\<rparr> = (Inr (p, bearer), store') \<and>
   authenticateBinding sample_digest (False, False, False) (st_db (sto_data store')) bearer = Inr binding \<and>
   cb_PrincipalID binding = ''00000000000000000000000001''"
proof -
  obtain p bearer store' where run: "IssueCredential (\<lambda>_. None) sample_digest steady_driver (False, False, False) (sample_authority 0)
     ''00000000000000000000000001'' (FormatInt 1) 0 (replicate 42 1)
     \<lparr>sto_owned = False, sto_latched = False, sto_data = sample_authority 0\<rparr> = (Inr (p, bearer), store')"
    using sample_issue by blast
  have "tables_ok no_regex (\<lambda>_. False) 0 (sto_data \<lparr>sto_owned = False, sto_latched = False, sto_data = sample_authority 0\<rparr>)"
    using sample_authority_ok [OF epoch_valid] by simp
  from issued_bearer_authenticates [OF run this _ epoch_valid] run show ?thesis
    by (auto simp: sample_digest_def)
qed

text \<open>
  C39: A patch of a principal whose wall-clock reading is earlier than the principal's creation succeeds, and from then
  on no bearer of any principal authenticates: the reading of the credentials is unavailable, and the next start
  refuses the tables. No check, in the code or in the tables, keeps the update time from preceding the creation
  time.
\<close>

theorem patch_before_creation_blocks:
  assumes "PatchPrincipal audit dr principalID request stamp store = (Inr p, store')"
    and "tables_ok rx stored clock (sto_data store)" and "row \<in> set (db_principals (st_db (sto_data store)))"
    and "pr_id row = principalID" and "canonicalTimestamp (pr_createdAt row) = Some created" and "stamp < created"
    and "validEvaluationTime stamp"
  shows "(\<forall>sha256 bearer. validAgentBearer bearer \<longrightarrow>
      authenticateBinding sha256 (False, False, False) (st_db (sto_data store')) bearer = Inl ErrAuthorizationUnavailable) \<and>
    validatePrincipals (db_principals (st_db (sto_data store'))) = Inl ErrInvalidState"
proof -
  let ?ps = "db_principals (st_db (sto_data store))" and ?ps' = "db_principals (st_db (sto_data store'))"
  obtain expected where run: "mutate_mapped dr (patch_principal_tx audit principalID expected request stamp) store = (Inr p, store')"
    using assms(1) unfolding PatchPrincipal_def by (auto split: if_splits sum.splits)
  have "mutate dr isStorageFailure (patch_principal_tx audit principalID expected request stamp) store = (Inr p, store')"
    using run by (cases "mutate dr isStorageFailure (patch_principal_tx audit principalID expected request stamp) store";
        cases "fst (mutate dr isStorageFailure (patch_principal_tx audit principalID expected request stamp) store)")
      (auto simp: mutate_mapped_def)
  from patch_principal_tx_rows [OF mutate_success [OF this]] obtain name state visibility disabling where
    ps': "?ps' = map (\<lambda>row. if pr_id row = principalID then patched_row name state visibility disabling (FormatCanonical stamp) row else row) ?ps"
    by blast
  let ?row = "patched_row name state visibility disabling (FormatCanonical stamp) row"
  have member: "?row \<in> set ?ps'"
    unfolding ps' using assms(3,4) by force
  have times: "canonicalTimestamp (pr_createdAt ?row) = Some created" "canonicalTimestamp (pr_updatedAt ?row) = Some stamp"
    using assms(5) valid_time_canonical [OF assms(7)] by (simp_all add: patched_row_def clear_credential_def Let_def)
  have bad: "\<not> (\<forall>r \<in> set rows. \<exists>created updated. canonicalTimestamp (pr_createdAt r) = Some created \<and>
      canonicalTimestamp (pr_updatedAt r) = Some updated \<and> created \<le> updated)" if "set rows = set ?ps'" for rows
    using member times assms(6) that by (metis not_less option.inject)
  have len: "length ?ps' \<le> 128"
    using assms(2) by (simp add: ps' tables_ok_def principals_ok_def)
  then have sets: "set (take (nat (mustLimit ''principals'' + 1)) (sort_key pr_sequence (sort_key pr_id ?ps'))) = set ?ps'"
      "set (take (nat (mustLimit ''principals'' + 1)) (sort_key pr_sequence ?ps')) = set ?ps'"
    by simp_all
  have "loadAuthenticationCandidates (st_db (sto_data store')) = Inl ErrAuthorizationUnavailable"
    using load_candidates_result bad [OF sets(1)] unfolding loadAuthenticationCandidates_def Let_def by blast
  moreover have "\<not> HasPrefix bearer AdminBearerPrefix" if "validAgentBearer bearer" for bearer
    using that by (auto simp: validAgentBearer_def HasPrefix_def AgentBearerPrefix_def AdminBearerPrefix_def)
  moreover have "validate_principal_rows (mustLimit ''principals'') 0 [] (take (nat (mustLimit ''principals'' + 1)) (sort_key pr_sequence ?ps')) = None"
    using validate_rows_result bad [OF sets(2)] by (metis option.exhaust)
  ultimately show ?thesis
    by (simp add: authenticateBinding_def view_def validatePrincipals_def Let_def)
qed

definition sample_rename :: PatchPrincipalRequest where
  "sample_rename =
     \<lparr>ppr_HTTPDefault = None, ppr_ExpectedRevision = FormatInt 1, ppr_DisplayName = Some ''renamed'', ppr_State = None,
      ppr_Visibility = None\<rparr>"

lemma sample_patch:
  "\<exists>p store'. PatchPrincipal (\<lambda>_. None) steady_driver ''00000000000000000000000001'' sample_rename 0
     \<lparr>sto_owned = False, sto_latched = False, sto_data = sample_authority 1\<rparr> = (Inr p, store')"
proof -
  let ?id = "''00000000000000000000000001''"
  let ?row = "sample_agent 1"
  have before: "principalByIDTx ?id (sample_authority 1) = Inr (read_agent ?row None)"
    by (rule read_sample) (simp_all add: sample_authority_def sample_agent_def scan_credential_def)
  let ?st1 = "update_principal ?id (patched_row ''renamed'' ''active'' ''all'' False (FormatCanonical 0)) (sample_authority 1)"
  have after: "\<exists>p. principalByIDTx ?id ?st1 = Inr p"
    by (rule exI, rule read_sample [of _ "patched_row ''renamed'' ''active'' ''all'' False (FormatCanonical 0) ?row"])
      (simp_all add: update_principal_def sample_authority_def sample_agent_def patched_row_def scan_credential_def)
  have "patch_request_valid sample_rename"
  proof -
    have "validDisplayName ''renamed''"
      by code_simp
    then show ?thesis
      by (simp add: patch_request_valid_def sample_rename_def)
  qed
  moreover have "can_increment False ?row"
    by (simp add: can_increment_def sample_agent_def)
  ultimately show ?thesis
    using before after sample_revision format_parse [of 1]
    by (auto simp: PatchPrincipal_def patch_principal_tx_def patch_finish_def sample_rename_def given_def read_agent_def mutate_mapped_def
        mutate_def acquireMutation_def releaseMutation_def mutateOwned_def finishConnection_def run_transaction_def steady_driver_def
        audit_MutationTx_def Let_def sample_authority_def sample_agent_def)
qed

theorem patch_before_creation_blocks_witness:
  "\<exists>p store'. PatchPrincipal (\<lambda>_. None) steady_driver ''00000000000000000000000001'' sample_rename 0
     \<lparr>sto_owned = False, sto_latched = False, sto_data = sample_authority 1\<rparr> = (Inr p, store') \<and>
   validatePrincipals (db_principals (st_db (sto_data store'))) = Inl ErrInvalidState"
proof -
  obtain p store' where run: "PatchPrincipal (\<lambda>_. None) steady_driver ''00000000000000000000000001'' sample_rename 0
     \<lparr>sto_owned = False, sto_latched = False, sto_data = sample_authority 1\<rparr> = (Inr p, store')"
    using sample_patch by blast
  have later: "validEvaluationTime 1"
    by code_simp
  have "tables_ok no_regex (\<lambda>_. False) 1 (sto_data \<lparr>sto_owned = False, sto_latched = False, sto_data = sample_authority 1\<rparr>)"
    using sample_authority_ok [OF later] by simp
  from patch_before_creation_blocks [OF run this, of "sample_agent 1" 1] run show ?thesis
    using valid_time_canonical [OF later] epoch_valid by (auto simp: sample_authority_def sample_agent_def)
qed

end
