(* ===== verification/Request_Startup.thy ===== *)
theory Request_Startup
  imports Request_Approval
begin

text \<open>
  The check of the stored grant requests before the gateway is ready (\<open>internal/grantrequests/startup.go\<close>). Which principals
  exist, the namespace of a server, and whether stored evidence is what its descriptor would give are read from
  other tables and are parameters; the caches of the loop only save repeated reads and are left out.
\<close>

record stored_inspectors =
  si_principal :: "string \<Rightarrow> bool"
  si_namespace :: "string \<Rightarrow> string option"
  si_evidence :: "string \<Rightarrow> string \<Rightarrow> normalizedTarget \<Rightarrow> string \<Rightarrow> bool"

definition validateStoredEvidence :: "stored_inspectors \<Rightarrow> string option \<Rightarrow> string \<Rightarrow> normalizedTarget \<Rightarrow> string \<Rightarrow> bool" where
  "validateStoredEvidence stored column serverID target capturedAt =
     (case column of
        None \<Rightarrow> False
      | Some contents \<Rightarrow> contents \<noteq> [] \<and> nt_upstreamName target \<noteq> None \<and> si_evidence stored contents serverID target capturedAt)"

definition validateRequestIdentities :: "(string \<times> string) list \<Rightarrow> bool" where
  "validateRequestIdentities identities = list_all (\<lambda>(i, createdAt). validOpaqueID i \<and> canonicalStoredTime createdAt \<noteq> None) identities"

definition put :: "'k \<Rightarrow> 'v \<Rightarrow> ('k \<times> 'v) list \<Rightarrow> ('k \<times> 'v) list" where
  "put k v entries = (k, v) # filter (\<lambda>entry. fst entry \<noteq> k) entries"

fun loadSafeStartupRequests ::
  "regex_lib \<Rightarrow> int \<Rightarrow> (string \<times> AgentGrantRequest \<times> int) list \<Rightarrow> request_row list \<Rightarrow> (string \<times> AgentGrantRequest \<times> int) list option" where
  "loadSafeStartupRequests rx previous safe [] = Some safe"
| "loadSafeStartupRequests rx previous safe (row # rows) =
     (case scanAgentRequest rx row of
        Inl _ \<Rightarrow> None
      | Inr (sequence, request) \<Rightarrow>
          if sequence \<le> previous \<or> int (length safe) \<ge> mustLimit ''grant_requests'' then None
          else loadSafeStartupRequests rx sequence (put (agr_ID request) (request, sequence) safe) rows)"

definition approved_name_ok :: "regex_lib \<Rightarrow> string \<Rightarrow> AgentGrantRequest \<Rightarrow> (CompiledPolicy \<times> normalizedTarget) option option" where
  "approved_name_ok rx namespace request =
     (case agr_ApprovedPolicy request of
        None \<Rightarrow> Some None
      | Some policy \<Rightarrow>
          (case CompilePolicy rx policy of
             Inl _ \<Rightarrow> None
           | Inr approved \<Rightarrow>
               (case normalizePolicyTarget approved of
                  None \<Rightarrow> None
                | Some approvedName \<Rightarrow> if nt_namespace approvedName \<noteq> namespace then None else Some (Some (approved, approvedName)))))"

definition validateStartupRequest :: "regex_lib \<Rightarrow> stored_inspectors \<Rightarrow> AgentGrantRequest \<Rightarrow> request_row \<Rightarrow> string \<Rightarrow> bool" where
  "validateStartupRequest rx stored request row namespace =
     (case CompilePolicy rx (agr_RequestedPolicy request) of
        Inl _ \<Rightarrow> False
      | Inr requested \<Rightarrow>
          (case normalizePolicyTarget requested of
             None \<Rightarrow> False
           | Some requestedName \<Rightarrow>
               nt_namespace requestedName = namespace \<and> nt_upstreamName requestedName = rq_upstream row \<and>
               CanonicalDedupeIdentity requested \<lparr>ServerID = rq_server row, UpstreamName = rq_upstream row\<rparr> =
                 Inr \<lparr>di_Version = rq_dedupeVersion row, di_Bytes = rq_dedupeBytes row\<rparr> \<and>
               (if cp_Scope requested = PolicyScope_string PolicyTool
                then validateStoredEvidence stored (rq_submittedEvidence row) (rq_server row) requestedName (agr_CreatedAt request)
                else column_bytes (rq_submittedEvidence row) = 0) \<and>
               (case approved_name_ok rx namespace request of
                  None \<Rightarrow> False
                | Some name \<Rightarrow>
                    (case name of
                       Some (approved, approvedName) \<Rightarrow>
                         if cp_Scope requested = PolicyScope_string PolicyServer \<and> cp_Scope approved = PolicyScope_string PolicyTool
                         then (case agr_ClosedAt request of
                                 None \<Rightarrow> False
                               | Some closed \<Rightarrow> validateStoredEvidence stored (rq_approvedEvidence row) (rq_server row) approvedName closed)
                         else column_bytes (rq_approvedEvidence row) = 0
                     | None \<Rightarrow> column_bytes (rq_approvedEvidence row) = 0))))"

definition startup_row_ok ::
  "regex_lib \<Rightarrow> stored_inspectors \<Rightarrow> (string \<times> string) list \<Rightarrow> (string \<times> AgentGrantRequest \<times> int) list \<Rightarrow> request_row \<Rightarrow> AgentGrantRequest option" where
  "startup_row_ok rx stored identities safe row =
     (case (map_of safe (rq_id row), map_of identities (rq_id row)) of
        (Some (request, sequence), Some identityCreatedAt) \<Rightarrow>
          if sequence \<noteq> rq_sequence row \<or> \<not> validOpaqueID (rq_principal row) \<or> \<not> validOpaqueID (rq_server row) \<or>
             rq_server row = SyntheticServerID \<or> identityCreatedAt \<noteq> agr_CreatedAt request \<or> \<not> si_principal stored (rq_principal row) then None
          else
            (case si_namespace stored (rq_server row) of
               None \<Rightarrow> None
             | Some namespace \<Rightarrow> if validateStartupRequest rx stored request row namespace then Some request else None)
      | _ \<Rightarrow> None)"

fun startup_rows ::
  "regex_lib \<Rightarrow> stored_inspectors \<Rightarrow> (string \<times> string) list \<Rightarrow> (string \<times> AgentGrantRequest \<times> int) list \<Rightarrow> int \<Rightarrow> string list \<Rightarrow> int \<Rightarrow>
     request_row list \<Rightarrow> (int \<times> int) option" where
  "startup_rows rx stored identities safe seen pending evidence [] = Some (seen, evidence)"
| "startup_rows rx stored identities safe seen pending evidence (row # rows) =
     (case startup_row_ok rx stored identities safe row of
        None \<Rightarrow> None
      | Some request \<Rightarrow>
          if seen \<ge> mustLimit ''grant_requests'' then None
          else
            let pending' = (if agr_State request = RequestPending then rq_principal row # pending else pending);
                evidence' = evidence + row_evidence row in
            if int (count_list pending' (rq_principal row)) > mustLimit ''pending_grant_requests_per_principal'' then None
            else if evidence' > mustLimit ''grant_request_evidence_bytes'' then None
            else startup_rows rx stored identities safe (seen + 1) pending' evidence' rows)"

definition ValidateStartup :: "regex_lib \<Rightarrow> stored_inspectors \<Rightarrow> request_tables \<Rightarrow> request_error + unit" where
  "ValidateStartup rx stored tables =
     (if \<not> validateRequestIdentities (rt_identities tables) then Inl ReqInvalidState
      else
        let rows = take (nat (mustLimit ''grant_requests'' + 1)) (sort_key rq_sequence (sort_key rq_id (rt_rows tables))) in
        (case loadSafeStartupRequests rx 0 [] rows of
           None \<Rightarrow> Inl ReqInvalidState
         | Some safe \<Rightarrow>
             (case startup_rows rx stored (rt_identities tables) safe 0 [] 0 rows of
                None \<Rightarrow> Inl ReqInvalidState
              | Some (seen, evidence) \<Rightarrow>
                  if seen \<noteq> int (length safe) \<or> rt_evidence tables \<noteq> evidence then Inl ReqInvalidState else Inr ())))"

end
