(* ===== verification/Request_Invariant.thy ===== *)
theory Request_Invariant
  imports Request_Startup
begin

text \<open>
  What every operation keeps of the stored grant requests: each row reads as a request and would pass the start-up
  check, numbers ascend, identifiers are never reused, pending requests of a principal ask for different things, and
  the rows, the pending requests and the evidence stay within their limits.
\<close>

subsection \<open>The invariant\<close>

definition request_row_ok :: "regex_lib \<Rightarrow> stored_inspectors \<Rightarrow> request_row \<Rightarrow> bool" where
  "request_row_ok rx stored row \<longleftrightarrow>
     (\<exists>request namespace. scanAgentRequest rx row = Inr (rq_sequence row, request) \<and> si_namespace stored (rq_server row) = Some namespace \<and>
        validateStartupRequest rx stored request row namespace) \<and>
     validOpaqueID (rq_principal row) \<and> validOpaqueID (rq_server row) \<and> rq_server row \<noteq> SyntheticServerID \<and>
     si_principal stored (rq_principal row) \<and>
     column_bytes (rq_submittedEvidence row) \<le> mustLimit ''grant_request_evidence_snapshot_bytes'' \<and>
     column_bytes (rq_approvedEvidence row) \<le> mustLimit ''grant_request_evidence_snapshot_bytes''"

definition dedupe_key :: "request_row \<Rightarrow> string \<times> int \<times> string" where
  "dedupe_key row = (rq_principal row, rq_dedupeVersion row, rq_dedupeBytes row)"

definition pending_of :: "string \<Rightarrow> request_row list \<Rightarrow> int" where
  "pending_of principalID rows = int (length (filter (\<lambda>row. rq_principal row = principalID \<and> pending_row row) rows))"

definition rows_ok :: "regex_lib \<Rightarrow> stored_inspectors \<Rightarrow> request_tables \<Rightarrow> bool" where
  "rows_ok rx stored tables \<longleftrightarrow>
     (\<forall>row \<in> set (rt_rows tables). request_row_ok rx stored row \<and> rq_sequence row \<le> rt_sequence tables \<and>
        (rq_id row, rq_createdAt row) \<in> set (rt_identities tables)) \<and>
     sorted_wrt (<) (map rq_sequence (rt_rows tables)) \<and> distinct (map rq_id (rt_rows tables)) \<and>
     distinct (map dedupe_key (filter pending_row (rt_rows tables)))"

definition requests_ok :: "regex_lib \<Rightarrow> stored_inspectors \<Rightarrow> request_tables \<Rightarrow> bool" where
  "requests_ok rx stored tables \<longleftrightarrow>
     rows_ok rx stored tables \<and> 0 \<le> rt_sequence tables \<and> distinct (map fst (rt_identities tables)) \<and>
     validateRequestIdentities (rt_identities tables) \<and> rt_evidence tables = sum_list (map row_evidence (rt_rows tables)) \<and>
     int (length (rt_rows tables)) \<le> rc_rows New_capacity \<and> (\<forall>principalID. pending_of principalID (rt_rows tables) \<le> rc_pending New_capacity) \<and>
     rt_evidence tables \<le> rc_evidenceBytes New_capacity"

lemma no_evidence [simp]: "column_bytes None = 0"
  by (simp add: column_bytes_def)

lemma column_bytes_nonneg: "0 \<le> column_bytes column"
  by (cases column) (simp_all add: column_bytes_def)

lemma row_evidence_nonneg: "0 \<le> row_evidence row"
  by (simp add: row_evidence_def column_bytes_nonneg)

lemma evidence_nonneg: "0 \<le> sum_list (map row_evidence rows)"
  by (induction rows) (simp_all add: row_evidence_nonneg)

lemma row_evidence_bound:
  "request_row_ok rx stored row \<Longrightarrow> row_evidence row \<le> 2 * mustLimit ''grant_request_evidence_snapshot_bytes''"
  by (simp add: request_row_ok_def row_evidence_def)

subsection \<open>Room for a request\<close>

lemma retention_last: "retention_scan requiredRows requiredEvidence victims freed lastSequence rows = Some (v, f, l) \<Longrightarrow> lastSequence \<le> l"
proof (induction rows arbitrary: victims freed lastSequence)
  case (Cons row rows)
  then have "lastSequence < rq_sequence row" and "l = rq_sequence row \<or> rq_sequence row \<le> l"
    by (auto split: if_splits)
  then show ?case by auto
qed simp

lemma retention_prefix:
  assumes "retention_scan requiredRows requiredEvidence victims freed lastSequence rows = Some (v, f, l)"
    and "sorted_wrt (<) (map rq_sequence rows)" and "\<forall>row \<in> set rows. lastSequence < rq_sequence row"
  shows "v = victims + int (length (filter (\<lambda>row. rq_sequence row \<le> l) rows)) \<and>
    f = freed + sum_list (map row_evidence (filter (\<lambda>row. rq_sequence row \<le> l) rows))"
  using assms
proof (induction rows arbitrary: victims freed lastSequence)
  case Nil
  then show ?case by simp
next
  case (Cons row rows)
  have above: "\<forall>other \<in> set rows. rq_sequence row < rq_sequence other"
    using Cons.prems(2) by simp
  show ?case
  proof (cases "victims + 1 \<ge> requiredRows \<and> freed + row_evidence row \<ge> requiredEvidence")
    case True
    then have l: "l = rq_sequence row" "v = victims + 1" "f = freed + row_evidence row"
      using Cons.prems(1) by (auto split: if_splits)
    have "filter (\<lambda>other. rq_sequence other \<le> l) rows = []"
      using above l(1) by (auto simp: filter_empty_conv)
    then show ?thesis
      by (simp add: l)
  next
    case False
    then have scan: "retention_scan requiredRows requiredEvidence (victims + 1) (freed + row_evidence row) (rq_sequence row) rows = Some (v, f, l)"
      using Cons.prems(1) by (auto split: if_splits)
    have "rq_sequence row \<le> l"
      by (rule retention_last [OF scan])
    with Cons.IH [OF scan _ above] Cons.prems(2) show ?thesis
      by simp
  qed
qed


lemma evidence_split:
  "sum_list (map row_evidence rows) =
     sum_list (map row_evidence (filter P rows)) + sum_list (map row_evidence (filter (\<lambda>row. \<not> P row) rows))"
  by (induction rows) simp_all

lemma sorted_sequences:
  "sorted_wrt (<) (map rq_sequence rows) \<Longrightarrow> sort_key rq_sequence (filter P rows) = filter P rows"
  by (rule sort_key_id_if_sorted) (metis map_sorted_distinct_set_unique sorted_filter sorted_wrt_map strict_sorted_iff strict_sorted_imp_sorted)

text \<open>What making room leaves: rows go only when they are closed, and then the new row fits.\<close>

definition room_for :: "string \<Rightarrow> int \<Rightarrow> request_tables \<Rightarrow> request_tables \<Rightarrow> bool" where
  "room_for principalID bytes tables tables' \<longleftrightarrow>
     (\<exists>keep. (\<forall>row \<in> set (rt_rows tables). keep row \<or> \<not> pending_row row) \<and>
        tables' = tables\<lparr>rt_rows := filter keep (rt_rows tables), rt_evidence := sum_list (map row_evidence (filter keep (rt_rows tables)))\<rparr>) \<and>
     0 \<le> bytes \<and> bytes \<le> mustLimit ''grant_request_evidence_snapshot_bytes'' \<and>
     int (length (rt_rows tables')) + 1 \<le> rc_rows New_capacity \<and> rt_evidence tables' + bytes \<le> rc_evidenceBytes New_capacity \<and>
     pending_of principalID (rt_rows tables) + 1 \<le> rc_pending New_capacity"

lemma ensure_room:
  assumes "ensureRequestCapacity New_capacity principalID bytes tables = Inr tables'" and "requests_ok rx stored tables"
  shows "room_for principalID bytes tables tables'"
proof -
  let ?rows = "rt_rows tables"
  let ?required = "max 0 (int (length ?rows) + 1 - rc_rows New_capacity)"
  let ?wanted = "max 0 (rt_evidence tables + bytes - rc_evidenceBytes New_capacity)"
  have total: "rt_evidence tables = sum_list (map row_evidence ?rows)" and sorted: "sorted_wrt (<) (map rq_sequence ?rows)"
    using assms(2) by (simp_all add: requests_ok_def rows_ok_def)
  have bounds: "0 \<le> bytes" "bytes \<le> mustLimit ''grant_request_evidence_snapshot_bytes''"
      "pending_of principalID ?rows + 1 \<le> rc_pending New_capacity"
    using assms(1) unfolding ensureRequestCapacity_def by (auto simp: Let_def pending_of_def split: if_splits)
  show ?thesis
  proof (cases "?required = 0 \<and> ?wanted = 0")
    case True
    then have "tables' = tables"
      using assms(1) unfolding ensureRequestCapacity_def by (auto simp: Let_def split: if_splits)
    with True bounds total show ?thesis
      unfolding room_for_def by (intro conjI exI [of _ "\<lambda>_. True"]) auto
  next
    case False
    let ?open = "filter (\<lambda>row. \<not> pending_row row) ?rows"
    have "evict_requests ?required ?wanted tables = Inr tables'"
      using assms(1) False unfolding ensureRequestCapacity_def Let_def by (simp split: if_splits)
    then obtain v f l where scan: "retention_scan ?required ?wanted 0 0 0 (sort_key rq_sequence ?open) = Some (v, f, l)"
        and enough: "\<not> (v < ?required \<or> f < ?wanted)"
        and victims: "int (length (filter (\<lambda>row. \<not> pending_row row \<and> rq_sequence row \<le> l) ?rows)) = v"
        and res: "tables' = delete_requests (\<lambda>row. \<not> pending_row row \<and> rq_sequence row \<le> l) tables"
      unfolding evict_requests_def Let_def by (simp split: option.splits prod.splits if_splits)
    have opens: "sorted_wrt (<) (map rq_sequence ?open)"
      using sorted by (simp add: sorted_wrt_map sorted_wrt_filter)
    let ?victim = "\<lambda>row. \<not> pending_row row \<and> rq_sequence row \<le> l"
    have "\<forall>row \<in> set ?open. 0 < rq_sequence row"
      using assms(2) by (auto simp: requests_ok_def rows_ok_def request_row_ok_def scanAgentRequest_def split: if_splits)
    with retention_prefix [OF scan] opens have f: "f = sum_list (map row_evidence (filter ?victim ?rows))"
      by (simp add: sorted_sequences [OF sorted] filter_filter conj_commute)
    have keep: "length ?rows = length (filter ?victim ?rows) + length (filter (\<lambda>row. \<not> ?victim row) ?rows)"
      by (rule sum_length_filter_compl [symmetric])
    show ?thesis
      using bounds enough victims f keep total evidence_split [of ?rows ?victim]
      unfolding room_for_def res delete_requests_def
      by (intro conjI exI [of _ "\<lambda>row. \<not> ?victim row"]) auto
  qed
qed


lemma pending_filter_le: "pending_of p (filter keep rows) \<le> pending_of p rows"
proof -
  have "filter P (filter keep rows) = filter keep (filter P rows)" for P
    by (simp add: filter_filter conj_commute)
  then show ?thesis
    unfolding pending_of_def by (simp del: filter_filter)
qed

lemma room_keeps:
  assumes "room_for principalID bytes tables tables'" and "requests_ok rx stored tables"
  shows "requests_ok rx stored tables'"
proof -
  obtain keep where keep: "tables' = tables\<lparr>rt_rows := filter keep (rt_rows tables),
      rt_evidence := sum_list (map row_evidence (filter keep (rt_rows tables)))\<rparr>"
    using assms(1) by (auto simp: room_for_def)
  have swap: "filter P (filter keep (rt_rows tables)) = filter keep (filter P (rt_rows tables))" for P
    by (simp add: filter_filter conj_commute)
  have "rows_ok rx stored tables'"
    using assms(2) unfolding keep requests_ok_def rows_ok_def
    by (simp add: sorted_wrt_map sorted_wrt_filter distinct_map_filter swap del: filter_filter)
  moreover have "pending_of p (filter keep (rt_rows tables)) \<le> rc_pending New_capacity" for p
    using assms(2) by (intro order_trans [OF pending_filter_le]) (simp add: requests_ok_def)
  ultimately show ?thesis
    using assms unfolding requests_ok_def keep room_for_def by auto
qed


subsection \<open>What other tables promise\<close>

text \<open>
  Namespaces are permanent (\<open>Grant_Targets\<close>), and evidence encoded from a descriptor is not empty, fits its limit and is what
  the start-up check accepts for that descriptor.
\<close>

definition sources_ok :: "stored_inspectors \<Rightarrow> request_inspectors \<Rightarrow> bool" where
  "sources_ok stored inspect \<longleftrightarrow>
     (\<forall>n target. in_namespaces inspect n = Inr target \<and> ns_ID target \<noteq> SyntheticServerID \<longrightarrow>
        n \<noteq> SyntheticServerNamespace \<and> si_namespace stored (ns_ID target) = Some n) \<and>
     (\<forall>descriptor namespace at contents. in_evidence inspect descriptor namespace at = Some contents \<longrightarrow>
        contents \<noteq> [] \<and> int (length contents) \<le> mustLimit ''grant_request_evidence_snapshot_bytes'' \<and>
        (\<forall>name. nt_namespace name = namespace \<and> nt_externalName name = dd_ExternalName descriptor \<and>
           nt_upstreamName name = Some (dd_UpstreamName descriptor) \<longrightarrow>
           si_evidence stored contents (dd_ServerID descriptor) name (FormatCanonical at)))"

lemma sources_namespace:
  "sources_ok stored inspect \<Longrightarrow> in_namespaces inspect n = Inr target \<Longrightarrow> ns_ID target \<noteq> SyntheticServerID \<Longrightarrow>
     n \<noteq> SyntheticServerNamespace \<and> si_namespace stored (ns_ID target) = Some n"
  by (simp add: sources_ok_def)

lemma sources_evidence:
  assumes "sources_ok stored inspect" and "in_evidence inspect descriptor (nt_namespace name) at = Some contents"
    and "nt_externalName name = dd_ExternalName descriptor" and "nt_upstreamName name = Some (dd_UpstreamName descriptor)"
  shows "validateStoredEvidence stored (nullableEvidence contents) (dd_ServerID descriptor) name (FormatCanonical at)"
    and "column_bytes (nullableEvidence contents) = int (length contents)"
    and "int (length contents) \<le> mustLimit ''grant_request_evidence_snapshot_bytes''"
proof -
  have "contents \<noteq> [] \<and> int (length contents) \<le> mustLimit ''grant_request_evidence_snapshot_bytes'' \<and>
      si_evidence stored contents (dd_ServerID descriptor) name (FormatCanonical at)"
    using assms unfolding sources_ok_def by blast
  then show "validateStoredEvidence stored (nullableEvidence contents) (dd_ServerID descriptor) name (FormatCanonical at)"
      "column_bytes (nullableEvidence contents) = int (length contents)"
      "int (length contents) \<le> mustLimit ''grant_request_evidence_snapshot_bytes''"
    by (simp_all add: validateStoredEvidence_def nullableEvidence_def column_bytes_def assms(4))
qed

subsection \<open>Times\<close>

lemma request_time:
  assumes "canonicalRequestTime now = Some timestamp"
  shows "timestamp = FormatCanonical now" and "canonicalStoredTime timestamp = Some now"
  using assms by (auto simp: canonicalRequestTime_def canonicalStoredTime_def canonicalTimestamp_def Let_def split: if_splits)


subsection \<open>Creation\<close>

lemma pending_row_scans:
  assumes "1 \<le> rq_sequence row" and "validOpaqueID (rq_id row)" and "pending_row row" and "rq_revision row = 1"
    and "CompilePolicy rx (rq_requested row) = Inr policy" and "normalizePolicyTarget policy = Some target"
    and "nt_namespace target \<noteq> SyntheticServerNamespace" and "canonicalStoredTime (rq_createdAt row) = Some now"
    and "rq_updatedAt row = rq_createdAt row" and "rq_closedAt row = None" and "rq_approved row = no_approved"
    and "rq_approvedGrantID row = None" and "rq_rejectionReason row = None" and "\<not> rq_approvedReadOnly row"
  shows "scanAgentRequest rx row = Inr (rq_sequence row, pending_resource (rq_id row) policy (rq_createdAt row))"
proof -
  have "ParseGrantRequestState (rq_state row) = Some RequestPending"
    unfolding assms(3) ParseGrantRequestState_def by (rule grant_request_state.parse_spell)
  moreover have "compileStoredPolicy rx (rq_requested row) = Inr (policy, target)"
    by (simp add: compileStoredPolicy_def assms(5-7))
  moreover have "FormatInt 1 = ''1''"
    by code_simp
  ultimately show ?thesis
    using assms by (simp add: scanAgentRequest_def closed_consistent_def scan_approved_def has_approved_def state_consistent_def pending_resource_def)
qed

lemma creation_evidence_facts:
  assumes "creation_evidence inspect policy target resolved (nt_namespace target) now = Inr evidence" and "sources_ok stored inspect"
    and "UpstreamName resolved = nt_upstreamName target"
  shows "int (length evidence) \<le> mustLimit ''grant_request_evidence_snapshot_bytes''"
    and "column_bytes (nullableEvidence evidence) = int (length evidence)"
    and "if cp_Scope policy = PolicyScope_string PolicyTool
      then validateStoredEvidence stored (nullableEvidence evidence) (ServerID resolved) target (FormatCanonical now)
      else column_bytes (nullableEvidence evidence) = 0"
proof -
  have "int (length evidence) \<le> mustLimit ''grant_request_evidence_snapshot_bytes'' \<and>
      column_bytes (nullableEvidence evidence) = int (length evidence) \<and>
      (if cp_Scope policy = PolicyScope_string PolicyTool
       then validateStoredEvidence stored (nullableEvidence evidence) (ServerID resolved) target (FormatCanonical now)
       else column_bytes (nullableEvidence evidence) = 0)"
  proof (cases "cp_Scope policy = PolicyScope_string PolicyTool")
    case True
    obtain descriptor where d: "dd_ServerID descriptor = ServerID resolved" "dd_ExternalName descriptor = nt_externalName target"
        "Some (dd_UpstreamName descriptor) = UpstreamName resolved" "in_evidence inspect descriptor (nt_namespace target) now = Some evidence"
      using assms(1) True unfolding creation_evidence_def by (auto split: sum.splits target_error.splits if_splits option.splits)
    from sources_evidence [OF assms(2) d(4)] d assms(3) True show ?thesis
      by simp
  next
    case False
    then show ?thesis
      using assms(1) by (simp add: creation_evidence_def nullableEvidence_def column_bytes_def)
  qed
  then show "int (length evidence) \<le> mustLimit ''grant_request_evidence_snapshot_bytes''"
      "column_bytes (nullableEvidence evidence) = int (length evidence)"
      "if cp_Scope policy = PolicyScope_string PolicyTool
       then validateStoredEvidence stored (nullableEvidence evidence) (ServerID resolved) target (FormatCanonical now)
       else column_bytes (nullableEvidence evidence) = 0"
    by blast+
qed


lemma admin_NewID_valid:
  assumes "admin_NewID now entropy = Some i"
  shows "validOpaqueID i"
proof (cases "i = ''00000000000000000000000000''")
  case True
  show ?thesis
    unfolding True by code_simp
next
  case False
  then have "newID now entropy = Inr (i, drop 10 entropy)"
    using assms by (auto simp: admin_NewID_def newID_def ReadFull_def Let_def split: if_splits)
  from newID_Inr [OF this] obtain random where "i = map ((!) crockford) (base32 26 (identity_number (UnixMilli now) random))"
      "length random = 10" "0 \<le> UnixMilli now" "UnixMilli now < 2 ^ 48"
    by blast
  with base32_valid identity_number_bound show ?thesis
    by blast
qed

lemma pending_request_row_fields [simp]:
  "rq_sequence (pending_request_row n i p policy resolved identity evidence ts) = n"
  "rq_id (pending_request_row n i p policy resolved identity evidence ts) = i"
  "rq_principal (pending_request_row n i p policy resolved identity evidence ts) = p"
  "rq_state (pending_request_row n i p policy resolved identity evidence ts) = GrantRequestState_string RequestPending"
  "rq_server (pending_request_row n i p policy resolved identity evidence ts) = ServerID resolved"
  "rq_upstream (pending_request_row n i p policy resolved identity evidence ts) = UpstreamName resolved"
  "rq_requested (pending_request_row n i p policy resolved identity evidence ts) = cp_value policy"
  "rq_createdAt (pending_request_row n i p policy resolved identity evidence ts) = ts"
  "rq_submittedEvidence (pending_request_row n i p policy resolved identity evidence ts) = nullableEvidence evidence"
  "rq_approvedEvidence (pending_request_row n i p policy resolved identity evidence ts) = None"
  "dedupe_key (pending_request_row n i p policy resolved identity evidence ts) = (p, di_Version identity, di_Bytes identity)"
  "row_evidence (pending_request_row n i p policy resolved identity evidence ts) = column_bytes (nullableEvidence evidence)"
  by (simp_all add: pending_request_row_def dedupe_key_def row_evidence_def column_bytes_def)

lemma insert_keeps:
  assumes "requests_ok rx stored tables" and "i \<notin> fst ` set (rt_identities tables)" and "validOpaqueID i" and "canonicalStoredTime ts \<noteq> None"
    and "insertPendingRequest i p policy resolved identity evidence ts (tables\<lparr>rt_identities := rt_identities tables @ [(i, ts)]\<rparr>) = Some tables'"
    and "int (length (rt_rows tables)) + 1 \<le> rc_rows New_capacity"
    and "rt_evidence tables + column_bytes (nullableEvidence evidence) \<le> rc_evidenceBytes New_capacity"
    and "pending_of p (rt_rows tables) + 1 \<le> rc_pending New_capacity"
    and "request_row_ok rx stored (pending_request_row (rt_sequence tables + 1) i p policy resolved identity evidence ts)"
  shows "requests_ok rx stored tables'"
proof -
  let ?row = "pending_request_row (rt_sequence tables + 1) i p policy resolved identity evidence ts"
  have fresh: "\<forall>row \<in> set (rt_rows tables). rq_id row \<noteq> i"
      "\<forall>row \<in> set (rt_rows tables). pending_row row \<longrightarrow> dedupe_key row \<noteq> (p, di_Version identity, di_Bytes identity)"
      and tables': "tables' = tables\<lparr>rt_rows := rt_rows tables @ [?row], rt_identities := rt_identities tables @ [(i, ts)],
        rt_sequence := rt_sequence tables + 1, rt_evidence := rt_evidence tables + column_bytes (nullableEvidence evidence)\<rparr>"
    using assms(5) by (auto simp: insertPendingRequest_def Let_def list_ex_iff dedupe_key_def split: if_splits)
  note ok = assms(1) [unfolded requests_ok_def rows_ok_def]
  have "rows_ok rx stored tables'"
    unfolding rows_ok_def tables' using ok fresh assms(9) by (auto simp: sorted_wrt_append)
  moreover have "pending_of q (rt_rows tables @ [?row]) \<le> rc_pending New_capacity" for q
    using ok assms(8) by (auto simp: pending_of_def)
  moreover have "validateRequestIdentities (rt_identities tables @ [(i, ts)])"
    using ok assms(3,4) by (simp add: validateRequestIdentities_def)
  ultimately show ?thesis
    unfolding requests_ok_def tables' using ok assms(2,6,7) by simp
qed


lemma create_request_tx_Inr:
  assumes "create_request_tx rx inspect capacity p policy target now entropy gs = Inr (r, gs')"
  shows "\<exists>namespace identity timestamp evidence. in_namespaces inspect (nt_namespace target) = Inr namespace \<and>
    validOpaqueID (ns_ID namespace) \<and> ns_ID namespace \<noteq> SyntheticServerID \<and> ns_Namespace namespace = nt_namespace target \<and>
    CanonicalDedupeIdentity policy \<lparr>ServerID = ns_ID namespace, UpstreamName = nt_upstreamName target\<rparr> = Inr identity \<and>
    loadPendingByIdentity rx p identity \<lparr>ServerID = ns_ID namespace, UpstreamName = nt_upstreamName target\<rparr> (gs_requests gs) = Inr None \<and>
    canonicalRequestTime now = Some timestamp \<and>
    creation_evidence inspect policy target \<lparr>ServerID = ns_ID namespace, UpstreamName = nt_upstreamName target\<rparr> (nt_namespace target) now = Inr evidence \<and>
    in_denies inspect p \<lparr>ServerID = ns_ID namespace, UpstreamName = nt_upstreamName target\<rparr> now = Inr False \<and>
    create_insert capacity p policy \<lparr>ServerID = ns_ID namespace, UpstreamName = nt_upstreamName target\<rparr> identity evidence timestamp now entropy gs = Inr (r, gs')"
  using assms unfolding create_request_tx_def Let_def
  by (simp split: sum.splits target_error.splits option.splits if_splits)

lemma create_insert_Inr:
  assumes "create_insert capacity p policy resolved identity evidence timestamp now entropy gs = Inr (r, gs')"
  shows "\<exists>tables i tables'. ensureRequestCapacity capacity p (int (length evidence)) (gs_requests gs) = Inr tables \<and>
    admin_NewID now entropy = Some i \<and> i \<notin> fst ` set (rt_identities tables) \<and>
    insertPendingRequest i p policy resolved identity evidence timestamp (tables\<lparr>rt_identities := rt_identities tables @ [(i, timestamp)]\<rparr>) = Some tables' \<and>
    r = (RequestCreated, Some (pending_resource i policy timestamp)) \<and> gs' = gs\<lparr>gs_requests := tables'\<rparr>"
  using assms unfolding create_insert_def by (auto split: sum.splits capacity_error.splits option.splits if_splits)

lemma new_row_ok:
  assumes "CompilePolicy rx requested = Inr policy" and "normalizePolicyTarget policy = Some target" and "sources_ok stored inspect"
    and "in_namespaces inspect (nt_namespace target) = Inr namespace" and "validOpaqueID (ns_ID namespace)" and "ns_ID namespace \<noteq> SyntheticServerID"
    and "CanonicalDedupeIdentity policy \<lparr>ServerID = ns_ID namespace, UpstreamName = nt_upstreamName target\<rparr> = Inr identity"
    and "canonicalRequestTime now = Some timestamp"
    and "creation_evidence inspect policy target \<lparr>ServerID = ns_ID namespace, UpstreamName = nt_upstreamName target\<rparr> (nt_namespace target) now = Inr evidence"
    and "validOpaqueID p" and "si_principal stored p" and "validOpaqueID i" and "0 \<le> n"
  shows "request_row_ok rx stored (pending_request_row (n + 1) i p policy \<lparr>ServerID = ns_ID namespace, UpstreamName = nt_upstreamName target\<rparr> identity evidence timestamp)"
    (is "request_row_ok rx stored ?row")
proof -
  have stored_value: "cp_value policy = requested"
    by (rule CompilePolicy_facts(1) [OF assms(1)])
  note ns = sources_namespace [OF assms(3,4,6)]
  note ev = creation_evidence_facts [OF assms(9,3)]
  have "scanAgentRequest rx ?row = Inr (rq_sequence ?row, pending_resource (rq_id ?row) policy (rq_createdAt ?row))"
    by (rule pending_row_scans [of _ _ _ target now])
      (use assms(1,2,12,13) ns request_time(2) [OF assms(8)] in \<open>simp_all add: stored_value pending_request_row_def\<close>)
  moreover have "validateStartupRequest rx stored (pending_resource i policy timestamp) ?row (nt_namespace target)"
    using assms(1,2,7) ev(3) request_time(1) [OF assms(8)]
    by (auto simp: validateStartupRequest_def pending_resource_def stored_value approved_name_ok_def no_evidence pending_request_row_def
        split: if_splits)
  moreover have "column_bytes (nullableEvidence evidence) \<le> mustLimit ''grant_request_evidence_snapshot_bytes''"
    using ev by simp
  ultimately show ?thesis
    using ns assms(5,6,10,11) unfolding request_row_ok_def by (simp add: column_bytes_def)
qed

lemma create_keeps:
  assumes "create_request_tx rx inspect New_capacity p policy target now entropy gs = Inr (r, gs')"
    and "CompilePolicy rx requested = Inr policy" and "normalizePolicyTarget policy = Some target" and "sources_ok stored inspect"
    and "validOpaqueID p" and "si_principal stored p" and "requests_ok rx stored (gs_requests gs)"
  shows "requests_ok rx stored (gs_requests gs')"
proof -
  obtain namespace identity timestamp evidence where c: "in_namespaces inspect (nt_namespace target) = Inr namespace"
      "validOpaqueID (ns_ID namespace)" "ns_ID namespace \<noteq> SyntheticServerID"
      "CanonicalDedupeIdentity policy \<lparr>ServerID = ns_ID namespace, UpstreamName = nt_upstreamName target\<rparr> = Inr identity"
      "canonicalRequestTime now = Some timestamp"
      "creation_evidence inspect policy target \<lparr>ServerID = ns_ID namespace, UpstreamName = nt_upstreamName target\<rparr> (nt_namespace target) now = Inr evidence"
      "create_insert New_capacity p policy \<lparr>ServerID = ns_ID namespace, UpstreamName = nt_upstreamName target\<rparr> identity evidence timestamp now entropy gs = Inr (r, gs')"
    using create_request_tx_Inr [OF assms(1)] by blast
  obtain tables i tables' where t: "ensureRequestCapacity New_capacity p (int (length evidence)) (gs_requests gs) = Inr tables"
      "admin_NewID now entropy = Some i" "i \<notin> fst ` set (rt_identities tables)" "gs' = gs\<lparr>gs_requests := tables'\<rparr>"
      "insertPendingRequest i p policy \<lparr>ServerID = ns_ID namespace, UpstreamName = nt_upstreamName target\<rparr> identity evidence timestamp
         (tables\<lparr>rt_identities := rt_identities tables @ [(i, timestamp)]\<rparr>) = Some tables'"
    using create_insert_Inr [OF c(7)] by blast
  have room: "room_for p (int (length evidence)) (gs_requests gs) tables"
    by (rule ensure_room [OF t(1) assms(7)])
  have ok: "requests_ok rx stored tables"
    by (rule room_keeps [OF room assms(7)])
  have valid: "validOpaqueID i"
    by (rule admin_NewID_valid [OF t(2)])
  have "0 \<le> rt_sequence tables"
    using ok by (simp add: requests_ok_def)
  note row = new_row_ok [OF assms(2-4) c(1-6) assms(5,6) valid this]
  have "requests_ok rx stored tables'"
  proof (rule insert_keeps [OF ok t(3) valid _ t(5) _ _ _ row])
    show "canonicalStoredTime timestamp \<noteq> None"
      using request_time(2) [OF c(5)] by simp
    show "int (length (rt_rows tables)) + 1 \<le> rc_rows New_capacity"
      using room by (simp add: room_for_def)
    show "rt_evidence tables + column_bytes (nullableEvidence evidence) \<le> rc_evidenceBytes New_capacity"
      using room creation_evidence_facts(2) [OF c(6) assms(4)] by (simp add: room_for_def)
    show "pending_of p (rt_rows tables) + 1 \<le> rc_pending New_capacity"
    proof -
      obtain keep where "rt_rows tables = filter keep (rt_rows (gs_requests gs))"
        using room by (auto simp: room_for_def)
      then show ?thesis
        using pending_filter_le [of p keep "rt_rows (gs_requests gs)"] room by (simp add: room_for_def)
    qed
  qed
  then show ?thesis
    by (simp add: t(4))
qed

end
