(* ===== verification/Request_Transitions.thy ===== *)
theory Request_Transitions
  imports Request_Invariant
begin

text \<open>
  Cancellation, rejection and approval keep the invariant of the stored requests: each changes one pending row into a
  closed one that reads back and that the start-up check accepts.
\<close>

subsection \<open>Updates of pending rows\<close>

definition row_update :: "(request_row \<Rightarrow> bool) \<Rightarrow> (request_row \<Rightarrow> request_row) \<Rightarrow> request_row \<Rightarrow> request_row" where
  "row_update matches f row = (if matches row then f row else row)"

text \<open>An update of pending rows that closes them and keeps what identifies them.\<close>

definition closes :: "(request_row \<Rightarrow> bool) \<Rightarrow> (request_row \<Rightarrow> request_row) \<Rightarrow> bool" where
  "closes matches f \<longleftrightarrow>
     (\<forall>row. matches row \<longrightarrow> pending_row row \<and> \<not> pending_row (f row) \<and> rq_sequence (f row) = rq_sequence row \<and> rq_id (f row) = rq_id row \<and>
        rq_principal (f row) = rq_principal row \<and> rq_createdAt (f row) = rq_createdAt row)"

lemma row_update_columns:
  assumes "closes matches f"
  shows "rq_sequence (row_update matches f row) = rq_sequence row" and "rq_id (row_update matches f row) = rq_id row"
    and "rq_createdAt (row_update matches f row) = rq_createdAt row" and "rq_principal (row_update matches f row) = rq_principal row"
    and "pending_row (row_update matches f row) \<longleftrightarrow> pending_row row \<and> \<not> matches row"
  using assms by (auto simp: closes_def row_update_def)

lemma row_update_pending:
  assumes "closes matches f"
  shows "filter pending_row (map (row_update matches f) rows) = filter pending_row (filter (\<lambda>row. \<not> matches row) rows)"
  using assms by (induction rows) (auto simp: closes_def row_update_def)

lemma row_update_pending_of:
  assumes "closes matches f"
  shows "pending_of p (map (row_update matches f) rows) = pending_of p (filter (\<lambda>row. \<not> matches row) rows)"
  unfolding pending_of_def using assms by (induction rows) (auto simp: closes_def row_update_def)

lemma row_update_evidence:
  "sum_list (map row_evidence (map (row_update matches f) rows)) =
     sum_list (map row_evidence rows) - sum_list (map row_evidence (filter matches rows)) +
     sum_list (map (\<lambda>row. row_evidence (f row)) (filter matches rows))"
  by (induction rows) (simp_all add: row_update_def)

lemma update_tables:
  assumes "update_requests matches f tables = (updated, tables')"
  shows "tables' = tables\<lparr>rt_rows := map (row_update matches f) (rt_rows tables), rt_evidence := rt_evidence tables'\<rparr>"
    and "updated = int (length (filter matches (rt_rows tables)))"
    and "rt_evidence tables = sum_list (map row_evidence (rt_rows tables)) \<Longrightarrow>
      rt_evidence tables' = sum_list (map row_evidence (rt_rows tables'))"
proof -
  have u: "tables' = tables\<lparr>rt_rows := map (row_update matches f) (rt_rows tables),
      rt_evidence := rt_evidence tables - sum_list (map row_evidence (filter matches (rt_rows tables))) +
        sum_list (map (\<lambda>row. row_evidence (f row)) (filter matches (rt_rows tables)))\<rparr>"
      "updated = int (length (filter matches (rt_rows tables)))"
    using assms by (simp_all add: update_requests_def row_update_def [abs_def])
  then show "tables' = tables\<lparr>rt_rows := map (row_update matches f) (rt_rows tables), rt_evidence := rt_evidence tables'\<rparr>"
      "updated = int (length (filter matches (rt_rows tables)))"
    by simp_all
  assume "rt_evidence tables = sum_list (map row_evidence (rt_rows tables))"
  then show "rt_evidence tables' = sum_list (map row_evidence (rt_rows tables'))"
    using row_update_evidence [of matches f "rt_rows tables"] unfolding u(1) by simp
qed

lemma update_keeps:
  assumes "requests_ok rx stored tables" and "update_requests matches f tables = (updated, tables')" and "closes matches f"
    and "\<forall>row \<in> set (rt_rows tables). matches row \<longrightarrow> request_row_ok rx stored (f row)"
    and "rt_evidence tables' \<le> rc_evidenceBytes New_capacity"
  shows "requests_ok rx stored tables'"
proof -
  note ok = assms(1) [unfolded requests_ok_def rows_ok_def]
  note columns = row_update_columns [OF assms(3)]
  have rows: "rt_rows tables' = map (row_update matches f) (rt_rows tables)" and same: "rt_identities tables' = rt_identities tables"
      "rt_sequence tables' = rt_sequence tables"
    by (subst update_tables(1) [OF assms(2)], simp)+
  have "request_row_ok rx stored (row_update matches f row)" if "row \<in> set (rt_rows tables)" for row
    using ok assms(4) that by (simp add: row_update_def)
  moreover have "distinct (map dedupe_key (filter pending_row (map (row_update matches f) (rt_rows tables))))"
  proof -
    have "filter pending_row (map (row_update matches f) (rt_rows tables)) = filter (\<lambda>row. \<not> matches row) (filter pending_row (rt_rows tables))"
      unfolding row_update_pending [OF assms(3)] by (simp add: conj_commute)
    then show ?thesis
      using ok by (simp add: distinct_map_filter del: filter_filter)
  qed
  ultimately have "rows_ok rx stored tables'"
    unfolding rows_ok_def rows same using ok by (simp add: columns o_def)
  moreover have "pending_of p (rt_rows tables') \<le> rc_pending New_capacity" for p
    unfolding rows row_update_pending_of [OF assms(3)] using ok by (intro order_trans [OF pending_filter_le]) simp
  ultimately show ?thesis
    unfolding requests_ok_def using ok assms(5) update_tables(3) [OF assms(2)] by (simp add: same rows)
qed

subsection \<open>What a reading tells\<close>

lemma compileStoredPolicy_Inr:
  "compileStoredPolicy rx policy = Inr (compiled, target) \<longleftrightarrow>
     CompilePolicy rx policy = Inr compiled \<and> normalizePolicyTarget compiled = Some target \<and> nt_namespace target \<noteq> SyntheticServerNamespace"
  by (auto simp: compileStoredPolicy_def split: sum.splits option.splits if_splits)

lemma scan_facts:
  assumes "scanAgentRequest rx row = Inr (n, request)"
  shows "n = rq_sequence row" and "agr_CreatedAt request = rq_createdAt row" and "agr_ClosedAt request = rq_closedAt row"
    and "agr_RequestedPolicy request = rq_requested row" and "ParseGrantRequestState (rq_state row) = Some (agr_State request)"
    and "state_consistent (agr_State request) row" and "agr_Revision request = FormatInt (rq_revision row)"
    and "agr_ApprovedGrantID request = rq_approvedGrantID row" and "agr_ID request = rq_id row"
    and "\<exists>requested target. compileStoredPolicy rx (rq_requested row) = Inr (requested, target) \<and>
      scan_approved rx requested target row = Some (agr_ApprovedPolicy request)"
proof -
  obtain state requested target created updated approved where s: "ParseGrantRequestState (rq_state row) = Some state"
      "compileStoredPolicy rx (rq_requested row) = Inr (requested, target)" "scan_approved rx requested target row = Some approved"
      "state_consistent state row" "n = rq_sequence row"
      "request = \<lparr>agr_ID = rq_id row, agr_State = state, agr_Revision = FormatInt (rq_revision row),
         agr_RequestedPolicy = cp_value requested, agr_ApprovedPolicy = approved, agr_ApprovedGrantID = rq_approvedGrantID row,
         agr_RejectionReason = Option.bind (rq_rejectionReason row) ParseGrantRequestRejectionReason,
         agr_CreatedAt = rq_createdAt row, agr_UpdatedAt = rq_updatedAt row, agr_ClosedAt = rq_closedAt row\<rparr>"
    using assms unfolding scanAgentRequest_def
    by (simp split: if_splits option.splits sum.splits prod.splits)
  have "cp_value requested = rq_requested row"
    using s(2) CompilePolicy_facts(1) by (auto simp: compileStoredPolicy_Inr)
  with s show "n = rq_sequence row" "agr_CreatedAt request = rq_createdAt row" "agr_ClosedAt request = rq_closedAt row"
    "agr_RequestedPolicy request = rq_requested row" "ParseGrantRequestState (rq_state row) = Some (agr_State request)"
    "state_consistent (agr_State request) row" "agr_Revision request = FormatInt (rq_revision row)"
    "agr_ApprovedGrantID request = rq_approvedGrantID row" "agr_ID request = rq_id row"
    "\<exists>requested target. compileStoredPolicy rx (rq_requested row) = Inr (requested, target) \<and>
      scan_approved rx requested target row = Some (agr_ApprovedPolicy request)"
    by simp_all
qed

lemma pending_facts:
  assumes "pending_row row" and "scanAgentRequest rx row = Inr (n, request)"
  shows "agr_State request = RequestPending" and "\<not> has_approved row" and "\<not> rq_approvedReadOnly row" and "agr_ApprovedPolicy request = None"
    and "rq_approvedGrantID row = None" and "rq_revision row = 1"
proof -
  have state: "agr_State request = RequestPending"
    using scan_facts(5) [OF assms(2)] unfolding assms(1) ParseGrantRequestState_def grant_request_state.parse_spell by simp
  then have has: "\<not> has_approved row" and more: "rq_approvedGrantID row = None" "rq_revision row = 1"
    using scan_facts(6) [OF assms(2)] by (simp_all add: state_consistent_def)
  then have "\<not> rq_approvedReadOnly row \<and> agr_ApprovedPolicy request = None"
    using scan_facts(10) [OF assms(2)] by (auto simp: scan_approved_def split: if_splits)
  with state has more show "agr_State request = RequestPending" "\<not> has_approved row" "\<not> rq_approvedReadOnly row" "agr_ApprovedPolicy request = None"
    "rq_approvedGrantID row = None" "rq_revision row = 1"
    by simp_all
qed


text \<open>The two halves of the start-up check of a request.\<close>

definition submitted_ok :: "regex_lib \<Rightarrow> stored_inspectors \<Rightarrow> request_row \<Rightarrow> string \<Rightarrow> CompiledPolicy \<Rightarrow> normalizedTarget \<Rightarrow> bool" where
  "submitted_ok rx stored row namespace requested requestedName \<longleftrightarrow>
     CompilePolicy rx (rq_requested row) = Inr requested \<and> normalizePolicyTarget requested = Some requestedName \<and>
     nt_namespace requestedName = namespace \<and> nt_upstreamName requestedName = rq_upstream row \<and>
     CanonicalDedupeIdentity requested \<lparr>ServerID = rq_server row, UpstreamName = rq_upstream row\<rparr> =
       Inr \<lparr>di_Version = rq_dedupeVersion row, di_Bytes = rq_dedupeBytes row\<rparr> \<and>
     (if cp_Scope requested = PolicyScope_string PolicyTool
      then validateStoredEvidence stored (rq_submittedEvidence row) (rq_server row) requestedName (rq_createdAt row)
      else column_bytes (rq_submittedEvidence row) = 0)"

definition approved_ok :: "regex_lib \<Rightarrow> stored_inspectors \<Rightarrow> AgentGrantRequest \<Rightarrow> request_row \<Rightarrow> string \<Rightarrow> CompiledPolicy \<Rightarrow> bool" where
  "approved_ok rx stored request row namespace requested \<longleftrightarrow>
     (case approved_name_ok rx namespace request of
        None \<Rightarrow> False
      | Some name \<Rightarrow>
          (case name of
             Some (approved, approvedName) \<Rightarrow>
               if cp_Scope requested = PolicyScope_string PolicyServer \<and> cp_Scope approved = PolicyScope_string PolicyTool
               then (case agr_ClosedAt request of
                       None \<Rightarrow> False
                     | Some closed \<Rightarrow> validateStoredEvidence stored (rq_approvedEvidence row) (rq_server row) approvedName closed)
               else column_bytes (rq_approvedEvidence row) = 0
           | None \<Rightarrow> column_bytes (rq_approvedEvidence row) = 0))"

lemma validateStartup_iff:
  assumes "agr_RequestedPolicy request = rq_requested row" and "agr_CreatedAt request = rq_createdAt row"
  shows "validateStartupRequest rx stored request row namespace \<longleftrightarrow>
    (\<exists>requested requestedName. submitted_ok rx stored row namespace requested requestedName \<and> approved_ok rx stored request row namespace requested)"
  unfolding validateStartupRequest_def submitted_ok_def approved_ok_def assms
  by (simp split: sum.split option.split) blast

lemma submitted_same:
  assumes "rq_requested row' = rq_requested row" and "rq_createdAt row' = rq_createdAt row" and "rq_server row' = rq_server row"
    and "rq_upstream row' = rq_upstream row" and "rq_dedupeVersion row' = rq_dedupeVersion row" and "rq_dedupeBytes row' = rq_dedupeBytes row"
    and "rq_submittedEvidence row' = rq_submittedEvidence row"
  shows "submitted_ok rx stored row' = submitted_ok rx stored row"
  by (intro ext) (simp only: submitted_ok_def assms)

lemma unapproved_ok: "agr_ApprovedPolicy request = None \<Longrightarrow> approved_ok rx stored request row namespace requested \<longleftrightarrow> column_bytes (rq_approvedEvidence row) = 0"
  by (simp add: approved_ok_def approved_name_ok_def)

subsection \<open>Cancellation and rejection\<close>

text \<open>The one pending row with an identifier, before and after its update.\<close>

lemma updated_row:
  assumes "find P (rt_rows tables) = Some row" and "\<forall>r. P r \<longrightarrow> rq_id r = i" and "\<forall>r. matches r \<longrightarrow> P r"
    and "update_requests matches f tables = (updated, tables')" and "requireSingleTransition updated = Inr ()"
    and "distinct (map rq_id (rt_rows tables))"
  shows "matches row" and "\<forall>r \<in> set (rt_rows tables). matches r \<longrightarrow> r = row" and "row \<in> set (rt_rows tables)"
    and "rt_rows tables' = map (\<lambda>r. if r = row then f row else r) (rt_rows tables)"
proof -
  have row: "P row" "row \<in> set (rt_rows tables)"
    using find_SomeD [OF assms(1)] by simp_all
  have same: "r = row" if "r \<in> set (rt_rows tables)" "matches r" for r
    using that row assms(2,3,6) by (auto simp: distinct_map dest: inj_onD)
  have "length (filter matches (rt_rows tables)) = 1"
    using assms(5) update_tables(2) [OF assms(4)] by (auto simp: requireSingleTransition_def split: if_splits)
  then have "filter matches (rt_rows tables) \<noteq> []"
    by auto
  then obtain r where "r \<in> set (rt_rows tables)" "matches r"
    by (auto simp: filter_empty_conv)
  with same have "matches row"
    by blast
  moreover have "rt_rows tables' = map (row_update matches f) (rt_rows tables)"
    by (subst update_tables(1) [OF assms(4)]) simp
  moreover have "map (row_update matches f) (rt_rows tables) = map (\<lambda>r. if r = row then f row else r) (rt_rows tables)"
  proof (intro map_cong refl)
    fix r
    assume "r \<in> set (rt_rows tables)"
    with same [of r] \<open>matches row\<close> show "row_update matches f r = (if r = row then f row else r)"
      by (cases "matches r") (auto simp: row_update_def)
  qed
  ultimately show "matches row" "\<forall>r \<in> set (rt_rows tables). matches r \<longrightarrow> r = row" "row \<in> set (rt_rows tables)"
    "rt_rows tables' = map (\<lambda>r. if r = row then f row else r) (rt_rows tables)"
    using same row by (blast, blast, blast, metis)
qed

lemma found_again:
  assumes "find Q (map (\<lambda>r. if r = row then new else r) rows) = Some row'" and "\<forall>r. Q r \<longrightarrow> rq_id r = rq_id row"
    and "distinct (map rq_id rows)" and "row \<in> set rows"
  shows "row' = new"
proof -
  have "Q row'" and "row' \<in> set (map (\<lambda>r. if r = row then new else r) rows)"
    using find_SomeD [OF assms(1)] by simp_all
  then obtain r where "r \<in> set rows" "row' = (if r = row then new else r)" "rq_id row' = rq_id row"
    using assms(2) by auto
  then show ?thesis
    using assms(3,4) by (cases "r = row") (auto simp: distinct_map dest: inj_onD)
qed

lemma closed_row_ok:
  assumes "request_row_ok rx stored row" and "pending_row row"
    and "row' = (close_row state timestamp row)\<lparr>rq_rejectionReason := reason\<rparr>" and "scanAgentRequest rx row' = Inr (n, request)"
    and "agr_State request \<noteq> RequestPending"
  shows "request_row_ok rx stored row'"
proof -
  obtain before namespace where b: "scanAgentRequest rx row = Inr (rq_sequence row, before)"
      "si_namespace stored (rq_server row) = Some namespace" "validateStartupRequest rx stored before row namespace"
    using assms(1) by (auto simp: request_row_ok_def)
  note scan = scan_facts [OF b(1)] and pending = pending_facts [OF assms(2) b(1)] and again = scan_facts [OF assms(4)]
  have same: "rq_requested row' = rq_requested row" "rq_createdAt row' = rq_createdAt row" "rq_server row' = rq_server row"
      "rq_upstream row' = rq_upstream row" "rq_dedupeVersion row' = rq_dedupeVersion row" "rq_dedupeBytes row' = rq_dedupeBytes row"
      "rq_submittedEvidence row' = rq_submittedEvidence row" "rq_approvedEvidence row' = rq_approvedEvidence row"
      "rq_principal row' = rq_principal row" "rq_sequence row' = rq_sequence row" "has_approved row' = has_approved row"
      "rq_approvedReadOnly row' = rq_approvedReadOnly row"
    by (simp_all add: assms(3) close_row_def has_approved_def)
  have "agr_ApprovedPolicy request = None"
    using again(10) pending(2,3) by (auto simp: scan_approved_def same)
  then have "validateStartupRequest rx stored request row' namespace"
    using b(3) submitted_same [of row' row] again(2,4)
    unfolding validateStartup_iff [OF scan(4,2)] unapproved_ok [OF pending(4)]
    by (simp add: validateStartup_iff unapproved_ok same)
  with b(2) again(1) assms(1,4) show ?thesis
    unfolding request_row_ok_def by (auto simp: same)
qed

lemma closed_spelling:
  assumes "ParseGrantRequestState (rq_state row) = Some state" and "state \<noteq> RequestPending"
  shows "\<not> pending_row row"
proof
  assume "pending_row row"
  then have "ParseGrantRequestState (rq_state row) = Some RequestPending"
    unfolding ParseGrantRequestState_def by (simp only: grant_request_state.parse_spell)
  with assms show False by simp
qed

text \<open>
  How a request settles: one pending row becomes a row that reads as a request in the closing state, with the submitted
  columns kept; every other row stays as it is.
\<close>

definition submitted_columns :: "request_row \<Rightarrow> _" where
  "submitted_columns row =
     (rq_sequence row, rq_id row, rq_principal row, rq_server row, rq_upstream row, rq_requested row,
      rq_dedupeVersion row, rq_dedupeBytes row, rq_submittedEvidence row, rq_createdAt row)"

definition settles :: "regex_lib \<Rightarrow> string \<Rightarrow> AgentGrantRequest \<Rightarrow> request_row \<Rightarrow> request_row \<Rightarrow> request_tables \<Rightarrow> request_tables \<Rightarrow> bool" where
  "settles rx requestID request row row' tables tables' \<longleftrightarrow>
     row \<in> set (rt_rows tables) \<and> rq_id row = requestID \<and> pending_row row \<and> \<not> pending_row row' \<and>
     scanAgentRequest rx row' = Inr (rq_sequence row', request) \<and> agr_State request \<noteq> RequestPending \<and>
     submitted_columns row' = submitted_columns row \<and>
     rt_rows tables' = map (\<lambda>r. if r = row then row' else r) (rt_rows tables) \<and>
     rt_identities tables' = rt_identities tables \<and> rt_sequence tables' = rt_sequence tables \<and>
     rt_evidence tables' = rt_evidence tables - row_evidence row + row_evidence row'"

lemma settles_facts:
  assumes "settles rx requestID request row row' tables tables'"
  shows "row \<in> set (rt_rows tables)" and "pending_row row" and "scanAgentRequest rx row' = Inr (rq_sequence row', request)"
    and "agr_State request \<noteq> RequestPending" and "rq_id row = requestID" and "submitted_columns row' = submitted_columns row"
    and "rt_evidence tables' = rt_evidence tables - row_evidence row + row_evidence row'"
  using assms unfolding settles_def by simp_all

lemma update_settles:
  assumes "find P (rt_rows tables) = Some row" and "\<forall>r. P r \<longrightarrow> rq_id r = requestID" and "\<forall>r. matches r \<longrightarrow> P r \<and> pending_row r"
    and "update_requests matches f tables = (updated, tables')" and "requireSingleTransition updated = Inr ()"
    and "distinct (map rq_id (rt_rows tables))" and "find P (rt_rows tables') = Some row'" and "scanAgentRequest rx row' = Inr (n, request)"
    and "agr_State request \<noteq> RequestPending" and "\<forall>r. submitted_columns (f r) = submitted_columns r"
  shows "row' = f row" and "settles rx requestID request row row' tables tables'"
proof -
  have m: "\<forall>r. matches r \<longrightarrow> P r"
    using assms(3) by blast
  note u = updated_row [OF assms(1,2) m assms(4-6)]
  have id: "rq_id row = requestID" and id_all: "\<forall>r. P r \<longrightarrow> rq_id r = rq_id row"
    using find_SomeD [OF assms(1)] assms(2) by auto
  show row': "row' = f row"
    by (rule found_again [OF _ id_all assms(6) u(3)]) (use assms(7) in \<open>simp only: u(4)\<close>)
  have "filter matches (rt_rows tables) = [row]"
  proof -
    have "length (filter matches (rt_rows tables)) = 1"
      using assms(5) update_tables(2) [OF assms(4)] by (auto simp: requireSingleTransition_def split: if_splits)
    then obtain r where r: "filter matches (rt_rows tables) = [r]"
      by (auto simp: length_Suc_conv)
    then have "r \<in> set (filter matches (rt_rows tables))"
      by simp
    with u(2) have "r = row"
      by simp
    with r show ?thesis by simp
  qed
  then have "rt_evidence tables' = rt_evidence tables - row_evidence row + row_evidence row'"
      "rt_identities tables' = rt_identities tables" "rt_sequence tables' = rt_sequence tables"
    using assms(4) by (auto simp: update_requests_def row')
  moreover note scan = scan_facts [OF assms(8)]
  moreover have "\<not> pending_row row'"
    by (rule closed_spelling [OF scan(5) assms(9)])
  ultimately show "settles rx requestID request row row' tables tables'"
    unfolding settles_def using u(1,3,4) assms(3,8,9,10) id row' by metis
qed

lemma distinct_filter_single: "distinct xs \<Longrightarrow> x \<in> set xs \<Longrightarrow> filter (\<lambda>y. y = x) xs = [x]"
  by (induction xs) (auto simp: filter_empty_conv)

lemma settles_keeps:
  assumes "settles rx requestID request row row' tables tables'" and "requests_ok rx stored tables"
    and "request_row_ok rx stored row'" and "rt_evidence tables' \<le> rc_evidenceBytes New_capacity"
  shows "requests_ok rx stored tables'"
proof -
  note st = assms(1) [unfolded settles_def]
  have "distinct (rt_rows tables)"
    using assms(2) by (simp add: requests_ok_def rows_ok_def distinct_map)
  then have "filter (\<lambda>r. r = row) (rt_rows tables) = [row]"
    using st by (metis distinct_filter_single)
  then have "update_requests (\<lambda>r. r = row) (\<lambda>_. row') tables = (1, tables')"
    using st by (cases tables') (auto simp: update_requests_def)
  moreover have "closes (\<lambda>r. r = row) (\<lambda>_. row')"
    using st by (auto simp: closes_def submitted_columns_def)
  ultimately show ?thesis
    using update_keeps [OF assms(2)] assms(3,4) by blast
qed

lemma requests_ids: "requests_ok rx stored tables \<Longrightarrow> distinct (map rq_id (rt_rows tables))"
  by (simp add: requests_ok_def rows_ok_def)

lemma requests_row: "requests_ok rx stored tables \<Longrightarrow> row \<in> set (rt_rows tables) \<Longrightarrow> request_row_ok rx stored row"
  by (simp add: requests_ok_def rows_ok_def)

lemma cancel_settles:
  assumes "cancel_request_tx rx principalID requestID now gs = Inr (r, gs')" and "distinct (map rq_id (rt_rows (gs_requests gs)))"
  obtains row timestamp request where "gs_authority gs' = gs_authority gs" and "r = (RequestCancellationCancelled, Some request)"
    and "settles rx requestID request row (close_row RequestCancelled timestamp row) (gs_requests gs) (gs_requests gs')"
    and "agr_State request = RequestCancelled" and "rq_principal row = principalID"
proof -
  let ?matches = "\<lambda>r. rq_id r = requestID \<and> rq_principal r = principalID \<and> pending_row r \<and> rq_revision r = 1"
  obtain row timestamp updated tables row' n request where c: "owned_by_id principalID requestID (gs_requests gs) = Some row"
      "update_requests ?matches (close_row RequestCancelled timestamp) (gs_requests gs) = (updated, tables)"
      "requireSingleTransition updated = Inr ()" "owned_by_id principalID requestID tables = Some row'"
      "scanAgentRequest rx row' = Inr (n, request)" "agr_State request = RequestCancelled"
      "r = (RequestCancellationCancelled, Some request)" "gs' = gs\<lparr>gs_requests := tables\<rparr>"
    using assms(1) unfolding cancel_request_tx_def
    by (simp split: option.splits sum.splits prod.splits GrantRequestState.splits if_splits)
  note settled = update_settles [where requestID = requestID, OF c(1) [unfolded owned_by_id_def] _ _ c(2,3) assms(2) c(4) [unfolded owned_by_id_def] c(5)]
  have "row' = close_row RequestCancelled timestamp row" "settles rx requestID request row row' (gs_requests gs) tables"
    by (rule settled; use c(6) in \<open>simp add: close_row_def submitted_columns_def\<close>)+
  then show thesis
    using that [of request row timestamp] c find_SomeD [OF c(1) [unfolded owned_by_id_def]] by simp
qed

lemma reject_settles:
  assumes "reject_request_tx audit rx request now gs = Inr (result, gs')" and "distinct (map rq_id (rt_rows (gs_requests gs)))"
  obtains row timestamp where
    "settles rx (rr_ID request) result row ((close_row RequestRejected timestamp row)\<lparr>rq_rejectionReason := Some (rr_Reason request)\<rparr>)
       (gs_requests gs) (gs_requests gs')"
    and "agr_State result = RequestRejected"
    and "audit_MutationTx audit False ''grant_request'' ''reject'' (rr_ID request) (gs_authority gs) = Inr (gs_authority gs')"
proof -
  let ?matches = "\<lambda>r. rq_id r = rr_ID request \<and> pending_row r \<and> rq_revision r = 1"
  let ?f = "\<lambda>timestamp r. (close_row RequestRejected timestamp r)\<lparr>rq_rejectionReason := Some (rr_Reason request)\<rparr>"
  obtain row timestamp updated tables row' n authority where c: "request_by_id (rr_ID request) (gs_requests gs) = Some row"
      "update_requests ?matches (?f timestamp) (gs_requests gs) = (updated, tables)"
      "requireSingleTransition updated = Inr ()" "request_by_id (rr_ID request) tables = Some row'"
      "scanAgentRequest rx row' = Inr (n, result)" "agr_State result = RequestRejected"
      "audit_MutationTx audit False ''grant_request'' ''reject'' (rr_ID request) (gs_authority gs) = Inr authority"
      "gs' = gs\<lparr>gs_authority := authority, gs_requests := tables\<rparr>"
    using assms(1) unfolding reject_request_tx_def
    by (simp split: option.splits sum.splits prod.splits GrantRequestState.splits if_splits)
  note settled = update_settles [where requestID = "rr_ID request", OF c(1) [unfolded request_by_id_def] _ _ c(2,3) assms(2) c(4) [unfolded request_by_id_def] c(5)]
  have "row' = ?f timestamp row" "settles rx (rr_ID request) result row row' (gs_requests gs) tables"
    by (rule settled; use c(6) in \<open>simp add: close_row_def submitted_columns_def\<close>)+
  then show thesis
    using that [of row timestamp] c by simp
qed

lemma closed_keeps:
  assumes "settles rx requestID request row ((close_row state timestamp row)\<lparr>rq_rejectionReason := reason\<rparr>) tables tables'"
    and "requests_ok rx stored tables"
  shows "requests_ok rx stored tables'"
proof (rule settles_keeps [OF assms])
  show "request_row_ok rx stored ((close_row state timestamp row)\<lparr>rq_rejectionReason := reason\<rparr>)"
    using closed_row_ok [OF requests_row [OF assms(2) settles_facts(1) [OF assms(1)]] settles_facts(2) [OF assms(1)] refl settles_facts(3,4) [OF assms(1)]] .
  have "row_evidence ((close_row state timestamp row)\<lparr>rq_rejectionReason := reason\<rparr>) = row_evidence row"
    by (simp add: row_evidence_def close_row_def)
  then show "rt_evidence tables' \<le> rc_evidenceBytes New_capacity"
    using settles_facts(7) [OF assms(1)] assms(2) by (simp add: requests_ok_def)
qed

lemma cancel_keeps:
  assumes "cancel_request_tx rx principalID requestID now gs = Inr (r, gs')" and "requests_ok rx stored (gs_requests gs)"
  shows "requests_ok rx stored (gs_requests gs')"
proof (rule cancel_settles [OF assms(1) requests_ids [OF assms(2)]])
  fix row timestamp request
  assume "settles rx requestID request row (close_row RequestCancelled timestamp row) (gs_requests gs) (gs_requests gs')"
  moreover have "(close_row RequestCancelled timestamp row)\<lparr>rq_rejectionReason := rq_rejectionReason row\<rparr> = close_row RequestCancelled timestamp row"
    by (simp add: close_row_def)
  ultimately show ?thesis
    using closed_keeps [of rx requestID request row "rq_rejectionReason row" RequestCancelled timestamp, OF _ assms(2)] by simp
qed

lemma reject_keeps:
  assumes "reject_request_tx audit rx request now gs = Inr (result, gs')" and "requests_ok rx stored (gs_requests gs)"
  shows "requests_ok rx stored (gs_requests gs')"
proof (rule reject_settles [OF assms(1) requests_ids [OF assms(2)]])
  fix row timestamp
  assume "settles rx (rr_ID request) result row ((close_row RequestRejected timestamp row)\<lparr>rq_rejectionReason := Some (rr_Reason request)\<rparr>)
      (gs_requests gs) (gs_requests gs')"
  then show ?thesis
    using assms(2) by (rule closed_keeps)
qed

subsection \<open>Approval\<close>

lemma approval_target_Inr:
  assumes "approval_target inspect requested submitted approved approvedName = Inr target"
  shows "ValidateNarrowing requested submitted approved target = Inr ()" and "UpstreamName target = nt_upstreamName approvedName"
    and "\<exists>namespace. in_namespaces inspect (nt_namespace approvedName) = Inr namespace \<and> ServerID target = ns_ID namespace \<and>
      ns_ID namespace \<noteq> SyntheticServerID \<and> ns_State namespace \<noteq> DesiredServerState_string DesiredServerDeleted"
  using assms unfolding approval_target_def Let_def
  by (auto simp: is_ok_def split: sum.splits target_error.splits if_splits)

lemma Prepare_Inr:
  assumes "PrepareGrantRequestApproval rx inspect request approved tables = Inr (material, transition)"
  obtains row n current requested requestedName approvedName where "request_by_id (apr_ID request) tables = Some row"
    and "scanAgentRequest rx row = Inr (n, current)" and "agr_State current = RequestPending"
    and "CompilePolicy rx (rq_requested row) = Inr requested" and "normalizePolicyTarget requested = Some requestedName"
    and "nt_upstreamName requestedName = rq_upstream row" and "normalizePolicyTarget approved = Some approvedName"
    and "approval_target inspect requested \<lparr>ServerID = rq_server row, UpstreamName = rq_upstream row\<rparr> approved approvedName = Inr (am_Target material)"
    and "approval_descriptor inspect requested approved (rq_server row) approvedName = Inr (tr_descriptor transition)"
    and "material = \<lparr>am_ReadOnly = gp_ReadOnly (cp_value approved), am_Description = apr_Description request, am_PrincipalID = rq_principal row,
      am_Target = am_Target material, am_Constraint = gp_Constraint (cp_value approved), am_DurationSeconds = policy_duration approved\<rparr>"
    and "tr_createdAt transition = rq_createdAt row"
proof -
  obtain row n current requested requestedName approvedName target descriptor where c: "request_by_id (apr_ID request) tables = Some row"
      "scanAgentRequest rx row = Inr (n, current)" "agr_State current = RequestPending"
      "CompilePolicy rx (agr_RequestedPolicy current) = Inr requested" "normalizePolicyTarget requested = Some requestedName"
      "nt_upstreamName requestedName = rq_upstream row" "normalizePolicyTarget approved = Some approvedName"
      "approval_target inspect requested \<lparr>ServerID = rq_server row, UpstreamName = rq_upstream row\<rparr> approved approvedName = Inr target"
      "approval_descriptor inspect requested approved (rq_server row) approvedName = Inr descriptor"
      "material = \<lparr>am_ReadOnly = gp_ReadOnly (cp_value approved), am_Description = apr_Description request, am_PrincipalID = rq_principal row,
        am_Target = target, am_Constraint = gp_Constraint (cp_value approved), am_DurationSeconds = policy_duration approved\<rparr>"
      "transition = \<lparr>tr_createdAt = agr_CreatedAt current, tr_descriptor = descriptor\<rparr>"
    using assms unfolding PrepareGrantRequestApproval_def
    by (simp split: option.splits sum.splits prod.splits if_splits)
  show thesis
    by (rule that [of row n current requested requestedName approvedName]) (use c scan_facts(2,4) [OF c(2)] in simp_all)
qed

lemma Commit_Inr:
  assumes "CommitGrantRequestApproval audit rx inspect request approved transition grantID approvedAt gs = Inr (result, gs')"
  obtains timestamp evidence updated row' n where "canonicalRequestTime approvedAt = Some timestamp"
    and "approval_evidence inspect approved transition approvedAt (gs_requests gs) = Inr evidence"
    and "update_requests (\<lambda>r. rq_id r = apr_ID request \<and> pending_row r \<and> rq_revision r = 1)
      (approved_row (cp_value approved) grantID evidence timestamp) (gs_requests gs) = (updated, gs_requests gs')"
    and "requireSingleTransition updated = Inr ()" and "request_by_id (apr_ID request) (gs_requests gs') = Some row'"
    and "scanAgentRequest rx row' = Inr (n, result)" and "agr_State result = RequestApproved" and "agr_ApprovedGrantID result = Some grantID"
    and "audit_MutationTx audit False ''grant_request'' ''approve'' (apr_ID request) (gs_authority gs) = Inr (gs_authority gs')"
proof -
  obtain timestamp created evidence updated tables row' n authority where c: "canonicalRequestTime approvedAt = Some timestamp"
      "approval_evidence inspect approved transition approvedAt (gs_requests gs) = Inr evidence"
      "update_requests (\<lambda>r. rq_id r = apr_ID request \<and> pending_row r \<and> rq_revision r = 1)
         (approved_row (cp_value approved) grantID evidence timestamp) (gs_requests gs) = (updated, tables)"
      "updated = 1" "request_by_id (apr_ID request) tables = Some row'" "scanAgentRequest rx row' = Inr (n, result)"
      "agr_State result = RequestApproved" "agr_ApprovedGrantID result = Some grantID"
      "audit_MutationTx audit False ''grant_request'' ''approve'' (apr_ID request) (gs_authority gs) = Inr authority"
      "gs' = gs\<lparr>gs_authority := authority, gs_requests := tables\<rparr>"
    using assms unfolding CommitGrantRequestApproval_def
    by (simp split: option.splits sum.splits prod.splits if_splits)
  show thesis
    by (rule that [of timestamp evidence updated row' n]) (use c in \<open>simp_all add: requireSingleTransition_def\<close>)
qed

lemma approve_Inr:
  assumes "approve_request_tx audit rx latches cache readable inspect request approved now entropy gs = Inr ((grant, result), gs')"
  obtains material transition constraintJSON grantID rest authority gs1 authority1 where
    "PrepareGrantRequestApproval rx inspect request approved (gs_requests gs) = Inr (material, transition)"
    and "validateApprovalGrantMaterial rx material = Inr constraintJSON"
    and "HasActiveDenyConflictTx (compileConstraint rx) latches (st_db (gs_authority gs)) cache (am_PrincipalID material) (am_Target material) now = Inr False"
    and "newID now entropy = Inr (grantID, rest)"
    and "\<not> list_ex (\<lambda>row. row_id row = grantID) (db_grants (st_db (gs_authority gs)))"
    and "insert_grant (approval_grant material constraintJSON grantID now) (gs_authority gs) = Inr authority"
    and "CommitGrantRequestApproval audit rx inspect request approved transition grantID now (gs\<lparr>gs_authority := authority\<rparr>) = Inr (result, gs1)"
    and "advanceAuthorizationRevisionTx (gs_authority gs1) = Inr authority1"
    and "grantByIDTx readable now grantID authority1 = Inr grant"
    and "audit_MutationTx audit True ''grant'' ''create'' grantID authority1 = Inr (gs_authority gs')"
    and "gs_requests gs' = gs_requests gs1"
proof -
  obtain material transition constraintJSON grantID rest where c:
      "PrepareGrantRequestApproval rx inspect request approved (gs_requests gs) = Inr (material, transition)"
      "validateApprovalGrantMaterial rx material = Inr constraintJSON"
      "HasActiveDenyConflictTx (compileConstraint rx) latches (st_db (gs_authority gs)) cache (am_PrincipalID material) (am_Target material) now = Inr False"
      "newID now entropy = Inr (grantID, rest)"
      "approve_write audit rx readable inspect request approved material constraintJSON transition grantID now gs = Inr ((grant, result), gs')"
    using assms unfolding approve_request_tx_def
    by (simp split: option.splits sum.splits prod.splits if_splits)
  obtain authority gs1 authority1 authority2 where w: "\<not> list_ex (\<lambda>row. row_id row = grantID) (db_grants (st_db (gs_authority gs)))"
      "insert_grant (approval_grant material constraintJSON grantID now) (gs_authority gs) = Inr authority"
      "CommitGrantRequestApproval audit rx inspect request approved transition grantID now (gs\<lparr>gs_authority := authority\<rparr>) = Inr (result, gs1)"
      "advanceAuthorizationRevisionTx (gs_authority gs1) = Inr authority1" "grantByIDTx readable now grantID authority1 = Inr grant"
      "audit_MutationTx audit True ''grant'' ''create'' grantID authority1 = Inr authority2" "gs' = gs1\<lparr>gs_authority := authority2\<rparr>"
    using c(5) unfolding approve_write_def
    by (simp split: option.splits sum.splits prod.splits if_splits)
  show thesis
    by (rule that [OF c(1-4) w(1-5)]) (simp_all add: w(6,7))
qed

lemma approval_evidence_facts:
  assumes "approval_evidence inspect approved transition approvedAt tables = Inr evidence" and "sources_ok stored inspect"
    and "approval_descriptor inspect requested approved serverID approvedName = Inr (tr_descriptor transition)"
    and "normalizePolicyTarget approved = Some approvedName" and "rt_evidence tables \<le> rc_evidenceBytes New_capacity"
  shows "column_bytes (nullableEvidence evidence) \<le> mustLimit ''grant_request_evidence_snapshot_bytes''"
    and "rt_evidence tables + column_bytes (nullableEvidence evidence) \<le> rc_evidenceBytes New_capacity"
    and "if cp_Scope requested = PolicyScope_string PolicyServer \<and> cp_Scope approved = PolicyScope_string PolicyTool
      then validateStoredEvidence stored (nullableEvidence evidence) serverID approvedName (FormatCanonical approvedAt)
      else column_bytes (nullableEvidence evidence) = 0"
proof -
  have "column_bytes (nullableEvidence evidence) \<le> mustLimit ''grant_request_evidence_snapshot_bytes'' \<and>
      rt_evidence tables + column_bytes (nullableEvidence evidence) \<le> rc_evidenceBytes New_capacity \<and>
      (if cp_Scope requested = PolicyScope_string PolicyServer \<and> cp_Scope approved = PolicyScope_string PolicyTool
       then validateStoredEvidence stored (nullableEvidence evidence) serverID approvedName (FormatCanonical approvedAt)
       else column_bytes (nullableEvidence evidence) = 0)"
  proof (cases "cp_Scope requested = PolicyScope_string PolicyServer \<and> cp_Scope approved = PolicyScope_string PolicyTool")
    case True
    then obtain descriptor where d: "tr_descriptor transition = Some descriptor" "dd_ServerID descriptor = serverID"
        "dd_ExternalName descriptor = nt_externalName approvedName" "Some (dd_UpstreamName descriptor) = nt_upstreamName approvedName"
      using assms(3) unfolding approval_descriptor_def
      by (cases "tr_descriptor transition") (auto split: sum.splits target_error.splits if_splits)
    then have e: "in_evidence inspect descriptor (nt_namespace approvedName) approvedAt = Some evidence"
        "rt_evidence tables + int (length evidence) \<le> mustLimit ''grant_request_evidence_bytes''"
      using assms(1,4) unfolding approval_evidence_def by (auto split: option.splits if_splits)
    from sources_evidence [OF assms(2) e(1)] d e(2) True show ?thesis
      by (simp add: New_capacity_def)
  next
    case False
    then have "tr_descriptor transition = None"
      using assms(3) unfolding approval_descriptor_def by (auto split: if_splits)
    then have "evidence = []"
      using assms(1) unfolding approval_evidence_def by simp
    with assms(5) show ?thesis
      unfolding if_not_P [OF False] by (simp add: nullableEvidence_def)
  qed
  then show "column_bytes (nullableEvidence evidence) \<le> mustLimit ''grant_request_evidence_snapshot_bytes''"
      "rt_evidence tables + column_bytes (nullableEvidence evidence) \<le> rc_evidenceBytes New_capacity"
      "if cp_Scope requested = PolicyScope_string PolicyServer \<and> cp_Scope approved = PolicyScope_string PolicyTool
       then validateStoredEvidence stored (nullableEvidence evidence) serverID approvedName (FormatCanonical approvedAt)
       else column_bytes (nullableEvidence evidence) = 0"
    by blast+
qed

lemma approved_row_columns [simp]:
  "rq_server (approved_row policy grantID evidence timestamp row) = rq_server row"
  "rq_principal (approved_row policy grantID evidence timestamp row) = rq_principal row"
  "rq_submittedEvidence (approved_row policy grantID evidence timestamp row) = rq_submittedEvidence row"
  "rq_approvedEvidence (approved_row policy grantID evidence timestamp row) = nullableEvidence evidence"
  "rq_closedAt (approved_row policy grantID evidence timestamp row) = Some timestamp"
  "rq_approvedGrantID (approved_row policy grantID evidence timestamp row) = Some grantID"
  "submitted_columns (approved_row policy grantID evidence timestamp row) = submitted_columns row"
  by (simp_all add: approved_row_def close_row_def submitted_columns_def)

lemma scan_approved_row:
  assumes "scanAgentRequest rx (approved_row policy grantID evidence timestamp row) = Inr (n, request)"
    and "CompilePolicy rx (rq_requested row) = Inr requested" and "normalizePolicyTarget requested = Some requestedName"
    and "CompilePolicy rx policy = Inr approved" and "normalizePolicyTarget approved = Some approvedName"
  shows "agr_ApprovedPolicy request = Some policy" and "nt_namespace requestedName = nt_namespace approvedName"
proof -
  let ?row = "approved_row policy grantID evidence timestamp row"
  have columns: "rq_requested ?row = rq_requested row" "has_approved ?row" "rq_approvedReadOnly ?row = gp_ReadOnly policy"
      "rq_approved ?row = \<lparr>aq_scope = Some (gp_Scope policy), aq_target = Some (gp_Target policy), aq_constraint = gp_Constraint policy,
         aq_duration = gp_DurationSeconds policy, aq_acknowledged = Some (gp_FutureToolsAcknowledged policy)\<rparr>"
    by (simp_all add: approved_row_def close_row_def has_approved_def no_approved_def)
  have "scan_approved rx requested requestedName ?row = Some (agr_ApprovedPolicy request)"
    using scan_facts(10) [OF assms(1)] assms(2,3) by (auto simp: compileStoredPolicy_Inr columns)
  moreover have "\<lparr>gp_ReadOnly = gp_ReadOnly policy, gp_Scope = gp_Scope policy, gp_Target = gp_Target policy, gp_Constraint = gp_Constraint policy,
      gp_DurationSeconds = gp_DurationSeconds policy, gp_FutureToolsAcknowledged = gp_FutureToolsAcknowledged policy\<rparr> = policy"
    by simp
  ultimately have "agr_ApprovedPolicy request = Some policy \<and> nt_namespace requestedName = nt_namespace approvedName"
    using assms(4,5) unfolding scan_approved_def
    by (auto simp: columns Let_def compileStoredPolicy_Inr dest!: sym [of _ "agr_ApprovedPolicy request"] split: if_splits sum.splits)
  then show "agr_ApprovedPolicy request = Some policy" "nt_namespace requestedName = nt_namespace approvedName"
    by simp_all
qed

lemma approved_row_ok:
  assumes "request_row_ok rx stored row" and "pending_row row"
    and "scanAgentRequest rx (approved_row policy grantID evidence (FormatCanonical now) row) = Inr (n, request)"
    and "CompilePolicy rx (rq_requested row) = Inr requested" and "CompilePolicy rx policy = Inr approved"
    and "normalizePolicyTarget approved = Some approvedName"
    and "column_bytes (nullableEvidence evidence) \<le> mustLimit ''grant_request_evidence_snapshot_bytes''"
    and "if cp_Scope requested = PolicyScope_string PolicyServer \<and> cp_Scope approved = PolicyScope_string PolicyTool
      then validateStoredEvidence stored (nullableEvidence evidence) (rq_server row) approvedName (FormatCanonical now)
      else column_bytes (nullableEvidence evidence) = 0"
  shows "request_row_ok rx stored (approved_row policy grantID evidence (FormatCanonical now) row)" (is "request_row_ok rx stored ?row")
proof -
  obtain before namespace where b: "scanAgentRequest rx row = Inr (rq_sequence row, before)"
      "si_namespace stored (rq_server row) = Some namespace" "validateStartupRequest rx stored before row namespace"
    using assms(1) by (auto simp: request_row_ok_def)
  note scan = scan_facts [OF b(1)] and again = scan_facts [OF assms(3)]
  obtain requestedName where submitted: "submitted_ok rx stored row namespace requested requestedName"
    using b(3) assms(4) unfolding validateStartup_iff [OF scan(4,2)] by (auto simp: submitted_ok_def)
  then have name: "normalizePolicyTarget requested = Some requestedName" "nt_namespace requestedName = namespace"
    by (simp_all add: submitted_ok_def)
  note approved = scan_approved_row [OF assms(3,4) name(1) assms(5,6)]
  have "submitted_ok rx stored ?row namespace requested requestedName"
    using submitted by (subst submitted_same [of ?row row]) (simp_all add: approved_row_def close_row_def)
  moreover have "approved_ok rx stored request ?row namespace requested"
    using assms(5,6,8) approved name(2) again(3) by (simp add: approved_ok_def approved_name_ok_def)
  ultimately have "validateStartupRequest rx stored request ?row namespace"
    unfolding validateStartup_iff [OF again(4,2)] by blast
  with b(2) again(1) assms(1,3,7) show ?thesis
    unfolding request_row_ok_def by auto
qed

text \<open>What an approval does to the requests and from what material the grant is made.\<close>

lemma approve_settles:
  assumes "approve_request_tx audit rx latches cache readable inspect request approved now entropy gs = Inr ((grant, result), gs')"
    and "distinct (map rq_id (rt_rows (gs_requests gs)))"
  obtains row material transition constraintJSON grantID evidence requested requestedName approvedName where
    "PrepareGrantRequestApproval rx inspect request approved (gs_requests gs) = Inr (material, transition)"
    and "settles rx (apr_ID request) result row (approved_row (cp_value approved) grantID evidence (FormatCanonical now) row)
      (gs_requests gs) (gs_requests gs')"
    and "agr_State result = RequestApproved" and "agr_ApprovedGrantID result = Some grantID"
    and "approval_evidence inspect approved transition now (gs_requests gs) = Inr evidence"
    and "CompilePolicy rx (rq_requested row) = Inr requested" and "normalizePolicyTarget approved = Some approvedName"
    and "approval_target inspect requested \<lparr>ServerID = rq_server row, UpstreamName = rq_upstream row\<rparr> approved approvedName = Inr (am_Target material)"
    and "approval_descriptor inspect requested approved (rq_server row) approvedName = Inr (tr_descriptor transition)"
    and "am_PrincipalID material = rq_principal row"
proof -
  obtain material transition grantID authority gs1 where a:
      "PrepareGrantRequestApproval rx inspect request approved (gs_requests gs) = Inr (material, transition)"
      "CommitGrantRequestApproval audit rx inspect request approved transition grantID now (gs\<lparr>gs_authority := authority\<rparr>) = Inr (result, gs1)"
      "gs_requests gs' = gs_requests gs1"
    by (rule approve_Inr [OF assms(1)])
  obtain row requested requestedName approvedName where p: "request_by_id (apr_ID request) (gs_requests gs) = Some row"
      "CompilePolicy rx (rq_requested row) = Inr requested" "normalizePolicyTarget approved = Some approvedName"
      "approval_target inspect requested \<lparr>ServerID = rq_server row, UpstreamName = rq_upstream row\<rparr> approved approvedName = Inr (am_Target material)"
      "approval_descriptor inspect requested approved (rq_server row) approvedName = Inr (tr_descriptor transition)"
      "am_PrincipalID material = rq_principal row"
    by (rule Prepare_Inr [OF a(1)]) (metis ApprovalGrantMaterial.select_convs(3))
  obtain timestamp evidence updated row' n where c: "canonicalRequestTime now = Some timestamp"
      "approval_evidence inspect approved transition now (gs_requests gs) = Inr evidence"
      "update_requests (\<lambda>r. rq_id r = apr_ID request \<and> pending_row r \<and> rq_revision r = 1)
        (approved_row (cp_value approved) grantID evidence timestamp) (gs_requests gs) = (updated, gs_requests gs1)"
      "requireSingleTransition updated = Inr ()" "request_by_id (apr_ID request) (gs_requests gs1) = Some row'"
      "scanAgentRequest rx row' = Inr (n, result)" "agr_State result = RequestApproved" "agr_ApprovedGrantID result = Some grantID"
    by (rule Commit_Inr [OF a(2)]) simp
  note settled = update_settles [where requestID = "apr_ID request", OF p(1) [unfolded request_by_id_def] _ _ c(3,4) assms(2)
      c(5) [unfolded request_by_id_def] c(6)]
  have "row' = approved_row (cp_value approved) grantID evidence timestamp row"
      "settles rx (apr_ID request) result row row' (gs_requests gs) (gs_requests gs1)"
    by (rule settled; use c(7) in simp)+
  then show thesis
    using that [OF a(1) _ c(7,8,2) p(2-6)] a(3) request_time(1) [OF c(1)] by simp
qed

lemma approve_keeps:
  assumes "approve_request_tx audit rx latches cache readable inspect request approved now entropy gs = Inr ((grant, result), gs')"
    and "CompilePolicy rx (apr_ApprovedPolicy request) = Inr approved" and "sources_ok stored inspect" and "requests_ok rx stored (gs_requests gs)"
  shows "requests_ok rx stored (gs_requests gs')"
proof (rule approve_settles [OF assms(1) requests_ids [OF assms(4)]])
  fix row material transition grantID evidence requested approvedName
  assume st: "settles rx (apr_ID request) result row (approved_row (cp_value approved) grantID evidence (FormatCanonical now) row)
      (gs_requests gs) (gs_requests gs')"
    and e: "approval_evidence inspect approved transition now (gs_requests gs) = Inr evidence"
    and r: "CompilePolicy rx (rq_requested row) = Inr requested" and a: "normalizePolicyTarget approved = Some approvedName"
    and d: "approval_descriptor inspect requested approved (rq_server row) approvedName = Inr (tr_descriptor transition)"
  note ok = requests_row [OF assms(4) settles_facts(1) [OF st]]
  have limit: "rt_evidence (gs_requests gs) \<le> rc_evidenceBytes New_capacity"
    using assms(4) by (simp add: requests_ok_def)
  have cp: "CompilePolicy rx (cp_value approved) = Inr approved"
    using assms(2) by (simp add: CompilePolicy_facts(1) [OF assms(2)])
  note ev = approval_evidence_facts [OF e assms(3) d a limit]
  show ?thesis
  proof (rule settles_keeps [OF st assms(4)])
    show "request_row_ok rx stored (approved_row (cp_value approved) grantID evidence (FormatCanonical now) row)"
      by (rule approved_row_ok [OF ok settles_facts(2,3) [OF st] r cp a ev(1,3)])
    show "rt_evidence (gs_requests gs') \<le> rc_evidenceBytes New_capacity"
      using settles_facts(7) [OF st] ev(2) column_bytes_nonneg [of "rq_approvedEvidence row"] by (simp add: row_evidence_def)
  qed
qed

end
