(* ===== verification/Lease_Invariant.thy ===== *)
theory Lease_Invariant
  imports Leases Authority_Properties Request_Transitions
begin

text \<open>
  Invariants of the authority registry under every interleaving of its calls: the exclusive gate and the bounded
  work, the life of a lease, the leases still to be cancelled, and the tables behind the gate.
\<close>

subsection \<open>The gate\<close>

fun holds_gate :: "call \<Rightarrow> bool" where
  "holds_gate (Acquired _) = True"
| "holds_gate (Holding _) = True"
| "holds_gate (BindingRead _) = True"
| "holds_gate (Mutated _ _) = True"
| "holds_gate (CancellingHeld _) = True"
| "holds_gate (Verified _) = True"
| "holds_gate (VerifiedTransport _) = True"
| "holds_gate Finishing = True"
| "holds_gate _ = False"

fun is_waiting :: "call \<Rightarrow> bool" where
  "is_waiting (Waiting _) = True"
| "is_waiting _ = False"

definition gate_inv :: "authority_sys \<Rightarrow> bool" where
  "gate_inv s \<longleftrightarrow>
     size (filter_mset holds_gate (sys_calls s)) = (if sys_gate s then 1 else 0) \<and>
     sys_work s = int (size (filter_mset holds_gate (sys_calls s)) + size (filter_mset is_waiting (sys_calls s))) \<and>
     sys_work s \<le> mustLimit ''authority_work'' \<and> (sys_idle s \<longleftrightarrow> sys_work s = 0)"

lemma reserveWork_Inr:
  "reserveWork s = Inr s1 \<longleftrightarrow> \<not> sys_draining s \<and> sys_work s < mustLimit ''authority_work'' \<and>
     s1 = s\<lparr>sys_idle := (if sys_work s = 0 then False else sys_idle s), sys_work := sys_work s + 1\<rparr>"
  by (auto simp: reserveWork_def)

lemma use_candidate_Some:
  "use_candidate c invocationID s = Some s1 \<longleftrightarrow> c < length (sys_candidates s) \<and> ec_invocationID (sys_candidates s ! c) = invocationID \<and>
     \<not> ec_used (sys_candidates s ! c) \<and> s1 = s\<lparr>sys_candidates := (sys_candidates s)[c := (sys_candidates s ! c)\<lparr>ec_used := True\<rparr>]\<rparr>"
  by (auto simp: use_candidate_def)

lemma lease_register_Inr:
  "lease_register binding s = Inr s1 \<longleftrightarrow> \<not> sys_latched s \<and> \<not> sys_draining s \<and>
     s1 = s\<lparr>sys_lease := sys_lease s @ [\<lparr>ls_binding = binding, ls_phase = leasePending, ls_closed = 0\<rparr>],
           sys_leases := length (sys_lease s) # sys_leases s\<rparr>"
  by (auto simp: lease_register_def Let_def)

lemma drain_fence_Some:
  "drain_fence s = Some s1 \<longleftrightarrow> \<not> sys_draining s \<and> s1 = s\<lparr>sys_draining := True, sys_stopping := sys_stopping s + 1\<rparr>"
  by (auto simp: drain_fence_def)

lemma confirm_commit_Some:
  "confirm_commit c s = Some s1 \<longleftrightarrow>
     \<not> sys_draining s \<and> \<not> sys_latched s \<and> sys_phase s (ec_lease (sys_candidates s ! c)) = leasePending \<and>
     s1 = (lease_remove (ec_lease (sys_candidates s ! c)) (swap_phase (ec_lease (sys_candidates s ! c)) leaseAdmitted s))\<lparr>sys_admitted :=
        sys_admitted s @ [(c, admittedSubject (ls_binding (sys_lease s ! ec_lease (sys_candidates s ! c))) (ec_revision (sys_candidates s ! c)))]\<rparr>"
  by (auto simp: confirm_commit_def ConfirmHealthy_def Let_def lease_remove_def swap_phase_def)

lemma use_transport_Some:
  "use_transport k requestID request s = Some (same, s1) \<longleftrightarrow>
     k < length (sys_transport s) \<and> tc_id (sys_transport s ! k) = requestID \<and> \<not> tc_used (sys_transport s ! k) \<and>
     same = (tc_request (sys_transport s ! k) = request) \<and>
     s1 = s\<lparr>sys_transport := (sys_transport s)[k := (sys_transport s ! k)\<lparr>tc_used := True\<rparr>]\<rparr>"
  by (auto simp: use_transport_def)

definition register_opaque :: "nat \<Rightarrow> authority_sys \<Rightarrow> authority_sys" where
  "register_opaque k s =
     (let candidate = sys_transport s ! k; origin = tc_opaqueOrigin candidate in
      if origin = [] then s
      else s\<lparr>sys_opaque := (sys_opaque s)(origin := sys_opaque s origin + 1),
             sys_transport := (sys_transport s)[k := candidate\<lparr>tc_opaqueRegistered := True\<rparr>]\<rparr>)"

lemma register_opaque_fields [simp]:
  "sys_store (register_opaque k s) = sys_store s" "sys_draining (register_opaque k s) = sys_draining s"
  "sys_stopping (register_opaque k s) = sys_stopping s" "sys_work (register_opaque k s) = sys_work s"
  "sys_gate (register_opaque k s) = sys_gate s" "sys_idle (register_opaque k s) = sys_idle s" "sys_leases (register_opaque k s) = sys_leases s"
  "sys_lease (register_opaque k s) = sys_lease s" "sys_candidates (register_opaque k s) = sys_candidates s"
  "sys_closing (register_opaque k s) = sys_closing s" "sys_calls (register_opaque k s) = sys_calls s"
  "sys_admitted (register_opaque k s) = sys_admitted s" "sys_transported (register_opaque k s) = sys_transported s"
  "sys_unnoticed (register_opaque k s) = sys_unnoticed s" "length (sys_transport (register_opaque k s)) = length (sys_transport s)"
  by (simp_all add: register_opaque_def Let_def)

lemma transport_detach_Some:
  "transport_detach k s = Some s1 \<longleftrightarrow>
     \<not> sys_draining s \<and> \<not> sys_latched s \<and> sys_phase s (tc_lease (sys_transport s ! k)) = leasePending \<and>
     s1 = (register_opaque k (lease_remove (tc_lease (sys_transport s ! k)) (swap_phase (tc_lease (sys_transport s ! k)) leaseAdmitted s)))\<lparr>
        sys_transported := sys_transported s @ [k]\<rparr>"
  by (auto simp: transport_detach_def ConfirmHealthy_def Let_def lease_remove_def swap_phase_def register_opaque_def)

lemma transport_commit_Some:
  "transport_commit acquired current context_done k s = Some s1 \<longleftrightarrow>
     (tc_material (sys_transport s ! k) \<noteq> None \<longrightarrow>
        acquired \<and> \<not> context_done \<and> current = Inr (tm_Generation (the (tc_material (sys_transport s ! k))))) \<and>
     transport_detach k s = Some s1"
  by (auto simp: transport_commit_def ConfirmMaterial_def view_def transport_detach_Some split: option.splits sum.splits)

lemma opaque_release_Some:
  "opaque_release k s = Some s1 \<longleftrightarrow>
     k < length (sys_transport s) \<and> tc_opaqueOrigin (sys_transport s ! k) \<noteq> [] \<and> tc_opaqueRegistered (sys_transport s ! k) \<and>
     \<not> tc_opaqueReleased (sys_transport s ! k) \<and>
     s1 = s\<lparr>sys_transport := (sys_transport s)[k := (sys_transport s ! k)\<lparr>tc_opaqueReleased := True\<rparr>]\<rparr>"
  by (auto simp: opaque_release_def Let_def)

lemmas move_results = reserveWork_Inr use_candidate_Some lease_register_Inr drain_fence_Some confirm_commit_Some
  use_transport_Some transport_commit_Some transport_detach_Some opaque_release_Some

lemmas move_updates = releaseWork_def releaseGate_def lease_remove_def swap_phase_def lease_cancel_def lease_release_def lease_close_def
  cancel_collect_def opaque_settle_def Let_def

lemma gate_inv_move: "authority_move rx sha256 s t \<Longrightarrow> gate_inv s \<Longrightarrow> gate_inv t"
  by (induction rule: authority_move.induct)
    (auto simp: gate_inv_def move_results move_updates split: if_splits)

lemma one_holder:
  assumes "gate_inv s" and "sys_calls s = add_mset call M" and "holds_gate call" and "other \<in># M"
  shows "\<not> holds_gate other"
proof
  assume "holds_gate other"
  with assms(4) have "other \<in># filter_mset holds_gate M"
    by simp
  then have "0 < size (filter_mset holds_gate M)"
    by (metis size_empty size_eq_0_iff_empty empty_iff set_mset_empty neq0_conv)
  with assms(1-3) show False
    by (auto simp: gate_inv_def split: if_splits)
qed

subsection \<open>References in range\<close>

fun purpose_ok :: "nat \<Rightarrow> nat \<Rightarrow> nat \<Rightarrow> purpose \<Rightarrow> bool" where
  "purpose_ok leases candidates transports (Evaluating l _ _) = (l < leases)"
| "purpose_ok leases candidates transports (Confirming c) = (c < candidates)"
| "purpose_ok leases candidates transports (EvaluatingTransport l _ _) = (l < leases)"
| "purpose_ok leases candidates transports (ConfirmingTransport k) = (k < transports)"
| "purpose_ok leases candidates transports (Mutating affected tx) = authority_operation affected tx"
| "purpose_ok leases candidates transports _ = True"

fun call_ok :: "nat \<Rightarrow> nat \<Rightarrow> nat \<Rightarrow> call \<Rightarrow> bool" where
  "call_ok leases candidates transports (Waiting p) = purpose_ok leases candidates transports p"
| "call_ok leases candidates transports (Acquired p) = purpose_ok leases candidates transports p"
| "call_ok leases candidates transports (Holding p) = purpose_ok leases candidates transports p"
| "call_ok leases candidates transports (Verified c) = (c < candidates)"
| "call_ok leases candidates transports (VerifiedTransport k) = (k < transports)"
| "call_ok leases candidates transports (CancellingHeld ls) = (\<forall>l \<in> set ls. l < leases)"
| "call_ok leases candidates transports (Cancelling ls) = (\<forall>l \<in> set ls. l < leases)"
| "call_ok leases candidates transports (Removing l) = (l < leases)"
| "call_ok leases candidates transports _ = True"

abbreviation sys_call_ok :: "authority_sys \<Rightarrow> call \<Rightarrow> bool" where
  "sys_call_ok s \<equiv> call_ok (length (sys_lease s)) (length (sys_candidates s)) (length (sys_transport s))"

definition range_inv :: "authority_sys \<Rightarrow> bool" where
  "range_inv s \<longleftrightarrow>
     (\<forall>l \<in> set (sys_leases s) \<union> set (sys_closing s). l < length (sys_lease s)) \<and>
     (\<forall>l \<in> set (map ec_lease (sys_candidates s)). l < length (sys_lease s)) \<and>
     (\<forall>l \<in> set (map tc_lease (sys_transport s)). l < length (sys_lease s)) \<and>
     (\<forall>call \<in># sys_calls s. sys_call_ok s call)"

lemma purpose_ok_mono: "purpose_ok m n k p \<Longrightarrow> m \<le> m' \<Longrightarrow> n \<le> n' \<Longrightarrow> k \<le> k' \<Longrightarrow> purpose_ok m' n' k' p"
  by (cases p) auto

lemma call_ok_mono: "call_ok m n k call \<Longrightarrow> m \<le> m' \<Longrightarrow> n \<le> n' \<Longrightarrow> k \<le> k' \<Longrightarrow> call_ok m' n' k' call"
  by (cases call) (auto intro: purpose_ok_mono)

lemma evaluate_admission_lease: "evaluate_admission rx cache context_done now l invocationID request s = Some candidate \<Longrightarrow> ec_lease candidate = l"
  by (auto simp: evaluate_admission_def split: if_splits option.splits sum.splits)

lemma map_update_same: "g x = g (xs ! k) \<Longrightarrow> map g (xs[k := x]) = map g xs"
  by (cases "k < length xs") (simp_all add: map_update list_update_same_conv list_update_beyond)

lemma register_opaque_leases: "map tc_lease (sys_transport (register_opaque k s)) = map tc_lease (sys_transport s)"
  by (simp add: register_opaque_def Let_def map_update_same)

lemma evaluate_transport_Some:
  assumes "evaluate_transport context_done now l requestID request allowed material origin s = Some candidate"
  shows "tc_lease candidate = l" and "\<not> tc_opaqueRegistered candidate" and "\<not> tc_opaqueReleased candidate" and "authorizationRevisionTx (sys_db s) = Inr (tc_revision candidate)"
  using assms by (auto simp: evaluate_transport_def VerifyBindingOnlyTx_def view_def Let_def split: if_splits sum.splits)

lemma range_inv_move: "authority_move rx sha256 s t \<Longrightarrow> range_inv s \<Longrightarrow> range_inv t"
proof (induction rule: authority_move.induct)
  case (Move_reserve s s1 p)
  have "purpose_ok (length (sys_lease s)) (length (sys_candidates s)) (length (sys_transport s)) p"
    using Move_reserve by (cases p) auto
  with Move_reserve show ?case
    by (simp add: range_inv_def move_results)
next
  case (Move_evaluate s l invocationID request M cache context_done now candidate)
  have "\<forall>call \<in># M. call_ok (length (sys_lease s)) (Suc (length (sys_candidates s))) (length (sys_transport s)) call"
    using Move_evaluate(1,4) call_ok_mono [OF _ order_refl le_SucI [OF order_refl] order_refl] by (simp add: range_inv_def)
  with Move_evaluate(1,4) evaluate_admission_lease [OF Move_evaluate(3)] show ?case
    by (auto simp: range_inv_def)
next
  case (Move_register s binding M s1)
  have "\<forall>call \<in># M. call_ok (Suc (length (sys_lease s))) (length (sys_candidates s)) (length (sys_transport s)) call"
    using Move_register(1,3) call_ok_mono [OF _ le_SucI [OF order_refl] order_refl order_refl] by (simp add: range_inv_def)
  with Move_register show ?case
    by (auto simp: range_inv_def move_results intro: less_SucI)
next
  case (Move_use c invocationID s s1 s2)
  then show ?case
    unfolding range_inv_def move_results by (simp add: map_update_same)
next
  case (Move_use_refused c invocationID s s1)
  then show ?case
    unfolding range_inv_def move_results by (simp add: map_update_same)
next
  case (Move_use_transport k requestID request s s1 s2)
  then show ?case
    unfolding range_inv_def move_results by (simp add: map_update_same)
next
  case (Move_use_transport_refused k requestID request s same s1)
  then show ?case
    unfolding range_inv_def move_results by (simp add: map_update_same)
next
  case (Move_opaque_release k s s1)
  then show ?case
    unfolding range_inv_def move_results by (simp add: map_update_same)
next
  case (Move_evaluate_transport s l requestID request M context_done now allowed material origin candidate)
  have "\<forall>call \<in># M. call_ok (length (sys_lease s)) (length (sys_candidates s)) (Suc (length (sys_transport s))) call"
    using Move_evaluate_transport(1,3) call_ok_mono [OF _ order_refl order_refl le_SucI [OF order_refl]] by (simp add: range_inv_def)
  with Move_evaluate_transport(1,3) evaluate_transport_Some(1) [OF Move_evaluate_transport(2)] show ?case
    by (auto simp: range_inv_def)
next
  case (Move_confirm_transport s k M acquired current context_done s1)
  then show ?case
    unfolding range_inv_def move_results by (auto simp: register_opaque_leases lease_remove_def swap_phase_def)
qed (auto simp: range_inv_def move_results move_updates split: if_splits)

subsection \<open>The life of a lease\<close>

definition ended :: "leasePhase \<Rightarrow> bool" where
  "ended phase \<longleftrightarrow> phase = leaseCancelled \<or> phase = leaseReleased"

definition close_inv :: "authority_sys \<Rightarrow> bool" where
  "close_inv s \<longleftrightarrow>
     (\<forall>l < length (sys_lease s).
        ls_closed (sys_lease s ! l) + count_list (sys_closing s) l = (if ended (sys_phase s l) then 1 else 0)) \<and>
     (\<forall>l. Removing l \<in># sys_calls s \<longrightarrow> ended (sys_phase s l))"

lemma count_remove1: "count_list (remove1 x xs) y = (if x = y \<and> x \<in> set xs then count_list xs y - 1 else count_list xs y)"
  by (induction xs) (auto simp: count_list_0_iff)

lemma count_list_pos: "x \<in> set xs \<Longrightarrow> 0 < count_list xs x"
  by (metis count_list_0_iff neq0_conv)

lemma close_inv_cancel:
  assumes "close_inv s" and "l < length (sys_lease s)"
  shows "close_inv (lease_cancel l s)"
  using assms by (auto simp: close_inv_def lease_cancel_def swap_phase_def nth_list_update ended_def)

lemma close_inv_calls:
  "close_inv s \<Longrightarrow> (\<And>l. Removing l \<in># M \<Longrightarrow> Removing l \<in># sys_calls s) \<Longrightarrow> close_inv (s\<lparr>sys_calls := M\<rparr>)"
  by (auto simp: close_inv_def)

lemma close_inv_move: "authority_move rx sha256 s t \<Longrightarrow> range_inv s \<Longrightarrow> close_inv s \<Longrightarrow> close_inv t"
proof (induction rule: authority_move.induct)
  case (Move_register s binding M s1)
  then show ?case
    by (auto simp: close_inv_def move_results nth_append count_list_0_iff range_inv_def ended_def less_Suc_eq)
next
  case (Move_cancel_held s l ls M)
  then have "close_inv (lease_cancel l s)"
    by (intro close_inv_cancel) (auto simp: range_inv_def)
  with Move_cancel_held(1) show ?case
    by (intro close_inv_calls) (auto simp: lease_cancel_def swap_phase_def)
next
  case (Move_cancel s l ls M)
  then have "close_inv (lease_cancel l s)"
    by (intro close_inv_cancel) (auto simp: range_inv_def)
  with Move_cancel(1) show ?case
    by (intro close_inv_calls) (auto simp: lease_cancel_def swap_phase_def)
next
  case (Move_release l s)
  then show ?case
    by (auto simp: close_inv_def lease_release_def swap_phase_def nth_list_update ended_def)
next
  case (Move_close l s)
  then have "l < length (sys_lease s)"
    by (auto simp: range_inv_def)
  with Move_close show ?case
    using count_list_pos [of l "sys_closing s"]
    by (auto simp: close_inv_def lease_close_def nth_list_update count_remove1 split: if_splits)
next
  case (Move_confirm s c M s1)
  then have "c < length (sys_candidates s)"
    by (auto simp: range_inv_def)
  with Move_confirm have "ec_lease (sys_candidates s ! c) < length (sys_lease s)"
    by (auto simp: range_inv_def)
  with Move_confirm show ?case
    by (auto simp: close_inv_def move_results lease_remove_def swap_phase_def nth_list_update ended_def)
next
  case (Move_confirm_transport s k M acquired current context_done s1)
  then have "tc_lease (sys_transport s ! k) < length (sys_lease s)"
    by (auto simp: range_inv_def)
  with Move_confirm_transport show ?case
    by (auto simp: close_inv_def move_results lease_remove_def swap_phase_def nth_list_update ended_def)
qed (auto simp: close_inv_def move_results releaseWork_def releaseGate_def lease_remove_def cancel_collect_def opaque_settle_def Let_def)

subsection \<open>Leases still to be cancelled, and draining\<close>

fun cancels :: "call \<Rightarrow> nat list" where
  "cancels (CancellingHeld ls) = ls"
| "cancels (Cancelling ls) = ls"
| "cancels _ = []"

definition awaits_cancel :: "authority_sys \<Rightarrow> nat \<Rightarrow> bool" where
  "awaits_cancel s l \<longleftrightarrow> (\<exists>call \<in># sys_calls s. l \<in> set (cancels call))"

definition track_inv :: "authority_sys \<Rightarrow> bool" where
  "track_inv s \<longleftrightarrow>
     (\<forall>l < length (sys_lease s). sys_phase s l = leasePending \<longrightarrow> l \<in> set (sys_leases s) \<or> awaits_cancel s l) \<and>
     sys_stopping s = (if sys_draining s then 1 else 0) \<and> count (sys_calls s) Fenced \<le> 1 \<and>
     (Fenced \<in># sys_calls s \<longrightarrow> sys_draining s) \<and> (sys_draining s \<and> Fenced \<notin># sys_calls s \<longrightarrow> sys_leases s = [])"

lemma track_inv_same:
  assumes "track_inv s" and "sys_lease t = sys_lease s" and "sys_leases t = sys_leases s" and "sys_draining t = sys_draining s"
    and "sys_stopping t = sys_stopping s" and "\<And>l. awaits_cancel s l \<Longrightarrow> awaits_cancel t l"
    and "count (sys_calls t) Fenced = count (sys_calls s) Fenced"
  shows "track_inv t"
proof -
  have "Fenced \<in># sys_calls t \<longleftrightarrow> Fenced \<in># sys_calls s"
    using assms(7) by (metis count_eq_zero_iff)
  with assms show ?thesis
    by (simp add: track_inv_def) blast
qed

lemma track_inv_swap:
  assumes "track_inv s" and "sys_calls s = add_mset call M" and "sys_calls t = add_mset call' M"
    and "set (cancels call) \<subseteq> set (cancels call')" and "call \<noteq> Fenced" and "call' \<noteq> Fenced"
    and "sys_lease t = sys_lease s" and "sys_leases t = sys_leases s" and "sys_draining t = sys_draining s" and "sys_stopping t = sys_stopping s"
  shows "track_inv t"
  by (rule track_inv_same [OF assms(1,7-10)]) (use assms(2-6) in \<open>auto simp: awaits_cancel_def\<close>)

lemma track_inv_drop:
  assumes "track_inv s" and "sys_calls s = add_mset call M" and "sys_calls t = M" and "cancels call = []" and "call \<noteq> Fenced"
    and "sys_lease t = sys_lease s" and "sys_leases t = sys_leases s" and "sys_draining t = sys_draining s" and "sys_stopping t = sys_stopping s"
  shows "track_inv t"
  by (rule track_inv_same [OF assms(1,6-9)]) (use assms(2-5) in \<open>auto simp: awaits_cancel_def\<close>)

lemma track_inv_new:
  assumes "track_inv s" and "sys_calls t = add_mset call (sys_calls s)" and "call \<noteq> Fenced"
    and "sys_lease t = sys_lease s" and "sys_leases t = sys_leases s" and "sys_draining t = sys_draining s" and "sys_stopping t = sys_stopping s"
  shows "track_inv t"
  by (rule track_inv_same [OF assms(1,4-7)]) (use assms(2,3) in \<open>auto simp: awaits_cancel_def\<close>)

lemma track_inv_move: "authority_move rx sha256 s t \<Longrightarrow> range_inv s \<Longrightarrow> close_inv s \<Longrightarrow> track_inv s \<Longrightarrow> track_inv t"
proof (induction rule: authority_move.induct)
  case (Move_cancel_held s l ls M)
  then have "l < length (sys_lease s)"
    by (auto simp: range_inv_def)
  with Move_cancel_held show ?case
    by (auto simp: track_inv_def lease_cancel_def swap_phase_def nth_list_update awaits_cancel_def)
next
  case (Move_cancel s l ls M)
  then have "l < length (sys_lease s)"
    by (auto simp: range_inv_def)
  with Move_cancel show ?case
    by (auto simp: track_inv_def lease_cancel_def swap_phase_def nth_list_update awaits_cancel_def)
next
  case (Move_confirm s c M s1)
  then have "c < length (sys_candidates s)"
    by (auto simp: range_inv_def)
  with Move_confirm have "ec_lease (sys_candidates s ! c) < length (sys_lease s)"
    by (auto simp: range_inv_def)
  with Move_confirm show ?case
    by (auto simp: track_inv_def move_results lease_remove_def swap_phase_def nth_list_update awaits_cancel_def)
next
  case (Move_confirm_transport s k M acquired current context_done s1)
  then have "tc_lease (sys_transport s ! k) < length (sys_lease s)"
    by (auto simp: range_inv_def)
  with Move_confirm_transport show ?case
    by (auto simp: track_inv_def move_results lease_remove_def swap_phase_def nth_list_update awaits_cancel_def)
next
  case (Move_use_transport k requestID request s s1 s2)
  then show ?case
    by (intro track_inv_new [OF Move_use_transport(5)]) (auto simp: move_results)
next
  case (Move_opaque_release k s s1)
  then show ?case
    by (intro track_inv_new [OF Move_opaque_release(4)]) (auto simp: move_results)
next
  case (Move_use_transport_refused k requestID request s same s1)
  then show ?case
    by (intro track_inv_same [OF Move_use_transport_refused(4)]) (auto simp: move_results awaits_cancel_def)
next
  case (Move_opaque_settle s origin M)
  then show ?case
    by (intro track_inv_drop [OF Move_opaque_settle(4,1)]) (simp_all add: opaque_settle_def)
next
  case (Move_evaluate_transport s l requestID request M context_done now allowed material origin candidate)
  show ?case
    by (rule track_inv_swap [OF Move_evaluate_transport(5,1)], simp, simp_all)
next
  case (Move_verify_transport s k M)
  show ?case
    by (rule track_inv_swap [OF Move_verify_transport(5,1)], simp, simp_all)
next
  case (Move_remove s l M)
  then have "ended (sys_phase s l)"
    by (simp add: close_inv_def)
  with Move_remove show ?case
    by (auto simp: track_inv_def lease_remove_def ended_def awaits_cancel_def)
next
  case (Move_close l s)
  then have "l < length (sys_lease s)"
    by (auto simp: range_inv_def)
  with Move_close show ?case
    by (auto simp: track_inv_def lease_close_def nth_list_update awaits_cancel_def)
next
  case (Move_release l s)
  then show ?case
    by (auto simp: track_inv_def lease_release_def swap_phase_def nth_list_update awaits_cancel_def)
next
  case (Move_register s binding M s1)
  then show ?case
    by (auto simp: track_inv_def move_results nth_append less_Suc_eq awaits_cancel_def)
next
  case (Move_collect s affected M ls s1)
  then show ?case
    by (auto simp: track_inv_def cancel_collect_def awaits_cancel_def)
next
  case (Move_fence s s1)
  then have "Fenced \<notin># sys_calls s" "\<not> sys_draining s" "s1 = s\<lparr>sys_draining := True, sys_stopping := sys_stopping s + 1\<rparr>"
    by (auto simp: track_inv_def move_results)
  with Move_fence(4) show ?case
    by (auto simp: track_inv_def awaits_cancel_def not_in_iff)
next
  case (Move_drain_collect s M ls s1)
  then show ?case
    by (auto simp: track_inv_def cancel_collect_def awaits_cancel_def not_in_iff)
next
  case (Move_fail s call M)
  then show ?case
    by (intro track_inv_swap [OF Move_fail(5,1)]) auto
next
  case (Move_reserve s s1 p)
  then show ?case
    by (intro track_inv_new [OF Move_reserve(9)]) (auto simp: move_results)
next
  case (Move_use c invocationID s s1 s2)
  then show ?case
    by (intro track_inv_new [OF Move_use(5)]) (auto simp: move_results)
next
  case (Move_use_refused c invocationID s s1)
  then show ?case
    by (intro track_inv_same [OF Move_use_refused(4)]) (auto simp: move_results awaits_cancel_def)
next
  case (Move_latch s)
  then show ?case
    by (intro track_inv_same [OF Move_latch(3)]) (auto simp: awaits_cancel_def)
next
  case (Move_other_writer s busy)
  then show ?case
    by (intro track_inv_same [OF Move_other_writer(3)]) (auto simp: awaits_cancel_def)
next
  case (Move_give_up s p M)
  then show ?case
    by (intro track_inv_drop [OF Move_give_up(4,1)]) (simp_all add: releaseWork_def Let_def)
next
  case (Move_refuse s p M)
  then show ?case
    by (intro track_inv_drop [OF Move_refuse(4,1)]) (simp_all add: releaseWork_def releaseGate_def Let_def)
next
  case (Move_finish s M)
  then show ?case
    by (intro track_inv_drop [OF Move_finish(4,1)]) (simp_all add: releaseWork_def releaseGate_def Let_def)
next
  case (Move_cancelled s M)
  then show ?case
    by (intro track_inv_drop [OF Move_cancelled(4,1)]) simp_all
next
  case (Move_take s p M)
  show ?case
    by (rule track_inv_swap [OF Move_take(5,1)], simp, simp_all)
next
  case (Move_enter s p M)
  show ?case
    by (rule track_inv_swap [OF Move_enter(5,1)], simp, simp_all)
next
  case (Move_authenticate s bearer M binding)
  show ?case
    by (rule track_inv_swap [OF Move_authenticate(5,1)], simp, simp_all)
next
  case (Move_mutate s affected tx M dr r store')
  show ?case
    by (rule track_inv_swap [OF Move_mutate(5,1)], simp, simp_all)
next
  case (Move_mutated s affected M)
  show ?case
    by (rule track_inv_swap [OF Move_mutated(4,1)], simp, simp_all)
next
  case (Move_mutated_latched s affected M)
  show ?case
    by (rule track_inv_swap [OF Move_mutated_latched(6,1)], simp, simp_all)
next
  case (Move_cancelled_held s M)
  show ?case
    by (rule track_inv_swap [OF Move_cancelled_held(4,1)], simp, simp_all)
next
  case (Move_evaluate s l invocationID request M cache context_done now candidate)
  show ?case
    by (rule track_inv_swap [OF Move_evaluate(6,1)], simp, simp_all)
next
  case (Move_verify s c M)
  show ?case
    by (rule track_inv_swap [OF Move_verify(5,1)], simp, simp_all)
qed

subsection \<open>What the mutations change\<close>

definition grant_core :: "grant_row \<Rightarrow> grant_row" where
  "grant_core row = row\<lparr>row_description := None, row_revision := []\<rparr>"

definition frame :: "string \<Rightarrow> authority_state \<Rightarrow> authority_state \<Rightarrow> bool" where
  "frame affected st st' \<longleftrightarrow>
     ((\<exists>f. (\<forall>row. pr_id (f row) = pr_id row) \<and>
         db_principals (st_db st') = map (\<lambda>row. if pr_id row = affected then f row else row) (db_principals (st_db st))) \<or>
      (\<exists>row. pr_id row \<notin> set (map pr_id (db_principals (st_db st))) \<and> pr_id row \<noteq> [] \<and>
         db_principals (st_db st') = db_principals (st_db st) @ [row])) \<and>
     (db_revision (st_db st') = db_revision (st_db st) + 1 \<or>
      db_revision (st_db st') = db_revision (st_db st) \<and>
      map grant_core (db_grants (st_db st')) = map grant_core (db_grants (st_db st)))"

lemma update_default_db: "update_default principalID policy st = Inr st' \<Longrightarrow> st_db st' = st_db st"
  by (auto simp: update_default_def increment_def split: option.splits if_splits)

lemma advance_db:
  "advanceAuthorizationRevisionTx st = Inr st' \<Longrightarrow> st_db st' = (st_db st)\<lparr>db_revision := db_revision (st_db st) + 1\<rparr>"
  using advance_ok by force

lemma insert_grant_db:
  "insert_grant row st = Inr st' \<Longrightarrow> db_principals (st_db st') = db_principals (st_db st) \<and> db_revision (st_db st') = db_revision (st_db st)"
  by (auto simp: insert_grant_def split: sum.splits)

lemma frame_principals_same:
  "db_principals (st_db st') = db_principals (st_db st) \<Longrightarrow> db_revision (st_db st') = db_revision (st_db st) + 1 \<Longrightarrow> frame affected st st'"
  unfolding frame_def by (intro conjI disjI1 exI [of _ "\<lambda>row. row"]) simp_all

lemma frame_create_principal:
  assumes "create_principal_tx audit readable principalID grantID now request st = Inr (x, st')" and "validOpaqueID principalID"
  shows "frame [] st st'"
proof -
  obtain st1 st2 st3 st4 where run: "principalID \<notin> set (map pr_id (db_principals (st_db st)))"
      "insert_principal principalID request (FormatCanonical now) st = Inr st1"
      "insert_grant (default_grant grantID principalID (FormatCanonical now)) st1 = Inr st2"
      "advanceAuthorizationRevisionTx st2 = Inr st3" "audit_MutationTx audit False ''principal'' ''create'' principalID st3 = Inr st4"
      "audit_MutationTx audit True ''grant'' ''create'' grantID st4 = Inr st'"
    using create_principal_tx_Inr [OF assms(1)] by blast
  have "\<exists>row. pr_id row = principalID \<and> db_principals (st_db st1) = db_principals (st_db st) @ [row] \<and>
      db_revision (st_db st1) = db_revision (st_db st)"
    using run(2) by (auto simp: insert_principal_def Let_def split: sum.splits)
  then obtain row where "pr_id row = principalID" "db_principals (st_db st1) = db_principals (st_db st) @ [row]"
      "db_revision (st_db st1) = db_revision (st_db st)"
    by blast
  moreover have "principalID \<noteq> []"
    using assms(2) by auto
  ultimately show ?thesis
    using run(1) insert_grant_db [OF run(3)] advance_db [OF run(4)] audit_rows [OF run(5)] audit_rows [OF run(6)]
    unfolding frame_def by auto
qed

lemma frame_patch_principal:
  assumes "patch_principal_tx audit principalID expected request stamp st = Inr (x, st')"
  shows "frame principalID st st'"
proof -
  obtain current sc dc d policy name state visibility where finish:
      "patch_finish audit principalID current sc dc d policy
         (update_principal principalID (patched_row name state visibility d (FormatCanonical stamp)) st) = Inr (x, st')"
    using assms unfolding patch_principal_tx_def Let_def by (auto split: sum.splits option.splits if_splits)
  let ?st1 = "update_principal principalID (patched_row name state visibility d (FormatCanonical stamp)) st"
  have "db_grants (st_db st') = db_grants (st_db ?st1) \<and>
      (db_revision (st_db st') = db_revision (st_db ?st1) \<or> db_revision (st_db st') = db_revision (st_db ?st1) + 1)"
    using finish unfolding patch_finish_def
    by (auto split: sum.splits if_splits option.splits bool.splits dest!: audit_rows update_default_db advance_db)
  then show ?thesis
    using patch_finish_rows [OF finish] unfolding frame_def
    by (auto simp: update_principal_def intro!: exI [of _ "patched_row name state visibility d (FormatCanonical stamp)"])
qed

lemma frame_update: "(\<And>row. pr_id (f row) = pr_id row) \<Longrightarrow> st_db st' = st_db (update_principal principalID f st) \<Longrightarrow> frame principalID st st'"
  unfolding frame_def by (auto simp: update_principal_def)

lemma frame_issue_credential:
  assumes "issue_credential_tx audit principalID expected revision candidate st = Inr (x, st')"
  shows "frame principalID st st'"
proof (rule frame_update [of "issued_row candidate"])
  show "st_db st' = st_db (update_principal principalID (issued_row candidate) st)"
    using assms unfolding issue_credential_tx_def Let_def
    by (auto split: sum.splits if_splits option.splits prod.splits dest!: audit_rows)
qed simp

lemma frame_revoke_credential:
  assumes "revoke_credential_tx audit principalID expected stamp st = Inr (x, st')"
  shows "frame principalID st st'"
proof (rule frame_update [of "revoked_row (FormatCanonical stamp)"])
  show "st_db st' = st_db (update_principal principalID (revoked_row (FormatCanonical stamp)) st)"
    using assms unfolding revoke_credential_tx_def Let_def
    by (auto split: sum.splits if_splits option.splits prod.splits dest!: audit_rows)
qed simp

lemma frame_create_grant:
  assumes "create_grant_tx audit readable validateTarget grantID now request st = Inr (x, st')"
  shows "frame affected st st'"
proof -
  obtain st1 st2 where run: "insert_grant (grant_record request grantID now) st = Inr st1" "advanceAuthorizationRevisionTx st1 = Inr st2"
      "audit_MutationTx audit False ''grant'' ''create'' grantID st2 = Inr st'"
    using assms unfolding create_grant_tx_def by (auto split: sum.splits if_splits)
  from insert_grant_db [OF run(1)] advance_db [OF run(2)] audit_rows [OF run(3)] show ?thesis
    by (intro frame_principals_same) simp_all
qed

lemma frame_patch_grant:
  assumes "patch_grant_tx audit readable readable' grantID description expected now now' st = Inr (x, st')"
  shows "frame affected st st'"
proof -
  obtain n where "audit_MutationTx audit False ''grant'' ''update'' grantID
        (update_grant grantID (\<lambda>row. row\<lparr>row_description := description, row_revision := FormatUint (n + 1)\<rparr>) st) = Inr st'"
    using assms unfolding patch_grant_tx_def Let_def by (auto split: sum.splits if_splits option.splits)
  from audit_rows [OF this] show ?thesis
    unfolding frame_def by (intro conjI disjI2 disjI1 exI [of _ "\<lambda>row. row"]) (auto simp: update_grant_def grant_core_def intro!: exI [of _ "\<lambda>row. row"])
qed

lemma frame_delete_grant:
  assumes "delete_grant_tx audit readable grantID now st = Inr (x, st')"
  shows "frame affected st st'"
proof -
  obtain st1 where run: "advanceAuthorizationRevisionTx
        (st\<lparr>st_db := (st_db st)\<lparr>db_grants := filter (\<lambda>row. row_id row \<noteq> grantID) (db_grants (st_db st))\<rparr>\<rparr>) = Inr st1"
      "audit_MutationTx audit False ''grant'' ''delete'' grantID st1 = Inr st'"
    using assms unfolding delete_grant_tx_def by (auto split: sum.splits)
  from advance_db [OF run(1)] audit_rows [OF run(2)] show ?thesis
    by (intro frame_principals_same) simp_all
qed

lemma frame_approval:
  assumes "approval_tx audit rx latches cache readable inspect request approved now entropy requests st = Inr (x, st')"
  shows "frame affected st st'"
proof -
  obtain gs' where tx: "approve_request_tx audit rx latches cache readable inspect request approved now entropy \<lparr>gs_authority = st, gs_requests = requests\<rparr> =
      Inr ((fst x, snd x), gs')" and st': "st' = gs_authority gs'"
    using assms by (auto simp: approval_tx_def map_sum_def split: sum.splits)
  obtain row authority gs1 authority1 result grantID transition where run: "insert_grant row st = Inr authority"
      "CommitGrantRequestApproval audit rx inspect request approved transition grantID now
         (\<lparr>gs_authority = st, gs_requests = requests\<rparr>\<lparr>gs_authority := authority\<rparr>) = Inr (result, gs1)"
      "advanceAuthorizationRevisionTx (gs_authority gs1) = Inr authority1"
      "audit_MutationTx audit True ''grant'' ''create'' grantID authority1 = Inr (gs_authority gs')"
    by (rule approve_Inr [OF tx]) simp
  have "audit_MutationTx audit False ''grant_request'' ''approve'' (apr_ID request) authority = Inr (gs_authority gs1)"
    by (rule Commit_Inr [OF run(2)]) simp
  from insert_grant_db [OF run(1)] audit_rows [OF this] advance_db [OF run(3)] audit_rows [OF run(4)] show ?thesis
    unfolding st' by (intro frame_principals_same) simp_all
qed

lemma frame_advance:
  assumes "AdvanceGitCredentialRevisionTx st = Inr (x, st')"
  shows "frame affected st st'"
proof -
  have "advanceAuthorizationRevisionTx st = Inr st'"
    using assms by (cases "advanceAuthorizationRevisionTx st") (simp_all add: AdvanceGitCredentialRevisionTx_def)
  from advance_db [OF this] show ?thesis
    by (intro frame_principals_same) simp_all
qed

lemma discard_Inr: "discard tx st = Inr (u, st') \<Longrightarrow> \<exists>x. tx st = Inr (x, st')"
  by (cases "tx st") (auto simp: discard_def)

lemma operation_frame: "authority_operation affected tx \<Longrightarrow> tx st = Inr (u, st') \<Longrightarrow> frame affected st st'"
  by (induction rule: authority_operation.induct)
    (blast dest: discard_Inr intro: frame_create_principal frame_patch_principal frame_issue_credential frame_revoke_credential
      frame_create_grant frame_patch_grant frame_delete_grant frame_approval frame_advance)+

end
