(* ===== verification/Lease_Tables.thy ===== *)
theory Lease_Tables
  imports Lease_Invariant
begin

text \<open>
  The registry against the tables behind its gate: the binding of a pending lease is the principal's current credential
  until the call that changed it has ended the lease; an evaluation is still the decision of the tables while the
  revision of authorization has not moved; and what a confirmation has verified still holds when it admits.
\<close>

subsection \<open>What a step changes\<close>

lemma mutate_changes:
  assumes "mutate dr failure callback st = (r, st')" and "sto_data st' \<noteq> sto_data st"
  shows "\<exists>x. callback (sto_data st) = Inr (x, sto_data st')"
  using mutate_atomic_outcome [of dr callback st failure] assms by (cases r) auto

lemma move_data:
  assumes "authority_move rx sha256 s t" and "range_inv s"
  shows "sto_data (sys_store t) = sto_data (sys_store s) \<or>
    (\<exists>affected tx M noticed. sys_calls s = add_mset (Holding (Mutating affected tx)) M \<and>
       sys_calls t = add_mset (Mutated affected (affected \<noteq> [] \<and> noticed)) M \<and> (noticed \<or> affected \<in> set (sys_unnoticed t)) \<and>
       frame affected (sto_data (sys_store s)) (sto_data (sys_store t)) \<and>
       sys_lease t = sys_lease s \<and> sys_candidates t = sys_candidates s)"
  using assms
proof (induction rule: authority_move.induct)
  case (Move_mutate s affected tx M dr r store')
  have "authority_operation affected tx"
    using Move_mutate(1,3) by (simp add: range_inv_def)
  show ?case
  proof (cases "sto_data store' = sto_data (sys_store s)")
    case False
    from mutate_changes [OF Move_mutate(2) False] obtain x where x: "tx (sto_data (sys_store s)) = Inr (x, sto_data store')"
      by blast
    have "frame affected (sto_data (sys_store s)) (sto_data store')"
      by (rule operation_frame [OF \<open>authority_operation affected tx\<close> x])
    with Move_mutate(1) False show ?thesis
      by (intro disjI2 exI [of _ affected] exI [of _ tx] exI [of _ M] exI [of _ "is_ok r \<or> sto_latched store'"]) simp
  qed simp
qed (auto simp: move_results move_updates split: if_splits)

lemma move_unnoticed: "authority_move rx sha256 s t \<Longrightarrow> set (sys_unnoticed s) \<subseteq> set (sys_unnoticed t)"
  by (induction rule: authority_move.induct) (auto simp: move_results move_updates split: if_splits)

lemma nth_update: "j < length xs \<Longrightarrow> xs[i := x] ! j = (if i = j then x else xs ! j)"
  by (simp add: nth_list_update)

lemma move_old_lease:
  assumes "authority_move rx sha256 s t" and "range_inv s" and "l < length (sys_lease s)"
  shows "l < length (sys_lease t) \<and> ls_binding (sys_lease t ! l) = ls_binding (sys_lease s ! l) \<and>
    (sys_phase t l = leasePending \<longrightarrow> sys_phase s l = leasePending)"
  using assms
  by (induction rule: authority_move.induct) (auto simp: move_results move_updates nth_update nth_append split: if_splits)

lemma move_new_lease:
  assumes "authority_move rx sha256 s t"
  shows "length (sys_lease t) = length (sys_lease s) \<or>
    (\<exists>binding. BindingRead binding \<in># sys_calls s \<and> sys_db t = sys_db s \<and>
       sys_lease t = sys_lease s @ [\<lparr>ls_binding = binding, ls_phase = leasePending, ls_closed = 0\<rparr>])"
  using assms
  by (induction rule: authority_move.induct) (auto simp: move_results move_updates split: if_splits)

lemma move_old_candidate:
  assumes "authority_move rx sha256 s t" and "c < length (sys_candidates s)"
  shows "c < length (sys_candidates t) \<and> ec_lease (sys_candidates t ! c) = ec_lease (sys_candidates s ! c) \<and>
    ec_revision (sys_candidates t ! c) = ec_revision (sys_candidates s ! c) \<and>
    ec_basis (sys_candidates t ! c) = ec_basis (sys_candidates s ! c)"
  using assms
  by (induction rule: authority_move.induct) (auto simp: move_results move_updates nth_list_update nth_append split: if_splits)

lemma move_new_candidate:
  assumes "authority_move rx sha256 s t"
  shows "length (sys_candidates t) = length (sys_candidates s) \<or>
    (\<exists>candidate cache context_done now l invocationID request. sys_candidates t = sys_candidates s @ [candidate] \<and>
       sys_db t = sys_db s \<and> sys_lease t = sys_lease s \<and> cache_inv rx cache \<and>
       Holding (Evaluating l invocationID request) \<in># sys_calls s \<and>
       evaluate_admission rx cache context_done now l invocationID request s = Some candidate)"
  using assms
proof (induction rule: authority_move.induct)
  case (Move_evaluate s l invocationID request M cache context_done now candidate)
  then show ?case
    by (intro disjI2 exI [of _ candidate] exI [of _ cache] exI [of _ context_done] exI [of _ now] exI [of _ l]
        exI [of _ invocationID] exI [of _ request]) simp
qed (auto simp: move_results move_updates split: if_splits)

lemma move_old_transport:
  assumes "authority_move rx sha256 s t" and "k < length (sys_transport s)"
  shows "k < length (sys_transport t) \<and> tc_lease (sys_transport t ! k) = tc_lease (sys_transport s ! k) \<and>
    tc_revision (sys_transport t ! k) = tc_revision (sys_transport s ! k)"
  using assms
  by (induction rule: authority_move.induct)
    (auto simp: move_results move_updates register_opaque_def nth_update nth_append split: if_splits)

lemma move_new_transport:
  assumes "authority_move rx sha256 s t"
  shows "length (sys_transport t) = length (sys_transport s) \<or>
    (\<exists>candidate. sys_transport t = sys_transport s @ [candidate] \<and> sys_db t = sys_db s \<and>
       authorizationRevisionTx (sys_db s) = Inr (tc_revision candidate))"
  using assms
proof (induction rule: authority_move.induct)
  case (Move_evaluate_transport s l requestID request M context_done now allowed material origin candidate)
  then show ?case
    using evaluate_transport_Some(4) by (intro disjI2 exI [of _ candidate]) simp
qed (auto simp: move_results move_updates split: if_splits)

lemma move_awaits:
  assumes "authority_move rx sha256 s t" and "range_inv s" and "awaits_cancel s l" and "l < length (sys_lease s)"
  shows "awaits_cancel t l \<or> sys_phase t l \<noteq> leasePending"
  using assms
proof (induction rule: authority_move.induct)
  case (Move_fail s call M)
  then show ?case
    by (auto simp: awaits_cancel_def)
qed (auto simp: awaits_cancel_def move_results move_updates nth_list_update split: if_splits)

lemma move_mutated:
  assumes "authority_move rx sha256 s t" and "track_inv s" and "Mutated affected True \<in># sys_calls s"
    and "l < length (sys_lease s)" and "sys_phase t l = leasePending" and "cb_PrincipalID (ls_binding (sys_lease s ! l)) = affected"
    and "sys_phase s l = leasePending"
  shows "Mutated affected True \<in># sys_calls t \<or> awaits_cancel t l \<or> awaits_cancel s l"
  using assms
proof (induction rule: authority_move.induct)
  case (Move_collect s other M ls s1)
  then have "l \<in> set (sys_leases s) \<or> awaits_cancel s l"
    by (simp add: track_inv_def)
  with Move_collect show ?case
    by (auto simp: cancel_collect_def awaits_cancel_def)
next
  case (Move_fail s call M)
  then show ?case
    by auto
qed (auto simp: move_results move_updates split: if_splits)

subsection \<open>Opaque tunnels\<close>

definition live_tunnel :: "string \<Rightarrow> TransportCandidate \<Rightarrow> bool" where
  "live_tunnel origin candidate \<longleftrightarrow> tc_opaqueOrigin candidate = origin \<and> tc_opaqueRegistered candidate \<and> \<not> tc_opaqueReleased candidate"

definition opaque_inv :: "authority_sys \<Rightarrow> bool" where
  "opaque_inv s \<longleftrightarrow>
     (\<forall>origin. sys_opaque s origin =
        int (length (filter (live_tunnel origin) (sys_transport s)) + count (sys_calls s) (ReleasingOpaque origin))) \<and>
     (\<forall>k < length (sys_transport s). tc_opaqueRegistered (sys_transport s ! k) \<or> tc_opaqueReleased (sys_transport s ! k) \<longrightarrow>
        sys_phase s (tc_lease (sys_transport s ! k)) \<noteq> leasePending)"

lemma length_filter_update:
  "k < length xs \<Longrightarrow>
   length (filter P (xs[k := x])) + (if P (xs ! k) then 1 else 0) = length (filter P xs) + (if P x then 1 else 0)"
proof (induction xs arbitrary: k)
  case (Cons y ys)
  then show ?case
    by (cases k) auto
qed simp

lemma live_update:
  assumes "k < length xs"
  shows "int (length (filter (live_tunnel origin) (xs[k := x]))) =
    int (length (filter (live_tunnel origin) xs)) + (if live_tunnel origin x then 1 else 0) - (if live_tunnel origin (xs ! k) then 1 else 0)"
  using length_filter_update [OF assms, of "live_tunnel origin" x] by (auto split: if_splits)

lemma live_tunnel_update [simp]:
  "live_tunnel origin (c\<lparr>tc_used := b\<rparr>) = live_tunnel origin c" "\<not> live_tunnel origin (c\<lparr>tc_opaqueReleased := True\<rparr>)"
  "\<not> tc_opaqueRegistered c \<Longrightarrow> \<not> live_tunnel origin c"
  by (simp_all add: live_tunnel_def)

lemma opaque_count_move:
  assumes "authority_move rx sha256 s t" and "range_inv s" and "opaque_inv s"
  shows "sys_opaque t origin = int (length (filter (live_tunnel origin) (sys_transport t)) + count (sys_calls t) (ReleasingOpaque origin))"
  using assms
proof (induction rule: authority_move.induct)
  case (Move_use_transport k requestID request s s1 s2)
  then show ?case
    by (simp add: opaque_inv_def move_results live_update)
next
  case (Move_use_transport_refused k requestID request s same s1)
  then show ?case
    by (simp add: opaque_inv_def move_results live_update)
next
  case (Move_opaque_release k s s1)
  then show ?case
    by (auto simp: opaque_inv_def move_results live_update live_tunnel_def [of _ "sys_transport s ! k"])
next
  case (Move_opaque_settle s other M)
  then show ?case
    by (auto simp: opaque_inv_def opaque_settle_def)
next
  case (Move_evaluate_transport s l requestID request M context_done now allowed material other candidate)
  then show ?case
    using evaluate_transport_Some(2,3) [OF Move_evaluate_transport(2)] by (simp add: opaque_inv_def)
next
  case (Move_confirm_transport s k M acquired current context_done s1)
  then have "k < length (sys_transport s)" "\<not> tc_opaqueRegistered (sys_transport s ! k)" "\<not> tc_opaqueReleased (sys_transport s ! k)"
    by (auto simp: range_inv_def opaque_inv_def move_results)
  with Move_confirm_transport show ?case
    by (auto simp: opaque_inv_def move_results register_opaque_def lease_remove_def swap_phase_def live_update Let_def
        live_tunnel_def [of _ "(sys_transport s ! k)\<lparr>tc_opaqueRegistered := True\<rparr>"])
next
  case (Move_fail s call M)
  then show ?case
    by (auto simp: opaque_inv_def)
qed (auto simp: opaque_inv_def move_results move_updates split: if_splits)

lemma move_registered:
  assumes "authority_move rx sha256 s t" and "range_inv s" and "k < length (sys_transport t)" and "tc_opaqueRegistered (sys_transport t ! k) \<or> tc_opaqueReleased (sys_transport t ! k)"
  shows "k < length (sys_transport s) \<and> (tc_opaqueRegistered (sys_transport s ! k) \<or> tc_opaqueReleased (sys_transport s ! k) \<or> sys_phase t (tc_lease (sys_transport s ! k)) \<noteq> leasePending)"
  using assms
proof (induction rule: authority_move.induct)
  case (Move_evaluate_transport s l requestID request M context_done now allowed material other candidate)
  then show ?case
    using evaluate_transport_Some(2,3) [OF Move_evaluate_transport(2)] by (auto simp: nth_append less_Suc_eq)
next
  case (Move_confirm_transport s j M acquired current context_done s1)
  then have "tc_lease (sys_transport s ! j) < length (sys_lease s)" "j < length (sys_transport s)"
    by (auto simp: range_inv_def)
  with Move_confirm_transport show ?case
    by (auto simp: move_results register_opaque_def lease_remove_def swap_phase_def nth_list_update Let_def split: if_splits)
qed (auto simp: move_results move_updates nth_list_update split: if_splits)

lemma opaque_move:
  assumes "authority_move rx sha256 s t" and "range_inv s" and "opaque_inv s"
  shows "opaque_inv t"
  unfolding opaque_inv_def
proof (intro conjI allI impI)
  fix k
  assume k: "k < length (sys_transport t)" "tc_opaqueRegistered (sys_transport t ! k) \<or> tc_opaqueReleased (sys_transport t ! k)"
  note reg = move_registered [OF assms(1,2) k]
  then have "tc_lease (sys_transport s ! k) < length (sys_lease s)"
    using assms(2) by (simp add: range_inv_def)
  with reg move_old_transport [OF assms(1)] move_old_lease [OF assms(1,2)] assms(3) show "sys_phase t (tc_lease (sys_transport t ! k)) \<noteq> leasePending"
    unfolding opaque_inv_def by metis
qed (rule opaque_count_move [OF assms])

subsection \<open>Principals keep their identity\<close>

definition ids_ok :: "authority_db \<Rightarrow> bool" where
  "ids_ok db \<longleftrightarrow> distinct (map pr_id (db_principals db)) \<and> [] \<notin> set (map pr_id (db_principals db)) \<and> 0 \<le> db_revision db"

definition current_binding :: "authority_db \<Rightarrow> CredentialBinding \<Rightarrow> bool" where
  "current_binding db binding \<longleftrightarrow>
     (\<exists>row. principal_by_id (cb_PrincipalID binding) db = Some row \<and> slot_complete row \<and> row_binding row = binding)"

lemma frame_ids:
  assumes "frame affected st st'" and "ids_ok (st_db st)"
  shows "ids_ok (st_db st')"
proof -
  have "0 \<le> db_revision (st_db st')"
    using assms by (auto simp: frame_def ids_ok_def)
  moreover have "distinct (map pr_id (db_principals (st_db st'))) \<and> [] \<notin> set (map pr_id (db_principals (st_db st')))"
    using assms(1) [unfolded frame_def, THEN conjunct1]
  proof (elim disjE exE conjE)
    fix f :: "principal_row \<Rightarrow> principal_row"
    assume f: "\<forall>row. pr_id (f row) = pr_id row"
      and rows: "db_principals (st_db st') = map (\<lambda>row. if pr_id row = affected then f row else row) (db_principals (st_db st))"
    have "map pr_id (db_principals (st_db st')) = map pr_id (db_principals (st_db st))"
      unfolding rows map_map by (rule map_cong) (simp_all add: f)
    with assms(2) show ?thesis
      by (simp only: ids_ok_def simp_thms)
  next
    fix row
    assume "pr_id row \<notin> set (map pr_id (db_principals (st_db st)))" and "pr_id row \<noteq> []"
      and rows: "db_principals (st_db st') = db_principals (st_db st) @ [row]"
    with assms(2) show ?thesis
      unfolding rows ids_ok_def by auto
  qed
  ultimately show ?thesis
    by (simp only: ids_ok_def simp_thms)
qed

lemma find_id: "distinct (map f xs) \<Longrightarrow> x \<in> set xs \<Longrightarrow> find (\<lambda>y. f y = f x) xs = Some x"
  by (induction xs) auto

lemma find_map_other:
  "(\<And>row. pr_id (f row) = pr_id row) \<Longrightarrow> i \<noteq> affected \<Longrightarrow>
   find (\<lambda>row. pr_id row = i) (map (\<lambda>row. if pr_id row = affected then f row else row) rows) = find (\<lambda>row. pr_id row = i) rows"
  by (induction rows) auto

lemma find_append_Some: "find P xs = Some x \<Longrightarrow> find P (xs @ ys) = Some x"
  by (induction xs) auto

lemma frame_current:
  assumes "frame affected st st'" and "current_binding (st_db st) binding" and "cb_PrincipalID binding \<noteq> affected"
  shows "current_binding (st_db st') binding"
proof -
  obtain row where row: "principal_by_id (cb_PrincipalID binding) (st_db st) = Some row" "slot_complete row" "row_binding row = binding"
    using assms(2) by (auto simp: current_binding_def)
  have "principal_by_id (cb_PrincipalID binding) (st_db st') = Some row"
    using assms(1) [unfolded frame_def, THEN conjunct1] row(1) unfolding principal_by_id_def
    by (elim disjE exE conjE) (simp_all add: find_map_other [OF _ assms(3)] find_append_Some)
  with row show ?thesis
    by (auto simp: current_binding_def)
qed

lemma load_candidates_row:
  "load_candidates maximum seen previous rows = Inr found \<Longrightarrow> (binding, verifier) \<in> set found \<Longrightarrow>
   \<exists>row \<in> set rows. slot_complete row \<and> row_binding row = binding"
proof (induction maximum seen previous rows arbitrary: found rule: load_candidates.induct)
  case (2 maximum seen previous row rows)
  obtain rest where rest: "load_candidates maximum (seen + 1) (pr_sequence row) rows = Inr rest"
      "found = (if slot_complete row then (row_binding row, the (pr_verifier row)) # rest else rest)"
    using 2(2) by (auto split: if_splits option.splits sum.splits)
  show ?case
  proof (cases "(binding, verifier) \<in> set rest")
    case True
    have "\<exists>row \<in> set rows. slot_complete row \<and> row_binding row = binding"
      using 2 rest True by (auto split: if_splits option.splits)
    then show ?thesis by auto
  next
    case False
    with 2(3) rest(2) show ?thesis
      by (auto split: if_splits)
  qed
qed simp

lemma binding_principal: "cb_PrincipalID (row_binding row) = pr_id row"
  by (simp add: row_binding_def)

lemma authenticated_current:
  assumes "authenticateBinding sha256 latches db bearer = Inr binding" and "ids_ok db"
  shows "current_binding db binding"
proof -
  have "\<exists>found verifier. loadAuthenticationCandidates db = Inr found \<and> (binding, verifier) \<in> set found"
    using assms(1) by (auto simp: authenticateBinding_def view_def Let_def dest!: filter_eq_ConsD split: if_splits sum.splits list.splits prod.splits)
  then obtain found verifier where found: "loadAuthenticationCandidates db = Inr found" "(binding, verifier) \<in> set found"
    by blast
  from load_candidates_row [OF found(1) [unfolded loadAuthenticationCandidates_def Let_def] found(2)]
  obtain row where row: "row \<in> set (db_principals db)" "slot_complete row" "row_binding row = binding"
    by (auto dest: in_set_takeD)
  from find_id [OF _ row(1), of pr_id] assms(2) row show ?thesis
    by (auto simp: current_binding_def principal_by_id_def ids_ok_def binding_principal)
qed

lemma ids_move: "authority_move rx sha256 s t \<Longrightarrow> range_inv s \<Longrightarrow> ids_ok (sys_db s) \<Longrightarrow> ids_ok (sys_db t)"
  using move_data frame_ids by metis


subsection \<open>The binding of a pending lease\<close>

definition binding_kept :: "authority_sys \<Rightarrow> nat \<Rightarrow> bool" where
  "binding_kept s l \<longleftrightarrow>
     current_binding (sys_db s) (ls_binding (sys_lease s ! l)) \<or> awaits_cancel s l \<or>
     Mutated (cb_PrincipalID (ls_binding (sys_lease s ! l))) True \<in># sys_calls s \<or>
     cb_PrincipalID (ls_binding (sys_lease s ! l)) \<in> set (sys_unnoticed s)"

definition binding_inv :: "authority_sys \<Rightarrow> bool" where
  "binding_inv s \<longleftrightarrow>
     (\<forall>l < length (sys_lease s). sys_phase s l = leasePending \<longrightarrow> binding_kept s l) \<and>
     (\<forall>binding. BindingRead binding \<in># sys_calls s \<longrightarrow> current_binding (sys_db s) binding)"

lemma move_binding_read:
  assumes "authority_move rx sha256 s t" and "ids_ok (sys_db s)" and "BindingRead binding \<in># sys_calls t"
  shows "BindingRead binding \<in># sys_calls s \<or> current_binding (sys_db t) binding"
  using assms
proof (induction rule: authority_move.induct)
  case (Move_authenticate s bearer M read)
  then show ?case
    using authenticated_current [OF Move_authenticate(2,3)] by auto
qed (auto simp: move_results move_updates split: if_splits)

lemma current_nonempty: "ids_ok db \<Longrightarrow> current_binding db binding \<Longrightarrow> cb_PrincipalID binding \<noteq> []"
  by (auto simp: ids_ok_def current_binding_def principal_by_id_def find_Some_iff image_iff) (metis nth_mem)

lemma kept_current:
  assumes "authority_move rx sha256 s t" and "range_inv s" and "ids_ok (sys_db s)" and "current_binding (sys_db s) binding"
  shows "current_binding (sys_db t) binding \<or> Mutated (cb_PrincipalID binding) True \<in># sys_calls t \<or>
    cb_PrincipalID binding \<in> set (sys_unnoticed t)"
proof (cases "sto_data (sys_store t) = sto_data (sys_store s)")
  case True
  with assms(4) show ?thesis by simp
next
  case False
  with move_data [OF assms(1,2)] obtain affected M noticed where "frame affected (sto_data (sys_store s)) (sto_data (sys_store t))"
      "noticed \<or> affected \<in> set (sys_unnoticed t)" "sys_calls t = add_mset (Mutated affected (affected \<noteq> [] \<and> noticed)) M"
    by blast
  with frame_current [OF _ assms(4)] current_nonempty [OF assms(3,4)] show ?thesis
    by (cases "cb_PrincipalID binding = affected") auto
qed

lemma kept_lease:
  assumes "authority_move rx sha256 s t" and "range_inv s" and "track_inv s" and "ids_ok (sys_db s)" and "binding_kept s l"
    and "l < length (sys_lease s)" and "sys_phase t l = leasePending"
  shows "binding_kept t l"
proof -
  note old = move_old_lease [OF assms(1,2,6)]
  consider "current_binding (sys_db s) (ls_binding (sys_lease s ! l))" | "awaits_cancel s l"
    | "Mutated (cb_PrincipalID (ls_binding (sys_lease s ! l))) True \<in># sys_calls s"
    | "cb_PrincipalID (ls_binding (sys_lease s ! l)) \<in> set (sys_unnoticed s)"
    using assms(5) by (auto simp: binding_kept_def)
  then show ?thesis
  proof cases
    case 1
    with kept_current [OF assms(1,2,4)] old show ?thesis
      by (simp add: binding_kept_def) blast
  next
    case 2
    with move_awaits [OF assms(1,2) _ assms(6)] assms(7) show ?thesis
      by (simp add: binding_kept_def)
  next
    case 3
    with move_mutated [OF assms(1,3) _ assms(6,7) refl] move_awaits [OF assms(1,2) _ assms(6)] old assms(7) show ?thesis
      by (auto simp: binding_kept_def)
  next
    case 4
    with move_unnoticed [OF assms(1)] old show ?thesis
      by (auto simp: binding_kept_def)
  qed
qed

lemma holder_keeps_data:
  assumes "authority_move rx sha256 s t" and "gate_inv s" and "range_inv s" and "call \<in># sys_calls s" and "holds_gate call"
    and "\<And>affected tx. call \<noteq> Holding (Mutating affected tx)"
  shows "sys_db t = sys_db s"
proof (rule ccontr)
  assume "sys_db t \<noteq> sys_db s"
  with move_data [OF assms(1,3)] obtain affected tx M where calls: "sys_calls s = add_mset (Holding (Mutating affected tx)) M"
    by auto
  from one_holder [OF assms(2) calls] assms(4-6) calls show False
    by auto
qed

lemma binding_inv_move:
  assumes "authority_move rx sha256 s t" and "gate_inv s" and "range_inv s" and "track_inv s" and "ids_ok (sys_db s)" and "binding_inv s"
  shows "binding_inv t"
  unfolding binding_inv_def
proof (intro conjI allI impI)
  fix l
  assume l: "l < length (sys_lease t)" "sys_phase t l = leasePending"
  show "binding_kept t l"
  proof (cases "l < length (sys_lease s)")
    case True
    with assms(6) move_old_lease [OF assms(1,3) True] l(2) have "binding_kept s l"
      by (simp add: binding_inv_def)
    with kept_lease [OF assms(1,3,4,5) _ True l(2)] show ?thesis
      by blast
  next
    case False
    with move_new_lease [OF assms(1)] l(1) obtain binding where "BindingRead binding \<in># sys_calls s" "sys_db t = sys_db s"
        "sys_lease t ! l = \<lparr>ls_binding = binding, ls_phase = leasePending, ls_closed = 0\<rparr>"
      by (auto simp: nth_append less_Suc_eq)
    with assms(6) show ?thesis
      by (simp add: binding_inv_def binding_kept_def)
  qed
next
  fix binding
  assume read: "BindingRead binding \<in># sys_calls t"
  show "current_binding (sys_db t) binding"
  proof (rule ccontr)
    assume not: "\<not> current_binding (sys_db t) binding"
    with move_binding_read [OF assms(1,5) read] have old: "BindingRead binding \<in># sys_calls s"
      by blast
    with assms(6) have "current_binding (sys_db s) binding"
      by (simp add: binding_inv_def)
    with not holder_keeps_data [OF assms(1-3) old] show False
      by simp
  qed
qed


subsection \<open>Evaluations that still decide\<close>

definition allowed_by :: "regex_lib \<Rightarrow> authority_db \<Rightarrow> string \<Rightarrow> evaluation_basis \<Rightarrow> bool" where
  "allowed_by rx db principalID basis \<longleftrightarrow>
     (let request = eb_request basis;
          ids = matching_ids rx db principalID (rv_Target request) (rv_Arguments request) (eb_at basis) (rv_ReadOnlyHint request) in
      decision_spec (ids GrantDeny) (ids GrantAllow) = (DecisionAllow, eb_grant basis))"

definition evaluation_ok :: "regex_lib \<Rightarrow> authority_sys \<Rightarrow> nat \<Rightarrow> bool" where
  "evaluation_ok rx s c \<longleftrightarrow>
     (let candidate = sys_candidates s ! c in
      \<exists>r. 0 \<le> r \<and> r \<le> db_revision (sys_db s) \<and> ec_revision candidate = FormatInt r \<and>
        (r = db_revision (sys_db s) \<longrightarrow>
           allowed_by rx (sys_db s) (cb_PrincipalID (ls_binding (sys_lease s ! ec_lease candidate))) (ec_basis candidate)))"

lemma grant_core_load: "pure_load rx (grant_core row) = pure_load rx row"
proof -
  have "load_expiry (grant_core row) = load_expiry row"
    by (simp add: grant_core_def load_expiry_def fun_eq_iff)
  then have "row_malformed (grant_core row) = row_malformed row" "load_finish (grant_core row) = load_finish row"
    by (simp_all add: row_malformed_def row_target_def load_finish_def fun_eq_iff split: sum.split) (simp_all add: grant_core_def)
  moreover have "row_created (grant_core row) = row_created row" "row_constraint (grant_core row) = row_constraint row"
    by (simp_all add: grant_core_def)
  ultimately have "loadEvaluationGrant compile () (grant_core row) = loadEvaluationGrant compile () row"
    for compile :: "unit \<Rightarrow> string \<Rightarrow> (constraintError + CompiledConstraint) \<times> unit"
    unfolding loadEvaluationGrant_def by (simp split: option.split prod.split sum.split)
  then show ?thesis
    by (simp add: pure_load_def)
qed

lemma matching_core:
  "matching_ids rx db principalID target arguments at hint effect =
   row_id ` set (filter (\<lambda>row. row_principal row = principalID \<and> row_matches rx target at arguments hint effect row)
     (map grant_core (db_grants db)))"
proof -
  have "row_matches rx target at arguments hint effect (grant_core row) = row_matches rx target at arguments hint effect row" for row
    by (simp add: row_matches_def grant_core_load)
  moreover have "row_id (grant_core row) = row_id row" "row_principal (grant_core row) = row_principal row" for row
    by (simp_all add: grant_core_def)
  ultimately show ?thesis
    by (simp add: matching_ids_def filter_map o_def image_image)
qed

lemma allowed_by_core:
  "map grant_core (db_grants db') = map grant_core (db_grants db) \<Longrightarrow> allowed_by rx db' principalID basis = allowed_by rx db principalID basis"
  by (simp add: allowed_by_def matching_core)

lemma evaluate_admission_Some:
  assumes "evaluate_admission rx cache context_done now l invocationID request s = Some candidate"
  shows "\<exists>r result. request = Some r \<and> UpstreamName (rv_Target r) \<noteq> None \<and> ar_Decision result = DecisionAllow \<and>
    fst (evaluateTx (compileConstraint rx) rx (sys_db s) cache (cb_PrincipalID (ls_binding (sys_lease s ! l))) (rv_Target r)
      (rv_Arguments r) now (rv_ReadOnlyHint r)) = Inr result \<and>
    candidate = \<lparr>ec_lease = l, ec_invocationID = invocationID, ec_revision = ar_AuthorizationRevision result, ec_used = False,
      ec_basis = \<lparr>eb_request = r, eb_at = now, eb_grant = ar_GrantID result\<rparr>\<rparr>"
proof -
  obtain r result phase where r: "request = Some r" "ar_Decision result = DecisionAllow"
      and run: "VerifyResolvedTx rx cache (beginVerification context_done (sys_latched s) (sys_phase s l)) (sys_db s)
         (ls_binding (sys_lease s ! l)) r now = (Inr result, phase)"
      and cand: "candidate = \<lparr>ec_lease = l, ec_invocationID = invocationID, ec_revision = ar_AuthorizationRevision result, ec_used = False,
      ec_basis = \<lparr>eb_request = r, eb_at = now, eb_grant = ar_GrantID result\<rparr>\<rparr>"
    using assms unfolding evaluate_admission_def by (auto split: if_splits option.splits sum.splits simp: prod_eq_iff)
  have name: "validUpstreamName (ToolName (rv_Target r))" and
      "fst (evaluateTx (compileConstraint rx) rx (sys_db s) cache (cb_PrincipalID (ls_binding (sys_lease s ! l))) (rv_Target r)
        (rv_Arguments r) now (rv_ReadOnlyHint r)) = Inr result"
    using run unfolding VerifyResolvedTx_def by (auto split: if_splits sum.splits)
  moreover have "UpstreamName (rv_Target r) \<noteq> None"
    using name by (cases "UpstreamName (rv_Target r)") (simp_all add: validUpstreamName_def ToolName_def)
  ultimately show ?thesis
    using r cand by blast
qed

lemma evaluated_ok:
  assumes "evaluate_admission rx cache context_done now l invocationID request s = Some candidate" and "cache_inv rx cache"
  shows "ec_lease candidate = l \<and> ec_revision candidate = FormatInt (db_revision (sys_db s)) \<and>
    allowed_by rx (sys_db s) (cb_PrincipalID (ls_binding (sys_lease s ! l))) (ec_basis candidate)"
proof -
  from evaluate_admission_Some [OF assms(1)] obtain r result where r: "UpstreamName (rv_Target r) \<noteq> None" "ar_Decision result = DecisionAllow"
      and run: "fst (evaluateTx (compileConstraint rx) rx (sys_db s) cache (cb_PrincipalID (ls_binding (sys_lease s ! l))) (rv_Target r)
        (rv_Arguments r) now (rv_ReadOnlyHint r)) = Inr result"
      and cand: "candidate = \<lparr>ec_lease = l, ec_invocationID = invocationID, ec_revision = ar_AuthorizationRevision result, ec_used = False,
        ec_basis = \<lparr>eb_request = r, eb_at = now, eb_grant = ar_GrantID result\<rparr>\<rparr>"
    by blast
  from cached.evaluateTx_sound [OF assms(2) r(1) run] r(2) show ?thesis
    by (simp add: cand allowed_by_def Let_def)
qed

lemma evaluation_ok_move:
  assumes "authority_move rx sha256 s t" and "range_inv s" and "ids_ok (sys_db s)"
    and "\<And>c. c < length (sys_candidates s) \<Longrightarrow> evaluation_ok rx s c" and "c < length (sys_candidates t)"
  shows "evaluation_ok rx t c"
proof (cases "c < length (sys_candidates s)")
  case True
  then have lease: "ec_lease (sys_candidates s ! c) < length (sys_lease s)"
    using assms(2) by (simp add: range_inv_def)
  note same = move_old_candidate [OF assms(1) True] move_old_lease [OF assms(1,2) lease]
  obtain r where r: "0 \<le> r" "r \<le> db_revision (sys_db s)" "ec_revision (sys_candidates s ! c) = FormatInt r"
      "r = db_revision (sys_db s) \<Longrightarrow> allowed_by rx (sys_db s)
         (cb_PrincipalID (ls_binding (sys_lease s ! ec_lease (sys_candidates s ! c)))) (ec_basis (sys_candidates s ! c))"
    using assms(4) [OF True] by (auto simp: evaluation_ok_def Let_def)
  have "db_revision (sys_db t) = db_revision (sys_db s) + 1 \<or> db_revision (sys_db t) = db_revision (sys_db s) \<and>
      map grant_core (db_grants (sys_db t)) = map grant_core (db_grants (sys_db s))"
    using move_data [OF assms(1,2)] unfolding frame_def by auto
  with r same allowed_by_core [of "sys_db t" "sys_db s"] show ?thesis
    unfolding evaluation_ok_def Let_def by (intro exI [of _ r]) auto
next
  case False
  with move_new_candidate [OF assms(1)] assms(5) obtain candidate cache context_done now l invocationID request where
      new: "sys_candidates t = sys_candidates s @ [candidate]" "sys_db t = sys_db s" "sys_lease t = sys_lease s" "cache_inv rx cache"
        "evaluate_admission rx cache context_done now l invocationID request s = Some candidate"
    by auto
  moreover have "sys_candidates t ! c = candidate"
    using False assms(5) new(1) by (simp add: nth_append less_Suc_eq)
  ultimately show ?thesis
    using evaluated_ok [OF new(5,4)] assms(3) unfolding evaluation_ok_def Let_def ids_ok_def by auto
qed


subsection \<open>What a confirmation has verified, and admissions\<close>

definition verified_ok :: "authority_sys \<Rightarrow> nat \<Rightarrow> string \<Rightarrow> bool" where
  "verified_ok s l revision \<longleftrightarrow>
     verifyCurrentBindingTx (sys_db s) (ls_binding (sys_lease s ! l)) = Inr () \<and> authorizationRevisionTx (sys_db s) = Inr revision"

definition verified_inv :: "authority_sys \<Rightarrow> bool" where
  "verified_inv s \<longleftrightarrow>
     (\<forall>c. Verified c \<in># sys_calls s \<longrightarrow> verified_ok s (ec_lease (sys_candidates s ! c)) (ec_revision (sys_candidates s ! c))) \<and>
     (\<forall>k. VerifiedTransport k \<in># sys_calls s \<longrightarrow> verified_ok s (tc_lease (sys_transport s ! k)) (tc_revision (sys_transport s ! k)))"

lemma confirm_view_verified: "confirm_view l revision s = Inr () \<Longrightarrow> verified_ok s l revision"
  by (auto simp: confirm_view_def verified_ok_def view_def Let_def split: if_splits sum.splits)

lemma move_verified:
  assumes "authority_move rx sha256 s t"
  shows "(Verified c \<in># sys_calls t \<longrightarrow>
      Verified c \<in># sys_calls s \<or> verified_ok t (ec_lease (sys_candidates t ! c)) (ec_revision (sys_candidates t ! c))) \<and>
    (VerifiedTransport k \<in># sys_calls t \<longrightarrow>
      VerifiedTransport k \<in># sys_calls s \<or> verified_ok t (tc_lease (sys_transport t ! k)) (tc_revision (sys_transport t ! k)))"
  using assms
proof (induction rule: authority_move.induct)
  case (Move_verify s d M)
  then show ?case
    using confirm_view_verified [OF Move_verify(2)] by (auto simp: verified_ok_def)
next
  case (Move_verify_transport s d M)
  then show ?case
    using confirm_view_verified [OF Move_verify_transport(2)] by (auto simp: verified_ok_def)
qed (auto simp: move_results move_updates split: if_splits)

lemma verified_call_keeps:
  assumes "authority_move rx sha256 s t" and "gate_inv s" and "range_inv s" and "verified_inv s" and "Verified c \<in># sys_calls s"
  shows "verified_ok t (ec_lease (sys_candidates t ! c)) (ec_revision (sys_candidates t ! c))"
proof -
  have c: "c < length (sys_candidates s)"
    using assms(3,5) by (auto simp: range_inv_def)
  then have "ec_lease (sys_candidates s ! c) < length (sys_lease s)"
    using assms(3) by (simp add: range_inv_def)
  moreover have "sys_db t = sys_db s"
    by (rule holder_keeps_data [OF assms(1-3,5)]) simp_all
  ultimately show ?thesis
    using move_old_candidate [OF assms(1) c] move_old_lease [OF assms(1,3)] assms(4,5) by (simp add: verified_inv_def verified_ok_def)
qed

lemma verified_transport_keeps:
  assumes "authority_move rx sha256 s t" and "gate_inv s" and "range_inv s" and "verified_inv s" and "VerifiedTransport k \<in># sys_calls s"
  shows "verified_ok t (tc_lease (sys_transport t ! k)) (tc_revision (sys_transport t ! k))"
proof -
  have k: "k < length (sys_transport s)"
    using assms(3,5) by (auto simp: range_inv_def)
  then have "tc_lease (sys_transport s ! k) < length (sys_lease s)"
    using assms(3) by (simp add: range_inv_def)
  moreover have "sys_db t = sys_db s"
    by (rule holder_keeps_data [OF assms(1-3,5)]) simp_all
  ultimately show ?thesis
    using move_old_transport [OF assms(1) k] move_old_lease [OF assms(1,3)] assms(4,5) by (simp add: verified_inv_def verified_ok_def)
qed

lemma verified_move:
  assumes "authority_move rx sha256 s t" and "gate_inv s" and "range_inv s" and "verified_inv s"
  shows "verified_inv t"
  unfolding verified_inv_def
  using move_verified [OF assms(1)] verified_call_keeps [OF assms] verified_transport_keeps [OF assms] by blast

definition admitted_lease :: "authority_sys \<Rightarrow> nat \<times> AdmittedSubject \<Rightarrow> nat" where
  "admitted_lease s admission = ec_lease (sys_candidates s ! fst admission)"

definition transported_lease :: "authority_sys \<Rightarrow> nat \<Rightarrow> nat" where
  "transported_lease s k = tc_lease (sys_transport s ! k)"

definition admitted_inv :: "authority_sys \<Rightarrow> bool" where
  "admitted_inv s \<longleftrightarrow>
     (\<forall>admission \<in> set (sys_admitted s). fst admission < length (sys_candidates s) \<and>
        sys_phase s (admitted_lease s admission) \<noteq> leasePending) \<and>
     (\<forall>k \<in> set (sys_transported s). k < length (sys_transport s) \<and> sys_phase s (transported_lease s k) \<noteq> leasePending) \<and>
     distinct (map (admitted_lease s) (sys_admitted s) @ map (transported_lease s) (sys_transported s))"

lemma move_admitted:
  assumes "authority_move rx sha256 s t"
  shows "sys_admitted t = sys_admitted s \<or>
    (\<exists>c M. sys_calls s = add_mset (Verified c) M \<and> \<not> sys_draining s \<and> \<not> sys_latched s \<and>
       sys_phase s (ec_lease (sys_candidates s ! c)) = leasePending \<and>
       sys_lease t = (sys_lease s)[ec_lease (sys_candidates s ! c) := (sys_lease s ! ec_lease (sys_candidates s ! c))\<lparr>ls_phase := leaseAdmitted\<rparr>] \<and>
       sys_candidates t = sys_candidates s \<and> sys_db t = sys_db s \<and> sys_transported t = sys_transported s \<and>
       sys_admitted t = sys_admitted s @
         [(c, admittedSubject (ls_binding (sys_lease s ! ec_lease (sys_candidates s ! c))) (ec_revision (sys_candidates s ! c)))])"
  using assms
  by (induction rule: authority_move.induct) (auto simp: move_results move_updates split: if_splits)

lemma move_transported:
  assumes "authority_move rx sha256 s t"
  shows "sys_transported t = sys_transported s \<or>
    (\<exists>k M. sys_calls s = add_mset (VerifiedTransport k) M \<and> \<not> sys_draining s \<and> \<not> sys_latched s \<and>
       sys_phase s (tc_lease (sys_transport s ! k)) = leasePending \<and>
       sys_lease t = (sys_lease s)[tc_lease (sys_transport s ! k) := (sys_lease s ! tc_lease (sys_transport s ! k))\<lparr>ls_phase := leaseAdmitted\<rparr>] \<and>
       sys_db t = sys_db s \<and> sys_admitted t = sys_admitted s \<and> sys_transported t = sys_transported s @ [k])"
  using assms
  by (induction rule: authority_move.induct) (auto simp: move_results move_updates split: if_splits)

lemma old_admitted:
  assumes "authority_move rx sha256 s t" and "range_inv s" and "admitted_inv s" and "admission \<in> set (sys_admitted s)"
  shows "fst admission < length (sys_candidates t) \<and> admitted_lease t admission = admitted_lease s admission \<and>
    sys_phase t (admitted_lease s admission) \<noteq> leasePending"
proof -
  have c: "fst admission < length (sys_candidates s)" "sys_phase s (admitted_lease s admission) \<noteq> leasePending"
    using assms(3,4) by (auto simp: admitted_inv_def)
  then have "admitted_lease s admission < length (sys_lease s)"
    using assms(2) by (simp add: range_inv_def admitted_lease_def)
  with c move_old_candidate [OF assms(1) c(1)] move_old_lease [OF assms(1,2)] show ?thesis
    by (auto simp: admitted_lease_def)
qed

lemma old_transported:
  assumes "authority_move rx sha256 s t" and "range_inv s" and "admitted_inv s" and "k \<in> set (sys_transported s)"
  shows "k < length (sys_transport t) \<and> transported_lease t k = transported_lease s k \<and>
    sys_phase t (transported_lease s k) \<noteq> leasePending"
proof -
  have k: "k < length (sys_transport s)" "sys_phase s (transported_lease s k) \<noteq> leasePending"
    using assms(3,4) by (auto simp: admitted_inv_def)
  then have "transported_lease s k < length (sys_lease s)"
    using assms(2) by (simp add: range_inv_def transported_lease_def)
  with k move_old_transport [OF assms(1) k(1)] move_old_lease [OF assms(1,2)] show ?thesis
    by (auto simp: transported_lease_def)
qed

definition admitted_leases :: "authority_sys \<Rightarrow> nat list" where
  "admitted_leases s = map (admitted_lease s) (sys_admitted s) @ map (transported_lease s) (sys_transported s)"

lemma not_yet_admitted: "admitted_inv s \<Longrightarrow> sys_phase s l = leasePending \<Longrightarrow> l \<notin> set (admitted_leases s)"
  by (auto simp: admitted_inv_def admitted_leases_def)

lemma admitted_cases:
  assumes "authority_move rx sha256 s t" and "range_inv s"
  shows "sys_admitted t = sys_admitted s \<and> sys_transported t = sys_transported s \<or>
    (\<exists>c M. sys_calls s = add_mset (Verified c) M \<and> sys_phase s (ec_lease (sys_candidates s ! c)) = leasePending \<and>
       sys_phase t (ec_lease (sys_candidates s ! c)) \<noteq> leasePending \<and> sys_transported t = sys_transported s \<and>
       (\<exists>x. sys_admitted t = sys_admitted s @ [(c, x)])) \<or>
    (\<exists>k M. sys_calls s = add_mset (VerifiedTransport k) M \<and> sys_phase s (tc_lease (sys_transport s ! k)) = leasePending \<and>
       sys_phase t (tc_lease (sys_transport s ! k)) \<noteq> leasePending \<and> sys_admitted t = sys_admitted s \<and>
       sys_transported t = sys_transported s @ [k])"
proof -
  have "ec_lease (sys_candidates s ! c) < length (sys_lease s)" if "sys_calls s = add_mset (Verified c) M" for c M
    using assms(2) that by (simp add: range_inv_def)
  moreover have "tc_lease (sys_transport s ! k) < length (sys_lease s)" if "sys_calls s = add_mset (VerifiedTransport k) M" for k M
    using assms(2) that by (simp add: range_inv_def)
  ultimately show ?thesis
    using move_admitted [OF assms(1)] move_transported [OF assms(1)] by (elim disjE exE conjE) auto
qed

lemma admitted_move:
  assumes "authority_move rx sha256 s t" and "range_inv s" and "admitted_inv s"
  shows "admitted_inv t"
proof -
  note old = old_admitted [OF assms] and old' = old_transported [OF assms]
  have leases: "map (admitted_lease t) (sys_admitted s) = map (admitted_lease s) (sys_admitted s)"
      "map (transported_lease t) (sys_transported s) = map (transported_lease s) (sys_transported s)"
    using old old' by simp_all
  have before: "distinct (admitted_leases s)"
    using assms(3) by (simp add: admitted_inv_def admitted_leases_def)
  consider (none) "sys_admitted t = sys_admitted s" "sys_transported t = sys_transported s"
    | (call) c M where "sys_calls s = add_mset (Verified c) M" "sys_phase s (ec_lease (sys_candidates s ! c)) = leasePending"
        "sys_phase t (ec_lease (sys_candidates s ! c)) \<noteq> leasePending"
        "sys_transported t = sys_transported s" "\<exists>x. sys_admitted t = sys_admitted s @ [(c, x)]"
    | (transport) k M where "sys_calls s = add_mset (VerifiedTransport k) M" "sys_phase s (tc_lease (sys_transport s ! k)) = leasePending"
        "sys_phase t (tc_lease (sys_transport s ! k)) \<noteq> leasePending"
        "sys_admitted t = sys_admitted s" "sys_transported t = sys_transported s @ [k]"
    using admitted_cases [OF assms(1,2)] by blast
  then show ?thesis
  proof cases
    case none
    with old old' before show ?thesis
      unfolding admitted_inv_def admitted_leases_def by (simp add: leases del: map_eq_conv)
  next
    case call
    have c: "c < length (sys_candidates s)"
      using call(1) assms(2) by (simp add: range_inv_def)
    note same = move_old_candidate [OF assms(1) c]
    obtain x where x: "sys_admitted t = sys_admitted s @ [(c, x)]"
      using call(5) by blast
    have "admitted_lease t (c, x) = ec_lease (sys_candidates s ! c)"
      using same by (simp add: admitted_lease_def)
    with not_yet_admitted [OF assms(3) call(2)] before have "distinct (admitted_leases t)"
      unfolding admitted_leases_def x call(4) map_append leases by auto
    with x call(3,4) old old' same show ?thesis
      by (auto simp: admitted_inv_def admitted_leases_def admitted_lease_def)
  next
    case transport
    have k: "k < length (sys_transport s)"
      using transport(1) assms(2) by (simp add: range_inv_def)
    note same = move_old_transport [OF assms(1) k]
    have "transported_lease t k = tc_lease (sys_transport s ! k)"
      using same by (simp add: transported_lease_def)
    with not_yet_admitted [OF assms(3) transport(2)] before have "distinct (admitted_leases t)"
      unfolding admitted_leases_def transport(4,5) map_append leases by auto
    with transport(3-5) old old' same show ?thesis
      by (auto simp: admitted_inv_def admitted_leases_def transported_lease_def)
  qed
qed

end
