(* ===== verification/Lease_Properties.thy ===== *)
theory Lease_Properties
  imports Lease_Tables Auth_Properties
begin

text \<open>
  What the authority registry guarantees under every interleaving of its calls, and what holds at the moment of an
  admission. The invariants of the registry are collected and shown inductive by the interpretation of
  \<open>step_invariant\<close>; a run that authenticates, evaluates and confirms shows that admissions happen.
\<close>

definition registry_start :: "authority_sys \<Rightarrow> bool" where
  "registry_start s \<longleftrightarrow> s = newAuthorityRegistry (sys_store s) \<and> ids_ok (sys_db s)"

definition registry_inv :: "regex_lib \<Rightarrow> authority_sys \<Rightarrow> bool" where
  "registry_inv rx s \<longleftrightarrow>
     gate_inv s \<and> range_inv s \<and> close_inv s \<and> track_inv s \<and> ids_ok (sys_db s) \<and> binding_inv s \<and> admitted_inv s \<and>
     opaque_inv s \<and> verified_inv s \<and> (\<forall>c < length (sys_candidates s). evaluation_ok rx s c)"

lemma newAuthorityRegistry_fields [simp]:
  "sys_store (newAuthorityRegistry store) = store" "\<not> sys_draining (newAuthorityRegistry store)" "sys_stopping (newAuthorityRegistry store) = 0"
  "sys_work (newAuthorityRegistry store) = 0" "\<not> sys_gate (newAuthorityRegistry store)" "sys_idle (newAuthorityRegistry store)"
  "sys_leases (newAuthorityRegistry store) = []" "sys_lease (newAuthorityRegistry store) = []" "sys_candidates (newAuthorityRegistry store) = []"
  "sys_closing (newAuthorityRegistry store) = []" "sys_calls (newAuthorityRegistry store) = {#}" "sys_admitted (newAuthorityRegistry store) = []"
  "sys_transport (newAuthorityRegistry store) = []" "sys_opaque (newAuthorityRegistry store) = (\<lambda>_. 0)"
  "sys_transported (newAuthorityRegistry store) = []" "sys_unnoticed (newAuthorityRegistry store) = []"
  by (simp_all add: newAuthorityRegistry_def)

lemma registry_inv_start: "registry_start s \<Longrightarrow> registry_inv rx s"
proof -
  assume "registry_start s"
  then obtain store where "s = newAuthorityRegistry store" "ids_ok (sys_db s)"
    by (auto simp: registry_start_def)
  then show ?thesis
    by (simp add: registry_inv_def gate_inv_def range_inv_def close_inv_def track_inv_def binding_inv_def admitted_inv_def opaque_inv_def
        verified_inv_def)
qed

lemma registry_inv_move: "registry_inv rx s \<Longrightarrow> authority_move rx sha256 s t \<Longrightarrow> registry_inv rx t"
  unfolding registry_inv_def
  by (intro conjI allI impI)
    (blast intro: gate_inv_move range_inv_move close_inv_move track_inv_move ids_move binding_inv_move admitted_move opaque_move
      evaluation_ok_move verified_move)+

interpretation registry: step_invariant registry_start "authority_move rx sha256" "registry_inv rx" for rx sha256
  by unfold_locales (rule registry_inv_start, assumption, rule registry_inv_move)

subsection \<open>Guarantees of the registry\<close>

text \<open>
  C11: Under every interleaving of authentications, mutations, evaluations and confirmations of calls and of HTTP and Git
  traffic, releases of leases and tunnels, and draining, on a store that may latch at any time: at most one call is past the gate; at most 32
  calls wait or hold it, and the registry is idle exactly when none does; the channel of a lease is closed at
  most once and only when the lease is cancelled or released; a pending lease carries the current credential of its principal
  unless the call that changed it is about to cancel the lease, or a change of that principal was committed and its connection then
  failed to close, so that the mutation returned an error and cancelled nothing; once draining has collected and cancelled its
  leases no lease is pending; no lease is admitted twice, for calls and traffic together; and an origin is counted once for each of its
  opaque tunnels that was admitted and whose release has not finished.
\<close>

theorem registry_guarantees:
  assumes "registry_start s0" and "(authority_move rx sha256)\<^sup>*\<^sup>* s0 s"
  shows "size (filter_mset holds_gate (sys_calls s)) = (if sys_gate s then 1 else 0) \<and>
    0 \<le> sys_work s \<and> sys_work s \<le> 32 \<and> (sys_idle s \<longleftrightarrow> sys_work s = 0) \<and>
    (\<forall>l < length (sys_lease s).
       (ls_closed (sys_lease s ! l) = 0 \<or> ls_closed (sys_lease s ! l) = 1 \<and> ended (sys_phase s l)) \<and>
       (sys_phase s l = leasePending \<and> \<not> awaits_cancel s l \<and>
        Mutated (cb_PrincipalID (ls_binding (sys_lease s ! l))) True \<notin># sys_calls s \<and>
        cb_PrincipalID (ls_binding (sys_lease s ! l)) \<notin> set (sys_unnoticed s) \<longrightarrow>
        current_binding (sys_db s) (ls_binding (sys_lease s ! l))) \<and>
       (sys_draining s \<and> Fenced \<notin># sys_calls s \<and> (\<forall>call \<in># sys_calls s. cancels call = []) \<longrightarrow> sys_phase s l \<noteq> leasePending)) \<and>
    distinct (map (\<lambda>admission. ec_lease (sys_candidates s ! fst admission)) (sys_admitted s) @
      map (\<lambda>k. tc_lease (sys_transport s ! k)) (sys_transported s)) \<and>
    (\<forall>origin. sys_opaque s origin =
       int (length (filter (live_tunnel origin) (sys_transport s)) + count (sys_calls s) (ReleasingOpaque origin)))"
proof -
  have reg: "registry_inv rx s"
    by (rule registry.inv_reachable [OF assms])
  have "ls_closed (sys_lease s ! l) = 0 \<or> ls_closed (sys_lease s ! l) = 1 \<and> ended (sys_phase s l)" if "l < length (sys_lease s)" for l
    using reg that by (auto simp: registry_inv_def close_inv_def split: if_splits)
  moreover have "current_binding (sys_db s) (ls_binding (sys_lease s ! l))"
    if "l < length (sys_lease s)" "sys_phase s l = leasePending" "\<not> awaits_cancel s l"
      "Mutated (cb_PrincipalID (ls_binding (sys_lease s ! l))) True \<notin># sys_calls s"
      "cb_PrincipalID (ls_binding (sys_lease s ! l)) \<notin> set (sys_unnoticed s)" for l
    using reg that by (auto simp: registry_inv_def binding_inv_def binding_kept_def)
  moreover have "sys_phase s l \<noteq> leasePending"
    if "l < length (sys_lease s)" "sys_draining s" "Fenced \<notin># sys_calls s" "\<forall>call \<in># sys_calls s. cancels call = []" for l
    using reg that by (auto simp: registry_inv_def track_inv_def awaits_cancel_def)
  moreover have "distinct (map (\<lambda>admission. ec_lease (sys_candidates s ! fst admission)) (sys_admitted s) @
      map (\<lambda>k. tc_lease (sys_transport s ! k)) (sys_transported s))"
    using reg by (simp add: registry_inv_def admitted_inv_def admitted_lease_def [abs_def] transported_lease_def [abs_def])
  moreover have "gate_inv s" "opaque_inv s"
    using reg by (simp_all add: registry_inv_def)
  ultimately show ?thesis
    unfolding gate_inv_def opaque_inv_def by simp
qed

text \<open>
  The exception happens: a mutation of a principal whose commit stands and whose connection does not close leaves the gate with every
  lease as it was, on a store that is not latched.
\<close>

lemma unclosed_change_cancels_nothing:
  assumes "sys_calls s = add_mset (Holding (Mutating affected tx)) M" and "tx (sto_data (sys_store s)) = Inr ((), data)"
    and "data \<noteq> sto_data (sys_store s)" and "\<not> sys_latched s" and "\<not> sto_owned (sys_store s)"
  shows "\<exists>t. (authority_move rx sha256)\<^sup>*\<^sup>* s t \<and> sys_calls t = add_mset Finishing M \<and> sto_data (sys_store t) = data \<and>
    \<not> sys_latched t \<and> sys_lease t = sys_lease s \<and> sys_leases t = sys_leases s \<and> affected \<in> set (sys_unnoticed t)"
proof -
  let ?dr = "steady_driver\<lparr>dr_close_ok := False\<rparr>"
  let ?store = "(sys_store s)\<lparr>sto_data := data\<rparr>"
  let ?t = "s\<lparr>sys_store := ?store, sys_unnoticed := affected # sys_unnoticed s, sys_calls := add_mset (Mutated affected False) M\<rparr>"
  have run: "mutate ?dr isStorageFailure tx (sys_store s) = (Inl DriverError, ?store)"
    using assms(2,4,5) by (cases "sys_store s") (simp add: mutate_def acquireMutation_def mutateOwned_def run_transaction_def finishConnection_def
        store_latch_def releaseMutation_def steady_driver_def)
  have "authority_move rx sha256 s ?t"
    using Move_mutate [OF assms(1) run, of rx sha256] assms(3,4) by simp
  moreover have "authority_move rx sha256 ?t (?t\<lparr>sys_calls := add_mset Finishing M\<rparr>)"
    by (rule Move_mutated) simp
  ultimately have "(authority_move rx sha256)\<^sup>*\<^sup>* s (?t\<lparr>sys_calls := add_mset Finishing M\<rparr>)"
    by (meson converse_rtranclp_into_rtranclp r_into_rtranclp)
  then show ?thesis
    using assms(4) by (intro exI [of _ "?t\<lparr>sys_calls := add_mset Finishing M\<rparr>"]) simp
qed

subsection \<open>Admission\<close>

definition admits :: "regex_lib \<Rightarrow> authority_sys \<Rightarrow> authority_sys \<Rightarrow> nat \<Rightarrow> bool" where
  "admits rx s t c \<longleftrightarrow>
     (let candidate = sys_candidates s ! c; l = ec_lease candidate; binding = ls_binding (sys_lease s ! l);
          request = eb_request (ec_basis candidate);
          ids = matching_ids rx (sys_db s) (cb_PrincipalID binding) (rv_Target request) (rv_Arguments request) (eb_at (ec_basis candidate)) (rv_ReadOnlyHint request) in
      sys_admitted t = sys_admitted s @ [(c, admittedSubject binding (ec_revision candidate))] \<and>
      c < length (sys_candidates s) \<and> l < length (sys_lease s) \<and> \<not> sys_draining s \<and> \<not> sys_latched s \<and>
      sys_phase s l = leasePending \<and> sys_phase t l = leaseAdmitted \<and>
      l \<notin> (\<lambda>admission. ec_lease (sys_candidates s ! fst admission)) ` set (sys_admitted s) \<and>
      verifyCurrentBindingTx (sys_db s) binding = Inr () \<and> ec_revision candidate = FormatInt (db_revision (sys_db s)) \<and>
      decision_spec (ids GrantDeny) (ids GrantAllow) = (DecisionAllow, eb_grant (ec_basis candidate)))"

lemma admission_facts:
  assumes "registry_start s0" and "(authority_move rx sha256)\<^sup>*\<^sup>* s0 s" and "authority_move rx sha256 s t"
    and "sys_admitted t \<noteq> sys_admitted s"
  shows "\<exists>c. admits rx s t c"
proof -
  have reg: "registry_inv rx s"
    by (rule registry.inv_reachable [OF assms(1,2)])
  from move_admitted [OF assms(3)] assms(4) obtain c M where c: "sys_calls s = add_mset (Verified c) M" "\<not> sys_draining s" "\<not> sys_latched s"
      "sys_phase s (ec_lease (sys_candidates s ! c)) = leasePending"
      "sys_lease t = (sys_lease s)[ec_lease (sys_candidates s ! c) := (sys_lease s ! ec_lease (sys_candidates s ! c))\<lparr>ls_phase := leaseAdmitted\<rparr>]"
      "sys_admitted t = sys_admitted s @
         [(c, admittedSubject (ls_binding (sys_lease s ! ec_lease (sys_candidates s ! c))) (ec_revision (sys_candidates s ! c)))]"
    by blast
  have range: "c < length (sys_candidates s)" "ec_lease (sys_candidates s ! c) < length (sys_lease s)"
    using reg c(1) by (simp_all add: registry_inv_def range_inv_def)
  have "verified_ok s (ec_lease (sys_candidates s ! c)) (ec_revision (sys_candidates s ! c))" "evaluation_ok rx s c"
    using reg c(1) range(1) by (simp_all add: registry_inv_def verified_inv_def)
  then have binding: "verifyCurrentBindingTx (sys_db s) (ls_binding (sys_lease s ! ec_lease (sys_candidates s ! c))) = Inr ()"
      and revision: "ec_revision (sys_candidates s ! c) = FormatInt (db_revision (sys_db s))" and "0 \<le> db_revision (sys_db s)"
    by (auto simp: verified_ok_def authorizationRevisionTx_def split: if_splits)
  with \<open>evaluation_ok rx s c\<close> have allowed: "allowed_by rx (sys_db s)
      (cb_PrincipalID (ls_binding (sys_lease s ! ec_lease (sys_candidates s ! c)))) (ec_basis (sys_candidates s ! c))"
    by (auto simp: evaluation_ok_def Let_def FormatInt_def)
  have "ec_lease (sys_candidates s ! c) \<notin> (\<lambda>admission. ec_lease (sys_candidates s ! fst admission)) ` set (sys_admitted s)"
    using reg c(4) by (auto simp: registry_inv_def admitted_inv_def admitted_lease_def)
  with c range binding revision allowed show ?thesis
    unfolding admits_def Let_def by (intro exI [of _ c]) (simp add: allowed_by_def Let_def)
qed

text \<open>
  C3: No call is admitted on stale authority. Whenever a confirmation admits a subject, however mutations,
  cancellations, draining and the latch interleave with it: the registry is not draining and the store is not latched, the
  lease was pending and was never admitted before, its credential is the principal's current one, the revision
  of authorization is the one the candidate was evaluated at, and the tables at that moment still allow
  the evaluated call, by the same grant, at the time of its evaluation; the subject names exactly that credential and revision.
\<close>

theorem admission_current:
  assumes "registry_start s0" and "(authority_move rx sha256)\<^sup>*\<^sup>* s0 s" and "authority_move rx sha256 s t"
    and "sys_admitted t \<noteq> sys_admitted s"
  shows "\<exists>c. let candidate = sys_candidates s ! c; l = ec_lease candidate; binding = ls_binding (sys_lease s ! l);
      request = eb_request (ec_basis candidate);
      ids = matching_ids rx (sys_db s) (cb_PrincipalID binding) (rv_Target request) (rv_Arguments request) (eb_at (ec_basis candidate)) (rv_ReadOnlyHint request) in
    sys_admitted t = sys_admitted s @ [(c, admittedSubject binding (ec_revision candidate))] \<and>
    c < length (sys_candidates s) \<and> l < length (sys_lease s) \<and> \<not> sys_draining s \<and> \<not> sys_latched s \<and>
    sys_phase s l = leasePending \<and> sys_phase t l = leaseAdmitted \<and>
    l \<notin> (\<lambda>admission. ec_lease (sys_candidates s ! fst admission)) ` set (sys_admitted s) \<and>
    verifyCurrentBindingTx (sys_db s) binding = Inr () \<and> ec_revision candidate = FormatInt (db_revision (sys_db s)) \<and>
    decision_spec (ids GrantDeny) (ids GrantAllow) = (DecisionAllow, eb_grant (ec_basis candidate))"
  using admission_facts [OF assms] unfolding admits_def .

lemma move_counts:
  assumes "authority_move rx sha256 s t" and "sys_calls s = add_mset (VerifiedTransport k) M" and "k < length (sys_transport s)"
    and "sys_transported t = sys_transported s @ [k]" and "\<not> tc_opaqueReleased (sys_transport s ! k)"
    and "tc_opaqueOrigin (sys_transport s ! k) \<noteq> []"
  shows "sys_opaque t (tc_opaqueOrigin (sys_transport s ! k)) = sys_opaque s (tc_opaqueOrigin (sys_transport s ! k)) + 1 \<and>
    live_tunnel (tc_opaqueOrigin (sys_transport s ! k)) (sys_transport t ! k)"
  using assms
proof (induction rule: authority_move.induct)
  case (Move_confirm_transport s j N acquired current context_done s1)
  then show ?case
    by (auto simp: move_results register_opaque_def lease_remove_def swap_phase_def live_tunnel_def Let_def)
qed (auto simp: move_results move_updates split: if_splits)

text \<open>
  C0: No HTTP or Git traffic is admitted on stale authority. Whenever \<open>ConfirmHTTP\<close> or \<open>ConfirmGit\<close> detaches a candidate, however
  mutations, cancellations, draining and the latch interleave with it: the registry is not draining and the store is not latched, the
  lease was pending and was never admitted before, for a call or for traffic, its credential is the principal's current one, and the revision of
  authorization is the one its policy was evaluated at; and the origin of an opaque tunnel is counted.
\<close>

theorem transport_admission_current:
  assumes "registry_start s0" and "(authority_move rx sha256)\<^sup>*\<^sup>* s0 s" and "authority_move rx sha256 s t"
    and "sys_transported t \<noteq> sys_transported s"
  shows "\<exists>k. let candidate = sys_transport s ! k; l = tc_lease candidate; binding = ls_binding (sys_lease s ! l);
      origin = tc_opaqueOrigin candidate in
    sys_transported t = sys_transported s @ [k] \<and> k < length (sys_transport s) \<and> l < length (sys_lease s) \<and>
    \<not> sys_draining s \<and> \<not> sys_latched s \<and> sys_phase s l = leasePending \<and> sys_phase t l = leaseAdmitted \<and>
    l \<notin> (\<lambda>admission. ec_lease (sys_candidates s ! fst admission)) ` set (sys_admitted s) \<and>
    l \<notin> (\<lambda>k. tc_lease (sys_transport s ! k)) ` set (sys_transported s) \<and>
    verifyCurrentBindingTx (sys_db s) binding = Inr () \<and> tc_revision candidate = FormatInt (db_revision (sys_db s)) \<and>
    (origin \<noteq> [] \<longrightarrow> sys_opaque t origin = sys_opaque s origin + 1 \<and> live_tunnel origin (sys_transport t ! k))"
proof -
  have reg: "registry_inv rx s"
    by (rule registry.inv_reachable [OF assms(1,2)])
  from move_transported [OF assms(3)] assms(4) obtain k M where k: "sys_calls s = add_mset (VerifiedTransport k) M" "\<not> sys_draining s" "\<not> sys_latched s"
      "sys_phase s (tc_lease (sys_transport s ! k)) = leasePending"
      "sys_lease t = (sys_lease s)[tc_lease (sys_transport s ! k) := (sys_lease s ! tc_lease (sys_transport s ! k))\<lparr>ls_phase := leaseAdmitted\<rparr>]"
      "sys_transported t = sys_transported s @ [k]"
    by blast
  have range: "k < length (sys_transport s)" "tc_lease (sys_transport s ! k) < length (sys_lease s)"
    using reg k(1) by (simp_all add: registry_inv_def range_inv_def)
  have "verified_ok s (tc_lease (sys_transport s ! k)) (tc_revision (sys_transport s ! k))"
    using reg k(1) by (simp add: registry_inv_def verified_inv_def)
  then have facts: "verifyCurrentBindingTx (sys_db s) (ls_binding (sys_lease s ! tc_lease (sys_transport s ! k))) = Inr ()"
      "tc_revision (sys_transport s ! k) = FormatInt (db_revision (sys_db s))"
    by (auto simp: verified_ok_def authorizationRevisionTx_def split: if_splits)
  have "tc_lease (sys_transport s ! k) \<notin> set (admitted_leases s)"
    using reg not_yet_admitted [OF _ k(4)] by (simp add: registry_inv_def)
  then have first: "tc_lease (sys_transport s ! k) \<notin> (\<lambda>admission. ec_lease (sys_candidates s ! fst admission)) ` set (sys_admitted s)"
      "tc_lease (sys_transport s ! k) \<notin> (\<lambda>k. tc_lease (sys_transport s ! k)) ` set (sys_transported s)"
    by (auto simp: admitted_leases_def admitted_lease_def transported_lease_def)
  have "\<not> tc_opaqueReleased (sys_transport s ! k)"
    using reg range(1) k(4) by (auto simp: registry_inv_def opaque_inv_def)
  with move_counts [OF assms(3) k(1) range(1) k(6)] k range facts first show ?thesis
    unfolding Let_def by (intro exI [of _ k]) simp
qed

subsection \<open>A run that admits\<close>

definition sample_member :: principal_row where
  "sample_member =
     \<lparr>pr_sequence = 1, pr_id = sample_id CHR ''P'', pr_displayName = ''agent'', pr_state = ''active'', pr_visibility = ''all'',
      pr_revision = 1, pr_credentialRevision = 1, pr_credentialID = Some (sample_id CHR ''A''), pr_verifier = Some (replicate 32 CHR ''0''),
      pr_fingerprint = Some ''0123456789abcdef'', pr_credentialAt = Some (FormatCanonical 0), pr_createdAt = FormatCanonical 0,
      pr_updatedAt = FormatCanonical 0\<rparr>"

definition member_db :: authority_db where
  "member_db = \<lparr>db_revision = 7, db_principals = [sample_member], db_grants = [sample_row]\<rparr>"

definition member_store :: "authority_state store" where
  "member_store =
     \<lparr>sto_owned = False, sto_latched = False,
      sto_data = \<lparr>st_db = member_db, st_defaults = [], st_principal_sequence = 1, st_grant_sequence = 1, st_audit = []\<rparr>\<rparr>"

definition sample_bearer :: string where
  "sample_bearer = AgentBearerPrefix @ base64_encode (byte_text (replicate 32 0))"

definition sample_request :: ResolvedVerification where
  "sample_request =
     \<lparr>rv_ReadOnlyHint = False, rv_Target = sample_target, rv_Arguments = ValueObject [], rv_ObservedAuthorizationRevision = []\<rparr>"

definition in_call :: "call \<Rightarrow> authority_sys \<Rightarrow> authority_sys" where
  "in_call call s = s\<lparr>sys_work := 1, sys_idle := False, sys_gate := True, sys_calls := {#call#}\<rparr>"

definition at_rest :: "authority_sys \<Rightarrow> bool" where
  "at_rest s \<longleftrightarrow> \<not> sys_draining s \<and> sys_work s = 0 \<and> sys_idle s \<and> \<not> sys_gate s \<and> sys_calls s = {#}"

lemma sample_fingerprint: "validFingerprint ''0123456789abcdef''"
  by code_simp

lemma member_scan:
  "slot_complete sample_member" "slot_present sample_member" "issued_between sample_member 0 0"
  by (simp_all add: slot_complete_def slot_present_def issued_between_def sample_member_def sample_fingerprint)

lemma member_authenticates: "authenticateBinding sample_digest (False, False, False) member_db sample_bearer = Inr (row_binding sample_member)"
proof -
  have "validVisibility ''all''" "validPrincipalState ''active''"
    by code_simp+
  then have "loadAuthenticationCandidates member_db = Inr [(row_binding sample_member, replicate 32 CHR ''0'')]"
    using member_scan by (simp add: loadAuthenticationCandidates_def member_db_def Let_def) (simp add: sample_member_def)
  with prepared_bearer_valid [of "replicate 32 0"] show ?thesis
    by (simp add: authenticateBinding_def sample_bearer_def agentVerifierForBearer_def sample_digest_def view_def)
qed

lemma member_verifies: "verifyCurrentBindingTx member_db (row_binding sample_member) = Inr ()"
proof -
  have "validVisibility ''all''" "validPrincipalState ''active''"
    by code_simp+
  then show ?thesis
    using member_scan by (simp add: verifyCurrentBindingTx_def member_db_def principal_by_id_def binding_principal) (simp add: sample_member_def)
qed

lemma member_evaluates:
  "\<exists>result. fst (evaluateTx (compileConstraint no_regex) no_regex member_db empty_cache (sample_id CHR ''P'') sample_target (ValueObject [])
     2000000000 False) = Inr result \<and> ar_Decision result = DecisionAllow \<and> ar_AuthorizationRevision result = FormatInt 7"
proof -
  have "is_ok (fst (evaluateTx (compileConstraint no_regex) no_regex member_db empty_cache (sample_id CHR ''P'') sample_target (ValueObject [])
     2000000000 False))"
    by (rule cached.evaluateTx_complete [OF sample_reachable(2) no_regex_programs])
      (simp_all add: loads_all_def row_cost_def member_db_def)
  then obtain result where run: "fst (evaluateTx (compileConstraint no_regex) no_regex member_db empty_cache (sample_id CHR ''P'') sample_target
     (ValueObject []) 2000000000 False) = Inr result"
    by (auto elim: is_okE)
  have "UpstreamName sample_target \<noteq> None" "db_grants member_db = [sample_row]" "db_revision member_db = 7"
    by (simp_all add: member_db_def)
  with cached.evaluateTx_sound [OF constraint_cache.inv_start [OF refl] _ run] run show ?thesis
    by (simp add: matching_ids_def sample_rows_match decision_spec_def)
qed

definition waiting_call :: "purpose \<Rightarrow> authority_sys \<Rightarrow> authority_sys" where
  "waiting_call p s = s\<lparr>sys_work := 1, sys_idle := False, sys_calls := {#Waiting p#}\<rparr>"

lemma take_call:
  assumes "at_rest s"
  shows "(authority_move rx sha256)\<^sup>*\<^sup>* (waiting_call p s) (in_call (Holding p) s)"
proof -
  have "authority_move rx sha256 (waiting_call p s) (in_call (Acquired p) s)"
    using Move_take [of "waiting_call p s" p "{#}"] assms by (simp add: waiting_call_def in_call_def at_rest_def)
  moreover have "authority_move rx sha256 (in_call (Acquired p) s) (in_call (Holding p) s)"
    using Move_enter [of "in_call (Acquired p) s" p "{#}"] assms by (simp add: in_call_def at_rest_def)
  ultimately show ?thesis
    by (meson converse_rtranclp_into_rtranclp r_into_rtranclp)
qed

lemma enter_call:
  assumes "at_rest s" and "\<And>affected tx. p = Mutating affected tx \<Longrightarrow> authority_operation affected tx"
    and "\<And>l i r. p = Evaluating l i r \<Longrightarrow> l < length (sys_lease s)"
    and "\<And>l i r. p = EvaluatingTransport l i r \<Longrightarrow> l < length (sys_lease s)" and "\<And>c. p \<noteq> Confirming c \<and> p \<noteq> ConfirmingTransport c"
  shows "(authority_move rx sha256)\<^sup>*\<^sup>* s (in_call (Holding p) s)"
proof -
  have "authority_move rx sha256 s (waiting_call p s)"
    using Move_reserve [of s _ p] assms by (simp add: reserveWork_def at_rest_def waiting_call_def)
  with take_call [OF assms(1)] show ?thesis
    by (meson converse_rtranclp_into_rtranclp)
qed

lemma leave_call: "at_rest s \<Longrightarrow> authority_move rx sha256 (in_call Finishing s) s"
proof -
  assume "at_rest s"
  then have "(releaseGate (in_call Finishing s))\<lparr>sys_calls := {#}\<rparr> = s"
    by (cases s) (simp add: releaseGate_def releaseWork_def in_call_def at_rest_def Let_def)
  moreover have "sys_calls (in_call Finishing s) = add_mset Finishing {#}"
    by (simp add: in_call_def)
  ultimately show ?thesis
    using Move_finish [of "in_call Finishing s" "{#}" rx sha256] by simp
qed

definition registered_sys :: authority_sys where
  "registered_sys = (newAuthorityRegistry member_store)\<lparr>
     sys_lease := [\<lparr>ls_binding = row_binding sample_member, ls_phase = leasePending, ls_closed = 0\<rparr>], sys_leases := [0]\<rparr>"

lemma sample_register: "(authority_move no_regex sample_digest)\<^sup>*\<^sup>* (newAuthorityRegistry member_store) registered_sys"
proof -
  let ?s = "newAuthorityRegistry member_store"
  have store: "sto_latched member_store = False" "st_db (sto_data member_store) = member_db"
    by (simp_all add: member_store_def)
  have "(authority_move no_regex sample_digest)\<^sup>*\<^sup>* ?s (in_call (Holding (Authenticating sample_bearer)) ?s)"
    by (rule enter_call) (simp_all add: at_rest_def)
  also have "authority_move no_regex sample_digest (in_call (Holding (Authenticating sample_bearer)) ?s) (in_call (BindingRead (row_binding sample_member)) ?s)"
    using Move_authenticate [of "in_call (Holding (Authenticating sample_bearer)) ?s" sample_bearer "{#}" sample_digest "row_binding sample_member"]
      member_authenticates store by (simp add: in_call_def)
  also have "authority_move no_regex sample_digest (in_call (BindingRead (row_binding sample_member)) ?s) (in_call Finishing registered_sys)"
    using Move_register [of "in_call (BindingRead (row_binding sample_member)) ?s" "row_binding sample_member" "{#}"
        "in_call (BindingRead (row_binding sample_member)) registered_sys"] store
    by (simp add: in_call_def lease_register_def registered_sys_def newAuthorityRegistry_def Let_def)
  also have "authority_move no_regex sample_digest (in_call Finishing registered_sys) registered_sys"
    by (rule leave_call) (simp add: registered_sys_def at_rest_def)
  finally show ?thesis .
qed

definition evaluated_sys :: "string option \<Rightarrow> bool \<Rightarrow> authority_sys" where
  "evaluated_sys grant used = registered_sys\<lparr>sys_candidates :=
     [\<lparr>ec_lease = 0, ec_invocationID = ''call'', ec_revision = FormatInt 7, ec_used = used,
       ec_basis = \<lparr>eb_request = sample_request, eb_at = 2000000000, eb_grant = grant\<rparr>\<rparr>]\<rparr>"

lemma registered_fields [simp]:
  "\<not> sys_draining registered_sys" "sys_store registered_sys = member_store" "at_rest registered_sys"
  "sys_lease registered_sys = [\<lparr>ls_binding = row_binding sample_member, ls_phase = leasePending, ls_closed = 0\<rparr>]"
  "sys_candidates registered_sys = []" "sys_admitted registered_sys = []" "sys_transport registered_sys = []"
  "sys_transported registered_sys = []" "sys_unnoticed registered_sys = []" "at_rest (evaluated_sys grant used)"
  by (simp_all add: registered_sys_def at_rest_def evaluated_sys_def)

lemma sample_evaluate:
  assumes result: "fst (evaluateTx (compileConstraint no_regex) no_regex member_db empty_cache (sample_id CHR ''P'') sample_target
      (ValueObject []) 2000000000 False) = Inr result" "ar_Decision result = DecisionAllow" "ar_AuthorizationRevision result = FormatInt 7"
  shows "fst (VerifyResolvedTx no_regex empty_cache (beginVerification False False leasePending) member_db (row_binding sample_member)
      sample_request 2000000000) = Inr result"
    and "(authority_move no_regex sample_digest)\<^sup>*\<^sup>* registered_sys (evaluated_sys (ar_GrantID result) False)"
proof -
  let ?s = "in_call (Holding (Evaluating 0 ''call'' (Some sample_request))) registered_sys"
  let ?t = "evaluated_sys (ar_GrantID result) False"
  have "\<not> sto_latched member_store" "st_db (sto_data member_store) = member_db" "cb_PrincipalID (row_binding sample_member) = sample_id CHR ''P''"
    by (simp_all add: member_store_def binding_principal) (simp add: sample_member_def)
  then show verified: "fst (VerifyResolvedTx no_regex empty_cache (beginVerification False False leasePending) member_db (row_binding sample_member)
      sample_request 2000000000) = Inr result"
    using result(1) member_verifies by (simp add: VerifyResolvedTx_def beginVerification_def sample_request_def
        validObservedAuthorizationRevision_def ToolName_def)
  have candidate: "evaluate_admission no_regex empty_cache False 2000000000 0 ''call'' (Some sample_request) ?s =
      Some (sys_candidates ?t ! 0)"
    using verified result(2,3) by (simp add: evaluate_admission_def in_call_def evaluated_sys_def member_store_def)
  have "(authority_move no_regex sample_digest)\<^sup>*\<^sup>* registered_sys ?s"
    by (rule enter_call) simp_all
  also have "authority_move no_regex sample_digest ?s (in_call Finishing ?t)"
    using Move_evaluate [of ?s 0 "''call''" "Some sample_request" "{#}" no_regex empty_cache, OF _ constraint_cache.inv_start [OF refl] candidate]
    by (simp add: in_call_def evaluated_sys_def registered_sys_def newAuthorityRegistry_def)
  also have "authority_move no_regex sample_digest (in_call Finishing ?t) ?t"
    by (rule leave_call) simp
  finally show "(authority_move no_regex sample_digest)\<^sup>*\<^sup>* registered_sys ?t" .
qed

lemma sample_confirm:
  assumes "(authority_move no_regex sample_digest)\<^sup>*\<^sup>* registered_sys (evaluated_sys grant False)"
  shows "\<exists>s t. (authority_move no_regex sample_digest)\<^sup>*\<^sup>* registered_sys s \<and> authority_move no_regex sample_digest s t \<and>
     sys_admitted s = [] \<and> sys_admitted t = [(0, admittedSubject (row_binding sample_member) (FormatInt 7))] \<and>
     sys_candidates s = sys_candidates (evaluated_sys grant True)"
proof -
  note assms
  also have "authority_move no_regex sample_digest (evaluated_sys grant False) (waiting_call (Confirming 0) (evaluated_sys grant True))"
    using Move_use [of 0 "''call''" "evaluated_sys grant False" "evaluated_sys grant True" "(evaluated_sys grant True)\<lparr>sys_work := 1, sys_idle := False\<rparr>"]
    by (simp add: use_candidate_def reserveWork_def waiting_call_def evaluated_sys_def registered_sys_def newAuthorityRegistry_def)
  also have "(authority_move no_regex sample_digest)\<^sup>*\<^sup>* (waiting_call (Confirming 0) (evaluated_sys grant True))
      (in_call (Holding (Confirming 0)) (evaluated_sys grant True))"
    by (rule take_call) simp
  also have "authority_move no_regex sample_digest (in_call (Holding (Confirming 0)) (evaluated_sys grant True))
      (in_call (Verified 0) (evaluated_sys grant True))"
    using Move_verify [of "in_call (Holding (Confirming 0)) (evaluated_sys grant True)" 0 "{#}"] member_verifies
    by (simp add: confirm_view_def view_def in_call_def evaluated_sys_def member_store_def authorizationRevisionTx_def member_db_def)
  finally have run: "(authority_move no_regex sample_digest)\<^sup>*\<^sup>* registered_sys (in_call (Verified 0) (evaluated_sys grant True))" .
  let ?s = "in_call (Verified 0) (evaluated_sys grant True)"
  obtain t where t: "confirm_commit 0 ?s = Some t" "sys_admitted t = [(0, admittedSubject (row_binding sample_member) (FormatInt 7))]"
    by (simp add: confirm_commit_def ConfirmHealthy_def lease_remove_def swap_phase_def in_call_def evaluated_sys_def member_store_def Let_def)
  from Move_confirm [of ?s 0 "{#}", OF _ t(1)] have "authority_move no_regex sample_digest ?s (t\<lparr>sys_calls := {#Finishing#}\<rparr>)"
    by (simp add: in_call_def)
  moreover have "sys_admitted ?s = []" "sys_candidates ?s = sys_candidates (evaluated_sys grant True)"
    by (simp_all add: in_call_def evaluated_sys_def)
  ultimately show ?thesis
    using run t(2) by (intro exI [of _ ?s] exI [of _ "t\<lparr>sys_calls := {#Finishing#}\<rparr>"]) simp
qed

lemma member_start: "registry_start (newAuthorityRegistry member_store)"
  by (simp add: registry_start_def member_store_def ids_ok_def member_db_def) (simp add: sample_member_def sample_id_def)

definition tunnel_sys :: "bool \<Rightarrow> authority_sys" where
  "tunnel_sys used = registered_sys\<lparr>sys_transport :=
     [\<lparr>tc_lease = 0, tc_id = ''tunnel'', tc_revision = FormatInt 7, tc_request = None, tc_material = None, tc_used = used,
       tc_opaqueOrigin = ''https://git.example:443'', tc_opaqueRegistered = False, tc_opaqueReleased = False\<rparr>]\<rparr>"

lemma tunnel_rest [simp]: "at_rest (tunnel_sys used)" "sys_store (tunnel_sys used) = member_store" "\<not> sys_draining (tunnel_sys used)"
  by (simp_all add: tunnel_sys_def registered_sys_def at_rest_def)

lemma sample_tunnel_evaluate: "(authority_move no_regex sample_digest)\<^sup>*\<^sup>* registered_sys (tunnel_sys False)"
proof -
  let ?s = "in_call (Holding (EvaluatingTransport 0 ''tunnel'' None)) registered_sys"
  have "validEvaluationTime 2000000000"
    by code_simp
  then have candidate: "evaluate_transport False 2000000000 0 ''tunnel'' None True None ''https://git.example:443'' ?s = Some (sys_transport (tunnel_sys False) ! 0)"
    using member_verifies by (simp add: evaluate_transport_def VerifyBindingOnlyTx_def beginVerification_def view_def in_call_def tunnel_sys_def
        member_store_def authorizationRevisionTx_def member_db_def)
  have "(authority_move no_regex sample_digest)\<^sup>*\<^sup>* registered_sys ?s"
    by (rule enter_call) simp_all
  also have "authority_move no_regex sample_digest ?s (in_call Finishing (tunnel_sys False))"
    using Move_evaluate_transport [of ?s 0 "''tunnel''" None "{#}", OF _ candidate]
    by (simp add: in_call_def tunnel_sys_def registered_sys_def newAuthorityRegistry_def)
  also have "authority_move no_regex sample_digest (in_call Finishing (tunnel_sys False)) (tunnel_sys False)"
    by (rule leave_call) simp
  finally show ?thesis .
qed

lemma sample_tunnel:
  "\<exists>s t. (authority_move no_regex sample_digest)\<^sup>*\<^sup>* registered_sys s \<and> authority_move no_regex sample_digest s t \<and>
     sys_transported s = [] \<and> sys_transported t = [0] \<and> sys_transport s = sys_transport (tunnel_sys True) \<and> sys_db s = member_db"
proof -
  let ?s = "in_call (VerifiedTransport 0) (tunnel_sys True)"
  note sample_tunnel_evaluate
  also have "authority_move no_regex sample_digest (tunnel_sys False) (waiting_call (ConfirmingTransport 0) (tunnel_sys True))"
    using Move_use_transport [of 0 "''tunnel''" None "tunnel_sys False" "tunnel_sys True" "(tunnel_sys True)\<lparr>sys_work := 1, sys_idle := False\<rparr>"]
    by (simp add: use_transport_def reserveWork_def waiting_call_def tunnel_sys_def registered_sys_def newAuthorityRegistry_def)
  also have "(authority_move no_regex sample_digest)\<^sup>*\<^sup>* (waiting_call (ConfirmingTransport 0) (tunnel_sys True))
      (in_call (Holding (ConfirmingTransport 0)) (tunnel_sys True))"
    by (rule take_call) simp
  also have "authority_move no_regex sample_digest (in_call (Holding (ConfirmingTransport 0)) (tunnel_sys True)) ?s"
    using Move_verify_transport [of "in_call (Holding (ConfirmingTransport 0)) (tunnel_sys True)" 0 "{#}"] member_verifies
    by (simp add: confirm_view_def view_def in_call_def tunnel_sys_def member_store_def authorizationRevisionTx_def member_db_def)
  finally have run: "(authority_move no_regex sample_digest)\<^sup>*\<^sup>* registered_sys ?s" .
  obtain t where t: "transport_commit False (Inr []) False 0 ?s = Some t" "sys_transported t = [0]"
    by (simp add: transport_commit_def transport_detach_def ConfirmHealthy_def lease_remove_def swap_phase_def in_call_def tunnel_sys_def
        member_store_def Let_def)
  from Move_confirm_transport [of ?s 0 "{#}", OF _ t(1)] have "authority_move no_regex sample_digest ?s (t\<lparr>sys_calls := {#Finishing#}\<rparr>)"
    by (simp add: in_call_def)
  moreover have "sys_transported ?s = []" "sys_transport ?s = sys_transport (tunnel_sys True)" "sys_db ?s = member_db"
    by (simp_all add: in_call_def tunnel_sys_def member_store_def)
  ultimately show ?thesis
    using run t(2) by (intro exI [of _ ?s] exI [of _ "t\<lparr>sys_calls := {#Finishing#}\<rparr>"]) simp
qed

theorem transport_admission_current_witness:
  "\<exists>s t. (authority_move no_regex sample_digest)\<^sup>*\<^sup>* (newAuthorityRegistry member_store) s \<and>
     authority_move no_regex sample_digest s t \<and> sys_transported t = [0] \<and>
     sys_opaque t ''https://git.example:443'' = sys_opaque s ''https://git.example:443'' + 1"
proof -
  obtain s t where s: "(authority_move no_regex sample_digest)\<^sup>*\<^sup>* registered_sys s" and step: "authority_move no_regex sample_digest s t"
      and transported: "sys_transported s = []" "sys_transported t = [0]" "sys_transport s = sys_transport (tunnel_sys True)"
    using sample_tunnel by blast
  note run = rtranclp_trans [OF sample_register s]
  have "sys_transported t \<noteq> sys_transported s"
    using transported by simp
  from transport_admission_current [OF member_start run step this]
  have "sys_opaque t ''https://git.example:443'' = sys_opaque s ''https://git.example:443'' + 1"
    unfolding Let_def by (auto simp: transported tunnel_sys_def)
  with run step transported(2) show ?thesis
    by blast
qed

theorem admission_current_witness:
  "\<exists>s t c. (authority_move no_regex sample_digest)\<^sup>*\<^sup>* (newAuthorityRegistry member_store) s \<and>
     authority_move no_regex sample_digest s t \<and> map fst (sys_admitted t) = [c] \<and>
     verifyCurrentBindingTx (sys_db s) (ls_binding (sys_lease s ! ec_lease (sys_candidates s ! c))) = Inr ()"
proof -
  obtain s t where "(authority_move no_regex sample_digest)\<^sup>*\<^sup>* registered_sys s" and step: "authority_move no_regex sample_digest s t"
      and admitted: "sys_admitted s = []" "length (sys_admitted t) = 1"
    using member_evaluates sample_evaluate(2) sample_confirm by fastforce
  then have run: "(authority_move no_regex sample_digest)\<^sup>*\<^sup>* (newAuthorityRegistry member_store) s" "authority_move no_regex sample_digest s t"
    using rtranclp_trans [OF sample_register] step by simp_all
  have "sys_admitted t \<noteq> sys_admitted s"
    using admitted by auto
  from admission_current [OF member_start run this] run admitted show ?thesis
    unfolding Let_def by force
qed

theorem registry_guarantees_witness:
  "\<exists>s. (authority_move no_regex sample_digest)\<^sup>*\<^sup>* (newAuthorityRegistry member_store) s \<and>
     sys_phase s 0 = leasePending \<and> current_binding (sys_db s) (row_binding sample_member) \<and> sys_work s \<le> 32"
proof -
  have "\<not> awaits_cancel registered_sys 0" "sys_calls registered_sys = {#}"
    by (simp_all add: registered_sys_def awaits_cancel_def)
  with registry_guarantees [OF member_start sample_register] show ?thesis
    by (intro exI [of _ registered_sys]) (simp add: sample_register)
qed

end
