(* ===== verification/Request_Steps.thy ===== *)
theory Request_Steps
  imports Request_Transitions
begin

text \<open>
  Stored requests that satisfy the invariant pass the check at start-up, and the operations of the gateway as steps on its
  store: each keeps the invariant, and each either leaves a request alone or settles it once.
\<close>

subsection \<open>The start-up check accepts\<close>

lemma sort_strict:
  fixes f :: "'a \<Rightarrow> 'k :: linorder"
  assumes "sorted_wrt (<) (map f xs)"
  shows "sort_key f (sort_key g xs) = xs"
proof -
  have "distinct (map f xs)" and "sorted (map f xs)"
    using assms by (simp_all add: strict_sorted_iff)
  then have "sort_key f (sort_key g xs) = sort_key f xs"
    by (intro sort_key_cong_perm [symmetric]) simp_all
  with \<open>sorted (map f xs)\<close> show ?thesis
    by (simp add: sort_key_id_if_sorted)
qed

definition request_of :: "regex_lib \<Rightarrow> request_row \<Rightarrow> AgentGrantRequest" where
  "request_of rx row = snd (projr (scanAgentRequest rx row))"

definition reads :: "regex_lib \<Rightarrow> request_row \<Rightarrow> bool" where
  "reads rx row \<longleftrightarrow> scanAgentRequest rx row = Inr (rq_sequence row, request_of rx row)"

lemma request_row_reads:
  assumes "request_row_ok rx stored row"
  shows "reads rx row" and "\<exists>namespace. si_namespace stored (rq_server row) = Some namespace \<and>
    validateStartupRequest rx stored (request_of rx row) row namespace"
  using assms by (auto simp: request_row_ok_def reads_def request_of_def)

lemma load_startup:
  assumes "\<forall>row \<in> set rows. reads rx row" and "sorted_wrt (<) (map rq_sequence rows)" and "\<forall>row \<in> set rows. previous < rq_sequence row"
    and "distinct (map rq_id rows)" and "rq_id ` set rows \<inter> fst ` set safe = {}"
    and "int (length safe) + int (length rows) \<le> mustLimit ''grant_requests''"
  shows "\<exists>safe'. loadSafeStartupRequests rx previous safe rows = Some safe' \<and> length safe' = length safe + length rows \<and>
    (\<forall>row \<in> set rows. map_of safe' (rq_id row) = Some (request_of rx row, rq_sequence row)) \<and>
    (\<forall>i. i \<notin> rq_id ` set rows \<longrightarrow> map_of safe' i = map_of safe i)"
  using assms
proof (induction rows arbitrary: previous safe)
  case (Cons row rows)
  have read: "scanAgentRequest rx row = Inr (rq_sequence row, request_of rx row)"
    using Cons.prems(1) by (simp add: reads_def)
  let ?safe = "(rq_id row, request_of rx row, rq_sequence row) # safe"
  have put: "put (agr_ID (request_of rx row)) (request_of rx row, rq_sequence row) safe = ?safe"
    using Cons.prems(5) scan_facts(9) [OF read] by (auto simp: put_def filter_id_conv image_iff)
  have "loadSafeStartupRequests rx previous safe (row # rows) = loadSafeStartupRequests rx (rq_sequence row) ?safe rows"
    using Cons.prems(3,6) by (simp add: read put)
  moreover have "\<exists>safe'. loadSafeStartupRequests rx (rq_sequence row) ?safe rows = Some safe' \<and> length safe' = length ?safe + length rows \<and>
      (\<forall>row \<in> set rows. map_of safe' (rq_id row) = Some (request_of rx row, rq_sequence row)) \<and>
      (\<forall>i. i \<notin> rq_id ` set rows \<longrightarrow> map_of safe' i = map_of ?safe i)"
    by (rule Cons.IH) (use Cons.prems in auto)
  ultimately show ?case
    using Cons.prems(4) by auto
qed simp

lemma pending_state:
  assumes "reads rx row"
  shows "agr_State (request_of rx row) = RequestPending \<longleftrightarrow> pending_row row"
proof
  show "pending_row row" if "agr_State (request_of rx row) = RequestPending"
  proof (rule ccontr)
    assume "\<not> pending_row row"
    moreover have "ParseGrantRequestState (rq_state row) = Some RequestPending"
      using scan_facts(5) [OF assms [unfolded reads_def]] that by simp
    ultimately show False
      unfolding ParseGrantRequestState_def by (simp only: grant_request_state.parse_complete_iff)
  qed
qed (rule pending_facts(1) [OF _ assms [unfolded reads_def]])

lemma startup_accepts:
  assumes "\<forall>row \<in> set rows. request_row_ok rx stored row \<and> map_of safe (rq_id row) = Some (request_of rx row, rq_sequence row) \<and>
      map_of identities (rq_id row) = Some (rq_createdAt row)"
    and "seen + int (length rows) \<le> mustLimit ''grant_requests''"
    and "\<forall>p. int (count_list pending p) + pending_of p rows \<le> mustLimit ''pending_grant_requests_per_principal''"
    and "evidence + sum_list (map row_evidence rows) \<le> mustLimit ''grant_request_evidence_bytes''"
  shows "startup_rows rx stored identities safe seen pending evidence rows =
    Some (seen + int (length rows), evidence + sum_list (map row_evidence rows))"
  using assms
proof (induction rows arbitrary: seen pending evidence)
  case (Cons row rows)
  have ok: "request_row_ok rx stored row" and known: "map_of safe (rq_id row) = Some (request_of rx row, rq_sequence row)"
      "map_of identities (rq_id row) = Some (rq_createdAt row)"
    using Cons.prems(1) by simp_all
  note read = request_row_reads [OF ok]
  have "startup_row_ok rx stored identities safe row = Some (request_of rx row)"
    using read(2) ok scan_facts(2) [OF read(1) [unfolded reads_def]]
    by (auto simp: startup_row_ok_def known request_row_ok_def)
  moreover define pending' where "pending' = (if agr_State (request_of rx row) = RequestPending then rq_principal row # pending else pending)"
  moreover have counts: "int (count_list pending' p) + pending_of p rows = int (count_list pending p) + pending_of p (row # rows)" for p
    unfolding pending'_def pending_of_def pending_state [OF read(1)] by simp
  moreover have "0 \<le> pending_of p rows" for p
    by (simp add: pending_of_def)
  moreover have "int (count_list pending' (rq_principal row)) \<le> mustLimit ''pending_grant_requests_per_principal''"
    using Cons.prems(3) [rule_format, of "rq_principal row"] counts [of "rq_principal row"] calculation(4) [of "rq_principal row"] by linarith
  moreover have "evidence + row_evidence row \<le> mustLimit ''grant_request_evidence_bytes''"
    using Cons.prems(4) evidence_nonneg [of rows] by simp
  moreover have "startup_rows rx stored identities safe (seen + 1) pending' (evidence + row_evidence row) rows =
      Some (seen + 1 + int (length rows), evidence + row_evidence row + sum_list (map row_evidence rows))"
    by (rule Cons.IH) (use Cons.prems counts in auto)
  ultimately show ?case
    using Cons.prems(2) by (simp add: Let_def)
qed simp

lemma requests_start:
  assumes "requests_ok rx stored tables"
  shows "ValidateStartup rx stored tables = Inr ()"
proof -
  note ok = assms [unfolded requests_ok_def rows_ok_def]
  let ?rows = "rt_rows tables"
  have "int (length ?rows) \<le> mustLimit ''grant_requests''"
    using ok by (simp add: New_capacity_def)
  then have rows: "take (nat (mustLimit ''grant_requests'' + 1)) (sort_key rq_sequence (sort_key rq_id ?rows)) = ?rows"
    using ok by (simp add: sort_strict)
  have "\<forall>row \<in> set ?rows. reads rx row"
    using ok request_row_reads(1) by blast
  moreover have "\<forall>row \<in> set ?rows. 0 < rq_sequence row"
    using ok by (auto simp: request_row_ok_def scanAgentRequest_def split: if_splits)
  ultimately obtain safe where safe: "loadSafeStartupRequests rx 0 [] ?rows = Some safe" "length safe = length ?rows"
      "\<forall>row \<in> set ?rows. map_of safe (rq_id row) = Some (request_of rx row, rq_sequence row)"
    using load_startup [of ?rows rx 0 "[]"] ok by (auto simp: New_capacity_def)
  have "startup_rows rx stored (rt_identities tables) safe 0 [] 0 ?rows = Some (0 + int (length ?rows), 0 + sum_list (map row_evidence ?rows))"
    by (rule startup_accepts) (use ok safe in \<open>auto simp: New_capacity_def\<close>)
  then show ?thesis
    unfolding ValidateStartup_def Let_def rows using ok safe by simp
qed

subsection \<open>How requests evolve\<close>

text \<open>A later version of a row: the same, or the closed version of a pending one, with the submitted columns kept.\<close>

definition later_row :: "request_row \<Rightarrow> request_row \<Rightarrow> bool" where
  "later_row row row' \<longleftrightarrow> row' = row \<or> pending_row row \<and> \<not> pending_row row' \<and> submitted_columns row' = submitted_columns row"

text \<open>Identifiers once given stay given, and a row under a given identifier is a later version of the row that had it.\<close>

definition evolves :: "request_tables \<Rightarrow> request_tables \<Rightarrow> bool" where
  "evolves tables tables' \<longleftrightarrow>
     set (rt_identities tables) \<subseteq> set (rt_identities tables') \<and>
     (\<forall>row' \<in> set (rt_rows tables'). rq_id row' \<in> fst ` set (rt_identities tables) \<longrightarrow> (\<exists>row \<in> set (rt_rows tables). later_row row row'))"

definition keeps_pending :: "request_tables \<Rightarrow> request_tables \<Rightarrow> bool" where
  "keeps_pending tables tables' \<longleftrightarrow> (\<forall>row \<in> set (rt_rows tables). pending_row row \<longrightarrow> (\<exists>row' \<in> set (rt_rows tables'). later_row row row'))"

definition sound_change :: "regex_lib \<Rightarrow> stored_inspectors \<Rightarrow> request_tables \<Rightarrow> request_tables \<Rightarrow> bool" where
  "sound_change rx stored tables tables' \<longleftrightarrow> requests_ok rx stored tables' \<and> evolves tables tables' \<and> keeps_pending tables tables'"

lemma later_row_refl [simp]: "later_row row row"
  by (simp add: later_row_def)

lemma later_row_id: "later_row row row' \<Longrightarrow> rq_id row' = rq_id row"
  by (auto simp: later_row_def submitted_columns_def)

lemma later_row_trans: "later_row row row' \<Longrightarrow> later_row row' row'' \<Longrightarrow> later_row row row''"
  unfolding later_row_def by blast

lemma evolves_refl [simp]: "evolves tables tables" and keeps_pending_refl [simp]: "keeps_pending tables tables"
  by (auto simp: evolves_def keeps_pending_def intro: later_row_refl)

lemma evolves_trans:
  assumes "evolves a b" and "evolves b c"
  shows "evolves a c"
  unfolding evolves_def
proof (intro conjI ballI impI)
  show "set (rt_identities a) \<subseteq> set (rt_identities c)"
    using assms by (auto simp: evolves_def)
  fix row''
  assume row'': "row'' \<in> set (rt_rows c)" "rq_id row'' \<in> fst ` set (rt_identities a)"
  with assms obtain row' where row': "row' \<in> set (rt_rows b)" "later_row row' row''"
    unfolding evolves_def by blast
  with assms(1) row''(2) later_row_id obtain row where "row \<in> set (rt_rows a)" "later_row row row'"
    unfolding evolves_def by metis
  with row'(2) show "\<exists>row \<in> set (rt_rows a). later_row row row''"
    using later_row_trans by blast
qed

lemma settles_evolves:
  assumes "settles rx requestID request row row' tables tables'"
  shows "evolves tables tables'" and "keeps_pending tables tables'"
proof -
  have rows: "rt_rows tables' = map (\<lambda>r. if r = row then row' else r) (rt_rows tables)"
      and same: "rt_identities tables' = rt_identities tables" and "row \<in> set (rt_rows tables)" and "later_row row row'"
    using assms unfolding settles_def later_row_def by blast+
  then show "evolves tables tables'"
    unfolding evolves_def rows same by (auto intro: later_row_refl split: if_splits)
  have "\<exists>r' \<in> set (rt_rows tables'). later_row r r'" if "r \<in> set (rt_rows tables)" for r
    using that \<open>later_row row row'\<close> unfolding rows by (intro bexI [of _ "if r = row then row' else r"]) auto
  then show "keeps_pending tables tables'"
    by (simp add: keeps_pending_def)
qed

lemma create_evolves:
  assumes "create_request_tx rx inspect New_capacity p policy target now entropy gs = Inr (r, gs')" and "requests_ok rx stored (gs_requests gs)"
  shows "evolves (gs_requests gs) (gs_requests gs')" and "keeps_pending (gs_requests gs) (gs_requests gs')"
proof -
  obtain resolved identity evidence timestamp where
      "create_insert New_capacity p policy resolved identity evidence timestamp now entropy gs = Inr (r, gs')"
    using create_request_tx_Inr [OF assms(1)] by blast
  then obtain tables i tables' where t: "ensureRequestCapacity New_capacity p (int (length evidence)) (gs_requests gs) = Inr tables"
      "i \<notin> fst ` set (rt_identities tables)" "gs' = gs\<lparr>gs_requests := tables'\<rparr>"
      "insertPendingRequest i p policy resolved identity evidence timestamp (tables\<lparr>rt_identities := rt_identities tables @ [(i, timestamp)]\<rparr>) = Some tables'"
    using create_insert_Inr by blast
  obtain keep where keep: "\<forall>row \<in> set (rt_rows (gs_requests gs)). keep row \<or> \<not> pending_row row"
      "rt_rows tables = filter keep (rt_rows (gs_requests gs))" "rt_identities tables = rt_identities (gs_requests gs)"
    using ensure_room [OF t(1) assms(2)] unfolding room_for_def by auto
  let ?row = "pending_request_row (rt_sequence tables + 1) i p policy resolved identity evidence timestamp"
  have row: "rq_id ?row = i" "rt_rows tables' = rt_rows tables @ [?row]" "rt_identities tables' = rt_identities tables @ [(i, timestamp)]"
    using t(4) by (auto simp: insertPendingRequest_def Let_def split: if_splits)
  show "evolves (gs_requests gs) (gs_requests gs')"
    unfolding evolves_def t(3) using row keep(2,3) t(2) by (auto intro: later_row_refl)
  show "keeps_pending (gs_requests gs) (gs_requests gs')"
    unfolding keeps_pending_def t(3) using row keep by (auto intro: later_row_refl)
qed

subsection \<open>Steps\<close>

inductive request_step :: "regex_lib \<Rightarrow> stored_inspectors \<Rightarrow> gateway_state store \<Rightarrow> gateway_state store \<Rightarrow> bool" for rx stored where
  Do_Create:
    "CreateOrExisting rx inspect New_capacity dr principalID requested now entropy store = (rc, store') \<Longrightarrow> sources_ok stored inspect \<Longrightarrow>
     si_principal stored principalID \<Longrightarrow> request_step rx stored store store'"
| Do_Cancel:
    "CancelOwned rx dr principalID requestID now store = (rn, store') \<Longrightarrow> request_step rx stored store store'"
| Do_Reject:
    "Reject audit rx dr rejection now store = (rj, store') \<Longrightarrow> request_step rx stored store store'"
| Do_Approve:
    "Approve audit rx latches cache readable inspect dr gate approval now entropy store = (ra, store') \<Longrightarrow> sources_ok stored inspect \<Longrightarrow>
     request_step rx stored store store'"
| Do_Other:
    "gs_requests (sto_data store') = gs_requests (sto_data store) \<Longrightarrow> request_step rx stored store store'"

lemma mutate_change:
  assumes "mutate dr failure callback store = (r, store')" and "requests_ok rx stored (gs_requests (sto_data store))"
    and "\<And>x gs'. callback (sto_data store) = Inr (x, gs') \<Longrightarrow> sound_change rx stored (gs_requests (sto_data store)) (gs_requests gs')"
  shows "sound_change rx stored (gs_requests (sto_data store)) (gs_requests (sto_data store'))"
proof -
  have "sto_data store' = sto_data store \<or> (\<exists>x. callback (sto_data store) = Inr (x, sto_data store'))"
    using mutate_data [of dr failure callback store] assms(1) by simp
  then show ?thesis
    using assms(2,3) by (auto simp: sound_change_def)
qed

lemma create_sound:
  assumes "CreateOrExisting rx inspect New_capacity dr p requested now entropy store = (r, store')" and "sources_ok stored inspect"
    and "si_principal stored p" and "requests_ok rx stored (gs_requests (sto_data store))"
  shows "sound_change rx stored (gs_requests (sto_data store)) (gs_requests (sto_data store'))"
proof -
  consider "store' = store" | policy target where "validOpaqueID p" "CompilePolicy rx requested = Inr policy" "normalizePolicyTarget policy = Some target"
      "\<exists>x. mutate dr (\<lambda>_. False) (create_request_tx rx inspect New_capacity p policy target now entropy) store = (x, store')"
    using assms(1) unfolding CreateOrExisting_def Let_def by (auto split: if_splits sum.splits option.splits prod.splits)
  then show ?thesis
  proof cases
    case 1
    then show ?thesis using assms(4) by (simp add: sound_change_def)
  next
    case 2
    then obtain x where m: "mutate dr (\<lambda>_. False) (create_request_tx rx inspect New_capacity p policy target now entropy) store = (x, store')"
      by blast
    show ?thesis
      using create_keeps [OF _ 2(2,3) assms(2) 2(1) assms(3,4)] create_evolves [OF _ assms(4)]
      by (intro mutate_change [OF m assms(4)]) (simp add: sound_change_def)
  qed
qed

lemma cancel_sound:
  assumes "CancelOwned rx dr principalID requestID now store = (r, store')" and "requests_ok rx stored (gs_requests (sto_data store))"
  shows "sound_change rx stored (gs_requests (sto_data store)) (gs_requests (sto_data store'))"
proof -
  consider "store' = store" | "\<exists>x. mutate dr lifecycle_storage (cancel_request_tx rx principalID requestID now) store = (x, store')"
    using assms(1) unfolding CancelOwned_def Let_def by (auto split: if_splits sum.splits prod.splits)
  then show ?thesis
  proof cases
    case 1
    then show ?thesis using assms(2) by (simp add: sound_change_def)
  next
    case 2
    then obtain x where m: "mutate dr lifecycle_storage (cancel_request_tx rx principalID requestID now) store = (x, store')"
      by blast
    show ?thesis
    proof (rule mutate_change [OF m assms(2)])
      fix x gs'
      assume tx: "cancel_request_tx rx principalID requestID now (sto_data store) = Inr (x, gs')"
      show "sound_change rx stored (gs_requests (sto_data store)) (gs_requests gs')"
        by (rule cancel_settles [OF tx requests_ids [OF assms(2)]])
          (use cancel_keeps [OF tx assms(2)] settles_evolves in \<open>auto simp: sound_change_def\<close>)
    qed
  qed
qed

lemma reject_sound:
  assumes "Reject audit rx dr request now store = (r, store')" and "requests_ok rx stored (gs_requests (sto_data store))"
  shows "sound_change rx stored (gs_requests (sto_data store)) (gs_requests (sto_data store'))"
proof -
  consider "store' = store" | "\<exists>x. mutate dr lifecycle_storage (reject_request_tx audit rx request now) store = (x, store')"
    using assms(1) unfolding Reject_def by (auto split: if_splits sum.splits prod.splits)
  then show ?thesis
  proof cases
    case 1
    then show ?thesis using assms(2) by (simp add: sound_change_def)
  next
    case 2
    then obtain x where m: "mutate dr lifecycle_storage (reject_request_tx audit rx request now) store = (x, store')"
      by blast
    show ?thesis
    proof (rule mutate_change [OF m assms(2)])
      fix x gs'
      assume tx: "reject_request_tx audit rx request now (sto_data store) = Inr (x, gs')"
      show "sound_change rx stored (gs_requests (sto_data store)) (gs_requests gs')"
        by (rule reject_settles [OF tx requests_ids [OF assms(2)]])
          (use reject_keeps [OF tx assms(2)] settles_evolves in \<open>auto simp: sound_change_def\<close>)
    qed
  qed
qed

lemma Approve_Inr:
  assumes "Approve audit rx latches cache readable inspect dr gate request now entropy store = (r, store')"
  shows "store' = store \<and> (\<exists>e. r = Inl e) \<or>
    (\<exists>approved x. CompilePolicy rx (apr_ApprovedPolicy request) = Inr approved \<and>
       mutate dr isStorageFailure (approve_request_tx audit rx latches cache readable inspect request approved now entropy) store = (x, store') \<and>
       (\<forall>y. r = Inr y \<longrightarrow> x = Inr y))"
  using assms unfolding Approve_def ApproveGrantRequest_def by (auto split: if_splits sum.splits option.splits prod.splits)

lemma approve_sound:
  assumes "Approve audit rx latches cache readable inspect dr gate request now entropy store = (r, store')" and "sources_ok stored inspect"
    and "requests_ok rx stored (gs_requests (sto_data store))"
  shows "sound_change rx stored (gs_requests (sto_data store)) (gs_requests (sto_data store'))"
  using Approve_Inr [OF assms(1)]
proof (elim disjE exE conjE)
  fix approved x
  assume cp: "CompilePolicy rx (apr_ApprovedPolicy request) = Inr approved"
    and m: "mutate dr isStorageFailure (approve_request_tx audit rx latches cache readable inspect request approved now entropy) store = (x, store')"
  show ?thesis
  proof (rule mutate_change [OF m assms(3)])
    fix y gs'
    assume "approve_request_tx audit rx latches cache readable inspect request approved now entropy (sto_data store) = Inr (y, gs')"
    then have tx: "approve_request_tx audit rx latches cache readable inspect request approved now entropy (sto_data store) = Inr ((fst y, snd y), gs')"
      by simp
    show "sound_change rx stored (gs_requests (sto_data store)) (gs_requests gs')"
      by (rule approve_settles [OF tx requests_ids [OF assms(3)]])
        (use approve_keeps [OF tx cp assms(2,3)] settles_evolves in \<open>auto simp: sound_change_def\<close>)
  qed
qed (use assms(3) in \<open>simp add: sound_change_def\<close>)

lemma request_step_sound:
  assumes "request_step rx stored store store'" and "requests_ok rx stored (gs_requests (sto_data store))"
  shows "sound_change rx stored (gs_requests (sto_data store)) (gs_requests (sto_data store'))"
  using assms
proof (induction rule: request_step.induct)
  case (Do_Other store' store)
  then show ?case by (simp add: sound_change_def)
qed (blast intro: create_sound cancel_sound reject_sound approve_sound)+

definition no_requests :: request_tables where
  "no_requests = \<lparr>rt_rows = [], rt_identities = [], rt_sequence = 0, rt_evidence = 0\<rparr>"

interpretation requests: step_invariant "\<lambda>store. gs_requests (sto_data store) = no_requests" "request_step rx stored"
  "\<lambda>store. requests_ok rx stored (gs_requests (sto_data store))"
proof unfold_locales
  show "requests_ok rx stored (gs_requests (sto_data store))" if "gs_requests (sto_data store) = no_requests" for store
    unfolding that by (simp add: requests_ok_def rows_ok_def no_requests_def validateRequestIdentities_def pending_of_def New_capacity_def)
qed (use request_step_sound in \<open>auto simp: sound_change_def\<close>)

lemma requests_evolve:
  assumes "(request_step rx stored)\<^sup>*\<^sup>* store store'" and "requests_ok rx stored (gs_requests (sto_data store))"
  shows "evolves (gs_requests (sto_data store)) (gs_requests (sto_data store'))"
  using assms
proof (induction rule: rtranclp_induct)
  case (step b c)
  moreover have "requests_ok rx stored (gs_requests (sto_data b))"
    by (rule requests.inv_steps [OF step.hyps(1) step.prems])
  ultimately show ?case
    using request_step_sound evolves_trans unfolding sound_change_def by blast
qed simp

end
