(* ===== verification/Request_Properties.thy ===== *)
theory Request_Properties
  imports Request_Steps Auth_Properties Authority_Properties Request_Dedupe
begin

text \<open>
  What grant requests guarantee: the stored requests always pass the check at start-up, a request settles once, and an approval
  makes exactly one grant, for no more than the agent asked for.
\<close>

subsection \<open>The grant of an approval\<close>

lemma long_number: "10 ^ k \<le> n \<Longrightarrow> k < length (FormatUint n)"
proof (induction k arbitrary: n)
  case 0
  show ?case by (subst FormatUint.simps) simp
next
  case (Suc k)
  then have big: "10 * 10 ^ k \<le> n"
    by simp
  then have "10 ^ k \<le> n div 10"
    using div_le_mono [of "10 * 10 ^ k" n 10] by simp
  moreover have "(1 :: nat) \<le> 10 ^ k"
    by simp
  then have "\<not> n < 10"
    using big by linarith
  ultimately have "10 ^ k \<le> n div 10" "\<not> n < 10"
    by simp_all
  with Suc.IH [of "n div 10"] show ?case
    by (subst FormatUint.simps) simp
qed

lemma ParseCanonical_same:
  assumes "ParseCanonical (FormatCanonical t) = Some u"
  shows "u = t" and "canonicalTimestamp (FormatCanonical t) = Some t"
proof -
  have length: "length (FormatCanonical t) = 30"
    using assms by (auto simp: ParseCanonical_def split: if_splits)
  have range: "0 \<le> Year t \<and> Year t < 10000"
  proof (rule ccontr)
    assume "\<not> (0 \<le> Year t \<and> Year t < 10000)"
    then have "5 \<le> length (year_text (Year t))"
      using long_number [of 4 "nat (Year t)"] long_number [of 4 "nat (- Year t)"] by (auto simp: year_text_def le_nat_iff)
    with length show False
      by (simp add: FormatCanonical_def civil_text_def Year_def)
  qed
  then show "canonicalTimestamp (FormatCanonical t) = Some t"
    by (simp add: canonicalTimestamp_Format)
  with assms show "u = t"
    by (auto simp: canonicalTimestamp_def split: if_splits)
qed

lemma material_Inr:
  assumes "validateApprovalGrantMaterial rx material = Inr constraintJSON"
  shows "validOpaqueID (am_PrincipalID material)" and "validOpaqueID (ServerID (am_Target material))"
    and "pred_option validUpstreamName (UpstreamName (am_Target material))"
    and "UpstreamName (am_Target material) = None \<longrightarrow> am_Constraint material = None"
    and "am_ReadOnly material \<longrightarrow> UpstreamName (am_Target material) = None \<and> am_Constraint material = None"
    and "pred_option (\<lambda>seconds. 0 < seconds) (am_DurationSeconds material)" and "constraintJSON = am_Constraint material"
proof -
  have guard: "validOpaqueID (am_PrincipalID material)" "validOpaqueID (ServerID (am_Target material))"
      "pred_option validUpstreamName (UpstreamName (am_Target material))"
      "UpstreamName (am_Target material) = None \<longrightarrow> am_Constraint material = None"
      "am_ReadOnly material \<longrightarrow> UpstreamName (am_Target material) = None \<and> am_Constraint material = None"
      "pred_option (\<lambda>seconds. GrantRequestDurationMinimumSeconds \<le> seconds \<and> seconds \<le> GrantRequestDurationMaximumSeconds) (am_DurationSeconds material)"
      "(case am_Constraint material of None \<Rightarrow> Inr None
        | Some source \<Rightarrow> (case CompileConstraint rx source of Inl _ \<Rightarrow> Inl (TxError ErrInvalidState) | Inr compiled \<Rightarrow> Inr (Some (kc_raw compiled)))) = Inr constraintJSON"
    using assms unfolding validateApprovalGrantMaterial_def Let_def by (auto split: if_splits)
  have "constraintJSON = am_Constraint material"
    using guard(7) by (auto dest!: CompileConstraint_wf split: option.splits sum.splits)
  moreover have "pred_option (\<lambda>seconds. 0 < seconds) (am_DurationSeconds material)"
    using guard(6) by (cases "am_DurationSeconds material") (simp_all add: GrantRequestDurationMinimumSeconds_def)
  ultimately show "validOpaqueID (am_PrincipalID material)" "validOpaqueID (ServerID (am_Target material))"
    "pred_option validUpstreamName (UpstreamName (am_Target material))"
    "UpstreamName (am_Target material) = None \<longrightarrow> am_Constraint material = None"
    "am_ReadOnly material \<longrightarrow> UpstreamName (am_Target material) = None \<and> am_Constraint material = None"
    "pred_option (\<lambda>seconds. 0 < seconds) (am_DurationSeconds material)" "constraintJSON = am_Constraint material"
    using guard by simp_all
qed

text \<open>The grant is read back as the approved policy on its target, expiring a duration after the approval.\<close>

lemma approval_grant_load:
  assumes "validateApprovalGrantMaterial rx material = Inr constraintJSON" and "CompilePolicy rx policy = Inr approved"
    and "am_ReadOnly material = gp_ReadOnly policy" and "am_Constraint material = gp_Constraint policy"
    and "am_DurationSeconds material = policy_duration approved" and "validOpaqueID grantID"
    and "canonicalTimestamp (FormatCanonical now) = Some now"
    and "grant_state now (row_expires (approval_grant material constraintJSON grantID now)) = Inr state"
  shows "pure_load rx ((approval_grant material constraintJSON grantID now)\<lparr>row_sequence := n\<rparr>) =
    Inr \<lparr>eg_readOnly = gp_ReadOnly policy, eg_id = grantID, eg_effect = GrantEffect_string GrantAllow, eg_target = am_Target material,
         eg_constraint = cp_constraint approved, eg_expiresAt = ExpiresAt approved now\<rparr>"
proof -
  let ?row = "(approval_grant material constraintJSON grantID now)\<lparr>row_sequence := n\<rparr>"
  note m = material_Inr [OF assms(1)]
  have target: "row_target ?row = am_Target material"
    by (simp add: row_target_def approval_grant_def)
  have "\<not> row_malformed ?row"
    using m assms(6) unfolding row_malformed_def target
    by (cases "UpstreamName (am_Target material)") (simp_all add: approval_grant_def validGrantEffect_def ToolName_def)
  moreover have "load_expiry ?row now = Inr (ExpiresAt approved now)"
  proof (cases "am_DurationSeconds material")
    case None
    then have "\<not> cp_durationSecondsValid approved"
      using assms(5) by (auto simp: policy_duration_def split: if_splits)
    with None show ?thesis
      by (simp add: load_expiry_def approval_grant_def ExpiresAt_def)
  next
    case (Some seconds)
    then have seconds: "cp_durationSecondsValid approved" "seconds = cp_durationSeconds approved" "0 < seconds"
      using assms(5) m(6) by (auto simp: policy_duration_def split: if_splits)
    have "canonicalTimestamp (FormatCanonical (now + seconds * 1000000000)) = Some (now + seconds * 1000000000)"
      using assms(8) Some ParseCanonical_same(2) by (auto simp: approval_grant_def grant_state_def split: option.splits)
    with seconds Some show ?thesis
      by (simp add: load_expiry_def approval_grant_def ExpiresAt_def)
  qed
  moreover have "(case gp_Constraint policy of None \<Rightarrow> cp_constraint approved = None
      | Some source \<Rightarrow> \<exists>k. CompileConstraint rx source = Inr k \<and> cp_constraint approved = Some k)"
    using CompilePolicy_facts(3,4) [OF assms(2)] by (cases "cp_constraint approved") (auto split: option.splits)
  ultimately show ?thesis
    using m(7) assms(3,4,7) target
    unfolding pure_load_def loadEvaluationGrant_def load_finish_def
    by (auto simp: approval_grant_def split: option.splits)
qed

lemma approval_grant_permits:
  assumes "pure_load rx row = Inr \<lparr>eg_readOnly = gp_ReadOnly policy, eg_id = grantID, eg_effect = GrantEffect_string GrantAllow,
      eg_target = target, eg_constraint = cp_constraint approved, eg_expiresAt = ExpiresAt approved now\<rparr>"
    and "cp_value approved = policy"
  shows "row_matches rx call at arguments hint GrantAllow row \<longleftrightarrow> policy_permits rx approved target now call arguments hint at"
  using assms by (auto simp: row_matches_def policy_permits_def grant_applies_def expired_def split: option.splits)

lemma advance_grants: "advanceAuthorizationRevisionTx st = Inr st' \<Longrightarrow> db_grants (st_db st') = db_grants (st_db st)"
  using advance_ok by force

lemma insert_grant_Inr:
  "insert_grant row st = Inr st' \<Longrightarrow> \<exists>n. db_grants (st_db st') = db_grants (st_db st) @ [row\<lparr>row_sequence := n\<rparr>]"
  by (auto simp: insert_grant_def split: sum.splits)

lemma approval_grant_fields [simp]:
  "row_id (approval_grant material constraintJSON grantID now) = grantID"
  "row_principal (approval_grant material constraintJSON grantID now) = am_PrincipalID material"
  "row_target ((approval_grant material constraintJSON grantID now)\<lparr>row_sequence := n\<rparr>) = am_Target material"
  by (simp_all add: approval_grant_def row_target_def)

lemma find_last: "P x \<Longrightarrow> \<forall>y \<in> set xs. \<not> P y \<Longrightarrow> find P (xs @ [x]) = Some x"
  by (induction xs) simp_all

text \<open>An approval appends one grant row, which reads back as the approved policy.\<close>

lemma approve_grant:
  assumes "approve_request_tx audit rx latches cache readable inspect request approved now entropy gs = Inr ((grant, result), gs')"
    and "CompilePolicy rx (apr_ApprovedPolicy request) = Inr approved"
  obtains row material transition where "PrepareGrantRequestApproval rx inspect request approved (gs_requests gs) = Inr (material, transition)"
    and "db_grants (st_db (gs_authority gs')) = db_grants (st_db (gs_authority gs)) @ [row]"
    and "row_id row \<notin> row_id ` set (db_grants (st_db (gs_authority gs)))" and "agr_ApprovedGrantID result = Some (row_id row)"
    and "row_principal row = am_PrincipalID material" and "row_target row = am_Target material"
    and "\<forall>call at arguments hint. row_matches rx call at arguments hint GrantAllow row \<longleftrightarrow>
      policy_permits rx approved (am_Target material) now call arguments hint at"
    and "HasActiveDenyConflictTx (compileConstraint rx) latches (st_db (gs_authority gs)) cache (am_PrincipalID material) (am_Target material) now = Inr False"
proof -
  obtain material transition constraintJSON grantID rest authority gs1 authority1 where a:
      "PrepareGrantRequestApproval rx inspect request approved (gs_requests gs) = Inr (material, transition)"
      "validateApprovalGrantMaterial rx material = Inr constraintJSON"
      "HasActiveDenyConflictTx (compileConstraint rx) latches (st_db (gs_authority gs)) cache (am_PrincipalID material) (am_Target material) now = Inr False"
      "newID now entropy = Inr (grantID, rest)"
      "\<not> list_ex (\<lambda>row. row_id row = grantID) (db_grants (st_db (gs_authority gs)))"
      "insert_grant (approval_grant material constraintJSON grantID now) (gs_authority gs) = Inr authority"
      "CommitGrantRequestApproval audit rx inspect request approved transition grantID now (gs\<lparr>gs_authority := authority\<rparr>) = Inr (result, gs1)"
      "advanceAuthorizationRevisionTx (gs_authority gs1) = Inr authority1" "grantByIDTx readable now grantID authority1 = Inr grant"
      "audit_MutationTx audit True ''grant'' ''create'' grantID authority1 = Inr (gs_authority gs')"
    by (rule approve_Inr [OF assms(1)])
  obtain timestamp where c: "canonicalRequestTime now = Some timestamp" "agr_ApprovedGrantID result = Some grantID"
      "audit_MutationTx audit False ''grant_request'' ''approve'' (apr_ID request) authority = Inr (gs_authority gs1)"
    by (rule Commit_Inr [OF a(7)]) simp
  obtain n where n: "db_grants (st_db authority) =
      db_grants (st_db (gs_authority gs)) @ [(approval_grant material constraintJSON grantID now)\<lparr>row_sequence := n\<rparr>]"
    using insert_grant_Inr [OF a(6)] by blast
  let ?row = "(approval_grant material constraintJSON grantID now)\<lparr>row_sequence := n\<rparr>"
  have grants: "db_grants (st_db authority1) = db_grants (st_db (gs_authority gs)) @ [?row]"
    using advance_grants [OF a(8)] audit_rows [OF c(3)] n by simp
  then have final: "db_grants (st_db (gs_authority gs')) = db_grants (st_db (gs_authority gs)) @ [?row]"
    using audit_rows [OF a(10)] by simp
  have fresh: "grantID \<notin> row_id ` set (db_grants (st_db (gs_authority gs)))"
    using a(5) by (auto simp: list_ex_iff)
  then have "find (\<lambda>row. row_id row = grantID) (db_grants (st_db authority1)) = Some ?row"
    unfolding grants by (intro find_last) (auto simp: image_iff)
  then obtain state where state: "grant_state now (row_expires (approval_grant material constraintJSON grantID now)) = Inr state"
    using a(9) by (auto simp: grantByIDTx_def scanGrant_def map_sum_def split: sum.splits if_splits)
  have m: "am_ReadOnly material = gp_ReadOnly (apr_ApprovedPolicy request)" "am_Constraint material = gp_Constraint (apr_ApprovedPolicy request)"
      "am_DurationSeconds material = policy_duration approved"
    by (rule Prepare_Inr [OF a(1)]; use CompilePolicy_facts(1) [OF assms(2)] in \<open>metis ApprovalGrantMaterial.select_convs\<close>)+
  have now: "canonicalTimestamp (FormatCanonical now) = Some now"
    using request_time [OF c(1)] by (simp add: canonicalStoredTime_def)
  note load = approval_grant_load [OF a(2) assms(2) m newID_valid [OF a(4)] now state]
  show thesis
    using that [OF a(1) final _ _ _ _ _ a(3)] fresh c(2) approval_grant_permits [OF load CompilePolicy_facts(1) [OF assms(2)]] by simp
qed

subsection \<open>Properties\<close>

text \<open>
  C4: An approval grants no more than was asked for, once. Let identifiers of stored requests be distinct, as the schema has it. When \<open>Approve\<close> reports success the request was pending and is now
  approved; exactly one grant was added, under a new identifier, which the request names; the grant belongs to the
  principal that asked. The evaluator matches it exactly for the calls the approved policy permits from the moment of the
  approval, each of which the requested policy permits too; and no active deny of the principal overlaps its target.
\<close>

theorem approval_grants_no_more:
  assumes "distinct (map rq_id (rt_rows (gs_requests (sto_data store))))" and "(cache_step rx)\<^sup>*\<^sup>* empty_cache cache"
    and "Approve audit rx latches cache readable inspect dr gate request now entropy store = (Inr (grant, result), store')"
  shows "\<exists>row approvedRow grantRow requested approved.
    row \<in> set (rt_rows (gs_requests (sto_data store))) \<and> rq_id row = apr_ID request \<and> pending_row row \<and>
    approvedRow \<in> set (rt_rows (gs_requests (sto_data store'))) \<and> submitted_columns approvedRow = submitted_columns row \<and>
    scanAgentRequest rx approvedRow = Inr (rq_sequence row, result) \<and> agr_State result = RequestApproved \<and>
    agr_ApprovedGrantID result = Some (row_id grantRow) \<and>
    db_grants (st_db (gs_authority (sto_data store'))) = db_grants (st_db (gs_authority (sto_data store))) @ [grantRow] \<and>
    row_id grantRow \<notin> row_id ` set (db_grants (st_db (gs_authority (sto_data store)))) \<and> row_principal grantRow = rq_principal row \<and>
    CompilePolicy rx (rq_requested row) = Inr requested \<and> CompilePolicy rx (apr_ApprovedPolicy request) = Inr approved \<and>
    (\<forall>call arguments hint at.
       (row_matches rx call at arguments hint GrantAllow grantRow \<longleftrightarrow> policy_permits rx approved (row_target grantRow) now call arguments hint at) \<and>
       (row_matches rx call at arguments hint GrantAllow grantRow \<longrightarrow>
          policy_permits rx requested \<lparr>ServerID = rq_server row, UpstreamName = rq_upstream row\<rparr> now call arguments hint at)) \<and>
    (\<forall>deny \<in> set (db_grants (st_db (gs_authority (sto_data store)))).
       \<not> (conflict_where (rq_principal row) (row_target grantRow) deny \<and> active_overlap rx (row_target grantRow) now deny))"
proof -
  obtain approved where cp: "CompilePolicy rx (apr_ApprovedPolicy request) = Inr approved"
      and m: "mutate dr isStorageFailure (approve_request_tx audit rx latches cache readable inspect request approved now entropy) store = (Inr (grant, result), store')"
    using Approve_Inr [OF assms(3)] by auto
  note tx = mutate_success [OF m]
  obtain row material transition grantID evidence requested approvedName where
      prepared: "PrepareGrantRequestApproval rx inspect request approved (gs_requests (sto_data store)) = Inr (material, transition)"
      and st: "settles rx (apr_ID request) result row (approved_row (cp_value approved) grantID evidence (FormatCanonical now) row)
        (gs_requests (sto_data store)) (gs_requests (sto_data store'))"
      and state: "agr_State result = RequestApproved" and requested: "CompilePolicy rx (rq_requested row) = Inr requested"
      and target: "approval_target inspect requested \<lparr>ServerID = rq_server row, UpstreamName = rq_upstream row\<rparr> approved approvedName = Inr (am_Target material)"
      and principal: "am_PrincipalID material = rq_principal row"
    by (rule approve_settles [OF tx assms(1)])
  obtain grantRow material' transition' where
      "PrepareGrantRequestApproval rx inspect request approved (gs_requests (sto_data store)) = Inr (material', transition')"
      and g: "db_grants (st_db (gs_authority (sto_data store'))) = db_grants (st_db (gs_authority (sto_data store))) @ [grantRow]"
        "row_id grantRow \<notin> row_id ` set (db_grants (st_db (gs_authority (sto_data store))))" "agr_ApprovedGrantID result = Some (row_id grantRow)"
        "row_principal grantRow = am_PrincipalID material'" "row_target grantRow = am_Target material'"
      and permits: "\<forall>call at arguments hint. row_matches rx call at arguments hint GrantAllow grantRow \<longleftrightarrow>
        policy_permits rx approved (am_Target material') now call arguments hint at"
      and free: "HasActiveDenyConflictTx (compileConstraint rx) latches (st_db (gs_authority (sto_data store))) cache
        (am_PrincipalID material') (am_Target material') now = Inr False"
    by (rule approve_grant [OF tx cp])
  then have same: "material' = material"
    using prepared by simp
  have "\<forall>call arguments hint at.
      (row_matches rx call at arguments hint GrantAllow grantRow \<longleftrightarrow> policy_permits rx approved (row_target grantRow) now call arguments hint at) \<and>
      (row_matches rx call at arguments hint GrantAllow grantRow \<longrightarrow>
         policy_permits rx requested \<lparr>ServerID = rq_server row, UpstreamName = rq_upstream row\<rparr> now call arguments hint at)"
    using permits narrowing_permits [OF requested cp approval_target_Inr(1) [OF target]] g(5) unfolding same by simp
  moreover have "\<forall>deny \<in> set (db_grants (st_db (gs_authority (sto_data store)))).
      \<not> (conflict_where (rq_principal row) (row_target grantRow) deny \<and> active_overlap rx (row_target grantRow) now deny)"
    using cached.HasActiveDenyConflictTx_sound [OF constraint_cache.inv_reachable [OF refl assms(2)] free] principal g(5) unfolding same by auto
  moreover have "approved_row (cp_value approved) grantID evidence (FormatCanonical now) row \<in> set (rt_rows (gs_requests (sto_data store')))"
    using st unfolding settles_def by auto
  moreover have "rq_sequence (approved_row (cp_value approved) grantID evidence (FormatCanonical now) row) = rq_sequence row"
    by (simp add: approved_row_def close_row_def)
  ultimately show ?thesis
    using settles_facts [OF st] g state requested cp principal unfolding same
    by (intro exI [of _ row] exI [of _ "approved_row (cp_value approved) grantID evidence (FormatCanonical now) row"] exI [of _ grantRow]
        exI [of _ requested] exI [of _ approved]) simp
qed

text \<open>
  C15: A request settles once. From any state the operations reach, whatever follows: an identifier given to a request is
  never given to another, a row under an identifier is the row that had it, unchanged if it was closed, and if
  it was pending either unchanged or closed with everything the agent submitted kept. No single step loses a pending request:
  only closed ones are evicted to make room.
\<close>

theorem request_settles_once:
  assumes "gs_requests (sto_data start) = no_requests" and "(request_step rx stored)\<^sup>*\<^sup>* start store"
  shows "(\<forall>store'. (request_step rx stored)\<^sup>*\<^sup>* store store' \<longrightarrow> evolves (gs_requests (sto_data store)) (gs_requests (sto_data store'))) \<and>
    (\<forall>store'. request_step rx stored store store' \<longrightarrow> keeps_pending (gs_requests (sto_data store)) (gs_requests (sto_data store')))"
proof -
  have ok: "requests_ok rx stored (gs_requests (sto_data store))"
    by (rule requests.inv_reachable [OF assms])
  show ?thesis
    using requests_evolve [OF _ ok] request_step_sound [OF _ ok] unfolding sound_change_def by blast
qed


subsection \<open>Examples\<close>

definition sample_inspect :: request_inspectors where
  "sample_inspect =
     \<lparr>in_namespaces = (\<lambda>n. if n = ''github'' then Inr \<lparr>ns_ID = ''0123456789ABCDEFGHJKMNPQRS'', ns_Namespace = n, ns_State = ''enabled''\<rparr> else Inl TargetNotFound),
      in_descriptors = (\<lambda>_ _. Inl TargetNotFound), in_denies = (\<lambda>_ _ _. Inr False), in_evidence = (\<lambda>_ _ _. None)\<rparr>"

definition sample_request :: request_row where
  "sample_request =
     \<lparr>rq_sequence = 1, rq_id = ''0000000000040G2081040G2081'', rq_principal = ''00000000000000000000000001'', rq_state = ''pending'', rq_revision = 1,
      rq_server = ''0123456789ABCDEFGHJKMNPQRS'', rq_upstream = None, rq_requested = sample_server_policy, rq_dedupeVersion = 1, rq_dedupeBytes = [],
      rq_submittedEvidence = None, rq_approved = no_approved, rq_approvedGrantID = None, rq_rejectionReason = None, rq_approvedEvidence = None,
      rq_createdAt = ''1970-01-01T00:00:00.000000000Z'', rq_updatedAt = ''1970-01-01T00:00:00.000000000Z'', rq_closedAt = None, rq_approvedReadOnly = False\<rparr>"

definition sample_gateway :: gateway_state where
  "sample_gateway = \<lparr>gs_authority = sample_authority 0,
     gs_requests = \<lparr>rt_rows = [sample_request], rt_identities = [(''0000000000040G2081040G2081'', ''1970-01-01T00:00:00.000000000Z'')], rt_sequence = 1, rt_evidence = 0\<rparr>\<rparr>"

definition sample_approval :: ApproveRequest where
  "sample_approval = \<lparr>apr_Description = None, apr_ID = ''0000000000040G2081040G2081'', apr_ExpectedRevision = ''1'', apr_ApprovedPolicy = sample_server_policy\<rparr>"

definition sample_approved :: CompiledPolicy where
  "sample_approved = \<lparr>cp_value = sample_server_policy, cp_constraint = None, cp_durationSeconds = 0, cp_durationSecondsValid = False\<rparr>"

definition sample_material :: ApprovalGrantMaterial where
  "sample_material = \<lparr>am_ReadOnly = False, am_Description = None, am_PrincipalID = ''00000000000000000000000001'',
     am_Target = \<lparr>ServerID = ''0123456789ABCDEFGHJKMNPQRS'', UpstreamName = None\<rparr>, am_Constraint = None, am_DurationSeconds = None\<rparr>"

lemma sample_approval_parts:
  "CompilePolicy no_regex sample_server_policy = Inr sample_approved"
  "PrepareGrantRequestApproval no_regex sample_inspect sample_approval sample_approved (gs_requests sample_gateway) =
     Inr (sample_material, \<lparr>tr_createdAt = ''1970-01-01T00:00:00.000000000Z'', tr_descriptor = None\<rparr>)"
  "HasActiveDenyConflictTx (compileConstraint no_regex) (False, False) (st_db (gs_authority sample_gateway)) empty_cache
     (am_PrincipalID sample_material) (am_Target sample_material) 0 = Inr False"
  "newID 0 (replicate 10 1) = Inr (''0000000000040G2081040G2081'', [])"
  "normalizePolicyTarget sample_approved \<noteq> None" "validOpaqueID (apr_ID sample_approval)"
  "validOpaqueID (am_PrincipalID sample_material)" "validOpaqueID (ServerID (am_Target sample_material))"
  "0 \<noteq> zero_instant" "UnixMilli 0 = 0"
  by code_simp+

definition sample_granted :: authority_state where
  "sample_granted = (sample_authority 0)\<lparr>
     st_db := (st_db (sample_authority 0))\<lparr>db_grants :=
       [(approval_grant sample_material None ''0000000000040G2081040G2081'' 0)\<lparr>row_sequence := 1\<rparr>]\<rparr>, st_grant_sequence := 1\<rparr>"

lemma sample_commit:
  "is_ok (CommitGrantRequestApproval (\<lambda>_. None) no_regex sample_inspect sample_approval sample_approved
     \<lparr>tr_createdAt = ''1970-01-01T00:00:00.000000000Z'', tr_descriptor = None\<rparr> ''0000000000040G2081040G2081'' 0
     (sample_gateway\<lparr>gs_authority := authority\<rparr>))"
  by code_simp

lemma sample_write:
  "\<exists>grant result gs'. approve_write (\<lambda>_. None) no_regex (\<lambda>_. True) sample_inspect sample_approval sample_approved sample_material None
     \<lparr>tr_createdAt = ''1970-01-01T00:00:00.000000000Z'', tr_descriptor = None\<rparr> ''0000000000040G2081040G2081'' 0 sample_gateway = Inr ((grant, result), gs')"
proof -
  obtain result gs1 where commit: "CommitGrantRequestApproval (\<lambda>_. None) no_regex sample_inspect sample_approval sample_approved
     \<lparr>tr_createdAt = ''1970-01-01T00:00:00.000000000Z'', tr_descriptor = None\<rparr> ''0000000000040G2081040G2081'' 0
     (sample_gateway\<lparr>gs_authority := sample_granted\<rparr>) = Inr (result, gs1)"
    using sample_commit [of sample_granted] by (auto elim!: is_okE)
  let ?audit = "st_audit sample_granted @ [\<lparr>au_system = False, au_category = ''grant_request'', au_action = ''approve'', au_target = apr_ID sample_approval\<rparr>]"
  have "gs_authority gs1 = sample_granted\<lparr>st_audit := ?audit\<rparr>"
    by (rule Commit_Inr [OF commit]) (simp add: audit_MutationTx_def)
  moreover have "insert_grant (approval_grant sample_material None ''0000000000040G2081040G2081'' 0) (gs_authority sample_gateway) = Inr sample_granted"
    by (simp add: insert_grant_def increment_def sample_gateway_def sample_authority_def sample_granted_def)
  moreover obtain grant where "grantByIDTx (\<lambda>_. True) 0 ''0000000000040G2081040G2081''
      (sample_granted\<lparr>st_audit := ?audit, st_db := (st_db sample_granted)\<lparr>db_revision := 1\<rparr>\<rparr>) = Inr grant"
    using first_revision by (simp add: grantByIDTx_def scanGrant_def grant_state_def sample_granted_def approval_grant_def sample_material_def validGrantDescription_def)
  moreover have "advanceAuthorizationRevisionTx (sample_granted\<lparr>st_audit := a\<rparr>) = Inr (sample_granted\<lparr>st_audit := a, st_db := (st_db sample_granted)\<lparr>db_revision := 1\<rparr>\<rparr>)" for a
    by (simp add: advanceAuthorizationRevisionTx_def increment_def sample_granted_def sample_authority_def)
  moreover have "db_grants (st_db (gs_authority sample_gateway)) = []"
    by (simp add: sample_gateway_def sample_authority_def)
  ultimately show ?thesis
    unfolding approve_write_def using commit by (auto simp: audit_MutationTx_def)
qed

lemma sample_approve:
  "\<exists>grant result store'. Approve (\<lambda>_. None) no_regex (False, False) empty_cache (\<lambda>_. True) sample_inspect steady_driver None sample_approval 0 (replicate 10 1)
     \<lparr>sto_owned = False, sto_latched = False, sto_data = sample_gateway\<rparr> = (Inr (grant, result), store')"
proof -
  obtain grant result gs' where w: "approve_write (\<lambda>_. None) no_regex (\<lambda>_. True) sample_inspect sample_approval sample_approved sample_material None
     \<lparr>tr_createdAt = ''1970-01-01T00:00:00.000000000Z'', tr_descriptor = None\<rparr> ''0000000000040G2081040G2081'' 0 sample_gateway = Inr ((grant, result), gs')"
    using sample_write by blast
  note parts = sample_approval_parts
  have "validateApprovalGrantMaterial no_regex sample_material = Inr None"
    using parts(7,8) by (simp add: validateApprovalGrantMaterial_def sample_material_def validGrantDescription_def)
  moreover have "\<exists>p. principalByIDTx (am_PrincipalID sample_material) (gs_authority sample_gateway) = Inr p"
    unfolding sample_material_def sample_gateway_def ApprovalGrantMaterial.simps gateway_state.simps
    by (rule exI, rule read_sample [of _ "sample_agent 0" None]) (simp_all add: sample_authority_def sample_agent_def scan_credential_def)
  moreover have "db_grants (st_db (gs_authority sample_gateway)) = []"
    by (simp add: sample_gateway_def sample_authority_def)
  ultimately have tx: "approve_request_tx (\<lambda>_. None) no_regex (False, False) empty_cache (\<lambda>_. True) sample_inspect sample_approval sample_approved 0 (replicate 10 1)
      sample_gateway = Inr ((grant, result), gs')"
    unfolding approve_request_tx_def using parts(2-4,9,10) w by auto
  have "FormatInt 1 = ''1''"
    by code_simp
  then have "validExpectedRevision (apr_ExpectedRevision sample_approval)"
    using format_parse [of 1] by (simp add: validExpectedRevision_def sample_approval_def)
  moreover have "validGrantDescription (apr_Description sample_approval)" "apr_ApprovedPolicy sample_approval = sample_server_policy"
    by (simp_all add: sample_approval_def validGrantDescription_def)
  ultimately show ?thesis
    using parts(1,5,6) tx
    by (auto simp: Approve_def ApproveGrantRequest_def mutate_def acquireMutation_def releaseMutation_def mutateOwned_def finishConnection_def
        run_transaction_def steady_driver_def)
qed

theorem approval_grants_no_more_witness:
  "\<exists>grant result store' grantRow.
     Approve (\<lambda>_. None) no_regex (False, False) empty_cache (\<lambda>_. True) sample_inspect steady_driver None sample_approval 0 (replicate 10 1)
       \<lparr>sto_owned = False, sto_latched = False, sto_data = sample_gateway\<rparr> = (Inr (grant, result), store') \<and>
     db_grants (st_db (gs_authority (sto_data store'))) = [grantRow] \<and> agr_ApprovedGrantID result = Some (row_id grantRow) \<and>
     row_principal grantRow = ''00000000000000000000000001''"
proof -
  let ?store = "\<lparr>sto_owned = False, sto_latched = False, sto_data = sample_gateway\<rparr>"
  obtain grant result store' where run: "Approve (\<lambda>_. None) no_regex (False, False) empty_cache (\<lambda>_. True) sample_inspect steady_driver None
      sample_approval 0 (replicate 10 1) ?store = (Inr (grant, result), store')"
    using sample_approve by blast
  have "distinct (map rq_id (rt_rows (gs_requests (sto_data ?store))))"
    by (simp add: sample_gateway_def)
  from approval_grants_no_more [OF this rtranclp.rtrancl_refl run] run show ?thesis
    by (auto simp: sample_gateway_def sample_authority_def sample_request_def)
qed

definition sample_stored :: stored_inspectors where
  "sample_stored =
     \<lparr>si_principal = (\<lambda>p. p = ''00000000000000000000000001''), si_namespace = (\<lambda>s. if s = ''0123456789ABCDEFGHJKMNPQRS'' then Some ''github'' else None),
      si_evidence = (\<lambda>_ _ _ _. False)\<rparr>"

lemma sample_sources: "sources_ok sample_stored sample_inspect"
  by (auto simp: sources_ok_def sample_stored_def sample_inspect_def SyntheticServerNamespace_def split: if_splits)

definition sample_empty :: "gateway_state store" where
  "sample_empty = \<lparr>sto_owned = False, sto_latched = False, sto_data = \<lparr>gs_authority = sample_authority 0, gs_requests = no_requests\<rparr>\<rparr>"

abbreviation sample_creation :: "gateway_state store" where
  "sample_creation \<equiv> snd (CreateOrExisting no_regex sample_inspect New_capacity steady_driver ''00000000000000000000000001'' sample_server_policy 0
     (replicate 10 1) sample_empty)"

lemma sample_run: "(request_step no_regex sample_stored)\<^sup>*\<^sup>* sample_empty sample_creation"
proof -
  have "request_step no_regex sample_stored sample_empty sample_creation"
    by (rule Do_Create [OF surjective_pairing sample_sources]) (simp add: sample_stored_def)
  then show ?thesis ..
qed

theorem request_settles_once_witness:
  "evolves (gs_requests (sto_data sample_creation)) (gs_requests (sto_data (snd (CancelOwned no_regex steady_driver
     ''00000000000000000000000001'' ''0000000000040G2081040G2081'' 1 sample_creation)))) \<and>
   keeps_pending (gs_requests (sto_data sample_creation)) (gs_requests (sto_data (snd (CancelOwned no_regex steady_driver
     ''00000000000000000000000001'' ''0000000000040G2081040G2081'' 1 sample_creation))))"
proof -
  have cancel: "request_step no_regex sample_stored sample_creation (snd (CancelOwned no_regex steady_driver
      ''00000000000000000000000001'' ''0000000000040G2081040G2081'' 1 sample_creation))"
    by (rule Do_Cancel [OF surjective_pairing])
  have "gs_requests (sto_data sample_empty) = no_requests"
    by (simp add: sample_empty_def)
  from request_settles_once [OF this sample_run] cancel show ?thesis
    by blast
qed


end
