(* ===== verification/Spec2Isabelle.thy ===== *)
theory Spec2Isabelle
  imports Contract_Vocabulary Http_Properties Git_Policy Git_Properties Strict_Json_Facts Access_Target Contract_Values
    Event_Hub Auth_Properties Request_Dedupe Lease_Properties Request_Properties
begin

text \<open>
  \<^bold>\<open>Verification of the agent gateway\<close> (\<open>src/agent-gateway\<close>).

  The agent gateway stands between coding agents and the outside world. An agent is a principal with a
  credential; an operator gives it grants. Three kinds of traffic are mediated, each with its own policy
  language and its own decision procedure: tool calls on MCP servers (\<open>internal/authorization\<close>), HTTP
  requests and CONNECT tunnels through the proxy (\<open>internal/httppolicy\<close>), and Git over HTTP
  (\<open>internal/gitpolicy\<close>, \<open>internal/gitwire\<close>, \<open>internal/httpproxy/git.go\<close>). Agents may ask for grants, which
  an operator approves as asked or narrowed (\<open>internal/grantrequests\<close>). All documents that cross a trust
  boundary are read by the strict JSON reader (\<open>internal/strictjson\<close>), and the control interface is kept up
  to date by the event hub (\<open>internal/events\<close>). The vocabulary they share is \<open>internal/contract\<close>.

  \<^bold>\<open>Conventions.\<close> A Go string or byte slice is a list of bytes, a nil-able pointer or a nullable column an
  option, a function with an error a sum whose left side is the error, a struct a record, an enumeration a
  datatype with its spelling function, a loop a recursive function on what it ranges over, a mutex-guarded
  object a record that each operation returns updated. Fixed-width integers are words where they can wrap
  (ports, stream numbers, revisions of policies, addresses) and integers where the source bounds them. What
  is not Go source of this repository is a parameter: the IDNA profile, the regular-expression engine
  (\<open>regex_lib\<close>), the answers of the network, the inspectors of other stores. A database table is a list of
  rows, a query its \<open>WHERE\<close>, \<open>ORDER BY\<close> and \<open>LIMIT\<close> on it.

  \<^bold>\<open>Ground.\<close> \<open>Prelude\<close>: results, scans that reject repetitions, sorting by a key, and the locale \<open>step_invariant\<close>
  of state machines with an invariant. \<open>Go_Strings\<close>, \<open>Go_Json\<close>, \<open>Go_Time\<close>, \<open>Net_Addr\<close>: what the sources use of
  Go's \<open>strings\<close>, \<open>strconv\<close>, \<open>unicode/utf8\<close>, \<open>encoding/json\<close>, \<open>time\<close> and \<open>net/netip\<close>, with round trips for
  numbers, timestamps and JSON strings.

  \<^bold>\<open>Contract.\<close> \<open>Contract_Vocabulary\<close>: the closed vocabularies with their parsers, each an interpretation of the
  locale \<open>complete_vocabulary\<close> (every value is accepted, under its own spelling only). \<open>Contract_Values\<close>:
  identifiers, host names and the table of fixed limits. \<open>Access_Target\<close>: the scope of MCP access, a
  partial order whose overlap is the existence of a common target.

  \<^bold>\<open>Strict JSON.\<close> \<open>Strict_Json\<close> and \<open>Strict_Json_Facts\<close>: the validating reader and the compact encoder of
  \<open>strictjson\<close>. The reader is recursive with fuel; the fuel given is shown to be enough on every input, the
  values read are free of repeated members and within depth and size, and what the encoder writes is read
  back as the same value.

  \<^bold>\<open>HTTP policy.\<close> \<open>Http_Path\<close>, \<open>Http_Target\<close>, \<open>Http_Address\<close>, \<open>Http_Policy\<close>, \<open>Http_Evaluate\<close> with their properties in
  \<open>Http_Properties\<close>: canonical paths, destinations, address classes, the compiler of policies, credential
  boundaries, and the decisions \<open>Connect\<close>, \<open>Request\<close> and \<open>GitDestination\<close>. The decisions are characterised
  exactly: blocks override allows, addresses are admitted by class, a credential is used only on
  requests inside its boundary, and the order of grants does not matter.

  \<^bold>\<open>Git.\<close> \<open>Git_Policy\<close> (ref rules and their normal form), \<open>Git_Wire\<close> (the receive-pack command list), \<open>Git_Status\<close>
  (the observer of the status report), \<open>Git_Traffic\<close> (evidence records and their validators), \<open>Git_Admission\<close>
  (the decision on an opened request, the evidence trimmed to its envelope, and the exchange), \<open>Git_Properties\<close>.
  The bytes of the client are forwarded unchanged, decisions are exact, evidence and outcomes always
  pass their validators, and success is reported only when the remote claims it for every ref.

  \<^bold>\<open>MCP authorization.\<close> \<open>Auth_Values\<close> (validators, rows, start-up checks), \<open>Constraint\<close> (constraints on
  arguments and their budgeted matching), \<open>Constraint_Cache\<close> (the shared cache of compiled constraints as a
  state machine; the locale \<open>constraint_compiler\<close> is what its clients rely on, and the cache interprets
  it), \<open>Evaluator\<close> (loading grants, deciding, deny conflicts, structural reading; the lemmas are proved in
  the context of \<open>constraint_compiler\<close>), \<open>Auth_Properties\<close>: deny overrides exactly, availability under bounds,
  the conflict check is exact and lasting, discovery agrees with calls, and a table the import can produce
  makes evaluation unavailable (a finding).

  \<^bold>\<open>Authority.\<close> \<open>Identity\<close> (ULIDs and bearer credentials), \<open>Store\<close> (\<open>internal/storage/mutations.go\<close>: one attempt to change
  the database, with every answer of the driver, and the latch that closes the store once an outcome is in doubt),
  \<open>Authority_Tables\<close> and \<open>Authority_Mutations\<close> (principals, credentials and grants in
  \<open>internal/authorization\<close>, each operation the transaction and the treatment of its errors), \<open>Credentials\<close>
  (issue, revocation, authentication), \<open>Authority_Invariant\<close> (what every transaction keeps) and \<open>Authority_Properties\<close>: all
  sequences of operations leave tables the start-up check and the readers accept, and issuing a credential
  hands authentication over at once.

  \<^bold>\<open>Leases.\<close> \<open>Leases\<close> (\<open>leases.go\<close>, \<open>admission.go\<close>, \<open>confirmation.go\<close>): the registry of leases with its gate, waiting room,
  cancellation and draining, and the three phases of an admission, as a step relation on interleaved calls.
  \<open>Lease_Invariant\<close> and \<open>Lease_Tables\<close> show the registry's own invariants and how they follow the tables; \<open>Lease_Properties\<close>
  collects them in an interpretation of \<open>step_invariant\<close>: whenever a call is admitted its credential is current
  and the tables as they are then allow it.

  \<^bold>\<open>Grant requests.\<close> \<open>Request_Policy\<close> (the policy of a request, its compilation, narrowing) and \<open>Request_Dedupe\<close>
  (the identity of a request can be read back, narrowing is sound). \<open>Grant_Targets\<close>: the servers a request may
  name; the locale \<open>namespace_registry\<close>, interpreted by the lookups of \<open>servers/grant_targets.go\<close>, says that namespaces are
  permanent. \<open>Request_Store\<close> (rows, their reading, room for new ones), \<open>Request_Lifecycle\<close> (creation, cancellation,
  rejection), \<open>Request_Approval\<close> (approval, with the grant it makes in \<open>authorization/request_approval.go\<close>) and
  \<open>Request_Startup\<close> are the operations of \<open>internal/grantrequests\<close>; each is a transaction on the tables of authorization and
  requests together, run by the mutation of \<open>Store\<close>. \<open>Request_Invariant\<close> and \<open>Request_Transitions\<close> show what each keeps,
  \<open>Request_Steps\<close> makes them steps, and \<open>Request_Properties\<close> shows that stored requests always pass the check at start-up, that
  a request settles once, and that an approval makes one grant for no more than was asked. What requests rely on
  in other stores is the hypothesis \<open>sources_ok\<close>: namespaces are permanent, and evidence that is written is accepted
  when it is read back.

  \<^bold>\<open>Events.\<close> \<open>Event_Hub\<close>: every operation of the hub as a step; bounds, exactly-once closing, and that no
  coalesced invalidation is lost.

  \<^bold>\<open>Bounds and fuel.\<close> Only the JSON reader and its validator use fuel, twice the length of the input and more
  (\<open>fuel_for\<close>), proved sufficient (\<open>parse_value_total\<close>). Every other loop is structural or has a measure.

  \<^bold>\<open>Not modelled.\<close> Process supervision and transports, TLS interception, key stores, migrations and the SQL
  engine, the command line and the handlers of the control interface, which move data between the parts
  above and the operating system; the parsing of URLs (\<open>net/url\<close>) in front of the HTTP and Git targets; the
  catalog of tools. Of the database the transactions are modelled, with failures before, during and after a
  commit; the SQL engine itself is not: a statement inside a transaction fails only where the source
  expects it to.
\<close>

end
